(* ===== verification/Prelude.thy ===== *)
theory Prelude
  imports Main "HOL-Library.Word" "HOL-Library.List_Lexorder" "HOL-Library.Sublist"
begin

text \<open>
  Shared vocabulary of the development: byte strings, big-endian encodings of machine words with
  their round trip and their order (the lexicographic order of the bytes is the numeric order of
  the words), the outcome type of operations that may abort, and the lemma collections that the
  component theories extend.
\<close>

named_theorems db_simps
named_theorems key_simps
named_theorems eval_simps

section \<open>Types\<close>

type_synonym byte = "8 word"
type_synonym bytes = "8 word list"
type_synonym u16 = "16 word"
type_synonym u64 = "64 word"
type_synonym hash = "256 word"

text \<open>
  An operation that the source may abort returns a sum: the left injection is a panic (a failed
  \<^verbatim>\<open>expect\<close>, \<^verbatim>\<open>assert\<close> or slice index) or the hard error that aborts the whole batch.
\<close>

datatype fault = Panic string | UnexpectedKaspaNodeBehaviour

type_synonym 'a res = "fault + 'a"

fun and_then :: "'e + 'a \<Rightarrow> ('a \<Rightarrow> 'e + 'b) \<Rightarrow> 'e + 'b" where
  "and_then (Inl e) f = Inl e"
| "and_then (Inr a) f = f a"

lemma and_then_Inr_iff: "and_then m f = Inr b \<longleftrightarrow> (\<exists>a. m = Inr a \<and> f a = Inr b)"
  by (cases m) auto

lemma and_then_assoc: "and_then (and_then m f) g = and_then m (\<lambda>x. and_then (f x) g)"
  by (cases m) auto

fun expect :: "string \<Rightarrow> 'a option \<Rightarrow> 'a res" where
  "expect msg None = Inl (Panic msg)"
| "expect msg (Some a) = Inr a"

lemma expect_Inr_iff [simp]: "expect msg x = Inr a \<longleftrightarrow> x = Some a"
  by (cases x) auto

section \<open>Lists\<close>

lemma append_less_same_length:
  "length xs = length ys \<Longrightarrow>
   (xs @ us < ys @ vs) = (xs < ys \<or> (xs = ys \<and> us < (vs :: 'a::linorder list)))"
  by (induction xs ys rule: list_induct2) auto

lemma append_le_same_length:
  "length xs = length ys \<Longrightarrow>
   (xs @ us \<le> ys @ vs) = (xs < ys \<or> (xs = ys \<and> us \<le> (vs :: 'a::linorder list)))"
  by (auto simp: le_less append_less_same_length)

lemma foldl_unchanged: "(\<And>x a. x \<in> set xs \<Longrightarrow> f a x = a) \<Longrightarrow> foldl f a xs = a"
  by (induction xs arbitrary: a) auto

lemma foldl_invariant:
  "P a \<Longrightarrow> (\<And>x b. x \<in> set xs \<Longrightarrow> P b \<Longrightarrow> P (f b x)) \<Longrightarrow> P (foldl f a xs)"
  by (induction xs arbitrary: a) auto

section \<open>Big-endian bytes\<close>

fun nat_be :: "nat \<Rightarrow> nat \<Rightarrow> bytes" where
  "nat_be 0 x = []"
| "nat_be (Suc n) x = word_of_nat (x div 256 ^ n) # nat_be n (x mod 256 ^ n)"

fun be_nat :: "bytes \<Rightarrow> nat" where
  "be_nat [] = 0"
| "be_nat (b # bs) = unat b * 256 ^ length bs + be_nat bs"

lemma length_nat_be [simp]: "length (nat_be n x) = n"
  by (induction n arbitrary: x) auto

lemma be_nat_bound: "be_nat bs < 256 ^ length bs"
proof (induction bs)
  case (Cons b bs)
  have "unat b < 256" using unsigned_less [of b] by simp
  then have "unat b * 256 ^ length bs + 256 ^ length bs \<le> 256 * 256 ^ length bs"
    by (metis Suc_eq_plus1 Suc_leI add_mult_distrib mult_le_mono1 nat_mult_1)
  with Cons have "unat b * 256 ^ length bs + be_nat bs < 256 * 256 ^ length bs" by linarith
  then show ?case by simp
qed simp

lemma unat_byte_of_nat: "m < 256 \<Longrightarrow> unat (word_of_nat m :: byte) = m"
  by (simp add: unat_of_nat take_bit_nat_eq_self_iff unsigned_of_nat)

lemma be_nat_nat_be [simp]: "x < 256 ^ n \<Longrightarrow> be_nat (nat_be n x) = x"
proof (induction n arbitrary: x)
  case (Suc n)
  have "x div 256 ^ n < 256" using Suc.prems by (simp add: less_mult_imp_div_less mult.commute)
  then show ?case using Suc.IH [of "x mod 256 ^ n"] by (simp add: unat_byte_of_nat div_mult_mod_eq)
qed simp

lemma nat_be_be_nat [simp]: "nat_be (length bs) (be_nat bs) = bs"
proof (induction bs)
  case (Cons b bs)
  have "(unat b * 256 ^ length bs + be_nat bs) div 256 ^ length bs = unat b"
    using be_nat_bound [of bs] by simp
  moreover have "(unat b * 256 ^ length bs + be_nat bs) mod 256 ^ length bs = be_nat bs"
    using be_nat_bound [of bs] by simp
  ultimately show ?case using Cons by simp
qed simp

lemma byte_of_nat_less: "m < 256 \<Longrightarrow> k < 256 \<Longrightarrow> (word_of_nat m < (word_of_nat k :: byte)) = (m < k)"
  by (simp add: word_less_nat_alt unat_byte_of_nat)

lemma div_mod_less:
  "(x < (y::nat)) = (x div m < y div m \<or> (x div m = y div m \<and> x mod m < y mod m))"
proof (cases "x div m = y div m")
  case True
  have "x = m * (x div m) + x mod m" "y = m * (y div m) + y mod m" by simp_all
  with True show ?thesis by (metis nat_add_left_cancel_less less_irrefl)
next
  case False
  then show ?thesis by (metis div_le_mono le_less less_imp_le_nat not_le)
qed

lemma nat_be_less:
  "x < 256 ^ n \<Longrightarrow> y < 256 ^ n \<Longrightarrow> (nat_be n x < nat_be n y) = (x < y)"
proof (induction n arbitrary: x y)
  case (Suc n)
  let ?m = "256 ^ n :: nat"
  have d: "x div ?m < 256" "y div ?m < 256"
    using Suc.prems by (simp_all add: less_mult_imp_div_less mult.commute)
  have e: "(word_of_nat (x div ?m) = (word_of_nat (y div ?m) :: byte)) = (x div ?m = y div ?m)"
    using d by (metis unat_byte_of_nat)
  have "(x < y) = (x div ?m < y div ?m \<or> (x div ?m = y div ?m \<and> x mod ?m < y mod ?m))"
    by (rule div_mod_less)
  then show ?case using d e Suc.IH [of "x mod ?m" "y mod ?m"]
    by (simp add: byte_of_nat_less)
qed simp

text \<open>\<^verbatim>\<open>to_be_bytes\<close> and \<^verbatim>\<open>from_be_bytes\<close>; the decoder is partial, as \<^verbatim>\<open>try_into().unwrap()\<close> is.\<close>

definition be_bytes :: "nat \<Rightarrow> 'a::len word \<Rightarrow> bytes" where
  "be_bytes n w = nat_be n (unat w)"

definition of_be_bytes :: "nat \<Rightarrow> bytes \<Rightarrow> 'a::len word option" where
  "of_be_bytes n bs = (if length bs = n then Some (word_of_nat (be_nat bs)) else None)"

lemma length_be_bytes [simp]: "length (be_bytes n w) = n"
  by (simp add: be_bytes_def)

lemma unat_bytes_bound:
  fixes w :: "'a::len word"
  assumes "LENGTH('a) = 8 * n"
  shows "unat w < 256 ^ n"
  using unsigned_less [of w] assms by (simp add: power_mult)

lemma of_be_bytes_be_bytes:
  "LENGTH('a) = 8 * n \<Longrightarrow> of_be_bytes n (be_bytes n (w :: 'a::len word)) = Some w"
  by (simp add: of_be_bytes_def be_bytes_def unat_bytes_bound)

lemma be_bytes_of_be_bytes:
  assumes "LENGTH('a) = 8 * n" "of_be_bytes n bs = Some (w :: 'a::len word)"
  shows "be_bytes n w = bs"
proof -
  have l: "length bs = n" and w: "w = word_of_nat (be_nat bs)"
    using assms(2) by (auto simp: of_be_bytes_def split: if_splits)
  have "be_nat bs < 2 ^ LENGTH('a)" using be_nat_bound [of bs] l assms(1) by (simp add: power_mult)
  then have "unat w = be_nat bs" using w by (simp add: unat_of_nat unsigned_of_nat take_bit_nat_eq_self_iff)
  with l show ?thesis by (simp add: be_bytes_def flip: l)
qed

lemma be_bytes_less:
  "LENGTH('a) = 8 * n \<Longrightarrow> (be_bytes n v < be_bytes n (w :: 'a::len word)) = (v < w)"
  by (simp add: be_bytes_def nat_be_less unat_bytes_bound word_less_nat_alt)

lemma be_bytes_inject:
  "LENGTH('a) = 8 * n \<Longrightarrow> (be_bytes n v = be_bytes n (w :: 'a::len word)) = (v = w)"
  by (metis of_be_bytes_be_bytes option.inject)

lemma be_bytes_le:
  "LENGTH('a) = 8 * n \<Longrightarrow> (be_bytes n v \<le> be_bytes n (w :: 'a::len word)) = (v \<le> w)"
  by (simp add: le_less be_bytes_less be_bytes_inject)

abbreviation u64_be :: "u64 \<Rightarrow> bytes" where "u64_be \<equiv> be_bytes 8"
abbreviation u64_of_be :: "bytes \<Rightarrow> u64 option" where "u64_of_be \<equiv> of_be_bytes 8"
abbreviation u16_be :: "u16 \<Rightarrow> bytes" where "u16_be \<equiv> be_bytes 2"
abbreviation u16_of_be :: "bytes \<Rightarrow> u16 option" where "u16_of_be \<equiv> of_be_bytes 2"
abbreviation hash_be :: "hash \<Rightarrow> bytes" where "hash_be \<equiv> be_bytes 32"
abbreviation hash_of_be :: "bytes \<Rightarrow> hash option" where "hash_of_be \<equiv> of_be_bytes 32"

lemma u64_be_simps [simp]:
  "u64_of_be (u64_be w) = Some w" "(u64_be v < u64_be w) = (v < w)"
  "(u64_be v = u64_be w) = (v = w)" "(u64_be v \<le> u64_be w) = (v \<le> w)"
  by (simp_all add: of_be_bytes_be_bytes be_bytes_less be_bytes_inject be_bytes_le)

lemma u16_be_simps [simp]:
  "u16_of_be (u16_be w) = Some w" "(u16_be v < u16_be w) = (v < w)"
  "(u16_be v = u16_be w) = (v = w)" "(u16_be v \<le> u16_be w) = (v \<le> w)"
  by (simp_all add: of_be_bytes_be_bytes be_bytes_less be_bytes_inject be_bytes_le)

lemma hash_be_simps [simp]:
  "hash_of_be (hash_be w) = Some w" "(hash_be v < hash_be w) = (v < w)"
  "(hash_be v = hash_be w) = (v = w)" "(hash_be v \<le> hash_be w) = (v \<le> w)"
  by (simp_all add: of_be_bytes_be_bytes be_bytes_less be_bytes_inject be_bytes_le)

section \<open>Unsigned 64-bit arithmetic\<close>

text \<open>
  Release builds wrap (\<^verbatim>\<open>+\<close>, \<^verbatim>\<open>*\<close> on words); the saturating operations clamp at the ends of the range.
\<close>

definition sat_add :: "u64 \<Rightarrow> u64 \<Rightarrow> u64" where
  "sat_add a b = (if unat a + unat b < 2 ^ 64 then a + b else - 1)"

definition sat_sub :: "u64 \<Rightarrow> u64 \<Rightarrow> u64" where
  "sat_sub a b = (if b \<le> a then a - b else 0)"

lemma unat_max_u64: "unat (- 1 :: u64) = 2 ^ 64 - 1"
  by (simp add: unsigned_minus_1_eq_mask mask_eq_exp_minus_1)

lemma unat_u64_bound: "unat (x :: u64) < 2 ^ 64"
  using unsigned_less [of x, where ?'a = nat] by simp

lemma unat_u64_of_nat: "n < 2 ^ 64 \<Longrightarrow> unat (word_of_nat n :: u64) = n"
  by (simp add: unat_of_nat take_bit_nat_eq_self_iff unsigned_of_nat)

lemma unat_sat_add: "unat (sat_add a b) = min (unat a + unat b) (2 ^ 64 - 1)"
proof (cases "unat a + unat b < 2 ^ 64")
  case True
  then have "unat (a + b) = unat a + unat b" by (subst unat_add_lem [symmetric]) simp
  with True show ?thesis by (simp add: sat_add_def)
next
  case False
  then show ?thesis by (simp add: sat_add_def unat_max_u64)
qed

lemma unat_sat_sub: "unat (sat_sub a b) = unat a - unat b"
  by (auto simp: sat_sub_def unat_sub word_le_nat_alt)

lemma unat_add_no_overflow: "unat a + unat b < 2 ^ 64 \<Longrightarrow> unat (a + b :: u64) = unat a + unat b"
  by (subst unat_add_lem [symmetric]) simp

lemma unat_mult_no_overflow: "unat a * unat b < 2 ^ 64 \<Longrightarrow> unat (a * b :: u64) = unat a * unat b"
  by (subst unat_mult_lem [symmetric]) simp

lemma unat_sub_le: "b \<le> a \<Longrightarrow> unat (a - b :: u64) = unat a - unat b"
  by (simp add: unat_sub word_le_nat_alt)

text \<open>The source stores \<^verbatim>\<open>u64::MAX - x\<close> where it wants a descending order.\<close>

definition rev_u64 :: "u64 \<Rightarrow> u64" where
  "rev_u64 x = - 1 - x"

lemma unat_rev_u64: "unat (rev_u64 x) = 2 ^ 64 - 1 - unat x"
  by (simp add: rev_u64_def unat_sub unat_max_u64)

lemma rev_u64_invol [simp]: "rev_u64 (rev_u64 x) = x"
  by (simp add: rev_u64_def)

lemma rev_u64_inject [simp]: "(rev_u64 x = rev_u64 y) = (x = y)"
  by (metis rev_u64_invol)

lemma rev_u64_less [simp]: "(rev_u64 x < rev_u64 y) = (y < x)"
proof -
  have "unat x < 2 ^ 64" "unat y < 2 ^ 64" using unsigned_less [of x] unsigned_less [of y] by simp_all
  then show ?thesis by (auto simp: word_less_nat_alt unat_rev_u64)
qed

lemma rev_u64_le [simp]: "(rev_u64 x \<le> rev_u64 y) = (y \<le> x)"
  by (simp flip: not_less)

end
