(* ===== verification/Tick.thy ===== *)
theory Tick
  imports Prelude
begin

text \<open>
  Ticks, \<^verbatim>\<open>core/src/model/krc721/tick.rs\<close>: ten bytes, built from a string by upper-casing, a check that
  all characters are alphanumeric, and zero padding of the UTF-8 bytes. Strings are lists of Unicode
  scalar values; UTF-8 is defined here; the two Unicode tables used by the source
  (\<^verbatim>\<open>char::to_uppercase\<close>, \<^verbatim>\<open>char::is_alphanumeric\<close>) are arguments.
\<close>

section \<open>UTF-8\<close>

type_synonym ustring = "nat list"

definition scalar :: "nat \<Rightarrow> bool" where
  "scalar c = (c < 0xD800 \<or> (0xE000 \<le> c \<and> c < 0x110000))"

definition utf8_char :: "nat \<Rightarrow> nat list" where
  "utf8_char c =
     (if c < 0x80 then [c]
      else if c < 0x800 then [0xC0 + c div 64, 0x80 + c mod 64]
      else if c < 0x10000 then [0xE0 + c div 4096, 0x80 + c div 64 mod 64, 0x80 + c mod 64]
      else [0xF0 + c div 262144, 0x80 + c div 4096 mod 64, 0x80 + c div 64 mod 64, 0x80 + c mod 64])"

definition utf8_bytes :: "ustring \<Rightarrow> bytes" where
  "utf8_bytes s = map word_of_nat (concat (map utf8_char s))"

abbreviation cont :: "nat \<Rightarrow> bool" where
  "cont b \<equiv> 0x80 \<le> b \<and> b < 0xC0"

fun utf8_decode_nat :: "nat list \<Rightarrow> ustring option" where
  "utf8_decode_nat [] = Some []"
| "utf8_decode_nat (b # bs) =
     (if b < 0x80 then map_option ((#) b) (utf8_decode_nat bs)
      else if 0xC2 \<le> b \<and> b < 0xE0 then
        (case bs of b1 # r \<Rightarrow>
           if cont b1 then map_option ((#) ((b - 0xC0) * 64 + (b1 - 0x80))) (utf8_decode_nat r) else None
         | _ \<Rightarrow> None)
      else if 0xE0 \<le> b \<and> b < 0xF0 then
        (case bs of b1 # b2 # r \<Rightarrow>
           (let c = (b - 0xE0) * 4096 + (b1 - 0x80) * 64 + (b2 - 0x80) in
            if cont b1 \<and> cont b2 \<and> 0x800 \<le> c \<and> scalar c
            then map_option ((#) c) (utf8_decode_nat r) else None)
         | _ \<Rightarrow> None)
      else if 0xF0 \<le> b \<and> b < 0xF5 then
        (case bs of b1 # b2 # b3 # r \<Rightarrow>
           (let c = (b - 0xF0) * 262144 + (b1 - 0x80) * 4096 + (b2 - 0x80) * 64 + (b3 - 0x80) in
            if cont b1 \<and> cont b2 \<and> cont b3 \<and> 0x10000 \<le> c \<and> scalar c
            then map_option ((#) c) (utf8_decode_nat r) else None)
         | _ \<Rightarrow> None)
      else None)"

definition from_utf8 :: "bytes \<Rightarrow> ustring option" where
  "from_utf8 bs = utf8_decode_nat (map unat bs)"

lemma utf8_digits:
  fixes c :: nat
  shows "c div 64 * 64 + c mod 64 = c"
    and "c div 4096 * 4096 + c div 64 mod 64 * 64 + c mod 64 = c"
    and "c div 262144 * 262144 + c div 4096 mod 64 * 4096 + c div 64 mod 64 * 64 + c mod 64 = c"
proof -
  show "c div 64 * 64 + c mod 64 = c" by simp
  have a: "c div 4096 = c div 64 div 64" and b: "c div 262144 = c div 64 div 64 div 64"
    by (simp_all add: div_mult2_eq [symmetric])
  show "c div 4096 * 4096 + c div 64 mod 64 * 64 + c mod 64 = c"
    using div_mult_mod_eq [of "c div 64" 64] div_mult_mod_eq [of c 64] unfolding a by linarith
  show "c div 262144 * 262144 + c div 4096 mod 64 * 4096 + c div 64 mod 64 * 64 + c mod 64 = c"
    using div_mult_mod_eq [of "c div 64 div 64" 64] div_mult_mod_eq [of "c div 64" 64] div_mult_mod_eq [of c 64]
    unfolding a b by linarith
qed

lemma utf8_decode_char:
  assumes "scalar c"
  shows "utf8_decode_nat (utf8_char c @ bs) = map_option ((#) c) (utf8_decode_nat bs)"
proof -
  consider "c < 0x80" | "0x80 \<le> c" "c < 0x800" | "0x800 \<le> c" "c < 0x10000" | "0x10000 \<le> c" by linarith
  then show ?thesis
  proof cases
    case 1
    then show ?thesis by (simp add: utf8_char_def)
  next
    case 2
    then have "2 \<le> c div 64" "c div 64 < 32" by (simp_all add: less_mult_imp_div_less div_le_mono [of 128 c 64, simplified])
    with 2 show ?thesis by (simp add: utf8_char_def)
  next
    case 3
    then have "c div 4096 < 16" by (simp add: less_mult_imp_div_less)
    with 3 assms show ?thesis using utf8_digits(2) [of c] by (simp add: utf8_char_def Let_def)
  next
    case 4
    then have "c div 262144 < 5" using assms by (auto simp: scalar_def intro: less_mult_imp_div_less)
    with 4 assms show ?thesis using utf8_digits(3) [of c] by (simp add: utf8_char_def Let_def)
  qed
qed

lemma utf8_char_byte: "scalar c \<Longrightarrow> b \<in> set (utf8_char c) \<Longrightarrow> b < 256"
  by (auto simp: utf8_char_def scalar_def split: if_splits)

lemma from_utf8_utf8_bytes: "\<forall>c \<in> set s. scalar c \<Longrightarrow> from_utf8 (utf8_bytes s) = Some s"
proof -
  assume s: "\<forall>c \<in> set s. scalar c"
  have "map unat (map (word_of_nat :: nat \<Rightarrow> byte) (concat (map utf8_char s))) = concat (map utf8_char s)"
    using s by (auto intro!: map_idI unat_byte_of_nat utf8_char_byte)
  moreover have "utf8_decode_nat (concat (map utf8_char s)) = Some s"
    using s by (induction s) (auto simp: utf8_decode_char)
  ultimately show ?thesis by (simp add: from_utf8_def utf8_bytes_def)
qed

section \<open>Ticks\<close>

datatype tick = Tick byte byte byte byte byte byte byte byte byte byte

fun tick_bytes :: "tick \<Rightarrow> bytes" where
  "tick_bytes (Tick a b c d e f g h i j) = [a, b, c, d, e, f, g, h, i, j]"

definition tick_new_unchecked :: "bytes \<Rightarrow> tick option" where
  "tick_new_unchecked bs =
     (if length bs = 10
      then Some (Tick (bs ! 0) (bs ! 1) (bs ! 2) (bs ! 3) (bs ! 4) (bs ! 5) (bs ! 6) (bs ! 7) (bs ! 8) (bs ! 9))
      else None)"

definition tick_MIN :: tick where
  "tick_MIN = Tick 48 0 0 0 0 0 0 0 0 0"

definition tick_MAX :: tick where
  "tick_MAX = Tick 255 255 255 255 255 255 255 255 255 255"

lemma length_tick_bytes [simp]: "length (tick_bytes t) = 10"
  by (cases t) simp

lemma tick_bytes_inject [simp]: "(tick_bytes s = tick_bytes t) = (s = t)"
  by (cases s; cases t) simp

lemma tick_new_unchecked_bytes [simp]: "tick_new_unchecked (tick_bytes t) = Some t"
  by (cases t) (simp add: tick_new_unchecked_def)

lemma tick_bytes_new_unchecked: "tick_new_unchecked bs = Some t \<Longrightarrow> tick_bytes t = bs"
  by (auto simp: tick_new_unchecked_def length_Suc_conv eval_nat_numeral split: if_splits)

text \<open>The derived order of the ten bytes is the lexicographic order.\<close>

instantiation tick :: linorder
begin

definition less_eq_tick :: "tick \<Rightarrow> tick \<Rightarrow> bool" where
  "less_eq_tick s t = (tick_bytes s \<le> tick_bytes t)"

definition less_tick :: "tick \<Rightarrow> tick \<Rightarrow> bool" where
  "less_tick s t = (tick_bytes s < tick_bytes t)"

instance
proof
  fix x y z :: tick
  show "(x < y) = (x \<le> y \<and> \<not> y \<le> x)" unfolding less_eq_tick_def less_tick_def by (rule less_le_not_le)
  show "x \<le> x" by (simp add: less_eq_tick_def)
  show "x \<le> y \<Longrightarrow> y \<le> z \<Longrightarrow> x \<le> z" by (auto simp: less_eq_tick_def)
  show "x \<le> y \<Longrightarrow> y \<le> x \<Longrightarrow> x = y" by (auto simp: less_eq_tick_def dest: order_antisym)
  show "x \<le> y \<or> y \<le> x" by (simp add: less_eq_tick_def linear)
qed

end

lemma tick_le_MAX: "t \<le> tick_MAX"
proof (cases t)
  case (Tick a b c d e f g h i j)
  have "x < 255 \<or> x = 255" for x :: byte
  proof -
    have "(255 :: byte) = - 1" by simp
    then show ?thesis using word_n1_ge [of x] by (metis le_less)
  qed
  then show ?thesis using Tick by (simp add: less_eq_tick_def tick_MAX_def)
qed

datatype tick_error = Utf8Error | NonAlphabetOrDigit | TickLength | TickBytesLength

definition trim_end_nul :: "ustring \<Rightarrow> ustring" where
  "trim_end_nul s = rev (dropWhile (\<lambda>c. c = 0) (rev s))"

definition to_uppercase :: "(nat \<Rightarrow> nat list) \<Rightarrow> ustring \<Rightarrow> ustring" where
  "to_uppercase up s = concat (map up s)"

definition pad10 :: "bytes \<Rightarrow> bytes" where
  "pad10 bs = bs @ replicate (10 - length bs) 0"

text \<open>\<^verbatim>\<open>impl FromStr for Tick\<close> and \<^verbatim>\<open>Tick::new\<close>, whose bodies agree after the upper-casing.\<close>

definition tick_from_str :: "(nat \<Rightarrow> nat list) \<Rightarrow> (nat \<Rightarrow> bool) \<Rightarrow> ustring \<Rightarrow> tick_error + tick" where
  "tick_from_str up alnum s0 =
     (let s = to_uppercase up s0 in
      if \<not> list_all alnum s then Inl NonAlphabetOrDigit
      else if \<not> (1 \<le> length s \<and> length s \<le> 10) then Inl TickLength
      else if 10 < length (utf8_bytes s) then Inl TickBytesLength
      else Inr (the (tick_new_unchecked (pad10 (utf8_bytes s)))))"

definition tick_new :: "(nat \<Rightarrow> nat list) \<Rightarrow> (nat \<Rightarrow> bool) \<Rightarrow> bytes \<Rightarrow> tick_error + tick" where
  "tick_new up alnum b =
     (case from_utf8 b of
        None \<Rightarrow> Inl Utf8Error
      | Some s0 \<Rightarrow>
        (let s = to_uppercase up (trim_end_nul s0) in
         if \<not> list_all alnum s then Inl NonAlphabetOrDigit
         else if \<not> (1 \<le> length s \<and> length s \<le> 10) then Inl TickLength
         else if 10 < length (utf8_bytes s) then Inl TickBytesLength
         else Inr (the (tick_new_unchecked (pad10 (utf8_bytes s))))))"

text \<open>A tick built from a string holds its upper-cased UTF-8 bytes and zeros.\<close>

lemma tick_from_str_bytes:
  assumes "tick_from_str up alnum s0 = Inr t"
  shows "tick_bytes t = pad10 (utf8_bytes (to_uppercase up s0))"
    and "list_all alnum (to_uppercase up s0)"
    and "1 \<le> length (to_uppercase up s0)" "length (utf8_bytes (to_uppercase up s0)) \<le> 10"
proof -
  let ?b = "utf8_bytes (to_uppercase up s0)"
  have l: "length ?b \<le> 10" and t: "t = the (tick_new_unchecked (pad10 ?b))"
    and "list_all alnum (to_uppercase up s0)" and "1 \<le> length (to_uppercase up s0)"
    using assms by (auto simp: tick_from_str_def Let_def split: if_splits)
  then show "list_all alnum (to_uppercase up s0)" "1 \<le> length (to_uppercase up s0)" "length ?b \<le> 10"
    by auto
  have "length (pad10 ?b) = 10" using l by (simp add: pad10_def)
  then obtain t' where "tick_new_unchecked (pad10 ?b) = Some t'" by (simp add: tick_new_unchecked_def)
  with t show "tick_bytes t = pad10 ?b" by (simp add: tick_bytes_new_unchecked)
qed

definition tick_as_str :: "tick \<Rightarrow> ustring option" where
  "tick_as_str t = map_option trim_end_nul (from_utf8 (tick_bytes t))"

lemma utf8_bytes_zeros: "utf8_bytes s @ replicate n 0 = utf8_bytes (s @ replicate n 0)"
  by (simp add: utf8_bytes_def utf8_char_def map_replicate_trivial concat_replicate_trivial)

lemma trim_end_nul_append: "s = [] \<or> last s \<noteq> 0 \<Longrightarrow> trim_end_nul (s @ replicate n 0) = s"
  by (cases s rule: rev_cases) (auto simp: trim_end_nul_def dropWhile_append)

lemma tick_as_str_from_str:
  assumes "tick_from_str up alnum s0 = Inr t" and "\<not> alnum 0" and "\<forall>c \<in> set (to_uppercase up s0). scalar c"
  shows "tick_as_str t = Some (to_uppercase up s0)"
proof -
  let ?s = "to_uppercase up s0"
  have "from_utf8 (tick_bytes t) = Some (?s @ replicate (10 - length (utf8_bytes ?s)) 0)"
    using assms tick_from_str_bytes(1) [OF assms(1)]
    by (simp add: pad10_def utf8_bytes_zeros) (subst from_utf8_utf8_bytes; auto simp: scalar_def)
  moreover have "?s = [] \<or> last ?s \<noteq> 0"
    using assms(2) tick_from_str_bytes(2) [OF assms(1)] by (metis last_in_set list_all_iff)
  ultimately show ?thesis by (simp add: tick_as_str_def trim_end_nul_append)
qed

section \<open>The constructors agree\<close>

text \<open>\<^verbatim>\<open>impl Deserialize for Tick\<close>: the same checks in another order, on the string of the document.\<close>

datatype tick_text_error = TickTooLong | TickTooShort | TickTooManyBytes | TickBadChars

definition tick_deserialize :: "(nat \<Rightarrow> nat list) \<Rightarrow> (nat \<Rightarrow> bool) \<Rightarrow> ustring \<Rightarrow> tick_text_error + tick" where
  "tick_deserialize up alnum s0 =
     (let s = to_uppercase up s0; char_count = length s in
      if char_count > 10 then Inl TickTooLong
      else if char_count < 1 then Inl TickTooShort
      else if length (utf8_bytes s) > 10 then Inl TickTooManyBytes
      else if \<not> list_all alnum s then Inl TickBadChars
      else Inr (the (tick_new_unchecked (pad10 (utf8_bytes s)))))"

lemma tick_deserialize_iff: "tick_deserialize up alnum s = Inr t \<longleftrightarrow> tick_from_str up alnum s = Inr t"
  by (auto simp: tick_deserialize_def tick_from_str_def Let_def not_less Suc_le_eq)

text \<open>A tick reads back from its own text, however it is constructed: parsed from the string, deserialised
  from a document, or built from its bytes; upper-casing must be stable and no alphanumeric character be the
  padding character.\<close>

theorem tick_text_round_trip:
  assumes "tick_from_str up alnum s = Inr t" and "\<not> alnum 0" and "\<forall>c \<in> set (to_uppercase up s). scalar c"
    and "to_uppercase up (to_uppercase up s) = to_uppercase up s"
  shows "\<exists>text. tick_as_str t = Some text \<and> tick_from_str up alnum text = Inr t \<and>
    tick_deserialize up alnum text = Inr t \<and> tick_new up alnum (tick_bytes t) = Inr t"
proof -
  let ?s = "to_uppercase up s"
  have a: "tick_as_str t = Some ?s" using assms(1-3) by (rule tick_as_str_from_str)
  have f: "tick_from_str up alnum ?s = Inr t" using assms(1) by (simp add: tick_from_str_def assms(4))
  obtain raw where raw: "from_utf8 (tick_bytes t) = Some raw" "trim_end_nul raw = ?s"
    using a by (auto simp: tick_as_str_def)
  have "tick_new up alnum (tick_bytes t) = Inr t"
    using f by (simp add: tick_new_def raw tick_from_str_def assms(4) Let_def split: if_splits)
  with a f show ?thesis by (simp add: tick_deserialize_iff)
qed

definition ascii_upper :: "nat \<Rightarrow> nat list" where
  "ascii_upper c = [if 97 \<le> c \<and> c \<le> 122 then c - 32 else c]"

definition ascii_alphanumeric :: "nat \<Rightarrow> bool" where
  "ascii_alphanumeric c = ((48 \<le> c \<and> c \<le> 57) \<or> (65 \<le> c \<and> c \<le> 90) \<or> (97 \<le> c \<and> c \<le> 122))"

lemma sample_tick_text: "tick_from_str ascii_upper ascii_alphanumeric [97, 50] = Inr (Tick 65 50 0 0 0 0 0 0 0 0)"
proof -
  have u: "to_uppercase ascii_upper [97, 50] = [65, 50]" by (simp add: to_uppercase_def ascii_upper_def)
  have b: "utf8_bytes [65, 50] = [65, 50]" by (simp add: utf8_bytes_def utf8_char_def)
  have p: "pad10 [65, 50] = [65, 50, 0, 0, 0, 0, 0, 0, 0, 0]" by (simp add: pad10_def eval_nat_numeral)
  have n: "tick_new_unchecked [65, 50, 0, 0, 0, 0, 0, 0, 0, 0] = Some (Tick 65 50 0 0 0 0 0 0 0 0)"
    by (simp add: tick_new_unchecked_def)
  show ?thesis unfolding tick_from_str_def u Let_def b p n by (simp add: ascii_alphanumeric_def)
qed

theorem tick_text_round_trip_witness:
  "\<exists>text. tick_as_str (Tick 65 50 0 0 0 0 0 0 0 0) = Some text \<and>
    tick_from_str ascii_upper ascii_alphanumeric text = Inr (Tick 65 50 0 0 0 0 0 0 0 0) \<and>
    tick_deserialize ascii_upper ascii_alphanumeric text = Inr (Tick 65 50 0 0 0 0 0 0 0 0) \<and>
    tick_new ascii_upper ascii_alphanumeric (tick_bytes (Tick 65 50 0 0 0 0 0 0 0 0)) = Inr (Tick 65 50 0 0 0 0 0 0 0 0)"
  by (rule tick_text_round_trip [OF sample_tick_text])
    (simp_all add: ascii_alphanumeric_def to_uppercase_def ascii_upper_def scalar_def)

lemma replicate_zero_le: "length bs = n \<Longrightarrow> replicate n 0 \<le> (bs :: bytes)"
proof (induction bs arbitrary: n)
  case (Cons b bs)
  then show ?case using word_zero_le [of b] by (auto simp: le_less)
qed simp

text \<open>The constant Tick::MIN, from which the range scans over scored keys start, is below every tick that a string gives:
  no tick falls before the start of a scan, as long as no alphanumeric character is below the digit zero.\<close>

theorem tick_MIN_below_parsed_ticks:
  assumes "tick_from_str up alnum s = Inr t" and "\<forall>c. alnum c \<longrightarrow> 48 \<le> c \<and> scalar c"
  shows "tick_MIN \<le> t"
proof -
  let ?s = "to_uppercase up s"
  obtain c cs where c: "?s = c # cs" using tick_from_str_bytes(3) [OF assms(1)] by (cases ?s) auto
  have "alnum c" using tick_from_str_bytes(2) [OF assms(1)] c by simp
  then have cs: "48 \<le> c" "scalar c" using assms(2) by auto
  obtain b bs where b: "utf8_char c = b # bs" "48 \<le> b" "b < 256"
    using cs utf8_char_byte [OF cs(2)] by (cases "utf8_char c") (auto simp: utf8_char_def split: if_splits)
  define r where "r = map word_of_nat (bs @ concat (map utf8_char cs)) @ replicate (10 - length (utf8_bytes ?s)) (0::byte)"
  have t: "tick_bytes t = word_of_nat b # r"
    using tick_from_str_bytes(1) [OF assms(1)] by (simp add: c b(1) pad10_def utf8_bytes_def r_def)
  then have "length r = 9" using length_tick_bytes [of t] by simp
  then have "replicate 9 0 \<le> r" by (rule replicate_zero_le)
  moreover have "(48 :: byte) \<le> word_of_nat b"
    using b(2,3) by (simp add: word_le_nat_alt unat_byte_of_nat)
  moreover have "tick_bytes tick_MIN = 48 # replicate 9 0" by (simp add: tick_MIN_def eval_nat_numeral)
  ultimately show ?thesis by (auto simp: less_eq_tick_def t le_less)
qed

theorem tick_MIN_below_parsed_ticks_witness: "tick_MIN \<le> Tick 65 50 0 0 0 0 0 0 0 0"
  by (rule tick_MIN_below_parsed_ticks [OF sample_tick_text]) (auto simp: ascii_alphanumeric_def scalar_def)

end
