(* ===== verification/Partition.thy ===== *)
theory Partition
  imports Prelude
begin

text \<open>
  The typed key-value partitions of \<^verbatim>\<open>database/src/database/partition.rs\<close>. A partition is a strictly
  sorted association list, which is what a scan of the underlying tree returns: equal contents are
  equal values, and every operation computes. The interface \<^verbatim>\<open>Key\<close> (\<^verbatim>\<open>owned_key\<close>,
  \<^verbatim>\<open>from_key_bytes\<close>) is the locale at the end: under its laws the typed operations are the
  operations of the source on the byte-ordered tree, which \<^verbatim>\<open>Storage\<close> shows with the values encoded as
  well. Faults of the storage engine are not modelled.
\<close>

section \<open>Sorted association lists\<close>

fun al_upd :: "'k::linorder \<Rightarrow> 'v \<Rightarrow> ('k \<times> 'v) list \<Rightarrow> ('k \<times> 'v) list" where
  "al_upd k v [] = [(k, v)]"
| "al_upd k v ((a, w) # xs) =
     (if k < a then (k, v) # (a, w) # xs
      else if k = a then (k, v) # xs
      else (a, w) # al_upd k v xs)"

fun al_del :: "'k::linorder \<Rightarrow> ('k \<times> 'v) list \<Rightarrow> ('k \<times> 'v) list" where
  "al_del k [] = []"
| "al_del k ((a, w) # xs) = (if k = a then xs else (a, w) # al_del k xs)"

abbreviation al_sorted :: "('k::linorder \<times> 'v) list \<Rightarrow> bool" where
  "al_sorted xs \<equiv> sorted_wrt (<) (map fst xs)"

lemma set_al_upd: "set (map fst (al_upd k v xs)) = insert k (set (map fst xs))"
  by (induction k v xs rule: al_upd.induct) auto

lemma set_al_del: "set (map fst (al_del k xs)) \<subseteq> set (map fst xs)"
  by (induction k xs rule: al_del.induct) auto

lemma al_sorted_upd: "al_sorted xs \<Longrightarrow> al_sorted (al_upd k v xs)"
proof (induction k v xs rule: al_upd.induct)
  case (2 k v a w xs)
  then show ?case using set_al_upd [of k v xs] by (auto simp: image_iff)
qed simp

lemma al_sorted_del: "al_sorted xs \<Longrightarrow> al_sorted (al_del k xs)"
  using set_al_del by (induction k xs rule: al_del.induct) fastforce+

lemma map_of_al_upd: "al_sorted xs \<Longrightarrow> map_of (al_upd k v xs) = (map_of xs)(k \<mapsto> v)"
  by (induction k v xs rule: al_upd.induct) (auto simp: fun_eq_iff)

lemma map_of_al_del: "al_sorted xs \<Longrightarrow> map_of (al_del k xs) = (map_of xs)(k := None)"
proof (induction k xs rule: al_del.induct)
  case (2 k a w xs)
  show ?case
  proof (cases "k = a")
    case True
    then have "map_of xs k = None" using 2 by (force simp: map_of_eq_None_iff)
    with True show ?thesis by (auto simp: fun_eq_iff)
  qed (use 2 in \<open>auto simp: fun_eq_iff\<close>)
qed auto

lemma al_sorted_distinct: "al_sorted xs \<Longrightarrow> distinct (map fst xs)"
  by (simp add: strict_sorted_iff)

lemma al_sorted_ext: "al_sorted xs \<Longrightarrow> al_sorted ys \<Longrightarrow> map_of xs = map_of ys \<Longrightarrow> xs = ys"
proof -
  assume s: "al_sorted xs" "al_sorted ys" and m: "map_of xs = map_of ys"
  have k: "map fst xs = map fst ys"
    using s m by (metis dom_map_of_conv_image_fst list.set_map strict_sorted_equal)
  have "map snd xs = map (the \<circ> map_of xs) (map fst xs)"
    using al_sorted_distinct [OF s(1)] by (auto simp: map_of_is_SomeI)
  moreover have "map snd ys = map (the \<circ> map_of ys) (map fst ys)"
    using al_sorted_distinct [OF s(2)] by (auto simp: map_of_is_SomeI)
  ultimately have "map snd xs = map snd ys" using k m by simp
  with k show "xs = ys" by (metis zip_map_fst_snd)
qed

section \<open>Partitions\<close>

typedef (overloaded) ('k::linorder, 'v) part = "{xs :: ('k \<times> 'v) list. al_sorted xs}"
  morphisms part_entries Part
  by (rule exI [of _ "[]"]) simp

setup_lifting type_definition_part

lift_definition part_empty :: "('k::linorder, 'v) part" is "[]"
  by simp

lift_definition part_insert :: "'k::linorder \<Rightarrow> 'v \<Rightarrow> ('k, 'v) part \<Rightarrow> ('k, 'v) part" is al_upd
  by (rule al_sorted_upd)

lift_definition part_remove :: "'k::linorder \<Rightarrow> ('k, 'v) part \<Rightarrow> ('k, 'v) part" is al_del
  by (rule al_sorted_del)

definition part_get :: "('k::linorder, 'v) part \<Rightarrow> 'k \<Rightarrow> 'v option" where
  "part_get p k = map_of (part_entries p) k"

definition part_contains :: "('k::linorder, 'v) part \<Rightarrow> 'k \<Rightarrow> bool" where
  "part_contains p k = (part_get p k \<noteq> None)"

text \<open>\<^verbatim>\<open>insert_if_not_exist_wtx\<close> keeps a present value and tells whether it inserted.\<close>

definition part_insert_if_not_exist ::
  "'k::linorder \<Rightarrow> 'v \<Rightarrow> ('k, 'v) part \<Rightarrow> bool \<times> ('k, 'v) part" where
  "part_insert_if_not_exist k v p =
     (case part_get p k of None \<Rightarrow> (True, part_insert k v p)
                         | Some w \<Rightarrow> (False, part_insert k w p))"

definition part_remove_if_exists ::
  "'k::linorder \<Rightarrow> ('k, 'v) part \<Rightarrow> 'v option \<times> ('k, 'v) part" where
  "part_remove_if_exists k p = (part_get p k, part_remove k p)"

datatype 'k bound = Included 'k | Excluded 'k | Unbounded

fun above :: "'k::linorder bound \<Rightarrow> 'k \<Rightarrow> bool" where
  "above (Included a) k = (a \<le> k)"
| "above (Excluded a) k = (a < k)"
| "above Unbounded k = True"

fun below :: "'k::linorder bound \<Rightarrow> 'k \<Rightarrow> bool" where
  "below (Included b) k = (k \<le> b)"
| "below (Excluded b) k = (k < b)"
| "below Unbounded k = True"

definition part_range ::
  "'k::linorder bound \<Rightarrow> 'k bound \<Rightarrow> ('k, 'v) part \<Rightarrow> ('k \<times> 'v) list" where
  "part_range lo hi p = [(k, v) \<leftarrow> part_entries p. above lo k \<and> below hi k]"

definition part_range_keys :: "'k::linorder bound \<Rightarrow> 'k bound \<Rightarrow> ('k, 'v) part \<Rightarrow> 'k list" where
  "part_range_keys lo hi p = map fst (part_range lo hi p)"

text \<open>\<^verbatim>\<open>tx.prefix(partition, bytes)\<close>: the entries whose encoded key starts with the bytes.\<close>

definition part_prefix ::
  "('k::linorder \<Rightarrow> bytes) \<Rightarrow> bytes \<Rightarrow> ('k, 'v) part \<Rightarrow> ('k \<times> 'v) list" where
  "part_prefix owned_key bs p = [(k, v) \<leftarrow> part_entries p. prefix bs (owned_key k)]"

definition part_first_key :: "('k::linorder, 'v) part \<Rightarrow> 'k option" where
  "part_first_key p = (case part_entries p of [] \<Rightarrow> None | (k, v) # _ \<Rightarrow> Some k)"

definition part_last_key :: "('k::linorder, 'v) part \<Rightarrow> 'k option" where
  "part_last_key p = (if part_entries p = [] then None else Some (fst (last (part_entries p))))"

definition part_keys :: "('k::linorder, 'v) part \<Rightarrow> 'k set" where
  "part_keys p = {k. part_get p k \<noteq> None}"

lemma part_entries_sorted: "al_sorted (part_entries p)"
  using part_entries by auto

lemma part_entries_simps [eval_simps]:
  "part_entries part_empty = []"
  "part_entries (part_insert k v p) = al_upd k v (part_entries p)"
  "part_entries (part_remove k p) = al_del k (part_entries p)"
  by (transfer, simp)+

lemma part_get_empty [simp]: "part_get part_empty k = None"
  by (simp add: part_get_def part_entries_simps)

lemma part_get_insert [simp]: "part_get (part_insert k v p) k' = (if k' = k then Some v else part_get p k')"
  by (simp add: part_get_def part_entries_simps map_of_al_upd part_entries_sorted)

lemma part_get_remove [simp]: "part_get (part_remove k p) k' = (if k' = k then None else part_get p k')"
  by (simp add: part_get_def part_entries_simps map_of_al_del part_entries_sorted)

lemma part_eqI: "(\<And>k. part_get p k = part_get q k) \<Longrightarrow> p = q"
  by (metis al_sorted_ext ext part_entries_inject part_entries_sorted part_get_def)

lemma part_contains_iff [simp]: "part_contains p k = (\<exists>v. part_get p k = Some v)"
  by (auto simp: part_contains_def)

lemma part_insert_insert [simp]: "part_insert k v (part_insert k w p) = part_insert k v p"
  by (rule part_eqI) simp

lemma part_insert_same: "part_get p k = Some v \<Longrightarrow> part_insert k v p = p"
  by (rule part_eqI) simp

lemma part_remove_absent: "part_get p k = None \<Longrightarrow> part_remove k p = p"
  by (rule part_eqI) simp

lemma part_remove_insert: "part_remove k (part_insert k v p) = part_remove k p"
  by (rule part_eqI) simp

lemma part_insert_remove: "part_insert k v (part_remove k p) = part_insert k v p"
  by (rule part_eqI) simp

lemma part_remove_insert_absent: "part_get p k = None \<Longrightarrow> part_remove k (part_insert k v p) = p"
  by (simp add: part_remove_insert part_remove_absent)

lemma part_insert_if_not_exist_simp:
  "part_insert_if_not_exist k v p =
     (if part_get p k = None then (True, part_insert k v p) else (False, p))"
  by (auto simp: part_insert_if_not_exist_def part_insert_same split: option.splits)

lemma in_entries_iff: "(k, v) \<in> set (part_entries p) \<longleftrightarrow> part_get p k = Some v"
  unfolding part_get_def by (metis al_sorted_distinct map_of_eq_Some_iff part_entries_sorted)

lemma in_part_range_iff:
  "(k, v) \<in> set (part_range lo hi p) \<longleftrightarrow> part_get p k = Some v \<and> above lo k \<and> below hi k"
  by (auto simp: part_range_def in_entries_iff)

lemma in_part_range_keys_iff:
  "k \<in> set (part_range_keys lo hi p) \<longleftrightarrow> k \<in> part_keys p \<and> above lo k \<and> below hi k"
  by (auto simp: part_range_keys_def part_keys_def in_part_range_iff image_iff split_paired_Ex Bex_def)

lemma in_part_prefix_iff:
  "(k, v) \<in> set (part_prefix f bs p) \<longleftrightarrow> part_get p k = Some v \<and> prefix bs (f k)"
  by (auto simp: part_prefix_def in_entries_iff)

lemma al_sorted_filter: "al_sorted xs \<Longrightarrow> al_sorted (filter P xs)"
  by (induction xs) auto

lemma part_range_sorted: "al_sorted (part_range lo hi p)"
  by (simp add: part_range_def al_sorted_filter part_entries_sorted)

lemma part_prefix_sorted: "al_sorted (part_prefix f bs p)"
  by (simp add: part_prefix_def al_sorted_filter part_entries_sorted)

lemma al_sorted_hd: "al_sorted (x # xs) \<Longrightarrow> y \<in> set (x # xs) \<Longrightarrow> fst x \<le> fst y"
  by auto

lemma part_last_key_SomeD:
  assumes "part_last_key p = Some k"
  shows "k \<in> part_keys p" and "\<And>k'. k' \<in> part_keys p \<Longrightarrow> k' \<le> k"
proof -
  have ne: "part_entries p \<noteq> []" and k: "k = fst (last (part_entries p))"
    using assms by (auto simp: part_last_key_def split: if_splits)
  have "last (part_entries p) \<in> set (part_entries p)" using ne by simp
  then show "k \<in> part_keys p"
    by (metis (mono_tags) in_entries_iff k mem_Collect_eq option.discI part_keys_def prod.collapse)
  fix k' assume "k' \<in> part_keys p"
  then obtain v where v: "(k', v) \<in> set (part_entries p)" by (auto simp: part_keys_def in_entries_iff)
  have s: "al_sorted (butlast (part_entries p) @ [last (part_entries p)])"
    using part_entries_sorted [of p] ne by simp
  have "(k', v) \<in> set (butlast (part_entries p)) \<or> (k', v) = last (part_entries p)"
    using v ne by (metis append_butlast_last_id in_set_conv_decomp rotate1.simps(2) set_ConsD set_rotate1)
  with s k show "k' \<le> k"
    by (auto simp: sorted_wrt_append less_imp_le) (metis fst_conv order_refl)
qed

lemma part_last_key_None_iff: "part_last_key p = None \<longleftrightarrow> part_keys p = {}"
  by (auto simp: part_last_key_def part_keys_def part_get_def map_of_eq_None_iff) 

section \<open>The interface of keys\<close>

text \<open>
  \<^verbatim>\<open>trait Key\<close>: an encoding whose decoder undoes it and whose bytes are ordered as the keys are. The
  tree of the storage engine maps bytes to values in the order of the bytes.
\<close>

definition raw_entries :: "('k::linorder \<Rightarrow> bytes) \<Rightarrow> ('k, 'v) part \<Rightarrow> (bytes \<times> 'v) list" where
  "raw_entries owned_key p = map (\<lambda>(k, v). (owned_key k, v)) (part_entries p)"

locale db_key =
  fixes owned_key :: "'k::linorder \<Rightarrow> bytes"
    and from_key_bytes :: "bytes \<Rightarrow> 'k option"
  assumes from_owned: "from_key_bytes (owned_key k) = Some k"
    and owned_less: "(owned_key k < owned_key k') = (k < k')"
begin

lemma owned_inject: "(owned_key k = owned_key k') = (k = k')"
  by (metis from_owned option.inject)

lemma owned_le: "(owned_key k \<le> owned_key k') = (k \<le> k')"
  by (simp add: le_less owned_less owned_inject)

lemma raw_sorted: "al_sorted (raw_entries owned_key p)"
proof -
  have "sorted_wrt (\<lambda>x y. owned_key (fst x) < owned_key (fst y)) (part_entries p)"
    using part_entries_sorted [of p] by (simp add: sorted_wrt_map owned_less)
  then show ?thesis by (simp add: raw_entries_def sorted_wrt_map case_prod_beta)
qed

lemma raw_upd:
  "map (\<lambda>(k, v). (owned_key k, v)) (al_upd k v xs) =
   al_upd (owned_key k) v (map (\<lambda>(k, v). (owned_key k, v)) xs)"
  by (induction k v xs rule: al_upd.induct) (auto simp: owned_less owned_inject)

lemma raw_del:
  "map (\<lambda>(k, v). (owned_key k, v)) (al_del k xs) =
   al_del (owned_key k) (map (\<lambda>(k, v). (owned_key k, v)) xs)"
  by (induction k xs rule: al_del.induct) (auto simp: owned_inject)

lemma raw_insert: "raw_entries owned_key (part_insert k v p) = al_upd (owned_key k) v (raw_entries owned_key p)"
  by (simp add: raw_entries_def part_entries_simps raw_upd)

lemma raw_remove: "raw_entries owned_key (part_remove k p) = al_del (owned_key k) (raw_entries owned_key p)"
  by (simp add: raw_entries_def part_entries_simps raw_del)

lemma raw_get_list: "map_of (map (\<lambda>(k, v). (owned_key k, v)) xs) (owned_key k) = map_of xs k"
  by (induction xs) (auto simp: owned_inject)

lemma raw_get: "map_of (raw_entries owned_key p) (owned_key k) = part_get p k"
  by (simp add: raw_entries_def part_get_def raw_get_list)

lemma above_map: "above (map_bound owned_key lo) (owned_key k) = above lo k"
  by (cases lo) (auto simp: owned_less owned_le)

lemma below_map: "below (map_bound owned_key hi) (owned_key k) = below hi k"
  by (cases hi) (auto simp: owned_less owned_le)

lemma raw_range_list:
  "filter (\<lambda>(b, v). above (map_bound owned_key lo) b \<and> below (map_bound owned_key hi) b)
     (map (\<lambda>(k, v). (owned_key k, v)) xs) =
   map (\<lambda>(k, v). (owned_key k, v)) (filter (\<lambda>(k, v). above lo k \<and> below hi k) xs)"
  by (induction xs) (auto simp: above_map below_map)

lemma raw_range:
  "map (\<lambda>(b, v). (from_key_bytes b, v))
     (filter (\<lambda>(b, v). above (map_bound owned_key lo) b \<and> below (map_bound owned_key hi) b)
       (raw_entries owned_key p)) =
   map (\<lambda>(k, v). (Some k, v)) (part_range lo hi p)"
  by (simp add: raw_entries_def raw_range_list part_range_def from_owned case_prod_beta)

end

end
