(* ===== verification/Keys.thy ===== *)
theory Keys
  imports Tick Partition "HOL-Library.Monad_Syntax"
begin

text \<open>
  The key types of the partitions and their encodings (\<^verbatim>\<open>owned_key\<close>, \<^verbatim>\<open>from_key_bytes\<close>) as
  \<^verbatim>\<open>database/src/database/partition.rs\<close> defines them: concatenations of ticks, big-endian integers,
  hashes and script public keys. Every key is ordered by its bytes; the \<^verbatim>\<open>_less\<close> lemmas read that
  order off the fields, and each type interprets the locale \<^verbatim>\<open>db_key\<close>. A decoder returns \<^verbatim>\<open>None\<close>
  where the source panics on a slice of the wrong length.
\<close>

lemma linorder_by_bytes:
  fixes f :: "'k \<Rightarrow> bytes"
  assumes "inj f" "\<And>x y. le x y = (f x \<le> f y)" "\<And>x y. lt x y = (f x < f y)"
  shows "class.linorder le lt"
  by unfold_locales (use assms in \<open>auto simp: less_le_not_le dest: injD order_antisym\<close>)

lemmas bytes_order = append_less_same_length less_tick_def

section \<open>Ticks, integers and hashes as keys\<close>

interpretation tick_key: db_key tick_bytes tick_new_unchecked
  by unfold_locales (simp_all add: less_tick_def)

interpretation u64_key: db_key u64_be u64_of_be
  by unfold_locales simp_all

interpretation hash_key: db_key hash_be hash_of_be
  by unfold_locales simp_all

section \<open>Script public keys\<close>

datatype spk = Spk (spk_version: u16) (spk_script: bytes)

fun spk_bytes :: "spk \<Rightarrow> bytes" where
  "spk_bytes (Spk v s) = u16_be v @ s"

definition spk_of_bytes :: "bytes \<Rightarrow> spk option" where
  "spk_of_bytes bs = do {
     v \<leftarrow> u16_of_be (take 2 bs);
     Some (Spk v (drop 2 bs)) }"

lemma spk_of_bytes_bytes [simp]: "spk_of_bytes (spk_bytes k) = Some k"
  by (cases k) (simp add: spk_of_bytes_def)

lemma spk_bytes_inject [simp]: "(spk_bytes p = spk_bytes q) = (p = q)"
  by (metis option.inject spk_of_bytes_bytes)

section \<open>Composite keys\<close>

text \<open>\<^verbatim>\<open>BlueScoredChainBlockHash\<close>: the accepted chain blocks, by blue score.\<close>

datatype blue_hash_key = BlueScoredChainBlockHash (bh_blue_score: u64) (bh_block_hash: hash)

fun blue_hash_key_bytes :: "blue_hash_key \<Rightarrow> bytes" where
  "blue_hash_key_bytes (BlueScoredChainBlockHash s h) = u64_be s @ hash_be h"

definition blue_hash_key_of_bytes :: "bytes \<Rightarrow> blue_hash_key option" where
  "blue_hash_key_of_bytes bs = do {
     s \<leftarrow> u64_of_be (take 8 bs);
     h \<leftarrow> hash_of_be (drop 8 bs);
     Some (BlueScoredChainBlockHash s h) }"

lemma blue_hash_key_of_bytes_bytes [simp]: "blue_hash_key_of_bytes (blue_hash_key_bytes k) = Some k"
  by (cases k) (simp add: blue_hash_key_of_bytes_def)

instantiation blue_hash_key :: linorder
begin

definition less_eq_blue_hash_key :: "blue_hash_key \<Rightarrow> blue_hash_key \<Rightarrow> bool" where
  "less_eq_blue_hash_key x y = (blue_hash_key_bytes x \<le> blue_hash_key_bytes y)"

definition less_blue_hash_key :: "blue_hash_key \<Rightarrow> blue_hash_key \<Rightarrow> bool" where
  "less_blue_hash_key x y = (blue_hash_key_bytes x < blue_hash_key_bytes y)"

instance
  by (rule linorder.intro_of_class, rule linorder_by_bytes [OF _ less_eq_blue_hash_key_def less_blue_hash_key_def])
    (metis injI option.inject blue_hash_key_of_bytes_bytes)

end

lemma blue_hash_key_less [key_simps]:
  "(BlueScoredChainBlockHash s h < BlueScoredChainBlockHash s' h') =
   (s < s' \<or> s = s' \<and> h < h')"
  by (simp add: less_blue_hash_key_def bytes_order)

lemma blue_hash_key_le [key_simps]:
  "(BlueScoredChainBlockHash s h \<le> BlueScoredChainBlockHash s' h') =
   (s < s' \<or> s = s' \<and> h \<le> h')"
  by (auto simp: le_less blue_hash_key_less)

interpretation blue_hash_key: db_key blue_hash_key_bytes blue_hash_key_of_bytes
  by unfold_locales (simp_all add: less_blue_hash_key_def)

text \<open>\<^verbatim>\<open>DeploymentKey\<close>: the deployments, by transaction score.\<close>

datatype deployment_key = DeploymentKey (dk_score: u64) (dk_tick: tick)

fun deployment_key_bytes :: "deployment_key \<Rightarrow> bytes" where
  "deployment_key_bytes (DeploymentKey s t) = u64_be s @ tick_bytes t"

definition deployment_key_of_bytes :: "bytes \<Rightarrow> deployment_key option" where
  "deployment_key_of_bytes bs = do {
     s \<leftarrow> u64_of_be (take 8 bs);
     t \<leftarrow> tick_new_unchecked (drop 8 bs);
     Some (DeploymentKey s t) }"

lemma deployment_key_of_bytes_bytes [simp]: "deployment_key_of_bytes (deployment_key_bytes k) = Some k"
  by (cases k) (simp add: deployment_key_of_bytes_def)

instantiation deployment_key :: linorder
begin

definition less_eq_deployment_key :: "deployment_key \<Rightarrow> deployment_key \<Rightarrow> bool" where
  "less_eq_deployment_key x y = (deployment_key_bytes x \<le> deployment_key_bytes y)"

definition less_deployment_key :: "deployment_key \<Rightarrow> deployment_key \<Rightarrow> bool" where
  "less_deployment_key x y = (deployment_key_bytes x < deployment_key_bytes y)"

instance
  by (rule linorder.intro_of_class, rule linorder_by_bytes [OF _ less_eq_deployment_key_def less_deployment_key_def])
    (metis injI option.inject deployment_key_of_bytes_bytes)

end

lemma deployment_key_less [key_simps]:
  "(DeploymentKey s t < DeploymentKey s' t') =
   (s < s' \<or> s = s' \<and> t < t')"
  by (simp add: less_deployment_key_def bytes_order)

lemma deployment_key_le [key_simps]:
  "(DeploymentKey s t \<le> DeploymentKey s' t') =
   (s < s' \<or> s = s' \<and> t \<le> t')"
  by (auto simp: le_less deployment_key_less)

interpretation deployment_key: db_key deployment_key_bytes deployment_key_of_bytes
  by unfold_locales (simp_all add: less_deployment_key_def)

text \<open>\<^verbatim>\<open>TokenMintsKey\<close>: the ownership changes, by transaction score.\<close>

datatype token_mints_key = TokenMintsKey (tm_score: u64) (tm_tick: tick) (tm_token_id: u64) (tm_reversed_seq_number: u64)

fun token_mints_key_bytes :: "token_mints_key \<Rightarrow> bytes" where
  "token_mints_key_bytes (TokenMintsKey s t i n) = u64_be s @ tick_bytes t @ u64_be i @ u64_be n"

definition token_mints_key_of_bytes :: "bytes \<Rightarrow> token_mints_key option" where
  "token_mints_key_of_bytes bs = do {
     s \<leftarrow> u64_of_be (take 8 bs);
     t \<leftarrow> tick_new_unchecked (take 10 (drop 8 bs));
     i \<leftarrow> u64_of_be (take 8 (drop 18 bs));
     n \<leftarrow> u64_of_be (drop 26 bs);
     Some (TokenMintsKey s t i n) }"

lemma token_mints_key_of_bytes_bytes [simp]: "token_mints_key_of_bytes (token_mints_key_bytes k) = Some k"
  by (cases k) (simp add: token_mints_key_of_bytes_def)

instantiation token_mints_key :: linorder
begin

definition less_eq_token_mints_key :: "token_mints_key \<Rightarrow> token_mints_key \<Rightarrow> bool" where
  "less_eq_token_mints_key x y = (token_mints_key_bytes x \<le> token_mints_key_bytes y)"

definition less_token_mints_key :: "token_mints_key \<Rightarrow> token_mints_key \<Rightarrow> bool" where
  "less_token_mints_key x y = (token_mints_key_bytes x < token_mints_key_bytes y)"

instance
  by (rule linorder.intro_of_class, rule linorder_by_bytes [OF _ less_eq_token_mints_key_def less_token_mints_key_def])
    (metis injI option.inject token_mints_key_of_bytes_bytes)

end

lemma token_mints_key_less [key_simps]:
  "(TokenMintsKey s t i n < TokenMintsKey s' t' i' n') =
   (s < s' \<or> s = s' \<and> (t < t' \<or> t = t' \<and> (i < i' \<or> i = i' \<and> n < n')))"
  by (simp add: less_token_mints_key_def bytes_order)

lemma token_mints_key_le [key_simps]:
  "(TokenMintsKey s t i n \<le> TokenMintsKey s' t' i' n') =
   (s < s' \<or> s = s' \<and> (t < t' \<or> t = t' \<and> (i < i' \<or> i = i' \<and> n \<le> n')))"
  by (auto simp: le_less token_mints_key_less)

interpretation token_mints_key: db_key token_mints_key_bytes token_mints_key_of_bytes
  by unfold_locales (simp_all add: less_token_mints_key_def)

text \<open>\<^verbatim>\<open>MintHistoryKey\<close>: the mints of a tick, latest sequence number first.\<close>

datatype mint_history_key = MintHistoryKey (mh_tick: tick) (mh_reversed_seq: u64) (mh_token_id: u64) (mh_score: u64)

fun mint_history_key_bytes :: "mint_history_key \<Rightarrow> bytes" where
  "mint_history_key_bytes (MintHistoryKey t n i s) = tick_bytes t @ u64_be n @ u64_be i @ u64_be s"

definition mint_history_key_of_bytes :: "bytes \<Rightarrow> mint_history_key option" where
  "mint_history_key_of_bytes bs = do {
     t \<leftarrow> tick_new_unchecked (take 10 bs);
     n \<leftarrow> u64_of_be (take 8 (drop 10 bs));
     i \<leftarrow> u64_of_be (take 8 (drop 18 bs));
     s \<leftarrow> u64_of_be (drop 26 bs);
     Some (MintHistoryKey t n i s) }"

lemma mint_history_key_of_bytes_bytes [simp]: "mint_history_key_of_bytes (mint_history_key_bytes k) = Some k"
  by (cases k) (simp add: mint_history_key_of_bytes_def)

instantiation mint_history_key :: linorder
begin

definition less_eq_mint_history_key :: "mint_history_key \<Rightarrow> mint_history_key \<Rightarrow> bool" where
  "less_eq_mint_history_key x y = (mint_history_key_bytes x \<le> mint_history_key_bytes y)"

definition less_mint_history_key :: "mint_history_key \<Rightarrow> mint_history_key \<Rightarrow> bool" where
  "less_mint_history_key x y = (mint_history_key_bytes x < mint_history_key_bytes y)"

instance
  by (rule linorder.intro_of_class, rule linorder_by_bytes [OF _ less_eq_mint_history_key_def less_mint_history_key_def])
    (metis injI option.inject mint_history_key_of_bytes_bytes)

end

lemma mint_history_key_less [key_simps]:
  "(MintHistoryKey t n i s < MintHistoryKey t' n' i' s') =
   (t < t' \<or> t = t' \<and> (n < n' \<or> n = n' \<and> (i < i' \<or> i = i' \<and> s < s')))"
  by (simp add: less_mint_history_key_def bytes_order)

lemma mint_history_key_le [key_simps]:
  "(MintHistoryKey t n i s \<le> MintHistoryKey t' n' i' s') =
   (t < t' \<or> t = t' \<and> (n < n' \<or> n = n' \<and> (i < i' \<or> i = i' \<and> s \<le> s')))"
  by (auto simp: le_less mint_history_key_less)

interpretation mint_history_key: db_key mint_history_key_bytes mint_history_key_of_bytes
  by unfold_locales (simp_all add: less_mint_history_key_def)

text \<open>\<^verbatim>\<open>OwnershipHistoryKey\<close>: the owners of a token, latest first.\<close>

datatype ownership_history_key = OwnershipHistoryKey (oh_tick: tick) (oh_token_id: u64) (oh_reversed_score: u64)

fun ownership_history_key_bytes :: "ownership_history_key \<Rightarrow> bytes" where
  "ownership_history_key_bytes (OwnershipHistoryKey t i n) = tick_bytes t @ u64_be i @ u64_be n"

definition ownership_history_key_of_bytes :: "bytes \<Rightarrow> ownership_history_key option" where
  "ownership_history_key_of_bytes bs = do {
     t \<leftarrow> tick_new_unchecked (take 10 bs);
     i \<leftarrow> u64_of_be (take 8 (drop 10 bs));
     n \<leftarrow> u64_of_be (drop 18 bs);
     Some (OwnershipHistoryKey t i n) }"

lemma ownership_history_key_of_bytes_bytes [simp]: "ownership_history_key_of_bytes (ownership_history_key_bytes k) = Some k"
  by (cases k) (simp add: ownership_history_key_of_bytes_def)

instantiation ownership_history_key :: linorder
begin

definition less_eq_ownership_history_key :: "ownership_history_key \<Rightarrow> ownership_history_key \<Rightarrow> bool" where
  "less_eq_ownership_history_key x y = (ownership_history_key_bytes x \<le> ownership_history_key_bytes y)"

definition less_ownership_history_key :: "ownership_history_key \<Rightarrow> ownership_history_key \<Rightarrow> bool" where
  "less_ownership_history_key x y = (ownership_history_key_bytes x < ownership_history_key_bytes y)"

instance
  by (rule linorder.intro_of_class, rule linorder_by_bytes [OF _ less_eq_ownership_history_key_def less_ownership_history_key_def])
    (metis injI option.inject ownership_history_key_of_bytes_bytes)

end

lemma ownership_history_key_less [key_simps]:
  "(OwnershipHistoryKey t i n < OwnershipHistoryKey t' i' n') =
   (t < t' \<or> t = t' \<and> (i < i' \<or> i = i' \<and> n < n'))"
  by (simp add: less_ownership_history_key_def bytes_order)

lemma ownership_history_key_le [key_simps]:
  "(OwnershipHistoryKey t i n \<le> OwnershipHistoryKey t' i' n') =
   (t < t' \<or> t = t' \<and> (i < i' \<or> i = i' \<and> n \<le> n'))"
  by (auto simp: le_less ownership_history_key_less)

interpretation ownership_history_key: db_key ownership_history_key_bytes ownership_history_key_of_bytes
  by unfold_locales (simp_all add: less_ownership_history_key_def)

text \<open>\<^verbatim>\<open>OwnershipKey\<close>: a token.\<close>

datatype ownership_key = OwnershipKey (ok_tick: tick) (ok_token_id: u64)

fun ownership_key_bytes :: "ownership_key \<Rightarrow> bytes" where
  "ownership_key_bytes (OwnershipKey t i) = tick_bytes t @ u64_be i"

definition ownership_key_of_bytes :: "bytes \<Rightarrow> ownership_key option" where
  "ownership_key_of_bytes bs = do {
     t \<leftarrow> tick_new_unchecked (take 10 bs);
     i \<leftarrow> u64_of_be (drop 10 bs);
     Some (OwnershipKey t i) }"

lemma ownership_key_of_bytes_bytes [simp]: "ownership_key_of_bytes (ownership_key_bytes k) = Some k"
  by (cases k) (simp add: ownership_key_of_bytes_def)

instantiation ownership_key :: linorder
begin

definition less_eq_ownership_key :: "ownership_key \<Rightarrow> ownership_key \<Rightarrow> bool" where
  "less_eq_ownership_key x y = (ownership_key_bytes x \<le> ownership_key_bytes y)"

definition less_ownership_key :: "ownership_key \<Rightarrow> ownership_key \<Rightarrow> bool" where
  "less_ownership_key x y = (ownership_key_bytes x < ownership_key_bytes y)"

instance
  by (rule linorder.intro_of_class, rule linorder_by_bytes [OF _ less_eq_ownership_key_def less_ownership_key_def])
    (metis injI option.inject ownership_key_of_bytes_bytes)

end

lemma ownership_key_less [key_simps]:
  "(OwnershipKey t i < OwnershipKey t' i') =
   (t < t' \<or> t = t' \<and> i < i')"
  by (simp add: less_ownership_key_def bytes_order)

lemma ownership_key_le [key_simps]:
  "(OwnershipKey t i \<le> OwnershipKey t' i') =
   (t < t' \<or> t = t' \<and> i \<le> i')"
  by (auto simp: le_less ownership_key_less)

interpretation ownership_key: db_key ownership_key_bytes ownership_key_of_bytes
  by unfold_locales (simp_all add: less_ownership_key_def)

text \<open>\<^verbatim>\<open>RangeKey\<close>: a slot of the list of available ranges of a tick.\<close>

datatype range_key = RangeKey (rk_tick: tick) (rk_index: u64)

fun range_key_bytes :: "range_key \<Rightarrow> bytes" where
  "range_key_bytes (RangeKey t i) = tick_bytes t @ u64_be i"

definition range_key_of_bytes :: "bytes \<Rightarrow> range_key option" where
  "range_key_of_bytes bs = do {
     t \<leftarrow> tick_new_unchecked (take 10 bs);
     i \<leftarrow> u64_of_be (drop 10 bs);
     Some (RangeKey t i) }"

lemma range_key_of_bytes_bytes [simp]: "range_key_of_bytes (range_key_bytes k) = Some k"
  by (cases k) (simp add: range_key_of_bytes_def)

instantiation range_key :: linorder
begin

definition less_eq_range_key :: "range_key \<Rightarrow> range_key \<Rightarrow> bool" where
  "less_eq_range_key x y = (range_key_bytes x \<le> range_key_bytes y)"

definition less_range_key :: "range_key \<Rightarrow> range_key \<Rightarrow> bool" where
  "less_range_key x y = (range_key_bytes x < range_key_bytes y)"

instance
  by (rule linorder.intro_of_class, rule linorder_by_bytes [OF _ less_eq_range_key_def less_range_key_def])
    (metis injI option.inject range_key_of_bytes_bytes)

end

lemma range_key_less [key_simps]:
  "(RangeKey t i < RangeKey t' i') =
   (t < t' \<or> t = t' \<and> i < i')"
  by (simp add: less_range_key_def bytes_order)

lemma range_key_le [key_simps]:
  "(RangeKey t i \<le> RangeKey t' i') =
   (t < t' \<or> t = t' \<and> i \<le> i')"
  by (auto simp: le_less range_key_less)

interpretation range_key: db_key range_key_bytes range_key_of_bytes
  by unfold_locales (simp_all add: less_range_key_def)

text \<open>\<^verbatim>\<open>TokenMetaKey\<close>: the token id whose generation is recorded.\<close>

datatype token_meta_key = TokenMetaKey (tk_tick: tick) (tk_token_id: u64)

fun token_meta_key_bytes :: "token_meta_key \<Rightarrow> bytes" where
  "token_meta_key_bytes (TokenMetaKey t i) = tick_bytes t @ u64_be i"

definition token_meta_key_of_bytes :: "bytes \<Rightarrow> token_meta_key option" where
  "token_meta_key_of_bytes bs = do {
     t \<leftarrow> tick_new_unchecked (take 10 bs);
     i \<leftarrow> u64_of_be (drop 10 bs);
     Some (TokenMetaKey t i) }"

lemma token_meta_key_of_bytes_bytes [simp]: "token_meta_key_of_bytes (token_meta_key_bytes k) = Some k"
  by (cases k) (simp add: token_meta_key_of_bytes_def)

instantiation token_meta_key :: linorder
begin

definition less_eq_token_meta_key :: "token_meta_key \<Rightarrow> token_meta_key \<Rightarrow> bool" where
  "less_eq_token_meta_key x y = (token_meta_key_bytes x \<le> token_meta_key_bytes y)"

definition less_token_meta_key :: "token_meta_key \<Rightarrow> token_meta_key \<Rightarrow> bool" where
  "less_token_meta_key x y = (token_meta_key_bytes x < token_meta_key_bytes y)"

instance
  by (rule linorder.intro_of_class, rule linorder_by_bytes [OF _ less_eq_token_meta_key_def less_token_meta_key_def])
    (metis injI option.inject token_meta_key_of_bytes_bytes)

end

lemma token_meta_key_less [key_simps]:
  "(TokenMetaKey t i < TokenMetaKey t' i') =
   (t < t' \<or> t = t' \<and> i < i')"
  by (simp add: less_token_meta_key_def bytes_order)

lemma token_meta_key_le [key_simps]:
  "(TokenMetaKey t i \<le> TokenMetaKey t' i') =
   (t < t' \<or> t = t' \<and> i \<le> i')"
  by (auto simp: le_less token_meta_key_less)

interpretation token_meta_key: db_key token_meta_key_bytes token_meta_key_of_bytes
  by unfold_locales (simp_all add: less_token_meta_key_def)

text \<open>\<^verbatim>\<open>ListingByTickKey\<close>: the listings of a collection in token order.\<close>

datatype listing_by_tick_key = ListingByTickKey (lt_tick: tick) (lt_token_id: u64)

fun listing_by_tick_key_bytes :: "listing_by_tick_key \<Rightarrow> bytes" where
  "listing_by_tick_key_bytes (ListingByTickKey t i) = tick_bytes t @ u64_be i"

definition listing_by_tick_key_of_bytes :: "bytes \<Rightarrow> listing_by_tick_key option" where
  "listing_by_tick_key_of_bytes bs = do {
     t \<leftarrow> tick_new_unchecked (take 10 bs);
     i \<leftarrow> u64_of_be (drop 10 bs);
     Some (ListingByTickKey t i) }"

lemma listing_by_tick_key_of_bytes_bytes [simp]: "listing_by_tick_key_of_bytes (listing_by_tick_key_bytes k) = Some k"
  by (cases k) (simp add: listing_by_tick_key_of_bytes_def)

instantiation listing_by_tick_key :: linorder
begin

definition less_eq_listing_by_tick_key :: "listing_by_tick_key \<Rightarrow> listing_by_tick_key \<Rightarrow> bool" where
  "less_eq_listing_by_tick_key x y = (listing_by_tick_key_bytes x \<le> listing_by_tick_key_bytes y)"

definition less_listing_by_tick_key :: "listing_by_tick_key \<Rightarrow> listing_by_tick_key \<Rightarrow> bool" where
  "less_listing_by_tick_key x y = (listing_by_tick_key_bytes x < listing_by_tick_key_bytes y)"

instance
  by (rule linorder.intro_of_class, rule linorder_by_bytes [OF _ less_eq_listing_by_tick_key_def less_listing_by_tick_key_def])
    (metis injI option.inject listing_by_tick_key_of_bytes_bytes)

end

lemma listing_by_tick_key_less [key_simps]:
  "(ListingByTickKey t i < ListingByTickKey t' i') =
   (t < t' \<or> t = t' \<and> i < i')"
  by (simp add: less_listing_by_tick_key_def bytes_order)

lemma listing_by_tick_key_le [key_simps]:
  "(ListingByTickKey t i \<le> ListingByTickKey t' i') =
   (t < t' \<or> t = t' \<and> i \<le> i')"
  by (auto simp: le_less listing_by_tick_key_less)

interpretation listing_by_tick_key: db_key listing_by_tick_key_bytes listing_by_tick_key_of_bytes
  by unfold_locales (simp_all add: less_listing_by_tick_key_def)

text \<open>\<^verbatim>\<open>AddressHoldingKey\<close>: the holdings of an address; the decoder cuts the fixed-size fields from the end.\<close>

datatype address_holding_key = AddressHoldingKey (ah_spk: spk) (ah_tick: tick) (ah_token_id: u64)

fun address_holding_key_bytes :: "address_holding_key \<Rightarrow> bytes" where
  "address_holding_key_bytes (AddressHoldingKey p t i) = spk_bytes p @ tick_bytes t @ u64_be i"

definition address_holding_key_of_bytes :: "bytes \<Rightarrow> address_holding_key option" where
  "address_holding_key_of_bytes bs = do {
     i \<leftarrow> u64_of_be (drop (length bs - 8) bs);
     t \<leftarrow> tick_new_unchecked (take 10 (drop (length bs - 18) bs));
     p \<leftarrow> spk_of_bytes (take (length bs - 18) bs);
     Some (AddressHoldingKey p t i) }"

lemma address_holding_key_of_bytes_bytes [simp]: "address_holding_key_of_bytes (address_holding_key_bytes k) = Some k"
  by (cases k) (simp add: address_holding_key_of_bytes_def)

instantiation address_holding_key :: linorder
begin

definition less_eq_address_holding_key :: "address_holding_key \<Rightarrow> address_holding_key \<Rightarrow> bool" where
  "less_eq_address_holding_key x y = (address_holding_key_bytes x \<le> address_holding_key_bytes y)"

definition less_address_holding_key :: "address_holding_key \<Rightarrow> address_holding_key \<Rightarrow> bool" where
  "less_address_holding_key x y = (address_holding_key_bytes x < address_holding_key_bytes y)"

instance
  by (rule linorder.intro_of_class, rule linorder_by_bytes [OF _ less_eq_address_holding_key_def less_address_holding_key_def])
    (metis injI option.inject address_holding_key_of_bytes_bytes)

end

lemma address_holding_key_less [key_simps]:
  "(AddressHoldingKey p t i < AddressHoldingKey p t' i') =
   (t < t' \<or> t = t' \<and> i < i')"
  by (simp add: less_address_holding_key_def bytes_order)

interpretation address_holding_key: db_key address_holding_key_bytes address_holding_key_of_bytes
  by unfold_locales (simp_all add: less_address_holding_key_def)

text \<open>\<^verbatim>\<open>ScoredDiscountKey\<close>: the discounts, by transaction score.\<close>

datatype scored_discount_key = ScoredDiscountKey (sd_score: u64) (sd_tick: tick) (sd_spk: spk)

fun scored_discount_key_bytes :: "scored_discount_key \<Rightarrow> bytes" where
  "scored_discount_key_bytes (ScoredDiscountKey s t p) = u64_be s @ tick_bytes t @ spk_bytes p"

definition scored_discount_key_of_bytes :: "bytes \<Rightarrow> scored_discount_key option" where
  "scored_discount_key_of_bytes bs = do {
     s \<leftarrow> u64_of_be (take 8 bs);
     t \<leftarrow> tick_new_unchecked (take 10 (drop 8 bs));
     p \<leftarrow> spk_of_bytes (drop 18 bs);
     Some (ScoredDiscountKey s t p) }"

lemma scored_discount_key_of_bytes_bytes [simp]: "scored_discount_key_of_bytes (scored_discount_key_bytes k) = Some k"
  by (cases k) (simp add: scored_discount_key_of_bytes_def)

instantiation scored_discount_key :: linorder
begin

definition less_eq_scored_discount_key :: "scored_discount_key \<Rightarrow> scored_discount_key \<Rightarrow> bool" where
  "less_eq_scored_discount_key x y = (scored_discount_key_bytes x \<le> scored_discount_key_bytes y)"

definition less_scored_discount_key :: "scored_discount_key \<Rightarrow> scored_discount_key \<Rightarrow> bool" where
  "less_scored_discount_key x y = (scored_discount_key_bytes x < scored_discount_key_bytes y)"

instance
  by (rule linorder.intro_of_class, rule linorder_by_bytes [OF _ less_eq_scored_discount_key_def less_scored_discount_key_def])
    (metis injI option.inject scored_discount_key_of_bytes_bytes)

end

lemma scored_discount_key_lessI [key_simps]:
  "s < s' \<or> s = s' \<and> t < t' \<Longrightarrow> ScoredDiscountKey s t p < ScoredDiscountKey s' t' p'"
  by (auto simp: less_scored_discount_key_def bytes_order)

interpretation scored_discount_key: db_key scored_discount_key_bytes scored_discount_key_of_bytes
  by unfold_locales (simp_all add: less_scored_discount_key_def)

text \<open>\<^verbatim>\<open>VipKey\<close>: the discounts of an address for a tick, latest first.\<close>

datatype vip_key = VipKey (vk_spk: spk) (vk_tick: tick) (vk_reversed_score: u64) (vk_fee: u64)

fun vip_key_bytes :: "vip_key \<Rightarrow> bytes" where
  "vip_key_bytes (VipKey p t n f) = spk_bytes p @ tick_bytes t @ u64_be n @ u64_be f"

definition vip_key_of_bytes :: "bytes \<Rightarrow> vip_key option" where
  "vip_key_of_bytes bs = do {
     f \<leftarrow> u64_of_be (drop (length bs - 8) bs);
     n \<leftarrow> u64_of_be (take 8 (drop (length bs - 16) bs));
     t \<leftarrow> tick_new_unchecked (take 10 (drop (length bs - 26) bs));
     p \<leftarrow> spk_of_bytes (take (length bs - 26) bs);
     Some (VipKey p t n f) }"

lemma vip_key_of_bytes_bytes [simp]: "vip_key_of_bytes (vip_key_bytes k) = Some k"
  by (cases k) (simp add: vip_key_of_bytes_def)

instantiation vip_key :: linorder
begin

definition less_eq_vip_key :: "vip_key \<Rightarrow> vip_key \<Rightarrow> bool" where
  "less_eq_vip_key x y = (vip_key_bytes x \<le> vip_key_bytes y)"

definition less_vip_key :: "vip_key \<Rightarrow> vip_key \<Rightarrow> bool" where
  "less_vip_key x y = (vip_key_bytes x < vip_key_bytes y)"

instance
  by (rule linorder.intro_of_class, rule linorder_by_bytes [OF _ less_eq_vip_key_def less_vip_key_def])
    (metis injI option.inject vip_key_of_bytes_bytes)

end

lemma vip_key_less [key_simps]:
  "(VipKey p t n f < VipKey p t' n' f') =
   (t < t' \<or> t = t' \<and> (n < n' \<or> n = n' \<and> f < f'))"
  by (simp add: less_vip_key_def bytes_order)

interpretation vip_key: db_key vip_key_bytes vip_key_of_bytes
  by unfold_locales (simp_all add: less_vip_key_def)

text \<open>\<^verbatim>\<open>StatsKey\<close>: the single key of the statistics partition.\<close>

datatype stats_key = IndexerStats

fun stats_key_bytes :: "stats_key \<Rightarrow> bytes" where
  "stats_key_bytes IndexerStats = [1]"

definition stats_key_of_bytes :: "bytes \<Rightarrow> stats_key option" where
  "stats_key_of_bytes bs = (case bs of [] \<Rightarrow> None | b # _ \<Rightarrow> if b = 1 then Some IndexerStats else None)"

lemma stats_key_of_bytes_bytes [simp]: "stats_key_of_bytes (stats_key_bytes k) = Some k"
  by (cases k) (simp add: stats_key_of_bytes_def)

instantiation stats_key :: linorder
begin

definition less_eq_stats_key :: "stats_key \<Rightarrow> stats_key \<Rightarrow> bool" where
  "less_eq_stats_key x y = (stats_key_bytes x \<le> stats_key_bytes y)"

definition less_stats_key :: "stats_key \<Rightarrow> stats_key \<Rightarrow> bool" where
  "less_stats_key x y = (stats_key_bytes x < stats_key_bytes y)"

instance
  by (rule linorder.intro_of_class, rule linorder_by_bytes [OF _ less_eq_stats_key_def less_stats_key_def])
    (metis injI option.inject stats_key_of_bytes_bytes)

end

interpretation stats_key: db_key stats_key_bytes stats_key_of_bytes
  by unfold_locales (simp_all add: less_stats_key_def)

section \<open>Constructors with reversed fields\<close>

definition TokenMintsKey_with_seq :: "u64 \<Rightarrow> tick \<Rightarrow> u64 \<Rightarrow> u64 \<Rightarrow> token_mints_key" where
  "TokenMintsKey_with_seq score t token_id seq = TokenMintsKey score t token_id (rev_u64 seq)"

definition MintHistoryKey_with_seq :: "tick \<Rightarrow> u64 \<Rightarrow> u64 \<Rightarrow> u64 \<Rightarrow> mint_history_key" where
  "MintHistoryKey_with_seq t seq token_id score = MintHistoryKey t (rev_u64 seq) token_id score"

definition OwnershipHistoryKey_with_score :: "tick \<Rightarrow> u64 \<Rightarrow> u64 \<Rightarrow> ownership_history_key" where
  "OwnershipHistoryKey_with_score t token_id score = OwnershipHistoryKey t token_id (rev_u64 score)"

definition oh_score :: "ownership_history_key \<Rightarrow> u64" where
  "oh_score k = rev_u64 (oh_reversed_score k)"

lemmas key_with_defs = TokenMintsKey_with_seq_def MintHistoryKey_with_seq_def OwnershipHistoryKey_with_score_def

end
