(* ===== verification/Stats.thy ===== *)
theory Stats
  imports Prelude "HOL-Library.Monad_Syntax"
begin

text \<open>
  The persisted statistics, \<^verbatim>\<open>database/src/database/stats.rs\<close>: saturating addition and subtraction of a
  record of counters, and the decoder that accepts the records written before the marketplace
  (five fields) as well as the present ones (seven).
\<close>

record stats =
  st_deployments :: u64
  st_mints :: u64
  st_transfers :: u64
  st_royalty_fees :: u64
  st_security_fees :: u64
  st_listings :: u64
  st_sends :: u64

definition stats_default :: stats where
  "stats_default = \<lparr>st_deployments = 0, st_mints = 0, st_transfers = 0, st_royalty_fees = 0,
     st_security_fees = 0, st_listings = 0, st_sends = 0\<rparr>"

definition stats_add :: "stats \<Rightarrow> stats \<Rightarrow> stats" where
  "stats_add a b = \<lparr>
     st_deployments = sat_add (st_deployments a) (st_deployments b),
     st_mints = sat_add (st_mints a) (st_mints b),
     st_transfers = sat_add (st_transfers a) (st_transfers b),
     st_royalty_fees = sat_add (st_royalty_fees a) (st_royalty_fees b),
     st_security_fees = sat_add (st_security_fees a) (st_security_fees b),
     st_listings = sat_add (st_listings a) (st_listings b),
     st_sends = sat_add (st_sends a) (st_sends b)\<rparr>"

definition stats_sub :: "stats \<Rightarrow> stats \<Rightarrow> stats" where
  "stats_sub a b = \<lparr>
     st_deployments = sat_sub (st_deployments a) (st_deployments b),
     st_mints = sat_sub (st_mints a) (st_mints b),
     st_transfers = sat_sub (st_transfers a) (st_transfers b),
     st_royalty_fees = sat_sub (st_royalty_fees a) (st_royalty_fees b),
     st_security_fees = sat_sub (st_security_fees a) (st_security_fees b),
     st_listings = sat_sub (st_listings a) (st_listings b),
     st_sends = sat_sub (st_sends a) (st_sends b)\<rparr>"

section \<open>Encoding\<close>

text \<open>Borsh writes the fields in order, little-endian.\<close>

definition borsh_u64 :: "u64 \<Rightarrow> bytes" where
  "borsh_u64 x = rev (u64_be x)"

fun read_u64 :: "bytes \<Rightarrow> (u64 \<times> bytes) option" where
  "read_u64 bs = (if length bs < 8 then None
                  else do { x \<leftarrow> u64_of_be (rev (take 8 bs)); Some (x, drop 8 bs) })"

text \<open>A short read of a marketplace field gives zero and leaves nothing to read.\<close>

definition read_u64_or_zero :: "bytes \<Rightarrow> u64 \<times> bytes" where
  "read_u64_or_zero bs = (case read_u64 bs of Some r \<Rightarrow> r | None \<Rightarrow> (0, []))"

definition stats_to_vec :: "stats \<Rightarrow> bytes" where
  "stats_to_vec s =
     borsh_u64 (st_deployments s) @ borsh_u64 (st_mints s) @ borsh_u64 (st_transfers s) @
     borsh_u64 (st_royalty_fees s) @ borsh_u64 (st_security_fees s) @
     borsh_u64 (st_listings s) @ borsh_u64 (st_sends s)"

definition stats_deserialize_reader :: "bytes \<Rightarrow> (stats \<times> bytes) option" where
  "stats_deserialize_reader r0 = do {
     (deployments, r1) \<leftarrow> read_u64 r0;
     (mints, r2) \<leftarrow> read_u64 r1;
     (transfers, r3) \<leftarrow> read_u64 r2;
     (royalty_fees, r4) \<leftarrow> read_u64 r3;
     (security_fees, r5) \<leftarrow> read_u64 r4;
     let (listings, r6) = read_u64_or_zero r5;
     let (sends, r7) = read_u64_or_zero r6;
     Some (\<lparr>st_deployments = deployments, st_mints = mints, st_transfers = transfers,
            st_royalty_fees = royalty_fees, st_security_fees = security_fees,
            st_listings = listings, st_sends = sends\<rparr>, r7) }"

text \<open>\<^verbatim>\<open>borsh::from_slice\<close> refuses trailing bytes.\<close>

definition stats_from_slice :: "bytes \<Rightarrow> stats option" where
  "stats_from_slice bs = do {
     (s, rest) \<leftarrow> stats_deserialize_reader bs;
     (if rest = [] then Some s else None) }"

lemma length_borsh_u64 [simp]: "length (borsh_u64 x) = 8"
  by (simp add: borsh_u64_def)

lemma read_u64_borsh [simp]: "read_u64 (borsh_u64 x @ r) = Some (x, r)"
  by (simp add: borsh_u64_def)

lemma read_u64_borsh_end [simp]: "read_u64 (borsh_u64 x) = Some (x, [])"
  using read_u64_borsh [of x "[]"] by simp

declare read_u64.simps [simp del]

lemma read_u64_Nil [simp]: "read_u64 [] = None"
  by (simp add: read_u64.simps)

lemma read_u64_or_zero_simps [simp]:
  "read_u64_or_zero (borsh_u64 x @ r) = (x, r)"
  "read_u64_or_zero (borsh_u64 x) = (x, [])"
  "read_u64_or_zero [] = (0, [])"
  by (simp_all add: read_u64_or_zero_def)

text \<open>Decoding an encoded statistics record gives it back.\<close>

theorem stats_round_trip: "stats_from_slice (stats_to_vec s) = Some s"
  by (simp add: stats_from_slice_def stats_deserialize_reader_def stats_to_vec_def)

text \<open>The forty bytes written before the marketplace decode to the same counters with no listings and sends.\<close>

theorem stats_v1_compatible:
  "stats_from_slice (take 40 (stats_to_vec s)) = Some (s\<lparr>st_listings := 0, st_sends := 0\<rparr>)"
  by (simp add: stats_from_slice_def stats_deserialize_reader_def stats_to_vec_def)

text \<open>Removing the statistics of a batch undoes adding them, as long as no counter saturates.\<close>

theorem stats_sub_add_cancel:
  assumes "unat (st_deployments s) + unat (st_deployments d) < 2 ^ 64"
    and "unat (st_mints s) + unat (st_mints d) < 2 ^ 64"
    and "unat (st_transfers s) + unat (st_transfers d) < 2 ^ 64"
    and "unat (st_royalty_fees s) + unat (st_royalty_fees d) < 2 ^ 64"
    and "unat (st_security_fees s) + unat (st_security_fees d) < 2 ^ 64"
    and "unat (st_listings s) + unat (st_listings d) < 2 ^ 64"
    and "unat (st_sends s) + unat (st_sends d) < 2 ^ 64"
  shows "stats_sub (stats_add s d) d = s"
proof -
  have c: "sat_sub (sat_add a b) b = a" if "unat a + unat b < 2 ^ 64" for a b
    using that by (simp add: word_unat_eq_iff unat_sat_sub unat_sat_add)
  show ?thesis using assms by (simp add: stats_sub_def stats_add_def c)
qed

theorem stats_sub_add_cancel_witness:
  "stats_sub (stats_add stats_default (stats_default\<lparr>st_mints := 5, st_sends := 2\<rparr>))
     (stats_default\<lparr>st_mints := 5, st_sends := 2\<rparr>) = stats_default"
  by (rule stats_sub_add_cancel) (simp_all add: stats_default_def)

end
