(* ===== verification/Model.thy ===== *)
theory Model
  imports Keys Stats
begin

text \<open>
  The data of the indexer (\<^verbatim>\<open>core/src/model/krc721/database.rs\<close>, \<^verbatim>\<open>model.rs\<close>) and the database
  (\<^verbatim>\<open>database/src/database.rs\<close>): a record with one field per partition. Text fields are lists of
  Unicode scalar values; \<^verbatim>\<open>usize\<close> is 64 bits.
\<close>

section \<open>Operations\<close>

record attribute =
  at_trait_type :: ustring
  at_value :: ustring
  at_display_type :: "ustring option"

record local_metadata =
  lm_name :: ustring
  lm_description :: ustring
  lm_image :: ustring
  lm_attributes :: "attribute list option"

datatype metadata = Remote ustring | Local local_metadata

text \<open>No acceptable prefix starts the address of the metadata (or of the image).\<close>

fun has_incompatible_uri_prefix :: "ustring list \<Rightarrow> metadata \<Rightarrow> bool" where
  "has_incompatible_uri_prefix acceptable (Remote buri) = list_all (\<lambda>p. \<not> prefix p buri) acceptable"
| "has_incompatible_uri_prefix acceptable (Local m) = list_all (\<lambda>p. \<not> prefix p (lm_image m)) acceptable"

record royalty_details =
  beneficiary :: spk
  royalty_fee :: u64

record deploy_info =
  di_metadata :: metadata
  di_max :: u64
  di_deployer :: spk
  di_royalty :: "royalty_details option"
  di_mint_start_daa :: u64
  di_premint :: u64

record mint_info =
  mi_token_id :: u64
  mi_to :: spk
  mi_royalty :: "royalty_details option"

record transfer_info =
  ti_token_id :: u64
  ti_to :: spk

record discount_info =
  dc_to :: spk
  dc_fee :: u64

record listing_info =
  li_token_id :: u64
  li_utxo_address :: spk
  li_redeem_script :: bytes

record send_info =
  si_token_id :: u64
  si_payment_amount :: u64
  si_buyer :: "spk option"
  si_listing_utxo_txid :: hash

record operation_common =
  oc_tick :: tick
  oc_tx_id :: hash
  oc_block_time :: u64
  oc_sender :: spk
  oc_fee :: u64
  oc_accepting_block_daa_score :: u64

record deploy_info_with_common =
  dw_info :: deploy_info
  dw_common :: operation_common

record scored_deploy_info =
  sd_deploy_score :: u64
  sd_deploy_info :: deploy_info_with_common

datatype operation_info =
    Deploy deploy_info
  | Mint mint_info
  | Transfer transfer_info
  | Discount discount_info
  | Listing listing_info
  | Send send_info

record operation =
  op_common :: operation_common
  op_info :: operation_info

datatype ctx_validation_error =
    TickExists
  | TickReserved
  | InsufficientRoyaltyFee
  | MissingRoyaltyMintFee
  | InvalidBeneficiaryForRoyaltyMintFee
  | TickNotFound
  | MintingFinished
  | TokenNotFound
  | WrongOwner
  | MintingNotStarted tick u64 u64
  | WrongDeployer
  | DiscountFeeOverflow
  | TokenAlreadyListed
  | ListingNotFound
  | WrongListingUtxo
  | TokenIsListed
  | InvalidListingP2sh

record checked_operation =
  co_operation :: operation
  co_error :: "ctx_validation_error option"

record mergeset_operation =
  mo_block_index_within_mergeset :: u64
  mo_index_within_merged_block :: u64
  mo_operation :: operation

record mergeset =
  ms_operations :: "mergeset_operation list"
  ms_entropy :: u64
  ms_blue_score :: u64
  ms_accepted_chain_block_hash :: hash

record virtual_chain_changes =
  removed_chain_block_hashes :: "hash list"
  forced_rollback_blue_score :: "u64 option"
  mergesets :: "mergeset list"

section \<open>Values of the partitions\<close>

record current_ownership_value =
  co_owner :: spk
  co_mod_tx_score :: u64

record pre_mod_range =
  pr_range_index :: u64
  pr_start :: u64
  pr_size :: u64
  pr_removed :: bool
  pr_split :: bool
  pr_is_initial :: bool

record listing_value =
  lv_seller :: spk
  lv_listing_tx_id :: hash
  lv_utxo_address :: spk
  lv_redeem_script :: bytes
  lv_op_score :: u64

record token_id_score_seq_no =
  ts_token_id :: u64
  ts_score :: u64
  ts_seq_no :: u64

section \<open>The database\<close>

record db =
  blockhash_to_score :: "(hash, u64) part"
  chain_block_scores :: "(blue_hash_key, unit) part"
  operation_history :: "(u64, checked_operation) part"
  tx_id_to_opscore :: "(hash, u64) part"
  collection_deployments :: "(deployment_key, deploy_info_with_common) part"
  collection_registry :: "(tick, scored_deploy_info) part"
  mint_history :: "(mint_history_key, unit) part"
  ownership_changes :: "(token_mints_key, unit) part"
  ownership_history :: "(ownership_history_key, spk) part"
  current_ownership :: "(ownership_key, current_ownership_value) part"
  available_ranges :: "(range_key, u64 \<times> u64) part"
  range_lengths :: "(tick, u64) part"
  token_id_meta :: "(token_meta_key, pre_mod_range) part"
  address_holdings :: "(address_holding_key, u64) part"
  db_stats :: "(stats_key, stats) part"
  notification_queue :: "(u64, virtual_chain_changes) part"
  score_to_discount :: "(scored_discount_key, u64) part"
  vip :: "(vip_key, unit) part"
  tx_id_to_rejection :: "(hash, ustring) part"
  serial_to_rejected_tx_id :: "(u64, hash) part"
  listings :: "(ownership_key, listing_value) part"
  listings_by_tick :: "(listing_by_tick_key, unit) part"
  address_listings :: "(address_holding_key, u64) part"
  serial_rejection :: u64

definition db_empty :: db where
  "db_empty = \<lparr>
     blockhash_to_score = part_empty, chain_block_scores = part_empty,
     operation_history = part_empty, tx_id_to_opscore = part_empty,
     collection_deployments = part_empty, collection_registry = part_empty,
     mint_history = part_empty, ownership_changes = part_empty, ownership_history = part_empty,
     current_ownership = part_empty, available_ranges = part_empty, range_lengths = part_empty,
     token_id_meta = part_empty, address_holdings = part_empty, db_stats = part_empty,
     notification_queue = part_empty, score_to_discount = part_empty, vip = part_empty,
     tx_id_to_rejection = part_empty, serial_to_rejected_tx_id = part_empty,
     listings = part_empty, listings_by_tick = part_empty, address_listings = part_empty,
     serial_rejection = 1\<rparr>"

end
