(* ===== verification/Queries.thy ===== *)
theory Queries
  imports Model
begin

text \<open>
  The queries that \<^verbatim>\<open>database/src/database/partition.rs\<close> adds to single partitions: the latest mint, the
  latest owner, the fee granted to an address, the discounts from a score on, and the statistics.
  The lemmas say what each scan finds.
\<close>

section \<open>Queries\<close>

text \<open>The latest mint of a tick: the sequence numbers are stored descending.\<close>

definition last_minted_token_seq_no :: "tick \<Rightarrow> (mint_history_key, unit) part \<Rightarrow> token_id_score_seq_no option" where
  "last_minted_token_seq_no t p =
     (case part_prefix mint_history_key_bytes (tick_bytes t) p of
        [] \<Rightarrow> None
      | (k, _) # _ \<Rightarrow> Some \<lparr>ts_token_id = mh_token_id k, ts_score = mh_score k,
                             ts_seq_no = rev_u64 (mh_reversed_seq k)\<rparr>)"

text \<open>The latest owner of a token and the score of the operation that made it owner.\<close>

definition last_owner_with_tx_mod_score ::
  "ownership_key \<Rightarrow> (ownership_history_key, spk) part \<Rightarrow> (spk \<times> u64) option" where
  "last_owner_with_tx_mod_score key p =
     (case part_prefix ownership_history_key_bytes (ownership_key_bytes key) p of
        [] \<Rightarrow> None
      | (k, v) # _ \<Rightarrow> Some (v, rev_u64 (oh_reversed_score k)))"

definition available_ranges_length :: "tick \<Rightarrow> (range_key, u64 \<times> u64) part \<Rightarrow> u64" where
  "available_ranges_length t p =
     (let r = part_range (Included (RangeKey t 0)) (Included (RangeKey t (- 1))) p in
      if r = [] then 0 else rk_index (fst (last r)) + 1)"

definition address_holdings_by_tick :: "spk \<Rightarrow> tick \<Rightarrow> (address_holding_key, u64) part \<Rightarrow> u64 list" where
  "address_holdings_by_tick p t hp =
     map (\<lambda>(k, _). ah_token_id k) (part_prefix address_holding_key_bytes (spk_bytes p @ tick_bytes t) hp)"

definition last_fee :: "spk \<Rightarrow> tick \<Rightarrow> (vip_key, unit) part \<Rightarrow> u64 option" where
  "last_fee p t vp =
     (case part_range_keys (Included (VipKey p t 0 0)) (Excluded (VipKey p t (- 1) (- 1))) vp of
        [] \<Rightarrow> None
      | k # _ \<Rightarrow> Some (vk_fee k))"

text \<open>The discounts from a score on: the bound is the eight bytes of the score.\<close>

definition discounts_from_score ::
  "u64 \<Rightarrow> (scored_discount_key, u64) part \<Rightarrow> (scored_discount_key \<times> u64) list" where
  "discounts_from_score tx_score p =
     [(k, v) \<leftarrow> part_entries p. u64_be tx_score \<le> scored_discount_key_bytes k]"

definition last_accepted_block :: "(blue_hash_key, unit) part \<Rightarrow> blue_hash_key option" where
  "last_accepted_block p = part_last_key p"

definition queue_purge :: "(u64, virtual_chain_changes) part \<Rightarrow> (u64, virtual_chain_changes) part" where
  "queue_purge p = fold part_remove (map fst (part_entries p)) p"

definition stats_load :: "(stats_key, stats) part \<Rightarrow> stats" where
  "stats_load p = (case part_get p IndexerStats of Some s \<Rightarrow> s | None \<Rightarrow> stats_default)"

definition stats_addition :: "stats \<Rightarrow> (stats_key, stats) part \<Rightarrow> stats \<times> (stats_key, stats) part" where
  "stats_addition diffs p =
     (let s = stats_add (stats_load p) diffs in (s, part_insert IndexerStats s p))"

definition stats_removal :: "stats \<Rightarrow> (stats_key, stats) part \<Rightarrow> stats \<times> (stats_key, stats) part" where
  "stats_removal diffs p =
     (let s = stats_sub (stats_load p) diffs in (s, part_insert IndexerStats s p))"

section \<open>What the scans find\<close>

lemma prefix_append_same_length:
  "length xs = length ys \<Longrightarrow> prefix xs (ys @ zs) = (xs = ys)"
  by (auto simp: prefix_def)

lemma prefix_mint_history_key: "prefix (tick_bytes t) (mint_history_key_bytes k) = (mh_tick k = t)"
  by (cases k) (auto simp: prefix_append_same_length)

lemma prefix_ownership_history_key:
  "prefix (ownership_key_bytes key) (ownership_history_key_bytes k) =
   (oh_tick k = ok_tick key \<and> oh_token_id k = ok_token_id key)"
proof (cases k; cases key)
  fix t i n t' i'
  assume k: "k = OwnershipHistoryKey t i n" and key: "key = OwnershipKey t' i'"
  have "prefix ((tick_bytes t' @ u64_be i')) ((tick_bytes t @ u64_be i) @ u64_be n) =
        (tick_bytes t' @ u64_be i' = tick_bytes t @ u64_be i)"
    by (rule prefix_append_same_length) simp
  with k key show ?thesis by auto
qed

lemma last_minted_None_iff:
  "last_minted_token_seq_no t p = None \<longleftrightarrow> (\<forall>k \<in> part_keys p. mh_tick k \<noteq> t)"
proof -
  have "last_minted_token_seq_no t p = None \<longleftrightarrow> part_prefix mint_history_key_bytes (tick_bytes t) p = []"
    by (auto simp: last_minted_token_seq_no_def split: list.splits)
  also have "\<dots> \<longleftrightarrow> (\<forall>k v. (k, v) \<notin> set (part_prefix mint_history_key_bytes (tick_bytes t) p))"
    by (metis list.set_intros(1) neq_Nil_conv surj_pair empty_iff list.set(1))
  finally show ?thesis by (auto simp: in_part_prefix_iff prefix_mint_history_key part_keys_def)
qed

lemma last_minted_SomeD:
  assumes "last_minted_token_seq_no t p = Some r"
  shows "MintHistoryKey_with_seq t (ts_seq_no r) (ts_token_id r) (ts_score r) \<in> part_keys p"
    and "\<And>k. k \<in> part_keys p \<Longrightarrow> mh_tick k = t \<Longrightarrow> rev_u64 (mh_reversed_seq k) \<le> ts_seq_no r"
proof -
  let ?L = "part_prefix mint_history_key_bytes (tick_bytes t) p"
  obtain k0 v0 rest where L: "?L = (k0, v0) # rest"
    and r: "r = \<lparr>ts_token_id = mh_token_id k0, ts_score = mh_score k0, ts_seq_no = rev_u64 (mh_reversed_seq k0)\<rparr>"
    using assms by (auto simp: last_minted_token_seq_no_def split: list.splits)
  have m: "(k0, v0) \<in> set ?L" using L by simp
  then have t0: "mh_tick k0 = t" and g: "part_get p k0 = Some v0"
    by (simp_all add: in_part_prefix_iff prefix_mint_history_key)
  then show "MintHistoryKey_with_seq t (ts_seq_no r) (ts_token_id r) (ts_score r) \<in> part_keys p"
    by (cases k0) (simp add: r MintHistoryKey_with_seq_def part_keys_def)
  fix k assume k: "k \<in> part_keys p" "mh_tick k = t"
  then obtain v where "(k, v) \<in> set ?L"
    by (auto simp: in_part_prefix_iff prefix_mint_history_key part_keys_def)
  then have "k0 \<le> k" using part_prefix_sorted [of mint_history_key_bytes "tick_bytes t" p] L
    by (metis al_sorted_hd fst_conv)
  then show "rev_u64 (mh_reversed_seq k) \<le> ts_seq_no r"
    using t0 k(2) by (cases k0; cases k) (auto simp: r mint_history_key_le)
qed

lemma last_owner_None_iff:
  "last_owner_with_tx_mod_score key p = None \<longleftrightarrow>
   (\<forall>n. part_get p (OwnershipHistoryKey (ok_tick key) (ok_token_id key) n) = None)"
proof -
  let ?L = "part_prefix ownership_history_key_bytes (ownership_key_bytes key) p"
  have "last_owner_with_tx_mod_score key p = None \<longleftrightarrow> ?L = []"
    by (auto simp: last_owner_with_tx_mod_score_def split: list.splits)
  also have "\<dots> \<longleftrightarrow> (\<forall>k v. (k, v) \<notin> set ?L)"
    by (metis list.set_intros(1) neq_Nil_conv surj_pair empty_iff list.set(1))
  also have "\<dots> \<longleftrightarrow> (\<forall>n. part_get p (OwnershipHistoryKey (ok_tick key) (ok_token_id key) n) = None)"
  proof -
    have "(\<forall>k v. (k, v) \<notin> set ?L) \<longleftrightarrow>
          (\<forall>k. oh_tick k = ok_tick key \<and> oh_token_id k = ok_token_id key \<longrightarrow> part_get p k = None)"
      by (auto simp: in_part_prefix_iff prefix_ownership_history_key)
    then show ?thesis by (metis ownership_history_key.collapse ownership_history_key.sel(1,2))
  qed
  finally show ?thesis .
qed

lemma last_owner_SomeD:
  assumes "last_owner_with_tx_mod_score key p = Some (q, s)"
  shows "part_get p (OwnershipHistoryKey_with_score (ok_tick key) (ok_token_id key) s) = Some q"
    and "\<And>s'. OwnershipHistoryKey_with_score (ok_tick key) (ok_token_id key) s' \<in> part_keys p \<Longrightarrow> s' \<le> s"
proof -
  let ?L = "part_prefix ownership_history_key_bytes (ownership_key_bytes key) p"
  obtain k0 rest where L: "?L = (k0, q) # rest" and s: "s = rev_u64 (oh_reversed_score k0)"
    using assms by (auto simp: last_owner_with_tx_mod_score_def split: list.splits)
  have m: "(k0, q) \<in> set ?L" using L by simp
  then have t0: "oh_tick k0 = ok_tick key" "oh_token_id k0 = ok_token_id key" and g: "part_get p k0 = Some q"
    by (simp_all add: in_part_prefix_iff prefix_ownership_history_key)
  then show "part_get p (OwnershipHistoryKey_with_score (ok_tick key) (ok_token_id key) s) = Some q"
    by (cases k0) (simp add: s OwnershipHistoryKey_with_score_def)
  fix s' assume "OwnershipHistoryKey_with_score (ok_tick key) (ok_token_id key) s' \<in> part_keys p"
  then obtain v where "(OwnershipHistoryKey_with_score (ok_tick key) (ok_token_id key) s', v) \<in> set ?L"
    by (auto simp: in_part_prefix_iff prefix_ownership_history_key part_keys_def OwnershipHistoryKey_with_score_def
        simp del: ownership_history_key_bytes.simps)
  then have "k0 \<le> OwnershipHistoryKey_with_score (ok_tick key) (ok_token_id key) s'"
    using part_prefix_sorted [of ownership_history_key_bytes "ownership_key_bytes key" p] L
    by (metis al_sorted_hd fst_conv)
  then show "s' \<le> s" using t0
    by (cases k0) (auto simp: s OwnershipHistoryKey_with_score_def ownership_history_key_le,
        metis rev_u64_invol rev_u64_le)
qed

end
