(* ===== verification/TokenId.thy ===== *)
theory TokenId
  imports Queries "HOL-Library.Multiset"
begin

text \<open>
  Random token identifiers, \<^verbatim>\<open>nexus/src/processor/token_id.rs\<close>. The ids of a tick that are still to
  be minted are a list of ranges \<^verbatim>\<open>(start, size)\<close>, stored by index; drawing an id removes, shrinks or
  splits one range and records what it was, so that a reorganisation can undo the draw. The
  specification is a step on the list of ranges; the lemmas show that the stored operations
  refine it, that a draw takes exactly one id out of the available ones, and that a rollback
  restores the database.
\<close>

section \<open>Operations\<close>

definition remove_range ::
  "db \<Rightarrow> tick \<Rightarrow> u64 \<Rightarrow> u64 \<Rightarrow> u64 \<Rightarrow> u64 \<Rightarrow> u64 \<Rightarrow> bool \<Rightarrow> (db \<times> u64) res" where
  "remove_range d t range_index value_id start sz ranges_len is_initial =
     (let d1 = d\<lparr>token_id_meta := part_insert (TokenMetaKey t value_id)
            \<lparr>pr_range_index = range_index, pr_start = start, pr_size = sz, pr_removed = True,
             pr_split = False, pr_is_initial = is_initial\<rparr> (token_id_meta d)\<rparr> in
      and_then
        (if range_index < ranges_len - 1 then
           (let last_idx = ranges_len - 1 in
            and_then (expect ''Last value must exist if range_lengths is correct''
                        (part_get (available_ranges d1) (RangeKey t last_idx)))
              (\<lambda>last_value. Inr (d1\<lparr>available_ranges :=
                 part_remove (RangeKey t last_idx)
                   (part_insert (RangeKey t range_index) last_value (available_ranges d1))\<rparr>)))
         else Inr (d1\<lparr>available_ranges := part_remove (RangeKey t range_index) (available_ranges d1)\<rparr>))
        (\<lambda>d2. Inr (d2\<lparr>range_lengths := part_insert t (ranges_len - 1) (range_lengths d2)\<rparr>, ranges_len - 1)))"

definition shrink_range ::
  "db \<Rightarrow> tick \<Rightarrow> u64 \<Rightarrow> u64 \<Rightarrow> u64 \<Rightarrow> u64 \<Rightarrow> bool \<Rightarrow> bool \<Rightarrow> db" where
  "shrink_range d t range_index start sz value_id from_start is_initial =
     (let value = (if from_start then (start + 1, sz - 1) else (start, sz - 1)) in
      d\<lparr>token_id_meta := part_insert (TokenMetaKey t value_id)
            \<lparr>pr_range_index = range_index, pr_start = start, pr_size = sz, pr_removed = False,
             pr_split = False, pr_is_initial = is_initial\<rparr> (token_id_meta d),
        available_ranges := part_insert (RangeKey t range_index) value (available_ranges d)\<rparr>)"

definition split_range ::
  "db \<Rightarrow> tick \<Rightarrow> u64 \<Rightarrow> u64 \<Rightarrow> u64 \<Rightarrow> u64 \<Rightarrow> u64 \<Rightarrow> u64 \<Rightarrow> bool \<Rightarrow> db \<times> u64" where
  "split_range d t range_index value_id start sz value_offset ranges_len is_initial =
     (let left_size = value_offset;
          right_start = value_id + 1;
          right_size = sz - value_offset - 1;
          n = ranges_len + 1 in
      (d\<lparr>token_id_meta := part_insert (TokenMetaKey t value_id)
            \<lparr>pr_range_index = range_index, pr_start = start, pr_size = sz, pr_removed = False,
             pr_split = True, pr_is_initial = is_initial\<rparr> (token_id_meta d),
         available_ranges := part_insert (RangeKey t ranges_len) (right_start, right_size)
            (part_insert (RangeKey t range_index) (start, left_size) (available_ranges d)),
         range_lengths := part_insert t n (range_lengths d)\<rparr>, n))"

text \<open>The case distinction of \<^verbatim>\<open>generate_token_id\<close> on the place of the id in its range.\<close>

definition take_value ::
  "db \<Rightarrow> tick \<Rightarrow> u64 \<Rightarrow> u64 \<Rightarrow> u64 \<Rightarrow> u64 \<Rightarrow> u64 \<Rightarrow> bool \<Rightarrow> db res" where
  "take_value d t range_index value_id start sz ranges_len is_initial =
     (let value_offset = value_id - start in
      if value_offset = 0 then
        (if sz = 1 then
           and_then (remove_range d t range_index value_id start sz ranges_len is_initial) (\<lambda>(d1, _). Inr d1)
         else Inr (shrink_range d t range_index start sz value_id True is_initial))
      else if value_offset = sz - 1 then
        Inr (shrink_range d t range_index start sz value_id False is_initial)
      else Inr (fst (split_range d t range_index value_id start sz value_offset ranges_len is_initial)))"

text \<open>
  The remainder by a zero size panics, as do a missing range and an id above the supply. The supply
  is the value of the \<^verbatim>\<open>NonZero\<close> argument.
\<close>

definition generate_token_id :: "db \<Rightarrow> tick \<Rightarrow> u64 \<Rightarrow> u64 \<Rightarrow> u64 \<Rightarrow> (u64 \<times> db) res" where
  "generate_token_id d t mergeset_entropy max_supply premint =
     (let len0 = (case part_get (range_lengths d) t of Some n \<Rightarrow> n | None \<Rightarrow> 0);
          is_initial = (len0 = 0);
          ranges_len = (if is_initial then 1 else len0);
          d0 = (if is_initial then d\<lparr>range_lengths := part_insert t 1 (range_lengths d)\<rparr> else d);
          range_index = (if is_initial then 0 else mergeset_entropy mod ranges_len);
          range = (if is_initial then Some (1 + premint, max_supply - premint)
                   else part_get (available_ranges d) (RangeKey t range_index)) in
      and_then (expect ''Range must exist'' range) (\<lambda>(start, sz).
        if sz = 0 then Inl (Panic ''remainder with a divisor of zero'')
        else (let value_id = start + mergeset_entropy mod sz in
          if \<not> value_id \<le> max_supply then Inl (Panic ''Generated ID is greater than max supply'')
          else and_then (take_value d0 t range_index value_id start sz ranges_len is_initial)
              (\<lambda>d1. if value_id = 0 then Inl (Panic ''Generated ID cannot be zero since ranges start from 1'')
                    else Inr (value_id, d1)))))"

definition revert_removed_range :: "db \<Rightarrow> tick \<Rightarrow> pre_mod_range \<Rightarrow> u64 \<Rightarrow> (db \<times> u64) res" where
  "revert_removed_range d t pre ranges_len =
     and_then
       (if pr_range_index pre < ranges_len then
          and_then (expect ''Value must exist at target position if range tracking is correct''
                      (part_get (available_ranges d) (RangeKey t (pr_range_index pre))))
            (\<lambda>current_value. Inr (d\<lparr>available_ranges :=
               part_insert (RangeKey t ranges_len) current_value (available_ranges d)\<rparr>))
        else Inr d)
       (\<lambda>d1. Inr (d1\<lparr>available_ranges :=
                       part_insert (RangeKey t (pr_range_index pre)) (pr_start pre, pr_size pre) (available_ranges d1),
                     range_lengths := part_insert t (ranges_len + 1) (range_lengths d1)\<rparr>, ranges_len + 1))"

definition restore_range_maybe_split :: "db \<Rightarrow> tick \<Rightarrow> pre_mod_range \<Rightarrow> u64 \<Rightarrow> db \<times> u64" where
  "restore_range_maybe_split d t pre ranges_len =
     (let d1 = d\<lparr>available_ranges :=
            part_insert (RangeKey t (pr_range_index pre)) (pr_start pre, pr_size pre) (available_ranges d)\<rparr> in
      if pr_split pre then
        (let n = ranges_len - 1 in
         (d1\<lparr>available_ranges := part_remove (RangeKey t n) (available_ranges d1),
             range_lengths := part_insert t n (range_lengths d1)\<rparr>, n))
      else (d1, ranges_len))"

definition rollback_token_generation :: "db \<Rightarrow> tick \<Rightarrow> u64 \<Rightarrow> db res" where
  "rollback_token_generation d t token_id =
     and_then (expect ''Token metadata must exist'' (part_get (token_id_meta d) (TokenMetaKey t token_id))) (\<lambda>pre.
       let ranges_len = (case part_get (range_lengths d) t of Some n \<Rightarrow> n | None \<Rightarrow> 0) in
       and_then
         (if pr_removed pre then revert_removed_range d t pre ranges_len
          else Inr (restore_range_maybe_split d t pre ranges_len))
         (\<lambda>(d1, n1).
            let d2 = d1\<lparr>token_id_meta := part_remove (TokenMetaKey t token_id) (token_id_meta d1)\<rparr> in
            if pr_is_initial pre then
              (let d3 = d2\<lparr>available_ranges := part_remove (RangeKey t (pr_range_index pre)) (available_ranges d2)\<rparr> in
               if n1 - 1 \<noteq> 0 then Inl (Panic ''assertion failed: ranges_len == 0'')
               else Inr (d3\<lparr>range_lengths := part_remove t (range_lengths d3)\<rparr>))
            else Inr d2))"

section \<open>Specification: a draw from a list of ranges\<close>

type_synonym ranges = "(u64 \<times> u64) list"

definition range_ids :: "u64 \<times> u64 \<Rightarrow> nat list" where
  "range_ids r = [unat (fst r) ..< unat (fst r) + unat (snd r)]"

definition ids_of :: "ranges \<Rightarrow> nat list" where
  "ids_of L = concat (map range_ids L)"

definition swap_remove :: "nat \<Rightarrow> 'a list \<Rightarrow> 'a list" where
  "swap_remove i L = (if i < length L - 1 then (butlast L)[i := last L] else butlast L)"

fun draw_from :: "nat \<Rightarrow> u64 \<Rightarrow> u64 \<times> u64 \<Rightarrow> ranges \<Rightarrow> u64 \<times> ranges" where
  "draw_from i entropy (start, sz) L =
     (let off = entropy mod sz in
      (start + off,
       if off = 0 then (if sz = 1 then swap_remove i L else L[i := (start + 1, sz - 1)])
       else if off = sz - 1 then L[i := (start, sz - 1)]
       else L[i := (start, off)] @ [(start + off + 1, sz - off - 1)]))"

definition draw :: "u64 \<Rightarrow> ranges \<Rightarrow> u64 \<times> ranges" where
  "draw entropy L = (let i = unat entropy mod length L in draw_from i entropy (L ! i) L)"

text \<open>The ranges are not empty and their ids stay within the supply.\<close>

definition ranges_ok :: "u64 \<Rightarrow> ranges \<Rightarrow> bool" where
  "ranges_ok max_supply L =
     list_all (\<lambda>(s, z). s \<noteq> 0 \<and> z \<noteq> 0 \<and> unat s + unat z \<le> unat max_supply + 1) L"

lemma ranges_ok_nth:
  "ranges_ok m L \<Longrightarrow> i < length L \<Longrightarrow> L ! i = (s, z) \<Longrightarrow> s \<noteq> 0 \<and> z \<noteq> 0 \<and> unat s + unat z \<le> unat m + 1"
  by (auto simp: ranges_ok_def list_all_length split: prod.splits)

lemma ids_of_append [simp]: "ids_of (L @ M) = ids_of L @ ids_of M"
  by (simp add: ids_of_def)

lemma mset_ids_of_Cons [simp]: "mset (ids_of (r # L)) = mset (range_ids r) + mset (ids_of L)"
  by (simp add: ids_of_def)

lemma ids_of_Nil [simp]: "ids_of [] = []"
  by (simp add: ids_of_def)

lemma split_at_nth: "i < length L \<Longrightarrow> L = take i L @ L ! i # drop (Suc i) L"
  by (rule id_take_nth_drop)

lemma mset_ids_of_update:
  assumes "i < length L"
  shows "mset (ids_of (L[i := r])) + mset (range_ids (L ! i)) = mset (ids_of L) + mset (range_ids r)"
proof -
  have "mset (ids_of L) = mset (ids_of (take i L)) + mset (range_ids (L ! i)) + mset (ids_of (drop (Suc i) L))"
    by (subst split_at_nth [OF assms]) (simp add: ac_simps)
  moreover have "mset (ids_of (L[i := r])) = mset (ids_of (take i L)) + mset (range_ids r) + mset (ids_of (drop (Suc i) L))"
    using assms by (simp add: upd_conv_take_nth_drop ac_simps)
  ultimately show ?thesis by (simp add: ac_simps)
qed

lemma mset_butlast: "L \<noteq> [] \<Longrightarrow> mset L = add_mset (last L) (mset (butlast L))"
  by (cases L rule: rev_cases) simp_all

lemma mset_swap_remove:
  assumes "i < length L"
  shows "add_mset (L ! i) (mset (swap_remove i L)) = mset L"
proof (cases "i < length L - 1")
  case True
  have ne: "L \<noteq> []" using assms by auto
  have b: "(butlast L) ! i = L ! i" using True by (simp add: nth_butlast)
  have "mset L = add_mset (last L) (mset (butlast L))"
    using ne by (rule mset_butlast)
  moreover have "mset ((butlast L)[i := last L]) = add_mset (last L) (mset (butlast L) - {#L ! i#})"
    using True b by (simp add: mset_update)
  moreover have m: "L ! i \<in># mset (butlast L)" using True b by (metis length_butlast nth_mem set_mset_mset)
  ultimately have "add_mset (L ! i) (mset ((butlast L)[i := last L])) = mset L"
    using insert_DiffM [OF m] by (simp add: add_mset_commute)
  then show ?thesis using True by (simp only: swap_remove_def if_True)
next
  case False
  then have i: "i = length L - 1" and ne: "L \<noteq> []" using assms by auto
  then have "L ! i = last L" by (simp add: last_conv_nth)
  then show ?thesis using False ne
    by (simp add: swap_remove_def flip: mset_butlast)
qed

lemma mset_ids_of_swap_remove:
  assumes "i < length L"
  shows "mset (ids_of L) = mset (range_ids (L ! i)) + mset (ids_of (swap_remove i L))"
proof -
  have e: "mset (ids_of M) = sum_mset (image_mset (\<lambda>r. mset (range_ids r)) (mset M))" for M
    by (induction M) auto
  have "image_mset (\<lambda>r. mset (range_ids r)) (mset L) =
        add_mset (mset (range_ids (L ! i))) (image_mset (\<lambda>r. mset (range_ids r)) (mset (swap_remove i L)))"
    by (subst mset_swap_remove [OF assms, symmetric]) simp
  then show ?thesis by (simp add: e)
qed

lemma unat_mod_less: "z \<noteq> 0 \<Longrightarrow> unat (e mod z :: u64) < unat z"
  by (simp add: unat_mod_distrib unat_gt_0)

lemma unat_Suc_u64: "unat x + 1 < 2 ^ 64 \<Longrightarrow> unat (x + 1 :: u64) = unat x + 1"
  using unat_add_no_overflow [of x 1] by simp

lemma range_ids_first:
  assumes "z \<noteq> 0" "unat s + unat z \<le> 2 ^ 64" "z \<noteq> 1"
  shows "range_ids (s, z) = unat s # range_ids (s + 1, z - 1)"
proof -
  have z: "1 < unat z" using assms(1,3) by (metis One_nat_def Suc_lessI unat_1 unat_gt_0 word_unat_eq_iff)
  have "unat (z - 1) = unat z - 1" using z by (simp add: unat_sub_le word_le_nat_alt)
  moreover have "unat (s + 1) = unat s + 1" using assms(2) z by (intro unat_Suc_u64) simp
  ultimately show ?thesis using z by (simp add: range_ids_def upt_conv_Cons)
qed

lemma range_ids_last:
  assumes "z \<noteq> 0"
  shows "range_ids (s, z) = range_ids (s, z - 1) @ [unat s + unat z - 1]"
proof -
  have z: "0 < unat z" using assms by (simp add: unat_gt_0)
  then have "unat (z - 1) = unat z - 1" by (simp add: unat_sub_le word_le_nat_alt)
  moreover have "unat s + unat z = Suc (unat s + unat z - 1)" using z by simp
  ultimately show ?thesis using z
    by (simp add: range_ids_def) (metis One_nat_def Suc_pred add_gr_0 le_add1 upt_Suc_append Nat.add_diff_assoc Suc_leI)
qed

lemma range_ids_middle:
  assumes "off < z - 1" "z \<noteq> 0" "unat s + unat z \<le> 2 ^ 64"
  shows "range_ids (s, z) =
           range_ids (s, off) @ (unat s + unat off) # range_ids (s + off + 1, z - off - 1)"
proof -
  have z: "unat (z - 1) = unat z - 1" using assms(2) by (simp add: unat_sub_le word_le_nat_alt unat_gt_0 Suc_leI)
  have o: "unat off < unat z - 1" using assms(1) z by (simp add: word_less_nat_alt)
  have a: "unat (s + off) = unat s + unat off" using o assms(3) by (intro unat_add_no_overflow) simp
  have b: "unat (s + off + 1) = unat s + unat off + 1" using o assms(3) a by (subst unat_Suc_u64) simp_all
  have c: "unat (z - off) = unat z - unat off" using o by (intro unat_sub_le) (simp add: word_le_nat_alt)
  have d: "unat (z - off - 1) = unat z - unat off - 1" using o c by (subst unat_sub_le) (simp_all add: word_le_nat_alt)
  have "[unat s ..< unat s + unat z] = [unat s ..< unat s + unat off] @ [unat s + unat off ..< unat s + unat z]"
    using o upt_add_eq_append [of "unat s" "unat s + unat off" "unat z - unat off"] by simp
  moreover have "[unat s + unat off ..< unat s + unat z] =
      (unat s + unat off) # [Suc (unat s + unat off) ..< unat s + unat z]"
    using o by (simp add: upt_conv_Cons)
  moreover have "unat s + unat off + 1 + (unat z - unat off - 1) = unat s + unat z" using o by simp
  ultimately show ?thesis by (simp add: range_ids_def b d del: upt_Suc)
qed

lemma ranges_ok_update: "ranges_ok m L \<Longrightarrow> ranges_ok m [r] \<Longrightarrow> ranges_ok m (L[i := r])"
  using set_update_subset_insert [of L i r] by (auto simp: ranges_ok_def list_all_iff)

lemma ranges_ok_append [simp]: "ranges_ok m (L @ M) = (ranges_ok m L \<and> ranges_ok m M)"
  by (simp add: ranges_ok_def)

lemma set_swap_remove: "i < length L \<Longrightarrow> set (swap_remove i L) \<subseteq> set L"
  by (metis mset_swap_remove set_mset_mono set_mset_mset mset_subset_eq_add_right add_mset_add_single union_commute)

lemma ranges_ok_swap_remove: "ranges_ok m L \<Longrightarrow> i < length L \<Longrightarrow> ranges_ok m (swap_remove i L)"
  unfolding ranges_ok_def list_all_iff using set_swap_remove [of i L] by blast

text \<open>A draw takes exactly the id that it returns out of the available ones.\<close>

lemma draw_from_spec:
  assumes ok: "ranges_ok m L" and i: "i < length L" and Li: "L ! i = (s, z)"
    and r: "draw_from i e (s, z) L = (v, L')"
  shows "mset (ids_of L) = add_mset (unat v) (mset (ids_of L'))"
    and "ranges_ok m L'" and "0 < unat v" and "unat v \<le> unat m" and "unat v = unat s + unat (e mod z)"
proof -
  let ?off = "e mod z"
  have s: "0 < unat s" "z \<noteq> 0" "unat s + unat z \<le> unat m + 1"
    using ranges_ok_nth [OF ok i Li] by (simp_all add: unat_gt_0)
  have M: "unat m + 1 \<le> 2 ^ 64" using unat_u64_bound [of m] by simp
  have off: "unat ?off < unat z" using s(2) by (rule unat_mod_less)
  have v: "v = s + ?off" using r by (simp add: Let_def)
  then show uv: "unat v = unat s + unat ?off" using off s M by (simp add: unat_add_no_overflow)
  then show "0 < unat v" "unat v \<le> unat m" using s off by linarith+
  have upd: "mset (ids_of (L[i := q])) + mset (range_ids (s, z)) = mset (ids_of L) + mset (range_ids q)" for q
    using mset_ids_of_update [OF i] Li by metis
  have z1: "unat (z - 1) = unat z - 1" using s(2) by (simp add: unat_sub_le word_le_nat_alt unat_gt_0 Suc_leI)
  consider (remove) "?off = 0" "z = 1" | (first) "?off = 0" "z \<noteq> 1"
    | (final) "?off \<noteq> 0" "?off = z - 1" | (middle) "?off \<noteq> 0" "?off < z - 1"
  proof -
    have "?off \<le> z - 1" using off z1 by (simp add: word_le_nat_alt)
    then show ?thesis using that by (auto simp: le_less)
  qed
  then have "mset (ids_of L) = add_mset (unat v) (mset (ids_of L')) \<and> ranges_ok m L'"
  proof cases
    case remove
    then have "L' = swap_remove i L" "range_ids (s, z) = [unat v]" using r uv by (auto simp: range_ids_def)
    then show ?thesis using mset_ids_of_swap_remove [OF i] Li ranges_ok_swap_remove [OF ok i] by simp
  next
    case first
    then have L': "L' = L[i := (s + 1, z - 1)]" using r by auto
    have "range_ids (s, z) = unat v # range_ids (s + 1, z - 1)"
      using range_ids_first [OF s(2) _ first(2)] s(3) M uv first(1) by simp
    then have "mset (ids_of L) = add_mset (unat v) (mset (ids_of L'))"
      using upd [of "(s + 1, z - 1)"] by (simp add: L')
    moreover have "unat z \<noteq> 1" using first(2) by (metis unat_1 word_unat_eq_iff)
    then have "1 < unat z" using off by linarith
    then have "ranges_ok m L'" unfolding L' using s M z1
      by (intro ranges_ok_update [OF ok]) (simp add: ranges_ok_def unat_Suc_u64 flip: unat_gt_0)
    ultimately show ?thesis by simp
  next
    case final
    then have L': "L' = L[i := (s, z - 1)]" using r by (auto simp: Let_def)
    have "range_ids (s, z) = range_ids (s, z - 1) @ [unat v]"
      using range_ids_last [OF s(2)] uv final(2) z1 s(2) by (simp add: unat_gt_0 Suc_leI)
    then have "mset (ids_of L) = add_mset (unat v) (mset (ids_of L'))"
      using upd [of "(s, z - 1)"] by (simp add: L')
    moreover have "ranges_ok m L'" unfolding L' using s z1 final
      by (intro ranges_ok_update [OF ok]) (auto simp: ranges_ok_def unat_gt_0)
    ultimately show ?thesis by simp
  next
    case middle
    let ?right = "(s + ?off + 1, z - ?off - 1)"
    have L': "L' = L[i := (s, ?off)] @ [?right]" using r middle by (auto simp: Let_def)
    have ids: "range_ids (s, z) = range_ids (s, ?off) @ unat v # range_ids ?right"
      using range_ids_middle [OF middle(2) s(2)] s(3) M uv by simp
    then have "mset (ids_of L) = add_mset (unat v) (mset (ids_of L'))"
      using upd [of "(s, ?off)"] by (simp add: L' ac_simps)
    moreover have "ranges_ok m L'"
    proof -
      have o: "unat ?off < unat z - 1" using middle(2) z1 by (simp add: word_less_nat_alt)
      have b: "unat (s + ?off + 1) = unat s + unat ?off + 1"
        using o s M uv v by (subst unat_Suc_u64) simp_all
      have "unat (z - ?off) = unat z - unat ?off" using o by (intro unat_sub_le) (simp add: word_le_nat_alt)
      then have d: "unat (z - ?off - 1) = unat z - unat ?off - 1"
        using o by (subst unat_sub_le) (simp_all add: word_le_nat_alt)
      have "ranges_ok m [?right]" using b d o s by (auto simp: ranges_ok_def simp flip: unat_gt_0)
      moreover have "ranges_ok m [(s, ?off)]" using o s middle(1) by (auto simp: ranges_ok_def unat_gt_0)
      ultimately show ?thesis using ranges_ok_update [OF ok] by (simp add: L')
    qed
    ultimately show ?thesis by simp
  qed
  then show "mset (ids_of L) = add_mset (unat v) (mset (ids_of L'))" "ranges_ok m L'" by simp_all
qed

section \<open>Refinement\<close>

text \<open>
  A tick without a stored length has all its ids available; otherwise the slots below the length hold
  the ranges and the others are empty.
\<close>

definition ranges_rep :: "db \<Rightarrow> tick \<Rightarrow> ranges \<Rightarrow> bool" where
  "ranges_rep d t L =
     (length L < 2 ^ 64 \<and> part_get (range_lengths d) t = Some (word_of_nat (length L)) \<and>
      (\<forall>i. part_get (available_ranges d) (RangeKey t i) = (if unat i < length L then Some (L ! unat i) else None)))"

definition ranges_fresh :: "db \<Rightarrow> tick \<Rightarrow> bool" where
  "ranges_fresh d t =
     (part_get (range_lengths d) t = None \<and> (\<forall>i. part_get (available_ranges d) (RangeKey t i) = None))"

definition initial_ranges :: "u64 \<Rightarrow> u64 \<Rightarrow> ranges" where
  "initial_ranges max_supply premint = [(1 + premint, max_supply - premint)]"

definition tick_ranges :: "db \<Rightarrow> tick \<Rightarrow> u64 \<Rightarrow> u64 \<Rightarrow> ranges \<Rightarrow> bool" where
  "tick_ranges d t max_supply premint L =
     (ranges_rep d t L \<or> ranges_fresh d t \<and> L = initial_ranges max_supply premint)"

definition ranges_wf :: "u64 \<Rightarrow> u64 \<Rightarrow> ranges \<Rightarrow> bool" where
  "ranges_wf max_supply premint L =
     (ranges_ok max_supply L \<and> distinct (ids_of L) \<and> set (ids_of L) \<subseteq> {unat premint + 1 .. unat max_supply})"

lemma length_le_ids: "ranges_ok m L \<Longrightarrow> length L \<le> length (ids_of L)"
proof (induction L)
  case (Cons r L)
  have "ranges_ok m L" "1 \<le> unat (snd r)" using Cons.prems
    by (auto simp: ranges_ok_def unat_gt_0 Suc_leI split: prod.splits)
  with Cons.IH show ?case by (simp add: ids_of_def range_ids_def)
qed simp

lemma ranges_wf_length: "ranges_wf m p L \<Longrightarrow> length L < 2 ^ 64"
proof -
  assume w: "ranges_wf m p L"
  then have "length L \<le> length (ids_of L)" by (auto simp: ranges_wf_def intro: length_le_ids)
  also have "\<dots> = card (set (ids_of L))" using w by (simp add: ranges_wf_def distinct_card)
  also have "\<dots> \<le> card {unat p + 1 .. unat m}" using w by (intro card_mono) (auto simp: ranges_wf_def)
  finally show ?thesis using unat_u64_bound [of m] by simp
qed

lemma initial_ranges_wf: "p < m \<Longrightarrow> ranges_wf m p (initial_ranges m p)"
  and ids_of_initial: "p < m \<Longrightarrow> ids_of (initial_ranges m p) = [unat p + 1 ..< unat m + 1]"
proof -
  assume pm: "p < m"
  then have lt: "unat p < unat m" by (simp add: word_less_nat_alt)
  then have a: "unat (1 + p) = unat p + 1" using unat_u64_bound [of m] unat_Suc_u64 [of p] by (simp add: add.commute)
  have b: "unat (m - p) = unat m - unat p" using pm by (intro unat_sub_le) simp
  show ids: "ids_of (initial_ranges m p) = [unat p + 1 ..< unat m + 1]"
    using lt a b by (simp add: ids_of_def initial_ranges_def range_ids_def)
  have "1 + p \<noteq> 0" "m - p \<noteq> 0" using a b lt by (metis add_is_0 unat_0 one_neq_zero) (metis b lt unat_0 zero_less_diff less_irrefl)
  then show "ranges_wf m p (initial_ranges m p)"
    using a b lt unfolding ranges_wf_def ids by (auto simp: ranges_ok_def initial_ranges_def)
qed

lemma unat_of_nat_u64: "n < 2 ^ 64 \<Longrightarrow> unat (word_of_nat n :: u64) = n"
  by (simp add: unat_of_nat unsigned_of_nat take_bit_nat_eq_self_iff)

lemma of_nat_eq_u64: "n < 2 ^ 64 \<Longrightarrow> (i = (word_of_nat n :: u64)) = (unat i = n)"
  by (metis unat_of_nat_u64 word_unat_eq_iff)

lemma length_swap_remove [simp]: "length (swap_remove i L) = length L - 1"
  by (simp add: swap_remove_def)

lemma nth_swap_remove:
  "j < length L - 1 \<Longrightarrow> i < length L \<Longrightarrow> swap_remove i L ! j = (if j = i then last L else L ! j)"
  by (auto simp: swap_remove_def nth_butlast nth_list_update)

lemma ranges_rep_lookup:
  "ranges_rep d t L \<Longrightarrow> i < length L \<Longrightarrow> part_get (available_ranges d) (RangeKey t (word_of_nat i)) = Some (L ! i)"
  by (simp add: ranges_rep_def unat_of_nat_u64)

text \<open>Another tick keeps its ranges when the slots and the length of this one change.\<close>

definition same_other_ticks :: "tick \<Rightarrow> db \<Rightarrow> db \<Rightarrow> bool" where
  "same_other_ticks t d d' =
     (\<forall>t'. t' \<noteq> t \<longrightarrow> part_get (range_lengths d') t' = part_get (range_lengths d) t' \<and>
        (\<forall>i. part_get (available_ranges d') (RangeKey t' i) = part_get (available_ranges d) (RangeKey t' i) \<and>
             part_get (token_id_meta d') (TokenMetaKey t' i) = part_get (token_id_meta d) (TokenMetaKey t' i)))"

lemma remove_range_rep:
  assumes rep: "ranges_rep d t L" and i: "i < length L"
  shows "\<exists>d' n. remove_range d t (word_of_nat i) v s z (word_of_nat (length L)) b = Inr (d', n) \<and>
           ranges_rep d' t (swap_remove i L) \<and> same_other_ticks t d d'"
proof -
  let ?n = "word_of_nat (length L) :: u64" and ?i = "word_of_nat i :: u64"
  have n: "length L < 2 ^ 64" and len: "part_get (range_lengths d) t = Some ?n"
    and av: "\<And>j. part_get (available_ranges d) (RangeKey t j) = (if unat j < length L then Some (L ! unat j) else None)"
    using rep by (auto simp: ranges_rep_def)
  have un: "unat ?n = length L" using n by (rule unat_of_nat_u64)
  have ui: "unat ?i = i" using i n by (simp add: unat_of_nat_u64)
  have "(1 :: u64) \<le> ?n" using un i by (simp add: word_le_nat_alt)
  then have ul: "unat (?n - 1) = length L - 1" using un by (simp add: unat_sub_le)
  have w: "(word_of_nat (length L - 1) :: u64) = ?n - 1"
    using ul n by (metis of_nat_eq_u64 diff_le_self le_less_trans)
  have eqi: "(j = ?i) = (unat j = i)" for j :: u64 using ui by (metis word_unat_eq_iff)
  have eql: "(j = ?n - 1) = (unat j = length L - 1)" for j :: u64 using ul by (metis word_unat_eq_iff)
  show ?thesis
  proof (cases "i < length L - 1")
    case True
    have "?i < ?n - 1" using True ui ul by (simp add: word_less_nat_alt)
    moreover have "part_get (available_ranges d) (RangeKey t (?n - 1)) = Some (last L)"
    proof -
      have "L \<noteq> []" using i by auto
      then show ?thesis using av [of "?n - 1"] ul by (simp add: last_conv_nth)
    qed
    ultimately show ?thesis using n i True
      by (auto simp: remove_range_def Let_def ranges_rep_def av nth_swap_remove w same_other_ticks_def eqi eql)
  next
    case False
    have "\<not> ?i < ?n - 1" using False ui ul by (simp add: word_less_nat_alt)
    then show ?thesis using n i False
      by (auto simp: remove_range_def Let_def ranges_rep_def av nth_swap_remove w same_other_ticks_def eqi)
  qed
qed

lemma take_value_rep:
  assumes rep: "ranges_rep d t L"
    and n1: "e mod z \<noteq> 0 \<Longrightarrow> e mod z \<noteq> z - 1 \<Longrightarrow> length L + 1 < 2 ^ 64"
    and i: "i < length L" and Li: "L ! i = (s, z)"
  shows "\<exists>d'. take_value d t (word_of_nat i) (s + e mod z) s z (word_of_nat (length L)) b = Inr d' \<and>
           ranges_rep d' t (snd (draw_from i e (s, z) L)) \<and> same_other_ticks t d d'"
proof -
  let ?n = "word_of_nat (length L) :: u64" and ?i = "word_of_nat i :: u64"
  have n: "length L < 2 ^ 64" and len: "part_get (range_lengths d) t = Some ?n"
    and av: "\<And>j. part_get (available_ranges d) (RangeKey t j) = (if unat j < length L then Some (L ! unat j) else None)"
    using rep by (auto simp: ranges_rep_def)
  have un: "unat ?n = length L" using n by (rule unat_of_nat_u64)
  have ui: "unat ?i = i" using i n by (simp add: unat_of_nat_u64)
  have eqi: "(j = ?i) = (unat j = i)" for j :: u64 using ui by (metis word_unat_eq_iff)
  have eqn: "(j = ?n) = (unat j = length L)" for j :: u64 using un by (metis word_unat_eq_iff)
  consider (remove) "e mod z = 0" "z = 1" | (first) "e mod z = 0" "z \<noteq> 1"
    | (final) "e mod z \<noteq> 0" "e mod z = z - 1" | (middle) "e mod z \<noteq> 0" "e mod z \<noteq> z - 1" by blast
  then show ?thesis
  proof cases
    case remove
    then show ?thesis using remove_range_rep [OF rep i, of s s 1 b]
      by (auto simp: take_value_def)
  next
    case first
    then show ?thesis using n i
      by (auto simp: take_value_def shrink_range_def ranges_rep_def same_other_ticks_def av len nth_list_update eqi ui)
  next
    case final
    then show ?thesis using n i
      by (auto simp: take_value_def shrink_range_def ranges_rep_def same_other_ticks_def av len nth_list_update eqi ui Let_def)
  next
    case middle
    let ?d = "fst (split_range d t ?i (s + e mod z) s z (e mod z) ?n b)"
    let ?L = "L[i := (s, e mod z)] @ [(s + e mod z + 1, z - e mod z - 1)]"
    have "take_value d t ?i (s + e mod z) s z ?n b = Inr ?d"
      using middle by (simp add: take_value_def Let_def)
    moreover have "snd (draw_from i e (s, z) L) = ?L" using middle by (simp add: Let_def)
    moreover have "ranges_rep ?d t ?L"
      unfolding ranges_rep_def
    proof (intro conjI allI)
      show "length ?L < 2 ^ 64" using n1 middle by simp
      show "part_get (range_lengths ?d) t = Some (word_of_nat (length ?L))"
        by (simp add: split_range_def Let_def)
      fix j
      show "part_get (available_ranges ?d) (RangeKey t j) = (if unat j < length ?L then Some (?L ! unat j) else None)"
        using i by (simp add: split_range_def Let_def av eqi eqn nth_append nth_list_update less_Suc_eq)
    qed
    moreover have "same_other_ticks t d ?d" by (simp add: split_range_def Let_def same_other_ticks_def)
    ultimately show ?thesis by auto
  qed
qed

lemma draw_from_wf:
  assumes wf: "ranges_wf m p L" and i: "i < length L" and Li: "L ! i = (s, z)"
    and r: "draw_from i e (s, z) L = (v, L')"
  shows "ranges_wf m p L'"
    and "unat v \<in> set (ids_of L)" and "unat v \<notin> set (ids_of L')"
    and "set (ids_of L) = insert (unat v) (set (ids_of L'))"
    and "length L' < 2 ^ 64"
proof -
  have ok: "ranges_ok m L" and dist: "distinct (ids_of L)" and sub: "set (ids_of L) \<subseteq> {unat p + 1 .. unat m}"
    using wf by (auto simp: ranges_wf_def)
  have ms: "mset (ids_of L) = add_mset (unat v) (mset (ids_of L'))" and ok': "ranges_ok m L'"
    using draw_from_spec [OF ok i Li r] by blast+
  have "distinct (unat v # ids_of L')"
    using dist ms by (metis mset.simps(2) mset_eq_imp_distinct_iff)
  moreover show st: "set (ids_of L) = insert (unat v) (set (ids_of L'))"
    using ms by (metis set_mset_add_mset_insert set_mset_mset)
  ultimately show wf': "ranges_wf m p L'" and "unat v \<in> set (ids_of L)" and "unat v \<notin> set (ids_of L')"
    using ok' sub by (auto simp: ranges_wf_def)
  then show "length L' < 2 ^ 64" by (intro ranges_wf_length)
qed

lemma take_value_initial:
  "take_value (d\<lparr>available_ranges := part_insert (RangeKey t 0) r (available_ranges d)\<rparr>) t 0 v s z 1 b =
   take_value d t 0 v s z 1 b"
  by (simp add: take_value_def remove_range_def shrink_range_def split_range_def Let_def part_remove_insert)

lemma ranges_rep_initial:
  assumes "ranges_fresh d t"
  shows "ranges_rep (d\<lparr>range_lengths := part_insert t 1 (range_lengths d),
            available_ranges := part_insert (RangeKey t 0) r (available_ranges d)\<rparr>) t [r]"
  using assms by (auto simp: ranges_fresh_def ranges_rep_def unat_eq_0)

lemma generate_refines:
  assumes tr: "tick_ranges d t m p L" and wf: "ranges_wf m p L" and ne: "L \<noteq> []"
  shows "\<exists>d'. generate_token_id d t e m p = Inr (fst (draw e L), d') \<and>
           ranges_rep d' t (snd (draw e L)) \<and> same_other_ticks t d d'"
proof -
  let ?i = "unat e mod length L"
  obtain s z where Li: "L ! ?i = (s, z)" by fastforce
  have i: "?i < length L" using ne by simp
  have ok: "ranges_ok m L" using wf by (simp add: ranges_wf_def)
  have z: "z \<noteq> 0" using ranges_ok_nth [OF ok i Li] by simp
  obtain v L' where r: "draw_from ?i e (s, z) L = (v, L')" by fastforce
  have v: "v = s + e mod z" using r by (simp add: Let_def)
  have vm: "v \<noteq> 0" "v \<le> m" using draw_from_spec(3,4) [OF ok i Li r] by (auto simp: word_le_nat_alt)
  have n1: "length L + 1 < 2 ^ 64" if "e mod z \<noteq> 0" "e mod z \<noteq> z - 1"
  proof -
    have "length L' = length L + 1" using r that by (auto simp: Let_def)
    then show ?thesis using draw_from_wf(5) [OF wf i Li r] by simp
  qed
  have dr: "draw e L = (v, L')" using Li r by (simp add: draw_def Let_def)
  show ?thesis
  proof (cases "ranges_rep d t L")
    case True
    let ?n = "word_of_nat (length L) :: u64"
    have n: "length L < 2 ^ 64" and len: "part_get (range_lengths d) t = Some ?n"
      using True by (auto simp: ranges_rep_def)
    have n0: "?n \<noteq> 0" using ne n by (metis length_0_conv unat_0 unat_of_nat_u64)
    have idx: "e mod ?n = word_of_nat ?i"
      using n i by (subst of_nat_eq_u64) (simp_all add: unat_mod_distrib unat_of_nat_u64)
    have av: "part_get (available_ranges d) (RangeKey t (e mod ?n)) = Some (s, z)"
      unfolding idx using ranges_rep_lookup [OF True i] Li by simp
    obtain d' where "take_value d t (word_of_nat ?i) v s z ?n False = Inr d'"
      "ranges_rep d' t L'" "same_other_ticks t d d'"
      using take_value_rep [OF True _ i Li, of e False] n1 unfolding r snd_conv v [symmetric] by blast
    then show ?thesis
      using n0 len av z vm by (simp add: generate_token_id_def Let_def dr idx flip: v)
  next
    case False
    then have fr: "ranges_fresh d t" and L: "L = initial_ranges m p" using tr by (auto simp: tick_ranges_def)
    have sz: "s = 1 + p" "z = m - p" "?i = 0" using L Li by (auto simp: initial_ranges_def)
    let ?d0 = "d\<lparr>range_lengths := part_insert t 1 (range_lengths d)\<rparr>"
    let ?d1 = "?d0\<lparr>available_ranges := part_insert (RangeKey t 0) (s, z) (available_ranges ?d0)\<rparr>"
    have rep: "ranges_rep ?d1 t L"
      using ranges_rep_initial [OF fr, of "(s, z)"] L sz by (simp add: initial_ranges_def)
    obtain d' where tv: "take_value ?d1 t (word_of_nat ?i) v s z (word_of_nat (length L)) True = Inr d'"
      and d': "ranges_rep d' t L'" "same_other_ticks t ?d1 d'"
      using take_value_rep [OF rep _ i Li, of e True] n1 unfolding r snd_conv v [symmetric] by blast
    have "take_value ?d0 t 0 v s z 1 True = Inr d'"
      using tv L sz take_value_initial [where d = ?d0] by (simp add: initial_ranges_def)
    moreover have "same_other_ticks t d d'" using d'(2) by (simp add: same_other_ticks_def)
    moreover have "part_get (range_lengths d) t = None" using fr by (simp add: ranges_fresh_def)
    ultimately show ?thesis
      using d'(1) z vm sz v by (simp add: generate_token_id_def Let_def dr)
  qed
qed

section \<open>Rollback\<close>

text \<open>Undoing a draw from stored ranges.\<close>

lemma rollback_take_value:
  assumes len: "part_get (range_lengths d) t = Some n" and n: "n \<noteq> 0" and idx: "idx < n"
    and av: "part_get (available_ranges d) (RangeKey t idx) = Some (s, z)"
    and hi: "part_get (available_ranges d) (RangeKey t n) = None"
    and meta: "part_get (token_id_meta d) (TokenMetaKey t v) = None"
    and tv: "take_value d t idx v s z n False = Inr d'"
  shows "rollback_token_generation d' t v = Inr d"
proof -
  have le: "idx \<le> n - 1"
    using idx n by (simp add: word_le_nat_alt word_less_nat_alt unat_sub_le unat_gt_0 Suc_leI)
  note defs = rollback_token_generation_def restore_range_maybe_split_def revert_removed_range_def Let_def
  consider (remove) "v - s = 0" "z = 1" | (shrink) val where
      "d' = d\<lparr>token_id_meta := part_insert (TokenMetaKey t v) \<lparr>pr_range_index = idx, pr_start = s, pr_size = z,
             pr_removed = False, pr_split = False, pr_is_initial = False\<rparr> (token_id_meta d),
           available_ranges := part_insert (RangeKey t idx) val (available_ranges d)\<rparr>"
    | (split) "d' = fst (split_range d t idx v s z (v - s) n False)"
    using tv by (auto simp: take_value_def shrink_range_def Let_def split: if_splits)
  then show ?thesis
  proof cases
    case remove
    then obtain m where rr: "remove_range d t idx v s z n False = Inr (d', m)"
      using tv by (auto simp: take_value_def and_then_Inr_iff)
    show ?thesis
    proof (cases "idx < n - 1")
      case True
      obtain lv where lv: "part_get (available_ranges d) (RangeKey t (n - 1)) = Some lv"
        using rr True by (auto simp: remove_range_def Let_def and_then_Inr_iff)
      have "part_insert (RangeKey t idx) (s, z) (part_insert (RangeKey t (n - 1)) lv
              (part_remove (RangeKey t (n - 1)) (part_insert (RangeKey t idx) lv (available_ranges d)))) =
            available_ranges d"
        by (rule part_eqI) (simp add: av lv)
      moreover have "part_insert t n (part_insert t (n - 1) (range_lengths d)) = range_lengths d"
        by (simp add: part_insert_same len)
      ultimately show ?thesis using rr True lv
        by (auto simp: remove_range_def defs part_remove_insert_absent [OF meta])
    next
      case False
      then have i: "idx = n - 1" using le by simp
      show ?thesis using rr av [unfolded i] unfolding i
        by (auto simp: remove_range_def defs part_remove_insert_absent [OF meta] part_insert_remove
            part_insert_same len av)
    qed
  next
    case (shrink val)
    then show ?thesis
      by (simp add: defs len part_remove_insert_absent [OF meta] part_insert_same av)
  next
    case split
    have "part_remove (RangeKey t n) (part_insert (RangeKey t idx) (s, z)
            (part_insert (RangeKey t n) r (part_insert (RangeKey t idx) q (available_ranges d)))) = available_ranges d" for r q
      by (rule part_eqI) (use idx in \<open>auto simp: av hi\<close>)
    moreover have "part_insert t n (part_insert t (n + 1) (range_lengths d)) = range_lengths d"
      by (simp add: part_insert_same len)
    ultimately show ?thesis using split
      by (simp add: split_range_def defs part_remove_insert_absent [OF meta])
  qed
qed

lemma rollback_take_initial:
  assumes fr: "ranges_fresh d t"
    and meta: "part_get (token_id_meta d) (TokenMetaKey t v) = None"
    and tv: "take_value (d\<lparr>range_lengths := part_insert t 1 (range_lengths d)\<rparr>) t 0 v s z 1 True = Inr d'"
  shows "rollback_token_generation d' t v = Inr d"
proof -
  have len: "part_get (range_lengths d) t = None" and av: "\<And>i. part_get (available_ranges d) (RangeKey t i) = None"
    using fr by (simp_all add: ranges_fresh_def)
  note defs = rollback_token_generation_def restore_range_maybe_split_def revert_removed_range_def Let_def
  have s1: "part_remove (RangeKey t 0) (part_remove (RangeKey t 1) (part_insert (RangeKey t 0) a
         (part_insert (RangeKey t 1) b (part_insert (RangeKey t 0) c (available_ranges d))))) = available_ranges d" for a b c
    by (rule part_eqI) (simp add: av)
  show ?thesis using tv meta
    by (auto simp: take_value_def remove_range_def shrink_range_def split_range_def defs
        part_remove_insert part_insert_remove part_remove_absent len av s1
        split: if_splits)
qed

text \<open>The record of a draw is stored under the drawn id, and only there.\<close>

lemma take_value_meta:
  assumes "take_value d t idx v s z n b = Inr d'"
  shows "part_get (token_id_meta d') k =
           (if k = TokenMetaKey t v
            then Some \<lparr>pr_range_index = idx, pr_start = s, pr_size = z,
                   pr_removed = (v - s = 0 \<and> z = 1), pr_split = (v - s \<noteq> 0 \<and> v - s \<noteq> z - 1), pr_is_initial = b\<rparr>
            else part_get (token_id_meta d) k)"
  using assms
  by (auto simp: take_value_def remove_range_def shrink_range_def split_range_def Let_def and_then_Inr_iff
      split: if_splits)

lemma generate_take_value:
  assumes "generate_token_id d t e m p = Inr (v, d')" and "ranges_rep d t L" and "L \<noteq> []"
  obtains s z where "L ! (unat e mod length L) = (s, z)"
    and "take_value d t (word_of_nat (unat e mod length L)) v s z (word_of_nat (length L)) False = Inr d'"
proof -
  let ?n = "word_of_nat (length L) :: u64"
  have n: "length L < 2 ^ 64" and len: "part_get (range_lengths d) t = Some ?n"
    using assms(2) by (auto simp: ranges_rep_def)
  have n0: "?n \<noteq> 0" using assms(3) n by (metis length_0_conv unat_0 unat_of_nat_u64)
  have i: "unat e mod length L < length L" using assms(3) by simp
  have idx: "e mod ?n = word_of_nat (unat e mod length L)"
    using n i by (subst of_nat_eq_u64) (simp_all add: unat_mod_distrib unat_of_nat_u64)
  have av: "part_get (available_ranges d) (RangeKey t (e mod ?n)) = Some (L ! (unat e mod length L))"
    unfolding idx by (rule ranges_rep_lookup [OF assms(2) i])
  show thesis using assms(1) n0 len av
    by (intro that [OF prod.collapse [symmetric]])
      (auto simp: generate_token_id_def Let_def idx and_then_Inr_iff split: if_splits prod.splits)
qed

lemma rollback_generate_aux:
  assumes tr: "tick_ranges d t m p L" and wf: "ranges_wf m p L" and ne: "L \<noteq> []"
    and meta: "part_get (token_id_meta d) (TokenMetaKey t v) = None"
    and g: "generate_token_id d t e m p = Inr (v, d')"
  shows "rollback_token_generation d' t v = Inr d"
proof (cases "ranges_rep d t L")
  case True
  obtain s z where Li: "L ! (unat e mod length L) = (s, z)"
    and tv: "take_value d t (word_of_nat (unat e mod length L)) v s z (word_of_nat (length L)) False = Inr d'"
    using generate_take_value [OF g True ne] .
  have n: "length L < 2 ^ 64" using True by (simp add: ranges_rep_def)
  have i: "unat e mod length L < length L" using ne by simp
  show ?thesis
  proof (rule rollback_take_value [OF _ _ _ _ _ meta tv])
    show "part_get (range_lengths d) t = Some (word_of_nat (length L))" using True by (simp add: ranges_rep_def)
    show "(word_of_nat (length L) :: u64) \<noteq> 0" using ne n by (metis length_0_conv unat_0 unat_of_nat_u64)
    show "(word_of_nat (unat e mod length L) :: u64) < word_of_nat (length L)"
      using i n by (simp add: word_less_nat_alt unat_of_nat_u64)
    show "part_get (available_ranges d) (RangeKey t (word_of_nat (unat e mod length L))) = Some (s, z)"
      using ranges_rep_lookup [OF True i] Li by simp
    show "part_get (available_ranges d) (RangeKey t (word_of_nat (length L))) = None"
      using True n by (simp add: ranges_rep_def unat_of_nat_u64)
  qed
next
  case False
  then have fr: "ranges_fresh d t" using tr by (auto simp: tick_ranges_def)
  then have "part_get (range_lengths d) t = None" by (simp add: ranges_fresh_def)
  then have "take_value (d\<lparr>range_lengths := part_insert t 1 (range_lengths d)\<rparr>) t 0 v (1 + p) (m - p) 1 True = Inr d'"
    using g by (auto simp: generate_token_id_def Let_def and_then_Inr_iff split: if_splits)
  then show ?thesis by (rule rollback_take_initial [OF fr meta])
qed

lemma generate_meta:
  assumes "generate_token_id d t e m p = Inr (v, d')" and "k \<noteq> TokenMetaKey t v"
  shows "part_get (token_id_meta d') k = part_get (token_id_meta d) k"
  using assms
  by (auto simp: generate_token_id_def Let_def and_then_Inr_iff take_value_meta split: if_splits)

section \<open>Sequences of draws\<close>

fun generate_all :: "db \<Rightarrow> tick \<Rightarrow> u64 list \<Rightarrow> u64 \<Rightarrow> u64 \<Rightarrow> (u64 list \<times> db) res" where
  "generate_all d t [] m p = Inr ([], d)"
| "generate_all d t (e # es) m p =
     and_then (generate_token_id d t e m p) (\<lambda>(v, d1).
       and_then (generate_all d1 t es m p) (\<lambda>(vs, d2). Inr (v # vs, d2)))"

fun rollback_all :: "db \<Rightarrow> tick \<Rightarrow> u64 list \<Rightarrow> db res" where
  "rollback_all d t [] = Inr d"
| "rollback_all d t (v # vs) = and_then (rollback_token_generation d t v) (\<lambda>d1. rollback_all d1 t vs)"

lemma rollback_all_append:
  "rollback_all d t (us @ vs) = and_then (rollback_all d t us) (\<lambda>d1. rollback_all d1 t vs)"
  by (induction us arbitrary: d) (simp_all add: and_then_assoc)

definition meta_clear :: "db \<Rightarrow> tick \<Rightarrow> ranges \<Rightarrow> bool" where
  "meta_clear d t L = (\<forall>i. unat i \<in> set (ids_of L) \<longrightarrow> part_get (token_id_meta d) (TokenMetaKey t i) = None)"

lemma generate_step:
  assumes tr: "tick_ranges d t m p L" and wf: "ranges_wf m p L" and ne: "L \<noteq> []"
  obtains v d' L' where "generate_token_id d t e m p = Inr (v, d')"
    and "tick_ranges d' t m p L'" and "ranges_wf m p L'"
    and "unat v \<in> set (ids_of L)" and "unat v \<notin> set (ids_of L')"
    and "set (ids_of L) = insert (unat v) (set (ids_of L'))"
    and "same_other_ticks t d d'" and "ranges_rep d' t L'"
proof -
  let ?i = "unat e mod length L"
  obtain s z where Li: "L ! ?i = (s, z)" by fastforce
  have i: "?i < length L" using ne by simp
  obtain v L' where r: "draw_from ?i e (s, z) L = (v, L')" by fastforce
  have dr: "draw e L = (v, L')" using Li r by (simp add: draw_def Let_def)
  obtain d' where d': "generate_token_id d t e m p = Inr (v, d')" "ranges_rep d' t L'" "same_other_ticks t d d'"
    using generate_refines [OF assms, of e] dr by auto
  show thesis
    by (rule that [OF d'(1) _ draw_from_wf(1-4) [OF wf i Li r] d'(3,2)]) (simp add: tick_ranges_def d'(2))
qed

lemma generate_all_steps:
  assumes "tick_ranges d t m p L" "ranges_wf m p L" "length es \<le> card (set (ids_of L))"
  shows "\<exists>vs d' L'. generate_all d t es m p = Inr (vs, d') \<and> length vs = length es \<and>
           tick_ranges d' t m p L' \<and> ranges_wf m p L' \<and> distinct vs \<and>
           set (ids_of L) = unat ` set vs \<union> set (ids_of L') \<and> unat ` set vs \<inter> set (ids_of L') = {}"
  using assms
proof (induction es arbitrary: d L)
  case Nil
  then show ?case by auto
next
  case (Cons e es)
  have ne: "L \<noteq> []" using Cons.prems(3) by auto
  obtain v d1 L1 where g: "generate_token_id d t e m p = Inr (v, d1)"
    and i1: "tick_ranges d1 t m p L1" "ranges_wf m p L1"
    and v: "unat v \<notin> set (ids_of L1)" "set (ids_of L) = insert (unat v) (set (ids_of L1))"
    using generate_step [OF Cons.prems(1,2) ne, of e] .
  have "length es \<le> card (set (ids_of L1))" using Cons.prems(3) v by simp
  from Cons.IH [OF i1 this] obtain vs d2 L2 where r: "generate_all d1 t es m p = Inr (vs, d2)"
    "length vs = length es" "tick_ranges d2 t m p L2" "ranges_wf m p L2" "distinct vs"
    "set (ids_of L1) = unat ` set vs \<union> set (ids_of L2)" "unat ` set vs \<inter> set (ids_of L2) = {}"
    by blast
  have "v \<notin> set vs" using v(1) r(6) by auto
  then show ?case using g r v by (intro exI [of _ "v # vs"] exI [of _ d2] exI [of _ L2]) auto
qed

lemma rollback_all_generate_all:
  assumes "tick_ranges d t m p L" "ranges_wf m p L" "length es \<le> card (set (ids_of L))" "meta_clear d t L"
    and "generate_all d t es m p = Inr (vs, d')"
  shows "rollback_all d' t (rev vs) = Inr d"
  using assms
proof (induction es arbitrary: d L vs)
  case Nil
  then show ?case by simp
next
  case (Cons e es)
  have ne: "L \<noteq> []" using Cons.prems(3) by auto
  obtain v d1 L1 where g: "generate_token_id d t e m p = Inr (v, d1)"
    and i1: "tick_ranges d1 t m p L1" "ranges_wf m p L1"
    and v: "unat v \<in> set (ids_of L)" "unat v \<notin> set (ids_of L1)" "set (ids_of L) = insert (unat v) (set (ids_of L1))"
    using generate_step [OF Cons.prems(1,2) ne, of e] .
  have l: "length es \<le> card (set (ids_of L1))" using Cons.prems(3) v by simp
  have mc: "meta_clear d1 t L1"
    unfolding meta_clear_def
  proof (intro allI impI)
    fix i :: u64
    assume i: "unat i \<in> set (ids_of L1)"
    then have "TokenMetaKey t i \<noteq> TokenMetaKey t v" using v(2) by auto
    then show "part_get (token_id_meta d1) (TokenMetaKey t i) = None"
      using generate_meta [OF g] Cons.prems(4) i v(3) by (auto simp: meta_clear_def)
  qed
  obtain ws where ws: "vs = v # ws" "generate_all d1 t es m p = Inr (ws, d')"
    using Cons.prems(5) g by (auto simp: and_then_Inr_iff)
  have "rollback_token_generation d1 t v = Inr d"
    using rollback_generate_aux [OF Cons.prems(1,2) ne _ g] Cons.prems(4) v(1) by (simp add: meta_clear_def)
  then show ?case
    using Cons.IH [OF i1 l mc ws(2)] by (simp add: ws(1) rollback_all_append)
qed

section \<open>Properties\<close>

lemma ranges_fresh_empty [simp]: "ranges_fresh db_empty t"
  by (simp add: ranges_fresh_def db_empty_def)

lemma tick_ranges_fresh: "ranges_fresh d t \<Longrightarrow> tick_ranges d t m p (initial_ranges m p)"
  by (simp add: tick_ranges_def)

lemma set_ids_of_initial: "p < m \<Longrightarrow> set (ids_of (initial_ranges m p)) = {unat p + 1 .. unat m}"
  by (auto simp: ids_of_initial simp del: upt_Suc)

lemma initial_setup:
  "ranges_fresh d t \<Longrightarrow> p < m \<Longrightarrow>
     tick_ranges d t m p (initial_ranges m p) \<and> ranges_wf m p (initial_ranges m p) \<and> initial_ranges m p \<noteq> []"
  by (auto intro: tick_ranges_fresh initial_ranges_wf) (simp add: initial_ranges_def)

text \<open>Drawing a random id from a tick whose ranges are well formed and not exhausted does not abort;
  the id was available, lies above the premint and within the supply, and exactly it stops being
  available; the ranges stay well formed, and the other ticks are untouched.\<close>

theorem generate_takes_available:
  assumes "tick_ranges d t max_supply premint L" and "ranges_wf max_supply premint L" and "L \<noteq> []"
  shows "\<exists>token_id d' L'. generate_token_id d t entropy max_supply premint = Inr (token_id, d') \<and>
           premint < token_id \<and> token_id \<le> max_supply \<and>
           unat token_id \<in> set (ids_of L) \<and> set (ids_of L') = set (ids_of L) - {unat token_id} \<and>
           tick_ranges d' t max_supply premint L' \<and> ranges_wf max_supply premint L' \<and> same_other_ticks t d d'"
proof -
  obtain v d' L' where g: "generate_token_id d t entropy max_supply premint = Inr (v, d')"
    "tick_ranges d' t max_supply premint L'" "ranges_wf max_supply premint L'"
    "unat v \<in> set (ids_of L)" "unat v \<notin> set (ids_of L')"
    "set (ids_of L) = insert (unat v) (set (ids_of L'))" "same_other_ticks t d d'"
    using generate_step [OF assms, of entropy] .
  moreover have "premint < v" "v \<le> max_supply" using g(4) assms(2)
    by (auto simp: ranges_wf_def word_less_nat_alt word_le_nat_alt)
  ultimately show ?thesis by (intro exI [of _ v] exI [of _ d'] exI [of _ L']) auto
qed

definition tick_A :: tick where
  "tick_A = Tick 65 0 0 0 0 0 0 0 0 0"

theorem generate_takes_available_witness:
  "\<exists>token_id d' L'. generate_token_id db_empty tick_A 17 5 1 = Inr (token_id, d') \<and> 1 < token_id \<and> token_id \<le> 5 \<and>
     unat token_id \<in> set (ids_of (initial_ranges 5 1)) \<and> set (ids_of L') = set (ids_of (initial_ranges 5 1)) - {unat token_id} \<and>
     tick_ranges d' tick_A 5 1 L' \<and> ranges_wf 5 1 L' \<and> same_other_ticks tick_A db_empty d'"
  by (rule generate_takes_available [OF tick_ranges_fresh [OF ranges_fresh_empty] initial_ranges_wf])
    (simp_all add: initial_ranges_def)

text \<open>C18: Rolling back the draw of an id gives back exactly the database before the draw, in every partition,
  whether the draw removed, shrank or split a range or initialised the ranges of the tick.\<close>

theorem rollback_inverts_generate:
  assumes "tick_ranges d t max_supply premint L" and "ranges_wf max_supply premint L" and "L \<noteq> []"
    and "part_get (token_id_meta d) (TokenMetaKey t token_id) = None"
    and "generate_token_id d t entropy max_supply premint = Inr (token_id, d')"
  shows "rollback_token_generation d' t token_id = Inr d"
  using assms by (rule rollback_generate_aux)

theorem rollback_inverts_generate_witness:
  "\<exists>token_id d'. generate_token_id db_empty tick_A 6 5 1 = Inr (token_id, d') \<and> rollback_token_generation d' tick_A token_id = Inr db_empty"
proof -
  have w: "tick_ranges db_empty tick_A 5 1 (initial_ranges 5 1)" "ranges_wf 5 1 (initial_ranges 5 1)" "initial_ranges 5 1 \<noteq> []"
    using initial_setup [of db_empty tick_A 1 5] by simp_all
  obtain token_id d' where g: "generate_token_id db_empty tick_A 6 5 1 = Inr (token_id, d')" using generate_step [OF w] .
  have "part_get (token_id_meta db_empty) (TokenMetaKey tick_A token_id) = None" by (simp add: db_empty_def)
  from rollback_inverts_generate [OF w this g] g show ?thesis by blast
qed

text \<open>C29: Whatever the entropies are, as many draws as there are ids above the premint succeed and hand out
  every one of these ids exactly once.\<close>

theorem mint_out_hands_out_every_id_once:
  assumes "ranges_fresh d t" and "premint < max_supply"
    and "length entropies = unat max_supply - unat premint"
  shows "\<exists>ids d'. generate_all d t entropies max_supply premint = Inr (ids, d') \<and>
           distinct ids \<and> unat ` set ids = {unat premint + 1 .. unat max_supply}"
proof -
  let ?L = "initial_ranges max_supply premint"
  have ids: "set (ids_of ?L) = {unat premint + 1 .. unat max_supply}"
    using assms(2) by (rule set_ids_of_initial)
  then have "length entropies \<le> card (set (ids_of ?L))" using assms(3) by simp
  from generate_all_steps [OF tick_ranges_fresh [OF assms(1)] initial_ranges_wf [OF assms(2)] this]
  obtain vs d' L' where r: "generate_all d t entropies max_supply premint = Inr (vs, d')" "length vs = length entropies"
    "distinct vs" "set (ids_of ?L) = unat ` set vs \<union> set (ids_of L')"
    by blast
  have "card (unat ` set vs) = length vs"
    using r(3) by (subst card_image) (auto simp: inj_on_def distinct_card word_unat_eq_iff)
  then have "card (unat ` set vs) = card {unat premint + 1 .. unat max_supply}" using r(2) assms(3) by simp
  moreover have "unat ` set vs \<subseteq> {unat premint + 1 .. unat max_supply}" using r(4) ids by blast
  ultimately have "unat ` set vs = {unat premint + 1 .. unat max_supply}" by (intro card_subset_eq) simp_all
  with r show ?thesis by blast
qed

theorem mint_out_hands_out_every_id_once_witness:
  "\<exists>ids d'. generate_all db_empty tick_A [17, 6, 0, 3] 5 1 = Inr (ids, d') \<and>
     distinct ids \<and> unat ` set ids = {unat (1 :: u64) + 1 .. unat (5 :: u64)}"
  by (rule mint_out_hands_out_every_id_once) simp_all

text \<open>Rolling back a sequence of draws, latest first, gives back the database before the first of them: the
  reorganisation of random mints is exact.\<close>

theorem rollback_inverts_draw_sequence:
  assumes "ranges_fresh d t" and "premint < max_supply"
    and "length entropies \<le> unat max_supply - unat premint"
    and "\<forall>token_id. part_get (token_id_meta d) (TokenMetaKey t token_id) = None"
    and "generate_all d t entropies max_supply premint = Inr (ids, d')"
  shows "rollback_all d' t (rev ids) = Inr d"
proof (rule rollback_all_generate_all [OF tick_ranges_fresh [OF assms(1)] initial_ranges_wf [OF assms(2)] _ _ assms(5)])
  show "length entropies \<le> card (set (ids_of (initial_ranges max_supply premint)))"
    using assms(2,3) by (simp add: set_ids_of_initial)
  show "meta_clear d t (initial_ranges max_supply premint)"
    using assms(4) by (simp add: meta_clear_def)
qed

theorem rollback_inverts_draw_sequence_witness:
  "\<exists>ids d'. generate_all db_empty tick_A [17, 6, 0] 5 1 = Inr (ids, d') \<and> rollback_all d' tick_A (rev ids) = Inr db_empty"
proof -
  have w: "tick_ranges db_empty tick_A 5 1 (initial_ranges 5 1)" "ranges_wf 5 1 (initial_ranges 5 1)"
    using initial_setup [of db_empty tick_A 1 5] by simp_all
  have "length [17, 6, 0 :: u64] \<le> card (set (ids_of (initial_ranges 5 1)))" by (simp add: ids_of_initial)
  from generate_all_steps [OF w this] obtain ids d' where
    g: "generate_all db_empty tick_A [17, 6, 0] 5 1 = Inr (ids, d')" by blast
  have "rollback_all d' tick_A (rev ids) = Inr db_empty"
    by (rule rollback_inverts_draw_sequence [OF _ _ _ _ g]) (simp_all add: db_empty_def ranges_fresh_def)
  with g show ?thesis by blast
qed

end
