(* ===== verification/Scores.thy ===== *)
theory Scores
  imports Prelude
begin

text \<open>
  Transaction scores, \<^verbatim>\<open>nexus/src/lib.rs\<close>: the place of a transaction in the accepted chain as one
  64-bit number. The merge set limit \<^verbatim>\<open>MERGE_SET_LIMIT\<close> comes from the node's consensus crate and is an
  argument (248 for ten blocks per second). Multiplication and addition wrap, as release builds do.
\<close>

definition BLOCK_TX_CAPACITY :: u64 where
  "BLOCK_TX_CAPACITY = 1000"

definition calculate_tx_score :: "u64 \<Rightarrow> u64 \<Rightarrow> u64 \<Rightarrow> u64 \<Rightarrow> u64" where
  "calculate_tx_score msl blue_score block_index tx_index =
     blue_score * msl * BLOCK_TX_CAPACITY + block_index * BLOCK_TX_CAPACITY + tx_index"

definition calculate_tx_score_from_blue :: "u64 \<Rightarrow> u64 \<Rightarrow> u64" where
  "calculate_tx_score_from_blue msl blue_score = calculate_tx_score msl blue_score 0 0"

definition calculate_blue_score_from_tx_score :: "u64 \<Rightarrow> u64 \<Rightarrow> u64" where
  "calculate_blue_score_from_tx_score msl tx_score = tx_score div (msl * BLOCK_TX_CAPACITY)"

text \<open>
  A position is regular when its indices are within the capacities and the score of the following
  blue score still fits.
\<close>

definition regular :: "u64 \<Rightarrow> u64 \<Rightarrow> u64 \<Rightarrow> u64 \<Rightarrow> bool" where
  "regular msl b i j \<longleftrightarrow>
     unat i < unat msl \<and> unat j < 1000 \<and> (unat b + 1) * (unat msl * 1000) < 2 ^ 64"

lemma regular_offset:
  assumes "regular msl b i j"
  shows "unat i * 1000 + unat j < unat msl * 1000"
  using assms by (auto simp: regular_def)

lemma unat_tx_score:
  assumes "regular msl b i j"
  shows "unat (calculate_tx_score msl b i j) = unat b * (unat msl * 1000) + unat i * 1000 + unat j"
proof -
  have o: "unat i * 1000 + unat j < unat msl * 1000" by (rule regular_offset [OF assms])
  have t: "unat b * (unat msl * 1000) + unat msl * 1000 < 2 ^ 64"
    using assms by (simp add: regular_def algebra_simps)
  have th: "unat (1000 :: u64) = 1000" by simp
  have bm: "unat b * unat msl * 1000 < 2 ^ 64" using t by (simp add: mult.assoc)
  have a: "unat (b * msl) = unat b * unat msl" using bm by (intro unat_mult_no_overflow) linarith
  have b: "unat (b * msl * 1000) = unat b * unat msl * 1000"
    using bm a th by (subst unat_mult_no_overflow) simp_all
  have c: "unat (i * 1000) = unat i * 1000" using o t th by (subst unat_mult_no_overflow) simp_all
  have d: "unat (b * msl * 1000 + i * 1000) = unat b * unat msl * 1000 + unat i * 1000"
    using b c o t by (subst unat_add_no_overflow) (simp_all add: mult.assoc)
  show ?thesis unfolding calculate_tx_score_def BLOCK_TX_CAPACITY_def
    using d o t by (subst unat_add_no_overflow) (simp_all add: mult.assoc)
qed

lemma unat_tx_score_from_blue:
  assumes "regular msl b i j"
  shows "unat (calculate_tx_score_from_blue msl b) = unat b * (unat msl * 1000)"
proof -
  have "regular msl b 0 0" using assms by (auto simp: regular_def)
  then show ?thesis by (simp add: calculate_tx_score_from_blue_def unat_tx_score)
qed

lemma unat_capacity:
  assumes "regular msl b i j"
  shows "unat (msl * BLOCK_TX_CAPACITY) = unat msl * 1000"
proof -
  have "unat b * (unat msl * 1000) + unat msl * 1000 < 2 ^ 64"
    using assms by (simp add: regular_def algebra_simps)
  then show ?thesis unfolding BLOCK_TX_CAPACITY_def by (subst unat_mult_no_overflow) simp_all
qed

lemma lex_div_less:
  fixes b c x y m :: nat
  assumes "x < m" "y < m"
  shows "b * m + x < c * m + y \<longleftrightarrow> b < c \<or> (b = c \<and> x < y)"
  using div_mod_less [of "b * m + x" "c * m + y" m] assms by simp

lemma tx_score_less:
  assumes "regular msl b i j" and "regular msl b' i' j'"
  shows "calculate_tx_score msl b i j < calculate_tx_score msl b' i' j' \<longleftrightarrow>
           b < b' \<or> b = b' \<and> (i < i' \<or> i = i' \<and> j < j')"
proof -
  have "unat j < 1000" "unat j' < 1000" using assms by (auto simp: regular_def)
  then show ?thesis
    using lex_div_less [OF regular_offset [OF assms(1)] regular_offset [OF assms(2)], of "unat b" "unat b'"]
      lex_div_less [of "unat j" 1000 "unat j'" "unat i" "unat i'"] assms
    by (auto simp: word_less_nat_alt unat_tx_score add.assoc word_unat_eq_iff)
qed

text \<open>Scores order transactions by blue score, then block within the merge set, then index in the block;
  in particular two positions never share a score.\<close>

theorem tx_score_order:
  assumes "regular msl b i j" and "regular msl b' i' j'"
  shows "(calculate_tx_score msl b i j < calculate_tx_score msl b' i' j' \<longleftrightarrow>
            b < b' \<or> b = b' \<and> (i < i' \<or> i = i' \<and> j < j')) \<and>
         (calculate_tx_score msl b i j = calculate_tx_score msl b' i' j' \<longleftrightarrow> b = b' \<and> i = i' \<and> j = j')"
  using tx_score_less [OF assms] tx_score_less [OF assms(2,1)] by (metis less_irrefl linorder_less_linear)

theorem tx_score_order_witness:
  "(calculate_tx_score 248 7 3 999 < calculate_tx_score 248 7 4 0 \<longleftrightarrow>
      (7 :: u64) < 7 \<or> (7 :: u64) = 7 \<and> ((3 :: u64) < 4 \<or> (3 :: u64) = 4 \<and> (999 :: u64) < 0)) \<and>
   calculate_tx_score 248 7 3 999 < calculate_tx_score 248 7 4 0"
  using tx_score_order [of 248 7 3 999 7 4 0] by (simp add: regular_def)

text \<open>The blue score is recovered from every score of its merge set.\<close>

theorem blue_score_of_tx_score:
  assumes "regular msl b i j"
  shows "calculate_blue_score_from_tx_score msl (calculate_tx_score msl b i j) = b"
proof -
  have o: "unat i * 1000 + unat j < unat msl * 1000" by (rule regular_offset [OF assms])
  then have "(unat b * (unat msl * 1000) + (unat i * 1000 + unat j)) div (unat msl * 1000) = unat b" by simp
  then have "unat (calculate_blue_score_from_tx_score msl (calculate_tx_score msl b i j)) = unat b"
    unfolding calculate_blue_score_from_tx_score_def
    by (simp add: unat_div_distrib unat_tx_score [OF assms] unat_capacity [OF assms] add.assoc)
  then show ?thesis by (simp add: word_unat_eq_iff)
qed

theorem blue_score_of_tx_score_witness:
  "calculate_blue_score_from_tx_score 248 (calculate_tx_score 248 91 247 999) = 91"
  by (rule blue_score_of_tx_score) (simp add: regular_def)

text \<open>A transaction lies at or above the threshold of a reorganisation exactly when its blue score does.\<close>

theorem tx_score_threshold:
  assumes "regular msl b i j" and "regular msl c 0 0"
  shows "calculate_tx_score_from_blue msl c \<le> calculate_tx_score msl b i j \<longleftrightarrow> c \<le> b"
proof -
  have "calculate_tx_score msl b i j < calculate_tx_score msl c 0 0 \<longleftrightarrow> b < c"
    using tx_score_less [OF assms] by auto
  then show ?thesis by (auto simp: calculate_tx_score_from_blue_def simp flip: not_less)
qed

theorem tx_score_threshold_witness:
  "calculate_tx_score_from_blue 248 9 \<le> calculate_tx_score 248 9 0 5 \<longleftrightarrow> (9 :: u64) \<le> 9"
  by (rule tx_score_threshold) (simp_all add: regular_def)

end
