(* ===== verification/Processor.thy ===== *)
theory Processor
  imports TokenId Scores
begin

text \<open>
  The forward half of \<^verbatim>\<open>nexus/src/processor.rs\<close>: one handler per operation, the dispatch of a list of
  operations with its statistics, and the processing of merge sets. A handler returns what the
  source returns, an abort (left) or the pair of the context validation result and the database.
  \<^verbatim>\<open>pay_to_script_hash_script\<close> of the node's script crate is the argument \<^verbatim>\<open>p2sh\<close>, the merge set limit
  the argument \<^verbatim>\<open>msl\<close>.
\<close>

section \<open>Handlers\<close>

type_synonym 'a outcome = "((ctx_validation_error + 'a) \<times> db) res"

abbreviation reject :: "db \<Rightarrow> ctx_validation_error \<Rightarrow> 'a outcome" where
  "reject d e \<equiv> Inr (Inl e, d)"

abbreviation accept :: "db \<Rightarrow> 'a \<Rightarrow> 'a outcome" where
  "accept d a \<equiv> Inr (Inr a, d)"

text \<open>The royalty rule of a mint that is not part of the premint; the fee may be discounted for \<^verbatim>\<open>to\<close>.\<close>

definition check_royalty ::
  "db \<Rightarrow> tick \<Rightarrow> spk \<Rightarrow> royalty_details option \<Rightarrow> royalty_details option \<Rightarrow> ctx_validation_error option" where
  "check_royalty d t to deploy_royalty mint_royalty =
     (case (deploy_royalty, mint_royalty) of
        (Some dr, Some mr) \<Rightarrow>
          (let required_fee = (case last_fee to t (vip d) of Some f \<Rightarrow> f | None \<Rightarrow> royalty_fee dr) in
           if required_fee > royalty_fee mr then Some InsufficientRoyaltyFee
           else if beneficiary dr \<noteq> beneficiary mr then Some InvalidBeneficiaryForRoyaltyMintFee
           else None)
      | (Some _, None) \<Rightarrow> Some MissingRoyaltyMintFee
      | (None, _) \<Rightarrow> None)"

text \<open>The five insertions that record a mint.\<close>

definition record_mint :: "db \<Rightarrow> tick \<Rightarrow> u64 \<Rightarrow> u64 \<Rightarrow> u64 \<Rightarrow> spk \<Rightarrow> db" where
  "record_mint d t token_id token_seq_no score to =
     d\<lparr>mint_history := part_insert (MintHistoryKey_with_seq t token_seq_no token_id score) () (mint_history d),
       ownership_changes := part_insert (TokenMintsKey_with_seq score t token_id token_seq_no) () (ownership_changes d),
       ownership_history := part_insert (OwnershipHistoryKey_with_score t token_id score) to (ownership_history d),
       current_ownership := part_insert (OwnershipKey t token_id)
         \<lparr>co_owner = to, co_mod_tx_score = score\<rparr> (current_ownership d),
       address_holdings := part_insert (AddressHoldingKey to t token_id) score (address_holdings d)\<rparr>"

definition process_mint ::
  "db \<Rightarrow> u64 \<Rightarrow> u64 \<Rightarrow> operation_common \<Rightarrow> mint_info \<Rightarrow> bool \<Rightarrow> u64 outcome" where
  "process_mint d mergeset_entropy score common info is_deployment =
     (let t = oc_tick common; to = mi_to info in
      case part_get (collection_registry d) t of
        None \<Rightarrow> reject d TickNotFound
      | Some sdi \<Rightarrow>
        (let di = dw_info (sd_deploy_info sdi);
             max_supply = di_max di;
             premint = di_premint di in
         if \<not> is_deployment \<and> oc_accepting_block_daa_score common < di_mint_start_daa di then
           reject d (MintingNotStarted t (oc_accepting_block_daa_score common) (di_mint_start_daa di))
         else if max_supply = 0 then reject d MintingFinished
         else
          (let last_mint = (case last_minted_token_seq_no t (mint_history d) of
                              Some r \<Rightarrow> ts_seq_no r | None \<Rightarrow> 0);
               should_premint = (premint > 0 \<and> last_mint < premint) in
           case (if should_premint then None else check_royalty d t to (di_royalty di) (mi_royalty info)) of
             Some e \<Rightarrow> reject d e
           | None \<Rightarrow>
              (let token_seq_no = last_mint + 1 in
               if token_seq_no > max_supply then reject d MintingFinished
               else and_then
                 (if \<not> should_premint \<and> premint < max_supply
                  then generate_token_id d t mergeset_entropy max_supply premint
                  else Inr (token_seq_no, d))
                 (\<lambda>(token_id, d1). accept (record_mint d1 t token_id token_seq_no score to) token_id)))))"

text \<open>The premint loop of a deployment: it stops at the first refused mint.\<close>

fun premint_loop :: "nat \<Rightarrow> db \<Rightarrow> u64 \<Rightarrow> operation_common \<Rightarrow> deploy_info \<Rightarrow> unit outcome" where
  "premint_loop 0 d tx_score common info = accept d ()"
| "premint_loop (Suc n) d tx_score common info =
     and_then (process_mint d 0 tx_score common
                 \<lparr>mi_token_id = 0, mi_to = di_deployer info, mi_royalty = None\<rparr> True)
       (\<lambda>(r, d1). case r of Inl e \<Rightarrow> reject d1 e | Inr _ \<Rightarrow> premint_loop n d1 tx_score common info)"

definition process_deployment :: "db \<Rightarrow> u64 \<Rightarrow> operation_common \<Rightarrow> deploy_info \<Rightarrow> unit outcome" where
  "process_deployment d tx_score common info =
     (case part_get (collection_registry d) (oc_tick common) of
        Some sdi \<Rightarrow> if sd_deploy_score sdi \<ge> tx_score then Inl UnexpectedKaspaNodeBehaviour
                    else reject d TickExists
      | None \<Rightarrow>
         (let dw = \<lparr>dw_info = info, dw_common = common\<rparr>;
              d1 = d\<lparr>collection_registry := part_insert (oc_tick common)
                       \<lparr>sd_deploy_score = tx_score, sd_deploy_info = dw\<rparr> (collection_registry d),
                     collection_deployments := part_insert (DeploymentKey tx_score (oc_tick common)) dw
                       (collection_deployments d)\<rparr> in
          if di_premint info > 0 then premint_loop (unat (di_premint info)) d1 tx_score common info
          else accept d1 ()))"

text \<open>The ownership move shared by a transfer and a sale.\<close>

definition move_ownership :: "db \<Rightarrow> u64 \<Rightarrow> tick \<Rightarrow> u64 \<Rightarrow> spk \<Rightarrow> spk \<Rightarrow> db" where
  "move_ownership d tx_score t token_id old new =
     d\<lparr>ownership_changes := part_insert (TokenMintsKey_with_seq tx_score t token_id 0) () (ownership_changes d),
       ownership_history := part_insert (OwnershipHistoryKey_with_score t token_id tx_score) new (ownership_history d),
       current_ownership := part_insert (OwnershipKey t token_id)
         \<lparr>co_owner = new, co_mod_tx_score = tx_score\<rparr> (current_ownership d),
       address_holdings := part_insert (AddressHoldingKey new t token_id) tx_score
         (part_remove (AddressHoldingKey old t token_id) (address_holdings d))\<rparr>"

definition process_transfer :: "db \<Rightarrow> u64 \<Rightarrow> operation_common \<Rightarrow> transfer_info \<Rightarrow> unit outcome" where
  "process_transfer d tx_score common info =
     (let t = oc_tick common; token_id = ti_token_id info in
      case part_get (current_ownership d) (OwnershipKey t token_id) of
        None \<Rightarrow> reject d TokenNotFound
      | Some co \<Rightarrow>
          if co_owner co \<noteq> oc_sender common then reject d WrongOwner
          else if part_get (listings d) (OwnershipKey t token_id) \<noteq> None then reject d TokenIsListed
          else accept (move_ownership d tx_score t token_id (co_owner co) (ti_to info)) ())"

definition process_discount :: "db \<Rightarrow> u64 \<Rightarrow> operation_common \<Rightarrow> discount_info \<Rightarrow> unit outcome" where
  "process_discount d score common info =
     (case part_get (collection_registry d) (oc_tick common) of
        None \<Rightarrow> reject d TickNotFound
      | Some sdi \<Rightarrow>
         (let di = dw_info (sd_deploy_info sdi) in
          if oc_sender common \<noteq> di_deployer di then reject d WrongDeployer
          else if dc_fee info \<ge> (case di_royalty di of Some r \<Rightarrow> royalty_fee r | None \<Rightarrow> 0)
          then reject d DiscountFeeOverflow
          else accept (d\<lparr>score_to_discount :=
                           part_insert (ScoredDiscountKey score (oc_tick common) (dc_to info)) (dc_fee info)
                             (score_to_discount d),
                         vip := part_insert (VipKey (dc_to info) (oc_tick common) (rev_u64 score) (dc_fee info)) () (vip d)\<rparr>) ()))"

definition insert_listing :: "db \<Rightarrow> tick \<Rightarrow> u64 \<Rightarrow> listing_value \<Rightarrow> db" where
  "insert_listing d t token_id lv =
     d\<lparr>listings := part_insert (OwnershipKey t token_id) lv (listings d),
       listings_by_tick := part_insert (ListingByTickKey t token_id) () (listings_by_tick d),
       address_listings := part_insert (AddressHoldingKey (lv_seller lv) t token_id) (lv_op_score lv) (address_listings d)\<rparr>"

definition remove_listing :: "db \<Rightarrow> tick \<Rightarrow> u64 \<Rightarrow> spk \<Rightarrow> db" where
  "remove_listing d t token_id seller =
     d\<lparr>listings := part_remove (OwnershipKey t token_id) (listings d),
       listings_by_tick := part_remove (ListingByTickKey t token_id) (listings_by_tick d),
       address_listings := part_remove (AddressHoldingKey seller t token_id) (address_listings d)\<rparr>"

definition process_list ::
  "(bytes \<Rightarrow> spk) \<Rightarrow> db \<Rightarrow> u64 \<Rightarrow> operation_common \<Rightarrow> listing_info \<Rightarrow> unit outcome" where
  "process_list p2sh d tx_score common info =
     (let t = oc_tick common; token_id = li_token_id info in
      if p2sh (li_redeem_script info) \<noteq> li_utxo_address info then reject d InvalidListingP2sh
      else if part_get (collection_registry d) t = None then reject d TickNotFound
      else case part_get (current_ownership d) (OwnershipKey t token_id) of
        None \<Rightarrow> reject d TokenNotFound
      | Some co \<Rightarrow>
          if co_owner co \<noteq> oc_sender common then reject d WrongOwner
          else if part_get (listings d) (OwnershipKey t token_id) \<noteq> None then reject d TokenAlreadyListed
          else accept (insert_listing d t token_id
                 \<lparr>lv_seller = oc_sender common, lv_listing_tx_id = oc_tx_id common,
                  lv_utxo_address = li_utxo_address info, lv_redeem_script = li_redeem_script info,
                  lv_op_score = tx_score\<rparr>) ())"

definition process_send :: "db \<Rightarrow> u64 \<Rightarrow> operation_common \<Rightarrow> send_info \<Rightarrow> unit outcome" where
  "process_send d tx_score common info =
     (let t = oc_tick common; token_id = si_token_id info in
      case part_get (listings d) (OwnershipKey t token_id) of
        None \<Rightarrow> reject d ListingNotFound
      | Some listing \<Rightarrow>
          if si_listing_utxo_txid info \<noteq> lv_listing_tx_id listing then reject d WrongListingUtxo
          else
           (let seller = lv_seller listing;
                d1 = (case si_buyer info of
                        Some buyer \<Rightarrow> move_ownership d tx_score t token_id seller buyer
                      | None \<Rightarrow> d) in
            accept (remove_listing d1 t token_id seller) ()))"

section \<open>Dispatch\<close>

record context_operation =
  cx_tx_score :: u64
  cx_operation :: operation
  cx_mergeset_entropy :: u64

definition royalty_or_zero :: "royalty_details option \<Rightarrow> u64" where
  "royalty_or_zero r = (case r of Some rd \<Rightarrow> royalty_fee rd | None \<Rightarrow> 0)"

text \<open>
  One operation: the validation error if any, the operation (a mint has its id filled in), the
  statistics and the database.
\<close>

definition apply_operation ::
  "(bytes \<Rightarrow> spk) \<Rightarrow> db \<Rightarrow> u64 \<Rightarrow> u64 \<Rightarrow> operation \<Rightarrow> stats
     \<Rightarrow> (ctx_validation_error option \<times> operation \<times> stats \<times> db) res" where
  "apply_operation p2sh d mergeset_entropy tx_score op diff =
     (let common = op_common op;
          fee = st_security_fees diff + oc_fee common;
          finish = (\<lambda>ok_diff (r :: ctx_validation_error + unit, d1).
             Inr (case r of Inl e \<Rightarrow> (Some e, op, diff, d1) | Inr _ \<Rightarrow> (None, op, ok_diff, d1))) in
      case op_info op of
        Deploy info \<Rightarrow> and_then (process_deployment d tx_score common info)
          (finish (diff\<lparr>st_mints := st_mints diff + di_premint info, st_security_fees := fee,
                        st_deployments := st_deployments diff + 1,
                        st_royalty_fees := st_royalty_fees diff + royalty_or_zero (di_royalty info)\<rparr>))
      | Mint info \<Rightarrow> and_then (process_mint d mergeset_entropy tx_score common info False)
          (\<lambda>(r, d1). Inr (case r of
             Inl e \<Rightarrow> (Some e, op, diff, d1)
           | Inr token_id \<Rightarrow> (None, op\<lparr>op_info := Mint (info\<lparr>mi_token_id := token_id\<rparr>)\<rparr>,
               diff\<lparr>st_security_fees := fee, st_mints := st_mints diff + 1,
                    st_royalty_fees := st_royalty_fees diff + royalty_or_zero (mi_royalty info)\<rparr>, d1)))
      | Transfer info \<Rightarrow> and_then (process_transfer d tx_score common info)
          (finish (diff\<lparr>st_security_fees := fee, st_transfers := st_transfers diff + 1\<rparr>))
      | Discount info \<Rightarrow> and_then (process_discount d tx_score common info)
          (finish (diff\<lparr>st_security_fees := fee\<rparr>))
      | Listing info \<Rightarrow> and_then (process_list p2sh d tx_score common info)
          (finish (diff\<lparr>st_security_fees := fee, st_listings := st_listings diff + 1\<rparr>))
      | Send info \<Rightarrow> and_then (process_send d tx_score common info)
          (finish (diff\<lparr>st_security_fees := fee, st_sends := st_sends diff + 1\<rparr>)))"

definition record_operation :: "db \<Rightarrow> u64 \<Rightarrow> operation \<Rightarrow> ctx_validation_error option \<Rightarrow> db" where
  "record_operation d tx_score op err =
     d\<lparr>operation_history := part_insert tx_score \<lparr>co_operation = op, co_error = err\<rparr> (operation_history d),
       tx_id_to_opscore := part_insert (oc_tx_id (op_common op)) tx_score (tx_id_to_opscore d)\<rparr>"

fun process_nft_operations ::
  "(bytes \<Rightarrow> spk) \<Rightarrow> db \<Rightarrow> context_operation list \<Rightarrow> stats \<Rightarrow> (stats \<times> db) res" where
  "process_nft_operations p2sh d [] diff = Inr (diff, d)"
| "process_nft_operations p2sh d (cx # cxs) diff =
     and_then (apply_operation p2sh d (cx_mergeset_entropy cx) (cx_tx_score cx) (cx_operation cx) diff)
       (\<lambda>(err, op, diff1, d1).
          process_nft_operations p2sh (record_operation d1 (cx_tx_score cx) op err) cxs diff1)"

text \<open>The operations of a merge set whose transaction is not in the accepted history yet.\<close>

definition scored_operations :: "u64 \<Rightarrow> db \<Rightarrow> mergeset \<Rightarrow> context_operation list" where
  "scored_operations msl d m =
     map (\<lambda>o1. \<lparr>cx_tx_score = calculate_tx_score msl (ms_blue_score m) (mo_block_index_within_mergeset o1)
                                 (mo_index_within_merged_block o1),
                  cx_operation = mo_operation o1, cx_mergeset_entropy = ms_entropy m\<rparr>)
       (filter (\<lambda>o1. part_get (tx_id_to_opscore d) (oc_tx_id (op_common (mo_operation o1))) = None) (ms_operations m))"

definition add_mergeset ::
  "u64 \<Rightarrow> (bytes \<Rightarrow> spk) \<Rightarrow> u64 \<Rightarrow> db \<Rightarrow> mergeset \<Rightarrow> stats \<Rightarrow> (stats \<times> db) res" where
  "add_mergeset msl p2sh last_accepted_blue_score d m stats_diff =
     (if ms_blue_score m < last_accepted_blue_score then Inr (stats_diff, d)
      else
       (let (inserted, cbs) = part_insert_if_not_exist
              (BlueScoredChainBlockHash (ms_blue_score m) (ms_accepted_chain_block_hash m)) () (chain_block_scores d);
            d1 = d\<lparr>chain_block_scores := cbs\<rparr> in
        if \<not> inserted then Inr (stats_diff, d1)
        else
         (let d2 = d1\<lparr>blockhash_to_score := part_insert (ms_accepted_chain_block_hash m) (ms_blue_score m)
                        (blockhash_to_score d1)\<rparr> in
          and_then (process_nft_operations p2sh d2 (scored_operations msl d2 m) stats_default)
            (\<lambda>(diff, d3). Inr (stats_add stats_diff diff, d3)))))"

fun add_mergesets ::
  "u64 \<Rightarrow> (bytes \<Rightarrow> spk) \<Rightarrow> u64 \<Rightarrow> db \<Rightarrow> mergeset list \<Rightarrow> stats \<Rightarrow> (stats \<times> db) res" where
  "add_mergesets msl p2sh last_score d [] diff = Inr (diff, d)"
| "add_mergesets msl p2sh last_score d (m # ms) diff =
     and_then (add_mergeset msl p2sh last_score d m diff)
       (\<lambda>(diff1, d1). add_mergesets msl p2sh last_score d1 ms diff1)"

text \<open>The blue score of the last accepted block is read once, before the loop.\<close>

definition process_additions ::
  "u64 \<Rightarrow> (bytes \<Rightarrow> spk) \<Rightarrow> db \<Rightarrow> mergeset list \<Rightarrow> (stats \<times> db) res" where
  "process_additions msl p2sh d ms =
     (let last_score = (case last_accepted_block (chain_block_scores d) of
                          Some k \<Rightarrow> bh_blue_score k | None \<Rightarrow> 0) in
      add_mergesets msl p2sh last_score d ms stats_default)"

end
