(* ===== verification/Ledger.thy ===== *)
theory Ledger
  imports Processor
begin

text \<open>
  The ledger invariant and its preservation by the handlers. \<^verbatim>\<open>holdings_ok\<close>: the holdings of the
  addresses mirror the current owners. \<^verbatim>\<open>history_ok\<close>: the current owner is the latest entry of the
  ownership history. \<^verbatim>\<open>listings_ok\<close>: the three listing partitions agree, and a listed token belongs to
  its seller. \<^verbatim>\<open>supply_ok\<close>: the minted ids of a tick and the available ranges partition its supply.
  The abstract ledger at the end forgets indexes, histories and ranges; the handlers refine its steps.
\<close>

section \<open>Latest owner and latest mint after an insertion\<close>

lemma last_owner_eqI:
  assumes g: "part_get H (OwnershipHistoryKey_with_score t i s) = Some q"
    and m: "\<And>s'. OwnershipHistoryKey_with_score t i s' \<in> part_keys H \<Longrightarrow> s' \<le> s"
  shows "last_owner_with_tx_mod_score (OwnershipKey t i) H = Some (q, s)"
proof (cases "last_owner_with_tx_mod_score (OwnershipKey t i) H")
  case None
  then show ?thesis using g by (simp add: last_owner_None_iff OwnershipHistoryKey_with_score_def)
next
  case (Some r)
  obtain q' s' where r: "r = (q', s')" by fastforce
  have a: "part_get H (OwnershipHistoryKey_with_score t i s') = Some q'"
    and b: "s \<le> s'" using last_owner_SomeD [OF Some [unfolded r]] g by (auto simp: part_keys_def)
  have "s' \<le> s" using a m by (simp add: part_keys_def)
  with b have "s' = s" by simp
  with a g Some r show ?thesis by simp
qed

lemma last_owner_cong:
  assumes "\<And>n. part_get H (OwnershipHistoryKey t i n) = part_get H' (OwnershipHistoryKey t i n)"
  shows "last_owner_with_tx_mod_score (OwnershipKey t i) H = last_owner_with_tx_mod_score (OwnershipKey t i) H'"
proof (cases "last_owner_with_tx_mod_score (OwnershipKey t i) H'")
  case None
  then have "last_owner_with_tx_mod_score (OwnershipKey t i) H = None" using assms by (simp add: last_owner_None_iff)
  with None show ?thesis by simp
next
  case (Some r)
  obtain q s where r: "r = (q, s)" by fastforce
  show ?thesis unfolding Some r
    using last_owner_SomeD [OF Some [unfolded r]] assms
    by (intro last_owner_eqI) (auto simp: part_keys_def OwnershipHistoryKey_with_score_def)
qed

lemma last_owner_insert_other:
  "(t', i') \<noteq> (t, i) \<Longrightarrow>
   last_owner_with_tx_mod_score (OwnershipKey t i) (part_insert (OwnershipHistoryKey_with_score t' i' s) q H) =
   last_owner_with_tx_mod_score (OwnershipKey t i) H"
  by (rule last_owner_cong) (auto simp: OwnershipHistoryKey_with_score_def)

lemma last_owner_insert_same:
  assumes "\<And>s'. OwnershipHistoryKey_with_score t i s' \<in> part_keys H \<Longrightarrow> s' \<le> s"
  shows "last_owner_with_tx_mod_score (OwnershipKey t i) (part_insert (OwnershipHistoryKey_with_score t i s) q H) = Some (q, s)"
proof (rule last_owner_eqI)
  fix s' assume "OwnershipHistoryKey_with_score t i s' \<in> part_keys (part_insert (OwnershipHistoryKey_with_score t i s) q H)"
  then show "s' \<le> s" using assms by (auto simp: part_keys_def OwnershipHistoryKey_with_score_def split: if_splits)
qed simp

definition last_seq :: "tick \<Rightarrow> (mint_history_key, unit) part \<Rightarrow> u64" where
  "last_seq t p = (case last_minted_token_seq_no t p of Some r \<Rightarrow> ts_seq_no r | None \<Rightarrow> 0)"

definition seq_of :: "mint_history_key \<Rightarrow> u64" where
  "seq_of k = rev_u64 (mh_reversed_seq k)"

lemma seq_of_with_seq [simp]: "seq_of (MintHistoryKey_with_seq t n i s) = n"
  by (simp add: seq_of_def MintHistoryKey_with_seq_def)

lemma mh_tick_with_seq [simp]: "mh_tick (MintHistoryKey_with_seq t n i s) = t"
  by (simp add: MintHistoryKey_with_seq_def)

lemma last_seq_eqI:
  assumes le: "\<And>k. k \<in> part_keys p \<Longrightarrow> mh_tick k = t \<Longrightarrow> seq_of k \<le> n"
    and ex: "n \<noteq> 0 \<Longrightarrow> \<exists>k \<in> part_keys p. mh_tick k = t \<and> seq_of k = n"
  shows "last_seq t p = n"
proof (cases "last_minted_token_seq_no t p")
  case None
  then have "n = 0" using ex by (auto simp: last_minted_None_iff)
  with None show ?thesis by (simp add: last_seq_def)
next
  case (Some r)
  have "ts_seq_no r \<le> n" using le [OF last_minted_SomeD(1) [OF Some]] by simp
  moreover have "n \<le> ts_seq_no r"
  proof (cases "n = 0")
    case False
    then show ?thesis using ex last_minted_SomeD(2) [OF Some] by (auto simp: seq_of_def)
  qed simp
  ultimately show ?thesis using Some by (simp add: last_seq_def)
qed

section \<open>Invariants\<close>

definition holdings_ok :: "db \<Rightarrow> bool" where
  "holdings_ok d \<longleftrightarrow>
     (\<forall>p t i s. part_get (address_holdings d) (AddressHoldingKey p t i) = Some s \<longleftrightarrow>
        part_get (current_ownership d) (OwnershipKey t i) = Some \<lparr>co_owner = p, co_mod_tx_score = s\<rparr>)"

definition history_ok :: "db \<Rightarrow> bool" where
  "history_ok d \<longleftrightarrow>
     (\<forall>t i. part_get (current_ownership d) (OwnershipKey t i) =
        map_option (\<lambda>(p, s). \<lparr>co_owner = p, co_mod_tx_score = s\<rparr>)
          (last_owner_with_tx_mod_score (OwnershipKey t i) (ownership_history d)))"

definition listings_ok :: "db \<Rightarrow> bool" where
  "listings_ok d \<longleftrightarrow>
     (\<forall>t i. part_get (listings_by_tick d) (ListingByTickKey t i) = map_option (\<lambda>_. ()) (part_get (listings d) (OwnershipKey t i))) \<and>
     (\<forall>p t i s. part_get (address_listings d) (AddressHoldingKey p t i) = Some s \<longleftrightarrow>
        (\<exists>lv. part_get (listings d) (OwnershipKey t i) = Some lv \<and> lv_seller lv = p \<and> lv_op_score lv = s)) \<and>
     (\<forall>t i lv. part_get (listings d) (OwnershipKey t i) = Some lv \<longrightarrow>
        (\<exists>s. part_get (current_ownership d) (OwnershipKey t i) = Some \<lparr>co_owner = lv_seller lv, co_mod_tx_score = s\<rparr>))"

definition mint_keys :: "db \<Rightarrow> tick \<Rightarrow> mint_history_key set" where
  "mint_keys d t = {k \<in> part_keys (mint_history d). mh_tick k = t}"

definition owned :: "db \<Rightarrow> tick \<Rightarrow> u64 \<Rightarrow> bool" where
  "owned d t i \<longleftrightarrow> part_get (current_ownership d) (OwnershipKey t i) \<noteq> None"

text \<open>All scores in the histories, the registry and the listings are at most \<^verbatim>\<open>s\<close>.\<close>

definition scores_le :: "db \<Rightarrow> u64 \<Rightarrow> bool" where
  "scores_le d s \<longleftrightarrow>
     (\<forall>k \<in> part_keys (ownership_history d). oh_score k \<le> s) \<and>
     (\<forall>t sdi. part_get (collection_registry d) t = Some sdi \<longrightarrow> sd_deploy_score sdi \<le> s) \<and>
     (\<forall>k lv. part_get (listings d) k = Some lv \<longrightarrow> lv_op_score lv \<le> s)"

text \<open>
  The supply of a tick with \<^verbatim>\<open>n\<close> mints: below the premint the ids are the sequence numbers; from then on
  the random ids come out of the ranges \<^verbatim>\<open>L\<close>, which hold exactly what is not minted.
\<close>

definition supply_inv :: "db \<Rightarrow> tick \<Rightarrow> u64 \<Rightarrow> u64 \<Rightarrow> u64 \<Rightarrow> ranges \<Rightarrow> bool" where
  "supply_inv d t m p n L \<longleftrightarrow>
     n \<le> m \<and> p \<le> m \<and> m < - 1 \<and>
     (\<forall>k \<in> mint_keys d t. 0 < seq_of k \<and> seq_of k \<le> n) \<and>
     (n \<noteq> 0 \<longrightarrow> (\<exists>k \<in> mint_keys d t. seq_of k = n)) \<and>
     (\<forall>i. part_get (token_id_meta d) (TokenMetaKey t i) \<noteq> None \<longrightarrow> p < i \<and> owned d t i) \<and>
     (if n < p \<or> p = m then ranges_fresh d t \<and> (\<forall>i. owned d t i \<longleftrightarrow> 0 < i \<and> i \<le> n)
      else tick_ranges d t m p L \<and> ranges_wf m p L \<and> length (ids_of L) = unat m - unat n \<and>
           (\<forall>i. owned d t i \<longleftrightarrow> 0 < i \<and> i \<le> m \<and> unat i \<notin> set (ids_of L)))"

definition supply_ok :: "db \<Rightarrow> tick \<Rightarrow> u64 \<Rightarrow> u64 \<Rightarrow> bool" where
  "supply_ok d t m p \<longleftrightarrow> (\<exists>n L. supply_inv d t m p n L)"

definition untouched :: "db \<Rightarrow> tick \<Rightarrow> bool" where
  "untouched d t \<longleftrightarrow>
     mint_keys d t = {} \<and> ranges_fresh d t \<and>
     (\<forall>i. part_get (token_id_meta d) (TokenMetaKey t i) = None) \<and> (\<forall>i. \<not> owned d t i)"

definition tick_ok :: "db \<Rightarrow> tick \<Rightarrow> bool" where
  "tick_ok d t \<longleftrightarrow>
     (case part_get (collection_registry d) t of
        None \<Rightarrow> untouched d t
      | Some sdi \<Rightarrow> supply_ok d t (di_max (dw_info (sd_deploy_info sdi))) (di_premint (dw_info (sd_deploy_info sdi))))"

definition ledger_ok :: "db \<Rightarrow> bool" where
  "ledger_ok d \<longleftrightarrow> (\<forall>t. tick_ok d t) \<and> holdings_ok d \<and> history_ok d \<and> listings_ok d"

lemma supply_inv_last_seq: "supply_inv d t m p n L \<Longrightarrow> last_seq t (mint_history d) = n"
  by (rule last_seq_eqI) (auto simp: supply_inv_def mint_keys_def)

text \<open>The supply of a tick reads only what belongs to the tick.\<close>

definition same_supply :: "tick \<Rightarrow> db \<Rightarrow> db \<Rightarrow> bool" where
  "same_supply t d d' \<longleftrightarrow>
     mint_keys d' t = mint_keys d t \<and>
     (\<forall>i. owned d' t i = owned d t i) \<and>
     part_get (range_lengths d') t = part_get (range_lengths d) t \<and>
     (\<forall>i. part_get (available_ranges d') (RangeKey t i) = part_get (available_ranges d) (RangeKey t i)) \<and>
     (\<forall>i. part_get (token_id_meta d') (TokenMetaKey t i) = part_get (token_id_meta d) (TokenMetaKey t i))"

lemma same_supply_refl [simp]: "same_supply t d d"
  by (simp add: same_supply_def)

lemma same_supply_fresh: "same_supply t d d' \<Longrightarrow> ranges_fresh d' t = ranges_fresh d t"
  by (simp add: same_supply_def ranges_fresh_def)

lemma same_supply_ranges: "same_supply t d d' \<Longrightarrow> tick_ranges d' t m p L = tick_ranges d t m p L"
  by (simp add: tick_ranges_def same_supply_fresh ranges_rep_def) (simp add: same_supply_def)

lemma same_supply_inv: "same_supply t d d' \<Longrightarrow> supply_inv d' t m p n L = supply_inv d t m p n L"
  unfolding supply_inv_def by (simp add: same_supply_fresh same_supply_ranges) (simp add: same_supply_def)

lemma same_supply_untouched: "same_supply t d d' \<Longrightarrow> untouched d' t = untouched d t"
  unfolding untouched_def by (simp add: same_supply_fresh) (simp add: same_supply_def)

lemma same_supply_tick_ok:
  "same_supply t d d' \<Longrightarrow> part_get (collection_registry d') t = part_get (collection_registry d) t \<Longrightarrow> tick_ok d' t = tick_ok d t"
  by (simp add: tick_ok_def supply_ok_def same_supply_inv same_supply_untouched split: option.split)

section \<open>The building blocks preserve the invariants\<close>

lemma record_mint_simps [simp]:
  "collection_registry (record_mint d t i n s p) = collection_registry d"
  "listings (record_mint d t i n s p) = listings d"
  "listings_by_tick (record_mint d t i n s p) = listings_by_tick d"
  "address_listings (record_mint d t i n s p) = address_listings d"
  "range_lengths (record_mint d t i n s p) = range_lengths d"
  "available_ranges (record_mint d t i n s p) = available_ranges d"
  "token_id_meta (record_mint d t i n s p) = token_id_meta d"
  "owned (record_mint d t i n s p) t' j \<longleftrightarrow> owned d t' j \<or> (t' = t \<and> j = i)"
  "mint_keys (record_mint d t i n s p) t' =
     (if t' = t then insert (MintHistoryKey_with_seq t n i s) (mint_keys d t') else mint_keys d t')"
  by (auto simp: record_mint_def owned_def mint_keys_def part_keys_def split: if_splits)

lemma record_mint_holdings: "holdings_ok d \<Longrightarrow> \<not> owned d t i \<Longrightarrow> holdings_ok (record_mint d t i n s p)"
  unfolding holdings_ok_def owned_def record_mint_def by auto

lemma history_ok_owned:
  "history_ok d \<Longrightarrow> \<not> owned d t i \<Longrightarrow> last_owner_with_tx_mod_score (OwnershipKey t i) (ownership_history d) = None"
  by (cases "last_owner_with_tx_mod_score (OwnershipKey t i) (ownership_history d)") (auto simp: history_ok_def owned_def)

lemma record_mint_history:
  assumes h: "history_ok d" and o: "\<not> owned d t i"
  shows "history_ok (record_mint d t i n s p)"
proof -
  have "\<forall>n. part_get (ownership_history d) (OwnershipHistoryKey t i n) = None"
    using history_ok_owned [OF h o] by (simp add: last_owner_None_iff)
  then have "last_owner_with_tx_mod_score (OwnershipKey t i) (part_insert (OwnershipHistoryKey_with_score t i s) p (ownership_history d)) = Some (p, s)"
    by (intro last_owner_insert_same) (simp add: part_keys_def OwnershipHistoryKey_with_score_def)
  then show ?thesis using h
    unfolding history_ok_def record_mint_def by (auto simp: last_owner_insert_other)
qed

lemma listed_owned: "listings_ok d \<Longrightarrow> part_get (listings d) (OwnershipKey t i) = Some lv \<Longrightarrow> owned d t i"
  unfolding listings_ok_def owned_def by blast

lemma record_mint_listings:
  assumes l: "listings_ok d" and o: "\<not> owned d t i"
  shows "listings_ok (record_mint d t i n s p)"
proof -
  have "part_get (listings d) (OwnershipKey t i) = None"
    using listed_owned [OF l] o by (metis not_None_eq)
  then show ?thesis using l unfolding listings_ok_def record_mint_def by auto
qed

lemma record_mint_scores: "scores_le d s \<Longrightarrow> scores_le (record_mint d t i n s p) s"
  unfolding scores_le_def record_mint_def part_keys_def
  by (auto simp: oh_score_def OwnershipHistoryKey_with_score_def split: if_splits)

lemma move_ownership_simps [simp]:
  "collection_registry (move_ownership d s t i p q) = collection_registry d"
  "listings (move_ownership d s t i p q) = listings d"
  "listings_by_tick (move_ownership d s t i p q) = listings_by_tick d"
  "address_listings (move_ownership d s t i p q) = address_listings d"
  "mint_history (move_ownership d s t i p q) = mint_history d"
  "range_lengths (move_ownership d s t i p q) = range_lengths d"
  "available_ranges (move_ownership d s t i p q) = available_ranges d"
  "token_id_meta (move_ownership d s t i p q) = token_id_meta d"
  "mint_keys (move_ownership d s t i p q) t' = mint_keys d t'"
  by (simp_all add: move_ownership_def mint_keys_def)

lemma move_ownership_owned [simp]:
  "owned (move_ownership d s t i p q) t' j \<longleftrightarrow> owned d t' j \<or> (t' = t \<and> j = i)"
  by (auto simp: move_ownership_def owned_def)

lemma move_ownership_supply: "owned d t i \<Longrightarrow> same_supply t' d (move_ownership d s t i p q)"
  by (auto simp: same_supply_def)

lemma move_ownership_holdings:
  assumes "holdings_ok d" and "part_get (current_ownership d) (OwnershipKey t i) = Some co" and "co_owner co = p"
  shows "holdings_ok (move_ownership d s t i p q)"
  using assms unfolding holdings_ok_def move_ownership_def by (cases co) auto

lemma move_ownership_history:
  assumes h: "history_ok d" and s: "\<forall>k \<in> part_keys (ownership_history d). oh_score k \<le> s"
  shows "history_ok (move_ownership d s t i p q)"
proof -
  have "last_owner_with_tx_mod_score (OwnershipKey t i) (part_insert (OwnershipHistoryKey_with_score t i s) q (ownership_history d)) = Some (q, s)"
    using s by (intro last_owner_insert_same) (auto simp: oh_score_def OwnershipHistoryKey_with_score_def)
  then show ?thesis using h
    unfolding history_ok_def move_ownership_def by (auto simp: last_owner_insert_other)
qed

lemma move_ownership_scores: "scores_le d s \<Longrightarrow> scores_le (move_ownership d s t i p q) s"
  unfolding scores_le_def move_ownership_def part_keys_def
  by (auto simp: oh_score_def OwnershipHistoryKey_with_score_def split: if_splits)

lemma insert_listing_simps [simp]:
  "collection_registry (insert_listing d t i lv) = collection_registry d"
  "current_ownership (insert_listing d t i lv) = current_ownership d"
  "ownership_history (insert_listing d t i lv) = ownership_history d"
  "address_holdings (insert_listing d t i lv) = address_holdings d"
  "mint_history (insert_listing d t i lv) = mint_history d"
  "range_lengths (insert_listing d t i lv) = range_lengths d"
  "available_ranges (insert_listing d t i lv) = available_ranges d"
  "token_id_meta (insert_listing d t i lv) = token_id_meta d"
  by (simp_all add: insert_listing_def)

lemma remove_listing_simps [simp]:
  "collection_registry (remove_listing d t i p) = collection_registry d"
  "current_ownership (remove_listing d t i p) = current_ownership d"
  "ownership_history (remove_listing d t i p) = ownership_history d"
  "address_holdings (remove_listing d t i p) = address_holdings d"
  "mint_history (remove_listing d t i p) = mint_history d"
  "range_lengths (remove_listing d t i p) = range_lengths d"
  "available_ranges (remove_listing d t i p) = available_ranges d"
  "token_id_meta (remove_listing d t i p) = token_id_meta d"
  by (simp_all add: remove_listing_def)

text \<open>Databases that agree on everything the ledger invariant reads except the listings.\<close>

definition same_tokens :: "db \<Rightarrow> db \<Rightarrow> bool" where
  "same_tokens d d' \<longleftrightarrow>
     collection_registry d' = collection_registry d \<and> current_ownership d' = current_ownership d \<and>
     ownership_history d' = ownership_history d \<and> address_holdings d' = address_holdings d \<and>
     mint_history d' = mint_history d \<and> range_lengths d' = range_lengths d \<and>
     available_ranges d' = available_ranges d \<and> token_id_meta d' = token_id_meta d"

lemma same_tokens_inv:
  assumes "same_tokens d d'"
  shows "tick_ok d' t = tick_ok d t" "holdings_ok d' = holdings_ok d" "history_ok d' = history_ok d" "owned d' t i = owned d t i"
  using assms
  by (auto simp: same_tokens_def holdings_ok_def history_ok_def owned_def intro!: same_supply_tick_ok)
    (auto simp: same_supply_def mint_keys_def owned_def)

lemma insert_listing_tokens: "same_tokens d (insert_listing d t i lv)"
  by (simp add: same_tokens_def)

lemma remove_listing_tokens: "same_tokens d (remove_listing d t i p)"
  by (simp add: same_tokens_def)

lemma insert_listing_listings:
  assumes "listings_ok d" and "part_get (listings d) (OwnershipKey t i) = None"
    and "part_get (current_ownership d) (OwnershipKey t i) = Some co" and "co_owner co = lv_seller lv"
  shows "listings_ok (insert_listing d t i lv)"
  using assms unfolding listings_ok_def insert_listing_def by (cases co) auto

text \<open>
  Removing the listing of a token: what remains must still be sold by its owner, which is why only the
  ownership of this token may have changed before.
\<close>

lemma remove_listing_listings:
  assumes l: "listings_ok d" and lv: "part_get (listings d) (OwnershipKey t i) = Some lv" and s: "lv_seller lv = p"
    and e: "listings d' = listings d" "listings_by_tick d' = listings_by_tick d" "address_listings d' = address_listings d"
    and o: "\<And>t' j. (t', j) \<noteq> (t, i) \<Longrightarrow> part_get (current_ownership d') (OwnershipKey t' j) = part_get (current_ownership d) (OwnershipKey t' j)"
  shows "listings_ok (remove_listing d' t i p)"
  using l lv s o unfolding listings_ok_def remove_listing_def by (auto simp: e)

section \<open>Minting\<close>

lemma take_value_frame:
  "take_value d t idx v s z n b = Inr d' \<Longrightarrow>
   d' = d\<lparr>token_id_meta := token_id_meta d', available_ranges := available_ranges d', range_lengths := range_lengths d'\<rparr>"
  by (auto simp: take_value_def remove_range_def shrink_range_def split_range_def Let_def and_then_Inr_iff split: if_splits)

lemma generate_frame:
  assumes "generate_token_id d t e m p = Inr (v, d')"
  shows "d' = d\<lparr>token_id_meta := token_id_meta d', available_ranges := available_ranges d', range_lengths := range_lengths d'\<rparr>"
  using assms by (auto simp: generate_token_id_def Let_def and_then_Inr_iff split: if_splits dest: take_value_frame)

lemma generate_fields:
  assumes "generate_token_id d t e m p = Inr (v, d')"
  shows "mint_keys d' = mint_keys d" "owned d' = owned d" "collection_registry d' = collection_registry d"
    "listings d' = listings d" "holdings_ok d' = holdings_ok d" "history_ok d' = history_ok d"
    "listings_ok d' = listings_ok d" "scores_le d' = scores_le d"
  by (subst generate_frame [OF assms];
      simp add: fun_eq_iff mint_keys_def owned_def holdings_ok_def history_ok_def listings_ok_def scores_le_def)+

definition next_is_sequential :: "u64 \<Rightarrow> u64 \<Rightarrow> u64 \<Rightarrow> bool" where
  "next_is_sequential m p n \<longleftrightarrow> n < p \<or> p = m"

lemma unat_ids_nat: "x \<in> set (ids_of L) \<Longrightarrow> ranges_wf m p L \<Longrightarrow> x < 2 ^ 64"
  using unat_u64_bound [of m] by (force simp: ranges_wf_def)

text \<open>A sequential mint.\<close>

lemma supply_sequential:
  assumes inv: "supply_inv d t m p n L" and n: "n < m" and seq: "next_is_sequential m p n"
  shows "\<not> owned d t (n + 1)" and "\<exists>L'. supply_inv (record_mint d t (n + 1) (n + 1) s q) t m p (n + 1) L'"
proof -
  let ?d = "record_mint d t (n + 1) (n + 1) s q"
  have un: "unat (n + 1) = unat n + 1"
    using n unat_u64_bound [of m] by (intro unat_Suc_u64) (simp add: word_less_nat_alt)
  have n1: "0 < n + 1" "n + 1 \<le> m" "n < n + 1"
    using n un by (simp_all add: word_less_nat_alt word_le_nat_alt)
  have nn: "i \<le> n + 1 \<longleftrightarrow> i \<le> n \<or> i = n + 1" for i
    using un by (auto simp: word_le_nat_alt word_unat_eq_iff)
  have fr: "ranges_fresh d t" and ow: "\<And>i. owned d t i \<longleftrightarrow> 0 < i \<and> i \<le> n"
    using inv seq by (auto simp: supply_inv_def next_is_sequential_def)
  show "\<not> owned d t (n + 1)" using n1 by (simp add: ow not_le)
  have ow': "owned ?d t i \<longleftrightarrow> 0 < i \<and> i \<le> n + 1" for i using n1 by (auto simp: ow nn)
  have fr': "ranges_fresh ?d t" using fr by (simp add: ranges_fresh_def)
  have rest: "n + 1 \<le> m \<and> p \<le> m \<and> m < - 1 \<and>
      (\<forall>k \<in> mint_keys ?d t. 0 < seq_of k \<and> seq_of k \<le> n + 1) \<and>
      (n + 1 \<noteq> 0 \<longrightarrow> (\<exists>k \<in> mint_keys ?d t. seq_of k = n + 1)) \<and>
      (\<forall>i. part_get (token_id_meta ?d) (TokenMetaKey t i) \<noteq> None \<longrightarrow> p < i \<and> owned ?d t i)"
    using inv n1 by (auto simp: supply_inv_def nn)
  show "\<exists>L'. supply_inv ?d t m p (n + 1) L'"
  proof (cases "n + 1 < p \<or> p = m")
    case True
    then show ?thesis using rest fr' ow' unfolding supply_inv_def by auto
  next
    case False
    then have pn: "p = n + 1" and pm: "p < m"
      using seq n1 rest un by (auto simp: next_is_sequential_def word_less_nat_alt word_le_nat_alt word_unat_eq_iff)
    have "owned ?d t i \<longleftrightarrow> 0 < i \<and> i \<le> m \<and> unat i \<notin> set (ids_of (initial_ranges m p))" for i
      unfolding ow' set_ids_of_initial [OF pm] using pn n1(2) by (auto simp: word_le_nat_alt)
    moreover have "length (ids_of (initial_ranges m p)) = unat m - unat (n + 1)"
      unfolding ids_of_initial [OF pm] using pn by (simp del: upt_Suc)
    ultimately have "supply_inv ?d t m p (n + 1) (initial_ranges m p)"
      using rest False tick_ranges_fresh [OF fr'] initial_ranges_wf [OF pm] unfolding supply_inv_def by auto
    then show ?thesis ..
  qed
qed

text \<open>A random mint.\<close>

lemma supply_random:
  assumes inv: "supply_inv d t m p n L" and n: "n < m" and seq: "\<not> next_is_sequential m p n"
  obtains v d1 L' where "generate_token_id d t e m p = Inr (v, d1)" and "\<not> owned d1 t v"
    and "supply_inv (record_mint d1 t v (n + 1) s q) t m p (n + 1) L'" and "same_other_ticks t d d1"
    and "p < v" and "tick_ranges d t m p L" and "ranges_wf m p L" and "L \<noteq> []"
    and "part_get (token_id_meta d) (TokenMetaKey t v) = None"
proof -
  have un: "unat (n + 1) = unat n + 1"
    using n unat_u64_bound [of m] by (intro unat_Suc_u64) (simp add: word_less_nat_alt)
  have n1: "0 < n + 1" "n + 1 \<le> m"
    using n un by (simp_all add: word_less_nat_alt word_le_nat_alt)
  have nn: "i \<le> n \<Longrightarrow> i \<le> n + 1" for i using un by (simp add: word_le_nat_alt)
  have tr: "tick_ranges d t m p L" and wf: "ranges_wf m p L" and len: "length (ids_of L) = unat m - unat n"
    and ow: "\<And>i. owned d t i \<longleftrightarrow> 0 < i \<and> i \<le> m \<and> unat i \<notin> set (ids_of L)"
    using inv seq by (auto simp: supply_inv_def next_is_sequential_def)
  have "0 < length (ids_of L)" using len n by (simp add: word_less_nat_alt)
  then have ne: "L \<noteq> []" by auto
  obtain v d1 L' where g: "generate_token_id d t e m p = Inr (v, d1)"
    and tr': "tick_ranges d1 t m p L'" and wf': "ranges_wf m p L'"
    and v: "unat v \<in> set (ids_of L)" "unat v \<notin> set (ids_of L')" "set (ids_of L) = insert (unat v) (set (ids_of L'))"
    and so: "same_other_ticks t d d1"
    using generate_step [OF tr wf ne, of e] .
  note gf = generate_fields [OF g]
  let ?d = "record_mint d1 t v (n + 1) s q"
  have vb: "p < v" "v \<le> m" "0 < v"
    using v(1) wf by (auto simp: ranges_wf_def word_less_nat_alt word_le_nat_alt word_gt_0 word_unat_eq_iff)
  have nov: "\<not> owned d1 t v" using v(1) by (simp add: gf ow)
  have "length (ids_of L) = Suc (length (ids_of L'))"
    using wf wf' v by (simp add: ranges_wf_def flip: distinct_card)
  then have len': "length (ids_of L') = unat m - unat (n + 1)" using len un by simp
  have ow': "owned ?d t i \<longleftrightarrow> 0 < i \<and> i \<le> m \<and> unat i \<notin> set (ids_of L')" for i
  proof (cases "i = v")
    case False
    then have "unat i \<noteq> unat v" by (simp add: word_unat_eq_iff)
    then show ?thesis using v False by (auto simp: gf ow)
  qed (use v vb in simp)
  have tr2: "tick_ranges ?d t m p L'" using tr' by (simp add: tick_ranges_def ranges_rep_def ranges_fresh_def)
  have nseq: "\<not> (n + 1 < p \<or> p = m)"
    using seq n1(2) un by (auto simp: next_is_sequential_def word_less_nat_alt)
  have "\<forall>i. part_get (token_id_meta ?d) (TokenMetaKey t i) \<noteq> None \<longrightarrow> p < i \<and> owned ?d t i"
  proof (intro allI impI)
    fix i assume a: "part_get (token_id_meta ?d) (TokenMetaKey t i) \<noteq> None"
    show "p < i \<and> owned ?d t i"
    proof (cases "i = v")
      case False
      then have "part_get (token_id_meta d) (TokenMetaKey t i) \<noteq> None" using a generate_meta [OF g] by simp
      then have "p < i \<and> owned d t i" using inv unfolding supply_inv_def by blast
      then show ?thesis by (simp add: gf)
    qed (simp add: vb)
  qed
  then have "supply_inv ?d t m p (n + 1) L'"
    using inv n1 nseq tr2 wf' len' ow' unfolding supply_inv_def by (auto simp: gf nn)
  moreover have "part_get (token_id_meta d) (TokenMetaKey t v) = None"
    using inv nov unfolding supply_inv_def gf by blast
  ultimately show thesis by (intro that [OF g nov _ so vb(1) tr wf ne])
qed

lemma ledger_tick: "ledger_ok d \<Longrightarrow> part_get (collection_registry d) t = Some sdi \<Longrightarrow>
   supply_ok d t (di_max (dw_info (sd_deploy_info sdi))) (di_premint (dw_info (sd_deploy_info sdi)))"
  unfolding ledger_ok_def tick_ok_def by (metis (no_types, lifting) option.simps(5))

lemma ledger_record_mint:
  assumes l: "ledger_ok d" and reg: "part_get (collection_registry d) t = Some sdi"
    and f: "mint_keys d1 = mint_keys d" "owned d1 = owned d" "collection_registry d1 = collection_registry d"
      "holdings_ok d1 = holdings_ok d" "history_ok d1 = history_ok d" "listings_ok d1 = listings_ok d"
    and so: "same_other_ticks t d d1" and no: "\<not> owned d t i"
    and sup: "supply_ok (record_mint d1 t i n s q) t (di_max (dw_info (sd_deploy_info sdi))) (di_premint (dw_info (sd_deploy_info sdi)))"
  shows "ledger_ok (record_mint d1 t i n s q)"
proof -
  have "tick_ok (record_mint d1 t i n s q) t'" for t'
  proof (cases "t' = t")
    case True
    then show ?thesis using reg sup by (simp add: tick_ok_def f)
  next
    case False
    then have "same_supply t' d (record_mint d1 t i n s q)"
      using so by (simp add: same_supply_def same_other_ticks_def f)
    then have "tick_ok (record_mint d1 t i n s q) t' = tick_ok d t'"
      by (rule same_supply_tick_ok) (simp add: f)
    then show ?thesis using l by (simp add: ledger_ok_def)
  qed
  moreover have "\<not> owned d1 t i" using no by (simp add: f)
  ultimately show ?thesis using l unfolding ledger_ok_def
    by (intro conjI allI) (simp_all add: record_mint_holdings record_mint_history record_mint_listings f)
qed

text \<open>
  What a mint does on a sound ledger: it is refused without any change, or it hands out an id that
  nobody owns and records it under the next sequence number.
\<close>

lemma process_mint_cases:
  assumes l: "ledger_ok d"
  obtains (rejected) e where "process_mint d ent s common info dep = reject d e"
  | (accepted) i d1 sdi n where
      "process_mint d ent s common info dep =
         accept (record_mint d1 (oc_tick common) i (n + 1) s (mi_to info)) i"
      and "part_get (collection_registry d) (oc_tick common) = Some sdi"
      and "n = last_seq (oc_tick common) (mint_history d)"
      and "n < di_max (dw_info (sd_deploy_info sdi))"
      and "(if next_is_sequential (di_max (dw_info (sd_deploy_info sdi))) (di_premint (dw_info (sd_deploy_info sdi))) n
            then (i, d1) = (n + 1, d)
            else generate_token_id d (oc_tick common) ent (di_max (dw_info (sd_deploy_info sdi)))
                   (di_premint (dw_info (sd_deploy_info sdi))) = Inr (i, d1))"
      and "\<not> owned d (oc_tick common) i"
      and "ledger_ok (record_mint d1 (oc_tick common) i (n + 1) s (mi_to info))"
proof -
  let ?t = "oc_tick common"
  show thesis
  proof (cases "\<exists>e. process_mint d ent s common info dep = reject d e")
    case True
    then show ?thesis using rejected by blast
  next
    case False
    then obtain sdi where reg: "part_get (collection_registry d) ?t = Some sdi"
      by (cases "part_get (collection_registry d) ?t") (auto simp: process_mint_def Let_def)
    let ?m = "di_max (dw_info (sd_deploy_info sdi))" and ?p = "di_premint (dw_info (sd_deploy_info sdi))"
    obtain n L where inv: "supply_inv d ?t ?m ?p n L" using ledger_tick [OF l reg] by (auto simp: supply_ok_def)
    have n: "n = last_seq ?t (mint_history d)" using supply_inv_last_seq [OF inv] by simp
    have bounds: "n \<le> ?m" "?p \<le> ?m" "?m < - 1" using inv by (auto simp: supply_inv_def)
    define royalty where "royalty = (if ?p > 0 \<and> n < ?p then None
        else check_royalty d ?t (mi_to info) (di_royalty (dw_info (sd_deploy_info sdi))) (mi_royalty info))"
    have pm: "process_mint d ent s common info dep =
       (if \<not> n + 1 \<le> ?m then reject d MintingFinished
        else and_then (if \<not> (?p > 0 \<and> n < ?p) \<and> ?p < ?m then generate_token_id d ?t ent ?m ?p else Inr (n + 1, d))
          (\<lambda>(token_id, d1). accept (record_mint d1 ?t token_id (n + 1) s (mi_to info)) token_id))"
      using False reg n unfolding process_mint_def Let_def last_seq_def
      by (auto simp: not_le royalty_def [symmetric] split: if_splits option.splits)
    have ok: "n + 1 \<le> ?m"
    proof (rule ccontr)
      assume "\<not> n + 1 \<le> ?m"
      then have "process_mint d ent s common info dep = reject d MintingFinished" using pm by simp
      with False show False by blast
    qed
    have un: "unat (n + 1) = unat n + 1"
    proof (rule unat_Suc_u64)
      have "unat n < unat (- 1 :: u64)" using bounds by (metis order_le_less_trans word_less_nat_alt)
      then show "unat n + 1 < 2 ^ 64" by (simp add: unat_max_u64)
    qed
    have lt: "n < ?m" using ok un by (simp add: word_le_nat_alt word_less_nat_alt)
    have seq: "\<not> (?p > 0 \<and> n < ?p) \<and> ?p < ?m \<longleftrightarrow> \<not> next_is_sequential ?m ?p n"
      using bounds lt by (auto simp: next_is_sequential_def word_gt_0)
    show ?thesis
    proof (cases "next_is_sequential ?m ?p n")
      case True
      have no: "\<not> owned d ?t (n + 1)" and "supply_ok (record_mint d ?t (n + 1) (n + 1) s (mi_to info)) ?t ?m ?p"
        using supply_sequential(1) [OF inv lt True] supply_sequential(2) [OF inv lt True, of s "mi_to info"]
        unfolding supply_ok_def by blast+
      then have "ledger_ok (record_mint d ?t (n + 1) (n + 1) s (mi_to info))"
        by (intro ledger_record_mint [OF l reg]) (simp_all add: same_other_ticks_def)
      then show ?thesis using True pm ok seq reg n lt no by (intro accepted) auto
    next
      case False
      obtain v d1 L' where g: "generate_token_id d ?t ent ?m ?p = Inr (v, d1)" and no: "\<not> owned d1 ?t v"
        and sup: "supply_inv (record_mint d1 ?t v (n + 1) s (mi_to info)) ?t ?m ?p (n + 1) L'"
        and so: "same_other_ticks ?t d d1"
        using supply_random [OF inv lt False, of ent] .
      note gf = generate_fields [OF g]
      have "ledger_ok (record_mint d1 ?t v (n + 1) s (mi_to info))"
        using no sup by (intro ledger_record_mint [OF l reg _ _ _ _ _ _ so]) (auto simp: gf supply_ok_def)
      then show ?thesis using False pm ok seq reg n lt no g by (intro accepted) (auto simp: gf)
    qed
  qed
qed

lemma process_mint_scores:
  assumes l: "ledger_ok d" and "scores_le d s" and "process_mint d ent s common info dep = Inr (r, d')"
  shows "scores_le d' s"
proof (rule process_mint_cases [OF l, of ent s common info dep])
  fix i d1 sdi n
  assume a: "process_mint d ent s common info dep = accept (record_mint d1 (oc_tick common) i (n + 1) s (mi_to info)) i"
    "if next_is_sequential (di_max (dw_info (sd_deploy_info sdi))) (di_premint (dw_info (sd_deploy_info sdi))) n
     then (i, d1) = (n + 1, d)
     else generate_token_id d (oc_tick common) ent (di_max (dw_info (sd_deploy_info sdi)))
            (di_premint (dw_info (sd_deploy_info sdi))) = Inr (i, d1)"
  then have "scores_le d1 = scores_le d" by (auto split: if_splits dest: generate_fields(8))
  with a assms show ?thesis by (auto intro: record_mint_scores)
qed (use assms in auto)

text \<open>Minting touches the token partitions only.\<close>

definition only_tokens :: "db \<Rightarrow> db \<Rightarrow> bool" where
  "only_tokens d d' \<longleftrightarrow>
     d' = d\<lparr>mint_history := mint_history d', ownership_changes := ownership_changes d',
            ownership_history := ownership_history d', current_ownership := current_ownership d',
            address_holdings := address_holdings d', available_ranges := available_ranges d',
            range_lengths := range_lengths d', token_id_meta := token_id_meta d'\<rparr>"

lemma only_tokens_refl [simp]: "only_tokens d d"
  by (simp add: only_tokens_def)

lemma only_tokens_fields:
  "only_tokens d d' \<longleftrightarrow> blockhash_to_score d' = blockhash_to_score d \<and> chain_block_scores d' = chain_block_scores d \<and>
    operation_history d' = operation_history d \<and> tx_id_to_opscore d' = tx_id_to_opscore d \<and>
    collection_deployments d' = collection_deployments d \<and> collection_registry d' = collection_registry d \<and>
    db_stats d' = db_stats d \<and> notification_queue d' = notification_queue d \<and> score_to_discount d' = score_to_discount d \<and>
    vip d' = vip d \<and> tx_id_to_rejection d' = tx_id_to_rejection d \<and> serial_to_rejected_tx_id d' = serial_to_rejected_tx_id d \<and>
    listings d' = listings d \<and> listings_by_tick d' = listings_by_tick d \<and> address_listings d' = address_listings d \<and>
    serial_rejection d' = serial_rejection d"
  unfolding only_tokens_def by (cases d; cases d') auto

lemma only_tokens_trans: "only_tokens d d1 \<Longrightarrow> only_tokens d1 d2 \<Longrightarrow> only_tokens d d2"
  by (simp add: only_tokens_fields)

lemma only_tokens_record_mint: "only_tokens d (record_mint d t i n s p)"
  by (simp add: only_tokens_fields record_mint_def)

lemma only_tokens_generate:
  assumes "generate_token_id d t e m p = Inr (v, d')"
  shows "only_tokens d d'"
  unfolding only_tokens_fields by (subst generate_frame [OF assms]; simp)+

lemma only_tokens_mint: "process_mint d ent s common info dep = Inr (r, d') \<Longrightarrow> only_tokens d d'"
  by (auto simp: process_mint_def Let_def and_then_Inr_iff split: option.splits if_splits
      intro: only_tokens_record_mint only_tokens_trans [OF only_tokens_generate only_tokens_record_mint])

lemma only_tokens_premint: "premint_loop k d s common info = Inr (r, d') \<Longrightarrow> only_tokens d d'"
proof (induction k arbitrary: d)
  case (Suc k)
  then obtain q d1 where m: "process_mint d 0 s common \<lparr>mi_token_id = 0, mi_to = di_deployer info, mi_royalty = None\<rparr> True = Inr (q, d1)"
    and c: "(case q of Inl e \<Rightarrow> reject d1 e | Inr _ \<Rightarrow> premint_loop k d1 s common info) = Inr (r, d')"
    by (auto simp: and_then_Inr_iff)
  have "only_tokens d1 d'" using c Suc.IH by (cases q) auto
  then show ?case using only_tokens_mint [OF m] only_tokens_trans by blast
qed simp

lemma generate_takes_bounds:
  assumes "tick_ranges d t m p L" "ranges_wf m p L" "L \<noteq> []" "generate_token_id d t e m p = Inr (v, d')"
  shows "p < v \<and> v \<le> m \<and> 0 < v"
proof -
  obtain v' d1 L' where "generate_token_id d t e m p = Inr (v', d1)" "unat v' \<in> set (ids_of L)"
    using generate_step [OF assms(1-3), of e] .
  then show ?thesis using assms(2,4)
    by (auto simp: ranges_wf_def word_less_nat_alt word_le_nat_alt)
qed

section \<open>Deploying\<close>

lemma process_mint_premint:
  assumes l: "ledger_ok d" and reg: "part_get (collection_registry d) (oc_tick common) = Some sdi"
    and n: "last_seq (oc_tick common) (mint_history d) = n" and np: "n < di_premint (dw_info (sd_deploy_info sdi))"
  shows "process_mint d ent s common info True =
           accept (record_mint d (oc_tick common) (n + 1) (n + 1) s (mi_to info)) (n + 1)"
    and "ledger_ok (record_mint d (oc_tick common) (n + 1) (n + 1) s (mi_to info))"
    and "last_seq (oc_tick common) (mint_history (record_mint d (oc_tick common) (n + 1) (n + 1) s (mi_to info))) = n + 1"
    and "unat (n + 1) = unat n + 1" and "\<not> owned d (oc_tick common) (n + 1)"
proof -
  let ?m = "di_max (dw_info (sd_deploy_info sdi))" and ?p = "di_premint (dw_info (sd_deploy_info sdi))"
  obtain n' L where "supply_inv d (oc_tick common) ?m ?p n' L" using ledger_tick [OF l reg] by (auto simp: supply_ok_def)
  then have inv: "supply_inv d (oc_tick common) ?m ?p n L" using supply_inv_last_seq n by blast
  have pm: "?p \<le> ?m" using inv by (simp add: supply_inv_def)
  have nm: "n < ?m" using np pm by simp
  have nis: "next_is_sequential ?m ?p n" using np by (simp add: next_is_sequential_def)
  have p0: "0 < ?p" "?m \<noteq> 0" using np nm by (auto simp: word_gt_0 intro: order_le_less_trans)
  show un: "unat (n + 1) = unat n + 1"
    using nm unat_u64_bound [of ?m] by (intro unat_Suc_u64) (simp add: word_less_nat_alt)
  have n1: "n + 1 \<le> ?m" using nm un by (simp add: word_less_nat_alt word_le_nat_alt)
  show no: "\<not> owned d (oc_tick common) (n + 1)" by (rule supply_sequential(1) [OF inv nm nis])
  obtain L' where inv': "supply_inv (record_mint d (oc_tick common) (n + 1) (n + 1) s (mi_to info)) (oc_tick common) ?m ?p (n + 1) L'"
    using supply_sequential(2) [OF inv nm nis] by blast
  show "ledger_ok (record_mint d (oc_tick common) (n + 1) (n + 1) s (mi_to info))"
    using no inv' by (intro ledger_record_mint [OF l reg]) (auto simp: same_other_ticks_def supply_ok_def)
  show "last_seq (oc_tick common) (mint_history (record_mint d (oc_tick common) (n + 1) (n + 1) s (mi_to info))) = n + 1"
    by (rule supply_inv_last_seq [OF inv'])
  show "process_mint d ent s common info True =
           accept (record_mint d (oc_tick common) (n + 1) (n + 1) s (mi_to info)) (n + 1)"
    using reg p0 np n1 n unfolding process_mint_def Let_def last_seq_def [symmetric] by (simp add: not_le [symmetric])
qed

lemma premint_loop_ok:
  assumes "ledger_ok d" and "part_get (collection_registry d) (oc_tick common) = Some sdi"
    and "dw_info (sd_deploy_info sdi) = info" and "scores_le d s"
    and "unat (last_seq (oc_tick common) (mint_history d)) + k = unat (di_premint info)"
  shows "\<exists>d'. premint_loop k d s common info = accept d' () \<and> ledger_ok d' \<and> scores_le d' s \<and>
           collection_registry d' = collection_registry d \<and>
           (\<forall>t i. part_get (current_ownership d') (OwnershipKey t i) =
              (if t = oc_tick common \<and> last_seq (oc_tick common) (mint_history d) < i \<and> i \<le> di_premint info
               then Some \<lparr>co_owner = di_deployer info, co_mod_tx_score = s\<rparr>
               else part_get (current_ownership d) (OwnershipKey t i)))"
  using assms
proof (induction k arbitrary: d)
  case 0
  then have "last_seq (oc_tick common) (mint_history d) = di_premint info" by (simp add: word_unat_eq_iff)
  with 0 show ?case by auto
next
  case (Suc k)
  let ?t = "oc_tick common"
  define n where "n = last_seq ?t (mint_history d)"
  have np: "n < di_premint (dw_info (sd_deploy_info sdi))"
    using Suc.prems(3,5) by (simp add: n_def word_less_nat_alt)
  let ?mi = "\<lparr>mi_token_id = 0, mi_to = di_deployer info, mi_royalty = None\<rparr>"
  let ?d = "record_mint d ?t (n + 1) (n + 1) s (di_deployer info)"
  note pm = process_mint_premint(1-3) [OF Suc.prems(1,2) n_def [symmetric] np, where info = ?mi and s = s, simplified]
  note un = process_mint_premint(4) [OF Suc.prems(1,2) n_def [symmetric] np]
  have "unat (last_seq ?t (mint_history ?d)) + k = unat (di_premint info)"
    using Suc.prems(5) pm(3) un by (simp add: n_def)
  from Suc.IH [OF pm(2) _ Suc.prems(3) record_mint_scores [OF Suc.prems(4)] this] Suc.prems(2)
  obtain d' where d': "premint_loop k ?d s common info = accept d' ()" "ledger_ok d'" "scores_le d' s"
    "collection_registry d' = collection_registry d"
    "\<And>t i. part_get (current_ownership d') (OwnershipKey t i) =
        (if t = ?t \<and> n + 1 < i \<and> i \<le> di_premint info then Some \<lparr>co_owner = di_deployer info, co_mod_tx_score = s\<rparr>
         else part_get (current_ownership ?d) (OwnershipKey t i))"
    using pm(3) by auto
  have ord: "n < i \<longleftrightarrow> n + 1 < i \<or> i = n + 1" for i
    using un by (auto simp: word_less_nat_alt word_unat_eq_iff)
  have "n + 1 \<le> di_premint info" using np Suc.prems(3) un by (simp add: word_less_nat_alt word_le_nat_alt)
  then have "part_get (current_ownership d') (OwnershipKey t i) =
        (if t = ?t \<and> n < i \<and> i \<le> di_premint info then Some \<lparr>co_owner = di_deployer info, co_mod_tx_score = s\<rparr>
         else part_get (current_ownership d) (OwnershipKey t i))" for t i
    unfolding d'(5) by (auto simp: ord record_mint_def)
  with d' pm(1) show ?case unfolding n_def [symmetric] by simp
qed

definition deploy_valid :: "deploy_info \<Rightarrow> bool" where
  "deploy_valid info \<longleftrightarrow> di_premint info \<le> di_max info \<and> di_max info < - 1"

lemma untouched_supply:
  assumes u: "untouched d t" and v: "p \<le> m" "m < - 1"
  shows "supply_ok d t m p"
proof (cases "0 < p \<or> p = m")
  case True
  then have "supply_inv d t m p 0 []"
    using u v by (auto simp: supply_inv_def untouched_def)
  then show ?thesis by (auto simp: supply_ok_def)
next
  case False
  then have p: "p = 0" and pm: "p < m" using v by (auto simp: word_gt_0)
  have "set (ids_of (initial_ranges m p)) = {1 .. unat m}" using pm p by (simp add: set_ids_of_initial)
  moreover have "length (ids_of (initial_ranges m p)) = unat m" using pm p by (simp add: ids_of_initial del: upt_Suc)
  ultimately have "supply_inv d t m p 0 (initial_ranges m p)"
    using u v pm False tick_ranges_fresh [of d t m p] initial_ranges_wf [OF pm]
    by (auto simp: supply_inv_def untouched_def word_le_nat_alt word_less_nat_alt)
  then show ?thesis by (auto simp: supply_ok_def)
qed

lemma scores_le_mono: "scores_le d s0 \<Longrightarrow> s0 \<le> s \<Longrightarrow> scores_le d s"
  unfolding scores_le_def by (meson order_trans)

text \<open>The registration of a tick.\<close>

lemma registered_ledger_ok:
  assumes l: "ledger_ok d" and none: "part_get (collection_registry d) t = None" and v: "deploy_valid info"
  shows "ledger_ok (d\<lparr>collection_registry := part_insert t
           \<lparr>sd_deploy_score = s, sd_deploy_info = \<lparr>dw_info = info, dw_common = common\<rparr>\<rparr> (collection_registry d),
         collection_deployments := x\<rparr>)" (is "ledger_ok ?d")
proof -
  have u: "untouched d t" using l none unfolding ledger_ok_def tick_ok_def by (metis (no_types, lifting) option.simps(4))
  have ss: "same_supply t' d ?d" for t' by (simp add: same_supply_def mint_keys_def owned_def)
  have "tick_ok ?d t'" for t'
  proof (cases "t' = t")
    case True
    have "untouched ?d t" using u same_supply_untouched [OF ss] by simp
    then show ?thesis using True v by (simp add: tick_ok_def untouched_supply deploy_valid_def)
  next
    case False
    have "tick_ok ?d t' = tick_ok d t'" by (rule same_supply_tick_ok [OF ss]) (simp add: False)
    then show ?thesis using l by (simp add: ledger_ok_def)
  qed
  then show ?thesis
    using l by (auto simp: ledger_ok_def holdings_ok_def history_ok_def listings_ok_def)
qed

lemma process_deployment_ok:
  assumes l: "ledger_ok d" and sc: "scores_le d s0" and s: "s0 < s" and v: "deploy_valid info"
  shows "(\<exists>sdi. part_get (collection_registry d) (oc_tick common) = Some sdi \<and>
            process_deployment d s common info = reject d TickExists) \<or>
         (part_get (collection_registry d) (oc_tick common) = None \<and>
          (\<exists>d'. process_deployment d s common info = accept d' () \<and> ledger_ok d' \<and> scores_le d' s \<and>
             collection_registry d' = part_insert (oc_tick common)
               \<lparr>sd_deploy_score = s, sd_deploy_info = \<lparr>dw_info = info, dw_common = common\<rparr>\<rparr> (collection_registry d) \<and>
             (\<forall>t i. part_get (current_ownership d') (OwnershipKey t i) =
              (if t = oc_tick common \<and> 0 < i \<and> i \<le> di_premint info
               then Some \<lparr>co_owner = di_deployer info, co_mod_tx_score = s\<rparr>
               else part_get (current_ownership d) (OwnershipKey t i)))))"
proof (cases "part_get (collection_registry d) (oc_tick common)")
  case (Some sdi)
  then have "sd_deploy_score sdi \<le> s0" using sc by (auto simp: scores_le_def)
  then show ?thesis using Some s by (auto simp: process_deployment_def)
next
  case None
  let ?t = "oc_tick common"
  let ?dw = "\<lparr>dw_info = info, dw_common = common\<rparr>"
  let ?sdi = "\<lparr>sd_deploy_score = s, sd_deploy_info = ?dw\<rparr>"
  let ?d = "d\<lparr>collection_registry := part_insert ?t ?sdi (collection_registry d),
              collection_deployments := part_insert (DeploymentKey s ?t) ?dw (collection_deployments d)\<rparr>"
  have u: "untouched d ?t" using l None unfolding ledger_ok_def tick_ok_def by (metis (no_types, lifting) option.simps(4))
  have l': "ledger_ok ?d" by (rule registered_ledger_ok [OF l None v])
  have sc': "scores_le ?d s" using scores_le_mono [OF sc less_imp_le [OF s]] unfolding scores_le_def by auto
  have "mint_keys d ?t = {}" using u by (simp add: untouched_def)
  then have n0: "last_seq ?t (mint_history d) = 0" by (intro last_seq_eqI) (auto simp: mint_keys_def)
  show ?thesis
  proof (cases "di_premint info > 0")
    case True
    have "unat (last_seq ?t (mint_history ?d)) + unat (di_premint info) = unat (di_premint info)" using n0 by simp
    from premint_loop_ok [OF l' _ _ sc' this, of ?sdi] obtain d' where
      "premint_loop (unat (di_premint info)) ?d s common info = accept d' ()" "ledger_ok d'" "scores_le d' s"
      "collection_registry d' = collection_registry ?d"
      "\<forall>t i. part_get (current_ownership d') (OwnershipKey t i) =
              (if t = ?t \<and> 0 < i \<and> i \<le> di_premint info then Some \<lparr>co_owner = di_deployer info, co_mod_tx_score = s\<rparr>
               else part_get (current_ownership d) (OwnershipKey t i))"
      using n0 by auto
    then show ?thesis using None True by (simp add: process_deployment_def Let_def)
  next
    case False
    then show ?thesis using None l' sc' by (auto simp: process_deployment_def Let_def word_gt_0)
  qed
qed

section \<open>Transfers, listings and sales\<close>

lemma move_ownership_ok:
  assumes l: "ledger_ok d" and sc: "scores_le d s"
    and co: "part_get (current_ownership d) (OwnershipKey t i) = Some co" and p: "co_owner co = p"
  shows "tick_ok (move_ownership d s t i p q) t'" and "holdings_ok (move_ownership d s t i p q)"
    and "history_ok (move_ownership d s t i p q)" and "scores_le (move_ownership d s t i p q) s"
proof -
  have o: "owned d t i" using co by (simp add: owned_def)
  have "tick_ok (move_ownership d s t i p q) t' = tick_ok d t'"
    by (rule same_supply_tick_ok [OF move_ownership_supply [OF o]]) simp
  then show "tick_ok (move_ownership d s t i p q) t'" using l by (simp add: ledger_ok_def)
  show "holdings_ok (move_ownership d s t i p q)" using l co p by (simp add: ledger_ok_def move_ownership_holdings)
  show "history_ok (move_ownership d s t i p q)" using l sc by (simp add: ledger_ok_def move_ownership_history scores_le_def)
  show "scores_le (move_ownership d s t i p q) s" by (rule move_ownership_scores [OF sc])
qed

lemma process_transfer_cases:
  obtains (rejected) e where "process_transfer d s common info = reject d e"
  | (accepted) co where
      "process_transfer d s common info =
         accept (move_ownership d s (oc_tick common) (ti_token_id info) (co_owner co) (ti_to info)) ()"
      and "part_get (current_ownership d) (OwnershipKey (oc_tick common) (ti_token_id info)) = Some co"
      and "co_owner co = oc_sender common"
      and "part_get (listings d) (OwnershipKey (oc_tick common) (ti_token_id info)) = None"
proof (cases "part_get (current_ownership d) (OwnershipKey (oc_tick common) (ti_token_id info))")
  case None
  then show thesis by (intro rejected) (simp add: process_transfer_def Let_def)
next
  case (Some co)
  show thesis
  proof (cases "co_owner co = oc_sender common \<and> part_get (listings d) (OwnershipKey (oc_tick common) (ti_token_id info)) = None")
    case True
    then show thesis using Some by (intro accepted [of co]) (auto simp: process_transfer_def Let_def)
  next
    case False
    then have "process_transfer d s common info =
        reject d (if co_owner co \<noteq> oc_sender common then WrongOwner else TokenIsListed)"
      using Some by (auto simp: process_transfer_def Let_def)
    then show thesis by (rule rejected)
  qed
qed

lemma process_list_cases:
  obtains (rejected) e where "process_list p2sh d s common info = reject d e"
  | (accepted) co lv where
      "process_list p2sh d s common info = accept (insert_listing d (oc_tick common) (li_token_id info) lv) ()"
      and "part_get (current_ownership d) (OwnershipKey (oc_tick common) (li_token_id info)) = Some co"
      and "co_owner co = oc_sender common"
      and "part_get (listings d) (OwnershipKey (oc_tick common) (li_token_id info)) = None"
      and "lv = \<lparr>lv_seller = oc_sender common, lv_listing_tx_id = oc_tx_id common, lv_utxo_address = li_utxo_address info,
             lv_redeem_script = li_redeem_script info, lv_op_score = s\<rparr>"
      and "p2sh (li_redeem_script info) = li_utxo_address info"
      and "part_get (collection_registry d) (oc_tick common) \<noteq> None"
proof (cases "p2sh (li_redeem_script info) = li_utxo_address info \<and> part_get (collection_registry d) (oc_tick common) \<noteq> None")
  case False
  then have "process_list p2sh d s common info =
      reject d (if p2sh (li_redeem_script info) \<noteq> li_utxo_address info then InvalidListingP2sh else TickNotFound)"
    by (auto simp: process_list_def Let_def)
  then show thesis by (rule rejected)
next
  case ok: True
  show thesis
  proof (cases "part_get (current_ownership d) (OwnershipKey (oc_tick common) (li_token_id info))")
    case None
    then show thesis using ok by (intro rejected [of TokenNotFound]) (auto simp: process_list_def Let_def)
  next
    case (Some co)
    show thesis
    proof (cases "co_owner co = oc_sender common \<and> part_get (listings d) (OwnershipKey (oc_tick common) (li_token_id info)) = None")
      case True
      then show thesis using Some ok by (intro accepted [of _ co]) (auto simp: process_list_def Let_def)
    next
      case False
      then have "process_list p2sh d s common info =
          reject d (if co_owner co \<noteq> oc_sender common then WrongOwner else TokenAlreadyListed)"
        using Some ok by (auto simp: process_list_def Let_def)
      then show thesis by (rule rejected)
    qed
  qed
qed

lemma process_send_cases:
  obtains (rejected) e where "process_send d s common info = reject d e"
  | (accepted) lv where
      "process_send d s common info =
         accept (remove_listing (case si_buyer info of
                    Some b \<Rightarrow> move_ownership d s (oc_tick common) (si_token_id info) (lv_seller lv) b | None \<Rightarrow> d)
                   (oc_tick common) (si_token_id info) (lv_seller lv)) ()"
      and "part_get (listings d) (OwnershipKey (oc_tick common) (si_token_id info)) = Some lv"
      and "lv_listing_tx_id lv = si_listing_utxo_txid info"
proof (cases "part_get (listings d) (OwnershipKey (oc_tick common) (si_token_id info))")
  case None
  then show thesis by (intro rejected) (simp add: process_send_def Let_def)
next
  case (Some lv)
  show thesis
  proof (cases "lv_listing_tx_id lv = si_listing_utxo_txid info")
    case True
    then show thesis using Some by (intro accepted) (simp_all add: process_send_def Let_def)
  next
    case False
    then show thesis using Some by (intro rejected) (auto simp: process_send_def Let_def)
  qed
qed

lemma process_discount_cases:
  obtains (rejected) e where "process_discount d s common info = reject d e"
  | (accepted) sdi where
      "process_discount d s common info =
         accept (d\<lparr>score_to_discount := part_insert (ScoredDiscountKey s (oc_tick common) (dc_to info)) (dc_fee info)
                    (score_to_discount d),
                  vip := part_insert (VipKey (dc_to info) (oc_tick common) (rev_u64 s) (dc_fee info)) () (vip d)\<rparr>) ()"
      and "part_get (collection_registry d) (oc_tick common) = Some sdi"
      and "di_deployer (dw_info (sd_deploy_info sdi)) = oc_sender common"
      and "dc_fee info < royalty_or_zero (di_royalty (dw_info (sd_deploy_info sdi)))"
proof (cases "part_get (collection_registry d) (oc_tick common)")
  case None
  then show thesis by (intro rejected) (simp add: process_discount_def)
next
  case (Some sdi)
  let ?di = "dw_info (sd_deploy_info sdi)"
  show thesis
  proof (cases "di_deployer ?di = oc_sender common \<and> dc_fee info < royalty_or_zero (di_royalty ?di)")
    case True
    then show thesis using Some
      by (intro accepted [of sdi]) (auto simp: process_discount_def Let_def royalty_or_zero_def simp flip: not_less)
  next
    case False
    then have "process_discount d s common info =
        reject d (if di_deployer ?di \<noteq> oc_sender common then WrongDeployer else DiscountFeeOverflow)"
      using Some by (auto simp: process_discount_def Let_def royalty_or_zero_def not_less)
    then show thesis by (rule rejected)
  qed
qed

lemma process_transfer_ok:
  assumes l: "ledger_ok d" and sc: "scores_le d s" and r: "process_transfer d s common info = Inr (r, d')"
  shows "ledger_ok d'" and "scores_le d' s"
proof -
  have "ledger_ok d' \<and> scores_le d' s"
  proof (cases rule: process_transfer_cases [of d s common info])
    case (accepted co)
    let ?d = "move_ownership d s (oc_tick common) (ti_token_id info) (co_owner co) (ti_to info)"
    have d': "d' = ?d" using accepted(1) r by simp
    have "listings_ok ?d"
    proof -
      have "listings_ok d" using l by (simp add: ledger_ok_def)
      then show ?thesis using accepted(4) unfolding listings_ok_def by (auto simp: move_ownership_def)
    qed
    then show ?thesis
      using move_ownership_ok [OF l sc accepted(2) refl] unfolding d' ledger_ok_def by blast
  qed (use l sc r in simp)
  then show "ledger_ok d'" "scores_le d' s" by auto
qed

lemma process_discount_ok:
  assumes l: "ledger_ok d" and sc: "scores_le d s" and r: "process_discount d s common info = Inr (r, d')"
  shows "ledger_ok d'" and "scores_le d' s"
proof -
  have "ledger_ok d' \<and> scores_le d' s"
  proof (cases rule: process_discount_cases [of d s common info])
    case (accepted sdi)
    define x y where "x = score_to_discount d'" and "y = vip d'"
    have d': "d' = d\<lparr>score_to_discount := x, vip := y\<rparr>" using accepted(1) r by (simp add: x_def y_def)
    have "same_tokens d d'" "listings_ok d' = listings_ok d" "scores_le d' s = scores_le d s"
      unfolding d' by (simp_all add: same_tokens_def listings_ok_def scores_le_def)
    then show ?thesis using l sc by (simp add: ledger_ok_def same_tokens_inv)
  qed (use l sc r in simp)
  then show "ledger_ok d'" "scores_le d' s" by auto
qed

lemma process_list_ok:
  assumes l: "ledger_ok d" and sc: "scores_le d s" and r: "process_list p2sh d s common info = Inr (r, d')"
  shows "ledger_ok d'" and "scores_le d' s"
proof -
  have "ledger_ok d' \<and> scores_le d' s"
  proof (cases rule: process_list_cases [of p2sh d s common info])
    case (accepted co lv)
    have d': "d' = insert_listing d (oc_tick common) (li_token_id info) lv" using accepted(1) r by simp
    have "scores_le d' s" using sc accepted(5) unfolding d' scores_le_def by (auto simp: insert_listing_def)
    moreover have "listings_ok d" using l by (simp add: ledger_ok_def)
    then have "listings_ok d'"
      unfolding d' using accepted(5,3) by (intro insert_listing_listings [OF _ accepted(4,2)]) simp_all
    ultimately show ?thesis
      using l unfolding d' by (simp add: ledger_ok_def same_tokens_inv [OF insert_listing_tokens])
  qed (use l sc r in simp)
  then show "ledger_ok d'" "scores_le d' s" by auto
qed

lemma process_send_ok:
  assumes l: "ledger_ok d" and sc: "scores_le d s" and r: "process_send d s common info = Inr (r, d')"
  shows "ledger_ok d'" and "scores_le d' s"
proof -
  have "ledger_ok d' \<and> scores_le d' s"
  proof (cases rule: process_send_cases [of d s common info])
    case (accepted lv)
    let ?t = "oc_tick common" and ?i = "si_token_id info"
    define d1 where "d1 = (case si_buyer info of Some b \<Rightarrow> move_ownership d s ?t ?i (lv_seller lv) b | None \<Rightarrow> d)"
    have d': "d' = remove_listing d1 ?t ?i (lv_seller lv)" using accepted(1) r by (simp add: d1_def)
    have lo: "listings_ok d" using l by (simp add: ledger_ok_def)
    obtain s0 where co: "part_get (current_ownership d) (OwnershipKey ?t ?i) = Some \<lparr>co_owner = lv_seller lv, co_mod_tx_score = s0\<rparr>"
      using lo accepted(2) unfolding listings_ok_def by blast
    have d1: "tick_ok d1 t'" "holdings_ok d1" "history_ok d1" "scores_le d1 s" for t'
      using l sc move_ownership_ok [OF l sc co, simplified]
      by (auto simp: d1_def ledger_ok_def split: option.split)
    have e: "listings d1 = listings d" "listings_by_tick d1 = listings_by_tick d" "address_listings d1 = address_listings d"
      by (simp_all add: d1_def split: option.split)
    have "part_get (current_ownership d1) (OwnershipKey t' j) = part_get (current_ownership d) (OwnershipKey t' j)"
      if "(t', j) \<noteq> (?t, ?i)" for t' j
      using that by (auto simp: d1_def move_ownership_def split: option.split)
    then have "listings_ok d'"
      unfolding d' by (intro remove_listing_listings [OF lo accepted(2) refl e]) blast
    moreover have "scores_le d' s" using d1(4) unfolding d' scores_le_def by (auto simp: remove_listing_def split: if_splits)
    ultimately show ?thesis using d1(1-3)
      unfolding d' ledger_ok_def by (auto simp: same_tokens_inv [OF remove_listing_tokens])
  qed (use l sc r in simp)
  then show "ledger_ok d'" "scores_le d' s" by auto
qed

end
