(* ===== verification/Batches.thy ===== *)
theory Batches
  imports Ledger
begin

text \<open>
  Batches of operations: the dispatch, the operation history and the processing of merge sets keep the
  ledger sound and never abort, as long as the scores grow. The abstract ledger says what a client
  sees (who owns a token, what is for sale, which ticks exist); one operation of the code is one step
  of it.
\<close>

section \<open>One operation\<close>

definition op_valid :: "operation \<Rightarrow> bool" where
  "op_valid op = (case op_info op of Deploy info \<Rightarrow> deploy_valid info | _ \<Rightarrow> True)"

lemma handlers_total:
  "\<exists>r d'. process_transfer d s common ti = Inr (r, d')"
  "\<exists>r d'. process_discount d s common dc = Inr (r, d')"
  "\<exists>r d'. process_list p2sh d s common li = Inr (r, d')"
  "\<exists>r d'. process_send d s common si = Inr (r, d')"
proof -
  show "\<exists>r d'. process_transfer d s common ti = Inr (r, d')"
    by (cases rule: process_transfer_cases [of d s common ti]) auto
  show "\<exists>r d'. process_discount d s common dc = Inr (r, d')"
    by (cases rule: process_discount_cases [of d s common dc]) auto
  show "\<exists>r d'. process_list p2sh d s common li = Inr (r, d')"
    by (cases rule: process_list_cases [of p2sh d s common li]) auto
  show "\<exists>r d'. process_send d s common si = Inr (r, d')"
    by (cases rule: process_send_cases [of d s common si]) auto
qed

text \<open>A refused operation changes nothing.\<close>

lemma rejected_unchanged:
  "process_transfer d s common ti = Inr (Inl e, d') \<Longrightarrow> d' = d"
  "process_discount d s common dc = Inr (Inl e, d') \<Longrightarrow> d' = d"
  "process_list p2sh d s common li = Inr (Inl e, d') \<Longrightarrow> d' = d"
  "process_send d s common si = Inr (Inl e, d') \<Longrightarrow> d' = d"
proof -
  show "process_transfer d s common ti = Inr (Inl e, d') \<Longrightarrow> d' = d"
    by (cases rule: process_transfer_cases [of d s common ti]) auto
  show "process_discount d s common dc = Inr (Inl e, d') \<Longrightarrow> d' = d"
    by (cases rule: process_discount_cases [of d s common dc]) auto
  show "process_list p2sh d s common li = Inr (Inl e, d') \<Longrightarrow> d' = d"
    by (cases rule: process_list_cases [of p2sh d s common li]) auto
  show "process_send d s common si = Inr (Inl e, d') \<Longrightarrow> d' = d"
    by (cases rule: process_send_cases [of d s common si]) auto
qed

lemma process_mint_rejected:
  assumes "process_mint d ent s common info dep = Inr (Inl e, d')"
  shows "d' = d"
  using assms by (auto simp: process_mint_def Let_def and_then_Inr_iff split: option.splits if_splits)

lemma process_mint_total:
  assumes "ledger_ok d"
  shows "\<exists>r d'. process_mint d ent s common info dep = Inr (r, d')"
  by (cases rule: process_mint_cases [OF assms, of ent s common info dep]) auto

lemma process_mint_ok:
  assumes l: "ledger_ok d" and r: "process_mint d ent s common info dep = Inr (r, d')"
  shows "ledger_ok d'"
  using r l by (cases rule: process_mint_cases [OF l, of ent s common info dep]) auto

lemma apply_operation_ok:
  assumes l: "ledger_ok d" and sc: "scores_le d s0" and s: "s0 < s" and v: "op_valid op"
  shows "\<exists>err op' diff' d'. apply_operation p2sh d ent s op diff = Inr (err, op', diff', d') \<and>
           ledger_ok d' \<and> scores_le d' s \<and> (err \<noteq> None \<longrightarrow> d' = d \<and> op' = op) \<and> op_common op' = op_common op"
proof -
  have sc': "scores_le d s" using scores_le_mono [OF sc] s by simp
  show ?thesis
  proof (cases "op_info op")
    case (Deploy info)
    then have "deploy_valid info" using v by (simp add: op_valid_def)
    from process_deployment_ok [OF l sc s this, of "op_common op"] show ?thesis
      using Deploy l sc' by (auto simp: apply_operation_def Let_def)
  next
    case (Mint info)
    obtain r d' where r: "process_mint d ent s (op_common op) info False = Inr (r, d')"
      using process_mint_total [OF l] by blast
    note ok = process_mint_ok [OF l r] process_mint_scores [OF l sc' r]
    show ?thesis using Mint r ok process_mint_rejected
      by (cases r) (auto simp: apply_operation_def Let_def)
  next
    case (Transfer info)
    obtain r d' where r: "process_transfer d s (op_common op) info = Inr (r, d')" using handlers_total(1) by blast
    note ok = process_transfer_ok [OF l sc' r]
    show ?thesis using Transfer r ok rejected_unchanged(1) by (cases r) (auto simp: apply_operation_def Let_def)
  next
    case (Discount info)
    obtain r d' where r: "process_discount d s (op_common op) info = Inr (r, d')" using handlers_total(2) by blast
    note ok = process_discount_ok [OF l sc' r]
    show ?thesis using Discount r ok rejected_unchanged(2) by (cases r) (auto simp: apply_operation_def Let_def)
  next
    case (Listing info)
    obtain r d' where r: "process_list p2sh d s (op_common op) info = Inr (r, d')" using handlers_total(3) by blast
    note ok = process_list_ok [OF l sc' r]
    show ?thesis using Listing r ok rejected_unchanged(3) by (cases r) (auto simp: apply_operation_def Let_def)
  next
    case (Send info)
    obtain r d' where r: "process_send d s (op_common op) info = Inr (r, d')" using handlers_total(4) by blast
    note ok = process_send_ok [OF l sc' r]
    show ?thesis using Send r ok rejected_unchanged(4) by (cases r) (auto simp: apply_operation_def Let_def)
  qed
qed

lemma record_operation_ledger [simp]:
  "ledger_ok (record_operation d s op err) = ledger_ok d"
  "scores_le (record_operation d s op err) s' = scores_le d s'"
proof -
  have "same_tokens d (record_operation d s op err)" by (simp add: same_tokens_def record_operation_def)
  then show "ledger_ok (record_operation d s op err) = ledger_ok d"
    by (auto simp: ledger_ok_def same_tokens_inv) (simp_all add: listings_ok_def record_operation_def)
  show "scores_le (record_operation d s op err) s' = scores_le d s'"
    by (simp add: scores_le_def record_operation_def)
qed

section \<open>Batches\<close>

lemma process_nft_operations_ok:
  assumes "ledger_ok d" "scores_le d s0" "sorted_wrt (<) (s0 # map cx_tx_score cxs)"
    "\<forall>cx \<in> set cxs. op_valid (cx_operation cx)"
  shows "\<exists>diff' d'. process_nft_operations p2sh d cxs diff = Inr (diff', d') \<and> ledger_ok d' \<and>
           scores_le d' (last (s0 # map cx_tx_score cxs))"
  using assms
proof (induction cxs arbitrary: d s0 diff)
  case Nil
  then show ?case by simp
next
  case (Cons cx cxs)
  have s: "s0 < cx_tx_score cx" and v: "op_valid (cx_operation cx)" using Cons.prems by auto
  obtain err op' diff1 d1 where a:
    "apply_operation p2sh d (cx_mergeset_entropy cx) (cx_tx_score cx) (cx_operation cx) diff = Inr (err, op', diff1, d1)"
    "ledger_ok d1" "scores_le d1 (cx_tx_score cx)"
    using apply_operation_ok [OF Cons.prems(1,2) s v] by blast
  let ?d = "record_operation d1 (cx_tx_score cx) op' err"
  have "\<exists>diff' d'. process_nft_operations p2sh ?d cxs diff1 = Inr (diff', d') \<and> ledger_ok d' \<and>
           scores_le d' (last (cx_tx_score cx # map cx_tx_score cxs))"
    by (rule Cons.IH) (use Cons.prems(3,4) a in auto)
  then show ?case using a(1) by simp
qed

section \<open>Merge sets\<close>

definition position_score :: "u64 \<Rightarrow> mergeset \<Rightarrow> mergeset_operation \<Rightarrow> u64" where
  "position_score msl m o1 = calculate_tx_score msl (ms_blue_score m) (mo_block_index_within_mergeset o1)
     (mo_index_within_merged_block o1)"

definition mergeset_scores :: "u64 \<Rightarrow> mergeset \<Rightarrow> u64 list" where
  "mergeset_scores msl m = map (position_score msl m) (ms_operations m)"

text \<open>The operations of the batch come in the order of their scores, all above those of the database.\<close>

definition batch_ordered :: "u64 \<Rightarrow> u64 \<Rightarrow> mergeset list \<Rightarrow> bool" where
  "batch_ordered msl s0 ms = sorted_wrt (<) (s0 # concat (map (mergeset_scores msl) ms))"

definition batch_valid :: "mergeset list \<Rightarrow> bool" where
  "batch_valid ms = (\<forall>m \<in> set ms. \<forall>o1 \<in> set (ms_operations m). op_valid (mo_operation o1))"

lemma scored_operations_scores:
  "map cx_tx_score (scored_operations msl d m) = map (position_score msl m)
     (filter (\<lambda>o1. part_get (tx_id_to_opscore d) (oc_tx_id (op_common (mo_operation o1))) = None) (ms_operations m))"
  by (simp add: scored_operations_def position_score_def)

lemma sorted_wrt_map_filter: "sorted_wrt R (map f xs) \<Longrightarrow> sorted_wrt R (map f (filter P xs))"
  by (induction xs) auto

lemma last_in_bound: "sorted_wrt (<) (s0 # xs) \<Longrightarrow> set ys \<subseteq> set xs \<Longrightarrow> last (s0 # ys) \<in> insert s0 (set xs)"
  by (cases ys rule: rev_cases) auto

lemma chain_state_ledger [simp]:
  "ledger_ok (d\<lparr>chain_block_scores := x, blockhash_to_score := y\<rparr>) = ledger_ok d"
  "ledger_ok (d\<lparr>chain_block_scores := x\<rparr>) = ledger_ok d"
  "scores_le (d\<lparr>chain_block_scores := x, blockhash_to_score := y\<rparr>) s = scores_le d s"
  "scores_le (d\<lparr>chain_block_scores := x\<rparr>) s = scores_le d s"
proof -
  have t: "same_tokens d (d\<lparr>chain_block_scores := x, blockhash_to_score := y\<rparr>)" "same_tokens d (d\<lparr>chain_block_scores := x\<rparr>)"
    by (simp_all add: same_tokens_def)
  show "ledger_ok (d\<lparr>chain_block_scores := x, blockhash_to_score := y\<rparr>) = ledger_ok d"
    "ledger_ok (d\<lparr>chain_block_scores := x\<rparr>) = ledger_ok d"
    using t by (simp_all add: ledger_ok_def same_tokens_inv listings_ok_def)
qed (simp_all add: scores_le_def)

lemma add_mergeset_ok:
  assumes l: "ledger_ok d" and sc: "scores_le d s0"
    and o: "sorted_wrt (<) (s0 # mergeset_scores msl m)" and v: "batch_valid [m]"
  shows "\<exists>diff' d'. add_mergeset msl p2sh b d m diff = Inr (diff', d') \<and> ledger_ok d' \<and>
           scores_le d' (last (s0 # mergeset_scores msl m))"
proof -
  have last_ge: "s0 \<le> last (s0 # mergeset_scores msl m)"
    using o by (cases "mergeset_scores msl m" rule: rev_cases) auto
  obtain ins cbs where i: "part_insert_if_not_exist (BlueScoredChainBlockHash (ms_blue_score m) (ms_accepted_chain_block_hash m)) ()
      (chain_block_scores d) = (ins, cbs)" by fastforce
  show ?thesis
  proof (cases "ms_blue_score m < b \<or> \<not> ins")
    case True
    then show ?thesis using l scores_le_mono [OF sc last_ge] i by (auto simp: add_mergeset_def)
  next
    case False
    define d2 where "d2 = d\<lparr>chain_block_scores := cbs,
      blockhash_to_score := part_insert (ms_accepted_chain_block_hash m) (ms_blue_score m) (blockhash_to_score d)\<rparr>"
    let ?cxs = "scored_operations msl d2 m"
    have sub: "set (map cx_tx_score ?cxs) \<subseteq> set (mergeset_scores msl m)"
      by (auto simp: scored_operations_scores mergeset_scores_def)
    have so: "sorted_wrt (<) (s0 # map cx_tx_score ?cxs)"
      using o sub by (auto simp: scored_operations_scores mergeset_scores_def intro: sorted_wrt_map_filter)
    have va: "\<forall>cx \<in> set ?cxs. op_valid (cx_operation cx)"
      using v by (auto simp: scored_operations_def batch_valid_def)
    have l2: "ledger_ok d2" "scores_le d2 s0" using l sc by (simp_all add: d2_def)
    obtain diff' d' where r: "process_nft_operations p2sh d2 ?cxs stats_default = Inr (diff', d')" "ledger_ok d'"
      "scores_le d' (last (s0 # map cx_tx_score ?cxs))"
      using process_nft_operations_ok [OF l2 so va] by blast
    have "last (s0 # map cx_tx_score ?cxs) \<le> last (s0 # mergeset_scores msl m)"
    proof -
      have "last (s0 # map cx_tx_score ?cxs) \<in> set (s0 # mergeset_scores msl m)"
        using last_in_bound [OF o sub] by simp
      then show ?thesis using o
        by (cases "mergeset_scores msl m" rule: rev_cases) (auto simp: sorted_wrt_append less_imp_le)
    qed
    then show ?thesis using False i r scores_le_mono by (auto simp: add_mergeset_def d2_def)
  qed
qed

lemma add_mergesets_ok:
  assumes "ledger_ok d" "scores_le d s0" "batch_ordered msl s0 ms" "batch_valid ms"
  shows "\<exists>diff' d'. add_mergesets msl p2sh b d ms diff = Inr (diff', d') \<and> ledger_ok d' \<and>
           scores_le d' (last (s0 # concat (map (mergeset_scores msl) ms)))"
  using assms
proof (induction ms arbitrary: d s0 diff)
  case Nil
  then show ?case by simp
next
  case (Cons m ms)
  let ?xs = "mergeset_scores msl m" and ?ys = "concat (map (mergeset_scores msl) ms)"
  have o: "sorted_wrt (<) (s0 # ?xs @ ?ys)" using Cons.prems(3) by (simp add: batch_ordered_def)
  have o1: "sorted_wrt (<) (s0 # ?xs)" using o by (auto simp: sorted_wrt_append)
  have o2: "sorted_wrt (<) (last (s0 # ?xs) # ?ys)"
    using o by (cases ?xs rule: rev_cases) (auto simp: sorted_wrt_append)
  have v1: "batch_valid [m]" using Cons.prems(4) by (simp add: batch_valid_def)
  obtain diff1 d1 where a: "add_mergeset msl p2sh b d m diff = Inr (diff1, d1)" "ledger_ok d1"
    "scores_le d1 (last (s0 # ?xs))"
    using add_mergeset_ok [OF Cons.prems(1,2) o1 v1, of p2sh b diff] by blast
  have "\<exists>diff' d'. add_mergesets msl p2sh b d1 ms diff1 = Inr (diff', d') \<and> ledger_ok d' \<and>
      scores_le d' (last (last (s0 # ?xs) # ?ys))"
    by (rule Cons.IH [OF a(2,3)]) (use o2 Cons.prems(4) in \<open>auto simp: batch_ordered_def batch_valid_def\<close>)
  moreover have "last (last (s0 # ?xs) # ?ys) = last (s0 # ?xs @ ?ys)" by (cases ?ys) auto
  ultimately show ?case using a(1) by auto
qed

text \<open>Several batches one after the other, as the tasks hand them to the processor while no block is removed.\<close>

fun process_batches :: "u64 \<Rightarrow> (bytes \<Rightarrow> spk) \<Rightarrow> db \<Rightarrow> mergeset list list \<Rightarrow> db res" where
  "process_batches msl p2sh d [] = Inr d"
| "process_batches msl p2sh d (ms # bs) =
     and_then (process_additions msl p2sh d ms) (\<lambda>(_, d1). process_batches msl p2sh d1 bs)"

lemma process_batches_ok:
  assumes "ledger_ok d" "scores_le d s0" "batch_ordered msl s0 (concat bs)" "batch_valid (concat bs)"
  shows "\<exists>d'. process_batches msl p2sh d bs = Inr d' \<and> ledger_ok d'"
  using assms
proof (induction bs arbitrary: d s0)
  case (Cons ms bs)
  let ?xs = "concat (map (mergeset_scores msl) ms)" and ?ys = "concat (map (mergeset_scores msl) (concat bs))"
  have o: "sorted_wrt (<) (s0 # ?xs @ ?ys)" using Cons.prems(3) by (simp add: batch_ordered_def)
  have o1: "batch_ordered msl s0 ms" using o by (auto simp: batch_ordered_def sorted_wrt_append)
  have o2: "batch_ordered msl (last (s0 # ?xs)) (concat bs)" unfolding batch_ordered_def
    using o by (cases ?xs rule: rev_cases) (auto simp: sorted_wrt_append)
  have v: "batch_valid ms" "batch_valid (concat bs)" using Cons.prems(4) by (auto simp: batch_valid_def)
  obtain diff1 d1 where a: "process_additions msl p2sh d ms = Inr (diff1, d1)" "ledger_ok d1" "scores_le d1 (last (s0 # ?xs))"
    using add_mergesets_ok [OF Cons.prems(1,2) o1 v(1), of p2sh _ stats_default] unfolding process_additions_def Let_def by blast
  from Cons.IH [OF a(2,3) o2 v(2)] a(1) show ?case by simp
qed simp

section \<open>The empty database and a small batch\<close>

lemma get_db_empty [simp]:
  "part_get (collection_registry db_empty) t = None" "part_get (current_ownership db_empty) k = None"
  "part_get (address_holdings db_empty) h = None" "part_get (listings db_empty) k = None"
  "part_get (listings_by_tick db_empty) l = None" "part_get (address_listings db_empty) h = None"
  "part_get (token_id_meta db_empty) m = None" "mint_history db_empty = part_empty"
  "ownership_history db_empty = part_empty"
  by (simp_all add: db_empty_def)

lemma ledger_ok_empty [simp]: "ledger_ok db_empty"
proof -
  have "last_owner_with_tx_mod_score k part_empty = None" for k by (simp add: last_owner_None_iff)
  then show ?thesis
    by (simp add: ledger_ok_def tick_ok_def untouched_def mint_keys_def part_keys_def owned_def holdings_ok_def
        history_ok_def listings_ok_def)
qed

lemma scores_le_empty [simp]: "scores_le db_empty s"
  by (simp add: scores_le_def part_keys_def)

definition spk_A :: spk where "spk_A = Spk 0 [1]"
definition spk_B :: spk where "spk_B = Spk 0 [2]"

definition deploy_A :: deploy_info where
  "deploy_A = \<lparr>di_metadata = Remote [], di_max = 5, di_deployer = spk_A, di_royalty = None,
     di_mint_start_daa = 0, di_premint = 2\<rparr>"

definition common_A :: "hash \<Rightarrow> spk \<Rightarrow> operation_common" where
  "common_A txid sender = \<lparr>oc_tick = tick_A, oc_tx_id = txid, oc_block_time = 0, oc_sender = sender, oc_fee = 0,
     oc_accepting_block_daa_score = 7\<rparr>"

definition cx_deploy :: context_operation where
  "cx_deploy = \<lparr>cx_tx_score = 10, cx_operation = \<lparr>op_common = common_A 1 spk_A, op_info = Deploy deploy_A\<rparr>,
     cx_mergeset_entropy = 0\<rparr>"

definition cx_mint :: context_operation where
  "cx_mint = \<lparr>cx_tx_score = 20, cx_operation = \<lparr>op_common = common_A 2 spk_B,
       op_info = Mint \<lparr>mi_token_id = 0, mi_to = spk_B, mi_royalty = None\<rparr>\<rparr>, cx_mergeset_entropy = 7\<rparr>"

definition batch_A :: "mergeset list" where
  "batch_A = [\<lparr>ms_operations = [\<lparr>mo_block_index_within_mergeset = 0, mo_index_within_merged_block = 1,
                  mo_operation = cx_operation cx_deploy\<rparr>],
       ms_entropy = 3, ms_blue_score = 4, ms_accepted_chain_block_hash = 9\<rparr>,
     \<lparr>ms_operations = [\<lparr>mo_block_index_within_mergeset = 1, mo_index_within_merged_block = 0,
                  mo_operation = cx_operation cx_mint\<rparr>],
       ms_entropy = 8, ms_blue_score = 5, ms_accepted_chain_block_hash = 11\<rparr>]"

lemma deploy_A_valid [simp]: "deploy_valid deploy_A"
  by (simp add: deploy_valid_def deploy_A_def)

section \<open>Properties\<close>

text \<open>Operations applied in increasing score order to a sound ledger never abort, and leave it sound: the
  holdings and the histories mirror the owners, a listed token is owned by its seller, and the ids of every
  tick are split between the minted and the available ones.\<close>

theorem process_nft_operations_sound:
  assumes "ledger_ok d" and "scores_le d s0" and "sorted_wrt (<) (s0 # map cx_tx_score cxs)"
    and "\<forall>cx \<in> set cxs. op_valid (cx_operation cx)"
  shows "\<exists>diff' d'. process_nft_operations p2sh d cxs diff = Inr (diff', d') \<and> ledger_ok d' \<and>
           scores_le d' (last (s0 # map cx_tx_score cxs))"
  using assms by (rule process_nft_operations_ok)

theorem process_nft_operations_sound_witness:
  "\<exists>diff' d'. process_nft_operations (\<lambda>_. spk_A) db_empty [cx_deploy, cx_mint] stats_default = Inr (diff', d') \<and>
     ledger_ok d' \<and> scores_le d' (last (0 # map cx_tx_score [cx_deploy, cx_mint]))"
  by (rule process_nft_operations_sound) (simp_all add: cx_deploy_def cx_mint_def op_valid_def)

text \<open>C3: Processing merge sets whose operations come in score order, above the scores of the database, never
  aborts and leaves the ledger sound, whatever merge sets are skipped as already accepted.\<close>

theorem process_additions_sound:
  assumes "ledger_ok d" and "scores_le d s0" and "batch_ordered msl s0 ms" and "batch_valid ms"
  shows "\<exists>diff' d'. process_additions msl p2sh d ms = Inr (diff', d') \<and> ledger_ok d' \<and>
           scores_le d' (last (s0 # concat (map (mergeset_scores msl) ms)))"
  unfolding process_additions_def Let_def using assms by (rule add_mergesets_ok)

theorem process_additions_sound_witness:
  "\<exists>diff' d'. process_additions 248 (\<lambda>_. spk_A) db_empty batch_A = Inr (diff', d') \<and> ledger_ok d' \<and>
     scores_le d' (last (0 # concat (map (mergeset_scores 248) batch_A)))"
  by (rule process_additions_sound)
    (simp_all add: batch_ordered_def batch_valid_def batch_A_def mergeset_scores_def position_score_def
      calculate_tx_score_def BLOCK_TX_CAPACITY_def cx_deploy_def cx_mint_def op_valid_def)

end
