(* ===== verification/ApiText.thy ===== *)
theory ApiText
  imports Model
begin

text \<open>
  The texts of the API (\<^verbatim>\<open>core/src/model/krc721/model.rs\<close>, \<^verbatim>\<open>data.rs\<close>): decimal integers as the standard
  library writes and reads them, the ranges of available token ids with the capacity that the
  serialiser reserves, and the page offset of a tick and a token. Characters are Unicode scalar values.
\<close>

section \<open>Decimal integers\<close>

text \<open>\<^verbatim>\<open>u64::to_string\<close>, \<^verbatim>\<open>u64::ilog10\<close> (a panic at zero), and \<^verbatim>\<open>u64::from_str\<close> of the standard library.\<close>

fun dec_digits :: "nat \<Rightarrow> ustring" where
  "dec_digits n = (if n < 10 then [48 + n] else dec_digits (n div 10) @ [48 + n mod 10])"

declare dec_digits.simps [simp del]

definition u64_to_string :: "u64 \<Rightarrow> ustring" where
  "u64_to_string x = dec_digits (unat x)"

fun log10 :: "nat \<Rightarrow> nat" where
  "log10 n = (if n < 10 then 0 else Suc (log10 (n div 10)))"

declare log10.simps [simp del]

definition ilog10 :: "u64 \<Rightarrow> nat res" where
  "ilog10 x = (if x = 0 then Inl (Panic ''argument of integer logarithm must be positive'') else Inr (log10 (unat x)))"

fun parse_digits :: "nat \<Rightarrow> ustring \<Rightarrow> nat option" where
  "parse_digits acc [] = Some acc"
| "parse_digits acc (c # cs) =
     (if 48 \<le> c \<and> c \<le> 57 \<and> acc * 10 + (c - 48) < 2 ^ 64 then parse_digits (acc * 10 + (c - 48)) cs else None)"

definition u64_from_str :: "ustring \<Rightarrow> u64 option" where
  "u64_from_str s =
     (let ds = (case s of [] \<Rightarrow> [] | c # cs \<Rightarrow> if c = 43 then cs else s) in
      if ds = [] then None else map_option word_of_nat (parse_digits 0 ds))"

lemma dec_digits_chars: "c \<in> set (dec_digits n) \<Longrightarrow> 48 \<le> c \<and> c \<le> 57"
  by (induction n rule: dec_digits.induct) (subst (asm) (2) dec_digits.simps, auto split: if_splits)

lemma dec_digits_ne [simp]: "dec_digits n \<noteq> []"
  by (subst dec_digits.simps) simp

lemma length_dec_digits: "length (dec_digits n) = log10 n + 1"
  by (induction n rule: dec_digits.induct) (subst dec_digits.simps, subst log10.simps, simp)

lemma parse_digits_append:
  "parse_digits acc (cs @ ds) = Option.bind (parse_digits acc cs) (\<lambda>a. parse_digits a ds)"
  by (induction acc cs rule: parse_digits.induct) auto

lemma parse_dec_digits: "n < 2 ^ 64 \<Longrightarrow> parse_digits 0 (dec_digits n) = Some n"
proof (induction n rule: dec_digits.induct)
  case (1 n)
  show ?case
  proof (cases "n < 10")
    case True
    then show ?thesis using 1(2) by (subst dec_digits.simps) simp
  next
    case False
    then have "parse_digits 0 (dec_digits (n div 10)) = Some (n div 10)" using 1 by simp
    moreover have "n div 10 * 10 + n mod 10 = n" by simp
    ultimately show ?thesis using False 1(2)
      by (subst dec_digits.simps) (simp add: parse_digits_append)
  qed
qed

lemma u64_text [simp]: "u64_from_str (u64_to_string x) = Some x"
proof -
  obtain c cs where d: "dec_digits (unat x) = c # cs" by (cases "dec_digits (unat x)") auto
  then have "c \<noteq> 43" using dec_digits_chars [of c "unat x"] by auto
  then show ?thesis using parse_dec_digits [OF unat_u64_bound, of x]
    by (simp add: u64_from_str_def u64_to_string_def d)
qed

lemma u64_text_chars: "c \<in> set (u64_to_string x) \<Longrightarrow> 48 \<le> c \<and> c \<le> 57"
  by (simp add: u64_to_string_def dec_digits_chars)

section \<open>Splitting\<close>

text \<open>\<^verbatim>\<open>str::split\<close> with a character, \<^verbatim>\<open>str::split_once\<close>, and \<^verbatim>\<open>Itertools::tuples\<close> for pairs, which drops an odd element.\<close>

fun split_on :: "nat \<Rightarrow> ustring \<Rightarrow> ustring list" where
  "split_on c [] = [[]]"
| "split_on c (x # xs) =
     (if x = c then [] # split_on c xs
      else case split_on c xs of [] \<Rightarrow> [[x]] | p # ps \<Rightarrow> (x # p) # ps)"

fun split_once :: "nat \<Rightarrow> ustring \<Rightarrow> (ustring \<times> ustring) option" where
  "split_once c [] = None"
| "split_once c (x # xs) =
     (if x = c then Some ([], xs) else map_option (\<lambda>(a, b). (x # a, b)) (split_once c xs))"

fun pair_up :: "'a list \<Rightarrow> ('a \<times> 'a) list" where
  "pair_up (a # b # xs) = (a, b) # pair_up xs"
| "pair_up _ = []"

lemma split_on_none: "c \<notin> set a \<Longrightarrow> split_on c a = [a]"
  by (induction a) auto

lemma split_on_append: "c \<notin> set a \<Longrightarrow> split_on c (a @ c # b) = a # split_on c b"
  by (induction a) auto

lemma split_once_append: "c \<notin> set a \<Longrightarrow> split_once c (a @ c # b) = Some (a, b)"
  by (induction a) auto

section \<open>Available ranges\<close>

record available_range =
  ar_start_token_id :: u64
  ar_size :: u64

datatype available_ranges = FullyMinted | Available "available_range list"

datatype text_error = MissingComma | BadInteger | MissingDash | BadTick | BadTokenId

definition available_range_from_str :: "ustring \<Rightarrow> text_error + available_range" where
  "available_range_from_str s =
     (case split_once 44 s of
        None \<Rightarrow> Inl MissingComma
      | Some (a, b) \<Rightarrow>
        (case u64_from_str a of
           None \<Rightarrow> Inl BadInteger
         | Some start \<Rightarrow>
           (case u64_from_str b of
              None \<Rightarrow> Inl BadInteger
            | Some sz \<Rightarrow> Inr \<lparr>ar_start_token_id = start, ar_size = sz\<rparr>)))"

definition available_range_text :: "available_range \<Rightarrow> ustring" where
  "available_range_text r = u64_to_string (ar_start_token_id r) @ [44] @ u64_to_string (ar_size r)"

text \<open>
  The serialiser of the list first computes the capacity of the text, with a logarithm of every number,
  and then writes it. The capacity is what a debug build asserts the length of the text to be.
\<close>

fun capacity_sum :: "available_range list \<Rightarrow> nat res" where
  "capacity_sum [] = Inr 0"
| "capacity_sum (r # rs) =
     and_then (ilog10 (ar_start_token_id r)) (\<lambda>a.
     and_then (ilog10 (ar_size r)) (\<lambda>b.
     and_then (capacity_sum rs) (\<lambda>c. Inr (a + 1 + b + 1 + 2 + c))))"

definition ranges_capacity :: "available_range list \<Rightarrow> nat res" where
  "ranges_capacity rs = and_then (capacity_sum rs) (\<lambda>c. Inr (c - 1))"

definition ranges_text :: "available_range list \<Rightarrow> ustring" where
  "ranges_text rs =
     concat (map (\<lambda>(i, r). (if 0 < i then [44] else []) @ u64_to_string (ar_start_token_id r) @ [44]
                           @ u64_to_string (ar_size r)) (enumerate 0 rs))"

definition available_ranges_serialize :: "available_ranges \<Rightarrow> ustring res" where
  "available_ranges_serialize a =
     (case a of FullyMinted \<Rightarrow> Inr []
      | Available rs \<Rightarrow> and_then (ranges_capacity rs) (\<lambda>capacity. Inr (ranges_text rs)))"

fun parse_ranges :: "(ustring \<times> ustring) list \<Rightarrow> text_error + available_range list" where
  "parse_ranges [] = Inr []"
| "parse_ranges ((a, b) # xs) =
     (case u64_from_str a of
        None \<Rightarrow> Inl BadInteger
      | Some start \<Rightarrow>
        (case u64_from_str b of
           None \<Rightarrow> Inl BadInteger
         | Some sz \<Rightarrow>
           and_then (parse_ranges xs) (\<lambda>rs. Inr (\<lparr>ar_start_token_id = start, ar_size = sz\<rparr> # rs))))"

definition available_ranges_deserialize :: "ustring \<Rightarrow> text_error + available_ranges" where
  "available_ranges_deserialize s =
     (if s = [] then Inr FullyMinted
      else and_then (parse_ranges (pair_up (split_on 44 s))) (\<lambda>rs. Inr (Available rs)))"

lemma comma_not_digit: "44 \<notin> set (u64_to_string x)"
  using u64_text_chars [of 44 x] by auto

lemma ranges_text_Nil [simp]: "ranges_text [] = []"
  by (simp add: ranges_text_def)

lemma ranges_text_shift:
  "concat (map (\<lambda>(i, r). (if 0 < i then [44] else []) @ u64_to_string (ar_start_token_id r) @ [44]
                         @ u64_to_string (ar_size r)) (enumerate (Suc n) rs)) =
   concat (map (\<lambda>r. 44 # available_range_text r) rs)"
  by (induction rs arbitrary: n) (simp_all add: available_range_text_def)

lemma ranges_text_pieces:
  "ranges_text (r # rs) = available_range_text r @ concat (map (\<lambda>r. 44 # available_range_text r) rs)"
  by (simp add: ranges_text_def ranges_text_shift [of 0 rs, simplified]) (simp add: available_range_text_def)

lemma ranges_text_Cons:
  "ranges_text (r # rs) = u64_to_string (ar_start_token_id r) @ 44 # u64_to_string (ar_size r)
     @ (if rs = [] then [] else 44 # ranges_text rs)"
  by (cases rs) (simp_all add: ranges_text_pieces available_range_text_def)

lemma parse_ranges_text:
  "rs \<noteq> [] \<Longrightarrow> parse_ranges (pair_up (split_on 44 (ranges_text rs))) = Inr rs"
proof (induction rs)
  case (Cons r rs)
  then show ?case
    by (cases "rs = []") (simp_all add: ranges_text_Cons split_on_append split_on_none comma_not_digit)
qed simp

definition range_printable :: "available_range \<Rightarrow> bool" where
  "range_printable r = (ar_start_token_id r \<noteq> 0 \<and> ar_size r \<noteq> 0)"

lemma capacity_sum_ok:
  "list_all range_printable rs \<Longrightarrow>
   capacity_sum rs = Inr (length (ranges_text rs) + (if rs = [] then 0 else 1))"
  by (induction rs)
    (auto simp: range_printable_def ilog10_def ranges_text_Cons u64_to_string_def length_dec_digits)

lemma capacity_sum_panics:
  "\<not> list_all range_printable rs \<Longrightarrow> \<exists>m. capacity_sum rs = Inl (Panic m)"
proof (induction rs)
  case (Cons r rs)
  show ?case
  proof (cases "range_printable r")
    case True
    then obtain m where "capacity_sum rs = Inl (Panic m)" using Cons by auto
    then show ?thesis using True by (simp add: range_printable_def ilog10_def)
  next
    case False
    then show ?thesis by (auto simp: range_printable_def ilog10_def)
  qed
qed simp

text \<open>The capacity that the serialiser of the available ranges reserves is exactly the length of the text
  it writes, so the debug assertion holds, when no range starts at zero or is empty; otherwise the
  serialiser panics.\<close>

theorem reserved_capacity_is_exact:
  "if list_all range_printable rs
   then ranges_capacity rs = Inr (length (ranges_text rs)) \<and>
        available_ranges_serialize (Available rs) = Inr (ranges_text rs)
   else \<exists>m. available_ranges_serialize (Available rs) = Inl (Panic m)"
proof (cases "list_all range_printable rs")
  case True
  then show ?thesis by (simp add: ranges_capacity_def available_ranges_serialize_def capacity_sum_ok)
next
  case False
  then obtain m where "capacity_sum rs = Inl (Panic m)" using capacity_sum_panics by blast
  with False show ?thesis by (auto simp: ranges_capacity_def available_ranges_serialize_def)
qed

text \<open>The text of the available ranges reads back as the same ranges, unless there is none: an
  empty list of ranges is written like a finished collection.\<close>

theorem available_ranges_round_trip:
  assumes "available_ranges_serialize a = Inr s"
  shows "available_ranges_deserialize s = Inr (if a = Available [] then FullyMinted else a)"
proof (cases a)
  case FullyMinted
  then show ?thesis using assms by (simp add: available_ranges_serialize_def available_ranges_deserialize_def)
next
  case (Available rs)
  then obtain c where "ranges_capacity rs = Inr c" and s: "s = ranges_text rs"
    using assms by (auto simp: available_ranges_serialize_def and_then_Inr_iff)
  show ?thesis
  proof (cases "rs = []")
    case True
    then show ?thesis using Available s by (simp add: available_ranges_deserialize_def)
  next
    case False
    then have "ranges_text rs \<noteq> []" by (cases rs) (auto simp: ranges_text_Cons)
    then show ?thesis using False Available parse_ranges_text [OF False] by (simp add: s available_ranges_deserialize_def)
  qed
qed

theorem available_ranges_round_trip_witness:
  "available_ranges_deserialize [49, 48, 44, 53] = Inr (Available [\<lparr>ar_start_token_id = 10, ar_size = 5\<rparr>])"
proof -
  have "available_ranges_serialize (Available [\<lparr>ar_start_token_id = 10, ar_size = 5\<rparr>]) = Inr [49, 48, 44, 53]"
    by (simp add: available_ranges_serialize_def ranges_capacity_def ilog10_def ranges_text_Cons u64_to_string_def
        dec_digits.simps)
  from available_ranges_round_trip [OF this] show ?thesis by simp
qed

text \<open>One range alone reads back from its text.\<close>

lemma available_range_round_trip: "available_range_from_str (available_range_text r) = Inr r"
  by (simp add: available_range_from_str_def available_range_text_def split_once_append comma_not_digit)

section \<open>Offsets of a tick and a token\<close>

record tick_token_offset =
  tto_tick :: tick
  tto_token_id :: u64

text \<open>The writer takes the text of the tick without a check of its bytes; \<^verbatim>\<open>None\<close> stands for bytes that are not UTF-8.\<close>

definition tick_token_offset_text :: "tick_token_offset \<Rightarrow> ustring option" where
  "tick_token_offset_text v = map_option (\<lambda>t. t @ [45] @ u64_to_string (tto_token_id v)) (tick_as_str (tto_tick v))"

definition tick_token_offset_from_str ::
  "(nat \<Rightarrow> nat list) \<Rightarrow> (nat \<Rightarrow> bool) \<Rightarrow> ustring \<Rightarrow> text_error + tick_token_offset" where
  "tick_token_offset_from_str up alnum s =
     (case split_once 45 s of
        None \<Rightarrow> Inl MissingDash
      | Some (a, b) \<Rightarrow>
        (case tick_from_str up alnum a of
           Inl _ \<Rightarrow> Inl BadTick
         | Inr t \<Rightarrow>
           (case u64_from_str b of
              None \<Rightarrow> Inl BadTokenId
            | Some i \<Rightarrow> Inr \<lparr>tto_tick = t, tto_token_id = i\<rparr>)))"

lemma tick_from_str_as_str:
  assumes "tick_from_str up alnum s0 = Inr t" and "\<not> alnum 0" and "\<forall>c \<in> set (to_uppercase up s0). scalar c"
    and "to_uppercase up (to_uppercase up s0) = to_uppercase up s0"
  shows "tick_from_str up alnum (to_uppercase up s0) = Inr t"
  using assms(1) by (simp add: tick_from_str_def assms(4))

text \<open>The offset of a page that runs over ticks and tokens survives its text: a client that sends
  back the text of an offset gets the page of that offset. The dash is not a character of a tick.\<close>

theorem tick_token_offset_round_trip:
  assumes "tick_from_str up alnum s0 = Inr (tto_tick v)" and "\<not> alnum 0" and "\<not> alnum 45"
    and "\<forall>c \<in> set (to_uppercase up s0). scalar c"
    and "to_uppercase up (to_uppercase up s0) = to_uppercase up s0"
  shows "\<exists>text. tick_token_offset_text v = Some text \<and> tick_token_offset_from_str up alnum text = Inr v"
proof -
  let ?s = "to_uppercase up s0"
  have t: "tick_as_str (tto_tick v) = Some ?s" by (rule tick_as_str_from_str [OF assms(1,2,4)])
  have "45 \<notin> set ?s" using tick_from_str_bytes(2) [OF assms(1)] assms(3) by (auto simp: list_all_iff)
  then show ?thesis using tick_from_str_as_str [OF assms(1,2,4,5)]
    by (simp add: tick_token_offset_text_def t tick_token_offset_from_str_def split_once_append)
qed

theorem tick_token_offset_round_trip_witness:
  "\<exists>text. tick_token_offset_text \<lparr>tto_tick = Tick 65 50 0 0 0 0 0 0 0 0, tto_token_id = 7\<rparr> = Some text \<and>
     tick_token_offset_from_str ascii_upper ascii_alphanumeric text =
       Inr \<lparr>tto_tick = Tick 65 50 0 0 0 0 0 0 0 0, tto_token_id = 7\<rparr>"
  by (rule tick_token_offset_round_trip [of ascii_upper ascii_alphanumeric "[97, 50]"])
    (simp_all add: sample_tick_text ascii_alphanumeric_def to_uppercase_def ascii_upper_def scalar_def)

end
