(* ===== verification/Analyzer.thy ===== *)
theory Analyzer
  imports Batches ApiText
begin

text \<open>
  The detection of operations in transactions, \<^verbatim>\<open>nexus/src/analyzer.rs\<close>: the header search in the
  signature script, the shape of the envelope, the sender, and the checks of every operation, with the
  script of a listing (\<^verbatim>\<open>core/src/inscriptions/krc721.rs\<close>). What the node's crates and \<^verbatim>\<open>serde_json\<close>
  provide (opcodes, the script builder, addresses, the JSON of an inscription) is the record \<^verbatim>\<open>node\<close> of
  functions, an argument of the definitions that use it.
\<close>

section \<open>Constants\<close>

definition SOMPI_PER_KASPA :: u64 where "SOMPI_PER_KASPA = 100000000"
definition KSPR_FEE_DEPLOY :: u64 where "KSPR_FEE_DEPLOY = 1000 * SOMPI_PER_KASPA"
definition KSPR_FEE_MINT :: u64 where "KSPR_FEE_MINT = 10 * SOMPI_PER_KASPA"
definition MIN_ROYALTY_FEE :: u64 where "MIN_ROYALTY_FEE = SOMPI_PER_KASPA div 10"
definition MAX_ROYALTY_FEE :: u64 where "MAX_ROYALTY_FEE = 10000000 * SOMPI_PER_KASPA"

definition PROTOCOL_KSPR_NAMESPACE :: bytes where "PROTOCOL_KSPR_NAMESPACE = [107, 115, 112, 114]"
definition KASPLEX_HEADER_LC :: bytes where "KASPLEX_HEADER_LC = [107, 97, 115, 112, 108, 101, 120]"
definition KASPLEX_HEADER_UC :: bytes where "KASPLEX_HEADER_UC = [75, 65, 83, 80, 76, 69, 88]"
definition KSPR_U8_STRICT :: bytes where "KSPR_U8_STRICT = [0x00, 0x63, 0x04, 107, 115, 112, 114]"
definition KSPR_U8_STRICT_UC :: bytes where "KSPR_U8_STRICT_UC = [0x00, 0x63, 0x04, 75, 83, 80, 82]"
definition KRC20_HEADER_UC :: bytes where "KRC20_HEADER_UC = [107, 114, 99, 45, 50, 48]"
definition KRC20_HEADER_LC :: bytes where "KRC20_HEADER_LC = [75, 82, 67, 45, 50, 48]"
definition KRC721_HEADER_UC :: bytes where "KRC721_HEADER_UC = [107, 114, 99, 45, 55, 50, 49]"
definition KRC721_HEADER_LC :: bytes where "KRC721_HEADER_LC = [75, 82, 67, 45, 55, 50, 49]"

section \<open>Inscriptions and transactions\<close>

datatype op = OpDeploy | OpMint | OpTransfer | OpDiscount | OpList | OpSend

datatype protocol = Krc721

record user_operation =
  uo_protocol :: protocol
  uo_op :: op
  uo_tick :: tick
  uo_token_id :: "u64 option"
  uo_metadata :: "metadata option"
  uo_max :: "u64 option"
  uo_to :: "ustring option"
  uo_royalty_to :: "ustring option"
  uo_royalty_fee :: "u64 option"
  uo_daa_mint_start :: "u64 option"
  uo_discount_fee :: "u64 option"
  uo_premint :: "u64 option"

text \<open>The parts of a transaction that the analyzer reads.\<close>

record transaction_input =
  in_signature_script :: bytes
  in_previous_tx_id :: hash

record transaction_output =
  out_value :: u64
  out_spk :: spk

record transaction =
  tx_inputs :: "transaction_input list"
  tx_outputs :: "transaction_output list"
  tx_hash :: hash

record context_transaction =
  ct_tx :: transaction
  ct_fee :: u64
  ct_block_time :: u64
  ct_accepting_block_daa_score :: u64
  ct_index_within_merged_block :: u64

section \<open>What the node's crates provide\<close>

record opcode =
  opcode_value :: byte
  opcode_is_empty :: bool
  opcode_is_push :: bool
  opcode_data :: bytes

text \<open>
  The opcode parser takes one opcode off a script, or an error, and returns what is left; the script
  builder appends to a script; addresses are a type of their own, with their network prefix.
\<close>

record ('a, 'p) node =
  deserialize_next_opcode :: "bytes \<Rightarrow> ((string + opcode) \<times> bytes) option"
  OpFalse :: byte
  OpTrue :: byte
  OpIf :: byte
  OpEndIf :: byte
  OpCheckSig :: byte
  OpCheckSigECDSA :: byte
  OpData32 :: byte
  OpData33 :: byte
  PubKey_version :: u16
  PubKeyECDSA_version :: u16
  builder_add_data :: "bytes \<Rightarrow> bytes \<Rightarrow> bytes option"
  builder_add_op :: "byte \<Rightarrow> bytes \<Rightarrow> bytes option"
  builder_add_i64 :: "int \<Rightarrow> bytes \<Rightarrow> bytes option"
  address_try_from :: "ustring \<Rightarrow> string + 'a"
  address_prefix_of :: "'a \<Rightarrow> 'p"
  pay_to_address_script :: "'a \<Rightarrow> spk"
  pay_to_script_hash_script :: "bytes \<Rightarrow> spk"
  extract_script_pub_key_address :: "spk \<Rightarrow> 'p \<Rightarrow> 'a option"
  user_operation_from_json :: "bytes \<Rightarrow> string + user_operation"
  char_to_uppercase :: "nat \<Rightarrow> nat list"
  str_to_lowercase :: "ustring \<Rightarrow> ustring"
  char_is_alphanumeric :: "nat \<Rightarrow> bool"

section \<open>Errors\<close>

datatype analyzer_error =
    TxScript string
  | InsufficientOpcodeLen
  | EmptyOpcodeData
  | MissingKrc721Header
  | UnsupportedEnvelopeLength
  | SerdeWithPath string
  | NFTInscriptionModelFieldValueParsingError string string
  | TickError tick_error
  | OpTransferMissingValue string
  | OpListMissingValue string
  | OpSendMissingValue string
  | InsufficientMintFee u64
  | InsufficientDeployFee u64
  | OpDeployMissingValue string
  | UnknownSenderType
  | InvalidRedeemEnvelopeFormat string
  | RestrictedTickDeploy tick spk spk
  | UnderflowRoyaltyFee
  | OverflowRoyaltyFee
  | OpDiscountMissingValue string
  | PremintGreaterThanMax u64
  | MaxSupplyOverflow
  | RestrictedMetadataProtocol "ustring list"
  | AddressError

text \<open>The source returns an error, or panics.\<close>

datatype analyzer_failure = AnalyzerError analyzer_error | AnalyzerPanic string

type_synonym 'a analysis = "analyzer_failure + 'a"

definition fail :: "analyzer_error \<Rightarrow> 'a analysis" where
  "fail e = Inl (AnalyzerError e)"

definition ok_or :: "analyzer_error \<Rightarrow> 'a option \<Rightarrow> 'a analysis" where
  "ok_or e x = (case x of None \<Rightarrow> fail e | Some a \<Rightarrow> Inr a)"

definition require :: "bool \<Rightarrow> analyzer_error \<Rightarrow> unit analysis" where
  "require b e = (if b then Inr () else fail e)"

definition map_err :: "('e \<Rightarrow> analyzer_error) \<Rightarrow> 'e + 'a \<Rightarrow> 'a analysis" where
  "map_err f r = (case r of Inl e \<Rightarrow> fail (f e) | Inr a \<Rightarrow> Inr a)"

named_theorems analysis_iff

lemma map_err_iff [analysis_iff]: "map_err f r = Inr a \<longleftrightarrow> r = Inr a"
  by (simp add: map_err_def fail_def split: sum.split)

lemma ok_or_iff [analysis_iff]: "ok_or e x = Inr a \<longleftrightarrow> x = Some a"
  by (simp add: ok_or_def fail_def split: option.split)

lemma require_iff [analysis_iff]: "require b e = Inr u \<longleftrightarrow> b"
  by (simp add: require_def fail_def)

lemma fail_iff [analysis_iff]: "fail e \<noteq> Inr a" "Inr a \<noteq> fail e"
  by (simp_all add: fail_def)

declare and_then_Inr_iff [analysis_iff]

section \<open>Headers\<close>

text \<open>\<^verbatim>\<open>windows(n)\<close>, searched from the front.\<close>

fun window_position :: "bytes \<Rightarrow> bytes \<Rightarrow> nat \<Rightarrow> nat option" where
  "window_position needle [] i = (if needle = [] then Some i else None)"
| "window_position needle (b # bs) i =
     (if take (length needle) (b # bs) = needle then Some i else window_position needle bs (Suc i))"

definition window_find :: "bytes \<Rightarrow> bytes \<Rightarrow> nat option" where
  "window_find haystack needle =
     (let offset = 10 in
      if length haystack \<le> offset then None else window_position needle (drop offset haystack) offset)"

definition detect_krc20_header :: "bytes \<Rightarrow> bool" where
  "detect_krc20_header h = (window_find h KRC20_HEADER_UC \<noteq> None \<or> window_find h KRC20_HEADER_LC \<noteq> None)"

definition detect_krc721_header :: "bytes \<Rightarrow> bool" where
  "detect_krc721_header h = (window_find h KRC721_HEADER_UC \<noteq> None \<or> window_find h KRC721_HEADER_LC \<noteq> None)"

definition detect_kasplex_header :: "bytes \<Rightarrow> bool" where
  "detect_kasplex_header h = (window_find h KASPLEX_HEADER_LC \<noteq> None \<or> window_find h KASPLEX_HEADER_UC \<noteq> None)"

definition detect_kspr_header :: "bytes \<Rightarrow> bool" where
  "detect_kspr_header h = (window_find h KSPR_U8_STRICT \<noteq> None \<or> window_find h KSPR_U8_STRICT_UC \<noteq> None)"

lemma window_position_iff:
  assumes "needle \<noteq> []"
  shows "window_position needle bs i = Some p \<longleftrightarrow>
    (\<exists>k. p = i + k \<and> take (length needle) (drop k bs) = needle \<and> (\<forall>j<k. take (length needle) (drop j bs) \<noteq> needle))"
proof (induction bs arbitrary: i)
  case Nil
  then show ?case using assms by simp
next
  case (Cons b bs)
  show ?case
  proof (cases "take (length needle) (b # bs) = needle")
    case True
    have "k = 0" if "\<forall>j<k. take (length needle) (drop j (b # bs)) \<noteq> needle" for k
      using that True by (metis drop0 gr0I)
    with True show ?thesis by auto
  next
    case False
    define Q where "Q = (\<lambda>k. p = i + k \<and> take (length needle) (drop k (b # bs)) = needle \<and>
        (\<forall>j<k. take (length needle) (drop j (b # bs)) \<noteq> needle))"
    have "(\<exists>k. Q k) \<longleftrightarrow> Q 0 \<or> (\<exists>k. Q (Suc k))" by (metis nat.exhaust)
    moreover have "\<not> Q 0" using False by (simp add: Q_def)
    moreover have "Q (Suc k) \<longleftrightarrow> p = Suc i + k \<and> take (length needle) (drop k bs) = needle \<and>
        (\<forall>j<k. take (length needle) (drop j bs) \<noteq> needle)" for k
      using False by (simp add: Q_def All_less_Suc2)
    ultimately have "(\<exists>k. Q k) \<longleftrightarrow> window_position needle bs (Suc i) = Some p" using Cons.IH [of "Suc i"] by simp
    then show ?thesis using False by (simp add: Q_def)
  qed
qed

text \<open>The header search finds the first occurrence from the tenth byte on, and reports none only when there
  is none.\<close>

theorem window_find_first_occurrence:
  assumes "needle \<noteq> []"
  shows "window_find haystack needle = Some p \<longleftrightarrow>
    10 \<le> p \<and> take (length needle) (drop p haystack) = needle \<and>
    (\<forall>q. 10 \<le> q \<and> q < p \<longrightarrow> take (length needle) (drop q haystack) \<noteq> needle)"
proof (cases "length haystack \<le> 10")
  case True
  then show ?thesis using assms by (auto simp: window_find_def)
next
  case False
  have "window_find haystack needle = Some p \<longleftrightarrow>
     (\<exists>k. p = 10 + k \<and> take (length needle) (drop (k + 10) haystack) = needle \<and>
        (\<forall>j<k. take (length needle) (drop (j + 10) haystack) \<noteq> needle))"
    using False by (simp add: window_find_def window_position_iff [OF assms] Let_def add.commute)
  also have "\<dots> \<longleftrightarrow> 10 \<le> p \<and> take (length needle) (drop p haystack) = needle \<and>
      (\<forall>q. 10 \<le> q \<and> q < p \<longrightarrow> take (length needle) (drop q haystack) \<noteq> needle)" (is "?L \<longleftrightarrow> ?R")
  proof
    show "?L \<Longrightarrow> ?R"
      by (auto simp: add.commute dest: le_Suc_ex)
    assume r: ?R
    then obtain k where "p = 10 + k" using le_Suc_ex by blast
    with r show ?L by (auto simp: add.commute intro!: exI [of _ k])
  qed
  finally show ?thesis .
qed

theorem window_find_first_occurrence_witness:
  "window_find (replicate 12 0 @ [1, 2]) [1, 2] = Some 12 \<longleftrightarrow>
    10 \<le> (12::nat) \<and> take (length [1, 2::byte]) (drop 12 (replicate 12 0 @ [1, 2])) = [1, 2::byte] \<and>
    (\<forall>q. 10 \<le> q \<and> q < 12 \<longrightarrow> take (length [1, 2::byte]) (drop q (replicate 12 0 @ [1, 2])) \<noteq> [1, 2::byte])"
  by (rule window_find_first_occurrence) simp

lemma window_position_append: "needle \<noteq> [] \<Longrightarrow> window_position needle (pre @ needle @ post) i \<noteq> None"
  by (induction pre arbitrary: i) (auto simp: neq_Nil_conv)

lemma window_find_append:
  assumes "needle \<noteq> []" "10 \<le> length pre"
  shows "window_find (pre @ needle @ post) needle \<noteq> None"
proof -
  have d: "drop 10 (pre @ needle @ post) = drop 10 pre @ needle @ post" using assms(2) by simp
  have "0 < length needle" using assms(1) by simp
  then have "\<not> length (pre @ needle @ post) \<le> 10" using assms(2) unfolding length_append by linarith
  then show ?thesis using window_position_append [OF assms(1), of "drop 10 pre" post 10]
    by (simp add: window_find_def Let_def assms(2))
qed

section \<open>Envelopes\<close>

text \<open>
  \<^verbatim>\<open>batching\<close> calls the parser until it returns nothing. A call takes at least one byte; a call that took
  none would be the last here.
\<close>

function parse_script :: "('a, 'p) node \<Rightarrow> bytes \<Rightarrow> (string + opcode) list" where
  "parse_script node script =
     (case deserialize_next_opcode node script of
        None \<Rightarrow> []
      | Some (r, rest) \<Rightarrow> if length rest < length script then r # parse_script node rest else [r])"
  by pat_completeness auto
termination
  by (relation "measure (length \<circ> snd)") auto

declare parse_script.simps [simp del]

text \<open>\<^verbatim>\<open>collect::<Result<Vec<_>, _>>\<close>: the first error, or all opcodes.\<close>

fun collect_opcodes :: "(string + opcode) list \<Rightarrow> string + opcode list" where
  "collect_opcodes [] = Inr []"
| "collect_opcodes (r # rs) = and_then r (\<lambda>o1. and_then (collect_opcodes rs) (\<lambda>os. Inr (o1 # os)))"

definition validate_common_opcodes :: "('a, 'p) node \<Rightarrow> opcode list \<Rightarrow> unit analysis" where
  "validate_common_opcodes node ops =
     and_then (require (opcode_value (ops ! 2) = OpFalse node) (InvalidRedeemEnvelopeFormat ''OpFalse missing'')) (\<lambda>_.
     and_then (require (opcode_value (ops ! 3) = OpIf node) (InvalidRedeemEnvelopeFormat ''OpIf missing'')) (\<lambda>_.
     require (opcode_is_push (ops ! 4) \<and> opcode_data (ops ! 4) = PROTOCOL_KSPR_NAMESPACE)
       (InvalidRedeemEnvelopeFormat ''Invalid or missing protocol'')))"

definition validate_optional_content :: "('a, 'p) node \<Rightarrow> opcode list \<Rightarrow> unit analysis" where
  "validate_optional_content node ops =
     and_then (require (opcode_value (ops ! 0) = OpTrue node)
       (InvalidRedeemEnvelopeFormat ''Missing optional content marker'')) (\<lambda>_.
     require (\<not> opcode_is_empty (ops ! 1) \<and> opcode_is_push (ops ! 1))
       (InvalidRedeemEnvelopeFormat ''Missing optional content''))"

definition validate_mandatory_content :: "('a, 'p) node \<Rightarrow> opcode list \<Rightarrow> unit analysis" where
  "validate_mandatory_content node ops =
     and_then (require (opcode_value (ops ! 0) = OpFalse node)
       (InvalidRedeemEnvelopeFormat ''Missing mandatory content marker'')) (\<lambda>_.
     and_then (require (\<not> opcode_is_empty (ops ! 1) \<and> opcode_is_push (ops ! 1))
       (InvalidRedeemEnvelopeFormat ''Missing mandatory content'')) (\<lambda>_.
     require (opcode_value (ops ! 2) = OpEndIf node) (InvalidRedeemEnvelopeFormat ''Content marker invalid'')))"

definition slice :: "nat \<Rightarrow> nat \<Rightarrow> 'a list \<Rightarrow> 'a list" where
  "slice a b xs = take (b - a) (drop a xs)"

definition validate_redeem_envelope :: "('a, 'p) node \<Rightarrow> opcode list \<Rightarrow> unit analysis" where
  "validate_redeem_envelope node ops =
     (if length ops = 8 then
        and_then (validate_common_opcodes node ops) (\<lambda>_. validate_mandatory_content node (slice 5 8 ops))
      else if length ops = 10 then
        and_then (validate_common_opcodes node ops) (\<lambda>_.
        and_then (validate_optional_content node (slice 5 7 ops)) (\<lambda>_.
        validate_mandatory_content node (slice 7 10 ops)))
      else fail UnsupportedEnvelopeLength)"

section \<open>Scripts\<close>

text \<open>Creates a new script to pay a transaction output to a 32-byte, or a 33-byte ECDSA, public key.\<close>

definition pay_to_pub_key :: "('a, 'p) node \<Rightarrow> bytes \<Rightarrow> bytes analysis" where
  "pay_to_pub_key node payload =
     (if length payload = 32 then Inr (OpData32 node # payload @ [OpCheckSig node])
      else Inl (AnalyzerPanic ''assert_eq: address_payload.len() is 32''))"

definition pay_to_pub_key_ecdsa :: "('a, 'p) node \<Rightarrow> bytes \<Rightarrow> bytes analysis" where
  "pay_to_pub_key_ecdsa node payload =
     (if length payload = 33 then Inr (OpData33 node # payload @ [OpCheckSigECDSA node])
      else Inl (AnalyzerPanic ''assert_eq: address_payload.len() is 33''))"

definition redeem_pubkey :: "('a, 'p) node \<Rightarrow> bytes \<Rightarrow> bytes \<Rightarrow> bytes \<Rightarrow> bytes option" where
  "redeem_pubkey node header redeem_script pubkey =
     Option.bind (builder_add_data node pubkey []) (\<lambda>s.
     Option.bind (builder_add_op node (OpCheckSig node) s) (\<lambda>s.
     Option.bind (builder_add_op node (OpFalse node) s) (\<lambda>s.
     Option.bind (builder_add_op node (OpIf node) s) (\<lambda>s.
     Option.bind (builder_add_data node header s) (\<lambda>s.
     Option.bind (builder_add_i64 node 0 s) (\<lambda>s.
     Option.bind (builder_add_data node redeem_script s) (builder_add_op node (OpEndIf node))))))))"

definition ascii :: "string \<Rightarrow> ustring" where
  "ascii s = map of_char s"

definition quoted :: "ustring \<Rightarrow> ustring" where
  "quoted s = [34] @ s @ [34]"

definition member :: "string \<Rightarrow> ustring \<Rightarrow> ustring" where
  "member k v = quoted (ascii k) @ [58] @ quoted v"

definition send_json :: "ustring \<Rightarrow> u64 \<Rightarrow> ustring" where
  "send_json tick_lower token_id =
     [123] @ member ''p'' (ascii ''krc-721'') @ [44] @ member ''op'' (ascii ''send'') @ [44] @
     member ''tick'' tick_lower @ [44] @ member ''tokenId'' (u64_to_string token_id) @ [125]"

definition compute_listing_p2sh ::
  "('a, 'p) node \<Rightarrow> bytes \<Rightarrow> ustring \<Rightarrow> u64 \<Rightarrow> 'p \<Rightarrow> ('a \<times> bytes) analysis" where
  "compute_listing_p2sh node seller_pubkey tick_str token_id prfx =
     (case redeem_pubkey node PROTOCOL_KSPR_NAMESPACE
             (utf8_bytes (send_json (str_to_lowercase node tick_str) token_id)) seller_pubkey of
        None \<Rightarrow> Inl (AnalyzerPanic ''failed to build listing redeem script'')
      | Some script_sig \<Rightarrow>
         (case extract_script_pub_key_address node (pay_to_script_hash_script node script_sig) prfx of
            None \<Rightarrow> Inl (AnalyzerPanic ''failed to extract P2SH address'')
          | Some addr \<Rightarrow> Inr (addr, script_sig)))"

section \<open>The transaction interface\<close>

definition nth_opt :: "nat \<Rightarrow> 'a list \<Rightarrow> 'a option" where
  "nth_opt i xs = (if i < length xs then Some (xs ! i) else None)"

definition signature_script :: "context_transaction \<Rightarrow> bytes option" where
  "signature_script tx = map_option in_signature_script (nth_opt 0 (tx_inputs (ct_tx tx)))"

definition receiver_addr :: "('a, 'p) node \<Rightarrow> 'p \<Rightarrow> context_transaction \<Rightarrow> 'a option" where
  "receiver_addr node prfx tx =
     Option.bind (nth_opt 0 (tx_outputs (ct_tx tx))) (\<lambda>v. extract_script_pub_key_address node (out_spk v) prfx)"

definition first_beneficiary :: "context_transaction \<Rightarrow> spk option" where
  "first_beneficiary tx = map_option out_spk (nth_opt 0 (tx_outputs (ct_tx tx)))"

definition first_output_amt :: "context_transaction \<Rightarrow> u64 option" where
  "first_output_amt tx = map_option out_value (nth_opt 0 (tx_outputs (ct_tx tx)))"

definition output_spk :: "nat \<Rightarrow> context_transaction \<Rightarrow> spk option" where
  "output_spk i tx = map_option out_spk (nth_opt i (tx_outputs (ct_tx tx)))"

definition output_amt :: "nat \<Rightarrow> context_transaction \<Rightarrow> u64 option" where
  "output_amt i tx = map_option out_value (nth_opt i (tx_outputs (ct_tx tx)))"

definition input_prev_txid :: "nat \<Rightarrow> context_transaction \<Rightarrow> hash option" where
  "input_prev_txid i tx = map_option in_previous_tx_id (nth_opt i (tx_inputs (ct_tx tx)))"

text \<open>The first push of the redeem script, taken to be the second opcode of the signature script.\<close>

definition sender_pubkey_bytes :: "('a, 'p) node \<Rightarrow> context_transaction \<Rightarrow> bytes option" where
  "sender_pubkey_bytes node tx =
     Option.bind (signature_script tx) (\<lambda>sig_script.
     Option.bind (nth_opt 1 (parse_script node sig_script)) (\<lambda>second.
     case second of
       Inl _ \<Rightarrow> None
     | Inr o2 \<Rightarrow>
        if \<not> opcode_is_push o2 then None
        else (case collect_opcodes (parse_script node (opcode_data o2)) of
                Inl _ \<Rightarrow> None
              | Inr [] \<Rightarrow> None
              | Inr (pubkey_opcode # _) \<Rightarrow>
                  if opcode_is_push pubkey_opcode \<and>
                     (length (opcode_data pubkey_opcode) = 32 \<or> length (opcode_data pubkey_opcode) = 33)
                  then Some (opcode_data pubkey_opcode) else None)))"

section \<open>Detection\<close>

record 'p analyzer =
  restricted_tokens :: "tick \<rightharpoonup> spk"
  address_prefix :: 'p
  restricted_protocols :: "ustring list"
  daa_ecdsa_fix :: u64

text \<open>The opcodes of the envelope; nothing when the signature script does not carry the header.\<close>

definition detect_envelope :: "('a, 'p) node \<Rightarrow> context_transaction \<Rightarrow> opcode list option analysis" where
  "detect_envelope node sigtx =
     (case signature_script sigtx of
        None \<Rightarrow> Inr None
      | Some script \<Rightarrow>
          if \<not> detect_kspr_header script then Inr None
          else
            and_then (ok_or InsufficientOpcodeLen (nth_opt 1 (parse_script node script))) (\<lambda>second.
            and_then (map_err TxScript second) (\<lambda>opcode.
            and_then (require (\<not> opcode_is_empty opcode) EmptyOpcodeData) (\<lambda>_.
            and_then (require (opcode_is_push opcode) MissingKrc721Header) (\<lambda>_.
            and_then (require (detect_krc721_header (opcode_data opcode)) MissingKrc721Header) (\<lambda>_.
            and_then (map_err TxScript (collect_opcodes (parse_script node (opcode_data opcode)))) (\<lambda>inner_opcodes.
            and_then (validate_redeem_envelope node inner_opcodes) (\<lambda>_.
            and_then (require (opcode_is_push (inner_opcodes ! (length inner_opcodes - 2)))
              (InvalidRedeemEnvelopeFormat ''Content op is not push opcode'')) (\<lambda>_.
            Inr (Some inner_opcodes))))))))))"

definition resolve_address ::
  "('a, 'p) node \<Rightarrow> 'p analyzer \<Rightarrow> string \<Rightarrow> ustring option \<Rightarrow> 'a option analysis" where
  "resolve_address node an field_name value =
     (case value of
        None \<Rightarrow> Inr None
      | Some text \<Rightarrow>
         (case address_try_from node text of
            Inl e \<Rightarrow> fail (NFTInscriptionModelFieldValueParsingError field_name e)
          | Inr address \<Rightarrow>
             if address_prefix_of node address \<noteq> address_prefix an
             then fail (NFTInscriptionModelFieldValueParsingError field_name ''network mismatch'')
             else Inr (Some address)))"

definition reveal_sender ::
  "('a, 'p) node \<Rightarrow> 'p analyzer \<Rightarrow> context_transaction \<Rightarrow> opcode \<Rightarrow> opcode \<Rightarrow> spk analysis" where
  "reveal_sender node an sigtx first_opcode second_opcode =
     (if opcode_value second_opcode = OpCheckSig node then
        and_then (pay_to_pub_key node (opcode_data first_opcode)) (\<lambda>script. Inr (Spk (PubKey_version node) script))
      else if opcode_value second_opcode = OpCheckSigECDSA node \<and> ct_accepting_block_daa_score sigtx < daa_ecdsa_fix an
      then fail AddressError
      else if opcode_value second_opcode = OpCheckSigECDSA node then
        and_then (pay_to_pub_key_ecdsa node (opcode_data first_opcode)) (\<lambda>script. Inr (Spk (PubKeyECDSA_version node) script))
      else fail UnknownSenderType)"

text \<open>\<^verbatim>\<open>as_str\<close> does not check the bytes; on other bytes than UTF-8 its behaviour is undefined.\<close>

definition tick_str :: "tick \<Rightarrow> ustring analysis" where
  "tick_str t = (case tick_as_str t of None \<Rightarrow> Inl (AnalyzerPanic ''undefined: not UTF-8'') | Some s \<Rightarrow> Inr s)"

definition operation_common_of :: "context_transaction \<Rightarrow> tick \<Rightarrow> spk \<Rightarrow> operation_common" where
  "operation_common_of sigtx t sender =
     \<lparr>oc_tick = t, oc_tx_id = tx_hash (ct_tx sigtx), oc_block_time = ct_block_time sigtx, oc_sender = sender,
      oc_fee = ct_fee sigtx, oc_accepting_block_daa_score = ct_accepting_block_daa_score sigtx\<rparr>"

definition detect_discount ::
  "context_transaction \<Rightarrow> user_operation \<Rightarrow> spk option \<Rightarrow> operation_info analysis" where
  "detect_discount sigtx model to_param =
     and_then (ok_or (OpDiscountMissingValue ''discount_fee'') (uo_discount_fee model)) (\<lambda>fee.
     and_then (ok_or (OpDiscountMissingValue ''to'') to_param) (\<lambda>to1.
     Inr (Discount \<lparr>dc_to = to1, dc_fee = fee\<rparr>)))"

definition detect_transfer ::
  "context_transaction \<Rightarrow> user_operation \<Rightarrow> spk option \<Rightarrow> operation_info analysis" where
  "detect_transfer sigtx model to_param =
     and_then (ok_or (OpTransferMissingValue ''token_id'') (uo_token_id model)) (\<lambda>token_id.
     and_then (ok_or (OpTransferMissingValue ''to'') to_param) (\<lambda>transfer_to.
     Inr (Transfer \<lparr>ti_token_id = token_id, ti_to = transfer_to\<rparr>)))"

definition detect_mint ::
  "context_transaction \<Rightarrow> spk option \<Rightarrow> spk \<Rightarrow> operation_info analysis" where
  "detect_mint sigtx to_param sender =
     (if ct_fee sigtx < KSPR_FEE_MINT then fail (InsufficientMintFee (ct_fee sigtx))
      else Inr (Mint \<lparr>mi_token_id = 0, mi_to = (case to_param of Some p \<Rightarrow> p | None \<Rightarrow> sender),
        mi_royalty = (case (first_output_amt sigtx, first_beneficiary sigtx) of
                        (Some fee, Some b) \<Rightarrow> Some \<lparr>beneficiary = b, royalty_fee = fee\<rparr>
                      | _ \<Rightarrow> None)\<rparr>))"

definition royalty_of_fee :: "u64 option \<Rightarrow> spk \<Rightarrow> royalty_details option analysis" where
  "royalty_of_fee royalty_fee_opt royalty_to =
     (case royalty_fee_opt of
        None \<Rightarrow> Inr None
      | Some fee \<Rightarrow>
          if fee < MIN_ROYALTY_FEE then fail UnderflowRoyaltyFee
          else if fee > MAX_ROYALTY_FEE then fail OverflowRoyaltyFee
          else Inr (Some \<lparr>beneficiary = royalty_to, royalty_fee = fee\<rparr>))"

definition detect_deploy ::
  "'p analyzer \<Rightarrow> context_transaction \<Rightarrow> user_operation \<Rightarrow> tick \<Rightarrow> spk option \<Rightarrow> spk \<Rightarrow> spk
     \<Rightarrow> operation_info analysis" where
  "detect_deploy an sigtx model t to_param royalty_to sender =
     and_then (case restricted_tokens an t of
                 Some expected \<Rightarrow> require (expected = sender) (RestrictedTickDeploy t expected sender)
               | None \<Rightarrow> Inr ()) (\<lambda>_.
     and_then (ok_or (OpDeployMissingValue ''metadata'') (uo_metadata model)) (\<lambda>metadata.
     and_then (require (\<not> has_incompatible_uri_prefix (restricted_protocols an) metadata)
                 (RestrictedMetadataProtocol (restricted_protocols an))) (\<lambda>_.
     and_then (ok_or (OpDeployMissingValue ''max'') (uo_max model)) (\<lambda>max_supply.
     and_then (require (max_supply \<noteq> - 1) MaxSupplyOverflow) (\<lambda>_.
     let premint = (case uo_premint model of Some p \<Rightarrow> p | None \<Rightarrow> 0) in
     and_then (require (\<not> premint > max_supply) (PremintGreaterThanMax max_supply)) (\<lambda>_.
     let total_deploy_fee = KSPR_FEE_DEPLOY + premint * KSPR_FEE_MINT in
     and_then (require (\<not> ct_fee sigtx < total_deploy_fee) (InsufficientDeployFee (ct_fee sigtx))) (\<lambda>_.
     and_then (royalty_of_fee (uo_royalty_fee model) royalty_to) (\<lambda>royalty.
     Inr (Deploy \<lparr>di_metadata = metadata, di_max = max_supply,
       di_deployer = (case to_param of Some p \<Rightarrow> p | None \<Rightarrow> sender), di_royalty = royalty,
       di_mint_start_daa = (case uo_daa_mint_start model of Some x \<Rightarrow> x | None \<Rightarrow> 0),
       di_premint = premint\<rparr>)))))))))"

definition detect_list ::
  "('a, 'p) node \<Rightarrow> 'p analyzer \<Rightarrow> context_transaction \<Rightarrow> user_operation \<Rightarrow> tick \<Rightarrow> operation_info analysis" where
  "detect_list node an sigtx model t =
     and_then (ok_or (OpListMissingValue ''token_id'') (uo_token_id model)) (\<lambda>token_id.
     and_then (ok_or (OpListMissingValue ''sender pubkey'') (sender_pubkey_bytes node sigtx)) (\<lambda>sender_pubkey.
     and_then (tick_str t) (\<lambda>name.
     and_then (compute_listing_p2sh node sender_pubkey name token_id (address_prefix an)) (\<lambda>(_, redeem_script).
     and_then (ok_or (OpListMissingValue ''output[0] for P2SH UTXO'') (output_spk 0 sigtx)) (\<lambda>utxo_address.
     Inr (Listing \<lparr>li_token_id = token_id, li_utxo_address = utxo_address, li_redeem_script = redeem_script\<rparr>))))))"

definition detect_send ::
  "context_transaction \<Rightarrow> user_operation \<Rightarrow> operation_info analysis" where
  "detect_send sigtx model =
     and_then (ok_or (OpSendMissingValue ''token_id'') (uo_token_id model)) (\<lambda>token_id.
     and_then (ok_or (OpSendMissingValue ''output[0] payment amount'') (output_amt 0 sigtx)) (\<lambda>payment_amount.
     and_then (ok_or (OpSendMissingValue ''input[0] previous outpoint'') (input_prev_txid 0 sigtx)) (\<lambda>listing_utxo_txid.
     Inr (Send \<lparr>si_token_id = token_id, si_payment_amount = payment_amount, si_buyer = output_spk 1 sigtx,
                si_listing_utxo_txid = listing_utxo_txid\<rparr>))))"

definition detect_krc721 ::
  "('a, 'p) node \<Rightarrow> 'p analyzer \<Rightarrow> context_transaction \<Rightarrow> operation option analysis" where
  "detect_krc721 node an sigtx =
     and_then (detect_envelope node sigtx) (\<lambda>envelope.
     case envelope of
       None \<Rightarrow> Inr None
     | Some inner_opcodes \<Rightarrow>
       and_then (map_err SerdeWithPath
                  (user_operation_from_json node (opcode_data (inner_opcodes ! (length inner_opcodes - 2))))) (\<lambda>model.
       and_then (resolve_address node an ''to'' (uo_to model)) (\<lambda>resolved_to.
       let to_param = map_option (pay_to_address_script node) resolved_to in
       and_then (resolve_address node an ''royalty_to'' (uo_royalty_to model)) (\<lambda>resolved_royalty_to.
       and_then (reveal_sender node an sigtx (inner_opcodes ! 0) (inner_opcodes ! 1)) (\<lambda>sender.
       let royalty_to = (case resolved_royalty_to of Some a \<Rightarrow> pay_to_address_script node a | None \<Rightarrow> sender) in
       and_then (tick_str (uo_tick model)) (\<lambda>name.
       and_then (map_err TickError (tick_from_str (char_to_uppercase node) (char_is_alphanumeric node) name)) (\<lambda>t.
       and_then (case uo_op model of
                   OpDiscount \<Rightarrow> detect_discount sigtx model to_param
                 | OpTransfer \<Rightarrow> detect_transfer sigtx model to_param
                 | OpMint \<Rightarrow> detect_mint sigtx to_param sender
                 | OpDeploy \<Rightarrow> detect_deploy an sigtx model t to_param royalty_to sender
                 | OpList \<Rightarrow> detect_list node an sigtx model t
                 | OpSend \<Rightarrow> detect_send sigtx model) (\<lambda>info.
       Inr (Some \<lparr>op_common = operation_common_of sigtx t sender, op_info = info\<rparr>)))))))))"

text \<open>
  The detector of the neighbouring protocol, which only the notifier uses: the JSON reader is an
  argument, and every failure is a missing result.
\<close>

definition detect_krc20 ::
  "('a, 'p) node \<Rightarrow> (bytes \<Rightarrow> string + 't) \<Rightarrow> context_transaction \<Rightarrow> 't option" where
  "detect_krc20 node from_slice sigtx =
     Option.bind (signature_script sigtx) (\<lambda>script.
       if \<not> detect_kasplex_header script then None
       else (case nth_opt 1 (parse_script node script) of
               Some (Inr opcode) \<Rightarrow>
                 if \<not> opcode_is_empty opcode \<and> opcode_is_push opcode \<and> detect_krc20_header (opcode_data opcode)
                 then (let inner_opcodes = parse_script node (opcode_data opcode) in
                       if length inner_opcodes \<ge> 2
                       then (case nth_opt (length inner_opcodes - 2) inner_opcodes of
                               Some (Inr second_to_last) \<Rightarrow>
                                 (case from_slice (opcode_data second_to_last) of Inr t \<Rightarrow> Some t | Inl _ \<Rightarrow> None)
                             | _ \<Rightarrow> None)
                       else None)
                 else None
             | _ \<Rightarrow> None))"

section \<open>What a detected operation went through\<close>

lemma detect_krc721_cases:
  assumes "detect_krc721 node an sigtx = Inr (Some x)"
  obtains inner model to_addr royalty_addr name t sender info where
    "detect_envelope node sigtx = Inr (Some inner)"
    "user_operation_from_json node (opcode_data (inner ! (length inner - 2))) = Inr model"
    "resolve_address node an ''to'' (uo_to model) = Inr to_addr"
    "resolve_address node an ''royalty_to'' (uo_royalty_to model) = Inr royalty_addr"
    "reveal_sender node an sigtx (inner ! 0) (inner ! 1) = Inr sender"
    "tick_str (uo_tick model) = Inr name"
    "tick_from_str (char_to_uppercase node) (char_is_alphanumeric node) name = Inr t"
    "(case uo_op model of
        OpDiscount \<Rightarrow> detect_discount sigtx model (map_option (pay_to_address_script node) to_addr)
      | OpTransfer \<Rightarrow> detect_transfer sigtx model (map_option (pay_to_address_script node) to_addr)
      | OpMint \<Rightarrow> detect_mint sigtx (map_option (pay_to_address_script node) to_addr) sender
      | OpDeploy \<Rightarrow> detect_deploy an sigtx model t (map_option (pay_to_address_script node) to_addr)
          (case royalty_addr of Some a \<Rightarrow> pay_to_address_script node a | None \<Rightarrow> sender) sender
      | OpList \<Rightarrow> detect_list node an sigtx model t
      | OpSend \<Rightarrow> detect_send sigtx model) = Inr info"
    "x = \<lparr>op_common = operation_common_of sigtx t sender, op_info = info\<rparr>"
proof -
  obtain inner where i: "detect_envelope node sigtx = Inr (Some inner)"
    using assms by (auto simp: detect_krc721_def and_then_Inr_iff split: option.splits)
  from assms show ?thesis
    unfolding detect_krc721_def i and_then.simps option.case Let_def and_then_Inr_iff map_err_iff
    by (elim exE conjE) (rule that, (rule i | assumption | (simp; fail))+)
qed

lemma detect_deploy_iff:
  "detect_deploy an sigtx model t to_param royalty_to sender = Inr info \<longleftrightarrow>
   (\<exists>metadata max_supply royalty.
      (\<forall>expected. restricted_tokens an t = Some expected \<longrightarrow> expected = sender) \<and>
      uo_metadata model = Some metadata \<and> \<not> has_incompatible_uri_prefix (restricted_protocols an) metadata \<and>
      uo_max model = Some max_supply \<and> max_supply \<noteq> - 1 \<and>
      (case uo_premint model of Some p \<Rightarrow> p | None \<Rightarrow> 0) \<le> max_supply \<and>
      KSPR_FEE_DEPLOY + (case uo_premint model of Some p \<Rightarrow> p | None \<Rightarrow> 0) * KSPR_FEE_MINT \<le> ct_fee sigtx \<and>
      royalty_of_fee (uo_royalty_fee model) royalty_to = Inr royalty \<and>
      info = Deploy \<lparr>di_metadata = metadata, di_max = max_supply,
        di_deployer = (case to_param of Some p \<Rightarrow> p | None \<Rightarrow> sender), di_royalty = royalty,
        di_mint_start_daa = (case uo_daa_mint_start model of Some x \<Rightarrow> x | None \<Rightarrow> 0),
        di_premint = (case uo_premint model of Some p \<Rightarrow> p | None \<Rightarrow> 0)\<rparr>)"
  by (auto simp: detect_deploy_def Let_def analysis_iff not_less split: option.splits)

lemma royalty_of_fee_Some:
  "royalty_of_fee f b = Inr (Some r) \<Longrightarrow> MIN_ROYALTY_FEE \<le> royalty_fee r \<and> royalty_fee r \<le> MAX_ROYALTY_FEE"
  by (auto simp: royalty_of_fee_def fail_def split: option.splits if_splits)

lemma detect_mint_iff:
  "detect_mint sigtx to_param sender = Inr info \<longleftrightarrow>
   KSPR_FEE_MINT \<le> ct_fee sigtx \<and>
   info = Mint \<lparr>mi_token_id = 0, mi_to = (case to_param of Some p \<Rightarrow> p | None \<Rightarrow> sender),
     mi_royalty = (case (first_output_amt sigtx, first_beneficiary sigtx) of
                     (Some fee, Some b) \<Rightarrow> Some \<lparr>beneficiary = b, royalty_fee = fee\<rparr> | _ \<Rightarrow> None)\<rparr>"
  by (auto simp: detect_mint_def analysis_iff not_less)

section \<open>A sample node and transaction\<close>

text \<open>
  A push-only parser with the codes of the node, for the witnesses: single-byte pushes, the empty
  push, and opcodes without data. Every inscription reads as a mint of the tick A.
\<close>

definition sample_next_opcode :: "bytes \<Rightarrow> ((string + opcode) \<times> bytes) option" where
  "sample_next_opcode bs =
     (case bs of
        [] \<Rightarrow> None
      | b # r \<Rightarrow>
         Some (let n = unat b in
           if b = 0 then (Inr \<lparr>opcode_value = b, opcode_is_empty = True, opcode_is_push = True, opcode_data = []\<rparr>, r)
           else if n \<le> 75 then
             (if n \<le> length r
              then (Inr \<lparr>opcode_value = b, opcode_is_empty = False, opcode_is_push = True, opcode_data = take n r\<rparr>, drop n r)
              else (Inl ''push beyond the end'', []))
           else (Inr \<lparr>opcode_value = b, opcode_is_empty = True, opcode_is_push = False, opcode_data = []\<rparr>, r)))"

definition sample_mint :: user_operation where
  "sample_mint = \<lparr>uo_protocol = Krc721, uo_op = OpMint, uo_tick = Tick 65 0 0 0 0 0 0 0 0 0, uo_token_id = None,
     uo_metadata = None, uo_max = None, uo_to = None, uo_royalty_to = None, uo_royalty_fee = None,
     uo_daa_mint_start = None, uo_discount_fee = None, uo_premint = None\<rparr>"

definition sample_node :: "(nat, nat) node" where
  "sample_node = \<lparr>deserialize_next_opcode = sample_next_opcode, OpFalse = 0, OpTrue = 0x51, OpIf = 0x63, OpEndIf = 0x68,
     OpCheckSig = 0xac, OpCheckSigECDSA = 0xab, OpData32 = 0x20, OpData33 = 0x21, PubKey_version = 0,
     PubKeyECDSA_version = 0, builder_add_data = (\<lambda>d s. Some (s @ [word_of_nat (length d)] @ d)),
     builder_add_op = (\<lambda>b s. Some (s @ [b])), builder_add_i64 = (\<lambda>i s. Some (s @ [word_of_int i])),
     address_try_from = (\<lambda>_. Inl ''invalid address''), address_prefix_of = id,
     pay_to_address_script = (\<lambda>_. Spk 0 []), pay_to_script_hash_script = Spk 0,
     extract_script_pub_key_address = (\<lambda>_ p. Some p), user_operation_from_json = (\<lambda>_. Inr sample_mint),
     char_to_uppercase = (\<lambda>c. [c]), str_to_lowercase = id, char_is_alphanumeric = (\<lambda>c. 48 \<le> c \<and> c < 91)\<rparr>"

definition sample_analyzer :: "nat analyzer" where
  "sample_analyzer = \<lparr>restricted_tokens = Map.empty, address_prefix = 0, restricted_protocols = [], daa_ecdsa_fix = 0\<rparr>"

definition sample_envelope :: "bytes \<Rightarrow> bytes" where
  "sample_envelope key = word_of_nat (length key) # key @ [0xac, 0x00, 0x63, 0x04, 107, 115, 112, 114, 0x00,
     0x07, 107, 114, 99, 45, 55, 50, 49, 0x68]"

definition sample_transaction :: "bytes \<Rightarrow> bytes \<Rightarrow> context_transaction" where
  "sample_transaction signature rest =
     \<lparr>ct_tx = \<lparr>tx_inputs = [\<lparr>in_signature_script = signature @ rest, in_previous_tx_id = 3\<rparr>],
               tx_outputs = [\<lparr>out_value = 5, out_spk = Spk 0 [1]\<rparr>], tx_hash = 7\<rparr>,
      ct_fee = KSPR_FEE_MINT, ct_block_time = 0, ct_accepting_block_daa_score = 0, ct_index_within_merged_block = 0\<rparr>"

lemma sample_next [simp]: "deserialize_next_opcode sample_node = sample_next_opcode"
  by (simp add: sample_node_def)

lemma sample_parse:
  "parse_script sample_node [] = []"
  "parse_script sample_node (b # r) =
     (if b = 0 then Inr \<lparr>opcode_value = b, opcode_is_empty = True, opcode_is_push = True, opcode_data = []\<rparr> # parse_script sample_node r
      else if unat b \<le> 75 then
        (if unat b \<le> length r
         then Inr \<lparr>opcode_value = b, opcode_is_empty = False, opcode_is_push = True, opcode_data = take (unat b) r\<rparr>
              # parse_script sample_node (drop (unat b) r)
         else [Inl ''push beyond the end''])
      else Inr \<lparr>opcode_value = b, opcode_is_empty = True, opcode_is_push = False, opcode_data = []\<rparr> # parse_script sample_node r)"
proof -
  show nil: "parse_script sample_node [] = []" by (subst parse_script.simps) (simp add: sample_next_opcode_def)
  show "parse_script sample_node (b # r) = (if b = 0 then Inr \<lparr>opcode_value = b, opcode_is_empty = True, opcode_is_push = True, opcode_data = []\<rparr> # parse_script sample_node r
      else if unat b \<le> 75 then
        (if unat b \<le> length r
         then Inr \<lparr>opcode_value = b, opcode_is_empty = False, opcode_is_push = True, opcode_data = take (unat b) r\<rparr>
              # parse_script sample_node (drop (unat b) r)
         else [Inl ''push beyond the end''])
      else Inr \<lparr>opcode_value = b, opcode_is_empty = True, opcode_is_push = False, opcode_data = []\<rparr> # parse_script sample_node r)"
    by (subst parse_script.simps) (auto simp: sample_next_opcode_def Let_def nil)
qed

definition key_A :: bytes where "key_A = replicate 32 9"

definition push_opcode :: "bytes \<Rightarrow> opcode" where
  "push_opcode d = \<lparr>opcode_value = word_of_nat (length d), opcode_is_empty = d = [], opcode_is_push = True, opcode_data = d\<rparr>"

definition plain_opcode :: "byte \<Rightarrow> opcode" where
  "plain_opcode b = \<lparr>opcode_value = b, opcode_is_empty = True, opcode_is_push = False, opcode_data = []\<rparr>"

lemma parse_push:
  assumes "d \<noteq> []" "length d \<le> 75"
  shows "parse_script sample_node (word_of_nat (length d) # d @ r) = Inr (push_opcode d) # parse_script sample_node r"
proof -
  have u: "unat (word_of_nat (length d) :: byte) = length d" using assms(2) by (intro unat_byte_of_nat) simp
  have "(word_of_nat (length d) :: byte) \<noteq> 0" using u assms(1) by (metis length_0_conv unat_0)
  with u assms show ?thesis by (simp add: sample_parse(2) push_opcode_def)
qed

lemma parse_plain:
  "75 < unat b \<Longrightarrow> parse_script sample_node (b # r) = Inr (plain_opcode b) # parse_script sample_node r"
  "parse_script sample_node (0 # r) = Inr (push_opcode []) # parse_script sample_node r"
  by (auto simp: sample_parse(2) plain_opcode_def push_opcode_def)

definition sample_opcodes :: "bytes \<Rightarrow> opcode list" where
  "sample_opcodes key = [push_opcode key, plain_opcode 0xac, push_opcode [], plain_opcode 0x63,
     push_opcode PROTOCOL_KSPR_NAMESPACE, push_opcode [], push_opcode [107, 114, 99, 45, 55, 50, 49], plain_opcode 0x68]"

lemma sample_envelope_parse:
  assumes "key \<noteq> []" "length key \<le> 32"
  shows "parse_script sample_node (sample_envelope key) = map Inr (sample_opcodes key)"
  using assms parse_push [of PROTOCOL_KSPR_NAMESPACE] parse_push [of "[107, 114, 99, 45, 55, 50, 49]"]
  by (simp add: sample_envelope_def parse_push parse_plain PROTOCOL_KSPR_NAMESPACE_def sample_opcodes_def sample_parse(1))

lemma collect_opcodes_Inr: "collect_opcodes (map Inr ops) = Inr ops"
  by (induction ops) simp_all

text \<open>A signature script: a signature, the envelope, and what may follow.\<close>

definition sample_script :: "bytes \<Rightarrow> bytes \<Rightarrow> bytes" where
  "sample_script key tail = 0x08 # replicate 8 0xaa @ word_of_nat (length (sample_envelope key)) # sample_envelope key @ tail"

lemma sample_script_parse:
  assumes "length key \<le> 32"
  shows "parse_script sample_node (sample_script key tail) =
    Inr (push_opcode (replicate 8 0xaa)) # Inr (push_opcode (sample_envelope key)) # parse_script sample_node tail"
proof -
  have "sample_envelope key \<noteq> []" "length (sample_envelope key) \<le> 75" using assms by (simp_all add: sample_envelope_def)
  then show ?thesis using parse_push [of "replicate 8 0xaa"] by (simp add: sample_script_def parse_push)
qed

lemma sample_headers:
  assumes "1 \<le> length key"
  shows "detect_kspr_header (sample_script key tail)" "detect_krc721_header (sample_envelope key)"
proof -
  have s: "sample_script key tail = (0x08 # replicate 8 0xaa @ word_of_nat (length (sample_envelope key)) # word_of_nat (length key) # key @ [0xac]) @
      KSPR_U8_STRICT @ [0x00, 0x07, 107, 114, 99, 45, 55, 50, 49, 0x68] @ tail"
    by (simp add: sample_script_def sample_envelope_def KSPR_U8_STRICT_def)
  show "detect_kspr_header (sample_script key tail)"
    unfolding detect_kspr_header_def s by (intro disjI1 window_find_append) (simp_all add: KSPR_U8_STRICT_def)
  have e: "sample_envelope key = (word_of_nat (length key) # key @ [0xac, 0x00, 0x63, 0x04, 107, 115, 112, 114, 0x00, 0x07]) @
      KRC721_HEADER_UC @ [0x68]"
    by (simp add: sample_envelope_def KRC721_HEADER_UC_def)
  show "detect_krc721_header (sample_envelope key)"
    unfolding detect_krc721_header_def e using assms by (intro disjI1 window_find_append) (simp_all add: KRC721_HEADER_UC_def)
qed

lemma push_opcode_fields [simp]:
  "opcode_is_push (push_opcode d)" "opcode_data (push_opcode d) = d" "opcode_is_empty (push_opcode d) = (d = [])"
  by (simp_all add: push_opcode_def)

lemma sample_opcodes_nth:
  "length (sample_opcodes key) = 8" "sample_opcodes key ! 0 = push_opcode key" "sample_opcodes key ! 1 = plain_opcode 0xac"
  "sample_opcodes key ! 6 = push_opcode [107, 114, 99, 45, 55, 50, 49]"
  by (simp_all add: sample_opcodes_def)

lemma sample_envelope_detected:
  assumes "1 \<le> length key" "length key \<le> 32"
  shows "detect_envelope sample_node (sample_transaction (sample_script key tail) []) = Inr (Some (sample_opcodes key))"
proof -
  have k: "key \<noteq> []" using assms(1) by auto
  have e: "sample_envelope key \<noteq> []" by (simp add: sample_envelope_def)
  have s: "signature_script (sample_transaction (sample_script key tail) []) = Some (sample_script key tail)"
    by (simp add: signature_script_def sample_transaction_def nth_opt_def)
  have o: "nth_opt 1 (parse_script sample_node (sample_script key tail)) = Some (Inr (push_opcode (sample_envelope key)))"
    unfolding sample_script_parse [OF assms(2)] by (simp add: nth_opt_def)
  have v: "validate_redeem_envelope sample_node (sample_opcodes key) = Inr ()"
    by (simp add: validate_redeem_envelope_def validate_common_opcodes_def validate_mandatory_content_def sample_opcodes_def
        slice_def require_def sample_node_def plain_opcode_def push_opcode_def)
  show ?thesis
    unfolding detect_envelope_def s option.case o ok_or_def map_err_def sum.case and_then.simps push_opcode_fields
      sample_envelope_parse [OF k assms(2)] collect_opcodes_Inr v sample_opcodes_nth(1)
    using e by (simp add: sample_headers [OF assms(1)] require_def sample_opcodes_nth)
qed

definition tick_named_A :: tick where "tick_named_A = Tick 65 0 0 0 0 0 0 0 0 0"

lemma sample_tick:
  "tick_str (uo_tick sample_mint) = Inr [65]"
  "tick_from_str (char_to_uppercase sample_node) (char_is_alphanumeric sample_node) [65] = Inr tick_named_A"
proof -
  have p: "pad10 [65] = [65, 0, 0, 0, 0, 0, 0, 0, 0, 0]" by (simp add: pad10_def eval_nat_numeral)
  have u: "to_uppercase (char_to_uppercase sample_node) [65] = [65]" by (simp add: to_uppercase_def sample_node_def)
  have b: "utf8_bytes [65] = [65]" by (simp add: utf8_bytes_def utf8_char_def)
  have n: "tick_new_unchecked [65, 0, 0, 0, 0, 0, 0, 0, 0, 0] = Some tick_named_A"
    by (simp add: tick_new_unchecked_def tick_named_A_def)
  show f: "tick_from_str (char_to_uppercase sample_node) (char_is_alphanumeric sample_node) [65] = Inr tick_named_A"
    unfolding tick_from_str_def u Let_def b p n by (simp add: sample_node_def)
  have "tick_as_str tick_named_A = Some (to_uppercase (char_to_uppercase sample_node) [65])"
    by (rule tick_as_str_from_str [OF f]) (simp_all add: u scalar_def, simp add: sample_node_def)
  then show "tick_str (uo_tick sample_mint) = Inr [65]"
    unfolding u by (simp add: tick_str_def sample_mint_def tick_named_A_def)
qed

lemma sample_model:
  "user_operation_from_json sample_node json = Inr sample_mint"
  "resolve_address sample_node an f (uo_to sample_mint) = Inr None"
  "resolve_address sample_node an f (uo_royalty_to sample_mint) = Inr None"
  by (simp_all add: sample_node_def sample_mint_def resolve_address_def)

lemma sample_detected:
  "detect_krc721 sample_node sample_analyzer (sample_transaction (sample_script key_A tail) []) =
   Inr (Some \<lparr>op_common = operation_common_of (sample_transaction (sample_script key_A tail) []) tick_named_A
                  (Spk 0 (0x20 # key_A @ [0xac])),
              op_info = Mint \<lparr>mi_token_id = 0, mi_to = Spk 0 (0x20 # key_A @ [0xac]),
                mi_royalty = Some \<lparr>beneficiary = Spk 0 [1], royalty_fee = 5\<rparr>\<rparr>\<rparr>)"
proof -
  let ?tx = "sample_transaction (sample_script key_A tail) []"
  have e: "detect_envelope sample_node ?tx = Inr (Some (sample_opcodes key_A))"
    by (rule sample_envelope_detected) (simp_all add: key_A_def)
  have s: "reveal_sender sample_node sample_analyzer ?tx (sample_opcodes key_A ! 0) (sample_opcodes key_A ! 1) =
      Inr (Spk 0 (0x20 # key_A @ [0xac]))"
    by (simp add: reveal_sender_def sample_opcodes_def plain_opcode_def push_opcode_def pay_to_pub_key_def sample_node_def key_A_def)
  have m: "detect_mint ?tx None sender = Inr (Mint \<lparr>mi_token_id = 0, mi_to = sender,
      mi_royalty = Some \<lparr>beneficiary = Spk 0 [1], royalty_fee = 5\<rparr>\<rparr>)" for sender
    by (simp add: detect_mint_def sample_transaction_def first_output_amt_def first_beneficiary_def nth_opt_def)
  have o: "uo_op sample_mint = OpMint" by (simp add: sample_mint_def)
  show ?thesis
    by (simp add: detect_krc721_def e s [unfolded One_nat_def] m o sample_model sample_tick Let_def map_err_def)
qed

section \<open>Properties\<close>

lemma detected_operation_facts:
  assumes "detect_krc721 node an sigtx = Inr (Some x)"
  shows "op_valid x \<and> oc_fee (op_common x) = ct_fee sigtx \<and>
    (\<forall>info. op_info x = Mint info \<longrightarrow> KSPR_FEE_MINT \<le> ct_fee sigtx \<and> mi_token_id info = 0) \<and>
    (\<forall>info. op_info x = Deploy info \<longrightarrow>
       KSPR_FEE_DEPLOY + di_premint info * KSPR_FEE_MINT \<le> ct_fee sigtx \<and>
       (\<forall>owner. restricted_tokens an (oc_tick (op_common x)) = Some owner \<longrightarrow> oc_sender (op_common x) = owner) \<and>
       \<not> has_incompatible_uri_prefix (restricted_protocols an) (di_metadata info) \<and>
       (\<forall>r. di_royalty info = Some r \<longrightarrow> MIN_ROYALTY_FEE \<le> royalty_fee r \<and> royalty_fee r \<le> MAX_ROYALTY_FEE))"
  using assms
proof (cases rule: detect_krc721_cases)
  case (1 inner model to_addr royalty_addr name t sender info)
  have lt: "m < - 1" if "m \<noteq> - 1" for m :: u64 using that word_n1_ge [of m] by (metis le_less)
  show ?thesis
  proof (cases "uo_op model")
    case OpDeploy
    with 1(8) have d: "detect_deploy an sigtx model t (map_option (pay_to_address_script node) to_addr)
        (case royalty_addr of Some a \<Rightarrow> pay_to_address_script node a | None \<Rightarrow> sender) sender = Inr info" by simp
    show ?thesis using d unfolding detect_deploy_iff 1(9)
      by (elim exE conjE) (auto simp: op_valid_def deploy_valid_def operation_common_of_def lt dest: royalty_of_fee_Some)
  next
    case OpMint
    with 1(8) show ?thesis by (auto simp: 1(9) detect_mint_iff op_valid_def operation_common_of_def)
  qed (use 1(8) in \<open>auto simp: 1(9) op_valid_def operation_common_of_def detect_discount_def detect_transfer_def
      detect_list_def detect_send_def analysis_iff\<close>)
qed

lemma detected_op_valid: "detect_krc721 node an sigtx = Inr (Some x) \<Longrightarrow> op_valid x"
  using detected_operation_facts by blast

text \<open>C7: Every operation that the analyzer accepts is one that the processor can take: a deployment keeps the
  premint within a supply below the largest word, pays its fee, comes from the holder of a restricted tick, and
  has its royalty in the allowed interval; a mint pays its fee and leaves the id to the processor.\<close>

theorem detected_operation_is_valid:
  assumes "detect_krc721 node an sigtx = Inr (Some x)"
  shows "op_valid x \<and> oc_fee (op_common x) = ct_fee sigtx \<and>
    (\<forall>info. op_info x = Mint info \<longrightarrow> KSPR_FEE_MINT \<le> ct_fee sigtx \<and> mi_token_id info = 0) \<and>
    (\<forall>info. op_info x = Deploy info \<longrightarrow>
       KSPR_FEE_DEPLOY + di_premint info * KSPR_FEE_MINT \<le> ct_fee sigtx \<and>
       (\<forall>owner. restricted_tokens an (oc_tick (op_common x)) = Some owner \<longrightarrow> oc_sender (op_common x) = owner) \<and>
       \<not> has_incompatible_uri_prefix (restricted_protocols an) (di_metadata info) \<and>
       (\<forall>r. di_royalty info = Some r \<longrightarrow> MIN_ROYALTY_FEE \<le> royalty_fee r \<and> royalty_fee r \<le> MAX_ROYALTY_FEE))"
  using assms by (rule detected_operation_facts)

theorem detected_operation_is_valid_witness:
  "op_valid \<lparr>op_common = operation_common_of (sample_transaction (sample_script key_A []) []) tick_named_A
              (Spk 0 (0x20 # key_A @ [0xac])),
            op_info = Mint \<lparr>mi_token_id = 0, mi_to = Spk 0 (0x20 # key_A @ [0xac]),
              mi_royalty = Some \<lparr>beneficiary = Spk 0 [1], royalty_fee = 5\<rparr>\<rparr>\<rparr>"
  using detected_operation_is_valid [OF sample_detected] by blast

lemma reveal_sender_key:
  assumes "reveal_sender node an sigtx first_opcode second_opcode = Inr sender"
  shows "(opcode_value second_opcode = OpCheckSig node \<and> length (opcode_data first_opcode) = 32 \<and>
      sender = Spk (PubKey_version node) (OpData32 node # opcode_data first_opcode @ [OpCheckSig node])) \<or>
    (opcode_value second_opcode = OpCheckSigECDSA node \<and> length (opcode_data first_opcode) = 33 \<and>
      daa_ecdsa_fix an \<le> ct_accepting_block_daa_score sigtx \<and>
      sender = Spk (PubKeyECDSA_version node) (OpData33 node # opcode_data first_opcode @ [OpCheckSigECDSA node]))"
  using assms by (auto simp: reveal_sender_def analysis_iff pay_to_pub_key_def pay_to_pub_key_ecdsa_def not_less
      split: if_splits)

text \<open>The detection depends on the second opcode of the signature script alone: two transactions whose signature
  scripts agree in it, and in nothing else but the header, yield the same operation with the same sender. The
  node's rule for such an output executes the last push of the signature script as the redeem script, so the
  sender that the analyzer names need not have signed the transaction.\<close>

theorem sender_is_read_from_the_second_opcode:
  assumes "parse_script node script = a # b # later" "parse_script node script' = a' # b # later'"
    and "detect_kspr_header script" "detect_kspr_header script'"
    and "tx_inputs (ct_tx sigtx) = \<lparr>in_signature_script = script, in_previous_tx_id = prev\<rparr> # ins"
  shows "detect_krc721 node an
      (sigtx\<lparr>ct_tx := (ct_tx sigtx)\<lparr>tx_inputs := \<lparr>in_signature_script = script', in_previous_tx_id = prev\<rparr> # ins\<rparr>\<rparr>) =
    detect_krc721 node an sigtx"
proof -
  let ?tx = "sigtx\<lparr>ct_tx := (ct_tx sigtx)\<lparr>tx_inputs := \<lparr>in_signature_script = script', in_previous_tx_id = prev\<rparr> # ins\<rparr>\<rparr>"
  have s: "signature_script sigtx = Some script" "signature_script ?tx = Some script'"
    using assms(5) by (simp_all add: signature_script_def nth_opt_def)
  have n: "nth_opt 1 (parse_script node script) = nth_opt 1 (parse_script node script')"
    using assms(1,2) by (simp add: nth_opt_def)
  have e: "detect_envelope node ?tx = detect_envelope node sigtx"
    using assms(3,4) by (simp add: detect_envelope_def s n [unfolded One_nat_def])
  have f: "ct_fee ?tx = ct_fee sigtx" "ct_accepting_block_daa_score ?tx = ct_accepting_block_daa_score sigtx"
    "first_output_amt ?tx = first_output_amt sigtx" "first_beneficiary ?tx = first_beneficiary sigtx"
    "output_amt i ?tx = output_amt i sigtx" "output_spk i ?tx = output_spk i sigtx"
    "sender_pubkey_bytes node ?tx = sender_pubkey_bytes node sigtx"
    "operation_common_of ?tx = operation_common_of sigtx" for i
    using s n by (simp_all add: first_output_amt_def first_beneficiary_def output_amt_def output_spk_def
        sender_pubkey_bytes_def operation_common_of_def fun_eq_iff)
  have i: "input_prev_txid 0 ?tx = input_prev_txid 0 sigtx"
    using assms(5) by (simp add: input_prev_txid_def nth_opt_def)
  show ?thesis
    unfolding detect_krc721_def e reveal_sender_def detect_discount_def detect_transfer_def detect_mint_def
      detect_deploy_def detect_list_def detect_send_def f i ..
qed

text \<open>The second script carries another redeem script after the envelope: the one that the node executes.\<close>

theorem sender_is_read_from_the_second_opcode_witness:
  "detect_krc721 sample_node sample_analyzer
     ((sample_transaction (sample_script key_A []) [])\<lparr>ct_tx := (ct_tx (sample_transaction (sample_script key_A []) []))
        \<lparr>tx_inputs := [\<lparr>in_signature_script = sample_script key_A [0x02, 0x75, 0x51], in_previous_tx_id = 3\<rparr>]\<rparr>\<rparr>) =
   detect_krc721 sample_node sample_analyzer (sample_transaction (sample_script key_A []) [])"
proof -
  have k: "length key_A \<le> 32" "1 \<le> length key_A" by (simp_all add: key_A_def)
  show ?thesis
    by (rule sender_is_read_from_the_second_opcode [OF sample_script_parse [OF k(1)] sample_script_parse [OF k(1)]])
      (simp_all only: sample_headers [OF k(2)], simp add: sample_transaction_def)
qed

text \<open>The analyzer panics on an envelope whose first push is not a public key: nothing before the construction
  of the sender's script checks its length, and the length is an assertion there.\<close>

theorem malformed_key_panics:
  assumes "detect_envelope node sigtx = Inr (Some inner)"
    and "user_operation_from_json node (opcode_data (inner ! (length inner - 2))) = Inr model"
    and "resolve_address node an ''to'' (uo_to model) = Inr to_addr"
    and "resolve_address node an ''royalty_to'' (uo_royalty_to model) = Inr royalty_addr"
    and "opcode_value (inner ! 1) = OpCheckSig node" and "length (opcode_data (inner ! 0)) \<noteq> 32"
  shows "detect_krc721 node an sigtx = Inl (AnalyzerPanic ''assert_eq: address_payload.len() is 32'')"
  using assms(5,6) by (simp add: detect_krc721_def assms(1-4) map_err_def Let_def reveal_sender_def pay_to_pub_key_def)

theorem malformed_key_panics_witness:
  "detect_krc721 sample_node sample_analyzer (sample_transaction (sample_script [9] []) []) =
   Inl (AnalyzerPanic ''assert_eq: address_payload.len() is 32'')"
proof -
  have e: "detect_envelope sample_node (sample_transaction (sample_script [9] []) []) = Inr (Some (sample_opcodes [9]))"
    by (rule sample_envelope_detected) simp_all
  show ?thesis
    by (rule malformed_key_panics [OF e sample_model])
      (simp add: sample_opcodes_def plain_opcode_def sample_node_def, simp add: sample_opcodes_def)
qed

text \<open>The fee of a deployment pays for its premint up to 18446743973 tokens, the largest premint whose fee fits a
  word.\<close>

theorem deploy_fee_pays_for_the_premint:
  assumes "detect_deploy an sigtx model t to_param royalty_to sender = Inr (Deploy info)"
    and "unat (di_premint info) \<le> 18446743973"
  shows "100000000000 + unat (di_premint info) * 1000000000 \<le> unat (ct_fee sigtx)"
proof -
  let ?p = "di_premint info"
  have f: "KSPR_FEE_DEPLOY + ?p * KSPR_FEE_MINT \<le> ct_fee sigtx"
    using assms(1) by (auto simp: detect_deploy_iff)
  have c: "unat KSPR_FEE_MINT = 1000000000" "unat KSPR_FEE_DEPLOY = 100000000000"
    by (simp_all add: KSPR_FEE_MINT_def KSPR_FEE_DEPLOY_def SOMPI_PER_KASPA_def)
  have m: "unat ?p * 1000000000 \<le> 18446743973000000000" using assms(2) by simp
  then have p: "unat (?p * KSPR_FEE_MINT) = unat ?p * 1000000000"
    using unat_mult_no_overflow [of ?p KSPR_FEE_MINT] by (simp add: c)
  then have "unat (KSPR_FEE_DEPLOY + ?p * KSPR_FEE_MINT) = 100000000000 + unat ?p * 1000000000"
    using unat_add_no_overflow [of KSPR_FEE_DEPLOY "?p * KSPR_FEE_MINT"] m by (simp add: c)
  with f show ?thesis by (simp add: word_le_nat_alt)
qed

definition sample_deploy :: "u64 \<Rightarrow> u64 \<Rightarrow> user_operation" where
  "sample_deploy max_supply premint = \<lparr>uo_protocol = Krc721, uo_op = OpDeploy, uo_tick = tick_named_A, uo_token_id = None,
     uo_metadata = Some (Remote []), uo_max = Some max_supply, uo_to = None, uo_royalty_to = None, uo_royalty_fee = None,
     uo_daa_mint_start = None, uo_discount_fee = None, uo_premint = Some premint\<rparr>"

definition deploy_result :: "spk \<Rightarrow> u64 \<Rightarrow> u64 \<Rightarrow> deploy_info" where
  "deploy_result sender max_supply premint =
     \<lparr>di_metadata = Remote [], di_max = max_supply, di_deployer = sender, di_royalty = None, di_mint_start_daa = 0,
      di_premint = premint\<rparr>"

definition paid :: "u64 \<Rightarrow> context_transaction" where
  "paid fee = (sample_transaction [] [])\<lparr>ct_fee := fee\<rparr>"

definition open_analyzer :: "nat analyzer" where
  "open_analyzer = sample_analyzer\<lparr>restricted_protocols := [[]]\<rparr>"

lemma sample_deploy_detected:
  assumes "premint \<le> max_supply" "max_supply \<noteq> - 1" "KSPR_FEE_DEPLOY + premint * KSPR_FEE_MINT \<le> fee"
  shows "detect_deploy open_analyzer (paid fee) (sample_deploy max_supply premint) t None b sender =
    Inr (Deploy (deploy_result sender max_supply premint))"
  using assms by (simp add: detect_deploy_iff open_analyzer_def sample_analyzer_def sample_deploy_def paid_def
      royalty_of_fee_def deploy_result_def)

theorem deploy_fee_pays_for_the_premint_witness:
  "100000000000 + unat (di_premint (deploy_result (Spk 0 []) 10 2)) * 1000000000 \<le> unat (ct_fee (paid 102000000000))"
proof -
  have "detect_deploy open_analyzer (paid 102000000000) (sample_deploy 10 2) tick_named_A None (Spk 0 []) (Spk 0 []) =
      Inr (Deploy (deploy_result (Spk 0 []) 10 2))"
    by (rule sample_deploy_detected) (simp_all add: KSPR_FEE_DEPLOY_def KSPR_FEE_MINT_def SOMPI_PER_KASPA_def word_le_nat_alt)
  then show ?thesis by (rule deploy_fee_pays_for_the_premint) (simp add: deploy_result_def)
qed

definition premint_of :: "user_operation \<Rightarrow> u64" where
  "premint_of model = (case uo_premint model of Some p \<Rightarrow> p | None \<Rightarrow> 0)"

definition deploy_price :: "user_operation \<Rightarrow> nat" where
  "deploy_price model = 100000000000 + unat (premint_of model) * 1000000000"

lemma deploy_fee_word: "unat (KSPR_FEE_DEPLOY + premint_of model * KSPR_FEE_MINT) = deploy_price model mod 2 ^ 64"
  by (simp add: deploy_price_def KSPR_FEE_DEPLOY_def KSPR_FEE_MINT_def SOMPI_PER_KASPA_def unat_word_ariths mod_simps)

text \<open>C40: The price of a deployment is 1000 KAS and 10 KAS for every preminted token, in sompi. The analyzer computes it
  modulo 2^64: a deployment that it accepts with some fee it accepts, with the same result, with exactly the fees
  that reach the price modulo 2^64. So some fee below the price is accepted if and only if the price does not
  fit into 64 bits.\<close>

theorem deploy_fee_wraps:
  assumes "detect_deploy an sigtx model t to_param royalty_to sender = Inr info"
  shows "(\<forall>fee. detect_deploy an (sigtx\<lparr>ct_fee := fee\<rparr>) model t to_param royalty_to sender = Inr info \<longleftrightarrow>
        deploy_price model mod 2 ^ 64 \<le> unat fee) \<and>
    ((\<exists>fee. unat fee < deploy_price model \<and>
        detect_deploy an (sigtx\<lparr>ct_fee := fee\<rparr>) model t to_param royalty_to sender = Inr info) \<longleftrightarrow>
     2 ^ 64 \<le> deploy_price model)"
proof -
  have "detect_deploy an (sigtx\<lparr>ct_fee := fee\<rparr>) model t to_param royalty_to sender = Inr info \<longleftrightarrow>
      KSPR_FEE_DEPLOY + premint_of model * KSPR_FEE_MINT \<le> fee" for fee
    using assms unfolding detect_deploy_iff by (auto simp: premint_of_def)
  then have iff: "detect_deploy an (sigtx\<lparr>ct_fee := fee\<rparr>) model t to_param royalty_to sender = Inr info \<longleftrightarrow>
      deploy_price model mod 2 ^ 64 \<le> unat fee" for fee
    by (simp only: word_le_nat_alt deploy_fee_word)
  have "2 ^ 64 \<le> deploy_price model"
    if "unat fee < deploy_price model" "deploy_price model mod 2 ^ 64 \<le> unat fee" for fee :: u64
    using that by (cases "2 ^ 64 \<le> deploy_price model") simp_all
  moreover have "\<exists>fee :: u64. unat fee < deploy_price model \<and> deploy_price model mod 2 ^ 64 \<le> unat fee"
    if "2 ^ 64 \<le> deploy_price model"
  proof (intro exI conjI)
    show "unat (word_of_nat (deploy_price model) :: u64) < deploy_price model"
      using that mod_less_divisor [of "2 ^ 64" "deploy_price model"] by (simp add: unat_of_nat)
  qed (simp add: unat_of_nat)
  ultimately show ?thesis unfolding iff by blast
qed

text \<open>A premint of 2^55 tokens for the bare fee of a deployment: its price is 1000 KAS modulo 2^64.\<close>

theorem deploy_fee_wraps_witness:
  "deploy_price (sample_deploy (2 ^ 56) (2 ^ 55)) = 36028797018963968 * 1000000000 + 100000000000 \<and>
   detect_deploy open_analyzer ((paid 200000000000)\<lparr>ct_fee := KSPR_FEE_DEPLOY\<rparr>) (sample_deploy (2 ^ 56) (2 ^ 55)) tick_named_A None
     (Spk 0 []) (Spk 0 [1]) = Inr (Deploy (deploy_result (Spk 0 [1]) (2 ^ 56) (2 ^ 55)))"
proof
  show p: "deploy_price (sample_deploy (2 ^ 56) (2 ^ 55)) = 36028797018963968 * 1000000000 + 100000000000"
    by (simp add: deploy_price_def premint_of_def sample_deploy_def)
  have "detect_deploy open_analyzer (paid 200000000000) (sample_deploy (2 ^ 56) (2 ^ 55)) tick_named_A None (Spk 0 []) (Spk 0 [1]) =
      Inr (Deploy (deploy_result (Spk 0 [1]) (2 ^ 56) (2 ^ 55)))"
    by (rule sample_deploy_detected) (simp_all add: KSPR_FEE_DEPLOY_def KSPR_FEE_MINT_def SOMPI_PER_KASPA_def word_le_nat_alt)
  note wraps = deploy_fee_wraps [OF this, THEN conjunct1, THEN spec, of KSPR_FEE_DEPLOY]
  show "detect_deploy open_analyzer ((paid 200000000000)\<lparr>ct_fee := KSPR_FEE_DEPLOY\<rparr>) (sample_deploy (2 ^ 56) (2 ^ 55)) tick_named_A None
     (Spk 0 []) (Spk 0 [1]) = Inr (Deploy (deploy_result (Spk 0 [1]) (2 ^ 56) (2 ^ 55)))"
    unfolding wraps p by (simp add: KSPR_FEE_DEPLOY_def SOMPI_PER_KASPA_def)
qed

end
