(* ===== verification/Syncer.thy ===== *)
theory Syncer
  imports Analyzer "HOL-Library.Product_Lexorder" "HOL-Library.Multiset"
begin

unbundle bit_operations_syntax

text \<open>
  The reconstruction of accepted blocks and the sync loop, \<^verbatim>\<open>nexus/src/syncer.rs\<close>. The node behind
  \<^verbatim>\<open>nexus/src/bridge.rs\<close> is a function from block hashes to blocks, with nothing for a failed call; the
  conversion of a transaction from its RPC form is an argument as well. The result of a
  reconstruction is the list of merge sets that \<^verbatim>\<open>process_additions\<close> takes.
\<close>

section \<open>RPC data\<close>

record rpc_transaction_verbose =
  rv_block_hash :: "hash option"
  rv_block_time :: "u64 option"

text \<open>The amount of an input is three options deep: the verbose data, its entry, and the amount.\<close>

record rpc_transaction =
  rpc_verbose :: "rpc_transaction_verbose option"
  rpc_input_amounts :: "u64 option option option list"
  rpc_output_values :: "u64 option list"

record accepted_transactions =
  ac_hash :: "hash option"
  ac_blue_score :: "u64 option"
  ac_daa_score :: "u64 option"
  ac_transactions :: "rpc_transaction list"

record block_verbose =
  bv_selected_parent_hash :: hash
  bv_merge_set_blues_hashes :: "hash list"
  bv_merge_set_reds_hashes :: "hash list"

record rpc_block =
  bl_timestamp :: u64
  bl_blue_work :: "192 word"
  bl_blue_score :: u64
  bl_verbose :: "block_verbose option"

datatype sync_error = SyncCustom string | BridgeError

type_synonym bridge = "hash \<Rightarrow> rpc_block option"
type_synonym block_cache = "hash \<rightharpoonup> rpc_block"

record merged_block =
  mb_hash :: hash
  mb_timestamp :: u64
  mb_transactions :: "rpc_transaction list"

record chain_block =
  cb_accepted_chain_block_hash :: hash
  cb_blue_score :: u64
  cb_daa_score :: u64
  cb_merged_blocks :: "merged_block list"

section \<open>Small functions\<close>

definition is_origin_hash :: "hash \<Rightarrow> bool" where
  "is_origin_hash h = list_all (\<lambda>b. b = 0xfe) (hash_be h)"

definition rpc_transaction_fee :: "rpc_transaction \<Rightarrow> u64" where
  "rpc_transaction_fee tx =
     sat_sub (sum_list (List.map_filter id (map (\<lambda>v. Option.bind (Option.bind v id) id) (rpc_input_amounts tx))))
             (sum_list (List.map_filter id (rpc_output_values tx)))"

fun chunks8 :: "bytes \<Rightarrow> bytes list" where
  "chunks8 [] = []"
| "chunks8 (b # bs) = take 8 (b # bs) # chunks8 (drop 8 (b # bs))"

text \<open>\<^verbatim>\<open>u64::from_le_bytes\<close> of eight bytes.\<close>

definition u64_of_le :: "bytes \<Rightarrow> u64" where
  "u64_of_le bs = word_of_nat (be_nat (rev bs))"

definition add_block_hash :: "hash \<Rightarrow> u64 \<Rightarrow> u64" where
  "add_block_hash h entropy = foldl (\<lambda>accum item. accum XOR u64_of_le item) entropy (chunks8 (hash_be h))"

definition mergeset_entropy :: "hash list \<Rightarrow> u64" where
  "mergeset_entropy hs = fold add_block_hash hs 0"

definition is_same_sync_point :: "blue_hash_key \<Rightarrow> blue_hash_key \<Rightarrow> bool" where
  "is_same_sync_point from sink = (from = sink)"

datatype target_progress = Pending | Reached | Obsolete

definition classify_target_progress ::
  "hash list \<Rightarrow> blue_hash_key option \<Rightarrow> blue_hash_key \<Rightarrow> target_progress" where
  "classify_target_progress added last_added target =
     (if bh_block_hash target \<in> set added then Reached
      else (case last_added of
              Some la \<Rightarrow> if bh_blue_score la \<ge> bh_blue_score target then Obsolete else Pending
            | None \<Rightarrow> Pending))"

text \<open>The records of accepted transactions must be those of the added blocks, in their order.\<close>

fun matching_hashes :: "nat \<Rightarrow> (hash \<times> accepted_transactions) list \<Rightarrow> sync_error + unit" where
  "matching_hashes i [] = Inr ()"
| "matching_hashes i ((expected, accepted) # rest) =
     (case ac_hash accepted of
        None \<Rightarrow> Inl (SyncCustom ''missing accepted chain block hash'')
      | Some actual \<Rightarrow>
          if actual \<noteq> expected then Inl (SyncCustom ''acceptance record hash mismatch'')
          else matching_hashes (i + 1) rest)"

definition validate_historical_acceptance_coverage ::
  "hash list \<Rightarrow> accepted_transactions list \<Rightarrow> sync_error + unit" where
  "validate_historical_acceptance_coverage added accepted =
     (if length added \<noteq> length accepted
      then Inl (SyncCustom ''added chain block count does not match acceptance record count'')
      else matching_hashes 0 (zip added accepted))"

section \<open>Reconstruction of an accepted block\<close>

definition get_cached_block :: "bridge \<Rightarrow> hash \<Rightarrow> block_cache \<Rightarrow> sync_error + (rpc_block \<times> block_cache)" where
  "get_cached_block br h cache =
     (case cache h of
        Some b \<Rightarrow> Inr (b, cache)
      | None \<Rightarrow> (case br h of None \<Rightarrow> Inl BridgeError | Some b \<Rightarrow> Inr (b, cache(h \<mapsto> b))))"

type_synonym sortable = "(hash \<times> 192 word \<times> u64) list"

text \<open>
  One block of the merge set: nothing when it is known, the zero work and time for the origin, the
  header's otherwise.
\<close>

definition add_sortable ::
  "bridge \<Rightarrow> hash \<Rightarrow> sortable \<times> hash set \<times> block_cache \<Rightarrow> sync_error + (sortable \<times> hash set \<times> block_cache)" where
  "add_sortable br h = (\<lambda>(sortable, known, cache).
     if h \<in> known then Inr (sortable, known, cache)
     else if is_origin_hash h then Inr (sortable @ [(h, 0, 0)], insert h known, cache)
     else and_then (get_cached_block br h cache) (\<lambda>(b, cache1).
       Inr (sortable @ [(h, bl_blue_work b, bl_timestamp b)], insert h known, cache1)))"

fun add_sortables ::
  "bridge \<Rightarrow> hash list \<Rightarrow> sortable \<times> hash set \<times> block_cache \<Rightarrow> sync_error + (sortable \<times> hash set \<times> block_cache)" where
  "add_sortables br [] st = Inr st"
| "add_sortables br (h # hs) st = and_then (add_sortable br h st) (add_sortables br hs)"

definition transaction_block_hash :: "rpc_transaction \<Rightarrow> sync_error + hash" where
  "transaction_block_hash tx =
     (case rpc_verbose tx of
        None \<Rightarrow> Inl (SyncCustom ''accepted transaction is missing verbose data'')
      | Some v \<Rightarrow> (case rv_block_hash v of
                     None \<Rightarrow> Inl (SyncCustom ''accepted transaction is missing verbose block hash'')
                   | Some h \<Rightarrow> Inr h))"

text \<open>Blocks that only a transaction names are added from the transaction.\<close>

fun add_transaction_blocks ::
  "bridge \<Rightarrow> rpc_transaction list \<Rightarrow> sortable \<times> hash set \<times> block_cache \<Rightarrow> sync_error + (sortable \<times> hash set \<times> block_cache)" where
  "add_transaction_blocks br [] st = Inr st"
| "add_transaction_blocks br (tx # txs) st =
     and_then (transaction_block_hash tx) (\<lambda>h.
     and_then (add_sortable br h st) (add_transaction_blocks br txs))"

definition sort_blocks :: "sortable \<Rightarrow> sortable" where
  "sort_blocks = sort_key (\<lambda>(h, work, time). (work, h))"

text \<open>A map from the hash of a merged block to its index; a later block would replace an earlier one.\<close>

fun insert_indexes :: "nat \<Rightarrow> merged_block list \<Rightarrow> (hash \<rightharpoonup> nat) \<Rightarrow> (hash \<rightharpoonup> nat)" where
  "insert_indexes i [] m = m"
| "insert_indexes i (b # bs) m = insert_indexes (i + 1) bs (m(mb_hash b \<mapsto> i))"

definition block_indexes :: "merged_block list \<Rightarrow> (hash \<rightharpoonup> nat)" where
  "block_indexes bs = insert_indexes 0 bs Map.empty"

definition push_transaction :: "nat \<Rightarrow> rpc_transaction \<Rightarrow> merged_block list \<Rightarrow> merged_block list" where
  "push_transaction i tx bs = bs[i := (bs ! i)\<lparr>mb_transactions := mb_transactions (bs ! i) @ [tx]\<rparr>]"

fun place_transactions ::
  "(hash \<rightharpoonup> nat) \<Rightarrow> rpc_transaction list \<Rightarrow> merged_block list \<Rightarrow> sync_error + merged_block list" where
  "place_transactions indexes [] bs = Inr bs"
| "place_transactions indexes (tx # txs) bs =
     and_then (transaction_block_hash tx) (\<lambda>h.
       case indexes h of
         None \<Rightarrow> Inl (SyncCustom ''accepted transaction was not found in reconstructed mergeset'')
       | Some i \<Rightarrow> place_transactions indexes txs (push_transaction i tx bs))"

definition sync_ok_or :: "string \<Rightarrow> 'a option \<Rightarrow> sync_error + 'a" where
  "sync_ok_or msg x = (case x of None \<Rightarrow> Inl (SyncCustom msg) | Some a \<Rightarrow> Inr a)"

definition empty_block :: "hash \<Rightarrow> u64 \<Rightarrow> merged_block" where
  "empty_block h time = \<lparr>mb_hash = h, mb_timestamp = time, mb_transactions = []\<rparr>"

definition reconstruct_chain_block_acceptance ::
  "bridge \<Rightarrow> accepted_transactions \<Rightarrow> block_cache \<Rightarrow> sync_error + (chain_block \<times> block_cache)" where
  "reconstruct_chain_block_acceptance br accepted cache =
     and_then (sync_ok_or ''missing accepted chain block hash in V2 response'' (ac_hash accepted)) (\<lambda>block_hash.
     and_then (sync_ok_or ''missing accepted chain block blue score in V2 response'' (ac_blue_score accepted)) (\<lambda>blue_score.
     and_then (sync_ok_or ''missing accepted chain block DAA score in V2 response'' (ac_daa_score accepted)) (\<lambda>daa_score.
     and_then (get_cached_block br block_hash cache) (\<lambda>(accepting_block, cache1).
     and_then (sync_ok_or ''missing verbose data for accepted chain block'' (bl_verbose accepting_block)) (\<lambda>verbose.
     let parent = bv_selected_parent_hash verbose in
     and_then (if is_origin_hash parent then Inr (0, cache1)
               else and_then (get_cached_block br parent cache1) (\<lambda>(b, c). Inr (bl_timestamp b, c))) (\<lambda>(parent_time, cache2).
     and_then (add_sortables br
                 (filter (\<lambda>h. h \<noteq> parent) (bv_merge_set_blues_hashes verbose) @ bv_merge_set_reds_hashes verbose)
                 ([], {parent}, cache2)) (\<lambda>st1.
     and_then (add_transaction_blocks br (ac_transactions accepted) st1) (\<lambda>(sortable, known, cache3).
     let merged = empty_block parent parent_time # map (\<lambda>(h, work, time). empty_block h time) (sort_blocks sortable) in
     and_then (place_transactions (block_indexes merged) (ac_transactions accepted) merged) (\<lambda>merged_blocks.
     Inr (\<lparr>cb_accepted_chain_block_hash = block_hash, cb_blue_score = blue_score, cb_daa_score = daa_score,
           cb_merged_blocks = merged_blocks\<rparr>, cache3))))))))))"

text \<open>The older reconstruction, from the transactions alone; incomplete transactions are skipped.\<close>

fun group_transactions :: "rpc_transaction list \<Rightarrow> (hash \<rightharpoonup> nat) \<Rightarrow> merged_block list \<Rightarrow> merged_block list" where
  "group_transactions [] indexes bs = bs"
| "group_transactions (tx # txs) indexes bs =
     (case Option.bind (rpc_verbose tx) (\<lambda>v. Option.bind (rv_block_hash v) (\<lambda>h. map_option (Pair h) (rv_block_time v))) of
        None \<Rightarrow> group_transactions txs indexes bs
      | Some (h, time) \<Rightarrow>
         (case indexes h of
            Some i \<Rightarrow> group_transactions txs indexes (push_transaction i tx bs)
          | None \<Rightarrow> group_transactions txs (indexes(h \<mapsto> length bs))
                      (push_transaction (length bs) tx (bs @ [empty_block h time]))))"

definition value_or :: "'a \<Rightarrow> 'a option \<Rightarrow> 'a" where
  "value_or d x = (case x of Some a \<Rightarrow> a | None \<Rightarrow> d)"

definition from_flat_accepted_transactions :: "accepted_transactions \<Rightarrow> chain_block" where
  "from_flat_accepted_transactions accepted =
     \<lparr>cb_accepted_chain_block_hash = value_or 0 (ac_hash accepted), cb_blue_score = value_or 0 (ac_blue_score accepted),
      cb_daa_score = value_or 0 (ac_daa_score accepted),
      cb_merged_blocks = group_transactions (ac_transactions accepted) Map.empty []\<rparr>"

section \<open>From accepted blocks to merge sets\<close>

text \<open>
  One transaction: the operation, or the rejection that is stored for it. A conversion failure gives
  neither; a panic of the analyzer is a panic here.
\<close>

definition detect_transaction ::
  "('a, 'p) node \<Rightarrow> 'p analyzer \<Rightarrow> (rpc_transaction \<Rightarrow> transaction option) \<Rightarrow> chain_block \<Rightarrow> merged_block
     \<Rightarrow> u64 \<Rightarrow> u64 \<Rightarrow> rpc_transaction \<Rightarrow> string + (mergeset_operation list \<times> (hash \<times> analyzer_error) list)" where
  "detect_transaction node an convert cb mb block_index tx_index rpc_tx =
     (case convert rpc_tx of
        None \<Rightarrow> Inr ([], [])
      | Some tx \<Rightarrow>
         (case detect_krc721 node an
                 \<lparr>ct_tx = tx, ct_fee = rpc_transaction_fee rpc_tx, ct_block_time = mb_timestamp mb,
                  ct_accepting_block_daa_score = cb_daa_score cb, ct_index_within_merged_block = tx_index\<rparr> of
            Inl (AnalyzerPanic msg) \<Rightarrow> Inl msg
          | Inl (AnalyzerError e) \<Rightarrow> Inr ([], [(tx_hash tx, e)])
          | Inr None \<Rightarrow> Inr ([], [])
          | Inr (Some x) \<Rightarrow> Inr ([\<lparr>mo_block_index_within_mergeset = block_index,
                                 mo_index_within_merged_block = tx_index, mo_operation = x\<rparr>], [])))"

text \<open>\<^verbatim>\<open>flat_map\<close> over an enumerated list, up to the first panic.\<close>

fun flat_map_enumerated ::
  "(u64 \<Rightarrow> 'a \<Rightarrow> string + ('b list \<times> 'c list)) \<Rightarrow> nat \<Rightarrow> 'a list \<Rightarrow> string + ('b list \<times> 'c list)" where
  "flat_map_enumerated f i [] = Inr ([], [])"
| "flat_map_enumerated f i (x # xs) =
     and_then (f (word_of_nat i) x) (\<lambda>(bs, cs).
     and_then (flat_map_enumerated f (Suc i) xs) (\<lambda>(bs', cs'). Inr (bs @ bs', cs @ cs')))"

definition mergeset_of_block ::
  "('a, 'p) node \<Rightarrow> 'p analyzer \<Rightarrow> (rpc_transaction \<Rightarrow> transaction option) \<Rightarrow> chain_block
     \<Rightarrow> string + (mergeset \<times> (hash \<times> analyzer_error) list)" where
  "mergeset_of_block node an convert cb =
     and_then (flat_map_enumerated (\<lambda>i mb. flat_map_enumerated (detect_transaction node an convert cb mb i) 0 (mb_transactions mb))
                 0 (cb_merged_blocks cb)) (\<lambda>(operations, rejections).
     Inr (\<lparr>ms_operations = operations, ms_entropy = mergeset_entropy (map mb_hash (cb_merged_blocks cb)),
           ms_blue_score = cb_blue_score cb, ms_accepted_chain_block_hash = cb_accepted_chain_block_hash cb\<rparr>, rejections))"

fun process_reconstructed_acceptance_data ::
  "('a, 'p) node \<Rightarrow> 'p analyzer \<Rightarrow> (rpc_transaction \<Rightarrow> transaction option) \<Rightarrow> chain_block list
     \<Rightarrow> string + (mergeset list \<times> (hash \<times> analyzer_error) list)" where
  "process_reconstructed_acceptance_data node an convert [] = Inr ([], [])"
| "process_reconstructed_acceptance_data node an convert (cb # cbs) =
     and_then (mergeset_of_block node an convert cb) (\<lambda>(m, rs).
     and_then (process_reconstructed_acceptance_data node an convert cbs) (\<lambda>(ms, rs'). Inr (m # ms, rs @ rs')))"

definition process_acceptance_data ::
  "('a, 'p) node \<Rightarrow> 'p analyzer \<Rightarrow> (rpc_transaction \<Rightarrow> transaction option) \<Rightarrow> accepted_transactions list
     \<Rightarrow> string + (mergeset list \<times> (hash \<times> analyzer_error) list)" where
  "process_acceptance_data node an convert accepted =
     process_reconstructed_acceptance_data node an convert (map from_flat_accepted_transactions accepted)"

text \<open>The blocks of one response share a cache of the blocks of the node.\<close>

fun reconstruct_blocks :: "bridge \<Rightarrow> accepted_transactions list \<Rightarrow> block_cache \<Rightarrow> sync_error + chain_block list" where
  "reconstruct_blocks br [] cache = Inr []"
| "reconstruct_blocks br (a # as) cache =
     and_then (reconstruct_chain_block_acceptance br a cache) (\<lambda>(cb, cache1).
     and_then (reconstruct_blocks br as cache1) (\<lambda>cbs. Inr (cb # cbs)))"

definition reconstruct_and_process_acceptance_data ::
  "('a, 'p) node \<Rightarrow> 'p analyzer \<Rightarrow> (rpc_transaction \<Rightarrow> transaction option) \<Rightarrow> bridge \<Rightarrow> accepted_transactions list
     \<Rightarrow> sync_error + (string + (mergeset list \<times> (hash \<times> analyzer_error) list))" where
  "reconstruct_and_process_acceptance_data node an convert br accepted =
     and_then (reconstruct_blocks br accepted Map.empty) (\<lambda>cbs.
     Inr (process_reconstructed_acceptance_data node an convert cbs))"

section \<open>The operations come in score order\<close>

text \<open>
  What the scores need of a chain block: fewer merged blocks than the merge set limit, at most a
  thousand accepted transactions in each, and a blue score whose scores fit.
\<close>

definition regular_block :: "u64 \<Rightarrow> chain_block \<Rightarrow> bool" where
  "regular_block msl cb =
     (length (cb_merged_blocks cb) \<le> unat msl \<and> (\<forall>mb \<in> set (cb_merged_blocks cb). length (mb_transactions mb) \<le> 1000) \<and>
      (unat (cb_blue_score cb) + 1) * (unat msl * 1000) < 2 ^ 64)"

text \<open>The place of an operation, as numbers; pairs are compared in lexicographic order.\<close>

definition position :: "mergeset_operation \<Rightarrow> nat \<times> nat" where
  "position o1 = (unat (mo_block_index_within_mergeset o1), unat (mo_index_within_merged_block o1))"

lemma detect_transaction_operation:
  assumes "detect_transaction node an convert cb mb i j tx = Inr (os, rs)"
  shows "os = [] \<or> (\<exists>x. os = [x] \<and> mo_block_index_within_mergeset x = i \<and> mo_index_within_merged_block x = j \<and>
    op_valid (mo_operation x))"
  using assms
  by (auto simp: detect_transaction_def split: option.splits sum.splits analyzer_failure.splits dest: detected_op_valid)

lemma block_operations:
  "flat_map_enumerated (detect_transaction node an convert cb mb i) j txs = Inr (os, rs) \<Longrightarrow> j + length txs \<le> 2 ^ 64 \<Longrightarrow>
   sorted_wrt (\<lambda>x y. position x < position y) os \<and>
   (\<forall>x \<in> set os. fst (position x) = unat i \<and> j \<le> snd (position x) \<and> snd (position x) < j + length txs \<and> op_valid (mo_operation x))"
proof (induction txs arbitrary: j os rs)
  case (Cons tx txs)
  obtain os1 rs1 os2 rs2 where h: "detect_transaction node an convert cb mb i (word_of_nat j) tx = Inr (os1, rs1)"
    and t: "flat_map_enumerated (detect_transaction node an convert cb mb i) (Suc j) txs = Inr (os2, rs2)"
    and os: "os = os1 @ os2"
    using Cons.prems(1) by (auto simp: and_then_Inr_iff)
  have r: "sorted_wrt (\<lambda>x y. position x < position y) os2 \<and>
     (\<forall>x \<in> set os2. fst (position x) = unat i \<and> Suc j \<le> snd (position x) \<and> snd (position x) < Suc j + length txs \<and> op_valid (mo_operation x))"
    using Cons.IH [OF t] Cons.prems(2) by simp
  have j: "unat (word_of_nat j :: u64) = j" using Cons.prems(2) by (intro unat_u64_of_nat) simp
  from detect_transaction_operation [OF h] show ?case
  proof (elim disjE exE conjE)
    assume "os1 = []"
    with r os show ?thesis by auto
  next
    fix x assume x: "os1 = [x]" "mo_block_index_within_mergeset x = i" "mo_index_within_merged_block x = word_of_nat j"
      "op_valid (mo_operation x)"
    then have "position x = (unat i, j)" by (simp add: position_def j)
    with x r os show ?thesis by (auto simp: less_prod_def')
  qed
qed simp

lemma mergeset_operations:
  "flat_map_enumerated (\<lambda>i mb. flat_map_enumerated (detect_transaction node an convert cb mb i) 0 (mb_transactions mb)) i mbs =
     Inr (os, rs) \<Longrightarrow>
   i + length mbs \<le> 2 ^ 64 \<Longrightarrow> \<forall>mb \<in> set mbs. length (mb_transactions mb) \<le> 1000 \<Longrightarrow>
   sorted_wrt (\<lambda>x y. position x < position y) os \<and>
   (\<forall>x \<in> set os. i \<le> fst (position x) \<and> fst (position x) < i + length mbs \<and> snd (position x) < 1000 \<and> op_valid (mo_operation x))"
proof (induction mbs arbitrary: i os rs)
  case (Cons mb mbs)
  obtain os1 rs1 os2 rs2
    where h: "flat_map_enumerated (detect_transaction node an convert cb mb (word_of_nat i)) 0 (mb_transactions mb) = Inr (os1, rs1)"
    and t: "flat_map_enumerated (\<lambda>i mb. flat_map_enumerated (detect_transaction node an convert cb mb i) 0 (mb_transactions mb)) (Suc i) mbs =
      Inr (os2, rs2)"
    and os: "os = os1 @ os2"
    using Cons.prems(1) by (auto simp: and_then_Inr_iff)
  have u: "unat (word_of_nat i :: u64) = i" using Cons.prems(2) by (intro unat_u64_of_nat) simp
  have l: "length (mb_transactions mb) \<le> 1000" using Cons.prems(3) by simp
  have a: "sorted_wrt (\<lambda>x y. position x < position y) os1 \<and>
      (\<forall>x \<in> set os1. fst (position x) = i \<and> snd (position x) < 1000 \<and> op_valid (mo_operation x))"
    using block_operations [OF h] l by (auto simp: u)
  have b: "sorted_wrt (\<lambda>x y. position x < position y) os2 \<and>
     (\<forall>x \<in> set os2. Suc i \<le> fst (position x) \<and> fst (position x) < Suc i + length mbs \<and> snd (position x) < 1000 \<and> op_valid (mo_operation x))"
    using Cons.IH [OF t] Cons.prems(2,3) by simp
  have "position x < position y" if "x \<in> set os1" "y \<in> set os2" for x y
    using a b that by (auto simp: less_prod_def' Suc_le_eq)
  with a b os show ?case by (auto simp: sorted_wrt_append)
qed simp

lemma mergeset_of_block_scores:
  assumes "mergeset_of_block node an convert cb = Inr (m, rs)" "regular_block msl cb" "0 < msl"
  shows "sorted_wrt (<) (mergeset_scores msl m)" and "ms_blue_score m = cb_blue_score cb"
    and "\<forall>x \<in> set (ms_operations m). op_valid (mo_operation x) \<and>
      regular msl (cb_blue_score cb) (mo_block_index_within_mergeset x) (mo_index_within_merged_block x)"
proof -
  obtain os where o: "flat_map_enumerated (\<lambda>i mb. flat_map_enumerated (detect_transaction node an convert cb mb i) 0 (mb_transactions mb))
      0 (cb_merged_blocks cb) = Inr (os, rs)"
    and m: "ms_operations m = os" "ms_blue_score m = cb_blue_score cb"
    using assms(1) by (auto simp: mergeset_of_block_def and_then_Inr_iff)
  have l: "length (cb_merged_blocks cb) \<le> 2 ^ 64"
    using assms(2) unsigned_less [of msl, where ?'a = nat] by (simp add: regular_block_def)
  have p: "sorted_wrt (\<lambda>x y. position x < position y) os"
    "\<forall>x \<in> set os. fst (position x) < length (cb_merged_blocks cb) \<and> snd (position x) < 1000 \<and> op_valid (mo_operation x)"
    using mergeset_operations [OF o] l assms(2) by (auto simp: regular_block_def)
  show v: "\<forall>x \<in> set (ms_operations m). op_valid (mo_operation x) \<and>
      regular msl (cb_blue_score cb) (mo_block_index_within_mergeset x) (mo_index_within_merged_block x)"
    using p(2) assms(2) by (force simp: m regular_def regular_block_def position_def)
  show "ms_blue_score m = cb_blue_score cb" by (rule m(2))
  have "position_score msl m x < position_score msl m y" if "x \<in> set os" "y \<in> set os" "position x < position y" for x y
    using that v tx_score_less
    by (auto simp: position_score_def m position_def less_prod_def' word_less_nat_alt word_unat_eq_iff)
  then show "sorted_wrt (<) (mergeset_scores msl m)"
    unfolding mergeset_scores_def m sorted_wrt_map using p(1) by (rule sorted_wrt_mono_rel)
qed

text \<open>The chain blocks of a response: rising blue scores above the scores of the database.\<close>

definition blocks_above :: "u64 \<Rightarrow> u64 \<Rightarrow> chain_block list \<Rightarrow> bool" where
  "blocks_above msl s0 cbs =
     (0 < msl \<and> (\<forall>cb \<in> set cbs. regular_block msl cb \<and> s0 < calculate_tx_score_from_blue msl (cb_blue_score cb)) \<and>
      sorted_wrt (<) (map cb_blue_score cbs))"

lemma reconstructed_batch:
  "process_reconstructed_acceptance_data node an convert cbs = Inr (ms, rs) \<Longrightarrow> blocks_above msl s0 cbs \<Longrightarrow>
   sorted_wrt (<) (concat (map (mergeset_scores msl) ms)) \<and> batch_valid ms \<and>
   (\<forall>s \<in> set (concat (map (mergeset_scores msl) ms)). \<exists>cb \<in> set cbs. \<exists>i j.
      regular msl (cb_blue_score cb) i j \<and> s = calculate_tx_score msl (cb_blue_score cb) i j)"
proof (induction cbs arbitrary: ms rs)
  case Nil
  then show ?case by (simp add: batch_valid_def)
next
  case (Cons cb cbs)
  obtain m rs1 ms1 rs2 where m: "mergeset_of_block node an convert cb = Inr (m, rs1)"
    and t: "process_reconstructed_acceptance_data node an convert cbs = Inr (ms1, rs2)" and ms: "ms = m # ms1"
    using Cons.prems(1) by (auto simp: and_then_Inr_iff)
  have ab: "blocks_above msl s0 cbs" "regular_block msl cb" "0 < msl" using Cons.prems(2) by (auto simp: blocks_above_def)
  note f = mergeset_of_block_scores [OF m ab(2,3)]
  have r: "sorted_wrt (<) (concat (map (mergeset_scores msl) ms1))" "batch_valid ms1"
    "\<forall>s \<in> set (concat (map (mergeset_scores msl) ms1)). \<exists>cb \<in> set cbs. \<exists>i j.
      regular msl (cb_blue_score cb) i j \<and> s = calculate_tx_score msl (cb_blue_score cb) i j"
    using Cons.IH [OF t ab(1)] by auto
  have h: "\<exists>i j. regular msl (cb_blue_score cb) i j \<and> s = calculate_tx_score msl (cb_blue_score cb) i j"
    if "s \<in> set (mergeset_scores msl m)" for s
    using that f(2,3) by (auto simp: mergeset_scores_def position_score_def)
  have "s < s'" if in1: "s \<in> set (mergeset_scores msl m)" and in2: "s' \<in> set (concat (map (mergeset_scores msl) ms1))" for s s'
  proof -
    obtain i j where s: "regular msl (cb_blue_score cb) i j" "s = calculate_tx_score msl (cb_blue_score cb) i j"
      using h [OF in1] by blast
    obtain cb' i' j' where s': "cb' \<in> set cbs" "regular msl (cb_blue_score cb') i' j'"
      "s' = calculate_tx_score msl (cb_blue_score cb') i' j'"
      using r(3) in2 by blast
    have "cb_blue_score cb < cb_blue_score cb'" using Cons.prems(2) s'(1) by (auto simp: blocks_above_def)
    with s s' show ?thesis by (simp add: tx_score_less)
  qed
  moreover have "batch_valid ms" using r(2) f(3) by (simp add: ms batch_valid_def)
  ultimately show ?case using r h f(1) by (fastforce simp: ms sorted_wrt_append)
qed

lemma reconstructed_batch_ordered:
  assumes "process_reconstructed_acceptance_data node an convert cbs = Inr (ms, rs)" "blocks_above msl s0 cbs"
  shows "batch_ordered msl s0 ms" "batch_valid ms"
proof -
  note b = reconstructed_batch [OF assms]
  have "s0 < s" if in1: "s \<in> set (concat (map (mergeset_scores msl) ms))" for s
  proof -
    obtain cb i j where s: "cb \<in> set cbs" "regular msl (cb_blue_score cb) i j"
      "s = calculate_tx_score msl (cb_blue_score cb) i j"
      using b in1 by blast
    have "regular msl (cb_blue_score cb) 0 0" using s(2) by (auto simp: regular_def)
    then have "\<not> calculate_tx_score msl (cb_blue_score cb) i j < calculate_tx_score msl (cb_blue_score cb) 0 0"
      using s(2) by (simp add: tx_score_less)
    then have "calculate_tx_score_from_blue msl (cb_blue_score cb) \<le> s"
      by (simp add: calculate_tx_score_from_blue_def s(3) not_less)
    moreover have "s0 < calculate_tx_score_from_blue msl (cb_blue_score cb)" using assms(2) s(1) by (simp add: blocks_above_def)
    ultimately show ?thesis by (rule less_le_trans [rotated])
  qed
  with b show "batch_ordered msl s0 ms" by (simp add: batch_ordered_def)
  from b show "batch_valid ms" by blast
qed

section \<open>What a reconstruction places where\<close>

definition block_work :: "bridge \<Rightarrow> hash \<Rightarrow> 192 word" where
  "block_work br h = (if is_origin_hash h then 0 else (case br h of Some b \<Rightarrow> bl_blue_work b | None \<Rightarrow> 0))"

definition block_time :: "bridge \<Rightarrow> hash \<Rightarrow> u64" where
  "block_time br h = (if is_origin_hash h then 0 else (case br h of Some b \<Rightarrow> bl_timestamp b | None \<Rightarrow> 0))"

text \<open>One merged block as the reconstruction should give it: its own transactions, in the order of the response.\<close>

definition merged_block_of :: "bridge \<Rightarrow> rpc_transaction list \<Rightarrow> hash \<Rightarrow> merged_block" where
  "merged_block_of br txs h = \<lparr>mb_hash = h, mb_timestamp = block_time br h,
     mb_transactions = filter (\<lambda>tx. transaction_block_hash tx = Inr h) txs\<rparr>"

text \<open>The state of the loops over the merge set: distinct known blocks with their work, and a truthful cache.\<close>

definition sortable_ok :: "bridge \<Rightarrow> hash \<Rightarrow> sortable \<times> hash set \<times> block_cache \<Rightarrow> bool" where
  "sortable_ok br parent = (\<lambda>(sortable, known, cache).
     distinct (parent # map fst sortable) \<and> known = set (parent # map fst sortable) \<and>
     (\<forall>x \<in> set sortable. snd x = (block_work br (fst x), block_time br (fst x))) \<and> cache \<subseteq>\<^sub>m br)"

lemma get_cached_block_ok:
  assumes "get_cached_block br h cache = Inr (b, cache')" "cache \<subseteq>\<^sub>m br"
  shows "br h = Some b \<and> cache' \<subseteq>\<^sub>m br"
proof (cases "cache h")
  case None
  then obtain "br h = Some b" "cache' = cache(h \<mapsto> b)"
    using assms(1) by (auto simp: get_cached_block_def split: option.splits)
  with assms(2) show ?thesis by (force simp: map_le_def dom_def split: if_splits)
next
  case (Some c)
  then have "br h = Some c" using assms(2) by (metis domI map_le_def)
  with assms Some show ?thesis by (simp add: get_cached_block_def)
qed

lemma add_sortable_ok:
  assumes "add_sortable br h st = Inr st'" "sortable_ok br parent st"
  shows "sortable_ok br parent st' \<and> fst (snd st') = insert h (fst (snd st))"
proof -
  obtain sortable known cache where st: "st = (sortable, known, cache)" by (cases st)
  consider "h \<in> known" | "h \<notin> known" "is_origin_hash h" | "h \<notin> known" "\<not> is_origin_hash h" by blast
  then show ?thesis
  proof cases
    case 1
    with assms show ?thesis by (auto simp: st add_sortable_def)
  next
    case 2
    then have "block_work br h = 0" "block_time br h = 0" "st' = (sortable @ [(h, 0, 0)], insert h known, cache)"
      using assms(1) by (simp_all add: st add_sortable_def block_work_def block_time_def)
    with 2 assms(2) show ?thesis by (auto simp add: st sortable_ok_def)
  next
    case 3
    then obtain b cache1 where g: "get_cached_block br h cache = Inr (b, cache1)"
      and st': "st' = (sortable @ [(h, bl_blue_work b, bl_timestamp b)], insert h known, cache1)"
      using assms(1) by (auto simp: st add_sortable_def and_then_Inr_iff)
    have "br h = Some b" and c: "cache1 \<subseteq>\<^sub>m br"
      using get_cached_block_ok [OF g] assms(2) by (simp_all add: st sortable_ok_def)
    with 3 have "block_work br h = bl_blue_work b" "block_time br h = bl_timestamp b"
      by (simp_all add: block_work_def block_time_def)
    with 3 c assms(2) show ?thesis by (auto simp add: st st' sortable_ok_def)
  qed
qed

lemma add_sortables_ok:
  "add_sortables br hs st = Inr st' \<Longrightarrow> sortable_ok br parent st \<Longrightarrow>
   sortable_ok br parent st' \<and> fst (snd st') = set hs \<union> fst (snd st)"
proof (induction hs arbitrary: st)
  case (Cons h hs)
  then obtain st1 where "add_sortable br h st = Inr st1" "add_sortables br hs st1 = Inr st'"
    by (auto simp: and_then_Inr_iff)
  with Cons.IH [of st1] Cons.prems(2) add_sortable_ok [of br h st st1 parent] show ?case by auto
qed simp

lemma add_transaction_blocks_ok:
  "add_transaction_blocks br txs st = Inr st' \<Longrightarrow> sortable_ok br parent st \<Longrightarrow>
   sortable_ok br parent st' \<and>
   fst (snd st') = {h. \<exists>tx \<in> set txs. transaction_block_hash tx = Inr h} \<union> fst (snd st) \<and>
   (\<forall>tx \<in> set txs. \<exists>h. transaction_block_hash tx = Inr h)"
proof (induction txs arbitrary: st)
  case (Cons tx txs)
  then obtain h st1 where h: "transaction_block_hash tx = Inr h" and st1: "add_sortable br h st = Inr st1"
    and r: "add_transaction_blocks br txs st1 = Inr st'"
    by (auto simp: and_then_Inr_iff)
  from add_sortable_ok [OF st1 Cons.prems(2)] Cons.IH [OF r] h show ?case by auto
qed simp

lemma insert_indexes_other: "h \<notin> mb_hash ` set bs \<Longrightarrow> insert_indexes i bs m h = m h"
  by (induction bs arbitrary: i m) auto

lemma insert_indexes_nth:
  "distinct (map mb_hash bs) \<Longrightarrow> j < length bs \<Longrightarrow> insert_indexes i bs m (mb_hash (bs ! j)) = Some (i + j)"
proof (induction bs arbitrary: i j m)
  case (Cons b bs)
  then show ?case by (cases j) (simp_all add: insert_indexes_other)
qed simp

lemma insert_indexes_Some:
  "insert_indexes i bs m h = Some k \<Longrightarrow> m h = Some k \<or> (\<exists>j < length bs. k = i + j \<and> mb_hash (bs ! j) = h)"
proof (induction bs arbitrary: i m)
  case (Cons b bs)
  have "insert_indexes (i + 1) bs (m(mb_hash b \<mapsto> i)) h = Some k" using Cons.prems by simp
  from Cons.IH [OF this]
  consider "(m(mb_hash b \<mapsto> i)) h = Some k" | j where "j < length bs" "k = i + 1 + j" "mb_hash (bs ! j) = h" by blast
  then show ?case
  proof cases
    case 1
    then show ?thesis by (cases "h = mb_hash b") (auto intro: exI [of _ 0])
  next
    case (2 j)
    then show ?thesis by (intro disjI2 exI [of _ "Suc j"]) simp
  qed
qed simp

lemma block_indexes_nth:
  "distinct (map mb_hash bs) \<Longrightarrow> i < length bs \<Longrightarrow> block_indexes bs (mb_hash (bs ! i)) = Some i"
  using insert_indexes_nth [of bs i 0] by (simp add: block_indexes_def)

lemma block_indexes_Some: "block_indexes bs h = Some i \<Longrightarrow> i < length bs \<and> mb_hash (bs ! i) = h"
  by (auto simp: block_indexes_def dest: insert_indexes_Some)

lemma push_transaction_simps [simp]:
  "length (push_transaction i tx bs) = length bs"
  "i < length bs \<Longrightarrow> map mb_hash (push_transaction i tx bs) = map mb_hash bs"
  by (auto simp: push_transaction_def map_update intro: list_update_same_conv [THEN iffD2])

lemma place_transactions_ok:
  "place_transactions indexes txs bs = Inr bs' \<Longrightarrow>
   \<forall>h i. indexes h = Some i \<longrightarrow> i < length bs \<and> mb_hash (bs ! i) = h \<Longrightarrow>
   \<forall>i < length bs. indexes (mb_hash (bs ! i)) = Some i \<Longrightarrow>
   map mb_hash bs' = map mb_hash bs \<and> length bs' = length bs \<and>
   (\<forall>i < length bs. mb_timestamp (bs' ! i) = mb_timestamp (bs ! i) \<and>
      mb_transactions (bs' ! i) = mb_transactions (bs ! i) @ filter (\<lambda>tx. transaction_block_hash tx = Inr (mb_hash (bs ! i))) txs)"
proof (induction txs arbitrary: bs)
  case (Cons tx txs)
  obtain h i where h: "transaction_block_hash tx = Inr h" "indexes h = Some i"
    and r: "place_transactions indexes txs (push_transaction i tx bs) = Inr bs'"
    using Cons.prems(1) by (auto simp: and_then_Inr_iff split: option.splits)
  have i: "i < length bs" "mb_hash (bs ! i) = h" using Cons.prems(2) h(2) by auto
  let ?bs = "push_transaction i tx bs"
  have hs: "mb_hash (?bs ! k) = mb_hash (bs ! k)" if "k < length bs" for k
    using that i by (simp add: push_transaction_def nth_list_update)
  have ih: "map mb_hash bs' = map mb_hash ?bs \<and> length bs' = length ?bs \<and>
   (\<forall>i < length ?bs. mb_timestamp (bs' ! i) = mb_timestamp (?bs ! i) \<and>
      mb_transactions (bs' ! i) = mb_transactions (?bs ! i) @ filter (\<lambda>tx. transaction_block_hash tx = Inr (mb_hash (?bs ! i))) txs)"
    by (rule Cons.IH [OF r]) (use Cons.prems(2,3) hs in auto)
  have "mb_timestamp (bs' ! k) = mb_timestamp (bs ! k) \<and>
      mb_transactions (bs' ! k) = mb_transactions (bs ! k) @ filter (\<lambda>tx. transaction_block_hash tx = Inr (mb_hash (bs ! k))) (tx # txs)"
    if k: "k < length bs" for k
  proof (cases "k = i")
    case True
    then show ?thesis using ih k i h hs [OF k] by (simp add: push_transaction_def)
  next
    case False
    have "mb_hash (bs ! k) \<noteq> h" using Cons.prems(3) k h(2) False by fastforce
    then show ?thesis using ih k h hs [OF k] False by (simp add: push_transaction_def)
  qed
  with ih i show ?case by simp
qed simp

lemma mset_filter_disjoint:
  assumes "\<And>x. \<not> (P x \<and> Q x)"
  shows "mset (filter P xs) + mset (filter Q xs) = mset (filter (\<lambda>x. P x \<or> Q x) xs)"
  using assms by (induction xs) auto

lemma mset_grouped:
  "distinct hs \<Longrightarrow> mset (concat (map (\<lambda>h. filter (\<lambda>x. k x = Inr h) xs) hs)) = mset (filter (\<lambda>x. k x \<in> Inr ` set hs) xs)"
proof (induction hs)
  case (Cons h hs)
  have "mset (filter (\<lambda>x. k x = Inr h) xs) + mset (filter (\<lambda>x. k x \<in> Inr ` set hs) xs) =
      mset (filter (\<lambda>x. k x = Inr h \<or> k x \<in> Inr ` set hs) xs)"
    by (rule mset_filter_disjoint) (use Cons.prems in auto)
  with Cons show ?case by (simp add: image_iff)
qed simp

text \<open>The merge set as an ordered list: the selected parent first, the others by blue work and hash.\<close>

definition mergeset_in_order :: "bridge \<Rightarrow> accepted_transactions \<Rightarrow> block_verbose \<Rightarrow> hash list \<Rightarrow> bool" where
  "mergeset_in_order br accepted v hs =
     (hs \<noteq> [] \<and> hd hs = bv_selected_parent_hash v \<and> distinct hs \<and>
      sorted (map (\<lambda>h. (block_work br h, h)) (tl hs)) \<and>
      set hs = {bv_selected_parent_hash v} \<union> set (bv_merge_set_blues_hashes v) \<union> set (bv_merge_set_reds_hashes v) \<union>
        {h. \<exists>tx \<in> set (ac_transactions accepted). transaction_block_hash tx = Inr h})"

lemma sort_blocks_props:
  "set (sort_blocks xs) = set xs" "distinct (map fst (sort_blocks xs)) = distinct (map fst xs)"
  "sorted (map (\<lambda>x. (fst (snd x), fst x)) (sort_blocks xs))"
proof -
  have m: "mset (sort_blocks xs) = mset xs" by (simp add: sort_blocks_def)
  show "set (sort_blocks xs) = set xs" by (metis m set_mset_mset)
  show "distinct (map fst (sort_blocks xs)) = distinct (map fst xs)"
    by (rule mset_eq_imp_distinct_iff) (simp only: mset_map m)
  have "(\<lambda>(h, work, time). (work, h)) = (\<lambda>x :: hash \<times> 192 word \<times> u64. (fst (snd x), fst x))" by auto
  then show "sorted (map (\<lambda>x. (fst (snd x), fst x)) (sort_blocks xs))"
    using sorted_sort_key [of "\<lambda>(h, work, time). (work, h)" xs] by (simp add: sort_blocks_def)
qed

lemma place_into_empty:
  assumes "place_transactions (block_indexes bs) txs bs = Inr bs'" "distinct (map mb_hash bs)"
    "bs = map (\<lambda>h. empty_block h (block_time br h)) hs"
  shows "bs' = map (merged_block_of br txs) hs"
proof -
  have hs: "map mb_hash bs = hs" "length bs = length hs" by (simp_all add: assms(3) empty_block_def o_def)
  have "\<forall>h i. block_indexes bs h = Some i \<longrightarrow> i < length bs \<and> mb_hash (bs ! i) = h"
    using block_indexes_Some by blast
  moreover have "\<forall>i < length bs. block_indexes bs (mb_hash (bs ! i)) = Some i" using block_indexes_nth [OF assms(2)] by blast
  ultimately have pt: "map mb_hash bs' = map mb_hash bs" "length bs' = length bs"
    "\<forall>i < length bs. mb_timestamp (bs' ! i) = mb_timestamp (bs ! i) \<and> mb_transactions (bs' ! i) =
      mb_transactions (bs ! i) @ filter (\<lambda>tx. transaction_block_hash tx = Inr (mb_hash (bs ! i))) txs"
    using place_transactions_ok [OF assms(1)] by blast+
  show ?thesis
  proof (rule nth_equalityI)
    show "length bs' = length (map (merged_block_of br txs) hs)" using pt(2) hs(2) by simp
    fix i assume "i < length bs'"
    then have i: "i < length bs" "i < length hs" using pt(2) hs(2) by simp_all
    have "mb_hash (bs' ! i) = hs ! i" using pt(1,2) hs(1) i by (metis nth_map)
    moreover have "bs ! i = empty_block (hs ! i) (block_time br (hs ! i))" using i by (simp add: assms(3))
    ultimately show "bs' ! i = map (merged_block_of br txs) hs ! i"
      using pt(3) [rule_format, OF i(1)] i(2) by (simp add: merged_block_of_def empty_block_def)
  qed
qed

lemma reconstruct_chain_block_acceptance_ok:
  assumes r: "reconstruct_chain_block_acceptance br accepted cache = Inr (cb, cache')" and c: "cache \<subseteq>\<^sub>m br"
  obtains h bs ds b v hs where "ac_hash accepted = Some h" "ac_blue_score accepted = Some bs" "ac_daa_score accepted = Some ds"
    "br h = Some b" "bl_verbose b = Some v" "mergeset_in_order br accepted v hs"
    "cb = \<lparr>cb_accepted_chain_block_hash = h, cb_blue_score = bs, cb_daa_score = ds,
           cb_merged_blocks = map (merged_block_of br (ac_transactions accepted)) hs\<rparr>"
    "mset (concat (map mb_transactions (cb_merged_blocks cb))) = mset (ac_transactions accepted)"
    "cache' \<subseteq>\<^sub>m br"
proof -
  let ?txs = "ac_transactions accepted"
  obtain h bs ds b cache1 v time cache2 st1 sortable known merged where
    h: "ac_hash accepted = Some h" "ac_blue_score accepted = Some bs" "ac_daa_score accepted = Some ds"
      "get_cached_block br h cache = Inr (b, cache1)" "bl_verbose b = Some v"
    and p: "(if is_origin_hash (bv_selected_parent_hash v) then Inr (0, cache1)
             else and_then (get_cached_block br (bv_selected_parent_hash v) cache1) (\<lambda>(b, c). Inr (bl_timestamp b, c))) = Inr (time, cache2)"
    and s1: "add_sortables br
                 (filter (\<lambda>h. h \<noteq> bv_selected_parent_hash v) (bv_merge_set_blues_hashes v) @ bv_merge_set_reds_hashes v)
                 ([], {bv_selected_parent_hash v}, cache2) = Inr st1"
    and s2: "add_transaction_blocks br ?txs st1 = Inr (sortable, known, cache')"
    and pl: "place_transactions (block_indexes (empty_block (bv_selected_parent_hash v) time #
               map (\<lambda>(h, work, time). empty_block h time) (sort_blocks sortable))) ?txs
             (empty_block (bv_selected_parent_hash v) time # map (\<lambda>(h, work, time). empty_block h time) (sort_blocks sortable)) = Inr merged"
    and cb: "cb = \<lparr>cb_accepted_chain_block_hash = h, cb_blue_score = bs, cb_daa_score = ds, cb_merged_blocks = merged\<rparr>"
    using r by (auto simp: reconstruct_chain_block_acceptance_def and_then_Inr_iff Let_def sync_ok_or_def split: option.splits)
  let ?parent = "bv_selected_parent_hash v" and ?rest = "map fst (sort_blocks sortable)"
  let ?blocks = "empty_block ?parent time # map (\<lambda>(h, work, time). empty_block h time) (sort_blocks sortable)"
  let ?hs = "?parent # ?rest"
  have b: "br h = Some b" "cache1 \<subseteq>\<^sub>m br" using get_cached_block_ok [OF h(4) c] by blast+
  have c2: "cache2 \<subseteq>\<^sub>m br" and time: "time = block_time br ?parent"
    using p b(2) by (auto simp: and_then_Inr_iff block_time_def split: if_splits dest: get_cached_block_ok)
  then have "sortable_ok br ?parent ([], {?parent}, cache2)" by (simp add: sortable_ok_def)
  note st1 = add_sortables_ok [OF s1 this]
  note st2 = add_transaction_blocks_ok [OF s2 conjunct1 [OF st1]]
  have ok: "distinct (?parent # map fst sortable)" "known = set (?parent # map fst sortable)"
    "\<forall>x \<in> set sortable. snd x = (block_work br (fst x), block_time br (fst x))" "cache' \<subseteq>\<^sub>m br"
    using st2 by (simp_all add: sortable_ok_def)
  have known: "set ?hs = {?parent} \<union> set (bv_merge_set_blues_hashes v) \<union> set (bv_merge_set_reds_hashes v) \<union>
      {h. \<exists>tx \<in> set ?txs. transaction_block_hash tx = Inr h}"
    using st1 st2 ok(2) by (auto simp: sort_blocks_props)
  have d: "distinct ?hs" using ok(1) by (simp add: sort_blocks_props)
  have blocks: "?blocks = map (\<lambda>h. empty_block h (block_time br h)) ?hs"
    using ok(3) by (auto simp: time sort_blocks_props)
  have "map mb_hash ?blocks = ?hs" unfolding blocks by (simp add: empty_block_def o_def)
  then have "distinct (map mb_hash ?blocks)" using d by (rule ssubst)
  note merged = place_into_empty [OF pl this blocks]
  have "map (\<lambda>h. (block_work br h, h)) ?rest = map (\<lambda>x. (fst (snd x), fst x)) (sort_blocks sortable)"
    using ok(3) by (auto simp: sort_blocks_props)
  then have "sorted (map (\<lambda>h. (block_work br h, h)) ?rest)"
    using sort_blocks_props(3) [of sortable] by (rule ssubst)
  then have order: "mergeset_in_order br accepted v ?hs"
    using known d by (simp add: mergeset_in_order_def)
  have "filter (\<lambda>tx. transaction_block_hash tx \<in> Inr ` set ?hs) ?txs = ?txs"
    by (rule filter_True) (use st2 known in force)
  then have m: "mset (concat (map mb_transactions merged)) = mset ?txs"
    using mset_grouped [OF d, of transaction_block_hash ?txs] by (simp add: merged merged_block_of_def o_def)
  have "cb_merged_blocks cb = merged" by (simp add: cb)
  with m have "mset (concat (map mb_transactions (cb_merged_blocks cb))) = mset ?txs" by simp
  then show thesis
    by (rule that [OF h(1,2,3) b(1) h(5) order, rotated]) (fact ok(4), simp only: cb merged)
qed

lemma mergeset_in_order_unique:
  assumes "mergeset_in_order br accepted v hs" "mergeset_in_order br' accepted v' hs'" "block_work br = block_work br'"
    "bv_selected_parent_hash v = bv_selected_parent_hash v'"
    "set (bv_merge_set_blues_hashes v) \<union> set (bv_merge_set_reds_hashes v) =
     set (bv_merge_set_blues_hashes v') \<union> set (bv_merge_set_reds_hashes v')"
  shows "hs = hs'"
proof -
  let ?f = "\<lambda>h. (block_work br h, h)"
  obtain t t' where t: "hs = bv_selected_parent_hash v # t" "hs' = bv_selected_parent_hash v # t'"
    using assms(1,2,4) unfolding mergeset_in_order_def by (metis list.collapse)
  have d: "distinct hs" "distinct hs'" "set hs = set hs'" "sorted (map ?f t)" "sorted (map ?f t')"
    using assms t by (simp_all add: mergeset_in_order_def Un_assoc)
  then have "set t = set t'" using t by (simp add: insert_ident)
  moreover have "inj ?f" by (simp add: inj_on_def)
  ultimately have "map ?f t = map ?f t'"
    using d t by (intro sorted_distinct_set_unique) (simp_all add: distinct_map inj_on_def)
  with \<open>inj ?f\<close> t show ?thesis by (simp add: inj_map_eq_map)
qed

lemma reconstructed_value:
  assumes r: "reconstruct_chain_block_acceptance br accepted cache = Inr (cb, cache')" and c: "cache \<subseteq>\<^sub>m br"
    and b: "br (cb_accepted_chain_block_hash cb) = Some b" "bl_verbose b = Some v"
  obtains hs where "mergeset_in_order br accepted v hs"
    "cb = \<lparr>cb_accepted_chain_block_hash = the (ac_hash accepted), cb_blue_score = the (ac_blue_score accepted),
           cb_daa_score = the (ac_daa_score accepted), cb_merged_blocks = map (merged_block_of br (ac_transactions accepted)) hs\<rparr>"
  using r c
proof (rule reconstruct_chain_block_acceptance_ok)
  fix h bs ds b' v' hs
  assume a: "ac_hash accepted = Some h" "ac_blue_score accepted = Some bs" "ac_daa_score accepted = Some ds"
    "br h = Some b'" "bl_verbose b' = Some v'" "mergeset_in_order br accepted v' hs"
    "cb = \<lparr>cb_accepted_chain_block_hash = h, cb_blue_score = bs, cb_daa_score = ds,
           cb_merged_blocks = map (merged_block_of br (ac_transactions accepted)) hs\<rparr>"
  have "cb_accepted_chain_block_hash cb = h" by (simp add: a(7))
  with a b that show thesis by simp
qed

text \<open>C12: The reconstruction of an accepted chain block, when it returns, lists every block of the merge set once, the
  selected parent first and the others by blue work and then by hash, with its own time, and puts every accepted
  transaction exactly once, into the block it was mined in and in the order of the response.\<close>

theorem reconstruction_places_every_transaction:
  assumes "reconstruct_chain_block_acceptance br accepted cache = Inr (cb, cache')" and "cache \<subseteq>\<^sub>m br"
  shows "\<exists>b v hs. br (cb_accepted_chain_block_hash cb) = Some b \<and> bl_verbose b = Some v \<and>
    mergeset_in_order br accepted v hs \<and>
    cb_merged_blocks cb = map (merged_block_of br (ac_transactions accepted)) hs \<and>
    mset (concat (map mb_transactions (cb_merged_blocks cb))) = mset (ac_transactions accepted) \<and> cache' \<subseteq>\<^sub>m br"
  using assms
proof (rule reconstruct_chain_block_acceptance_ok)
  fix h bs ds b v hs
  assume a: "br h = Some b" "bl_verbose b = Some v" "mergeset_in_order br accepted v hs"
    "cb = \<lparr>cb_accepted_chain_block_hash = h, cb_blue_score = bs, cb_daa_score = ds,
           cb_merged_blocks = map (merged_block_of br (ac_transactions accepted)) hs\<rparr>"
    and m: "mset (concat (map mb_transactions (cb_merged_blocks cb))) = mset (ac_transactions accepted)" "cache' \<subseteq>\<^sub>m br"
  have "cb_accepted_chain_block_hash cb = h"
    "cb_merged_blocks cb = map (merged_block_of br (ac_transactions accepted)) hs" by (simp_all add: a(4))
  with a(1-3) m show ?thesis by blast
qed

text \<open>C11: Two indexers behind different nodes reconstruct the same chain block from the same accepted transactions,
  whatever order the two nodes list the merge set in and whichever blocks they call blue: only the selected parent,
  the set of merged blocks, and the work and time of the blocks matter. With the block, the entropy of its random
  token ids agrees as well.\<close>

theorem reconstructions_agree:
  assumes "reconstruct_chain_block_acceptance br accepted cache = Inr (cb, cache1)" and "cache \<subseteq>\<^sub>m br"
    and "reconstruct_chain_block_acceptance br' accepted cache' = Inr (cb', cache1')" and "cache' \<subseteq>\<^sub>m br'"
    and "block_work br = block_work br'" and "block_time br = block_time br'"
    and "br (cb_accepted_chain_block_hash cb) = Some b" "bl_verbose b = Some v"
    and "br' (cb_accepted_chain_block_hash cb) = Some b'" "bl_verbose b' = Some v'"
    and "bv_selected_parent_hash v = bv_selected_parent_hash v'"
    and "set (bv_merge_set_blues_hashes v) \<union> set (bv_merge_set_reds_hashes v) =
      set (bv_merge_set_blues_hashes v') \<union> set (bv_merge_set_reds_hashes v')"
  shows "cb = cb' \<and> mergeset_entropy (map mb_hash (cb_merged_blocks cb)) = mergeset_entropy (map mb_hash (cb_merged_blocks cb'))"
proof -
  obtain hs where a: "mergeset_in_order br accepted v hs" "cb = \<lparr>cb_accepted_chain_block_hash = the (ac_hash accepted),
      cb_blue_score = the (ac_blue_score accepted), cb_daa_score = the (ac_daa_score accepted),
      cb_merged_blocks = map (merged_block_of br (ac_transactions accepted)) hs\<rparr>"
    by (rule reconstructed_value [OF assms(1,2,7,8)])
  from assms(3,4) have "ac_hash accepted = Some (cb_accepted_chain_block_hash cb')"
    by (rule reconstruct_chain_block_acceptance_ok) simp
  then have "cb_accepted_chain_block_hash cb = cb_accepted_chain_block_hash cb'" by (simp add: a(2))
  then have b': "br' (cb_accepted_chain_block_hash cb') = Some b'" using assms(9) by simp
  obtain hs' where a': "mergeset_in_order br' accepted v' hs'" "cb' = \<lparr>cb_accepted_chain_block_hash = the (ac_hash accepted),
      cb_blue_score = the (ac_blue_score accepted), cb_daa_score = the (ac_daa_score accepted),
      cb_merged_blocks = map (merged_block_of br' (ac_transactions accepted)) hs'\<rparr>"
    by (rule reconstructed_value [OF assms(3,4) b' assms(10)])
  have "hs = hs'" using a(1) a'(1) assms(5,11,12) by (rule mergeset_in_order_unique)
  moreover have "merged_block_of br = merged_block_of br'" using assms(6) by (simp add: merged_block_of_def fun_eq_iff)
  ultimately show ?thesis using a(2) a'(2) by simp
qed

definition sample_block :: "u64 \<Rightarrow> 192 word \<Rightarrow> hash list \<Rightarrow> rpc_block" where
  "sample_block time work blues = \<lparr>bl_timestamp = time, bl_blue_work = work, bl_blue_score = time,
     bl_verbose = Some \<lparr>bv_selected_parent_hash = 1, bv_merge_set_blues_hashes = blues, bv_merge_set_reds_hashes = []\<rparr>\<rparr>"

definition sample_bridge :: "hash list \<Rightarrow> bridge" where
  "sample_bridge blues = [10 \<mapsto> sample_block 9 9 blues, 1 \<mapsto> sample_block 1 1 [], 2 \<mapsto> sample_block 2 7 [], 3 \<mapsto> sample_block 3 5 []]"

definition sample_rpc :: "hash \<Rightarrow> rpc_transaction" where
  "sample_rpc h = \<lparr>rpc_verbose = Some \<lparr>rv_block_hash = Some h, rv_block_time = None\<rparr>, rpc_input_amounts = [Some (Some (Some KSPR_FEE_MINT))],
     rpc_output_values = []\<rparr>"

definition sample_accepted :: accepted_transactions where
  "sample_accepted = \<lparr>ac_hash = Some 10, ac_blue_score = Some 9, ac_daa_score = Some 0,
     ac_transactions = [sample_rpc 2, sample_rpc 3, sample_rpc 2]\<rparr>"

definition sample_chain_block :: chain_block where
  "sample_chain_block = \<lparr>cb_accepted_chain_block_hash = 10, cb_blue_score = 9, cb_daa_score = 0,
     cb_merged_blocks = [\<lparr>mb_hash = 1, mb_timestamp = 1, mb_transactions = []\<rparr>,
       \<lparr>mb_hash = 3, mb_timestamp = 3, mb_transactions = [sample_rpc 3]\<rparr>,
       \<lparr>mb_hash = 2, mb_timestamp = 2, mb_transactions = [sample_rpc 2, sample_rpc 2]\<rparr>]\<rparr>"

lemma small_hash_not_origin: "unat h < 256 ^ 31 \<Longrightarrow> \<not> is_origin_hash h"
  using nat_be.simps(2) [of 31 "unat h"] by (simp add: is_origin_hash_def be_bytes_def)

lemma not_origin: "\<not> is_origin_hash 1" "\<not> is_origin_hash 2" "\<not> is_origin_hash 3"
  by (simp_all add: small_hash_not_origin)

lemma sample_reconstruction:
  assumes "blues = [1, 2, 3] \<or> blues = [3, 1, 2]"
  shows "\<exists>cache. reconstruct_chain_block_acceptance (sample_bridge blues) sample_accepted Map.empty = Inr (sample_chain_block, cache)"
  using assms by (auto simp: reconstruct_chain_block_acceptance_def sample_accepted_def sync_ok_or_def get_cached_block_def sample_bridge_def
     sample_block_def Let_def not_origin add_sortable_def sample_rpc_def transaction_block_hash_def sort_blocks_def
     block_indexes_def empty_block_def push_transaction_def sample_chain_block_def)

lemma sample_bridge_10: "sample_bridge blues 10 = Some (sample_block 9 9 blues)"
  by (simp add: sample_bridge_def)

theorem reconstruction_places_every_transaction_witness:
  "\<exists>b v hs. sample_bridge [1, 2, 3] 10 = Some b \<and> bl_verbose b = Some v \<and>
    mergeset_in_order (sample_bridge [1, 2, 3]) sample_accepted v hs \<and>
    cb_merged_blocks sample_chain_block = map (merged_block_of (sample_bridge [1, 2, 3]) (ac_transactions sample_accepted)) hs \<and>
    mset (concat (map mb_transactions (cb_merged_blocks sample_chain_block))) = mset (ac_transactions sample_accepted)"
proof -
  obtain cache where "reconstruct_chain_block_acceptance (sample_bridge [1, 2, 3]) sample_accepted Map.empty = Inr (sample_chain_block, cache)"
    using sample_reconstruction by blast
  moreover have "cb_accepted_chain_block_hash sample_chain_block = 10" by (simp add: sample_chain_block_def)
  ultimately show ?thesis
    using reconstruction_places_every_transaction [of "sample_bridge [1, 2, 3]" sample_accepted Map.empty] by fastforce
qed

theorem reconstructions_agree_witness:
  "\<exists>cb cache1 cb' cache1'. reconstruct_chain_block_acceptance (sample_bridge [1, 2, 3]) sample_accepted Map.empty = Inr (cb, cache1) \<and>
    reconstruct_chain_block_acceptance (sample_bridge [3, 1, 2]) sample_accepted Map.empty = Inr (cb', cache1') \<and> cb = cb'"
proof -
  let ?v = "\<lambda>blues. \<lparr>bv_selected_parent_hash = 1, bv_merge_set_blues_hashes = blues, bv_merge_set_reds_hashes = []\<rparr>"
  obtain cache1 where r1: "reconstruct_chain_block_acceptance (sample_bridge [1, 2, 3]) sample_accepted Map.empty = Inr (sample_chain_block, cache1)"
    using sample_reconstruction by blast
  obtain cache2 where r2: "reconstruct_chain_block_acceptance (sample_bridge [3, 1, 2]) sample_accepted Map.empty = Inr (sample_chain_block, cache2)"
    using sample_reconstruction by blast
  have h: "cb_accepted_chain_block_hash sample_chain_block = 10" by (simp add: sample_chain_block_def)
  have "sample_chain_block = sample_chain_block \<and> mergeset_entropy (map mb_hash (cb_merged_blocks sample_chain_block)) =
      mergeset_entropy (map mb_hash (cb_merged_blocks sample_chain_block))"
    by (rule reconstructions_agree [OF r1 _ r2, of "sample_block 9 9 [1, 2, 3]" "?v [1, 2, 3]" "sample_block 9 9 [3, 1, 2]" "?v [3, 1, 2]"])
      (auto simp: h sample_bridge_10 fun_eq_iff block_work_def block_time_def, simp_all add: sample_bridge_def sample_block_def)
  with r1 r2 show ?thesis by blast
qed

lemma validate_coverage_iff:
  "validate_historical_acceptance_coverage added accepted = Inr () \<longleftrightarrow> map ac_hash accepted = map Some added"
proof -
  have "length added = length accepted \<Longrightarrow> (matching_hashes i (zip added accepted) = Inr ()) = (map ac_hash accepted = map Some added)" for i
    by (induction added accepted arbitrary: i rule: list_induct2) (auto split: option.split)
  moreover have "length added = length accepted" if "map ac_hash accepted = map Some added"
    using arg_cong [OF that, of length] by simp
  ultimately show ?thesis by (auto simp: validate_historical_acceptance_coverage_def)
qed

text \<open>A historical response passes the coverage check exactly when its records name the added chain blocks, each with
  its hash, in their order; otherwise the check returns an error, and never a panic.\<close>

theorem coverage_check_accepts_exactly_matching_records:
  "validate_historical_acceptance_coverage added accepted = Inr () \<longleftrightarrow> map ac_hash accepted = map Some added"
  by (rule validate_coverage_iff)

text \<open>C6: Whatever the transactions of the accepted blocks hold, the merge sets that the syncer makes of them are ones
  that the processor can add: as long as the blocks come with rising blue scores above the database, they do not
  exceed the merge set limit and the block capacity, and their scores fit, the addition does not abort and the
  ledger stays sound.\<close>

theorem reconstructed_blocks_are_indexed:
  assumes "process_reconstructed_acceptance_data node an convert cbs = Inr (ms, rs)" and "blocks_above msl s0 cbs"
    and "ledger_ok d" and "scores_le d s0"
  shows "\<exists>diff d'. process_additions msl p2sh d ms = Inr (diff, d') \<and> ledger_ok d' \<and>
    scores_le d' (last (s0 # concat (map (mergeset_scores msl) ms)))"
  unfolding process_additions_def Let_def
  using assms(3,4) reconstructed_batch_ordered [OF assms(1,2)] by (rule add_mergesets_ok)

definition mint_block :: chain_block where
  "mint_block = \<lparr>cb_accepted_chain_block_hash = 10, cb_blue_score = 9, cb_daa_score = 0,
     cb_merged_blocks = [\<lparr>mb_hash = 1, mb_timestamp = 0, mb_transactions = [sample_rpc 1]\<rparr>]\<rparr>"

lemma mint_block_analyzed:
  "\<exists>ms rs. process_reconstructed_acceptance_data sample_node sample_analyzer
     (\<lambda>_. Some (ct_tx (sample_transaction (sample_script key_A []) []))) [mint_block] = Inr (ms, rs) \<and>
     map (\<lambda>m. length (ms_operations m)) ms = [1]"
proof -
  let ?tx = "sample_transaction (sample_script key_A []) []"
  have "rpc_transaction_fee (sample_rpc 1) = KSPR_FEE_MINT"
    by (simp add: rpc_transaction_fee_def sample_rpc_def map_filter_def sat_sub_def)
  then have "\<lparr>ct_tx = ct_tx ?tx, ct_fee = rpc_transaction_fee (sample_rpc 1), ct_block_time = 0,
      ct_accepting_block_daa_score = 0, ct_index_within_merged_block = 0\<rparr> = ?tx"
    by (simp add: sample_transaction_def)
  then show ?thesis
    by (simp add: mint_block_def mergeset_of_block_def detect_transaction_def sample_detected)
qed

theorem reconstructed_blocks_are_indexed_witness:
  "\<exists>ms rs diff d'. process_reconstructed_acceptance_data sample_node sample_analyzer
       (\<lambda>_. Some (ct_tx (sample_transaction (sample_script key_A []) []))) [mint_block] = Inr (ms, rs) \<and>
     map (\<lambda>m. length (ms_operations m)) ms = [1] \<and> process_additions 248 (\<lambda>_. spk_A) db_empty ms = Inr (diff, d') \<and> ledger_ok d'"
proof -
  obtain ms rs where r: "process_reconstructed_acceptance_data sample_node sample_analyzer
       (\<lambda>_. Some (ct_tx (sample_transaction (sample_script key_A []) []))) [mint_block] = Inr (ms, rs)"
    "map (\<lambda>m. length (ms_operations m)) ms = [1]" using mint_block_analyzed by (elim exE conjE)
  have "blocks_above 248 0 [mint_block]"
    by (simp add: blocks_above_def regular_block_def mint_block_def calculate_tx_score_from_blue_def calculate_tx_score_def
        BLOCK_TX_CAPACITY_def)
  from reconstructed_blocks_are_indexed [OF r(1) this ledger_ok_empty scores_le_empty, of "\<lambda>_. spk_A"]
  obtain diff d' where "process_additions 248 (\<lambda>_. spk_A) db_empty ms = Inr (diff, d')" "ledger_ok d'" by (elim exE conjE)
  with r show ?thesis by (intro exI conjI)
qed

end
