(* ===== verification/Reorg.thy ===== *)
theory Reorg
  imports Processor
begin

text \<open>
  The backward half of \<^verbatim>\<open>nexus/src/processor.rs\<close>: the removal of what a chain reorganisation
  invalidates, and the composition of removal and addition for one chain change. Every function is
  the loop of the source over the keys that the source collects first, in the same order.
\<close>

section \<open>Chain state\<close>

text \<open>A block missing from \<^verbatim>\<open>blockhash_to_score\<close> is still recognised when it is the tip.\<close>

definition lookup_removed_block_score :: "db \<Rightarrow> hash \<Rightarrow> u64 option" where
  "lookup_removed_block_score d block =
     (case part_get (blockhash_to_score d) block of
        Some score \<Rightarrow> Some score
      | None \<Rightarrow>
         (case last_accepted_block (chain_block_scores d) of
            None \<Rightarrow> None
          | Some la \<Rightarrow> if bh_block_hash la = block then Some (bh_blue_score la) else None))"

definition remove_chain_state_from_blue_score :: "db \<Rightarrow> u64 \<Rightarrow> db" where
  "remove_chain_state_from_blue_score d min_blue_score =
     fold (\<lambda>k d. d\<lparr>chain_block_scores := part_remove k (chain_block_scores d),
                   blockhash_to_score := part_remove (bh_block_hash k) (blockhash_to_score d)\<rparr>)
       (part_range_keys (Included (BlueScoredChainBlockHash min_blue_score 0)) Unbounded (chain_block_scores d)) d"

fun removed_blocks_loop :: "hash list \<Rightarrow> u64 \<Rightarrow> bool \<Rightarrow> db \<Rightarrow> u64 \<times> bool \<times> db" where
  "removed_blocks_loop [] min_blue found d = (min_blue, found, d)"
| "removed_blocks_loop (b # bs) min_blue found d =
     (case lookup_removed_block_score d b of
        None \<Rightarrow> removed_blocks_loop bs min_blue found d
      | Some score \<Rightarrow> removed_blocks_loop bs (min min_blue score) True
                        (d\<lparr>blockhash_to_score := part_remove b (blockhash_to_score d)\<rparr>))"

definition identify_reorg_blocks_and_delete ::
  "db \<Rightarrow> hash list \<Rightarrow> u64 option \<Rightarrow> u64 option \<times> db" where
  "identify_reorg_blocks_and_delete d removed_blocks forced =
     (let (min1, found1, d1) = removed_blocks_loop removed_blocks (- 1) False d;
          (min2, found2) = (case forced of Some score \<Rightarrow> (min min1 score, True) | None \<Rightarrow> (min1, found1)) in
      if \<not> found2 then (None, d1) else (Some min2, remove_chain_state_from_blue_score d1 min2))"

section \<open>Operations\<close>

definition restore_listing_for_reorged_send :: "db \<Rightarrow> operation_common \<Rightarrow> send_info \<Rightarrow> db" where
  "restore_listing_for_reorged_send d common info =
     (case part_get (tx_id_to_opscore d) (si_listing_utxo_txid info) of
        None \<Rightarrow> d
      | Some list_op_score \<Rightarrow>
         (case part_get (operation_history d) list_op_score of
            None \<Rightarrow> d
          | Some checked \<Rightarrow>
             if co_error checked \<noteq> None then d
             else (case op_info (co_operation checked) of
                 Listing list_info \<Rightarrow>
                   insert_listing d (oc_tick common) (si_token_id info)
                     \<lparr>lv_seller = oc_sender (op_common (co_operation checked)),
                      lv_listing_tx_id = si_listing_utxo_txid info,
                      lv_utxo_address = li_utxo_address list_info,
                      lv_redeem_script = li_redeem_script list_info,
                      lv_op_score = list_op_score\<rparr>
               | _ \<Rightarrow> d)))"

definition removed_op_stats :: "operation \<Rightarrow> stats \<Rightarrow> stats" where
  "removed_op_stats op diff0 =
     (let diff = diff0\<lparr>st_security_fees := st_security_fees diff0 + oc_fee (op_common op)\<rparr> in
      case op_info op of
        Deploy i \<Rightarrow> diff\<lparr>st_deployments := st_deployments diff + 1,
                         st_royalty_fees := st_royalty_fees diff + royalty_or_zero (di_royalty i)\<rparr>
      | Mint i \<Rightarrow> diff\<lparr>st_mints := st_mints diff + 1,
                       st_royalty_fees := st_royalty_fees diff + royalty_or_zero (mi_royalty i)\<rparr>
      | Transfer _ \<Rightarrow> diff\<lparr>st_transfers := st_transfers diff + 1\<rparr>
      | Discount _ \<Rightarrow> diff
      | Listing _ \<Rightarrow> diff\<lparr>st_listings := st_listings diff + 1\<rparr>
      | Send _ \<Rightarrow> diff\<lparr>st_sends := st_sends diff + 1\<rparr>)"

fun remove_operations_loop :: "(u64 \<times> checked_operation) list \<Rightarrow> stats \<Rightarrow> db \<Rightarrow> (stats \<times> db) res" where
  "remove_operations_loop [] diff d = Inr (diff, d)"
| "remove_operations_loop ((score, op) # ops) diff d =
     (let d1 = d\<lparr>tx_id_to_opscore := part_remove (oc_tx_id (op_common (co_operation op))) (tx_id_to_opscore d)\<rparr>;
          (old, h) = part_remove_if_exists score (operation_history d1);
          d2 = d1\<lparr>operation_history := h\<rparr> in
      and_then (expect ''unwrap on None'' old) (\<lambda>checked.
        if co_error checked \<noteq> None then remove_operations_loop ops diff d2
        else
         (let operation = co_operation checked;
              d3 = (case op_info operation of
                      Send info \<Rightarrow> restore_listing_for_reorged_send d2 (op_common operation) info
                    | _ \<Rightarrow> d2) in
          remove_operations_loop ops (removed_op_stats operation diff) d3)))"

definition remove_affected_operations :: "db \<Rightarrow> u64 \<Rightarrow> (stats \<times> db) res" where
  "remove_affected_operations d score_threshold =
     remove_operations_loop (part_range (Included score_threshold) Unbounded (operation_history d)) stats_default d"

section \<open>Deployments, discounts and listings\<close>

fun remove_deployments_loop :: "deployment_key list \<Rightarrow> (tick \<rightharpoonup> u64) \<Rightarrow> db \<Rightarrow> (tick \<rightharpoonup> u64) \<times> db" where
  "remove_deployments_loop [] premints d = (premints, d)"
| "remove_deployments_loop (k # ks) premints d =
     (let d1 = d\<lparr>collection_deployments := part_remove k (collection_deployments d)\<rparr>;
          (old, r) = part_remove_if_exists (dk_tick k) (collection_registry d1);
          d2 = d1\<lparr>collection_registry := r\<rparr> in
      remove_deployments_loop ks
        (case old of Some sdi \<Rightarrow> premints(dk_tick k \<mapsto> di_premint (dw_info (sd_deploy_info sdi))) | None \<Rightarrow> premints) d2)"

definition remove_affected_deployments :: "db \<Rightarrow> u64 \<Rightarrow> (tick \<rightharpoonup> u64) \<times> db" where
  "remove_affected_deployments d score_threshold =
     remove_deployments_loop
       (part_range_keys (Included (DeploymentKey score_threshold tick_MIN)) Unbounded (collection_deployments d)) Map.empty d"

definition remove_discounts :: "db \<Rightarrow> u64 \<Rightarrow> db" where
  "remove_discounts d tx_score_threshold =
     fold (\<lambda>(k, fee) d. d\<lparr>vip := part_remove (VipKey (sd_spk k) (sd_tick k) (rev_u64 (sd_score k)) fee) (vip d)\<rparr>)
       (discounts_from_score tx_score_threshold (score_to_discount d)) d"

definition remove_affected_listings :: "db \<Rightarrow> u64 \<Rightarrow> db" where
  "remove_affected_listings d score_threshold =
     fold (\<lambda>(k, lv) d. remove_listing d (ok_tick k) (ok_token_id k) (lv_seller lv))
       (filter (\<lambda>(k, lv). lv_op_score lv \<ge> score_threshold) (part_range Unbounded Unbounded (listings d))) d"

section \<open>Ownership\<close>

text \<open>
  One key of \<^verbatim>\<open>get_affected_token_operations\<close>: the history entry and the change are removed; for a mint the
  mint entry too, and a random id is rolled back. The premint comes from the removed deployment or,
  failing that, from the registry.
\<close>

definition undo_change :: "(tick \<rightharpoonup> u64) \<Rightarrow> token_mints_key \<Rightarrow> db \<Rightarrow> (spk option \<times> db) res" where
  "undo_change premints k d =
     (let (holder, h) = part_remove_if_exists
            (OwnershipHistoryKey_with_score (tm_tick k) (tm_token_id k) (tm_score k)) (ownership_history d);
          (mint, mh) = part_remove_if_exists
            (MintHistoryKey (tm_tick k) (tm_reversed_seq_number k) (tm_token_id k) (tm_score k)) (mint_history d);
          d1 = d\<lparr>ownership_history := h, ownership_changes := part_remove k (ownership_changes d), mint_history := mh\<rparr> in
      if mint = None then Inr (holder, d1)
      else and_then
        (case premints (tm_tick k) of
           Some p \<Rightarrow> Inr p
         | None \<Rightarrow> expect ''Fallback should not fail''
             (map_option (\<lambda>sdi. di_premint (dw_info (sd_deploy_info sdi))) (part_get (collection_registry d1) (tm_tick k))))
        (\<lambda>premint.
          if tm_token_id k > premint
          then and_then (rollback_token_generation d1 (tm_tick k) (tm_token_id k)) (\<lambda>d2. Inr (holder, d2))
          else Inr (holder, d1)))"

fun undo_changes :: "(tick \<rightharpoonup> u64) \<Rightarrow> token_mints_key list \<Rightarrow> db \<Rightarrow> ((token_mints_key \<times> spk option) list \<times> db) res" where
  "undo_changes premints [] d = Inr ([], d)"
| "undo_changes premints (k # ks) d =
     and_then (undo_change premints k d) (\<lambda>(holder, d1).
       and_then (undo_changes premints ks d1) (\<lambda>(rest, d2). Inr ((k, holder) # rest, d2)))"

definition get_affected_token_operations ::
  "db \<Rightarrow> u64 \<Rightarrow> (tick \<rightharpoonup> u64) \<Rightarrow> ((token_mints_key \<times> spk option) list \<times> db) res" where
  "get_affected_token_operations d score_threshold premints =
     undo_changes premints
       (rev (part_range_keys (Included (TokenMintsKey score_threshold tick_MIN 0 0)) Unbounded (ownership_changes d))) d"

definition remove_ownership_records :: "token_mints_key list \<Rightarrow> db \<Rightarrow> db" where
  "remove_ownership_records ks d =
     fold (\<lambda>k d. d\<lparr>current_ownership := part_remove (OwnershipKey (tm_tick k) (tm_token_id k)) (current_ownership d)\<rparr>) ks d"

definition rebuild_token :: "token_mints_key \<times> spk option \<Rightarrow> db \<Rightarrow> db" where
  "rebuild_token a d =
     (let (k, holder) = a;
          t = tm_tick k; i = tm_token_id k;
          d1 = (case holder of
                  Some p \<Rightarrow> d\<lparr>address_holdings := part_remove (AddressHoldingKey p t i) (address_holdings d)\<rparr>
                | None \<Rightarrow> d) in
      case last_owner_with_tx_mod_score (OwnershipKey t i) (ownership_history d1) of
        Some (owner, mod_tx_score) \<Rightarrow>
          d1\<lparr>current_ownership := part_insert (OwnershipKey t i)
               \<lparr>co_owner = owner, co_mod_tx_score = mod_tx_score\<rparr> (current_ownership d1),
             address_holdings := part_insert (AddressHoldingKey owner t i) mod_tx_score (address_holdings d1)\<rparr>
      | None \<Rightarrow> d1)"

definition rebuild_ownership_state :: "(token_mints_key \<times> spk option) list \<Rightarrow> db \<Rightarrow> db" where
  "rebuild_ownership_state affected d = fold rebuild_token affected d"

definition reconstruct_token_ownership :: "db \<Rightarrow> u64 \<Rightarrow> (tick \<rightharpoonup> u64) \<Rightarrow> db res" where
  "reconstruct_token_ownership d score_threshold premints =
     and_then (get_affected_token_operations d score_threshold premints)
       (\<lambda>(affected, d1). Inr (rebuild_ownership_state affected (remove_ownership_records (map fst affected) d1)))"

section \<open>A chain change\<close>

text \<open>The steps of \<^verbatim>\<open>process_removal\<close> once the score threshold is known.\<close>

definition remove_from_score :: "db \<Rightarrow> u64 \<Rightarrow> (stats \<times> db) res" where
  "remove_from_score d threshold =
     and_then (remove_affected_operations d threshold) (\<lambda>(diff, d1).
       let (premints, d2) = remove_affected_deployments d1 threshold;
           d3 = remove_discounts d2 threshold;
           d4 = remove_affected_listings d3 threshold in
       and_then (reconstruct_token_ownership d4 threshold premints) (\<lambda>d5. Inr (diff, d5)))"

definition process_removal :: "u64 \<Rightarrow> db \<Rightarrow> hash list \<Rightarrow> u64 option \<Rightarrow> (stats \<times> db) res" where
  "process_removal msl d removed_blocks forced =
     (case identify_reorg_blocks_and_delete d removed_blocks forced of
        (None, d1) \<Rightarrow> Inr (stats_default, d1)
      | (Some min_blue_score, d1) \<Rightarrow> remove_from_score d1 (calculate_tx_score_from_blue msl min_blue_score))"

definition process_chain_changes_wtx :: "u64 \<Rightarrow> (bytes \<Rightarrow> spk) \<Rightarrow> virtual_chain_changes \<Rightarrow> db \<Rightarrow> db res" where
  "process_chain_changes_wtx msl p2sh vcc d =
     and_then
       (if removed_chain_block_hashes vcc \<noteq> [] \<or> forced_rollback_blue_score vcc \<noteq> None
        then and_then (process_removal msl d (removed_chain_block_hashes vcc) (forced_rollback_blue_score vcc))
               (\<lambda>(diff, d1). Inr (d1\<lparr>db_stats := snd (stats_removal diff (db_stats d1))\<rparr>))
        else Inr d)
       (\<lambda>d1. if mergesets vcc \<noteq> []
              then and_then (process_additions msl p2sh d1 (mergesets vcc))
                     (\<lambda>(diff, d2). Inr (d2\<lparr>db_stats := snd (stats_addition diff (db_stats d2))\<rparr>))
              else Inr d1)"

text \<open>The transaction commits when the processing succeeds; otherwise the database is as before.\<close>

definition process_chain_changes :: "u64 \<Rightarrow> (bytes \<Rightarrow> spk) \<Rightarrow> virtual_chain_changes \<Rightarrow> db \<Rightarrow> unit res \<times> db" where
  "process_chain_changes msl p2sh vcc d =
     (case process_chain_changes_wtx msl p2sh vcc d of
        Inl e \<Rightarrow> (Inl e, d)
      | Inr d' \<Rightarrow> (Inr (), d'))"

end
