(* ===== verification/AbstractLedger.thy ===== *)
theory AbstractLedger
  imports Batches
begin

text \<open>
  What a client of the indexer sees: which ticks are deployed, who owns a token, which tokens are for
  sale and by which listing transaction. An accepted operation is a step of this abstract ledger; the
  random choice of an id is left open. The handlers of \<^verbatim>\<open>nexus/src/processor.rs\<close> refine the steps, and
  the market rules are read off the steps by inversion.
\<close>

record ledger =
  lg_tick :: "tick \<Rightarrow> deploy_info option"
  lg_owner :: "tick \<Rightarrow> u64 \<Rightarrow> spk option"
  lg_sale :: "tick \<Rightarrow> u64 \<Rightarrow> (spk \<times> hash) option"

definition abs_ledger :: "db \<Rightarrow> ledger" where
  "abs_ledger d = \<lparr>
     lg_tick = (\<lambda>t. map_option (\<lambda>sdi. dw_info (sd_deploy_info sdi)) (part_get (collection_registry d) t)),
     lg_owner = (\<lambda>t i. map_option co_owner (part_get (current_ownership d) (OwnershipKey t i))),
     lg_sale = (\<lambda>t i. map_option (\<lambda>lv. (lv_seller lv, lv_listing_tx_id lv)) (part_get (listings d) (OwnershipKey t i)))\<rparr>"

definition set_owner :: "tick \<Rightarrow> u64 \<Rightarrow> spk option \<Rightarrow> ledger \<Rightarrow> ledger" where
  "set_owner t i q g = g\<lparr>lg_owner := (lg_owner g)(t := (lg_owner g t)(i := q))\<rparr>"

definition set_sale :: "tick \<Rightarrow> u64 \<Rightarrow> (spk \<times> hash) option \<Rightarrow> ledger \<Rightarrow> ledger" where
  "set_sale t i q g = g\<lparr>lg_sale := (lg_sale g)(t := (lg_sale g t)(i := q))\<rparr>"

text \<open>The accepted steps; \<^verbatim>\<open>c\<close> is the common part of the operation.\<close>

inductive ledger_step :: "(bytes \<Rightarrow> spk) \<Rightarrow> ledger \<Rightarrow> operation_common \<Rightarrow> operation_info \<Rightarrow> ledger \<Rightarrow> bool"
  for p2sh :: "bytes \<Rightarrow> spk" where
  step_deploy: "lg_tick g (oc_tick c) = None \<Longrightarrow>
    g' = g\<lparr>lg_tick := (lg_tick g)(oc_tick c \<mapsto> info),
           lg_owner := (lg_owner g)(oc_tick c := (\<lambda>i. if 0 < i \<and> i \<le> di_premint info then Some (di_deployer info)
                                                   else lg_owner g (oc_tick c) i))\<rparr> \<Longrightarrow>
    ledger_step p2sh g c (Deploy info) g'"
| step_mint: "lg_tick g (oc_tick c) = Some di \<Longrightarrow> di_mint_start_daa di \<le> oc_accepting_block_daa_score c \<Longrightarrow>
    lg_owner g (oc_tick c) (mi_token_id info) = None \<Longrightarrow> 0 < mi_token_id info \<Longrightarrow> mi_token_id info \<le> di_max di \<Longrightarrow>
    g' = set_owner (oc_tick c) (mi_token_id info) (Some (mi_to info)) g \<Longrightarrow>
    ledger_step p2sh g c (Mint info) g'"
| step_transfer: "lg_owner g (oc_tick c) (ti_token_id info) = Some (oc_sender c) \<Longrightarrow>
    lg_sale g (oc_tick c) (ti_token_id info) = None \<Longrightarrow>
    g' = set_owner (oc_tick c) (ti_token_id info) (Some (ti_to info)) g \<Longrightarrow>
    ledger_step p2sh g c (Transfer info) g'"
| step_discount: "lg_tick g (oc_tick c) = Some di \<Longrightarrow> di_deployer di = oc_sender c \<Longrightarrow>
    dc_fee info < royalty_or_zero (di_royalty di) \<Longrightarrow>
    ledger_step p2sh g c (Discount info) g"
| step_list: "lg_tick g (oc_tick c) \<noteq> None \<Longrightarrow> lg_owner g (oc_tick c) (li_token_id info) = Some (oc_sender c) \<Longrightarrow>
    lg_sale g (oc_tick c) (li_token_id info) = None \<Longrightarrow> p2sh (li_redeem_script info) = li_utxo_address info \<Longrightarrow>
    g' = set_sale (oc_tick c) (li_token_id info) (Some (oc_sender c, oc_tx_id c)) g \<Longrightarrow>
    ledger_step p2sh g c (Listing info) g'"
| step_send: "lg_sale g (oc_tick c) (si_token_id info) = Some (seller, si_listing_utxo_txid info) \<Longrightarrow>
    g' = set_sale (oc_tick c) (si_token_id info) None
           (case si_buyer info of None \<Rightarrow> g | Some b \<Rightarrow> set_owner (oc_tick c) (si_token_id info) (Some b) g) \<Longrightarrow>
    ledger_step p2sh g c (Send info) g'"

inductive_cases step_deployE: "ledger_step p2sh g c (Deploy info) g'"
inductive_cases step_mintE: "ledger_step p2sh g c (Mint info) g'"
inductive_cases step_transferE: "ledger_step p2sh g c (Transfer info) g'"
inductive_cases step_discountE: "ledger_step p2sh g c (Discount info) g'"
inductive_cases step_listE: "ledger_step p2sh g c (Listing info) g'"
inductive_cases step_sendE: "ledger_step p2sh g c (Send info) g'"

lemmas step_elims = step_deployE step_mintE step_transferE step_discountE step_listE step_sendE

lemma abs_ledger_simps [simp]:
  "lg_tick (abs_ledger d) t = map_option (\<lambda>sdi. dw_info (sd_deploy_info sdi)) (part_get (collection_registry d) t)"
  "lg_owner (abs_ledger d) t i = map_option co_owner (part_get (current_ownership d) (OwnershipKey t i))"
  "lg_sale (abs_ledger d) t i = map_option (\<lambda>lv. (lv_seller lv, lv_listing_tx_id lv)) (part_get (listings d) (OwnershipKey t i))"
  by (simp_all add: abs_ledger_def)

section \<open>The building blocks on the abstract ledger\<close>

lemma abs_move_ownership: "abs_ledger (move_ownership d s t i p q) = set_owner t i (Some q) (abs_ledger d)"
  by (auto simp: abs_ledger_def set_owner_def move_ownership_def fun_eq_iff)

lemma abs_record_mint: "abs_ledger (record_mint d t i n s q) = set_owner t i (Some q) (abs_ledger d)"
  by (auto simp: abs_ledger_def set_owner_def record_mint_def fun_eq_iff)

lemma abs_insert_listing:
  "abs_ledger (insert_listing d t i lv) = set_sale t i (Some (lv_seller lv, lv_listing_tx_id lv)) (abs_ledger d)"
  by (auto simp: abs_ledger_def set_sale_def insert_listing_def fun_eq_iff)

lemma abs_remove_listing: "abs_ledger (remove_listing d t i p) = set_sale t i None (abs_ledger d)"
  by (auto simp: abs_ledger_def set_sale_def remove_listing_def fun_eq_iff)

lemma abs_generate:
  assumes "generate_token_id d t e m p = Inr (v, d')"
  shows "abs_ledger d' = abs_ledger d"
  by (subst generate_frame [OF assms]) (simp add: abs_ledger_def)

lemmas abs_blocks = abs_move_ownership abs_record_mint abs_insert_listing abs_remove_listing

section \<open>Refinement\<close>

lemma generate_id_bounds:
  assumes l: "ledger_ok d" and reg: "part_get (collection_registry d) t = Some sdi"
    and n: "n = last_seq t (mint_history d)" "n < di_max (dw_info (sd_deploy_info sdi))"
    and i: "if next_is_sequential (di_max (dw_info (sd_deploy_info sdi))) (di_premint (dw_info (sd_deploy_info sdi))) n
            then (i, d1) = (n + 1, d)
            else generate_token_id d t ent (di_max (dw_info (sd_deploy_info sdi)))
                   (di_premint (dw_info (sd_deploy_info sdi))) = Inr (i, d1)"
  shows "0 < i \<and> i \<le> di_max (dw_info (sd_deploy_info sdi)) \<and> abs_ledger d1 = abs_ledger d"
proof -
  let ?m = "di_max (dw_info (sd_deploy_info sdi))" and ?p = "di_premint (dw_info (sd_deploy_info sdi))"
  obtain n' L where "supply_inv d t ?m ?p n' L" using ledger_tick [OF l reg] by (auto simp: supply_ok_def)
  then have inv: "supply_inv d t ?m ?p n L" using supply_inv_last_seq n(1) by blast
  show ?thesis
  proof (cases "next_is_sequential ?m ?p n")
    case True
    have "unat (n + 1) = unat n + 1"
      using n(2) unat_u64_bound [of ?m] by (intro unat_Suc_u64) (simp add: word_less_nat_alt)
    then show ?thesis using True i n(2) by (auto simp: word_less_nat_alt word_le_nat_alt)
  next
    case False
    then have g: "generate_token_id d t ent ?m ?p = Inr (i, d1)" using i by simp
    obtain v d2 where "generate_token_id d t ent ?m ?p = Inr (v, d2)" "?p < v"
      "tick_ranges d t ?m ?p L" "ranges_wf ?m ?p L" "L \<noteq> []"
      using supply_random [OF inv n(2) False, of ent] .
    moreover from generate_takes_bounds [OF this(3-5) g] have "0 < i \<and> i \<le> ?m" by simp
    ultimately show ?thesis using abs_generate [OF g] by simp
  qed
qed

lemma abs_mint:
  assumes l: "ledger_ok d" and r: "process_mint d ent s c info False = Inr (Inr i, d')"
  shows "ledger_step p2sh (abs_ledger d) c (Mint (info\<lparr>mi_token_id := i\<rparr>)) (abs_ledger d')"
  using l
proof (cases rule: process_mint_cases [of d ent s c info False])
  case (accepted j d1 sdi n)
  have i: "j = i" "d' = record_mint d1 (oc_tick c) i (n + 1) s (mi_to info)" using accepted(1) r by simp_all
  let ?di = "dw_info (sd_deploy_info sdi)"
  have b: "0 < i \<and> i \<le> di_max ?di \<and> abs_ledger d1 = abs_ledger d"
    using generate_id_bounds [OF l accepted(2-5)] i by simp
  have "\<not> oc_accepting_block_daa_score c < di_mint_start_daa ?di"
    using r accepted(2) by (auto simp: process_mint_def Let_def)
  then show ?thesis unfolding i(2) abs_record_mint
    using b accepted(2,6) i(1)
    by (intro step_mint [where di = ?di]) (auto simp: owned_def not_less)
qed (use r in simp)

lemma abs_deploy:
  assumes l: "ledger_ok d" and sc: "scores_le d s0" "s0 < s" and v: "deploy_valid info"
    and r: "process_deployment d s c info = Inr (Inr u, d')"
  shows "ledger_step p2sh (abs_ledger d) c (Deploy info) (abs_ledger d')"
proof -
  have "only_tokens (d\<lparr>collection_registry := collection_registry d', collection_deployments := collection_deployments d'\<rparr>) d'"
    using r by (auto simp: process_deployment_def Let_def only_tokens_fields split: option.splits if_splits dest!: only_tokens_premint)
  then have li: "listings d' = listings d" by (simp add: only_tokens_fields)
  show ?thesis
    using process_deployment_ok [OF l sc v, of c] r
    by (intro step_deploy) (auto simp: abs_ledger_def fun_eq_iff li)
qed

lemma abs_transfer:
  assumes r: "process_transfer d s c info = Inr (Inr u, d')"
  shows "ledger_step p2sh (abs_ledger d) c (Transfer info) (abs_ledger d')"
proof (cases rule: process_transfer_cases [of d s c info])
  case (accepted co)
  then have "d' = move_ownership d s (oc_tick c) (ti_token_id info) (co_owner co) (ti_to info)" using r by simp
  with accepted(2-4) show ?thesis by (intro step_transfer) (auto simp: abs_blocks)
qed (use r in simp)

lemma abs_discount:
  assumes r: "process_discount d s c info = Inr (Inr u, d')"
  shows "ledger_step p2sh (abs_ledger d) c (Discount info) (abs_ledger d')"
proof (cases rule: process_discount_cases [of d s c info])
  case (accepted sdi)
  then have "abs_ledger d' = abs_ledger d" using r by (auto simp: abs_ledger_def)
  with accepted(2-4) show ?thesis by (auto intro: step_discount)
qed (use r in simp)

lemma abs_list:
  assumes r: "process_list p2sh d s c info = Inr (Inr u, d')"
  shows "ledger_step p2sh (abs_ledger d) c (Listing info) (abs_ledger d')"
proof (cases rule: process_list_cases [of p2sh d s c info])
  case (accepted co lv)
  then have "d' = insert_listing d (oc_tick c) (li_token_id info) lv" using r by simp
  with accepted(2-7) show ?thesis by (intro step_list) (auto simp: abs_blocks)
qed (use r in simp)

lemma abs_send:
  assumes r: "process_send d s c info = Inr (Inr u, d')"
  shows "ledger_step p2sh (abs_ledger d) c (Send info) (abs_ledger d')"
proof (cases rule: process_send_cases [of d s c info])
  case (accepted lv)
  then have "abs_ledger d' = set_sale (oc_tick c) (si_token_id info) None
       (case si_buyer info of None \<Rightarrow> abs_ledger d
        | Some b \<Rightarrow> set_owner (oc_tick c) (si_token_id info) (Some b) (abs_ledger d))"
    using r by (auto simp: abs_blocks split: option.split)
  with accepted(2,3) show ?thesis by (intro step_send [where seller = "lv_seller lv"]) auto
qed (use r in simp)

lemma finished_iff:
  "(case r of Inl e \<Rightarrow> (Some e, x) | Inr i \<Rightarrow> (None, f i)) = (None, y) \<longleftrightarrow> (\<exists>i. r = Inr i \<and> y = f i)"
  by (cases r) auto

lemma refused_iff:
  "(case r of Inl e \<Rightarrow> (Some e, x) | Inr i \<Rightarrow> (None, f i)) = (Some e', y) \<longleftrightarrow> r = Inl e' \<and> y = x"
  by (cases r) auto

lemma apply_operation_refines_aux:
  assumes l: "ledger_ok d" and sc: "scores_le d s0" "s0 < s" and v: "op_valid op"
    and r: "apply_operation p2sh d ent s op diff = Inr (None, op', diff', d')"
  shows "ledger_step p2sh (abs_ledger d) (op_common op) (op_info op') (abs_ledger d')"
proof (cases "op_info op")
  case (Deploy info)
  then have "\<exists>u. process_deployment d s (op_common op) info = Inr (Inr u, d') \<and> op_info op' = Deploy info"
    using r by (auto simp: apply_operation_def Let_def and_then_Inr_iff finished_iff)
  then show ?thesis using abs_deploy [OF l sc] v Deploy by (auto simp: op_valid_def)
next
  case (Mint info)
  then have "\<exists>i. process_mint d ent s (op_common op) info False = Inr (Inr i, d') \<and> op_info op' = Mint (info\<lparr>mi_token_id := i\<rparr>)"
    using r by (auto simp: apply_operation_def Let_def and_then_Inr_iff finished_iff)
  then show ?thesis using abs_mint [OF l] by auto
next
  case (Transfer info)
  then have "\<exists>u. process_transfer d s (op_common op) info = Inr (Inr u, d') \<and> op_info op' = Transfer info"
    using r by (auto simp: apply_operation_def Let_def and_then_Inr_iff finished_iff)
  then show ?thesis using abs_transfer by auto
next
  case (Discount info)
  then have "\<exists>u. process_discount d s (op_common op) info = Inr (Inr u, d') \<and> op_info op' = Discount info"
    using r by (auto simp: apply_operation_def Let_def and_then_Inr_iff finished_iff)
  then show ?thesis using abs_discount by auto
next
  case (Listing info)
  then have "\<exists>u. process_list p2sh d s (op_common op) info = Inr (Inr u, d') \<and> op_info op' = Listing info"
    using r by (auto simp: apply_operation_def Let_def and_then_Inr_iff finished_iff)
  then show ?thesis using abs_list by auto
next
  case (Send info)
  then have "\<exists>u. process_send d s (op_common op) info = Inr (Inr u, d') \<and> op_info op' = Send info"
    using r by (auto simp: apply_operation_def Let_def and_then_Inr_iff finished_iff)
  then show ?thesis using abs_send by auto
qed

section \<open>Facts of the steps\<close>

lemma step_owner_kept: "ledger_step p2sh g c op g' \<Longrightarrow> lg_owner g t i \<noteq> None \<Longrightarrow>
   (\<And>info. op \<noteq> Deploy info) \<Longrightarrow> lg_owner g' t i \<noteq> None"
  by (induction rule: ledger_step.induct) (auto simp: set_owner_def set_sale_def split: option.splits)

lemma step_owner_change:
  assumes "ledger_step p2sh g c op g'" and "lg_owner g t i = Some p" and "lg_owner g' t i \<noteq> Some p"
    and "\<And>info. op \<noteq> Deploy info"
  shows "(\<exists>info. op = Transfer info \<and> oc_tick c = t \<and> ti_token_id info = i \<and> oc_sender c = p \<and>
            lg_sale g t i = None \<and> lg_owner g' t i = Some (ti_to info)) \<or>
         (\<exists>info b seller. op = Send info \<and> oc_tick c = t \<and> si_token_id info = i \<and>
            lg_sale g t i = Some (seller, si_listing_utxo_txid info) \<and> si_buyer info = Some b \<and> lg_owner g' t i = Some b)"
  using assms
  by (induction rule: ledger_step.induct) (auto simp: set_owner_def set_sale_def split: option.splits if_splits)

lemma apply_operation_rejected:
  assumes "apply_operation p2sh d ent s op diff = Inr (Some e, op', diff', d')"
  shows "op' = op" and "diff' = diff"
  using assms by (auto simp: apply_operation_def Let_def and_then_Inr_iff refused_iff split: operation_info.splits)

section \<open>Counting a supply\<close>

lemma card_unat: "card (A :: u64 set) = card (unat ` A)"
  by (rule card_image [symmetric]) (simp add: inj_on_def word_unat_eq_iff)

lemma unat_image_Icc: "unat ` {i :: u64. 0 < i \<and> i \<le> n} = {1 .. unat n}"
proof -
  have "x \<in> unat ` {i :: u64. 0 < i \<and> i \<le> n}" if "1 \<le> x" "x \<le> unat n" for x
  proof (rule image_eqI)
    have "unat (word_of_nat x :: u64) = x" using that unat_u64_bound [of n] by (intro unat_of_nat_u64) simp
    then show "x = unat (word_of_nat x :: u64)" "word_of_nat x \<in> {i :: u64. 0 < i \<and> i \<le> n}"
      using that by (simp_all add: word_less_nat_alt word_le_nat_alt)
  qed
  then show ?thesis by (auto simp: word_less_nat_alt word_le_nat_alt)
qed

lemma supply_count:
  assumes inv: "supply_inv d t m p n L"
  shows "card {i. owned d t i} = unat n" and "owned d t i \<Longrightarrow> 0 < i \<and> i \<le> m"
proof -
  have nm: "n \<le> m" using inv by (simp add: supply_inv_def)
  show "owned d t i \<Longrightarrow> 0 < i \<and> i \<le> m" using inv nm
    by (auto simp: supply_inv_def split: if_splits intro: order_trans)
  show "card {i. owned d t i} = unat n"
  proof (cases "n < p \<or> p = m")
    case True
    then have "{i. owned d t i} = {i. 0 < i \<and> i \<le> n}" using inv by (auto simp: supply_inv_def)
    then show ?thesis using card_unat [of "{i. 0 < i \<and> i \<le> n}"] unat_image_Icc by simp
  next
    case False
    then have wf: "ranges_wf m p L" and len: "length (ids_of L) = unat m - unat n"
      and ow: "{i. owned d t i} = {i. 0 < i \<and> i \<le> m} - {i. unat i \<in> set (ids_of L)}"
      using inv by (auto simp: supply_inv_def)
    have "unat ` {i. owned d t i} = {1 .. unat m} - set (ids_of L)"
      unfolding ow unat_image_Icc [symmetric] by (auto simp: image_iff word_unat_eq_iff)
    moreover have "set (ids_of L) \<subseteq> {1 .. unat m}" using wf by (force simp: ranges_wf_def)
    moreover have "card (set (ids_of L)) = unat m - unat n" using wf len by (simp add: ranges_wf_def distinct_card)
    ultimately show ?thesis using nm
      by (subst card_unat) (simp add: card_Diff_subset word_le_nat_alt)
  qed
qed

section \<open>A sample ledger\<close>

text \<open>The database after the deployment of \<^verbatim>\<open>deploy_A\<close>: its premint are the tokens 1 and 2.\<close>

definition db_A :: db where
  "db_A = (case process_deployment db_empty 10 (common_A 1 spk_A) deploy_A of Inr (_, d) \<Rightarrow> d | Inl _ \<Rightarrow> db_empty)"

lemma db_A:
  "process_deployment db_empty 10 (common_A 1 spk_A) deploy_A = accept db_A ()"
  "ledger_ok db_A" "scores_le db_A 10"
  "part_get (collection_registry db_A) tick_A =
     Some \<lparr>sd_deploy_score = 10, sd_deploy_info = \<lparr>dw_info = deploy_A, dw_common = common_A 1 spk_A\<rparr>\<rparr>"
  "part_get (current_ownership db_A) (OwnershipKey tick_A i) =
     (if 0 < i \<and> i \<le> 2 then Some \<lparr>co_owner = spk_A, co_mod_tx_score = 10\<rparr> else None)"
  "listings db_A = part_empty"
proof -
  have t: "oc_tick (common_A 1 spk_A) = tick_A" by (simp add: common_A_def)
  obtain d where d: "process_deployment db_empty 10 (common_A 1 spk_A) deploy_A = accept d ()" "ledger_ok d" "scores_le d 10"
    "collection_registry d = part_insert tick_A \<lparr>sd_deploy_score = 10,
       sd_deploy_info = \<lparr>dw_info = deploy_A, dw_common = common_A 1 spk_A\<rparr>\<rparr> (collection_registry db_empty)"
    "\<And>t i. part_get (current_ownership d) (OwnershipKey t i) =
       (if t = tick_A \<and> 0 < i \<and> i \<le> 2 then Some \<lparr>co_owner = spk_A, co_mod_tx_score = 10\<rparr> else None)"
    using process_deployment_ok [OF ledger_ok_empty scores_le_empty [of 0], of 10 deploy_A "common_A 1 spk_A"]
    by (auto simp: t) (simp add: deploy_A_def)
  have e: "db_A = d" using d(1) by (simp add: db_A_def)
  have "listings d = listings db_empty"
    using d(1) by (auto simp: process_deployment_def Let_def only_tokens_fields dest!: only_tokens_premint split: if_splits)
  then show "process_deployment db_empty 10 (common_A 1 spk_A) deploy_A = accept db_A ()"
    "ledger_ok db_A" "scores_le db_A 10"
    "part_get (collection_registry db_A) tick_A =
     Some \<lparr>sd_deploy_score = 10, sd_deploy_info = \<lparr>dw_info = deploy_A, dw_common = common_A 1 spk_A\<rparr>\<rparr>"
    "part_get (current_ownership db_A) (OwnershipKey tick_A i) =
     (if 0 < i \<and> i \<le> 2 then Some \<lparr>co_owner = spk_A, co_mod_tx_score = 10\<rparr> else None)"
    "listings db_A = part_empty"
    using d unfolding e by (simp_all add: db_empty_def)
qed

definition op_transfer :: operation where
  "op_transfer = \<lparr>op_common = common_A 3 spk_A, op_info = Transfer \<lparr>ti_token_id = 1, ti_to = spk_B\<rparr>\<rparr>"

section \<open>Properties\<close>

text \<open>C2: Every operation on a sound ledger is either refused, and then changes neither the database nor the
  statistics, or is exactly one step of the abstract ledger.\<close>

theorem apply_operation_refines:
  assumes "ledger_ok d" and "scores_le d s0" and "s0 < s" and "op_valid op"
  shows "\<exists>err op' diff' d'. apply_operation p2sh d ent s op diff = Inr (err, op', diff', d') \<and>
           (case err of
              None \<Rightarrow> ledger_step p2sh (abs_ledger d) (op_common op) (op_info op') (abs_ledger d')
            | Some e \<Rightarrow> d' = d \<and> op' = op \<and> diff' = diff)"
proof -
  obtain err op' diff' d' where a: "apply_operation p2sh d ent s op diff = Inr (err, op', diff', d')"
    "err \<noteq> None \<longrightarrow> d' = d \<and> op' = op"
    using apply_operation_ok [OF assms, of p2sh ent diff] by blast
  then show ?thesis
    using apply_operation_refines_aux [OF assms, of p2sh ent diff op' diff' d'] apply_operation_rejected(2)
    by (cases err) auto
qed

theorem apply_operation_refines_witness:
  "\<exists>err op' diff' d'. apply_operation (\<lambda>_. spk_A) db_empty 3 10 (cx_operation cx_deploy) stats_default = Inr (err, op', diff', d') \<and>
     (case err of
        None \<Rightarrow> ledger_step (\<lambda>_. spk_A) (abs_ledger db_empty) (op_common (cx_operation cx_deploy)) (op_info op') (abs_ledger d')
      | Some e \<Rightarrow> d' = db_empty \<and> op' = cx_operation cx_deploy \<and> diff' = stats_default)"
  by (rule apply_operation_refines [where ?s0.0 = 0]) (simp_all add: cx_deploy_def op_valid_def)

text \<open>C5: A token changes hands only by a transfer that its owner signs while it is not for sale, or by a sale that
  spends its listing; no operation takes a token away without giving it to somebody.\<close>

theorem ownership_changes_only_by_transfer_or_sale:
  assumes "ledger_ok d" and "scores_le d s0" and "s0 < s" and "op_valid op"
    and "apply_operation p2sh d ent s op diff = Inr (err, op', diff', d')"
    and "part_get (current_ownership d) (OwnershipKey t i) = Some co"
  shows "\<exists>co'. part_get (current_ownership d') (OwnershipKey t i) = Some co' \<and>
           (co_owner co' = co_owner co \<or>
            (\<exists>info. op_info op = Transfer info \<and> oc_tick (op_common op) = t \<and> ti_token_id info = i \<and>
               oc_sender (op_common op) = co_owner co \<and> part_get (listings d) (OwnershipKey t i) = None \<and>
               co_owner co' = ti_to info) \<or>
            (\<exists>info lv. op_info op = Send info \<and> oc_tick (op_common op) = t \<and> si_token_id info = i \<and>
               part_get (listings d) (OwnershipKey t i) = Some lv \<and> lv_listing_tx_id lv = si_listing_utxo_txid info \<and>
               si_buyer info = Some (co_owner co')))"
proof (cases err)
  case (Some e)
  then have "d' = d" using apply_operation_ok [OF assms(1-4), of p2sh ent diff] assms(5) by auto
  then show ?thesis using assms(6) by auto
next
  case None
  let ?g = "abs_ledger d" and ?g' = "abs_ledger d'" and ?c = "op_common op"
  have step: "ledger_step p2sh ?g ?c (op_info op') ?g'"
    using apply_operation_refines_aux [OF assms(1-4)] assms(5) None by blast
  have oi: "op_info op' = op_info op" if "\<And>info. op_info op \<noteq> Mint info"
    using assms(5) None that by (auto simp: apply_operation_def Let_def and_then_Inr_iff finished_iff split: operation_info.splits)
  have om: "\<exists>info. op_info op' = Mint info" if "op_info op = Mint info" for info
    using assms(5) None that by (auto simp: apply_operation_def Let_def and_then_Inr_iff finished_iff)
  have p: "lg_owner ?g t i = Some (co_owner co)" using assms(6) by simp
  show ?thesis
  proof (cases "\<exists>info. op_info op = Deploy info")
    case True
    then obtain info where op: "op_info op = Deploy info" by blast
    have step': "ledger_step p2sh ?g ?c (Deploy info) ?g'" using step oi op by simp
    then have none: "lg_tick ?g (oc_tick ?c) = None" by (rule step_deployE)
    have "t \<noteq> oc_tick ?c"
    proof
      assume "t = oc_tick ?c"
      then have "untouched d t" using assms(1) none unfolding ledger_ok_def tick_ok_def
        by (simp) (metis (no_types, lifting) option.simps(4))
      then show False using assms(6) by (simp add: untouched_def owned_def)
    qed
    then have "lg_owner ?g' t i = lg_owner ?g t i" using step' by (elim step_deployE) simp
    then show ?thesis using p by auto
  next
    case False
    have nd: "op_info op' \<noteq> Deploy info" for info using False oi om by (cases "op_info op") auto
    obtain q where q: "lg_owner ?g' t i = Some q" using step_owner_kept [OF step _ nd, of t i] p by auto
    then obtain co' where co': "part_get (current_ownership d') (OwnershipKey t i) = Some co'" "co_owner co' = q" by auto
    show ?thesis
    proof (cases "q = co_owner co")
      case True
      then show ?thesis using co' by auto
    next
      case False
      then have "lg_owner ?g' t i \<noteq> Some (co_owner co)" unfolding q by simp
      from step_owner_change [OF step p this nd] have R:
        "(\<exists>info. op_info op' = Transfer info \<and> oc_tick ?c = t \<and> ti_token_id info = i \<and> oc_sender ?c = co_owner co \<and>
            lg_sale ?g t i = None \<and> lg_owner ?g' t i = Some (ti_to info)) \<or>
         (\<exists>info b seller. op_info op' = Send info \<and> oc_tick ?c = t \<and> si_token_id info = i \<and>
            lg_sale ?g t i = Some (seller, si_listing_utxo_txid info) \<and> si_buyer info = Some b \<and> lg_owner ?g' t i = Some b)" .
      then have "op_info op' \<noteq> Mint info" for info by auto
      then have eq: "op_info op' = op_info op" using oi om by metis
      show ?thesis using R co' q unfolding eq by auto
    qed
  qed
qed

theorem ownership_changes_only_by_transfer_or_sale_witness:
  "\<exists>err op' diff' d' co'. apply_operation (\<lambda>_. spk_A) db_A 0 11 op_transfer stats_default = Inr (err, op', diff', d') \<and>
     part_get (current_ownership d') (OwnershipKey tick_A 1) = Some co' \<and> co_owner co' = spk_B"
proof -
  have a: "apply_operation (\<lambda>_. spk_A) db_A 0 11 op_transfer stats_default =
      Inr (None, op_transfer, stats_default\<lparr>st_security_fees := 0, st_transfers := 1\<rparr>,
           move_ownership db_A 11 tick_A 1 spk_A spk_B)"
    by (simp add: apply_operation_def process_transfer_def op_transfer_def common_A_def db_A stats_default_def Let_def)
  have v: "op_valid op_transfer" by (simp add: op_valid_def op_transfer_def)
  have co: "part_get (current_ownership db_A) (OwnershipKey tick_A 1) = Some \<lparr>co_owner = spk_A, co_mod_tx_score = 10\<rparr>"
    by (simp add: db_A)
  obtain co' where c: "part_get (current_ownership (move_ownership db_A 11 tick_A 1 spk_A spk_B)) (OwnershipKey tick_A 1) = Some co'"
    using ownership_changes_only_by_transfer_or_sale [OF db_A(2,3) _ v a co] by auto
  then have "co_owner co' = spk_B" by (auto simp: move_ownership_def)
  with a c show ?thesis by blast
qed

lemma supply_of_sound_ledger:
  assumes "ledger_ok d" and "part_get (collection_registry d) t = Some sdi"
  shows "{i. owned d t i} \<subseteq> {i. 0 < i \<and> i \<le> di_max (dw_info (sd_deploy_info sdi))} \<and>
         card {i. owned d t i} = unat (last_seq t (mint_history d)) \<and>
         card {i. owned d t i} \<le> unat (di_max (dw_info (sd_deploy_info sdi)))"
proof -
  let ?m = "di_max (dw_info (sd_deploy_info sdi))" and ?p = "di_premint (dw_info (sd_deploy_info sdi))"
  obtain n L where inv: "supply_inv d t ?m ?p n L" using ledger_tick [OF assms] by (auto simp: supply_ok_def)
  then have "n \<le> ?m" by (simp add: supply_inv_def)
  then show ?thesis using supply_count [OF inv] supply_inv_last_seq [OF inv] by (auto simp: word_le_nat_alt)
qed

text \<open>C4: Whatever valid operations are processed from an empty database, in whatever batches: the supply of a
  collection is never exceeded. Every batch is processed without an error, and afterwards the tokens of a deployed
  tick lie between one and its supply, there are as many of them as the last sequence number says, and at most as
  many as the supply.\<close>

theorem supply_never_exceeded:
  assumes "batch_ordered msl 0 (concat bs)" and "batch_valid (concat bs)"
  shows "\<exists>d. process_batches msl p2sh db_empty bs = Inr d \<and>
    (\<forall>t sdi. part_get (collection_registry d) t = Some sdi \<longrightarrow>
       {i. owned d t i} \<subseteq> {i. 0 < i \<and> i \<le> di_max (dw_info (sd_deploy_info sdi))} \<and>
       card {i. owned d t i} = unat (last_seq t (mint_history d)) \<and>
       card {i. owned d t i} \<le> unat (di_max (dw_info (sd_deploy_info sdi))))"
proof -
  obtain d where "process_batches msl p2sh db_empty bs = Inr d" "ledger_ok d"
    using process_batches_ok [OF ledger_ok_empty scores_le_empty assms, of p2sh] by blast
  with supply_of_sound_ledger show ?thesis by blast
qed

text \<open>The deployment and the mint of the sample batch, in two batches of one merge set each.\<close>

definition batches_A :: "mergeset list list" where
  "batches_A = map (\<lambda>m. [m]) batch_A"

lemma batches_A [simp]: "batch_ordered 248 0 (concat batches_A)" "batch_valid (concat batches_A)"
  by (simp_all add: batches_A_def batch_ordered_def batch_valid_def batch_A_def mergeset_scores_def position_score_def
      calculate_tx_score_def BLOCK_TX_CAPACITY_def cx_deploy_def cx_mint_def op_valid_def)

theorem supply_never_exceeded_witness:
  "\<exists>d. process_batches 248 (\<lambda>_. spk_A) db_empty batches_A = Inr d \<and>
    (\<forall>t sdi. part_get (collection_registry d) t = Some sdi \<longrightarrow>
       card {i. owned d t i} \<le> unat (di_max (dw_info (sd_deploy_info sdi))))"
  using supply_never_exceeded [OF batches_A, of "\<lambda>_. spk_A"] by blast

end
