(* ===== verification/ReorgExact.thy ===== *)
theory ReorgExact
  imports Reorg AbstractLedger
begin

text \<open>
  A reorganisation undoes exactly what it removes: if operations were applied above a score to a sound
  database, removing from that score on gives back every token partition and the registry as they
  were. The proof follows the batch: the changes of each operation are undone, latest first, from
  any database that holds the token partitions the operation left behind (\<^verbatim>\<open>undoes\<close>, which composes
  along the batch); the owners are then rebuilt from what is left of the histories.
\<close>

section \<open>Undoing on the token partitions\<close>

text \<open>The database \<^verbatim>\<open>e\<close> with the histories and the ranges of \<^verbatim>\<open>d\<close>.\<close>

definition with_hist :: "db \<Rightarrow> db \<Rightarrow> db" where
  "with_hist e d = e\<lparr>mint_history := mint_history d, ownership_changes := ownership_changes d,
     ownership_history := ownership_history d, available_ranges := available_ranges d,
     range_lengths := range_lengths d, token_id_meta := token_id_meta d\<rparr>"

lemma with_hist_simps [simp]:
  "mint_history (with_hist e d) = mint_history d" "ownership_changes (with_hist e d) = ownership_changes d"
  "ownership_history (with_hist e d) = ownership_history d" "available_ranges (with_hist e d) = available_ranges d"
  "range_lengths (with_hist e d) = range_lengths d" "token_id_meta (with_hist e d) = token_id_meta d"
  "collection_registry (with_hist e d) = collection_registry e"
  "current_ownership (with_hist e d) = current_ownership e"
  "address_holdings (with_hist e d) = address_holdings e"
  "collection_deployments (with_hist e d) = collection_deployments e"
  "operation_history (with_hist e d) = operation_history e"
  "tx_id_to_opscore (with_hist e d) = tx_id_to_opscore e"
  by (simp_all add: with_hist_def)

lemma with_hist_self [simp]: "with_hist d d = d"
  by (simp add: with_hist_def)

text \<open>The premint that the removal finds for a tick.\<close>

definition premint_of :: "(tick \<rightharpoonup> u64) \<Rightarrow> db \<Rightarrow> tick \<Rightarrow> u64 option" where
  "premint_of premints e t =
     (case premints t of Some p \<Rightarrow> Some p
      | None \<Rightarrow> map_option (\<lambda>sdi. di_premint (dw_info (sd_deploy_info sdi))) (part_get (collection_registry e) t))"

lemma premint_of_cong: "collection_registry e = collection_registry e' \<Longrightarrow> premint_of premints e = premint_of premints e'"
  by (rule ext) (auto simp: premint_of_def split: option.split)

lemma premint_of_with_hist [simp]: "premint_of premints (with_hist e d) = premint_of premints e"
  by (rule premint_of_cong) simp

definition premints_found :: "(tick \<rightharpoonup> u64) \<Rightarrow> db \<Rightarrow> db \<Rightarrow> bool" where
  "premints_found premints e d \<longleftrightarrow>
     (\<forall>t sdi. part_get (collection_registry d) t = Some sdi \<longrightarrow>
        premint_of premints e t = Some (di_premint (dw_info (sd_deploy_info sdi))))"

definition token_of :: "token_mints_key \<Rightarrow> ownership_key" where
  "token_of k = OwnershipKey (tm_tick k) (tm_token_id k)"

definition change_entries :: "(token_mints_key \<times> spk option) list \<Rightarrow> (token_mints_key \<times> unit) list" where
  "change_entries aff = map (\<lambda>(k, _). (k, ())) (rev aff)"

text \<open>
  \<^verbatim>\<open>d'\<close> comes from \<^verbatim>\<open>d\<close> by the changes \<^verbatim>\<open>aff\<close> (latest first, each with the owner it brought): undoing
  them gives back the histories and ranges of \<^verbatim>\<open>d\<close>; the owners of other tokens are those of \<^verbatim>\<open>d\<close>; the
  owner of a changed token is one of those brought.
\<close>

definition undoes :: "db \<Rightarrow> db \<Rightarrow> (token_mints_key \<times> spk option) list \<Rightarrow> bool" where
  "undoes d d' aff \<longleftrightarrow>
     part_entries (ownership_changes d') = part_entries (ownership_changes d) @ change_entries aff \<and>
     (\<forall>t sdi. part_get (collection_registry d) t = Some sdi \<longrightarrow> part_get (collection_registry d') t = Some sdi) \<and>
     (\<forall>premints e. premints_found premints e d' \<longrightarrow>
        undo_changes premints (map fst aff) (with_hist e d') = Inr (aff, with_hist e d)) \<and>
     (\<forall>x. x \<notin> token_of ` fst ` set aff \<longrightarrow>
        part_get (current_ownership d') x = part_get (current_ownership d) x \<and>
        (\<forall>p. part_get (address_holdings d') (AddressHoldingKey p (ok_tick x) (ok_token_id x)) =
             part_get (address_holdings d) (AddressHoldingKey p (ok_tick x) (ok_token_id x)))) \<and>
     (\<forall>x \<in> token_of ` fst ` set aff. \<exists>k q s. (k, Some q) \<in> set aff \<and> token_of k = x \<and>
        part_get (current_ownership d') x = Some \<lparr>co_owner = q, co_mod_tx_score = s\<rparr>)"

lemma undoes_refl:
  assumes "ownership_changes d' = ownership_changes d" "with_hist d d' = d"
    and "\<And>t sdi. part_get (collection_registry d) t = Some sdi \<Longrightarrow> part_get (collection_registry d') t = Some sdi"
    and "current_ownership d' = current_ownership d" "address_holdings d' = address_holdings d"
  shows "undoes d d' []"
proof -
  have "with_hist e d' = with_hist e d" for e
    using arg_cong [OF assms(2), of "with_hist e"] by (simp add: with_hist_def)
  then show ?thesis using assms by (simp add: undoes_def change_entries_def)
qed

lemma undo_changes_append:
  "undo_changes premints (ks @ ls) d =
     and_then (undo_changes premints ks d) (\<lambda>(a, d1).
       and_then (undo_changes premints ls d1) (\<lambda>(b, d2). Inr (a @ b, d2)))"
proof (induction ks arbitrary: d)
  case Nil
  show ?case by (cases "undo_changes premints ls d") auto
next
  case (Cons k ks)
  show ?case
  proof (cases "undo_change premints k d")
    case (Inr r)
    obtain h d1 where r: "r = (h, d1)" by fastforce
    show ?thesis
    proof (cases "undo_changes premints ks d1")
      case (Inr r2)
      obtain a d2 where r2: "r2 = (a, d2)" by fastforce
      show ?thesis using \<open>undo_change premints k d = Inr r\<close> Inr r r2 Cons.IH [of d1]
        by (cases "undo_changes premints ls d2") auto
    qed (use \<open>undo_change premints k d = Inr r\<close> r Cons.IH [of d1] in simp)
  qed simp
qed

lemma undoes_trans:
  assumes a: "undoes d d1 aff1" and b: "undoes d1 d2 aff2"
  shows "undoes d d2 (aff2 @ aff1)"
  unfolding undoes_def
proof (intro conjI allI impI ballI)
  show "part_entries (ownership_changes d2) = part_entries (ownership_changes d) @ change_entries (aff2 @ aff1)"
    using a b by (simp add: undoes_def change_entries_def)
  show "part_get (collection_registry d2) t = Some sdi" if "part_get (collection_registry d) t = Some sdi" for t sdi
    using a b that by (simp add: undoes_def)
  show "undo_changes premints (map fst (aff2 @ aff1)) (with_hist e d2) = Inr (aff2 @ aff1, with_hist e d)"
    if f: "premints_found premints e d2" for premints e
  proof -
    have "premints_found premints e d1" using f b by (simp add: premints_found_def undoes_def)
    then show ?thesis using a b f by (simp add: undo_changes_append undoes_def)
  qed
next
  fix x assume "x \<notin> token_of ` fst ` set (aff2 @ aff1)"
  then have x: "x \<notin> token_of ` fst ` set aff1" "x \<notin> token_of ` fst ` set aff2" by auto
  show "part_get (current_ownership d2) x = part_get (current_ownership d) x" using a b x by (simp add: undoes_def)
  show "part_get (address_holdings d2) (AddressHoldingKey p (ok_tick x) (ok_token_id x)) =
      part_get (address_holdings d) (AddressHoldingKey p (ok_tick x) (ok_token_id x))" for p
    using a b x by (simp add: undoes_def)
next
  fix x assume x: "x \<in> token_of ` fst ` set (aff2 @ aff1)"
  show "\<exists>k q s. (k, Some q) \<in> set (aff2 @ aff1) \<and> token_of k = x \<and>
        part_get (current_ownership d2) x = Some \<lparr>co_owner = q, co_mod_tx_score = s\<rparr>"
  proof (cases "x \<in> token_of ` fst ` set aff2")
    case True
    then obtain k q s where "(k, Some q) \<in> set aff2" "token_of k = x"
      "part_get (current_ownership d2) x = Some \<lparr>co_owner = q, co_mod_tx_score = s\<rparr>"
      using b unfolding undoes_def by blast
    then show ?thesis by auto
  next
    case False
    then have e: "part_get (current_ownership d2) x = part_get (current_ownership d1) x" using b by (simp add: undoes_def)
    have "x \<in> token_of ` fst ` set aff1" using x False by auto
    then obtain k q s where "(k, Some q) \<in> set aff1" "token_of k = x"
      "part_get (current_ownership d1) x = Some \<lparr>co_owner = q, co_mod_tx_score = s\<rparr>"
      using a unfolding undoes_def by blast
    then show ?thesis using e by auto
  qed
qed

section \<open>The changes of a mint and of a move\<close>

lemma al_upd_last: "(\<And>a. a \<in> set (map fst xs) \<Longrightarrow> a < k) \<Longrightarrow> al_upd k v xs = xs @ [(k, v)]"
  by (induction k v xs rule: al_upd.induct) (auto simp: less_le_not_le order.strict_iff_not)

lemma part_entries_insert_last:
  assumes "\<And>a. a \<in> part_keys p \<Longrightarrow> a < k"
  shows "part_entries (part_insert k v p) = part_entries p @ [(k, v)]"
proof -
  have "a < k" if "a \<in> set (map fst (part_entries p))" for a
    using that assms by (force simp: part_keys_def in_entries_iff)
  from al_upd_last [OF this] show ?thesis by (simp only: part_entries_simps)
qed

definition with_ranges :: "db \<Rightarrow> db \<Rightarrow> db" where
  "with_ranges e d = e\<lparr>available_ranges := available_ranges d, range_lengths := range_lengths d,
     token_id_meta := token_id_meta d\<rparr>"

lemma with_ranges_simps [simp]:
  "available_ranges (with_ranges e d) = available_ranges d" "range_lengths (with_ranges e d) = range_lengths d"
  "token_id_meta (with_ranges e d) = token_id_meta d"
  "(with_ranges e d)\<lparr>available_ranges := A\<rparr> = with_ranges e (d\<lparr>available_ranges := A\<rparr>)"
  "(with_ranges e d)\<lparr>range_lengths := R\<rparr> = with_ranges e (d\<lparr>range_lengths := R\<rparr>)"
  "(with_ranges e d)\<lparr>token_id_meta := M\<rparr> = with_ranges e (d\<lparr>token_id_meta := M\<rparr>)"
  by (simp_all add: with_ranges_def)

lemma revert_removed_range_on_ranges:
  "revert_removed_range (with_ranges e d) t pre n =
     and_then (revert_removed_range d t pre n) (\<lambda>(d1, n1). Inr (with_ranges e d1, n1))"
  by (cases "part_get (available_ranges d) (RangeKey t (pr_range_index pre))")
    (simp_all add: revert_removed_range_def)

lemma restore_range_on_ranges:
  "restore_range_maybe_split (with_ranges e d) t pre n =
     (let (d1, n1) = restore_range_maybe_split d t pre n in (with_ranges e d1, n1))"
  by (simp add: restore_range_maybe_split_def Let_def)

lemma rollback_on_ranges:
  "rollback_token_generation (with_ranges e d) t v =
     and_then (rollback_token_generation d t v) (\<lambda>d1. Inr (with_ranges e d1))"
proof (cases "part_get (token_id_meta d) (TokenMetaKey t v)")
  case (Some pre)
  let ?n = "case part_get (range_lengths d) t of Some n \<Rightarrow> n | None \<Rightarrow> 0"
  let ?m = "if pr_removed pre then revert_removed_range d t pre ?n else Inr (restore_range_maybe_split d t pre ?n)"
  have "(if pr_removed pre then revert_removed_range (with_ranges e d) t pre ?n
      else Inr (restore_range_maybe_split (with_ranges e d) t pre ?n)) = and_then ?m (\<lambda>(d1, n1). Inr (with_ranges e d1, n1))"
    by (simp add: revert_removed_range_on_ranges restore_range_on_ranges split: prod.split)
  then show ?thesis using Some
    by (cases ?m) (auto simp: rollback_token_generation_def Let_def)
qed (simp add: rollback_token_generation_def)

lemma rollback_cong:
  assumes e: "available_ranges e = available_ranges d1" "range_lengths e = range_lengths d1" "token_id_meta e = token_id_meta d1"
    and r: "rollback_token_generation d1 t v = Inr d"
  shows "rollback_token_generation e t v = Inr (with_ranges e d)"
proof -
  have "with_ranges e d1 = e" by (simp add: with_ranges_def flip: e)
  then show ?thesis using rollback_on_ranges [of e d1 t v] r by simp
qed

lemma undoes_single:
  assumes "part_entries (ownership_changes d') = part_entries (ownership_changes d) @ [(k, ())]"
    and "collection_registry d' = collection_registry d"
    and "\<And>premints e. premints_found premints e d' \<Longrightarrow> undo_change premints k (with_hist e d') = Inr (Some q, with_hist e d)"
    and k: "token_of k = OwnershipKey t i"
    and cur: "\<And>u j. (u, j) \<noteq> (t, i) \<Longrightarrow> part_get (current_ownership d') (OwnershipKey u j) = part_get (current_ownership d) (OwnershipKey u j)"
    and hold: "\<And>p u j. (u, j) \<noteq> (t, i) \<Longrightarrow>
      part_get (address_holdings d') (AddressHoldingKey p u j) = part_get (address_holdings d) (AddressHoldingKey p u j)"
    and "part_get (current_ownership d') (OwnershipKey t i) = Some \<lparr>co_owner = q, co_mod_tx_score = s\<rparr>"
  shows "undoes d d' [(k, Some q)]"
proof -
  have "part_get (current_ownership d') x = part_get (current_ownership d) x \<and>
        (\<forall>p. part_get (address_holdings d') (AddressHoldingKey p (ok_tick x) (ok_token_id x)) =
             part_get (address_holdings d) (AddressHoldingKey p (ok_tick x) (ok_token_id x)))"
    if "x \<noteq> OwnershipKey t i" for x
    using that cur hold by (cases x) auto
  with assms show ?thesis by (simp add: undoes_def change_entries_def)
qed

lemma undo_change_mint:
  assumes "e' = e\<lparr>ownership_history := part_remove (OwnershipHistoryKey_with_score (tm_tick k) (tm_token_id k) (tm_score k)) (ownership_history e),
      ownership_changes := part_remove k (ownership_changes e),
      mint_history := part_remove (MintHistoryKey (tm_tick k) (tm_reversed_seq_number k) (tm_token_id k) (tm_score k)) (mint_history e)\<rparr>"
    and "part_get (mint_history e) (MintHistoryKey (tm_tick k) (tm_reversed_seq_number k) (tm_token_id k) (tm_score k)) = Some ()"
    and "premint_of premints e (tm_tick k) = Some p"
    and "part_get (ownership_history e) (OwnershipHistoryKey_with_score (tm_tick k) (tm_token_id k) (tm_score k)) = h"
  shows "undo_change premints k e =
    (if p < tm_token_id k then and_then (rollback_token_generation e' (tm_tick k) (tm_token_id k)) (\<lambda>d2. Inr (h, d2)) else Inr (h, e'))"
  using assms by (cases "premints (tm_tick k)") (auto simp: undo_change_def part_remove_if_exists_def premint_of_def Let_def)

lemma changed_key_fresh: "(\<And>k'. k' \<in> part_keys p \<Longrightarrow> k' < k) \<Longrightarrow> part_get p k = None"
  unfolding part_keys_def by fastforce

lemma undoes_move:
  assumes h: "part_get (ownership_history d) (OwnershipHistoryKey_with_score t i s) = None"
    and m: "part_get (mint_history d) (MintHistoryKey_with_seq t 0 i s) = None"
    and above: "\<And>k. k \<in> part_keys (ownership_changes d) \<Longrightarrow> k < TokenMintsKey_with_seq s t i 0"
  shows "undoes d (move_ownership d s t i p q) [(TokenMintsKey_with_seq s t i 0, Some q)]"
proof (rule undoes_single)
  let ?d = "move_ownership d s t i p q" and ?k = "TokenMintsKey_with_seq s t i 0"
  show "undo_change premints ?k (with_hist e ?d) = Inr (Some q, with_hist e d)" for premints e
    using h m changed_key_fresh [of "ownership_changes d", OF above]
    by (simp add: undo_change_def part_remove_if_exists_def key_with_defs move_ownership_def with_hist_def
        part_remove_insert_absent part_remove_absent)
  show "part_entries (ownership_changes ?d) = part_entries (ownership_changes d) @ [(?k, ())]"
    using part_entries_insert_last [OF above] by (simp add: move_ownership_def)
qed (auto simp: token_of_def key_with_defs move_ownership_def)

text \<open>A mint, with the ranges it drew from: either no draw, or a draw that the rollback undoes.\<close>

lemma undoes_record_mint:
  assumes h: "part_get (ownership_history d) (OwnershipHistoryKey_with_score t i s) = None"
    and m: "part_get (mint_history d) (MintHistoryKey_with_seq t n i s) = None"
    and above: "\<And>k. k \<in> part_keys (ownership_changes d) \<Longrightarrow> k < TokenMintsKey_with_seq s t i n"
    and reg: "part_get (collection_registry d) t = Some sdi"
    and d1: "collection_registry d1 = collection_registry d" "mint_history d1 = mint_history d"
      "ownership_changes d1 = ownership_changes d" "ownership_history d1 = ownership_history d"
      "current_ownership d1 = current_ownership d" "address_holdings d1 = address_holdings d"
    and draw: "if di_premint (dw_info (sd_deploy_info sdi)) < i then rollback_token_generation d1 t i = Inr d else d1 = d"
  shows "undoes d (record_mint d1 t i n s q) [(TokenMintsKey_with_seq s t i n, Some q)]"
proof (rule undoes_single)
  let ?d = "record_mint d1 t i n s q" and ?k = "TokenMintsKey_with_seq s t i n"
  let ?p = "di_premint (dw_info (sd_deploy_info sdi))"
  fix premints e assume f: "premints_found premints e ?d"
  have sel: "tm_tick ?k = t" "tm_token_id ?k = i" "tm_score ?k = s" "tm_reversed_seq_number ?k = rev_u64 n"
    by (simp_all add: key_with_defs)
  define e1 where "e1 = with_hist e d\<lparr>available_ranges := available_ranges d1, range_lengths := range_lengths d1,
    token_id_meta := token_id_meta d1\<rparr>"
  have e1: "e1 = (with_hist e ?d)\<lparr>ownership_history := part_remove (OwnershipHistoryKey_with_score t i s) (ownership_history ?d),
      ownership_changes := part_remove ?k (ownership_changes ?d),
      mint_history := part_remove (MintHistoryKey t (rev_u64 n) i s) (mint_history ?d)\<rparr>"
    using h m changed_key_fresh [of "ownership_changes d", OF above] d1
    by (simp add: e1_def with_hist_def record_mint_def part_remove_insert_absent MintHistoryKey_with_seq_def)
  have gets: "part_get (ownership_history ?d) (OwnershipHistoryKey_with_score t i s) = Some q"
    "part_get (mint_history ?d) (MintHistoryKey t (rev_u64 n) i s) = Some ()"
    by (simp_all add: record_mint_def MintHistoryKey_with_seq_def)
  have prem: "premint_of premints (with_hist e ?d) t = Some ?p"
    using f reg by (simp add: premints_found_def d1)
  have roll: "rollback_token_generation e1 t i = Inr (with_hist e d)" if "?p < i"
    using draw that rollback_cong [of e1 d1 t i d] by (simp add: e1_def with_hist_def with_ranges_def)
  have same: "e1 = with_hist e d" if "\<not> ?p < i" using draw that by (simp add: e1_def with_hist_def)
  show "undo_change premints ?k (with_hist e ?d) = Inr (Some q, with_hist e d)"
    by (subst undo_change_mint [where e' = e1 and e = "with_hist e ?d" and k = ?k, unfolded sel with_hist_simps, OF e1 gets(2) prem gets(1)])
      (use roll same in auto)
next
  show "part_entries (ownership_changes (record_mint d1 t i n s q)) =
      part_entries (ownership_changes d) @ [(TokenMintsKey_with_seq s t i n, ())]"
    using part_entries_insert_last [OF above] by (simp add: record_mint_def d1)
qed (auto simp: token_of_def key_with_defs record_mint_def d1)

section \<open>The changes of an operation\<close>

definition changes_le :: "db \<Rightarrow> u64 \<Rightarrow> bool" where
  "changes_le d s \<longleftrightarrow> (\<forall>k \<in> part_keys (ownership_changes d). tm_score k \<le> s)"

definition changed_at :: "u64 \<Rightarrow> tick \<Rightarrow> db \<Rightarrow> db \<Rightarrow> (token_mints_key \<times> spk option) list \<Rightarrow> bool" where
  "changed_at s t d d' aff \<longleftrightarrow> undoes d d' aff \<and> (\<forall>k \<in> fst ` set aff. tm_score k = s \<and> tm_tick k = t)"

lemma changed_at_trans: "changed_at s t d d1 aff1 \<Longrightarrow> changed_at s t d1 d2 aff2 \<Longrightarrow> changed_at s t d d2 (aff2 @ aff1)"
  unfolding changed_at_def using undoes_trans by auto

lemma part_keys_entries: "part_keys p = fst ` set (part_entries p)"
  by (auto simp: part_keys_def part_get_def map_of_eq_None_iff)

lemma undoes_change_keys: "undoes d d' aff \<Longrightarrow> part_keys (ownership_changes d') = part_keys (ownership_changes d) \<union> fst ` set aff"
  by (simp add: undoes_def part_keys_entries change_entries_def image_Un image_image case_prod_beta)

lemma changed_at_le: "changed_at s t d d' aff \<Longrightarrow> changes_le d s0 \<Longrightarrow> s0 \<le> s \<Longrightarrow> changes_le d' s"
  unfolding changes_le_def changed_at_def using undoes_change_keys by (fastforce intro: order_trans)

lemma changes_above:
  assumes "changes_le d s0" "s0 < s" "k \<in> part_keys (ownership_changes d)"
  shows "k < TokenMintsKey_with_seq s t i n"
proof -
  have "tm_score k < s" using assms by (auto simp: changes_le_def)
  then show ?thesis by (cases k) (simp add: TokenMintsKey_with_seq_def token_mints_key_less)
qed

lemma history_above: "scores_le d s0 \<Longrightarrow> s0 < s \<Longrightarrow> part_get (ownership_history d) (OwnershipHistoryKey_with_score t i s) = None"
  by (rule ccontr) (auto simp: scores_le_def part_keys_def oh_score_def OwnershipHistoryKey_with_score_def)

lemma seq_fresh:
  assumes "n = last_seq t (mint_history d)" "unat (n + 1) = unat n + 1"
  shows "part_get (mint_history d) (MintHistoryKey_with_seq t (n + 1) i s) = None"
proof (rule ccontr)
  assume "part_get (mint_history d) (MintHistoryKey_with_seq t (n + 1) i s) \<noteq> None"
  then have k: "MintHistoryKey_with_seq t (n + 1) i s \<in> part_keys (mint_history d)" by (simp add: part_keys_def)
  then obtain r where r: "last_minted_token_seq_no t (mint_history d) = Some r"
    by (metis last_minted_None_iff mh_tick_with_seq not_None_eq)
  have "n + 1 \<le> ts_seq_no r" using last_minted_SomeD(2) [OF r k] by (simp flip: seq_of_def)
  then show False using r assms by (simp add: last_seq_def word_le_nat_alt)
qed

text \<open>The registration of a deployment changes no token.\<close>

lemma undoes_register:
  assumes "part_get (collection_registry d) t = None"
  shows "changed_at s t d (d\<lparr>collection_registry := part_insert t sdi (collection_registry d), collection_deployments := x\<rparr>) []"
  unfolding changed_at_def using assms by (auto simp: with_hist_def intro!: undoes_refl)

lemma mint_changes:
  assumes l: "ledger_ok d" and sc: "scores_le d s0" "changes_le d s0" "s0 < s"
    and r: "process_mint d ent s c info False = Inr (Inr i, d')"
  shows "\<exists>aff. changed_at s (oc_tick c) d d' aff"
  using l
proof (cases rule: process_mint_cases [of d ent s c info False])
  case (accepted j d1 sdi n)
  let ?t = "oc_tick c" and ?m = "di_max (dw_info (sd_deploy_info sdi))" and ?p = "di_premint (dw_info (sd_deploy_info sdi))"
  have d': "d' = record_mint d1 ?t j (n + 1) s (mi_to info)" using accepted(1) r by simp
  obtain n' L where "supply_inv d ?t ?m ?p n' L" using ledger_tick [OF l accepted(2)] by (auto simp: supply_ok_def)
  then have inv: "supply_inv d ?t ?m ?p n L" using supply_inv_last_seq accepted(3) by blast
  have un: "unat (n + 1) = unat n + 1"
    using accepted(4) unat_u64_bound [of ?m] by (intro unat_Suc_u64) (simp add: word_less_nat_alt)
  have draw: "(if ?p < j then rollback_token_generation d1 ?t j = Inr d else d1 = d) \<and>
    collection_registry d1 = collection_registry d \<and> mint_history d1 = mint_history d \<and>
    ownership_changes d1 = ownership_changes d \<and> ownership_history d1 = ownership_history d \<and>
    current_ownership d1 = current_ownership d \<and> address_holdings d1 = address_holdings d"
  proof (cases "next_is_sequential ?m ?p n")
    case True
    then have "\<not> ?p < n + 1"
      using accepted(4) un by (auto simp: next_is_sequential_def word_less_nat_alt word_le_nat_alt)
    then show ?thesis using True accepted(5) by simp
  next
    case False
    then have g: "generate_token_id d ?t ent ?m ?p = Inr (j, d1)" using accepted(5) by simp
    obtain v d2 where v: "generate_token_id d ?t ent ?m ?p = Inr (v, d2)" "?p < v" "tick_ranges d ?t ?m ?p L"
      "ranges_wf ?m ?p L" "L \<noteq> []" "part_get (token_id_meta d) (TokenMetaKey ?t v) = None"
      using supply_random [OF inv accepted(4) False, of ent] .
    have "v = j" using v(1) g by simp
    then have "rollback_token_generation d1 ?t j = Inr d \<and> ?p < j" using rollback_generate_aux [OF v(3-5) _ g] v(2,6) by simp
    moreover have "d1 = d\<lparr>token_id_meta := token_id_meta d1, available_ranges := available_ranges d1, range_lengths := range_lengths d1\<rparr>"
      by (rule generate_frame [OF g])
    ultimately show ?thesis by (auto dest: arg_cong [of _ _ collection_registry] arg_cong [of _ _ mint_history]
      arg_cong [of _ _ ownership_changes] arg_cong [of _ _ ownership_history] arg_cong [of _ _ current_ownership]
      arg_cong [of _ _ address_holdings])
  qed
  have "undoes d d' [(TokenMintsKey_with_seq s ?t j (n + 1), Some (mi_to info))]"
    unfolding d' using draw
    by (intro undoes_record_mint [OF history_above [OF sc(1,3)] seq_fresh [OF accepted(3) un] changes_above [OF sc(2,3)] accepted(2)]) auto
  then show ?thesis unfolding changed_at_def by (intro exI) (auto simp: key_with_defs)
qed (use r in simp)

lemma premint_changes:
  assumes "ledger_ok d" and "part_get (collection_registry d) (oc_tick c) = Some sdi" and "dw_info (sd_deploy_info sdi) = info"
    and "scores_le d s"
    and "unat (last_seq (oc_tick c) (mint_history d)) + k = unat (di_premint info)"
    and "\<forall>u j. last_seq (oc_tick c) (mint_history d) < j \<longrightarrow> part_get (ownership_history d) (OwnershipHistoryKey_with_score (oc_tick c) j u) = None"
    and "\<forall>x \<in> part_keys (ownership_changes d). tm_score x < s \<or>
      (tm_score x = s \<and> tm_tick x = oc_tick c \<and> tm_token_id x \<le> last_seq (oc_tick c) (mint_history d))"
    and "premint_loop k d s c info = Inr (Inr (), d')"
  shows "\<exists>aff. changed_at s (oc_tick c) d d' aff"
  using assms
proof (induction k arbitrary: d)
  case 0
  then have "changed_at s (oc_tick c) d d' []" by (auto simp: changed_at_def intro!: undoes_refl)
  then show ?case ..
next
  case (Suc k)
  let ?t = "oc_tick c"
  define n where "n = last_seq ?t (mint_history d)"
  have np: "n < di_premint (dw_info (sd_deploy_info sdi))"
    using Suc.prems(3,5) by (simp add: n_def word_less_nat_alt)
  let ?mi = "\<lparr>mi_token_id = 0, mi_to = di_deployer info, mi_royalty = None\<rparr>"
  let ?d = "record_mint d ?t (n + 1) (n + 1) s (di_deployer info)"
  note pm = process_mint_premint(1-3) [OF Suc.prems(1,2) n_def [symmetric] np, where info = ?mi and s = s, simplified]
  note un = process_mint_premint(4) [OF Suc.prems(1,2) n_def [symmetric] np]
  have lt: "n < n + 1" and le: "x \<le> n \<Longrightarrow> x \<le> n + 1" for x using un by (auto simp: word_less_nat_alt word_le_nat_alt)
  have above: "x < TokenMintsKey_with_seq s ?t (n + 1) (n + 1)" if "x \<in> part_keys (ownership_changes d)" for x
  proof -
    have "tm_score x < s \<or> (tm_score x = s \<and> tm_tick x = ?t \<and> tm_token_id x < n + 1)"
      using Suc.prems(7) that lt unfolding n_def [symmetric] by (meson order_le_less_trans)
    then show ?thesis by (cases x) (auto simp: TokenMintsKey_with_seq_def token_mints_key_less)
  qed
  have "\<not> di_premint (dw_info (sd_deploy_info sdi)) < n + 1" using np un by (simp add: word_less_nat_alt)
  then have "undoes d ?d [(TokenMintsKey_with_seq s ?t (n + 1) (n + 1), Some (di_deployer info))]"
    using Suc.prems(6) lt
    by (intro undoes_record_mint [OF _ seq_fresh [OF n_def un] above Suc.prems(2)]) (auto simp: n_def)
  then have one: "changed_at s ?t d ?d [(TokenMintsKey_with_seq s ?t (n + 1) (n + 1), Some (di_deployer info))]"
    by (simp add: changed_at_def key_with_defs)
  have hist: "\<forall>u j. last_seq ?t (mint_history ?d) < j \<longrightarrow> part_get (ownership_history ?d) (OwnershipHistoryKey_with_score ?t j u) = None"
    using Suc.prems(6) unfolding pm(3) n_def [symmetric]
    by (auto simp: record_mint_def key_with_defs dest: order_less_trans [OF lt])
  have keys: "\<forall>x \<in> part_keys (ownership_changes ?d). tm_score x < s \<or>
      (tm_score x = s \<and> tm_tick x = ?t \<and> tm_token_id x \<le> last_seq ?t (mint_history ?d))"
    using Suc.prems(7) unfolding pm(3) n_def [symmetric] undoes_change_keys [OF one [unfolded changed_at_def, THEN conjunct1]]
    by (auto simp: key_with_defs dest: le)
  have rem: "unat (last_seq ?t (mint_history ?d)) + k = unat (di_premint info)"
    using Suc.prems(5) pm(3) un by (simp add: n_def)
  have "premint_loop k ?d s c info = Inr (Inr (), d')" using Suc.prems(8) pm(1) by simp
  from Suc.IH [OF pm(2) _ Suc.prems(3) record_mint_scores [OF Suc.prems(4)] rem hist keys this] Suc.prems(2)
  obtain aff where "changed_at s ?t ?d d' aff" by auto
  with changed_at_trans [OF one] show ?case by blast
qed

lemma move_changes:
  assumes l: "ledger_ok d" and sc: "scores_le d s0" "changes_le d s0" "s0 < s" and o: "owned d t i"
  shows "changed_at s t d (move_ownership d s t i p q) [(TokenMintsKey_with_seq s t i 0, Some q)]"
proof -
  have "part_get (mint_history d) (MintHistoryKey_with_seq t 0 i s) = None"
  proof (rule ccontr)
    assume "part_get (mint_history d) (MintHistoryKey_with_seq t 0 i s) \<noteq> None"
    then have k: "MintHistoryKey_with_seq t 0 i s \<in> mint_keys d t" by (simp add: mint_keys_def part_keys_def)
    have "tick_ok d t" using l by (simp add: ledger_ok_def)
    with o obtain sdi where "part_get (collection_registry d) t = Some sdi"
      by (auto simp: tick_ok_def untouched_def split: option.splits)
    then obtain n L where "supply_inv d t (di_max (dw_info (sd_deploy_info sdi))) (di_premint (dw_info (sd_deploy_info sdi))) n L"
      using ledger_tick [OF l] unfolding supply_ok_def by blast
    then have "0 < seq_of (MintHistoryKey_with_seq t 0 i s)" using k unfolding supply_inv_def by blast
    then show False by simp
  qed
  from undoes_move [OF history_above [OF sc(1,3)] this changes_above [OF sc(2,3)]]
  show ?thesis by (simp add: changed_at_def key_with_defs)
qed

lemma deploy_changes:
  assumes l: "ledger_ok d" and sc: "scores_le d s0" "changes_le d s0" "s0 < s" and v: "deploy_valid info"
    and r: "process_deployment d s c info = Inr (Inr (), d')"
  shows "\<exists>aff. changed_at s (oc_tick c) d d' aff"
proof -
  let ?t = "oc_tick c" and ?dw = "\<lparr>dw_info = info, dw_common = c\<rparr>"
  let ?sdi = "\<lparr>sd_deploy_score = s, sd_deploy_info = ?dw\<rparr>"
  define d1 where "d1 = d\<lparr>collection_registry := part_insert ?t ?sdi (collection_registry d),
     collection_deployments := part_insert (DeploymentKey s ?t) ?dw (collection_deployments d)\<rparr>"
  have none: "part_get (collection_registry d) ?t = None"
    using r by (auto simp: process_deployment_def split: option.splits if_splits)
  have first: "changed_at s ?t d d1 []" unfolding d1_def by (rule undoes_register [OF none])
  show ?thesis
  proof (cases "di_premint info > 0")
    case True
    then have r1: "premint_loop (unat (di_premint info)) d1 s c info = Inr (Inr (), d')"
      using r none by (simp add: process_deployment_def Let_def d1_def)
    have u: "untouched d ?t" using l none unfolding ledger_ok_def tick_ok_def by (metis (no_types, lifting) option.simps(4))
    have l1: "ledger_ok d1" and sc1: "scores_le d1 s"
    proof -
      show "ledger_ok d1" unfolding d1_def by (rule registered_ledger_ok [OF l none v])
      show "scores_le d1 s" using scores_le_mono [OF sc(1) less_imp_le [OF sc(3)]] unfolding scores_le_def d1_def by auto
    qed
    have n0: "last_seq ?t (mint_history d1) = 0"
      using u by (intro last_seq_eqI) (auto simp: untouched_def mint_keys_def d1_def)
    have "\<forall>u j. part_get (ownership_history d1) (OwnershipHistoryKey_with_score ?t j u) = None"
      using history_ok_owned [of d ?t] l u by (auto simp: ledger_ok_def untouched_def last_owner_None_iff d1_def key_with_defs)
    moreover have "\<forall>x \<in> part_keys (ownership_changes d1). tm_score x < s"
      using sc(2,3) by (auto simp: changes_le_def d1_def)
    ultimately obtain aff where "changed_at s ?t d1 d' aff"
      using premint_changes [OF l1 _ _ sc1 _ _ _ r1, of ?sdi] n0 by (auto simp: d1_def)
    with changed_at_trans [OF first] show ?thesis by blast
  next
    case False
    then have "d' = d1" using r none by (simp add: process_deployment_def Let_def d1_def)
    with first show ?thesis by blast
  qed
qed

lemma undoes_tokens:
  assumes "ownership_changes d' = ownership_changes d" "same_tokens d d'"
  shows "changed_at s t d d' []"
proof -
  have "with_hist d d' = d" using assms by (simp add: same_tokens_def with_hist_def)
  with assms show ?thesis by (auto simp: changed_at_def same_tokens_def intro!: undoes_refl)
qed

text \<open>The accepted operations, one case per kind.\<close>

lemma apply_operation_accepted:
  assumes r: "apply_operation p2sh d ent s op diff = Inr (None, op', diff', d')"
  obtains (deploy) info where "op_info op = Deploy info" "process_deployment d s (op_common op) info = Inr (Inr (), d')"
  | (mint) info i where "op_info op = Mint info" "process_mint d ent s (op_common op) info False = Inr (Inr i, d')"
  | (transfer) info where "op_info op = Transfer info" "process_transfer d s (op_common op) info = Inr (Inr (), d')"
  | (discount) info where "op_info op = Discount info" "process_discount d s (op_common op) info = Inr (Inr (), d')"
  | (listing) info where "op_info op = Listing info" "process_list p2sh d s (op_common op) info = Inr (Inr (), d')"
  | (send) info where "op_info op = Send info" "process_send d s (op_common op) info = Inr (Inr (), d')"
  using assms
  by (cases "op_info op") (auto simp: apply_operation_def Let_def and_then_Inr_iff finished_iff)

lemma apply_operation_changes:
  assumes l: "ledger_ok d" and sc: "scores_le d s0" "changes_le d s0" "s0 < s" and v: "op_valid op"
    and r: "apply_operation p2sh d ent s op diff = Inr (err, op', diff', d')"
  shows "\<exists>aff. changed_at s (oc_tick (op_common op)) d d' aff"
proof (cases err)
  case (Some e)
  then have "d' = d" using apply_operation_ok [OF l sc(1,3) v, of p2sh ent diff] r by auto
  then show ?thesis using undoes_tokens [of d d s] by (auto simp: same_tokens_def)
next
  case None
  from r [unfolded None] show ?thesis
  proof (cases rule: apply_operation_accepted)
    case (deploy info)
    then show ?thesis using deploy_changes [OF l sc _ deploy(2)] v by (simp add: op_valid_def)
  next
    case (mint info i)
    then show ?thesis using mint_changes [OF l sc] by blast
  next
    case (transfer info)
    then show ?thesis
      by (cases rule: process_transfer_cases [of d s "op_common op" info])
        (auto simp: owned_def intro!: exI move_changes [OF l sc])
  next
    case (discount info)
    then show ?thesis
      by (cases rule: process_discount_cases [of d s "op_common op" info])
        (auto simp: same_tokens_def intro!: exI [of _ "[]"] undoes_tokens)
  next
    case (listing info)
    then show ?thesis
      by (cases rule: process_list_cases [of p2sh d s "op_common op" info])
        (auto simp: insert_listing_tokens insert_listing_def same_tokens_def intro!: exI [of _ "[]"] undoes_tokens)
  next
    case (send info)
    then show ?thesis
    proof (cases rule: process_send_cases [of d s "op_common op" info])
      case (accepted lv)
      let ?t = "oc_tick (op_common op)" and ?i = "si_token_id info"
      define d1 where "d1 = (case si_buyer info of Some b \<Rightarrow> move_ownership d s ?t ?i (lv_seller lv) b | None \<Rightarrow> d)"
      have d': "d' = remove_listing d1 ?t ?i (lv_seller lv)" using accepted(1) send(2) by (simp add: d1_def)
      have "owned d ?t ?i" using l accepted(2) listed_owned by (auto simp: ledger_ok_def)
      then have "\<exists>aff. changed_at s (oc_tick (op_common op)) d d1 aff"
        using move_changes [OF l sc, of ?t ?i] undoes_tokens [of d d s]
        by (cases "si_buyer info") (auto simp: d1_def same_tokens_def)
      moreover have "changed_at s (oc_tick (op_common op)) d1 d' []"
        unfolding d' by (rule undoes_tokens) (simp_all add: remove_listing_def same_tokens_def)
      ultimately show ?thesis using changed_at_trans by blast
    qed simp
  qed
qed

section \<open>The changes of a batch\<close>

definition deploys :: "db \<Rightarrow> db \<Rightarrow> (deployment_key \<times> deploy_info_with_common) list \<Rightarrow> bool" where
  "deploys d d' xs \<longleftrightarrow>
     part_entries (collection_deployments d') = part_entries (collection_deployments d) @ xs \<and>
     (\<forall>t. if t \<in> dk_tick ` fst ` set xs
          then part_get (collection_registry d) t = None \<and> part_get (collection_registry d') t \<noteq> None
          else part_get (collection_registry d') t = part_get (collection_registry d) t)"

definition op_tx :: "checked_operation \<Rightarrow> hash" where
  "op_tx op = oc_tx_id (op_common (co_operation op))"

definition recorded :: "db \<Rightarrow> db \<Rightarrow> (u64 \<times> checked_operation) list \<Rightarrow> bool" where
  "recorded d d' ops \<longleftrightarrow>
     part_entries (operation_history d') = part_entries (operation_history d) @ ops \<and>
     (\<forall>x. x \<notin> (\<lambda>x. op_tx (snd x)) ` set ops \<longrightarrow>
          part_get (tx_id_to_opscore d') x = part_get (tx_id_to_opscore d) x)"

definition batch_changes :: "u64 \<Rightarrow> db \<Rightarrow> db \<Rightarrow> (token_mints_key \<times> spk option) list \<Rightarrow>
    (deployment_key \<times> deploy_info_with_common) list \<Rightarrow> (u64 \<times> checked_operation) list \<Rightarrow> bool" where
  "batch_changes th d d' aff dks ops \<longleftrightarrow>
     undoes d d' aff \<and> deploys d d' dks \<and> recorded d d' ops \<and>
     (\<forall>k \<in> fst ` set aff. th \<le> tm_score k \<and> tick_MIN \<le> tm_tick k) \<and>
     (\<forall>k \<in> fst ` set dks. th \<le> dk_score k \<and> tick_MIN \<le> dk_tick k) \<and> (\<forall>k \<in> fst ` set ops. th \<le> k)"

text \<open>The last score of everything that is ordered by scores.\<close>

definition history_le :: "db \<Rightarrow> u64 \<Rightarrow> bool" where
  "history_le d s \<longleftrightarrow> scores_le d s \<and> changes_le d s \<and>
     (\<forall>k \<in> part_keys (collection_deployments d). dk_score k \<le> s) \<and> (\<forall>k \<in> part_keys (operation_history d). k \<le> s)"

lemma deploys_trans:
  assumes a: "deploys d d1 xs" and b: "deploys d1 d2 ys"
  shows "deploys d d2 (xs @ ys)"
  unfolding deploys_def
proof (intro conjI allI)
  show "part_entries (collection_deployments d2) = part_entries (collection_deployments d) @ xs @ ys"
    using a b by (simp add: deploys_def)
  fix t
  let ?x = "t \<in> dk_tick ` fst ` set xs" and ?y = "t \<in> dk_tick ` fst ` set ys"
  have x: "if ?x then part_get (collection_registry d) t = None \<and> part_get (collection_registry d1) t \<noteq> None
      else part_get (collection_registry d1) t = part_get (collection_registry d) t"
    using a unfolding deploys_def by blast
  have y: "if ?y then part_get (collection_registry d1) t = None \<and> part_get (collection_registry d2) t \<noteq> None
      else part_get (collection_registry d2) t = part_get (collection_registry d1) t"
    using b unfolding deploys_def by blast
  have "t \<in> dk_tick ` fst ` set (xs @ ys) \<longleftrightarrow> ?x \<or> ?y" by (simp add: image_Un)
  with x y show "if t \<in> dk_tick ` fst ` set (xs @ ys)
      then part_get (collection_registry d) t = None \<and> part_get (collection_registry d2) t \<noteq> None
      else part_get (collection_registry d2) t = part_get (collection_registry d) t"
    by (cases ?x; cases ?y) simp_all
qed

lemma recorded_trans: "recorded d d1 xs \<Longrightarrow> recorded d1 d2 ys \<Longrightarrow> recorded d d2 (xs @ ys)"
  unfolding recorded_def by (simp add: image_Un)

lemma batch_changes_refl: "batch_changes th d d [] [] []"
  by (simp add: batch_changes_def undoes_refl deploys_def recorded_def)

lemma batch_changes_trans:
  "batch_changes th d d1 aff1 dks1 ops1 \<Longrightarrow> batch_changes th d1 d2 aff2 dks2 ops2 \<Longrightarrow>
   batch_changes th d d2 (aff2 @ aff1) (dks1 @ dks2) (ops1 @ ops2)"
  unfolding batch_changes_def by (auto intro: undoes_trans deploys_trans recorded_trans)

lemma deployment_above:
  assumes "\<forall>k \<in> part_keys (collection_deployments d). dk_score k \<le> s0" "s0 < s"
  shows "part_entries (part_insert (DeploymentKey s t) dw (collection_deployments d)) =
    part_entries (collection_deployments d) @ [(DeploymentKey s t, dw)]"
proof (rule part_entries_insert_last)
  fix k assume "k \<in> part_keys (collection_deployments d)"
  then have "dk_score k < s" using assms by (meson order_le_less_trans)
  then show "k < DeploymentKey s t" by (cases k) (simp add: deployment_key_less)
qed

lemma apply_operation_deploys:
  assumes l: "ledger_ok d" and sc: "scores_le d s0" "s0 < s" and v: "op_valid op"
    and dep: "\<forall>k \<in> part_keys (collection_deployments d). dk_score k \<le> s0"
    and r: "apply_operation p2sh d ent s op diff = Inr (err, op', diff', d')"
  shows "\<exists>xs. deploys d d' xs \<and> (\<forall>k \<in> fst ` set xs. dk_score k = s \<and> dk_tick k = oc_tick (op_common op)) \<and> operation_history d' = operation_history d \<and>
    tx_id_to_opscore d' = tx_id_to_opscore d"
proof (cases err)
  case (Some e)
  then have "d' = d" using apply_operation_ok [OF l sc v, of p2sh ent diff] r by auto
  then show ?thesis by (intro exI [of _ "[]"]) (simp add: deploys_def)
next
  case None
  from r [unfolded None] show ?thesis
  proof (cases rule: apply_operation_accepted)
    case (deploy info)
    let ?c = "op_common op"
    let ?t = "oc_tick ?c" and ?dw = "\<lparr>dw_info = info, dw_common = ?c\<rparr>"
    let ?sdi = "\<lparr>sd_deploy_score = s, sd_deploy_info = ?dw\<rparr>"
    define d1 where "d1 = d\<lparr>collection_registry := part_insert ?t ?sdi (collection_registry d),
       collection_deployments := part_insert (DeploymentKey s ?t) ?dw (collection_deployments d)\<rparr>"
    have none: "part_get (collection_registry d) ?t = None"
      using deploy(2) by (auto simp: process_deployment_def split: option.splits if_splits)
    have "only_tokens d1 d'"
      using deploy(2) none only_tokens_premint [of "unat (di_premint info)" d1 s ?c info]
      by (auto simp: process_deployment_def Let_def d1_def split: if_splits)
    then have e: "collection_registry d' = collection_registry d1" "collection_deployments d' = collection_deployments d1"
      "operation_history d' = operation_history d" "tx_id_to_opscore d' = tx_id_to_opscore d"
      by (auto simp: only_tokens_fields d1_def)
    have "deploys d d' [(DeploymentKey s ?t, ?dw)]"
      using none deployment_above [OF dep sc(2)] unfolding deploys_def e by (simp add: d1_def)
    with e show ?thesis by (intro exI [of _ "[(DeploymentKey s ?t, ?dw)]"]) simp
  next
    case (mint info i)
    then show ?thesis using only_tokens_mint [OF mint(2)]
      by (intro exI [of _ "[]"]) (simp add: deploys_def only_tokens_fields)
  next
    case (transfer info)
    then show ?thesis
      by (cases rule: process_transfer_cases [of d s "op_common op" info])
        (auto simp: deploys_def move_ownership_def intro!: exI [of _ "[]"])
  next
    case (discount info)
    then show ?thesis
      by (cases rule: process_discount_cases [of d s "op_common op" info])
        (auto simp: deploys_def intro!: exI [of _ "[]"])
  next
    case (listing info)
    then show ?thesis
      by (cases rule: process_list_cases [of p2sh d s "op_common op" info])
        (auto simp: deploys_def insert_listing_def intro!: exI [of _ "[]"])
  next
    case (send info)
    then show ?thesis
      by (cases rule: process_send_cases [of d s "op_common op" info])
        (auto simp: deploys_def remove_listing_def move_ownership_def split: option.split intro!: exI [of _ "[]"])
  qed
qed

lemma operation_changes:
  assumes l: "ledger_ok d" and h: "history_le d s0" and s: "s0 < s" and v: "op_valid op" "tick_MIN \<le> oc_tick (op_common op)"
    and r: "apply_operation p2sh d ent s op diff = Inr (err, op', diff', d1)"
  defines "d' \<equiv> record_operation d1 s op' err"
  shows "\<exists>aff dks. batch_changes s d d' aff dks [(s, \<lparr>co_operation = op', co_error = err\<rparr>)]"
    and "ledger_ok d'" and "history_le d' s"
proof -
  have sc: "scores_le d s0" "changes_le d s0" "\<forall>k \<in> part_keys (collection_deployments d). dk_score k \<le> s0"
    "\<forall>k \<in> part_keys (operation_history d). k \<le> s0" using h by (simp_all add: history_le_def)
  have ok: "ledger_ok d1" "scores_le d1 s" using apply_operation_ok [OF l sc(1) s v(1), of p2sh ent diff] r by auto
  show "ledger_ok d'" using ok by (simp add: d'_def)
  obtain aff where a: "changed_at s (oc_tick (op_common op)) d d1 aff" using apply_operation_changes [OF l sc(1,2) s v(1) r] by blast
  obtain dks where k: "deploys d d1 dks" "\<forall>k \<in> fst ` set dks. dk_score k = s \<and> dk_tick k = oc_tick (op_common op)" and op: "operation_history d1 = operation_history d"
    "tx_id_to_opscore d1 = tx_id_to_opscore d"
    using apply_operation_deploys [OF l sc(1) s v(1) sc(3) r] by blast
  have "changed_at s (oc_tick (op_common op)) d1 d' []" unfolding d'_def
    by (rule undoes_tokens) (simp_all add: record_operation_def same_tokens_def)
  then have a': "changed_at s (oc_tick (op_common op)) d d' aff" using changed_at_trans [OF a] by fastforce
  have k': "deploys d d' dks" using k(1) by (simp add: deploys_def d'_def record_operation_def)
  let ?op = "(s, \<lparr>co_operation = op', co_error = err\<rparr>)"
  have "part_entries (operation_history d') = part_entries (operation_history d) @ [?op]"
  proof -
    have "part_entries (part_insert s (snd ?op) (operation_history d)) = part_entries (operation_history d) @ [(s, snd ?op)]"
      by (rule part_entries_insert_last) (use sc(4) s in auto)
    then show ?thesis by (simp add: d'_def record_operation_def op)
  qed
  then have rec: "recorded d d' [?op]" by (simp add: recorded_def d'_def record_operation_def op op_tx_def)
  then show "\<exists>aff dks. batch_changes s d d' aff dks [?op]"
    using a' k' k(2) v(2) by (intro exI [of _ aff] exI [of _ dks]) (auto simp: batch_changes_def changed_at_def)
  have "changes_le d' s" using changed_at_le [OF a' sc(2)] s by simp
  moreover have "scores_le d' s" using ok(2) by (simp add: d'_def)
  moreover have "\<forall>k \<in> part_keys (collection_deployments d'). dk_score k \<le> s"
    using k' k(2) sc(3) s by (auto simp: deploys_def part_keys_entries intro: order_trans)
  moreover have "\<forall>k \<in> part_keys (operation_history d'). k \<le> s"
    using rec sc(4) s by (auto simp: recorded_def part_keys_entries intro: order_trans)
  ultimately show "history_le d' s" by (simp add: history_le_def)
qed

lemma batch_changes_mono: "batch_changes th d d' aff dks ops \<Longrightarrow> th' \<le> th \<Longrightarrow> batch_changes th' d d' aff dks ops"
  unfolding batch_changes_def using order_trans [of th' th] by blast

lemma process_nft_operations_changes:
  assumes "ledger_ok d" "history_le d s0" "sorted_wrt (<) (s0 # map cx_tx_score cxs)"
    "\<forall>cx \<in> set cxs. op_valid (cx_operation cx) \<and> tick_MIN \<le> oc_tick (op_common (cx_operation cx))" "\<forall>cx \<in> set cxs. th \<le> cx_tx_score cx"
    "process_nft_operations p2sh d cxs diff = Inr (diff', d')"
  shows "\<exists>aff dks ops. batch_changes th d d' aff dks ops \<and>
           map (\<lambda>x. op_tx (snd x)) ops = map (\<lambda>cx. oc_tx_id (op_common (cx_operation cx))) cxs"
    and "history_le d' (last (s0 # map cx_tx_score cxs))"
  using assms
proof (induction cxs arbitrary: d s0 diff)
  case Nil
  {
    case 1
    then show ?case using batch_changes_refl by auto
  next
    case 2
    then show ?case by simp
  }
next
  case (Cons cx cxs)
  {
    fix d s0 diff
    assume p: "ledger_ok d" "history_le d s0" "sorted_wrt (<) (s0 # map cx_tx_score (cx # cxs))"
      "\<forall>cx \<in> set (cx # cxs). op_valid (cx_operation cx) \<and> tick_MIN \<le> oc_tick (op_common (cx_operation cx))" "\<forall>cx \<in> set (cx # cxs). th \<le> cx_tx_score cx"
      "process_nft_operations p2sh d (cx # cxs) diff = Inr (diff', d')"
    obtain err op' diff1 d1 where a: "apply_operation p2sh d (cx_mergeset_entropy cx) (cx_tx_score cx) (cx_operation cx) diff =
        Inr (err, op', diff1, d1)"
      and rest: "process_nft_operations p2sh (record_operation d1 (cx_tx_score cx) op' err) cxs diff1 = Inr (diff', d')"
      using p(6) by (auto simp: and_then_Inr_iff)
    have s: "s0 < cx_tx_score cx" and v: "op_valid (cx_operation cx)" "tick_MIN \<le> oc_tick (op_common (cx_operation cx))" using p by auto
    note oc = operation_changes [OF p(1,2) s v a]
    obtain err2 op2 diff2 d2 where "apply_operation p2sh d (cx_mergeset_entropy cx) (cx_tx_score cx) (cx_operation cx) diff =
        Inr (err2, op2, diff2, d2)" "op_common op2 = op_common (cx_operation cx)"
      using apply_operation_ok [OF p(1) _ s v(1), of p2sh "cx_mergeset_entropy cx" diff] p(2) by (auto simp: history_le_def)
    then have c: "op_common op' = op_common (cx_operation cx)" using a by simp
    have so: "sorted_wrt (<) (cx_tx_score cx # map cx_tx_score cxs)" using p(3) by simp
    have va: "\<forall>cx \<in> set cxs. op_valid (cx_operation cx) \<and> tick_MIN \<le> oc_tick (op_common (cx_operation cx))" and th: "\<forall>cx \<in> set cxs. th \<le> cx_tx_score cx" "th \<le> cx_tx_score cx"
      using p by simp_all
    note IH = Cons.IH [OF oc(2,3) so va th(1) rest]
    obtain aff dks where "batch_changes (cx_tx_score cx) d (record_operation d1 (cx_tx_score cx) op' err) aff dks
        [(cx_tx_score cx, \<lparr>co_operation = op', co_error = err\<rparr>)]" using oc(1) by blast
    then have b1: "batch_changes th d (record_operation d1 (cx_tx_score cx) op' err) aff dks
        [(cx_tx_score cx, \<lparr>co_operation = op', co_error = err\<rparr>)]" using th(2) by (rule batch_changes_mono)
    obtain aff2 dks2 ops2 where "batch_changes th (record_operation d1 (cx_tx_score cx) op' err) d' aff2 dks2 ops2"
      and tx: "map (\<lambda>x. op_tx (snd x)) ops2 = map (\<lambda>cx. oc_tx_id (op_common (cx_operation cx))) cxs"
      using IH(1) by blast
    with batch_changes_trans [OF b1] c op_tx_def
    have "\<exists>aff dks ops. batch_changes th d d' aff dks ops \<and>
       map (\<lambda>x. op_tx (snd x)) ops = map (\<lambda>cx. oc_tx_id (op_common (cx_operation cx))) (cx # cxs)"
      by (intro exI conjI) (assumption | simp)+
    moreover have "history_le d' (last (s0 # map cx_tx_score (cx # cxs)))" using IH(2) by simp
    ultimately have "(\<exists>aff dks ops. batch_changes th d d' aff dks ops \<and>
       map (\<lambda>x. op_tx (snd x)) ops = map (\<lambda>cx. oc_tx_id (op_common (cx_operation cx))) (cx # cxs)) \<and>
       history_le d' (last (s0 # map cx_tx_score (cx # cxs)))" ..
  }
  note step = this
  {
    case 1
    from step [OF this] show ?case by blast
  next
    case 2
    from step [OF this] show ?case by blast
  }
qed

section \<open>Removing what a batch wrote\<close>

lemma range_tail:
  assumes "part_entries p' = part_entries p @ ys" and "\<forall>k \<in> part_keys p. k < lo" and "\<forall>k \<in> fst ` set ys. lo \<le> k"
  shows "part_range (Included lo) Unbounded p' = ys"
proof -
  have "filter (\<lambda>(k, v). lo \<le> k) (part_entries p) = []"
    using assms(2) by (force simp: part_keys_entries filter_empty_conv)
  moreover have "filter (\<lambda>(k, v). lo \<le> k) ys = ys" using assms(3) by (force simp: filter_id_conv)
  ultimately show ?thesis by (simp add: part_range_def assms(1))
qed

lemma part_get_fold_remove: "part_get (fold part_remove ks p) k = (if k \<in> set ks then None else part_get p k)"
  by (induction ks arbitrary: p) auto

lemma fold_remove_tail:
  assumes e: "part_entries p' = part_entries p @ ys"
  shows "fold part_remove (map fst ys) p' = p"
proof (rule part_eqI)
  fix k
  have "distinct (map fst (part_entries p @ ys))" using part_entries_sorted [of p'] e al_sorted_distinct by metis
  then have "k \<in> fst ` set ys \<Longrightarrow> part_get p k = None"
    unfolding part_get_def map_of_eq_None_iff by (simp add: disjoint_iff) blast
  moreover have "k \<notin> fst ` set ys \<Longrightarrow> part_get p' k = part_get p k"
    unfolding part_get_def e by (simp add: map_add_def map_of_eq_None_iff [THEN iffD2] split: option.split)
  ultimately show "part_get (fold part_remove (map fst ys) p') k = part_get p k"
    by (simp add: part_get_fold_remove)
qed

text \<open>Databases that agree on tokens and registry.\<close>

definition same_state :: "db \<Rightarrow> db \<Rightarrow> bool" where
  "same_state d d' \<longleftrightarrow> same_tokens d d' \<and> ownership_changes d' = ownership_changes d \<and>
     collection_deployments d' = collection_deployments d"

definition same_operations :: "db \<Rightarrow> db \<Rightarrow> bool" where
  "same_operations d d' \<longleftrightarrow> operation_history d' = operation_history d \<and> tx_id_to_opscore d' = tx_id_to_opscore d"

lemma same_state_refl [simp]: "same_state d d" "same_operations d d"
  by (simp_all add: same_state_def same_tokens_def same_operations_def)

lemma same_state_trans: "same_state d d1 \<Longrightarrow> same_state d1 d2 \<Longrightarrow> same_state d d2"
  by (simp add: same_state_def same_tokens_def)

lemma restore_listing_state:
  "same_state d (restore_listing_for_reorged_send d c i) \<and> same_operations d (restore_listing_for_reorged_send d c i)"
  by (auto simp: restore_listing_for_reorged_send_def same_state_def same_tokens_def same_operations_def insert_listing_def
      split: option.split operation_info.split)

lemma remove_operations_loop_ok:
  assumes "\<forall>k \<in> fst ` set ops. part_get (operation_history d) k \<noteq> None" and "distinct (map fst ops)"
  shows "\<exists>diff' d'. remove_operations_loop ops diff d = Inr (diff', d') \<and> same_state d d' \<and>
     operation_history d' = fold part_remove (map fst ops) (operation_history d) \<and>
     tx_id_to_opscore d' = fold part_remove (map (\<lambda>x. op_tx (snd x)) ops) (tx_id_to_opscore d)"
  using assms
proof (induction ops arbitrary: diff d)
  case Nil
  then show ?case by simp
next
  case (Cons x ops)
  obtain score op where x: "x = (score, op)" by fastforce
  obtain checked where c: "part_get (operation_history d) score = Some checked" using Cons.prems(1) x by auto
  define d2 where "d2 = d\<lparr>tx_id_to_opscore := part_remove (op_tx op) (tx_id_to_opscore d),
     operation_history := part_remove score (operation_history d)\<rparr>"
  define d3 where "d3 = (if co_error checked \<noteq> None then d2 else case op_info (co_operation checked) of
      Send info \<Rightarrow> restore_listing_for_reorged_send d2 (op_common (co_operation checked)) info | _ \<Rightarrow> d2)"
  define diff3 where "diff3 = (if co_error checked \<noteq> None then diff else removed_op_stats (co_operation checked) diff)"
  have step: "remove_operations_loop (x # ops) diff d = remove_operations_loop ops diff3 d3"
    using c by (auto simp: x d2_def d3_def diff3_def op_tx_def part_remove_if_exists_def Let_def split: operation_info.split)
  have "same_state d d2" by (simp add: d2_def same_state_def same_tokens_def)
  moreover have "same_state d2 d3 \<and> same_operations d2 d3"
    using restore_listing_state [of d2] by (auto simp: d3_def split: operation_info.split)
  ultimately have d3: "same_state d d3" "operation_history d3 = part_remove score (operation_history d)"
    "tx_id_to_opscore d3 = part_remove (op_tx op) (tx_id_to_opscore d)"
    using same_state_trans by (auto simp: same_operations_def d2_def)
  have "\<forall>k \<in> fst ` set ops. part_get (operation_history d3) k \<noteq> None" "distinct (map fst ops)"
    using Cons.prems by (auto simp: x d3(2))
  from Cons.IH [OF this] obtain diff' d' where "remove_operations_loop ops diff3 d3 = Inr (diff', d')" "same_state d3 d'"
    "operation_history d' = fold part_remove (map fst ops) (operation_history d3)"
    "tx_id_to_opscore d' = fold part_remove (map (\<lambda>x. op_tx (snd x)) ops) (tx_id_to_opscore d3)" by blast
  then show ?case using step d3 same_state_trans by (auto simp: x)
qed

lemma remove_deployments_loop_ok:
  "remove_deployments_loop ks premints d =
     ((\<lambda>t. if t \<in> dk_tick ` set ks \<and> part_get (collection_registry d) t \<noteq> None
           then map_option (\<lambda>sdi. di_premint (dw_info (sd_deploy_info sdi))) (part_get (collection_registry d) t)
           else premints t),
      d\<lparr>collection_deployments := fold part_remove ks (collection_deployments d),
        collection_registry := fold part_remove (map dk_tick ks) (collection_registry d)\<rparr>)"
proof (induction ks arbitrary: premints d)
  case (Cons k ks)
  show ?case
    by (auto simp: Cons.IH Let_def part_remove_if_exists_def fun_eq_iff split: option.split)
qed simp

lemma remove_discounts_state: "same_state d (remove_discounts d s) \<and> same_operations d (remove_discounts d s)"
  unfolding remove_discounts_def
  by (rule fold_invariant [where Q = "\<lambda>_. True"])
    (auto simp: same_state_def same_tokens_def same_operations_def split: prod.split)

lemma remove_affected_listings_state:
  "same_state d (remove_affected_listings d s) \<and> same_operations d (remove_affected_listings d s)"
  unfolding remove_affected_listings_def
  by (rule fold_invariant [where Q = "\<lambda>_. True"])
    (auto simp: same_state_def same_tokens_def same_operations_def remove_listing_def split: prod.split)

section \<open>Rebuilding the owners\<close>

definition brought :: "(token_mints_key \<times> spk option) list \<Rightarrow> ownership_key \<Rightarrow> spk \<Rightarrow> bool" where
  "brought aff x p \<longleftrightarrow> (\<exists>k. (k, Some p) \<in> set aff \<and> token_of k = x)"

lemma brought_in: "brought aff x p \<Longrightarrow> x \<in> token_of ` fst ` set aff"
  by (force simp: brought_def)

definition owned_only :: "db \<Rightarrow> db \<Rightarrow> bool" where
  "owned_only d d' \<longleftrightarrow> d'\<lparr>current_ownership := current_ownership d, address_holdings := address_holdings d\<rparr> = d"

lemma owned_only_trans: "owned_only d d1 \<Longrightarrow> owned_only d1 d2 \<Longrightarrow> owned_only d d2"
proof -
  assume a: "owned_only d d1" and b: "owned_only d1 d2"
  have "d2\<lparr>current_ownership := current_ownership d, address_holdings := address_holdings d\<rparr> =
      (d2\<lparr>current_ownership := current_ownership d1, address_holdings := address_holdings d1\<rparr>)
        \<lparr>current_ownership := current_ownership d, address_holdings := address_holdings d\<rparr>" by simp
  with a b show "owned_only d d2" unfolding owned_only_def by simp
qed

lemma rebuild_token_step:
  defines "own \<equiv> \<lambda>d x. last_owner_with_tx_mod_score x (ownership_history d)"
  shows "part_get (current_ownership (rebuild_token (k, h) d)) x =
      (if x = token_of k \<and> own d x \<noteq> None then map_option (\<lambda>(p, s). \<lparr>co_owner = p, co_mod_tx_score = s\<rparr>) (own d x)
       else part_get (current_ownership d) x)"
    and "part_get (address_holdings (rebuild_token (k, h) d)) (AddressHoldingKey p t i) =
      (if token_of k \<noteq> OwnershipKey t i then part_get (address_holdings d) (AddressHoldingKey p t i)
       else if \<exists>s. own d (OwnershipKey t i) = Some (p, s) then map_option snd (own d (OwnershipKey t i))
       else if h = Some p then None else part_get (address_holdings d) (AddressHoldingKey p t i))"
  by (auto simp: rebuild_token_def own_def token_of_def Let_def split: option.split)

lemma rebuild_token_only: "owned_only d (rebuild_token (k, h) d)"
proof (cases "last_owner_with_tx_mod_score (token_of k) (ownership_history d)")
  case None
  then show ?thesis by (cases h) (auto simp: rebuild_token_def owned_only_def token_of_def Let_def)
next
  case (Some r)
  then show ?thesis by (cases h; cases r) (auto simp: rebuild_token_def owned_only_def token_of_def Let_def)
qed

lemma owned_only_simps:
  assumes "owned_only d d'"
  shows "ownership_history d' = ownership_history d" "mint_history d' = mint_history d"
    "ownership_changes d' = ownership_changes d" "available_ranges d' = available_ranges d"
    "range_lengths d' = range_lengths d" "token_id_meta d' = token_id_meta d"
    "collection_registry d' = collection_registry d" "collection_deployments d' = collection_deployments d"
    "same_operations d d'"
    "(listings d', listings_by_tick d', address_listings d') = (listings d, listings_by_tick d, address_listings d)"
  using assms unfolding owned_only_def same_operations_def by (cases d; cases d'; simp)+

lemma rebuild_ownership_state_only: "owned_only d (rebuild_ownership_state aff d)"
  unfolding rebuild_ownership_state_def
proof (rule fold_invariant [where Q = "\<lambda>_. True"])
  fix x d1 assume "owned_only d d1"
  then show "owned_only d (rebuild_token x d1)" using rebuild_token_only owned_only_trans by (metis prod.collapse)
qed (simp_all add: owned_only_def)

lemma rebuild_owners:
  assumes "own = (\<lambda>x. last_owner_with_tx_mod_score x (ownership_history d))"
  shows "part_get (current_ownership (rebuild_ownership_state aff d)) x =
      (if x \<in> token_of ` fst ` set aff \<and> own x \<noteq> None then map_option (\<lambda>(p, s). \<lparr>co_owner = p, co_mod_tx_score = s\<rparr>) (own x)
       else part_get (current_ownership d) x)" (is ?current)
    and "part_get (address_holdings (rebuild_ownership_state aff d)) (AddressHoldingKey p t i) =
      (if OwnershipKey t i \<notin> token_of ` fst ` set aff then part_get (address_holdings d) (AddressHoldingKey p t i)
       else if \<exists>s. own (OwnershipKey t i) = Some (p, s) then map_option snd (own (OwnershipKey t i))
       else if brought aff (OwnershipKey t i) p then None else part_get (address_holdings d) (AddressHoldingKey p t i))" (is ?holdings)
proof -
  have "?current \<and> ?holdings"
    unfolding rebuild_ownership_state_def using assms
  proof (induction aff arbitrary: d)
    case Nil
    then show ?case by simp
  next
    case (Cons a aff)
    obtain k h where a: "a = (k, h)" by fastforce
    have oh: "ownership_history (rebuild_token a d) = ownership_history d"
      using owned_only_simps(1) [OF rebuild_token_only] by (simp add: a)
    then have own: "own = (\<lambda>x. last_owner_with_tx_mod_score x (ownership_history (rebuild_token a d)))"
      using Cons.prems by simp
    note IH = Cons.IH [OF own]
    note step = rebuild_token_step [of k h d, folded a]
    have b: "brought (a # aff) y q \<longleftrightarrow> (token_of k = y \<and> h = Some q) \<or> brought aff y q" for y q
      by (auto simp: brought_def a)
    show ?case
    proof
      show "part_get (current_ownership (fold rebuild_token (a # aff) d)) x =
          (if x \<in> token_of ` fst ` set (a # aff) \<and> own x \<noteq> None then map_option (\<lambda>(p, s). \<lparr>co_owner = p, co_mod_tx_score = s\<rparr>) (own x)
           else part_get (current_ownership d) x)"
        using IH [THEN conjunct1] step(1) [of x] Cons.prems by (auto simp: a)
      show "part_get (address_holdings (fold rebuild_token (a # aff) d)) (AddressHoldingKey p t i) =
          (if OwnershipKey t i \<notin> token_of ` fst ` set (a # aff) then part_get (address_holdings d) (AddressHoldingKey p t i)
           else if \<exists>s. own (OwnershipKey t i) = Some (p, s) then map_option snd (own (OwnershipKey t i))
           else if brought (a # aff) (OwnershipKey t i) p then None else part_get (address_holdings d) (AddressHoldingKey p t i))"
        using IH [THEN conjunct2] step(2) [of p t i] Cons.prems brought_in [of aff "OwnershipKey t i" p] unfolding b
        by (cases "\<exists>s. own (OwnershipKey t i) = Some (p, s)") (auto simp: a)
    qed
  qed
  then show ?current ?holdings by blast+
qed

lemma remove_ownership_records_simps:
  "part_get (current_ownership (remove_ownership_records ks d)) x =
     (if x \<in> token_of ` set ks then None else part_get (current_ownership d) x)"
  "owned_only d (remove_ownership_records ks d)"
  "address_holdings (remove_ownership_records ks d) = address_holdings d"
proof -
  have "part_get (current_ownership (remove_ownership_records ks d)) x =
     (if x \<in> token_of ` set ks then None else part_get (current_ownership d) x) \<and>
     owned_only d (remove_ownership_records ks d) \<and> address_holdings (remove_ownership_records ks d) = address_holdings d"
    unfolding remove_ownership_records_def
  proof (induction ks arbitrary: d)
    case Nil
    then show ?case by (simp add: owned_only_def)
  next
    case (Cons k ks)
    let ?d = "d\<lparr>current_ownership := part_remove (OwnershipKey (tm_tick k) (tm_token_id k)) (current_ownership d)\<rparr>"
    have "owned_only d ?d" by (simp add: owned_only_def)
    then show ?case using Cons.IH [of ?d] owned_only_trans by (auto simp: token_of_def)
  qed
  then show "part_get (current_ownership (remove_ownership_records ks d)) x =
     (if x \<in> token_of ` set ks then None else part_get (current_ownership d) x)"
    "owned_only d (remove_ownership_records ks d)"
    "address_holdings (remove_ownership_records ks d) = address_holdings d" by blast+
qed

lemma option_ext: "\<forall>s. a = Some s \<longleftrightarrow> b = Some s \<Longrightarrow> a = b"
  by (cases a; cases b) simp_all

text \<open>The owners after the rebuild are those from before the batch.\<close>

lemma rebuilt_owners:
  assumes u: "undoes d0 d1 aff" and l0: "holdings_ok d0" "history_ok d0" and l1: "holdings_ok d1"
    and e: "ownership_history e = ownership_history d0" "current_ownership e = current_ownership d1"
      "address_holdings e = address_holdings d1"
  defines "r \<equiv> rebuild_ownership_state aff (remove_ownership_records (map fst aff) e)"
  shows "current_ownership r = current_ownership d0" and "address_holdings r = address_holdings d0"
proof -
  define f where "f = remove_ownership_records (map fst aff) e"
  have f: "ownership_history f = ownership_history d0" "address_holdings f = address_holdings d1"
    using owned_only_simps(1) [OF remove_ownership_records_simps(2)] e by (simp_all add: f_def remove_ownership_records_simps)
  define own where "own = (\<lambda>x. last_owner_with_tx_mod_score x (ownership_history d0))"
  have own: "own = (\<lambda>x. last_owner_with_tx_mod_score x (ownership_history f))" by (simp add: own_def f)
  have own0: "part_get (current_ownership d0) x = map_option (\<lambda>(p, s). \<lparr>co_owner = p, co_mod_tx_score = s\<rparr>) (own x)" for x
    using l0(2) by (cases x) (simp add: history_ok_def own_def)
  have frame: "part_get (current_ownership d1) x = part_get (current_ownership d0) x \<and>
      (\<forall>p. part_get (address_holdings d1) (AddressHoldingKey p (ok_tick x) (ok_token_id x)) =
           part_get (address_holdings d0) (AddressHoldingKey p (ok_tick x) (ok_token_id x)))"
    if "x \<notin> token_of ` fst ` set aff" for x
    using u that unfolding undoes_def by blast
  show "current_ownership r = current_ownership d0"
  proof (rule part_eqI)
    fix x
    show "part_get (current_ownership r) x = part_get (current_ownership d0) x"
      using rebuild_owners(1) [OF own, of aff x] frame [of x] own0 [of x]
      unfolding r_def f_def [symmetric]
      by (cases "x \<in> token_of ` fst ` set aff"; cases "own x") (simp_all add: f_def remove_ownership_records_simps e)
  qed
  show "address_holdings r = address_holdings d0"
  proof (rule part_eqI)
    fix y
    obtain p t i where y: "y = AddressHoldingKey p t i" by (cases y)
    let ?x = "OwnershipKey t i"
    have d0: "part_get (address_holdings d0) y = (case own ?x of Some (o', s) \<Rightarrow> if o' = p then Some s else None | None \<Rightarrow> None)"
    proof -
      have "part_get (address_holdings d0) y = Some s \<longleftrightarrow> own ?x = Some (p, s)" for s
        using l0(1) own0 [of ?x] unfolding holdings_ok_def y by (auto split: prod.splits)
      then have "part_get (address_holdings d0) y = Some s \<longleftrightarrow>
          (case own ?x of Some (o', s) \<Rightarrow> if o' = p then Some s else None | None \<Rightarrow> None) = Some s" for s
        by (auto split: option.splits prod.splits)
      then have "\<forall>s. part_get (address_holdings d0) y = Some s \<longleftrightarrow>
          (case own ?x of Some (o', s) \<Rightarrow> if o' = p then Some s else None | None \<Rightarrow> None) = Some s" ..
      then show ?thesis by (rule option_ext)
    qed
    have d1: "part_get (address_holdings d1) y = None" if x: "?x \<in> token_of ` fst ` set aff" and nb: "\<not> brought aff ?x p"
    proof -
      obtain k q s where "(k, Some q) \<in> set aff" "token_of k = ?x" "part_get (current_ownership d1) ?x = Some \<lparr>co_owner = q, co_mod_tx_score = s\<rparr>"
        using u x unfolding undoes_def by blast
      moreover from this have "p \<noteq> q" using nb by (auto simp: brought_def)
      ultimately have "part_get (address_holdings d1) y \<noteq> Some s'" for s' using l1 unfolding holdings_ok_def y by simp
      then show ?thesis by fastforce
    qed
    have "part_get (address_holdings r) y =
      (if ?x \<notin> token_of ` fst ` set aff then part_get (address_holdings d1) y
       else if \<exists>s. own ?x = Some (p, s) then map_option snd (own ?x)
       else if brought aff ?x p then None else part_get (address_holdings d1) y)"
      using rebuild_owners(2) [OF own, of aff p t i] unfolding r_def f_def [symmetric] y by (simp add: f)
    then show "part_get (address_holdings r) y = part_get (address_holdings d0) y"
      using d1 frame [of ?x] by (auto simp: y) (auto simp: d0 [unfolded y] split: option.split)
  qed
qed

section \<open>A removal undoes a batch\<close>

definition token_state where
  "token_state d = (mint_history d, ownership_changes d, ownership_history d, current_ownership d, address_holdings d,
     available_ranges d, range_lengths d, token_id_meta d)"

definition registry_state where
  "registry_state d = (collection_registry d, collection_deployments d)"

definition listing_state where
  "listing_state d = (listings d, listings_by_tick d, address_listings d)"

lemma remove_listing_state: "listing_state d = listing_state d' \<Longrightarrow> listing_state (remove_listing d t i p) = listing_state (remove_listing d' t i p)"
  by (simp add: listing_state_def remove_listing_def)

lemma remove_affected_listings_cong:
  assumes "listing_state d = listing_state d'"
  shows "listing_state (remove_affected_listings d s) = listing_state (remove_affected_listings d' s)"
proof -
  have "listing_state (fold (\<lambda>(k, lv) d. remove_listing d (ok_tick k) (ok_token_id k) (lv_seller lv)) xs d) =
      listing_state (fold (\<lambda>(k, lv) d. remove_listing d (ok_tick k) (ok_token_id k) (lv_seller lv)) xs d')" for xs
    using assms
  proof (induction xs arbitrary: d d')
    case (Cons x xs)
    show ?case using Cons.IH [OF remove_listing_state [OF Cons.prems]] by (simp add: case_prod_beta)
  qed simp
  moreover have "listings d = listings d'" using assms by (simp add: listing_state_def)
  ultimately show ?thesis by (simp add: remove_affected_listings_def)
qed

lemma remove_discounts_listings: "listing_state (remove_discounts d s) = listing_state d"
  unfolding remove_discounts_def
  by (rule fold_invariant [where Q = "\<lambda>_. True"]) (auto simp: listing_state_def split: prod.split)

lemma remove_batch:
  assumes b: "batch_changes th d0 d1 aff dks ops" and h: "history_le d0 s0" "s0 < th"
    and l0: "ledger_ok d0" and l1: "ledger_ok d1"
  shows "\<exists>diff da d2. remove_affected_operations d1 th = Inr (diff, da) \<and>
     remove_from_score d1 th = Inr (diff, d2) \<and> token_state d2 = token_state d0 \<and>
     listing_state d2 = listing_state (remove_affected_listings da th) \<and> registry_state d2 = registry_state d0 \<and> operation_history d2 = operation_history d0 \<and>
     ((\<forall>x \<in> set ops. part_get (tx_id_to_opscore d0) (op_tx (snd x)) = None) \<longrightarrow> tx_id_to_opscore d2 = tx_id_to_opscore d0)"
proof -
  have u: "undoes d0 d1 aff" and k: "deploys d0 d1 dks" and rec: "recorded d0 d1 ops"
    and th: "\<forall>k \<in> fst ` set aff. th \<le> tm_score k \<and> tick_MIN \<le> tm_tick k"
      "\<forall>k \<in> fst ` set dks. th \<le> dk_score k \<and> tick_MIN \<le> dk_tick k" "\<forall>k \<in> fst ` set ops. th \<le> k"
    using b by (simp_all add: batch_changes_def)
  \<comment> \<open>the operations\<close>
  have oe: "part_entries (operation_history d1) = part_entries (operation_history d0) @ ops" using rec by (simp add: recorded_def)
  have or: "part_range (Included th) Unbounded (operation_history d1) = ops"
    using h by (intro range_tail [OF oe _ th(3)]) (auto simp: history_le_def)
  have "\<forall>k \<in> fst ` set ops. part_get (operation_history d1) k \<noteq> None"
    by (auto simp: part_get_def oe map_of_eq_None_iff)
  moreover have "distinct (map fst ops)"
    using al_sorted_distinct [OF part_entries_sorted, of "operation_history d1"] by (simp add: oe)
  ultimately obtain diff da where a: "remove_affected_operations d1 th = Inr (diff, da)" "same_state d1 da"
    "operation_history da = fold part_remove (map fst ops) (operation_history d1)"
    "tx_id_to_opscore da = fold part_remove (map (\<lambda>x. op_tx (snd x)) ops) (tx_id_to_opscore d1)"
    using remove_operations_loop_ok [of ops d1 stats_default] or by (auto simp: remove_affected_operations_def)
  have opa: "operation_history da = operation_history d0" unfolding a(3) by (rule fold_remove_tail [OF oe])
  have txa: "tx_id_to_opscore da = tx_id_to_opscore d0" if "\<forall>x \<in> set ops. part_get (tx_id_to_opscore d0) (op_tx (snd x)) = None"
    using that rec by (intro part_eqI) (auto simp: a(4) part_get_fold_remove recorded_def)
  \<comment> \<open>the deployments\<close>
  have de: "part_entries (collection_deployments da) = part_entries (collection_deployments d0) @ dks"
    using k a(2) by (simp add: deploys_def same_state_def)
  have dr: "part_range_keys (Included (DeploymentKey th tick_MIN)) Unbounded (collection_deployments da) = map fst dks"
  proof -
    have "\<forall>x \<in> part_keys (collection_deployments d0). x < DeploymentKey th tick_MIN"
    proof
      fix x assume "x \<in> part_keys (collection_deployments d0)"
      then have "dk_score x < th" using h by (auto simp: history_le_def)
      then show "x < DeploymentKey th tick_MIN" by (cases x) (simp add: deployment_key_less)
    qed
    moreover have "\<forall>x \<in> fst ` set dks. DeploymentKey th tick_MIN \<le> x"
    proof
      fix x assume "x \<in> fst ` set dks"
      then have "th \<le> dk_score x \<and> tick_MIN \<le> dk_tick x" using th(2) by blast
      then show "DeploymentKey th tick_MIN \<le> x" by (cases x) (auto simp: deployment_key_le)
    qed
    ultimately show ?thesis unfolding part_range_keys_def using range_tail [OF de] by simp
  qed
  define reg where "reg = collection_registry d1"
  have rega: "collection_registry da = reg" using a(2) by (simp add: same_state_def same_tokens_def reg_def)
  define premints where "premints = (\<lambda>t. if t \<in> dk_tick ` set (map fst dks) \<and> part_get reg t \<noteq> None
       then map_option (\<lambda>sdi. di_premint (dw_info (sd_deploy_info sdi))) (part_get reg t) else None)"
  define db where "db = da\<lparr>collection_deployments := fold part_remove (map fst dks) (collection_deployments da),
        collection_registry := fold part_remove (map dk_tick (map fst dks)) reg\<rparr>"
  have deploy: "remove_affected_deployments da th = (premints, db)"
    unfolding remove_affected_deployments_def dr remove_deployments_loop_ok premints_def db_def rega by (simp add: fun_eq_iff)
  have regb: "collection_registry db = collection_registry d0"
  proof (rule part_eqI)
    fix t
    have "if t \<in> dk_tick ` fst ` set dks then part_get (collection_registry d0) t = None
        else part_get reg t = part_get (collection_registry d0) t"
      using k unfolding deploys_def reg_def by meson
    then show "part_get (collection_registry db) t = part_get (collection_registry d0) t"
      by (simp add: db_def part_get_fold_remove image_image split: if_splits)
  qed
  have depb: "collection_deployments db = collection_deployments d0"
    unfolding db_def using fold_remove_tail [OF de] by simp
  \<comment> \<open>discounts and listings\<close>
  define dd where "dd = remove_affected_listings (remove_discounts db th) th"
  have dd: "same_state db dd" "same_operations db dd"
    using remove_discounts_state [of db th] remove_affected_listings_state [of "remove_discounts db th" th] same_state_trans
    by (auto simp: dd_def same_operations_def)
  have reg_dd: "registry_state dd = registry_state d0"
    using dd(1) regb depb by (simp add: registry_state_def same_state_def same_tokens_def)
  have tok_dd: "token_state dd = token_state d1"
    using dd(1) a(2) by (simp add: token_state_def same_state_def same_tokens_def db_def)
  have list_dd: "listing_state dd = listing_state (remove_affected_listings da th)"
    unfolding dd_def
    by (rule remove_affected_listings_cong) (simp add: remove_discounts_listings, simp add: listing_state_def db_def)
  have op_dd: "same_operations da dd" using dd(2) by (simp add: same_operations_def db_def)
  \<comment> \<open>the tokens\<close>
  have keys: "rev (part_range_keys (Included (TokenMintsKey th tick_MIN 0 0)) Unbounded (ownership_changes dd)) = map fst aff"
  proof -
    have e: "part_entries (ownership_changes dd) = part_entries (ownership_changes d0) @ change_entries aff"
      using u tok_dd by (simp add: undoes_def token_state_def)
    have "\<forall>x \<in> part_keys (ownership_changes d0). x < TokenMintsKey th tick_MIN 0 0"
    proof
      fix x assume "x \<in> part_keys (ownership_changes d0)"
      then have "tm_score x < th" using h by (auto simp: history_le_def changes_le_def)
      then show "x < TokenMintsKey th tick_MIN 0 0" by (cases x) (simp add: token_mints_key_less)
    qed
    moreover have "\<forall>x \<in> fst ` set (change_entries aff). TokenMintsKey th tick_MIN 0 0 \<le> x"
    proof
      fix x assume "x \<in> fst ` set (change_entries aff)"
      then have "th \<le> tm_score x \<and> tick_MIN \<le> tm_tick x" using th(1) by (auto simp: change_entries_def)
      then show "TokenMintsKey th tick_MIN 0 0 \<le> x" by (cases x) (auto simp: token_mints_key_le word_gt_0)
    qed
    ultimately show ?thesis unfolding part_range_keys_def using range_tail [OF e]
      by (simp add: change_entries_def rev_map comp_def case_prod_beta)
  qed
  have "premints_found premints dd d1"
  proof -
    have "premint_of premints dd t = Some (di_premint (dw_info (sd_deploy_info sdi)))" if "part_get reg t = Some sdi" for t sdi
    proof (cases "t \<in> dk_tick ` fst ` set dks")
      case True
      then show ?thesis using that by (simp add: premint_of_def premints_def)
    next
      case False
      then have "part_get (collection_registry d1) t = part_get (collection_registry d0) t"
        using k unfolding deploys_def by meson
      then have "part_get (collection_registry dd) t = Some sdi"
        using that reg_dd by (simp add: reg_def registry_state_def)
      then show ?thesis using False by (simp add: premint_of_def premints_def)
    qed
    then show ?thesis by (simp add: premints_found_def reg_def)
  qed
  moreover have "with_hist dd d1 = dd" using tok_dd by (simp add: with_hist_def token_state_def)
  ultimately have undo: "get_affected_token_operations dd th premints = Inr (aff, with_hist dd d0)"
    using u unfolding get_affected_token_operations_def keys undoes_def by metis
  define e where "e = with_hist dd d0"
  define r where "r = rebuild_ownership_state aff (remove_ownership_records (map fst aff) e)"
  have own: "current_ownership r = current_ownership d0" "address_holdings r = address_holdings d0"
  proof -
    have e: "ownership_history e = ownership_history d0" "current_ownership e = current_ownership d1"
      "address_holdings e = address_holdings d1" using tok_dd by (simp_all add: e_def token_state_def)
    have "holdings_ok d0" "history_ok d0" "holdings_ok d1" using l0 l1 by (simp_all add: ledger_ok_def)
    from rebuilt_owners [OF u this e] show "current_ownership r = current_ownership d0"
      "address_holdings r = address_holdings d0" unfolding r_def by auto
  qed
  have oo: "owned_only e r" unfolding r_def
    using remove_ownership_records_simps(2) rebuild_ownership_state_only owned_only_trans by blast
  have fin: "remove_from_score d1 th = Inr (diff, r)"
    using a(1) deploy undo by (simp add: remove_from_score_def reconstruct_token_ownership_def dd_def r_def e_def Let_def)
  moreover have "token_state r = token_state d0"
    using own owned_only_simps(1-6) [OF oo] by (simp add: token_state_def e_def)
  moreover have "registry_state r = registry_state d0"
    using reg_dd owned_only_simps(7,8) [OF oo] by (simp add: registry_state_def e_def)
  moreover have "same_operations da r"
    using op_dd owned_only_simps(9) [OF oo] by (simp add: same_operations_def e_def)
  moreover have "listing_state r = listing_state dd"
    using owned_only_simps(10) [OF oo] by (simp add: e_def listing_state_def with_hist_def)
  ultimately show ?thesis using a(1) opa txa list_dd by (auto simp: same_operations_def)
qed

end
