(* ===== verification/ReorgProperties.thy ===== *)
theory ReorgProperties
  imports ReorgExact
begin

text \<open>
  What a reorganisation restores: the properties of the removal of a batch, for the partitions of
  tokens, registry and operations (restored exactly), for the statistics (restored up to the
  premints of removed deployments) and for the listings (restored when the batch sold nothing).
\<close>

section \<open>Statistics\<close>

definition count_removed :: "u64 \<times> checked_operation \<Rightarrow> stats \<Rightarrow> stats" where
  "count_removed x diff = (if co_error (snd x) \<noteq> None then diff else removed_op_stats (co_operation (snd x)) diff)"

definition op_premint :: "u64 \<times> checked_operation \<Rightarrow> u64" where
  "op_premint x = (case op_info (co_operation (snd x)) of
     Deploy info \<Rightarrow> if co_error (snd x) = None then di_premint info else 0 | _ \<Rightarrow> 0)"

definition add_mints :: "u64 \<Rightarrow> stats \<Rightarrow> stats" where
  "add_mints n diff = diff\<lparr>st_mints := st_mints diff + n\<rparr>"

lemma add_mints_simps: "add_mints 0 diff = diff" "add_mints a (add_mints b diff) = add_mints (b + a) diff"
  by (simp_all add: add_mints_def)

lemma count_removed_add_mints: "count_removed x (add_mints n diff) = add_mints n (count_removed x diff)"
  by (simp add: count_removed_def removed_op_stats_def add_mints_def Let_def split: operation_info.split)

lemma fold_count_removed_add_mints: "fold count_removed ops (add_mints n diff) = add_mints n (fold count_removed ops diff)"
  by (induction ops arbitrary: diff) (simp_all add: count_removed_add_mints)

lemma remove_operations_loop_diff:
  assumes "\<forall>x \<in> set ops. part_get (operation_history d) (fst x) = Some (snd x)" and "distinct (map fst ops)"
    and "remove_operations_loop ops diff d = Inr (diff', d')"
  shows "diff' = fold count_removed ops diff"
  using assms
proof (induction ops arbitrary: diff d)
  case Nil
  then show ?case by simp
next
  case (Cons x ops)
  obtain score op where x: "x = (score, op)" by fastforce
  define d2 where "d2 = d\<lparr>tx_id_to_opscore := part_remove (op_tx op) (tx_id_to_opscore d),
     operation_history := part_remove score (operation_history d)\<rparr>"
  define d3 where "d3 = (if co_error op \<noteq> None then d2 else case op_info (co_operation op) of
      Send info \<Rightarrow> restore_listing_for_reorged_send d2 (op_common (co_operation op)) info | _ \<Rightarrow> d2)"
  have "remove_operations_loop (x # ops) diff d = remove_operations_loop ops (count_removed x diff) d3"
    using Cons.prems(1)
    by (auto simp: x d2_def d3_def count_removed_def op_tx_def part_remove_if_exists_def Let_def split: operation_info.split)
  then have r: "remove_operations_loop ops (count_removed x diff) d3 = Inr (diff', d')" using Cons.prems(3) by simp
  have "operation_history d3 = part_remove score (operation_history d)"
    using restore_listing_state [of d2] by (auto simp: d3_def d2_def same_operations_def split: operation_info.split)
  then have "\<forall>y \<in> set ops. part_get (operation_history d3) (fst y) = Some (snd y)"
    using Cons.prems(1,2) by (auto simp: x)
  from Cons.IH [OF this _ r] Cons.prems(2) show ?case by simp
qed

lemma apply_operation_diff:
  assumes "apply_operation p2sh d ent s op diff = Inr (err, op', diff', d')"
  shows "diff' = add_mints (op_premint (s, \<lparr>co_operation = op', co_error = err\<rparr>))
           (count_removed (s, \<lparr>co_operation = op', co_error = err\<rparr>) diff)"
proof (cases err)
  case (Some e)
  then show ?thesis using apply_operation_rejected [OF assms [unfolded Some]]
    by (simp add: op_premint_def count_removed_def add_mints_def split: operation_info.split)
next
  case None
  show ?thesis using assms unfolding None
    by (cases "op_info op")
      (auto simp: apply_operation_def Let_def and_then_Inr_iff finished_iff op_premint_def count_removed_def
        removed_op_stats_def add_mints_def)
qed

lemma process_nft_operations_diff:
  assumes "ledger_ok d" "history_le d s0" "sorted_wrt (<) (s0 # map cx_tx_score cxs)"
    "\<forall>cx \<in> set cxs. op_valid (cx_operation cx) \<and> tick_MIN \<le> oc_tick (op_common (cx_operation cx))"
    "process_nft_operations p2sh d cxs diff = Inr (diff', d')"
  shows "\<exists>ops. part_entries (operation_history d') = part_entries (operation_history d) @ ops \<and>
    diff' = add_mints (sum_list (map op_premint ops)) (fold count_removed ops diff)"
  using assms
proof (induction cxs arbitrary: d s0 diff)
  case Nil
  then show ?case by (simp add: add_mints_def)
next
  case (Cons cx cxs)
  let ?s = "cx_tx_score cx"
  obtain err op' diff1 d1 where a: "apply_operation p2sh d (cx_mergeset_entropy cx) ?s (cx_operation cx) diff = Inr (err, op', diff1, d1)"
    and rest: "process_nft_operations p2sh (record_operation d1 ?s op' err) cxs diff1 = Inr (diff', d')"
    using Cons.prems(5) by (auto simp: and_then_Inr_iff)
  let ?x = "(?s, \<lparr>co_operation = op', co_error = err\<rparr>)"
  have s: "s0 < ?s" and v: "op_valid (cx_operation cx)" "tick_MIN \<le> oc_tick (op_common (cx_operation cx))"
    using Cons.prems by auto
  note oc = operation_changes [OF Cons.prems(1,2) s v a]
  obtain ops where ops: "part_entries (operation_history d') = part_entries (operation_history (record_operation d1 ?s op' err)) @ ops"
    "diff' = add_mints (sum_list (map op_premint ops)) (fold count_removed ops diff1)"
    using Cons.IH [OF oc(2,3) _ _ rest] Cons.prems(3,4) by auto
  have "part_entries (operation_history (record_operation d1 ?s op' err)) = part_entries (operation_history d) @ [?x]"
    using oc(1) by (auto simp: batch_changes_def recorded_def)
  then have "part_entries (operation_history d') = part_entries (operation_history d) @ ?x # ops" using ops(1) by simp
  moreover have "diff' = add_mints (sum_list (map op_premint (?x # ops))) (fold count_removed (?x # ops) diff)"
    unfolding ops(2) apply_operation_diff [OF a]
    by (simp add: fold_count_removed_add_mints add_mints_simps)
  ultimately show ?case by blast
qed

section \<open>Listings\<close>

text \<open>The two indexes of the listings.\<close>

definition listing_index_ok :: "db \<Rightarrow> bool" where
  "listing_index_ok d \<longleftrightarrow>
     (\<forall>t i. part_get (listings_by_tick d) (ListingByTickKey t i) = map_option (\<lambda>_. ()) (part_get (listings d) (OwnershipKey t i))) \<and>
     (\<forall>p t i s. part_get (address_listings d) (AddressHoldingKey p t i) = Some s \<longleftrightarrow>
        (\<exists>lv. part_get (listings d) (OwnershipKey t i) = Some lv \<and> lv_seller lv = p \<and> lv_op_score lv = s))"

lemma listing_index_ledger: "ledger_ok d \<Longrightarrow> listing_index_ok d"
  by (simp add: ledger_ok_def listings_ok_def listing_index_ok_def)

lemma listing_index_state: "listing_state d = listing_state d' \<Longrightarrow> listing_index_ok d = listing_index_ok d'"
  by (simp add: listing_state_def listing_index_ok_def)

lemma listing_index_unique:
  assumes a: "listing_index_ok d" and b: "listing_index_ok d'" and l: "listings d = listings d'"
  shows "listing_state d = listing_state d'"
proof -
  have "listings_by_tick d = listings_by_tick d'"
  proof (rule part_eqI)
    fix k
    show "part_get (listings_by_tick d) k = part_get (listings_by_tick d') k"
      using a b l by (cases k) (simp add: listing_index_ok_def)
  qed
  moreover have "address_listings d = address_listings d'"
  proof (rule part_eqI)
    fix k
    have "\<forall>s. part_get (address_listings d) k = Some s \<longleftrightarrow> part_get (address_listings d') k = Some s"
      using a b l by (cases k) (simp add: listing_index_ok_def)
    then show "part_get (address_listings d) k = part_get (address_listings d') k" by (rule option_ext)
  qed
  ultimately show ?thesis using l by (simp add: listing_state_def)
qed

lemma remove_listing_index:
  assumes "listing_index_ok d" and "part_get (listings d) (OwnershipKey t i) = Some lv"
  shows "listing_index_ok (remove_listing d t i (lv_seller lv))"
  using assms unfolding listing_index_ok_def remove_listing_def by auto

lemma remove_listings_fold:
  assumes "listing_index_ok d" and "\<forall>(k, lv) \<in> set xs. part_get (listings d) k = Some lv" and "distinct (map fst xs)"
  defines "d' \<equiv> fold (\<lambda>(k, lv) d. remove_listing d (ok_tick k) (ok_token_id k) (lv_seller lv)) xs d"
  shows "listing_index_ok d' \<and> listings d' = fold part_remove (map fst xs) (listings d)"
  using assms(1-3) unfolding d'_def
proof (induction xs arbitrary: d)
  case Nil
  then show ?case by simp
next
  case (Cons x xs)
  obtain t i lv where x: "x = (OwnershipKey t i, lv)" by (metis ownership_key.exhaust prod.exhaust)
  let ?d = "remove_listing d t i (lv_seller lv)"
  have "listing_index_ok ?d" using Cons.prems by (intro remove_listing_index) (simp_all add: x)
  moreover have "\<forall>(k, lv) \<in> set xs. part_get (listings ?d) k = Some lv"
  proof (intro ballI)
    fix y assume y: "y \<in> set xs"
    obtain k l where kl: "y = (k, l)" by fastforce
    have "k \<noteq> OwnershipKey t i" using Cons.prems(3) y by (force simp: x kl)
    then show "case y of (k, lv') \<Rightarrow> part_get (listings ?d) k = Some lv'"
      using Cons.prems(2) y by (auto simp: kl remove_listing_def)
  qed
  ultimately show ?case using Cons.IH [of ?d] Cons.prems(3) by (simp add: x remove_listing_def)
qed

text \<open>Removing the listings of a batch that only added listings.\<close>

lemma remove_affected_listings_exact:
  assumes i0: "listing_index_ok d0" and i1: "listing_index_ok d1"
    and old: "\<And>k lv. part_get (listings d0) k = Some lv \<Longrightarrow> lv_op_score lv < th \<and> part_get (listings d1) k = Some lv"
    and new: "\<And>k lv. part_get (listings d1) k = Some lv \<Longrightarrow> part_get (listings d0) k = None \<Longrightarrow> th \<le> lv_op_score lv"
  shows "listing_state (remove_affected_listings d1 th) = listing_state d0"
proof -
  let ?xs = "filter (\<lambda>(k, lv). th \<le> lv_op_score lv) (part_entries (listings d1))"
  have "part_range Unbounded Unbounded (listings d1) = part_entries (listings d1)" by (simp add: part_range_def)
  moreover have "\<forall>(k, lv) \<in> set ?xs. part_get (listings d1) k = Some lv" by (auto simp: in_entries_iff)
  moreover have "distinct (map fst ?xs)" by (simp add: distinct_map_filter al_sorted_distinct part_entries_sorted)
  ultimately have r: "listing_index_ok (remove_affected_listings d1 th)"
    "listings (remove_affected_listings d1 th) = fold part_remove (map fst ?xs) (listings d1)"
    using remove_listings_fold [OF i1, of ?xs] by (auto simp: remove_affected_listings_def)
  have "listings (remove_affected_listings d1 th) = listings d0"
  proof (rule part_eqI)
    fix k
    have m: "k \<in> set (map fst ?xs) \<longleftrightarrow> (\<exists>lv. part_get (listings d1) k = Some lv \<and> th \<le> lv_op_score lv)"
      by (force simp: in_entries_iff)
    show "part_get (listings (remove_affected_listings d1 th)) k = part_get (listings d0) k"
      unfolding r(2) part_get_fold_remove m
      using old [of k] new [of k] by (cases "part_get (listings d0) k"; cases "part_get (listings d1) k") (auto simp: not_le)
  qed
  with listing_index_unique [OF r(1) i0] show ?thesis by simp
qed

text \<open>Without a sale or a cancellation, a batch only adds listings.\<close>

definition no_send :: "operation \<Rightarrow> bool" where
  "no_send op = (case op_info op of Send _ \<Rightarrow> False | _ \<Rightarrow> True)"

definition adds_listings :: "u64 \<Rightarrow> db \<Rightarrow> db \<Rightarrow> bool" where
  "adds_listings th d d' \<longleftrightarrow>
     (\<forall>k. case part_get (listings d) k of
        Some lv \<Rightarrow> part_get (listings d') k = Some lv
      | None \<Rightarrow> (\<forall>lv. part_get (listings d') k = Some lv \<longrightarrow> th \<le> lv_op_score lv))"

lemma adds_listings_trans:
  assumes a: "adds_listings th d d1" and b: "adds_listings th d1 d2"
  shows "adds_listings th d d2"
  unfolding adds_listings_def
proof
  fix k
  note ak = a [unfolded adds_listings_def, rule_format, of k] and bk = b [unfolded adds_listings_def, rule_format, of k]
  show "case part_get (listings d) k of Some lv \<Rightarrow> part_get (listings d2) k = Some lv
      | None \<Rightarrow> \<forall>lv. part_get (listings d2) k = Some lv \<longrightarrow> th \<le> lv_op_score lv"
    using ak bk by (cases "part_get (listings d) k"; cases "part_get (listings d1) k") auto
qed

lemma adds_listings_same: "listings d' = listings d \<Longrightarrow> adds_listings th d d'"
  by (simp add: adds_listings_def split: option.split)

lemma apply_operation_listings:
  assumes n: "no_send op" and th: "th \<le> s" and l: "ledger_ok d" "scores_le d s0" "s0 < s" "op_valid op"
    and r: "apply_operation p2sh d ent s op diff = Inr (err, op', diff', d')"
  shows "adds_listings th d d'" and "no_send op'"
proof -
  show "no_send op'"
  proof (cases err)
    case (Some e)
    then show ?thesis using apply_operation_rejected(1) r n by blast
  next
    case None
    then show ?thesis using n r
      by (cases "op_info op") (auto simp: no_send_def apply_operation_def Let_def and_then_Inr_iff finished_iff)
  qed
  show "adds_listings th d d'"
  proof (cases err)
    case (Some e)
    then show ?thesis using apply_operation_ok [OF l, of p2sh ent diff] r by (auto intro: adds_listings_same)
  next
    case None
    from r [unfolded None] show ?thesis
    proof (cases rule: apply_operation_accepted)
      case (deploy info)
      then have "listings d' = listings d"
        by (auto simp: process_deployment_def Let_def only_tokens_fields dest!: only_tokens_premint split: option.splits if_splits)
      then show ?thesis by (rule adds_listings_same)
    next
      case (mint info i)
      then show ?thesis using only_tokens_mint [OF mint(2)] by (intro adds_listings_same) (simp add: only_tokens_fields)
    next
      case (transfer info)
      then show ?thesis
        by (cases rule: process_transfer_cases [of d s "op_common op" info]) (auto intro: adds_listings_same)
    next
      case (discount info)
      then show ?thesis
        by (cases rule: process_discount_cases [of d s "op_common op" info]) (auto intro!: adds_listings_same)
    next
      case (listing info)
      then show ?thesis
      proof (cases rule: process_list_cases [of p2sh d s "op_common op" info])
        case (accepted co lv)
        then have "d' = insert_listing d (oc_tick (op_common op)) (li_token_id info) lv" "lv_op_score lv = s"
          using listing(2) by auto
        then show ?thesis using accepted(4) th by (auto simp: adds_listings_def insert_listing_def split: option.split)
      qed simp
    next
      case (send info)
      then show ?thesis using n by (simp add: no_send_def)
    qed
  qed
qed

lemma process_nft_operations_listings:
  assumes "ledger_ok d" "history_le d s0" "sorted_wrt (<) (s0 # map cx_tx_score cxs)"
    "\<forall>cx \<in> set cxs. op_valid (cx_operation cx) \<and> tick_MIN \<le> oc_tick (op_common (cx_operation cx))"
    "\<forall>cx \<in> set cxs. th \<le> cx_tx_score cx" "\<forall>cx \<in> set cxs. no_send (cx_operation cx)"
    "process_nft_operations p2sh d cxs diff = Inr (diff', d')"
  shows "adds_listings th d d' \<and> (\<exists>ops. part_entries (operation_history d') = part_entries (operation_history d) @ ops \<and>
    (\<forall>x \<in> set ops. no_send (co_operation (snd x))))"
  using assms
proof (induction cxs arbitrary: d s0 diff)
  case Nil
  then show ?case by (simp add: adds_listings_same)
next
  case (Cons cx cxs)
  let ?s = "cx_tx_score cx"
  obtain err op' diff1 d1 where a: "apply_operation p2sh d (cx_mergeset_entropy cx) ?s (cx_operation cx) diff = Inr (err, op', diff1, d1)"
    and rest: "process_nft_operations p2sh (record_operation d1 ?s op' err) cxs diff1 = Inr (diff', d')"
    using Cons.prems(7) by (auto simp: and_then_Inr_iff)
  let ?x = "(?s, \<lparr>co_operation = op', co_error = err\<rparr>)" and ?d = "record_operation d1 ?s op' err"
  have s: "s0 < ?s" and v: "op_valid (cx_operation cx)" "tick_MIN \<le> oc_tick (op_common (cx_operation cx))"
    and n: "no_send (cx_operation cx)" "th \<le> ?s" and sc: "scores_le d s0"
    using Cons.prems by (auto simp: history_le_def)
  note oc = operation_changes [OF Cons.prems(1,2) s v a]
  note al = apply_operation_listings [OF n Cons.prems(1) sc s v(1) a]
  obtain ops where ops: "adds_listings th ?d d'" "part_entries (operation_history d') = part_entries (operation_history ?d) @ ops"
    "\<forall>x \<in> set ops. no_send (co_operation (snd x))"
    using Cons.IH [OF oc(2,3) _ _ _ _ rest] Cons.prems(3-6) by auto
  have "adds_listings th d1 ?d" by (rule adds_listings_same) (simp add: record_operation_def)
  then have "adds_listings th d d'" using al(1) ops(1) adds_listings_trans by blast
  moreover have "part_entries (operation_history ?d) = part_entries (operation_history d) @ [?x]"
    using oc(1) by (auto simp: batch_changes_def recorded_def)
  then have "part_entries (operation_history d') = part_entries (operation_history d) @ ?x # ops" using ops(2) by simp
  moreover have "\<forall>x \<in> set (?x # ops). no_send (co_operation (snd x))" using ops(3) al(2) by simp
  ultimately show ?case by blast
qed

lemma remove_operations_loop_listings:
  assumes "\<forall>x \<in> set ops. part_get (operation_history d) (fst x) = Some (snd x)" and "distinct (map fst ops)"
    and "\<forall>x \<in> set ops. no_send (co_operation (snd x))"
    and "remove_operations_loop ops diff d = Inr (diff', d')"
  shows "listing_state d' = listing_state d"
  using assms
proof (induction ops arbitrary: diff d)
  case Nil
  then show ?case by simp
next
  case (Cons x ops)
  obtain score op where x: "x = (score, op)" by fastforce
  let ?d = "d\<lparr>tx_id_to_opscore := part_remove (op_tx op) (tx_id_to_opscore d),
     operation_history := part_remove score (operation_history d)\<rparr>"
  have "remove_operations_loop (x # ops) diff d = remove_operations_loop ops (count_removed x diff) ?d"
    using Cons.prems(1,3)
    by (auto simp: x no_send_def count_removed_def op_tx_def part_remove_if_exists_def Let_def split: operation_info.splits)
  then have r: "remove_operations_loop ops (count_removed x diff) ?d = Inr (diff', d')" using Cons.prems(4) by simp
  have "\<forall>y \<in> set ops. part_get (operation_history ?d) (fst y) = Some (snd y)"
    using Cons.prems(1,2) by (auto simp: x)
  from Cons.IH [OF this _ _ r] Cons.prems(2,3) show ?case by (simp add: listing_state_def)
qed

section \<open>Properties\<close>

text \<open>The batches considered: increasing scores above those of the database and at least the threshold.\<close>

definition batch_above :: "u64 \<Rightarrow> u64 \<Rightarrow> context_operation list \<Rightarrow> bool" where
  "batch_above s0 th cxs \<longleftrightarrow>
     s0 < th \<and> sorted_wrt (<) (s0 # map cx_tx_score cxs) \<and>
     (\<forall>cx \<in> set cxs. th \<le> cx_tx_score cx \<and> op_valid (cx_operation cx) \<and> tick_MIN \<le> oc_tick (op_common (cx_operation cx)))"

lemma removal_of_batch:
  assumes l: "ledger_ok d0" and h: "history_le d0 s0" and b: "batch_above s0 th cxs"
    and r: "process_nft_operations p2sh d0 cxs diff = Inr (diff1, d1)"
  shows "\<exists>ops diff2 da d2. remove_affected_operations d1 th = Inr (diff2, da) \<and>
     remove_from_score d1 th = Inr (diff2, d2) \<and> token_state d2 = token_state d0 \<and> registry_state d2 = registry_state d0 \<and>
     operation_history d2 = operation_history d0 \<and>
     ((\<forall>cx \<in> set cxs. part_get (tx_id_to_opscore d0) (oc_tx_id (op_common (cx_operation cx))) = None) \<longrightarrow>
        tx_id_to_opscore d2 = tx_id_to_opscore d0) \<and>
     listing_state d2 = listing_state (remove_affected_listings da th) \<and>
     part_entries (operation_history d1) = part_entries (operation_history d0) @ ops \<and>
     part_range (Included th) Unbounded (operation_history d1) = ops"
proof -
  have s: "s0 < th" "sorted_wrt (<) (s0 # map cx_tx_score cxs)"
    and v: "\<forall>cx \<in> set cxs. op_valid (cx_operation cx) \<and> tick_MIN \<le> oc_tick (op_common (cx_operation cx))"
      "\<forall>cx \<in> set cxs. th \<le> cx_tx_score cx"
    using b by (simp_all add: batch_above_def)
  have sc: "scores_le d0 s0" using h by (simp add: history_le_def)
  have l1: "ledger_ok d1" using process_nft_operations_ok [OF l sc s(2), of p2sh diff] v(1) r by auto
  obtain aff dks ops where c: "batch_changes th d0 d1 aff dks ops"
    and tx: "map (\<lambda>x. op_tx (snd x)) ops = map (\<lambda>cx. oc_tx_id (op_common (cx_operation cx))) cxs"
    using process_nft_operations_changes(1) [OF l h s(2) v r] by blast
  have e: "part_entries (operation_history d1) = part_entries (operation_history d0) @ ops"
    and ge: "\<forall>k \<in> fst ` set ops. th \<le> k" using c by (simp_all add: batch_changes_def recorded_def)
  have "part_range (Included th) Unbounded (operation_history d1) = ops"
    using h s(1) by (intro range_tail [OF e _ ge]) (auto simp: history_le_def)
  moreover have "(\<forall>cx \<in> set cxs. part_get (tx_id_to_opscore d0) (oc_tx_id (op_common (cx_operation cx))) = None) \<longleftrightarrow>
      (\<forall>x \<in> set ops. part_get (tx_id_to_opscore d0) (op_tx (snd x)) = None)"
  proof -
    have "(\<forall>cx \<in> set cxs. part_get (tx_id_to_opscore d0) (oc_tx_id (op_common (cx_operation cx))) = None) \<longleftrightarrow>
      (\<forall>y \<in> set (map (\<lambda>cx. oc_tx_id (op_common (cx_operation cx))) cxs). part_get (tx_id_to_opscore d0) y = None)" by simp
    then show ?thesis unfolding tx [symmetric] by simp
  qed
  moreover obtain diff2 da d2 where "remove_affected_operations d1 th = Inr (diff2, da)"
    "remove_from_score d1 th = Inr (diff2, d2)" "token_state d2 = token_state d0"
    "listing_state d2 = listing_state (remove_affected_listings da th)" "registry_state d2 = registry_state d0"
    "operation_history d2 = operation_history d0"
    "(\<forall>x \<in> set ops. part_get (tx_id_to_opscore d0) (op_tx (snd x)) = None) \<longrightarrow> tx_id_to_opscore d2 = tx_id_to_opscore d0"
    using remove_batch [OF c h s(1) l l1] by blast
  ultimately show ?thesis using e by blast
qed

text \<open>C1: Removing from a score on undoes the batch applied from that score on: on a sound ledger whose scores
  are all below the threshold, apply operations with increasing scores from the threshold on; the removal does
  not abort, and every token partition (mints, changes, histories, owners, holdings, ranges, draws), the
  registry, the deployments and the operation indexes are again what they were.\<close>

theorem removal_undoes_batch:
  assumes "ledger_ok d0" and "history_le d0 s0" and "batch_above s0 th cxs"
    and "process_nft_operations p2sh d0 cxs diff = Inr (diff1, d1)"
    and "\<forall>cx \<in> set cxs. part_get (tx_id_to_opscore d0) (oc_tx_id (op_common (cx_operation cx))) = None"
  shows "\<exists>diff2 d2. remove_from_score d1 th = Inr (diff2, d2) \<and> token_state d2 = token_state d0 \<and>
     registry_state d2 = registry_state d0 \<and> operation_history d2 = operation_history d0 \<and>
     tx_id_to_opscore d2 = tx_id_to_opscore d0"
  using removal_of_batch [OF assms(1-4)] assms(5) by blast

lemma history_le_empty [simp]: "history_le db_empty s"
  by (simp add: history_le_def changes_le_def db_empty_def part_keys_def scores_le_def)

lemma tick_MIN_tick_A [simp]: "tick_MIN \<le> tick_A"
  by (simp add: tick_MIN_def tick_A_def less_eq_tick_def)

lemma batch_above_sample [simp]: "batch_above 0 5 [cx_deploy, cx_mint]"
  by (simp add: batch_above_def cx_deploy_def cx_mint_def op_valid_def common_A_def)

lemma sample_batch_runs:
  "\<exists>diff1 d1. process_nft_operations (\<lambda>_. spk_A) db_empty [cx_deploy, cx_mint] stats_default = Inr (diff1, d1)"
  using process_nft_operations_ok [of db_empty 0 "[cx_deploy, cx_mint]" "\<lambda>_. spk_A" stats_default]
  by (auto simp: cx_deploy_def cx_mint_def op_valid_def)

theorem removal_undoes_batch_witness:
  "\<exists>diff1 d1 diff2 d2. process_nft_operations (\<lambda>_. spk_A) db_empty [cx_deploy, cx_mint] stats_default = Inr (diff1, d1) \<and>
     remove_from_score d1 5 = Inr (diff2, d2) \<and> token_state d2 = token_state db_empty \<and>
     registry_state d2 = registry_state db_empty \<and> operation_history d2 = operation_history db_empty \<and>
     tx_id_to_opscore d2 = tx_id_to_opscore db_empty"
proof -
  obtain diff1 d1 where r: "process_nft_operations (\<lambda>_. spk_A) db_empty [cx_deploy, cx_mint] stats_default = Inr (diff1, d1)"
    using sample_batch_runs by blast
  have "\<forall>cx \<in> set [cx_deploy, cx_mint]. part_get (tx_id_to_opscore db_empty) (oc_tx_id (op_common (cx_operation cx))) = None"
    by (simp add: db_empty_def)
  from removal_undoes_batch [OF ledger_ok_empty history_le_empty batch_above_sample r this] r show ?thesis by blast
qed

text \<open>The statistics that a removal subtracts are those the batch added, except for the mints: the
  premints of the removed deployments were counted as mints when they were added, and are not subtracted.\<close>

theorem removal_subtracts_all_but_premints:
  assumes "ledger_ok d0" and "history_le d0 s0" and "batch_above s0 th cxs"
    and "process_nft_operations p2sh d0 cxs stats_default = Inr (diff1, d1)"
  shows "\<exists>diff2 d2. remove_from_score d1 th = Inr (diff2, d2) \<and>
     diff1 = diff2\<lparr>st_mints := st_mints diff2 +
       sum_list (map op_premint (part_range (Included th) Unbounded (operation_history d1)))\<rparr>"
proof -
  from removal_of_batch [OF assms] obtain ops diff2 da d2 where
    r: "remove_affected_operations d1 th = Inr (diff2, da)" "remove_from_score d1 th = Inr (diff2, d2)"
      "part_entries (operation_history d1) = part_entries (operation_history d0) @ ops"
      "part_range (Included th) Unbounded (operation_history d1) = ops" by blast
  obtain ops' where ops': "part_entries (operation_history d1) = part_entries (operation_history d0) @ ops'"
    "diff1 = add_mints (sum_list (map op_premint ops')) (fold count_removed ops' stats_default)"
    using process_nft_operations_diff [OF assms(1,2) _ _ assms(4)] assms(3) by (auto simp: batch_above_def)
  have "\<forall>x \<in> set ops. part_get (operation_history d1) (fst x) = Some (snd x)"
    using r(3) by (auto simp flip: in_entries_iff)
  moreover have "distinct (map fst ops)"
    using al_sorted_distinct [OF part_entries_sorted, of "operation_history d1"] by (simp add: r(3))
  ultimately have "diff2 = fold count_removed ops stats_default"
    using remove_operations_loop_diff r(1) unfolding remove_affected_operations_def r(4) by blast
  then show ?thesis using r ops' by (simp add: add_mints_def)
qed

theorem removal_subtracts_all_but_premints_witness:
  "\<exists>diff1 d1 diff2 d2. process_nft_operations (\<lambda>_. spk_A) db_empty [cx_deploy, cx_mint] stats_default = Inr (diff1, d1) \<and>
     remove_from_score d1 5 = Inr (diff2, d2) \<and>
     diff1 = diff2\<lparr>st_mints := st_mints diff2 + sum_list (map op_premint (part_range (Included 5) Unbounded (operation_history d1)))\<rparr>"
proof -
  obtain diff1 d1 where r: "process_nft_operations (\<lambda>_. spk_A) db_empty [cx_deploy, cx_mint] stats_default = Inr (diff1, d1)"
    using sample_batch_runs by blast
  from removal_subtracts_all_but_premints [OF ledger_ok_empty history_le_empty batch_above_sample r] r show ?thesis by blast
qed

text \<open>When the removed batch holds no sale and no cancellation, the three partitions of listings are
  restored as well.\<close>

theorem removal_restores_listings:
  assumes "ledger_ok d0" and "history_le d0 s0" and "batch_above s0 th cxs"
    and "process_nft_operations p2sh d0 cxs diff = Inr (diff1, d1)" and "\<forall>cx \<in> set cxs. no_send (cx_operation cx)"
  shows "\<exists>diff2 d2. remove_from_score d1 th = Inr (diff2, d2) \<and> listing_state d2 = listing_state d0"
proof -
  from removal_of_batch [OF assms(1-4)] obtain ops diff2 da d2 where
    r: "remove_affected_operations d1 th = Inr (diff2, da)" "remove_from_score d1 th = Inr (diff2, d2)"
      "listing_state d2 = listing_state (remove_affected_listings da th)"
      "part_entries (operation_history d1) = part_entries (operation_history d0) @ ops"
      "part_range (Included th) Unbounded (operation_history d1) = ops" by blast
  have b: "s0 < th" "sorted_wrt (<) (s0 # map cx_tx_score cxs)"
    "\<forall>cx \<in> set cxs. op_valid (cx_operation cx) \<and> tick_MIN \<le> oc_tick (op_common (cx_operation cx))"
    "\<forall>cx \<in> set cxs. th \<le> cx_tx_score cx"
    using assms(3) by (simp_all add: batch_above_def)
  obtain ops' where a: "adds_listings th d0 d1" "part_entries (operation_history d1) = part_entries (operation_history d0) @ ops'"
    "\<forall>x \<in> set ops'. no_send (co_operation (snd x))"
    using process_nft_operations_listings [OF assms(1,2) b(2-4) assms(5,4)] by blast
  have l1: "ledger_ok d1"
    using process_nft_operations_ok [OF assms(1) _ b(2), of p2sh diff] b(3) assms(2,4) by (auto simp: history_le_def)
  have "\<forall>x \<in> set ops. part_get (operation_history d1) (fst x) = Some (snd x)"
    using r(4) by (auto simp flip: in_entries_iff)
  moreover have "distinct (map fst ops)"
    using al_sorted_distinct [OF part_entries_sorted, of "operation_history d1"] by (simp add: r(4))
  moreover have "\<forall>x \<in> set ops. no_send (co_operation (snd x))" using a(2,3) r(4) by simp
  ultimately have da: "listing_state da = listing_state d1"
    using remove_operations_loop_listings r(1) unfolding remove_affected_operations_def r(5) by blast
  have "listing_state (remove_affected_listings d1 th) = listing_state d0"
  proof (rule remove_affected_listings_exact [OF listing_index_ledger [OF assms(1)] listing_index_ledger [OF l1]])
    fix k lv
    note ak = a(1) [unfolded adds_listings_def, rule_format, of k]
    show "lv_op_score lv < th \<and> part_get (listings d1) k = Some lv" if "part_get (listings d0) k = Some lv"
    proof -
      have "lv_op_score lv \<le> s0" using that assms(2) unfolding history_le_def scores_le_def by blast
      then show ?thesis using that ak b(1) by simp
    qed
    show "th \<le> lv_op_score lv" if "part_get (listings d1) k = Some lv" "part_get (listings d0) k = None"
      using that ak by simp
  qed
  then show ?thesis using r(2,3) remove_affected_listings_cong [OF da] by metis
qed

theorem removal_restores_listings_witness:
  "\<exists>diff1 d1 diff2 d2. process_nft_operations (\<lambda>_. spk_A) db_empty [cx_deploy, cx_mint] stats_default = Inr (diff1, d1) \<and>
     remove_from_score d1 5 = Inr (diff2, d2) \<and> listing_state d2 = listing_state db_empty"
proof -
  obtain diff1 d1 where r: "process_nft_operations (\<lambda>_. spk_A) db_empty [cx_deploy, cx_mint] stats_default = Inr (diff1, d1)"
    using sample_batch_runs by blast
  have "\<forall>cx \<in> set [cx_deploy, cx_mint]. no_send (cx_operation cx)" by (simp add: no_send_def cx_deploy_def cx_mint_def)
  from removal_restores_listings [OF ledger_ok_empty history_le_empty batch_above_sample r this] r show ?thesis by blast
qed

end
