(* ===== verification/NotificationQueue.thy ===== *)
theory NotificationQueue
  imports ReorgProperties
begin

text \<open>
  The notification queue of \<^verbatim>\<open>nexus/src/processor.rs\<close>: while the indexer replays history, the
  notifications of the node are stored under consecutive keys; the application of the queue removes
  and processes them in that order. The chain changes neither read nor write the queue, so the
  application amounts to processing the stored notifications one after the other.
\<close>

section \<open>Operations\<close>

definition key_or_default :: "u64 option \<Rightarrow> u64" where
  "key_or_default k = (case k of Some x \<Rightarrow> x | None \<Rightarrow> 0)"

definition process_queue :: "virtual_chain_changes \<Rightarrow> db \<Rightarrow> db" where
  "process_queue vcc d =
     (let next_key = key_or_default (part_last_key (notification_queue d)) + 1 in
      d\<lparr>notification_queue := part_insert next_key vcc (notification_queue d)\<rparr>)"

text \<open>The loop over the inclusive range of keys.\<close>

fun queue_loop :: "u64 \<Rightarrow> (bytes \<Rightarrow> spk) \<Rightarrow> u64 list \<Rightarrow> db \<Rightarrow> db res" where
  "queue_loop msl p2sh [] d = Inr d"
| "queue_loop msl p2sh (i # is) d =
     (let (old, q) = part_remove_if_exists i (notification_queue d) in
      and_then (expect ''unwrap on None'' old) (\<lambda>vcc.
        and_then (process_chain_changes_wtx msl p2sh vcc (d\<lparr>notification_queue := q\<rparr>)) (queue_loop msl p2sh is)))"

definition inclusive :: "u64 \<Rightarrow> u64 \<Rightarrow> u64 list" where
  "inclusive a b = map word_of_nat [unat a ..< unat b + 1]"

text \<open>What the function returned and the database afterwards: an error drops the transaction.\<close>

definition process_queue_application :: "u64 \<Rightarrow> (bytes \<Rightarrow> spk) \<Rightarrow> db \<Rightarrow> unit res \<times> db" where
  "process_queue_application msl p2sh d =
     (let first_key = key_or_default (part_first_key (notification_queue d));
          last_key = key_or_default (part_last_key (notification_queue d)) in
      if first_key * last_key = 0 then (Inr (), d)
      else (case queue_loop msl p2sh (inclusive first_key last_key) d of
              Inl e \<Rightarrow> (Inl e, d)
            | Inr d' \<Rightarrow> (Inr (), d')))"

section \<open>Chain changes are independent of the queue\<close>

abbreviation with_queue :: "(u64, virtual_chain_changes) part \<Rightarrow> db \<Rightarrow> db" where
  "with_queue q d \<equiv> d\<lparr>notification_queue := q\<rparr>"

abbreviation on_inr :: "('a \<Rightarrow> 'b) \<Rightarrow> 'e + 'a \<Rightarrow> 'e + 'b" where
  "on_inr f m \<equiv> and_then m (\<lambda>x. Inr (f x))"

abbreviation queued_res :: "(u64, virtual_chain_changes) part \<Rightarrow> ('a \<times> db) res \<Rightarrow> ('a \<times> db) res" where
  "queued_res q \<equiv> on_inr (apsnd (with_queue q))"

lemma queue_last:
  "with_queue q d\<lparr>blockhash_to_score := x1\<rparr> = with_queue q (d\<lparr>blockhash_to_score := x1\<rparr>)"
  "with_queue q d\<lparr>chain_block_scores := x2\<rparr> = with_queue q (d\<lparr>chain_block_scores := x2\<rparr>)"
  "with_queue q d\<lparr>operation_history := x3\<rparr> = with_queue q (d\<lparr>operation_history := x3\<rparr>)"
  "with_queue q d\<lparr>tx_id_to_opscore := x4\<rparr> = with_queue q (d\<lparr>tx_id_to_opscore := x4\<rparr>)"
  "with_queue q d\<lparr>collection_deployments := x5\<rparr> = with_queue q (d\<lparr>collection_deployments := x5\<rparr>)"
  "with_queue q d\<lparr>collection_registry := x6\<rparr> = with_queue q (d\<lparr>collection_registry := x6\<rparr>)"
  "with_queue q d\<lparr>mint_history := x7\<rparr> = with_queue q (d\<lparr>mint_history := x7\<rparr>)"
  "with_queue q d\<lparr>ownership_changes := x8\<rparr> = with_queue q (d\<lparr>ownership_changes := x8\<rparr>)"
  "with_queue q d\<lparr>ownership_history := x9\<rparr> = with_queue q (d\<lparr>ownership_history := x9\<rparr>)"
  "with_queue q d\<lparr>current_ownership := x10\<rparr> = with_queue q (d\<lparr>current_ownership := x10\<rparr>)"
  "with_queue q d\<lparr>available_ranges := x11\<rparr> = with_queue q (d\<lparr>available_ranges := x11\<rparr>)"
  "with_queue q d\<lparr>range_lengths := x12\<rparr> = with_queue q (d\<lparr>range_lengths := x12\<rparr>)"
  "with_queue q d\<lparr>token_id_meta := x13\<rparr> = with_queue q (d\<lparr>token_id_meta := x13\<rparr>)"
  "with_queue q d\<lparr>address_holdings := x14\<rparr> = with_queue q (d\<lparr>address_holdings := x14\<rparr>)"
  "with_queue q d\<lparr>db_stats := x15\<rparr> = with_queue q (d\<lparr>db_stats := x15\<rparr>)"
  "with_queue q d\<lparr>score_to_discount := x16\<rparr> = with_queue q (d\<lparr>score_to_discount := x16\<rparr>)"
  "with_queue q d\<lparr>vip := x17\<rparr> = with_queue q (d\<lparr>vip := x17\<rparr>)"
  "with_queue q d\<lparr>listings := x18\<rparr> = with_queue q (d\<lparr>listings := x18\<rparr>)"
  "with_queue q d\<lparr>listings_by_tick := x19\<rparr> = with_queue q (d\<lparr>listings_by_tick := x19\<rparr>)"
  "with_queue q d\<lparr>address_listings := x20\<rparr> = with_queue q (d\<lparr>address_listings := x20\<rparr>)"
  by simp_all

lemma and_then_cong_right: "(\<And>x. m = Inr x \<Longrightarrow> f x = g x) \<Longrightarrow> and_then m f = and_then m g"
  by (cases m) simp_all

lemmas map_outcome = queue_last and_then_assoc prod.case_distrib [of "\<lambda>m. and_then m g" for g]
  option.case_distrib [of "\<lambda>m. and_then m g" for g] sum.case_distrib [of "\<lambda>m. and_then m g" for g]
  if_distrib [of "\<lambda>m. and_then m g" for g]

lemma remove_range_queue:
  "remove_range (with_queue q d) t ri v st sz n b = on_inr (apfst (with_queue q)) (remove_range d t ri v st sz n b)"
  by (auto simp: remove_range_def Let_def map_outcome intro!: and_then_cong_right)

lemma shrink_range_queue: "shrink_range (with_queue q d) t ri st sz v s b = with_queue q (shrink_range d t ri st sz v s b)"
  by (simp add: shrink_range_def Let_def)

lemma split_range_queue: "split_range (with_queue q d) t ri v st sz off n b = apfst (with_queue q) (split_range d t ri v st sz off n b)"
  by (simp add: split_range_def Let_def)

lemma take_value_queue:
  "take_value (with_queue q d) t ri v st sz n b = on_inr (with_queue q) (take_value d t ri v st sz n b)"
  by (auto simp: take_value_def Let_def map_outcome remove_range_queue shrink_range_queue split_range_queue
      intro!: and_then_cong_right)

lemma generate_token_id_queue:
  "generate_token_id (with_queue q d) t e mx pm = queued_res q (generate_token_id d t e mx pm)"
  by (auto simp: generate_token_id_def Let_def map_outcome take_value_queue intro!: and_then_cong_right)

lemma process_mint_queue:
  "process_mint (with_queue q d) e s c i b = queued_res q (process_mint d e s c i b)"
  by (auto simp: process_mint_def Let_def map_outcome generate_token_id_queue check_royalty_def record_mint_def
      intro!: and_then_cong_right split: option.split)

lemma premint_loop_queue: "premint_loop n (with_queue q d) s c i = queued_res q (premint_loop n d s c i)"
  by (induction n arbitrary: d)
    (auto simp: map_outcome process_mint_queue intro!: and_then_cong_right split: sum.split)

lemma process_deployment_queue: "process_deployment (with_queue q d) s c i = queued_res q (process_deployment d s c i)"
  by (auto simp: process_deployment_def Let_def map_outcome premint_loop_queue split: option.split)

lemma process_transfer_queue: "process_transfer (with_queue q d) s c i = queued_res q (process_transfer d s c i)"
  by (auto simp: process_transfer_def Let_def move_ownership_def split: option.split)

lemma process_discount_queue: "process_discount (with_queue q d) s c i = queued_res q (process_discount d s c i)"
  by (auto simp: process_discount_def Let_def split: option.split)

lemma process_list_queue: "process_list p2sh (with_queue q d) s c i = queued_res q (process_list p2sh d s c i)"
  by (auto simp: process_list_def Let_def insert_listing_def split: option.split)

lemma process_send_queue: "process_send (with_queue q d) s c i = queued_res q (process_send d s c i)"
  by (auto simp: process_send_def Let_def remove_listing_def move_ownership_def split: option.split)

lemmas handlers_queue = process_mint_queue process_deployment_queue process_transfer_queue
  process_discount_queue process_list_queue process_send_queue

lemma apply_operation_queue:
  "apply_operation p2sh (with_queue q d) e s op diff =
   on_inr (apsnd (apsnd (apsnd (with_queue q)))) (apply_operation p2sh d e s op diff)"
  by (auto simp: apply_operation_def Let_def map_outcome handlers_queue
      intro!: and_then_cong_right split: operation_info.split sum.split)

lemma process_nft_operations_queue:
  "process_nft_operations p2sh (with_queue q d) cxs diff = queued_res q (process_nft_operations p2sh d cxs diff)"
  by (induction cxs arbitrary: d diff)
    (auto simp: map_outcome apply_operation_queue record_operation_def intro!: and_then_cong_right)

lemma add_mergeset_queue:
  "add_mergeset msl p2sh b (with_queue q d) m diff = queued_res q (add_mergeset msl p2sh b d m diff)"
  by (auto simp: add_mergeset_def scored_operations_def Let_def map_outcome process_nft_operations_queue
      intro!: and_then_cong_right split: prod.split)

lemma process_additions_queue:
  "process_additions msl p2sh (with_queue q d) ms = queued_res q (process_additions msl p2sh d ms)"
proof -
  have "add_mergesets msl p2sh b (with_queue q d) ms diff = queued_res q (add_mergesets msl p2sh b d ms diff)" for b diff
    by (induction ms arbitrary: d diff) (auto simp: map_outcome add_mergeset_queue intro!: and_then_cong_right)
  then show ?thesis by (simp add: process_additions_def Let_def)
qed

lemma fold_queue:
  "(\<And>x d. f x (with_queue q d) = with_queue q (f x d)) \<Longrightarrow> fold f xs (with_queue q d) = with_queue q (fold f xs d)"
  by (induction xs arbitrary: d) simp_all

lemma removed_blocks_loop_queue:
  "removed_blocks_loop bs m f (with_queue q d) = apsnd (apsnd (with_queue q)) (removed_blocks_loop bs m f d)"
  by (induction bs arbitrary: m f d) (auto simp: lookup_removed_block_score_def queue_last split: option.split)

lemma identify_queue:
  "identify_reorg_blocks_and_delete (with_queue q d) bs forced =
   apsnd (with_queue q) (identify_reorg_blocks_and_delete d bs forced)"
proof -
  have r: "remove_chain_state_from_blue_score (with_queue q d) s = with_queue q (remove_chain_state_from_blue_score d s)" for d s
    unfolding remove_chain_state_from_blue_score_def by (subst fold_queue) simp_all
  show ?thesis
    by (auto simp: identify_reorg_blocks_and_delete_def Let_def removed_blocks_loop_queue r split: prod.split option.split)
qed

lemma remove_operations_loop_queue:
  "remove_operations_loop ops diff (with_queue q d) = queued_res q (remove_operations_loop ops diff d)"
proof (induction ops arbitrary: diff d)
  case (Cons x ops)
  have r: "restore_listing_for_reorged_send (with_queue q d) c i = with_queue q (restore_listing_for_reorged_send d c i)" for d c i
    by (auto simp: restore_listing_for_reorged_send_def insert_listing_def queue_last
        split: option.split operation_info.split)
  show ?case
    by (cases x) (auto simp: Let_def part_remove_if_exists_def map_outcome Cons.IH r
        intro!: and_then_cong_right split: operation_info.split)
qed simp

lemma remove_affected_deployments_queue:
  "remove_affected_deployments (with_queue q d) s = apsnd (with_queue q) (remove_affected_deployments d s)"
proof -
  have "remove_deployments_loop ks p (with_queue q d) = apsnd (with_queue q) (remove_deployments_loop ks p d)" for ks p d
    by (induction ks arbitrary: p d) (simp_all add: Let_def part_remove_if_exists_def queue_last)
  then show ?thesis by (simp add: remove_affected_deployments_def)
qed

lemma remove_discounts_queue: "remove_discounts (with_queue q d) s = with_queue q (remove_discounts d s)"
  unfolding remove_discounts_def by (subst fold_queue) (simp_all add: queue_last case_prod_beta)

lemma remove_affected_listings_queue: "remove_affected_listings (with_queue q d) s = with_queue q (remove_affected_listings d s)"
  unfolding remove_affected_listings_def by (subst fold_queue) (simp_all add: remove_listing_def case_prod_beta)

lemma rollback_token_generation_queue:
  "rollback_token_generation (with_queue q d) t v = on_inr (with_queue q) (rollback_token_generation d t v)"
proof -
  have a: "revert_removed_range (with_queue q d) t pre n = on_inr (apfst (with_queue q)) (revert_removed_range d t pre n)" for d pre n
    by (auto simp: revert_removed_range_def Let_def map_outcome intro!: and_then_cong_right)
  have b: "restore_range_maybe_split (with_queue q d) t pre n = apfst (with_queue q) (restore_range_maybe_split d t pre n)" for d pre n
    by (simp add: restore_range_maybe_split_def Let_def)
  show ?thesis
    by (auto simp: rollback_token_generation_def Let_def map_outcome a b intro!: and_then_cong_right split: prod.split)
qed

lemma undo_changes_queue: "undo_changes premints ks (with_queue q d) = queued_res q (undo_changes premints ks d)"
proof (induction ks arbitrary: d)
  case (Cons k ks)
  have u: "undo_change premints k (with_queue q d) = queued_res q (undo_change premints k d)" for d
    by (auto simp: undo_change_def part_remove_if_exists_def Let_def map_outcome rollback_token_generation_queue
        intro!: and_then_cong_right split: option.split)
  show ?case by (auto simp: u Cons.IH map_outcome intro!: and_then_cong_right)
qed simp

lemma reconstruct_token_ownership_queue:
  "reconstruct_token_ownership (with_queue q d) s p = on_inr (with_queue q) (reconstruct_token_ownership d s p)"
proof -
  have a: "remove_ownership_records ks (with_queue q d) = with_queue q (remove_ownership_records ks d)" for ks d
    unfolding remove_ownership_records_def by (subst fold_queue) (simp_all add: queue_last)
  have "rebuild_token x (with_queue q d) = with_queue q (rebuild_token x d)" for x d
    by (auto simp: rebuild_token_def Let_def queue_last split: prod.split option.split)
  then have b: "rebuild_ownership_state xs (with_queue q d) = with_queue q (rebuild_ownership_state xs d)" for xs d
    unfolding rebuild_ownership_state_def by (rule fold_queue)
  show ?thesis
    by (auto simp: reconstruct_token_ownership_def get_affected_token_operations_def undo_changes_queue a b map_outcome
        intro!: and_then_cong_right split: prod.split)
qed

lemma process_removal_queue:
  "process_removal msl (with_queue q d) bs forced = queued_res q (process_removal msl d bs forced)"
proof -
  have "remove_from_score (with_queue q d) th = queued_res q (remove_from_score d th)" for d th
    by (auto simp: remove_from_score_def remove_affected_operations_def remove_operations_loop_queue Let_def
        remove_affected_deployments_queue remove_discounts_queue remove_affected_listings_queue
        reconstruct_token_ownership_queue map_outcome intro!: and_then_cong_right split: prod.split)
  then show ?thesis by (auto simp: process_removal_def identify_queue split: prod.split option.split)
qed

lemma chain_changes_ignore_queue:
  "process_chain_changes_wtx msl p2sh vcc (with_queue q d) =
   on_inr (with_queue q) (process_chain_changes_wtx msl p2sh vcc d)"
  by (auto simp: process_chain_changes_wtx_def map_outcome process_removal_queue process_additions_queue
      intro!: and_then_cong_right split: prod.split)

lemma chain_changes_keep_queue:
  assumes "process_chain_changes_wtx msl p2sh vcc d = Inr d'"
  shows "notification_queue d' = notification_queue d"
proof -
  have "Inr d' = on_inr (with_queue (notification_queue d)) (process_chain_changes_wtx msl p2sh vcc d)"
    using chain_changes_ignore_queue [of msl p2sh vcc "notification_queue d" d] assms by simp
  then have "d' = with_queue (notification_queue d) d'" using assms by simp
  then show ?thesis by (metis db.select_convs(16) db.surjective db.update_convs(16))
qed

section \<open>Keys without gaps\<close>

definition queued :: "db \<Rightarrow> (u64 \<times> virtual_chain_changes) list" where
  "queued d = part_entries (notification_queue d)"

text \<open>The queue has the keys from one on, without gaps: what the application of the queue relies on.\<close>

definition queue_ok :: "db \<Rightarrow> bool" where
  "queue_ok d = (map fst (queued d) = map word_of_nat [1..<length (queued d) + 1])"

text \<open>The specification: the chain changes one after the other, up to the first that fails.\<close>

fun chain_changes_in_order :: "u64 \<Rightarrow> (bytes \<Rightarrow> spk) \<Rightarrow> virtual_chain_changes list \<Rightarrow> db \<Rightarrow> db res" where
  "chain_changes_in_order msl p2sh [] d = Inr d"
| "chain_changes_in_order msl p2sh (v # vs) d =
     and_then (process_chain_changes_wtx msl p2sh v d) (chain_changes_in_order msl p2sh vs)"

lemma queue_ok_nth:
  assumes "queue_ok d" "i < length (queued d)"
  shows "fst (queued d ! i) = word_of_nat (i + 1)"
proof -
  have "fst (queued d ! i) = map word_of_nat [1..<length (queued d) + 1] ! i"
    using assms by (metis nth_map queue_ok_def)
  then show ?thesis using assms(2) by (simp del: upt_Suc)
qed

lemma queue_ok_length:
  assumes "queue_ok d"
  shows "length (queued d) < 2 ^ 64"
proof (rule ccontr)
  define N :: nat where "N = 2 ^ 64 - 1"
  have N: "0 < N" "N + 1 = 2 ^ 64" "(word_of_nat (N + 1) :: u64) = 0" by (simp_all add: N_def)
  assume "\<not> length (queued d) < 2 ^ 64"
  then have l: "N < length (queued d)" "0 < length (queued d)" using N by linarith+
  have "sorted_wrt (<) (map fst (queued d))" using part_entries_sorted by (simp add: queued_def)
  then have "map fst (queued d) ! 0 < map fst (queued d) ! N"
    using l(1) N(1) by (simp only: sorted_wrt_iff_nth_less length_map)
  then have "fst (queued d ! 0) < fst (queued d ! N)" using l by simp
  then show False using queue_ok_nth [OF assms l(1)] N(3) by simp
qed

lemma queue_ok_ends:
  assumes "queue_ok d" "queued d \<noteq> []"
  shows "part_first_key (notification_queue d) = Some 1"
    and "part_last_key (notification_queue d) = Some (word_of_nat (length (queued d)))"
proof -
  have "fst (hd (queued d)) = 1"
    using queue_ok_nth [OF assms(1), of 0] assms(2) by (simp add: hd_conv_nth)
  then show "part_first_key (notification_queue d) = Some 1"
    using assms(2) by (cases "queued d") (auto simp: part_first_key_def queued_def)
  have "fst (last (queued d)) = word_of_nat (length (queued d))"
    using queue_ok_nth [OF assms(1), of "length (queued d) - 1"] assms(2) by (simp add: last_conv_nth)
  then show "part_last_key (notification_queue d) = Some (word_of_nat (length (queued d)))"
    using assms(2) by (simp add: part_last_key_def queued_def)
qed

lemma queue_ok_next_key:
  "queue_ok d \<Longrightarrow> key_or_default (part_last_key (notification_queue d)) = word_of_nat (length (queued d))"
  by (cases "queued d = []") (auto simp: key_or_default_def queue_ok_ends, simp add: part_last_key_def queued_def)

lemma process_queue_appends:
  assumes "queue_ok d" "length (queued d) + 1 < 2 ^ 64"
  shows "queued (process_queue vcc d) = queued d @ [(word_of_nat (length (queued d) + 1), vcc)]"
    and "queue_ok (process_queue vcc d)"
proof -
  let ?n = "length (queued d)"
  have "fst x < word_of_nat (?n + 1)" if x: "x \<in> set (queued d)" for x
  proof -
    obtain i where i: "i < ?n" "x = queued d ! i" using x by (metis in_set_conv_nth)
    have "unat (word_of_nat (i + 1) :: u64) < unat (word_of_nat (?n + 1) :: u64)"
      using i(1) assms(2) by (simp only: unat_u64_of_nat)
    then show ?thesis using queue_ok_nth [OF assms(1) i(1)] i(2) by (simp add: word_less_nat_alt)
  qed
  then have "a < word_of_nat (?n + 1)" if "a \<in> set (map fst (queued d))" for a using that by auto
  from al_upd_last [OF this, where v = vcc]
  show q: "queued (process_queue vcc d) = queued d @ [(word_of_nat (?n + 1), vcc)]"
    by (simp add: process_queue_def queue_ok_next_key [OF assms(1)] queued_def part_entries_simps add.commute)
  show "queue_ok (process_queue vcc d)" using assms(1) by (simp add: queue_ok_def q)
qed

lemma fold_process_queue:
  "queue_ok d \<Longrightarrow> length (queued d) + length vs < 2 ^ 64 \<Longrightarrow>
   queue_ok (fold process_queue vs d) \<and> map snd (queued (fold process_queue vs d)) = map snd (queued d) @ vs"
proof (induction vs arbitrary: d)
  case (Cons v vs)
  then show ?case using process_queue_appends [of d v] Cons.IH [of "process_queue v d"] by simp
qed simp

lemma fold_process_queue_only: "with_queue q (fold process_queue vs d) = with_queue q d"
  by (induction vs arbitrary: d) (simp_all add: process_queue_def Let_def)

lemma chain_changes_in_order_queue:
  "chain_changes_in_order msl p2sh vs (with_queue q d) = on_inr (with_queue q) (chain_changes_in_order msl p2sh vs d)"
  by (induction vs arbitrary: d) (simp_all add: chain_changes_ignore_queue and_then_assoc)

lemma queue_loop_in_order:
  "part_entries (notification_queue d) = es \<Longrightarrow>
   queue_loop msl p2sh (map fst es) d = chain_changes_in_order msl p2sh (map snd es) (with_queue part_empty d)"
proof (induction es arbitrary: d)
  case Nil
  then have "notification_queue d = part_empty" by (metis part_entries_inject part_entries_simps(1))
  then show ?case by simp
next
  case (Cons e es)
  obtain k v where e: "e = (k, v)" by fastforce
  let ?q = "part_remove k (notification_queue d)"
  have g: "part_get (notification_queue d) k = Some v" and q: "part_entries ?q = es"
    using Cons.prems by (simp_all add: e part_get_def part_entries_simps)
  have "queue_loop msl p2sh (map fst es) (with_queue ?q d1) =
      chain_changes_in_order msl p2sh (map snd es) (with_queue part_empty d1)" for d1
    using Cons.IH [of "with_queue ?q d1"] q by simp
  then show ?case by (simp add: e g part_remove_if_exists_def chain_changes_ignore_queue and_then_assoc)
qed

lemma inclusive_keys: "n < 2 ^ 64 \<Longrightarrow> inclusive 1 (word_of_nat n) = map word_of_nat [1..<n + 1]"
  by (simp add: inclusive_def unat_u64_of_nat del: upt_Suc)

lemma queue_application_in_order:
  assumes "queue_ok d"
  shows "process_queue_application msl p2sh d =
    (case chain_changes_in_order msl p2sh (map snd (queued d)) (with_queue part_empty d) of
       Inl e \<Rightarrow> (Inl e, d) | Inr d' \<Rightarrow> (Inr (), d'))"
proof (cases "queued d = []")
  case True
  then have "notification_queue d = part_empty" by (metis part_entries_inject part_entries_simps(1) queued_def)
  then show ?thesis using True
    by (simp add: process_queue_application_def part_first_key_def part_entries_simps key_or_default_def)
next
  case False
  let ?n = "length (queued d)"
  have n: "(word_of_nat ?n :: u64) \<noteq> 0"
    using unat_u64_of_nat [OF queue_ok_length [OF assms]] False by fastforce
  have "inclusive 1 (word_of_nat ?n) = map fst (queued d)"
    using inclusive_keys queue_ok_length [OF assms] assms by (simp add: queue_ok_def)
  then show ?thesis
    using n queue_loop_in_order [OF queued_def [symmetric]]
    by (simp add: process_queue_application_def queue_ok_ends [OF assms False] key_or_default_def)
qed

text \<open>C19: Storing notifications in the queue and applying it later has the outcome of processing the
  notifications directly, in the order of their arrival: the keys have no gap, so the application never
  meets a missing entry, every notification is processed once, and the queue is empty afterwards; when one
  of them fails, the database and the queue stay as they were.\<close>

theorem queue_application_equals_direct_processing:
  assumes "notification_queue d = part_empty" "length vs < 2 ^ 64"
  shows "process_queue_application msl p2sh (fold process_queue vs d) =
    (case chain_changes_in_order msl p2sh vs d of
       Inl e \<Rightarrow> (Inl e, fold process_queue vs d) | Inr d' \<Rightarrow> (Inr (), d'))"
proof -
  have "queue_ok d" "queued d = []" using assms(1) by (simp_all add: queue_ok_def queued_def part_entries_simps)
  then have q: "queue_ok (fold process_queue vs d)" "map snd (queued (fold process_queue vs d)) = vs"
    using fold_process_queue [of d vs] assms(2) by simp_all
  have "with_queue part_empty d = d" using assms(1) by simp
  then show ?thesis using queue_application_in_order [OF q(1)] q(2) by (simp add: fold_process_queue_only)
qed

definition vcc_A :: virtual_chain_changes where
  "vcc_A = \<lparr>removed_chain_block_hashes = [], forced_rollback_blue_score = None, mergesets = batch_A\<rparr>"

definition vcc_removal :: virtual_chain_changes where
  "vcc_removal = \<lparr>removed_chain_block_hashes = [7], forced_rollback_blue_score = Some 1, mergesets = []\<rparr>"

theorem queue_application_equals_direct_processing_witness:
  "process_queue_application 248 (\<lambda>_. spk_A) (fold process_queue [vcc_A, vcc_removal] db_empty) =
    (case chain_changes_in_order 248 (\<lambda>_. spk_A) [vcc_A, vcc_removal] db_empty of
       Inl e \<Rightarrow> (Inl e, fold process_queue [vcc_A, vcc_removal] db_empty) | Inr d' \<Rightarrow> (Inr (), d'))"
  by (rule queue_application_equals_direct_processing) (simp_all add: db_empty_def)

end
