(* ===== verification/ChainBlocks.thy ===== *)
theory ChainBlocks
  imports NotificationQueue
begin

text \<open>
  The record of accepted chain blocks (\<^verbatim>\<open>chain_block_scores\<close> and its index \<^verbatim>\<open>blockhash_to_score\<close>) under a
  chain change: only the identification of the removed blocks and the head of a merge set touch it,
  so that its content after a change is determined by the change alone.
\<close>

section \<open>The operations leave the chain blocks alone\<close>

definition chain_state :: "db \<Rightarrow> (blue_hash_key, unit) part \<times> (hash, u64) part" where
  "chain_state d = (chain_block_scores d, blockhash_to_score d)"

lemma only_tokens_chain: "only_tokens d d' \<Longrightarrow> chain_state d' = chain_state d"
  by (simp add: only_tokens_fields chain_state_def)

lemma chain_handlers:
  "process_mint d e s c mi b = Inr (r, d') \<Longrightarrow> chain_state d' = chain_state d"
  "process_deployment d s c di = Inr (r', d') \<Longrightarrow> chain_state d' = chain_state d"
  "process_transfer d s c ti = Inr (r', d') \<Longrightarrow> chain_state d' = chain_state d"
  "process_discount d s c dc = Inr (r', d') \<Longrightarrow> chain_state d' = chain_state d"
  "process_list p2sh d s c li = Inr (r', d') \<Longrightarrow> chain_state d' = chain_state d"
  "process_send d s c si = Inr (r', d') \<Longrightarrow> chain_state d' = chain_state d"
  subgoal by (blast dest: only_tokens_mint only_tokens_chain)
  subgoal by (auto simp: process_deployment_def Let_def chain_state_def only_tokens_fields
      dest!: only_tokens_premint split: option.splits if_splits)
  subgoal by (auto simp: process_transfer_def Let_def chain_state_def move_ownership_def split: option.splits if_splits)
  subgoal by (auto simp: process_discount_def Let_def chain_state_def split: option.splits if_splits)
  subgoal by (auto simp: process_list_def Let_def chain_state_def insert_listing_def split: option.splits if_splits)
  subgoal by (auto simp: process_send_def Let_def chain_state_def move_ownership_def remove_listing_def split: option.splits if_splits)
  done

lemma apply_operation_chain:
  "apply_operation p2sh d e s op diff = Inr (err, op', diff', d') \<Longrightarrow> chain_state d' = chain_state d"
  by (auto simp: apply_operation_def Let_def and_then_Inr_iff split: operation_info.splits)
    (auto split: sum.splits dest: chain_handlers)

lemma process_nft_operations_chain:
  "process_nft_operations p2sh d cxs diff = Inr (diff', d') \<Longrightarrow> chain_state d' = chain_state d"
proof (induction cxs arbitrary: d diff)
  case (Cons cx cxs)
  then obtain err op diff1 d1 where a: "apply_operation p2sh d (cx_mergeset_entropy cx) (cx_tx_score cx) (cx_operation cx) diff = Inr (err, op, diff1, d1)"
    and r: "process_nft_operations p2sh (record_operation d1 (cx_tx_score cx) op err) cxs diff1 = Inr (diff', d')"
    by (auto simp: and_then_Inr_iff)
  have "chain_state (record_operation d1 s op err) = chain_state d1" for s by (simp add: record_operation_def chain_state_def)
  then show ?case using Cons.IH [OF r] apply_operation_chain [OF a] by simp
qed simp

section \<open>Added blocks\<close>

text \<open>Every indexed hash is an accepted block with the score of the index.\<close>

abbreviation chain_blocks :: "db \<Rightarrow> blue_hash_key set" where
  "chain_blocks d \<equiv> part_keys (chain_block_scores d)"

definition chain_index_ok :: "db \<Rightarrow> bool" where
  "chain_index_ok d \<longleftrightarrow>
     (\<forall>h s. part_get (blockhash_to_score d) h = Some s \<longrightarrow> BlueScoredChainBlockHash s h \<in> chain_blocks d)"

lemma chain_state_cong:
  assumes "chain_state d' = chain_state d"
  shows "chain_blocks d' = chain_blocks d" "chain_index_ok d' = chain_index_ok d"
  using assms by (simp_all add: chain_state_def chain_index_ok_def)

definition mergeset_block :: "mergeset \<Rightarrow> blue_hash_key" where
  "mergeset_block m = BlueScoredChainBlockHash (ms_blue_score m) (ms_accepted_chain_block_hash m)"

lemma part_keys_simps [simp]:
  "part_keys part_empty = {}" "part_keys (part_insert k v p) = insert k (part_keys p)"
  "part_keys (part_remove k p) = part_keys p - {k}"
  by (auto simp: part_keys_def)

lemma add_mergeset_blocks:
  assumes a: "add_mergeset msl p2sh b d m diff = Inr (diff', d')" and ok: "chain_index_ok d"
  shows "chain_blocks d' = chain_blocks d \<union> (if ms_blue_score m < b then {} else {mergeset_block m}) \<and> chain_index_ok d'"
proof -
  consider "ms_blue_score m < b" | "\<not> ms_blue_score m < b" "mergeset_block m \<in> chain_blocks d"
    | "\<not> ms_blue_score m < b" "mergeset_block m \<notin> chain_blocks d" by blast
  then show ?thesis
  proof cases
    case 1
    with a ok show ?thesis by (simp add: add_mergeset_def)
  next
    case 2
    then have "part_get (chain_block_scores d) (mergeset_block m) \<noteq> None" by (simp add: part_keys_def)
    then have "d' = d" using a 2(1)
      by (auto simp: add_mergeset_def part_insert_if_not_exist_simp Let_def mergeset_block_def [symmetric])
    with 2 ok show ?thesis by auto
  next
    case 3
    let ?d = "d\<lparr>chain_block_scores := part_insert (mergeset_block m) () (chain_block_scores d),
      blockhash_to_score := part_insert (ms_accepted_chain_block_hash m) (ms_blue_score m) (blockhash_to_score d)\<rparr>"
    from 3 have "part_get (chain_block_scores d) (mergeset_block m) = None" unfolding part_keys_def by blast
    with a 3(1) obtain cxs diff1 where "process_nft_operations p2sh ?d cxs stats_default = Inr (diff1, d')"
      by (auto simp: add_mergeset_def part_insert_if_not_exist_simp Let_def mergeset_block_def [symmetric] and_then_Inr_iff)
    then have c: "chain_state d' = chain_state ?d" by (rule process_nft_operations_chain)
    have "chain_index_ok ?d" using ok by (auto simp: chain_index_ok_def mergeset_block_def)
    with 3 chain_state_cong [OF c] show ?thesis by simp
  qed
qed

lemma add_mergesets_blocks:
  "add_mergesets msl p2sh b d ms diff = Inr (diff', d') \<Longrightarrow> chain_index_ok d \<Longrightarrow>
   chain_blocks d' = chain_blocks d \<union> mergeset_block ` {m \<in> set ms. b \<le> ms_blue_score m} \<and> chain_index_ok d'"
proof (induction ms arbitrary: d diff)
  case (Cons m ms)
  then obtain diff1 d1 where a: "add_mergeset msl p2sh b d m diff = Inr (diff1, d1)"
    and r: "add_mergesets msl p2sh b d1 ms diff1 = Inr (diff', d')"
    by (auto simp: and_then_Inr_iff)
  note h = add_mergeset_blocks [OF a Cons.prems(2)]
  with Cons.IH [OF r] show ?case by (auto simp: not_less)
qed simp

text \<open>The highest accepted blue score, zero without blocks.\<close>

definition tip_score :: "blue_hash_key set \<Rightarrow> u64" where
  "tip_score B = (if B = {} then 0 else Max (bh_blue_score ` B))"

lemma finite_part_keys [simp]: "finite (part_keys p)"
proof -
  have "part_keys p \<subseteq> fst ` set (part_entries p)" by (force simp: part_keys_def in_entries_iff [symmetric])
  then show ?thesis by (rule finite_subset) simp
qed

lemma last_accepted_tip:
  "(case last_accepted_block p of Some k \<Rightarrow> bh_blue_score k | None \<Rightarrow> 0) = tip_score (part_keys p)"
proof (cases "last_accepted_block p")
  case None
  then show ?thesis using part_last_key_None_iff [of p] by (simp add: last_accepted_block_def tip_score_def)
next
  case (Some k)
  note l = part_last_key_SomeD [OF Some [unfolded last_accepted_block_def]]
  have "bh_blue_score k' \<le> bh_blue_score k" if "k' \<in> part_keys p" for k'
    using l(2) [OF that] by (cases k; cases k') (auto simp: key_simps)
  then have "Max (bh_blue_score ` part_keys p) = bh_blue_score k" using l(1) by (intro Max_eqI) auto
  with l(1) Some show ?thesis by (auto simp: tip_score_def)
qed

lemma process_additions_blocks:
  assumes "process_additions msl p2sh d ms = Inr (diff, d')" "chain_index_ok d"
  shows "chain_blocks d' = chain_blocks d \<union> mergeset_block ` {m \<in> set ms. tip_score (chain_blocks d) \<le> ms_blue_score m} \<and>
    chain_index_ok d'"
  using add_mergesets_blocks [of msl p2sh _ d ms stats_default diff d'] assms
  by (simp add: process_additions_def Let_def last_accepted_tip)

section \<open>Removed blocks\<close>

lemma removed_blocks_loop_ok:
  "removed_blocks_loop bs m f d = (m', f', d') \<Longrightarrow>
   chain_blocks d' = chain_blocks d \<and> (chain_index_ok d \<longrightarrow> chain_index_ok d') \<and> m' \<le> m \<and> (f \<longrightarrow> f')"
proof (induction bs arbitrary: m f d)
  case (Cons b bs)
  show ?case
  proof (cases "lookup_removed_block_score d b")
    case None
    with Cons.prems have "removed_blocks_loop bs m f d = (m', f', d')" by simp
    then show ?thesis by (rule Cons.IH)
  next
    case (Some s)
    let ?d = "d\<lparr>blockhash_to_score := part_remove b (blockhash_to_score d)\<rparr>"
    have "removed_blocks_loop bs (min m s) True ?d = (m', f', d')" using Cons.prems Some by simp
    note ih = Cons.IH [OF this]
    have "chain_index_ok d \<longrightarrow> chain_index_ok ?d" by (simp add: chain_index_ok_def)
    with ih show ?thesis by auto
  qed
qed simp

lemma remove_chain_state_ok:
  "chain_blocks (remove_chain_state_from_blue_score d m) = {k \<in> chain_blocks d. bh_blue_score k < m}"
  "chain_index_ok d \<Longrightarrow> chain_index_ok (remove_chain_state_from_blue_score d m)"
proof -
  let ?f = "\<lambda>k d. d\<lparr>chain_block_scores := part_remove k (chain_block_scores d),
                   blockhash_to_score := part_remove (bh_block_hash k) (blockhash_to_score d)\<rparr>"
  have fold: "chain_blocks (fold ?f ks d) = chain_blocks d - set ks \<and>
      (\<forall>h. part_get (blockhash_to_score (fold ?f ks d)) h =
         (if h \<in> bh_block_hash ` set ks then None else part_get (blockhash_to_score d) h))" for ks d
    by (induction ks arbitrary: d) auto
  have range: "k \<in> set (part_range_keys (Included (BlueScoredChainBlockHash m 0)) Unbounded (chain_block_scores d)) \<longleftrightarrow>
      k \<in> chain_blocks d \<and> m \<le> bh_blue_score k" for k
    by (cases k) (auto simp: in_part_range_keys_iff key_simps)
  show "chain_blocks (remove_chain_state_from_blue_score d m) = {k \<in> chain_blocks d. bh_blue_score k < m}"
    unfolding remove_chain_state_from_blue_score_def fold [THEN conjunct1] by (auto simp: range)
  show "chain_index_ok (remove_chain_state_from_blue_score d m)" if "chain_index_ok d"
    using that unfolding chain_index_ok_def remove_chain_state_from_blue_score_def fold [THEN conjunct1]
      fold [THEN conjunct2, rule_format] by (force split: if_splits)
qed

lemma fold_chain: "(\<And>x d. x \<in> set xs \<Longrightarrow> chain_state (f x d) = chain_state d) \<Longrightarrow> chain_state (fold f xs d) = chain_state d"
  by (induction xs arbitrary: d) auto

lemma remove_operations_loop_chain:
  "remove_operations_loop ops diff d = Inr (diff', d') \<Longrightarrow> chain_state d' = chain_state d"
proof (induction ops arbitrary: diff d)
  case (Cons x ops)
  have r: "chain_state (restore_listing_for_reorged_send d c i) = chain_state d" for d c i
    by (auto simp: restore_listing_for_reorged_send_def insert_listing_def chain_state_def
        split: option.split operation_info.split)
  have u: "chain_state (d\<lparr>tx_id_to_opscore := y, operation_history := z\<rparr>) = chain_state d" for d y z
    by (simp add: chain_state_def)
  show ?case using Cons.prems
    by (cases x) (auto simp: Let_def part_remove_if_exists_def and_then_Inr_iff r u
        split: operation_info.splits if_splits dest!: Cons.IH)
qed simp

lemma remove_affected_deployments_chain:
  "remove_affected_deployments d s = (p, d') \<Longrightarrow> chain_state d' = chain_state d"
proof -
  have "remove_deployments_loop ks p d = (p', d') \<Longrightarrow> chain_state d' = chain_state d" for ks p p' d d'
  proof (induction ks arbitrary: p d)
    case (Cons k ks)
    have u: "chain_state (d\<lparr>collection_deployments := y, collection_registry := z\<rparr>) = chain_state d" for d y z
      by (simp add: chain_state_def)
    show ?case using Cons.prems by (auto simp: Let_def part_remove_if_exists_def u dest!: Cons.IH)
  qed simp
  then show "remove_affected_deployments d s = (p, d') \<Longrightarrow> chain_state d' = chain_state d"
    by (simp add: remove_affected_deployments_def)
qed

lemma rollback_token_generation_chain:
  assumes "rollback_token_generation d t v = Inr d'"
  shows "chain_state d' = chain_state d"
proof -
  obtain pre n d1 n1 where r: "(if pr_removed pre then revert_removed_range d t pre n
      else Inr (restore_range_maybe_split d t pre n)) = Inr (d1, n1)"
    and d': "(let d2 = d1\<lparr>token_id_meta := part_remove (TokenMetaKey t v) (token_id_meta d1)\<rparr> in
        if pr_is_initial pre then
          (let d3 = d2\<lparr>available_ranges := part_remove (RangeKey t (pr_range_index pre)) (available_ranges d2)\<rparr> in
           if n1 - 1 \<noteq> 0 then Inl (Panic ''assertion failed: ranges_len == 0'')
           else Inr (d3\<lparr>range_lengths := part_remove t (range_lengths d3)\<rparr>))
        else Inr d2) = Inr d'"
    using assms unfolding rollback_token_generation_def Let_def and_then_Inr_iff by auto
  have "chain_state d1 = chain_state d"
  proof (cases "pr_removed pre")
    case True
    with r show ?thesis
      by (auto simp: revert_removed_range_def chain_state_def and_then_Inr_iff split: if_split_asm)
  next
    case False
    with r show ?thesis by (simp add: restore_range_maybe_split_def Let_def chain_state_def split: if_split_asm) auto
  qed
  moreover have "chain_state d' = chain_state d1"
    using d' by (auto simp: Let_def chain_state_def split: if_split_asm)
  ultimately show ?thesis by simp
qed

lemma undo_changes_chain: "undo_changes premints ks d = Inr (xs, d') \<Longrightarrow> chain_state d' = chain_state d"
proof (induction ks arbitrary: d xs)
  case (Cons k ks)
  have u: "chain_state (d\<lparr>ownership_history := x, ownership_changes := y, mint_history := z\<rparr>) = chain_state d" for d x y z
    by (simp add: chain_state_def)
  have "undo_change premints k d = Inr (h, d1) \<Longrightarrow> chain_state d1 = chain_state d" for h d1
    unfolding undo_change_def part_remove_if_exists_def Let_def prod.case
    by (split if_split_asm, simp add: u) (auto simp: and_then_Inr_iff u split: if_split_asm dest: rollback_token_generation_chain)
  with Cons show ?case by (auto simp: and_then_Inr_iff)
qed simp

lemma reconstruct_token_ownership_chain:
  "reconstruct_token_ownership d s p = Inr d' \<Longrightarrow> chain_state d' = chain_state d"
proof -
  have a: "chain_state (remove_ownership_records ks d) = chain_state d" for ks d
    unfolding remove_ownership_records_def by (rule fold_chain) (simp add: chain_state_def)
  have b: "chain_state (rebuild_ownership_state xs d) = chain_state d" for xs d
    unfolding rebuild_ownership_state_def
    by (rule fold_chain) (auto simp: rebuild_token_def Let_def chain_state_def split: prod.split option.split)
  show "reconstruct_token_ownership d s p = Inr d' \<Longrightarrow> chain_state d' = chain_state d"
    by (auto simp: reconstruct_token_ownership_def get_affected_token_operations_def and_then_Inr_iff a b undo_changes_chain)
qed

lemma remove_from_score_chain: "remove_from_score d th = Inr (diff, d') \<Longrightarrow> chain_state d' = chain_state d"
proof -
  have di: "chain_state (remove_discounts d s) = chain_state d" for d s
    unfolding remove_discounts_def by (rule fold_chain) (simp add: chain_state_def case_prod_beta)
  have li: "chain_state (remove_affected_listings d s) = chain_state d" for d s
    unfolding remove_affected_listings_def by (rule fold_chain) (simp add: remove_listing_def chain_state_def case_prod_beta)
  assume "remove_from_score d th = Inr (diff, d')"
  then obtain diff1 d1 where o: "remove_affected_operations d th = Inr (diff1, d1)"
    and r: "(let (premints, d2) = remove_affected_deployments d1 th; d3 = remove_discounts d2 th; d4 = remove_affected_listings d3 th in
       and_then (reconstruct_token_ownership d4 th premints) (\<lambda>d5. Inr (diff1, d5))) = Inr (diff, d')"
    by (auto simp: remove_from_score_def and_then_Inr_iff)
  obtain p d2 where p: "remove_affected_deployments d1 th = (p, d2)" by (cases "remove_affected_deployments d1 th")
  have "reconstruct_token_ownership (remove_affected_listings (remove_discounts d2 th) th) th p = Inr d'"
    using r by (auto simp: p Let_def and_then_Inr_iff)
  from reconstruct_token_ownership_chain [OF this] remove_affected_deployments_chain [OF p]
    remove_operations_loop_chain [OF o [unfolded remove_affected_operations_def]]
  show ?thesis by (simp add: di li)
qed

text \<open>The blue score from which a change removes, if it does.\<close>

definition rollback_score :: "db \<Rightarrow> virtual_chain_changes \<Rightarrow> u64 option" where
  "rollback_score d vcc =
     fst (identify_reorg_blocks_and_delete d (removed_chain_block_hashes vcc) (forced_rollback_blue_score vcc))"

definition kept_blocks :: "db \<Rightarrow> virtual_chain_changes \<Rightarrow> blue_hash_key set" where
  "kept_blocks d vcc = {k \<in> chain_blocks d. \<forall>m. rollback_score d vcc = Some m \<longrightarrow> bh_blue_score k < m}"

lemma process_removal_blocks:
  assumes r: "process_removal msl d (removed_chain_block_hashes vcc) (forced_rollback_blue_score vcc) = Inr (diff, d')"
    and ok: "chain_index_ok d"
  shows "chain_blocks d' = kept_blocks d vcc \<and> chain_index_ok d'"
proof -
  obtain m1 f1 d1 where l: "removed_blocks_loop (removed_chain_block_hashes vcc) (- 1) False d = (m1, f1, d1)"
    by (cases "removed_blocks_loop (removed_chain_block_hashes vcc) (- 1) False d")
  note lo = removed_blocks_loop_ok [OF l]
  define m2 f2 where "m2 = (case forced_rollback_blue_score vcc of Some s \<Rightarrow> min m1 s | None \<Rightarrow> m1)"
    and "f2 = (case forced_rollback_blue_score vcc of Some s \<Rightarrow> True | None \<Rightarrow> f1)"
  have i: "identify_reorg_blocks_and_delete d (removed_chain_block_hashes vcc) (forced_rollback_blue_score vcc) =
      (if \<not> f2 then (None, d1) else (Some m2, remove_chain_state_from_blue_score d1 m2))"
    by (auto simp: identify_reorg_blocks_and_delete_def l m2_def f2_def split: option.split)
  show ?thesis
  proof (cases f2)
    case False
    with r i lo ok show ?thesis by (simp add: process_removal_def kept_blocks_def rollback_score_def)
  next
    case True
    then have "chain_state d' = chain_state (remove_chain_state_from_blue_score d1 m2)"
      using r by (auto simp: process_removal_def i dest: remove_from_score_chain)
    from chain_state_cong [OF this] remove_chain_state_ok [of d1 m2] lo ok True show ?thesis
      by (simp add: kept_blocks_def rollback_score_def i)
  qed
qed

lemma rollback_score_forced:
  assumes "forced_rollback_blue_score vcc = Some s"
  obtains m where "rollback_score d vcc = Some m" "m \<le> s"
proof -
  obtain m1 f1 d1 where l: "removed_blocks_loop (removed_chain_block_hashes vcc) (- 1) False d = (m1, f1, d1)"
    by (cases "removed_blocks_loop (removed_chain_block_hashes vcc) (- 1) False d")
  have "rollback_score d vcc = Some (min m1 s)"
    by (simp add: rollback_score_def identify_reorg_blocks_and_delete_def l assms)
  then show thesis by (rule that) simp
qed

lemma rollback_score_none: "removed_chain_block_hashes vcc = [] \<Longrightarrow> forced_rollback_blue_score vcc = None \<Longrightarrow> rollback_score d vcc = None"
  by (simp add: rollback_score_def identify_reorg_blocks_and_delete_def)

section \<open>A whole chain change\<close>

lemma chain_changes_blocks:
  assumes r: "process_chain_changes_wtx msl p2sh vcc d = Inr d'" and ok: "chain_index_ok d"
  shows "chain_index_ok d'"
    and "chain_blocks d' = kept_blocks d vcc \<union>
      mergeset_block ` {m \<in> set (mergesets vcc). tip_score (kept_blocks d vcc) \<le> ms_blue_score m}"
proof -
  have st: "chain_state (d\<lparr>db_stats := x\<rparr>) = chain_state d" for d x by (simp add: chain_state_def)
  obtain d1 where d1: "(if removed_chain_block_hashes vcc \<noteq> [] \<or> forced_rollback_blue_score vcc \<noteq> None
        then and_then (process_removal msl d (removed_chain_block_hashes vcc) (forced_rollback_blue_score vcc))
               (\<lambda>(diff, d1). Inr (d1\<lparr>db_stats := snd (stats_removal diff (db_stats d1))\<rparr>))
        else Inr d) = Inr d1"
    and a: "(if mergesets vcc \<noteq> []
              then and_then (process_additions msl p2sh d1 (mergesets vcc))
                     (\<lambda>(diff, d2). Inr (d2\<lparr>db_stats := snd (stats_addition diff (db_stats d2))\<rparr>))
              else Inr d1) = Inr d'"
    using r by (auto simp: process_chain_changes_wtx_def and_then_Inr_iff)
  have b1: "chain_blocks d1 = kept_blocks d vcc \<and> chain_index_ok d1"
  proof (cases "removed_chain_block_hashes vcc \<noteq> [] \<or> forced_rollback_blue_score vcc \<noteq> None")
    case True
    with d1 obtain diff d2 where "process_removal msl d (removed_chain_block_hashes vcc) (forced_rollback_blue_score vcc) = Inr (diff, d2)"
      "d1 = d2\<lparr>db_stats := snd (stats_removal diff (db_stats d2))\<rparr>"
      by (auto simp: and_then_Inr_iff)
    then show ?thesis using process_removal_blocks [OF _ ok] chain_state_cong [OF st] by auto
  next
    case False
    with d1 ok show ?thesis by (simp add: kept_blocks_def rollback_score_none)
  qed
  have "chain_blocks d' = chain_blocks d1 \<union> mergeset_block ` {m \<in> set (mergesets vcc). tip_score (chain_blocks d1) \<le> ms_blue_score m} \<and>
      chain_index_ok d'"
  proof (cases "mergesets vcc = []")
    case False
    with a obtain diff d2 where "process_additions msl p2sh d1 (mergesets vcc) = Inr (diff, d2)"
      "d' = d2\<lparr>db_stats := snd (stats_addition diff (db_stats d2))\<rparr>"
      by (auto simp: and_then_Inr_iff)
    then show ?thesis using process_additions_blocks [of msl p2sh d1 _ diff d2] b1 chain_state_cong [OF st] by auto
  qed (use a b1 in auto)
  with b1 show "chain_index_ok d'" "chain_blocks d' = kept_blocks d vcc \<union>
      mergeset_block ` {m \<in> set (mergesets vcc). tip_score (kept_blocks d vcc) \<le> ms_blue_score m}" by auto
qed

text \<open>C13: The accepted chain blocks after a chain change are those below the rollback score, which is the lowest known
  score of a removed block or the forced one, and the blocks of the new merge sets that do not lie below the highest
  kept block; the index from hashes to scores stays truthful.\<close>

theorem chain_blocks_after_a_change:
  assumes "process_chain_changes_wtx msl p2sh vcc d = Inr d'" and "chain_index_ok d"
  shows "chain_index_ok d' \<and> chain_blocks d' = kept_blocks d vcc \<union>
      mergeset_block ` {m \<in> set (mergesets vcc). tip_score (kept_blocks d vcc) \<le> ms_blue_score m}"
  using chain_changes_blocks [OF assms] by blast

definition db_two_blocks :: db where
  "db_two_blocks = db_empty\<lparr>
     chain_block_scores := part_insert (BlueScoredChainBlockHash 6 66) () (part_insert (BlueScoredChainBlockHash 1 11) () part_empty),
     blockhash_to_score := part_insert 66 6 (part_insert 11 1 part_empty)\<rparr>"

definition vcc_reorg :: virtual_chain_changes where
  "vcc_reorg = \<lparr>removed_chain_block_hashes = [66], forced_rollback_blue_score = None,
     mergesets = [\<lparr>ms_operations = [], ms_entropy = 0, ms_blue_score = 4, ms_accepted_chain_block_hash = 44\<rparr>]\<rparr>"

lemma db_two_blocks_index: "chain_index_ok db_two_blocks"
  by (auto simp: chain_index_ok_def db_two_blocks_def split: if_splits)

lemma empty_range [simp]: "part_range lo hi part_empty = []" "part_range_keys lo hi part_empty = []"
  by (simp_all add: part_range_def part_range_keys_def part_entries_simps)

lemma remove_from_score_empty:
  assumes "operation_history d = part_empty" "collection_deployments d = part_empty" "score_to_discount d = part_empty"
    "listings d = part_empty" "ownership_changes d = part_empty"
  shows "remove_from_score d th = Inr (stats_default, d)"
  using assms
  by (simp add: remove_from_score_def remove_affected_operations_def remove_affected_deployments_def remove_discounts_def
      discounts_from_score_def part_entries_simps remove_affected_listings_def reconstruct_token_ownership_def
      get_affected_token_operations_def remove_ownership_records_def rebuild_ownership_state_def)

lemma vcc_reorg_succeeds: "\<exists>d'. process_chain_changes_wtx 248 p2sh vcc_reorg db_two_blocks = Inr d'"
proof -
  have k: "part_range_keys (Included (BlueScoredChainBlockHash 6 0)) Unbounded (chain_block_scores db_two_blocks) =
      [BlueScoredChainBlockHash 6 66]"
    by (simp add: db_two_blocks_def part_range_keys_def part_range_def part_entries_simps key_simps)
  let ?d = "db_two_blocks\<lparr>chain_block_scores := part_remove (BlueScoredChainBlockHash 6 66) (chain_block_scores db_two_blocks),
      blockhash_to_score := part_remove 66 (blockhash_to_score db_two_blocks)\<rparr>"
  have g: "part_get (blockhash_to_score db_two_blocks) 66 = Some 6" by (simp add: db_two_blocks_def)
  have min: "min (- 1) 6 = (6 :: u64)" by (rule min_absorb2) simp
  have "identify_reorg_blocks_and_delete db_two_blocks [66] None = (Some 6, ?d)"
    by (simp add: identify_reorg_blocks_and_delete_def lookup_removed_block_score_def g remove_chain_state_from_blue_score_def k
        min part_remove_absent)
  moreover have "remove_from_score ?d th = Inr (stats_default, ?d)" for th
    by (rule remove_from_score_empty) (simp_all add: db_two_blocks_def db_empty_def)
  ultimately have "process_removal 248 db_two_blocks [66] None = Inr (stats_default, ?d)" by (simp add: process_removal_def)
  then obtain D where r: "and_then (process_removal 248 db_two_blocks [66] None)
      (\<lambda>(diff, d1). Inr (d1\<lparr>db_stats := snd (stats_removal diff (db_stats d1))\<rparr>)) =
      Inr D" by simp
  have "\<exists>x. process_additions 248 p2sh d (mergesets vcc_reorg) = Inr x" for d
  proof -
    let ?m = "\<lparr>ms_operations = [], ms_entropy = 0, ms_blue_score = 4, ms_accepted_chain_block_hash = 44\<rparr>"
    have "\<exists>x. add_mergeset 248 p2sh b d ?m stats_default = Inr x" for b
      by (auto simp: add_mergeset_def part_insert_if_not_exist_simp Let_def scored_operations_def)
    then show ?thesis unfolding process_additions_def Let_def vcc_reorg_def
      by (metis (no_types, lifting) add_mergesets.simps and_then.simps(2) case_prod_conv surj_pair virtual_chain_changes.select_convs(3))
  qed
  then obtain diff d2 where x: "process_additions 248 p2sh D (mergesets vcc_reorg) = Inr (diff, d2)" by fastforce
  have v: "removed_chain_block_hashes vcc_reorg = [66]" "forced_rollback_blue_score vcc_reorg = None"
    "mergesets vcc_reorg \<noteq> []" by (simp_all add: vcc_reorg_def)
  show ?thesis unfolding process_chain_changes_wtx_def v(1,2) r by (simp add: v(3) x)
qed

theorem chain_blocks_after_a_change_witness:
  "\<exists>d'. process_chain_changes_wtx 248 (\<lambda>_. spk_A) vcc_reorg db_two_blocks = Inr d' \<and> chain_index_ok d' \<and>
     chain_blocks d' = kept_blocks db_two_blocks vcc_reorg \<union>
       mergeset_block ` {m \<in> set (mergesets vcc_reorg). tip_score (kept_blocks db_two_blocks vcc_reorg) \<le> ms_blue_score m}"
proof -
  obtain d' where d': "process_chain_changes_wtx 248 (\<lambda>_. spk_A) vcc_reorg db_two_blocks = Inr d'"
    using vcc_reorg_succeeds by blast
  from d' chain_blocks_after_a_change [OF d' db_two_blocks_index] show ?thesis by (intro exI [of _ d'] conjI) simp_all
qed

end
