(* ===== verification/Tasks.thy ===== *)
theory Tasks
  imports NotificationQueue
begin

text \<open>
  The concurrent part of the indexer: the historical task \<^verbatim>\<open>htvccn_task\<close> and the real-time task
  \<^verbatim>\<open>rtvccn_task\<close> of \<^verbatim>\<open>nexus/src/processor.rs\<close>, the sync task of \<^verbatim>\<open>nexus/src/syncer.rs\<close> that feeds
  them, and the handlers of the node's notifications. The state holds the contents of the channels and
  the place where every task waits; an event is one action of one task, up to the next point where it
  blocks or writes something the others read. A rendezvous channel (\<^verbatim>\<open>bounded(0)\<close>) is one step of its
  two ends.
\<close>

section \<open>State\<close>

datatype rt_notification =
  SwitchToQueue | VirtualChainChangesNotification virtual_chain_changes | ApplyQueue

text \<open>The flag of a historical notification tells whether it carries a completion channel.\<close>

datatype ht_notification =
  HistoricalVirtualChainChangesNotification virtual_chain_changes bool
| ApplicationHistoricalVirtualChainChangesNotification virtual_chain_changes

text \<open>
  Where the real-time task waits: for a message, for the room of the switch channel, for the
  historical task to take the reply of an application of the queue, or not at all.
\<close>

datatype rt_place = RtReceiving | RtSending | RtReplying "unit res" | RtStopped

text \<open>
  Where the historical task waits: for a message, for the reply of the real-time task, for the
  syncer to take a completion (with the flag of an application), for the switch, or not at all.
\<close>

datatype ht_place = HtReceiving | HtApplying | HtCompleting "unit res" bool | HtSwitch | HtStopped

record processor_state =
  store :: db
  rt_channel :: "rt_notification list"
  ht_channel :: "ht_notification list"
  switch_channel :: nat
  shutdown_channel :: nat
  real_time_mod_enabled :: bool
  rt_at :: rt_place
  ht_at :: ht_place

text \<open>
  The syncer. The place of the sync task: not running, in its loop, waiting for the completion of a
  replayed notification or of the application, after a successful application, after \<^verbatim>\<open>is_synced\<close> was
  set, after the target was cleared. \<^verbatim>\<open>releasing\<close> counts the tasks between the two halves of
  \<^verbatim>\<open>release_sync_task\<close>. The handler of notifications runs one notification at a time: after the switch
  was sent, after \<^verbatim>\<open>is_synced\<close> was cleared, each with the flag of a disconnection.
\<close>

datatype sync_place =
  SyncIdle | SyncLoop | SyncWait | SyncWaitApply | SyncApplied | SyncMarked | SyncCleared

datatype handler_place = HandlerIdle | HandlerSwitched bool | HandlerCleared bool

record indexer = processor_state +
  is_synced :: bool
  resync_requested :: bool
  sync_task_running :: bool
  target_set :: bool
  releasing :: nat
  sync_at :: sync_place
  handler_at :: handler_place

section \<open>The two tasks of the processor\<close>

text \<open>The shutdown channel has priority in \<^verbatim>\<open>select_biased!\<close>; the switch channel holds one message.\<close>

fun rt_receive ::
  "u64 \<Rightarrow> (bytes \<Rightarrow> spk) \<Rightarrow> rt_notification \<Rightarrow> 'a processor_state_scheme \<Rightarrow> 'a processor_state_scheme" where
  "rt_receive msl p2sh ApplyQueue s =
     (let (r, d) = process_queue_application msl p2sh (store s) in s\<lparr>store := d, rt_at := RtReplying r\<rparr>)"
| "rt_receive msl p2sh SwitchToQueue s = s\<lparr>real_time_mod_enabled := False, rt_at := RtSending\<rparr>"
| "rt_receive msl p2sh (VirtualChainChangesNotification vcc) s =
     (if real_time_mod_enabled s then
        (let (r, d) = process_chain_changes msl p2sh vcc (store s) in
         s\<lparr>store := d, rt_at := (if isl r then RtStopped else RtReceiving)\<rparr>)
      else s\<lparr>store := process_queue vcc (store s)\<rparr>)"

definition rtvccn_task :: "u64 \<Rightarrow> (bytes \<Rightarrow> spk) \<Rightarrow> 'a processor_state_scheme \<Rightarrow> 'a processor_state_scheme option" where
  "rtvccn_task msl p2sh s =
     (case rt_at s of
        RtStopped \<Rightarrow> None
      | RtSending \<Rightarrow>
          if switch_channel s = 0 then Some (s\<lparr>switch_channel := 1, rt_at := RtReceiving\<rparr>) else None
      | RtReplying r \<Rightarrow>
          if ht_at s = HtApplying
          then Some (s\<lparr>ht_at := HtCompleting (Inr ()) True, real_time_mod_enabled := True,
                       rt_at := (if isl r then RtStopped else RtReceiving)\<rparr>)
          else None
      | RtReceiving \<Rightarrow>
          if shutdown_channel s > 0
          then Some (s\<lparr>shutdown_channel := shutdown_channel s - 1, rt_at := RtStopped\<rparr>)
          else (case rt_channel s of
                  [] \<Rightarrow> None
                | m # ms \<Rightarrow> Some (rt_receive msl p2sh m (s\<lparr>rt_channel := ms\<rparr>))))"

fun ht_receive ::
  "u64 \<Rightarrow> (bytes \<Rightarrow> spk) \<Rightarrow> ht_notification \<Rightarrow> 'a processor_state_scheme \<Rightarrow> 'a processor_state_scheme" where
  "ht_receive msl p2sh (HistoricalVirtualChainChangesNotification vcc completion) s =
     (let (r, d) = process_chain_changes msl p2sh vcc (store s) in
      s\<lparr>store := d, ht_at := (if completion then HtCompleting r False
                              else if isl r then HtStopped else HtReceiving)\<rparr>)"
| "ht_receive msl p2sh (ApplicationHistoricalVirtualChainChangesNotification vcc) s =
     (let (r, d) = process_chain_changes msl p2sh vcc (store s) in
      if isl r then s\<lparr>store := d, ht_at := HtCompleting r True\<rparr>
      else s\<lparr>store := d, rt_channel := rt_channel s @ [ApplyQueue], ht_at := HtApplying\<rparr>)"

definition htvccn_task :: "u64 \<Rightarrow> (bytes \<Rightarrow> spk) \<Rightarrow> 'a processor_state_scheme \<Rightarrow> 'a processor_state_scheme option" where
  "htvccn_task msl p2sh s =
     (case ht_at s of
        HtSwitch \<Rightarrow>
          if shutdown_channel s > 0
          then Some (s\<lparr>shutdown_channel := shutdown_channel s - 1, ht_at := HtStopped\<rparr>)
          else if switch_channel s > 0
          then Some (s\<lparr>switch_channel := switch_channel s - 1, ht_at := HtReceiving\<rparr>)
          else None
      | HtReceiving \<Rightarrow>
          if shutdown_channel s > 0
          then Some (s\<lparr>shutdown_channel := shutdown_channel s - 1, ht_at := HtStopped\<rparr>)
          else (case ht_channel s of
                  [] \<Rightarrow> None
                | m # ms \<Rightarrow> Some (ht_receive msl p2sh m (s\<lparr>ht_channel := ms\<rparr>)))
      | _ \<Rightarrow> None)"

text \<open>The receiver of a completion takes it; the task goes on, or stops with the error it has reported.\<close>

definition take_completion :: "'a processor_state_scheme \<Rightarrow> (unit res \<times> 'a processor_state_scheme) option" where
  "take_completion s =
     (case ht_at s of
        HtCompleting r application \<Rightarrow>
          Some (r, s\<lparr>ht_at := (if isl r then HtStopped else if application then HtSwitch else HtReceiving)\<rparr>)
      | _ \<Rightarrow> None)"

section \<open>The syncer\<close>

text \<open>\<^verbatim>\<open>try_claim_sync_task_flag\<close> and \<^verbatim>\<open>spawn_sync_task_impl\<close>, before a shutdown of the syncer.\<close>

definition spawn_sync_task_impl :: "indexer \<Rightarrow> indexer" where
  "spawn_sync_task_impl s =
     (if sync_task_running s then s else s\<lparr>sync_task_running := True, sync_at := SyncLoop\<rparr>)"

text \<open>The chain change of \<^verbatim>\<open>mark_synced_if_at_current_sink\<close>.\<close>

definition no_changes :: virtual_chain_changes where
  "no_changes = \<lparr>removed_chain_block_hashes = [], forced_rollback_blue_score = None, mergesets = []\<rparr>"

datatype event =
  RtTask | HtTask
| ReplayStep virtual_chain_changes | ApplyStep | TargetStep
| CompletionStep | MarkStep | ClearStep | ReleaseStep | ReleaseCheck
| ChainChanged | Disconnected | HandlerStep
| RealTimeNotification virtual_chain_changes | HistoricalNotification virtual_chain_changes | Shutdown

fun indexer_step :: "u64 \<Rightarrow> (bytes \<Rightarrow> spk) \<Rightarrow> event \<Rightarrow> indexer \<Rightarrow> indexer option" where
  "indexer_step msl p2sh RtTask s = rtvccn_task msl p2sh s"
| "indexer_step msl p2sh HtTask s = htvccn_task msl p2sh s"
| "indexer_step msl p2sh (ReplayStep vcc) s =
     (if sync_at s = SyncLoop
      then Some (s\<lparr>ht_channel := ht_channel s @ [HistoricalVirtualChainChangesNotification vcc True], sync_at := SyncWait\<rparr>)
      else None)"
| "indexer_step msl p2sh ApplyStep s =
     (if sync_at s = SyncLoop
      then Some (s\<lparr>resync_requested := False, sync_at := SyncWaitApply,
                   ht_channel := ht_channel s @ [ApplicationHistoricalVirtualChainChangesNotification no_changes]\<rparr>)
      else None)"
| "indexer_step msl p2sh TargetStep s = (if sync_at s = SyncLoop then Some (s\<lparr>target_set := True\<rparr>) else None)"
| "indexer_step msl p2sh CompletionStep s =
     (case take_completion s of
        None \<Rightarrow> None
      | Some (r, s') \<Rightarrow>
          if sync_at s = SyncWait then Some (s'\<lparr>sync_at := SyncLoop\<rparr>)
          else if sync_at s = SyncWaitApply
          then Some (s'\<lparr>sync_at := (if isl r then SyncLoop else SyncApplied)\<rparr>)
          else None)"
| "indexer_step msl p2sh MarkStep s =
     (if sync_at s = SyncApplied then Some (s\<lparr>is_synced := True, sync_at := SyncMarked\<rparr>) else None)"
| "indexer_step msl p2sh ClearStep s =
     (if sync_at s = SyncMarked then Some (s\<lparr>target_set := False, sync_at := SyncCleared\<rparr>) else None)"
| "indexer_step msl p2sh ReleaseStep s =
     (if sync_at s = SyncCleared
      then Some (s\<lparr>sync_at := SyncIdle, sync_task_running := False, releasing := releasing s + 1\<rparr>) else None)"
| "indexer_step msl p2sh ReleaseCheck s =
     (if releasing s > 0
      then Some (let s' = s\<lparr>releasing := releasing s - 1\<rparr> in
                 if is_synced s then s' else spawn_sync_task_impl s')
      else None)"
| "indexer_step msl p2sh ChainChanged s =
     (if handler_at s = HandlerIdle
      then Some (if is_synced s
                 then s\<lparr>rt_channel := rt_channel s @ [SwitchToQueue], handler_at := HandlerSwitched False\<rparr>
                 else s\<lparr>resync_requested := True\<rparr>)
      else None)"
| "indexer_step msl p2sh Disconnected s =
     (if handler_at s = HandlerIdle
      then Some (s\<lparr>rt_channel := rt_channel s @ [SwitchToQueue], handler_at := HandlerSwitched True\<rparr>)
      else None)"
| "indexer_step msl p2sh HandlerStep s =
     (case handler_at s of
        HandlerIdle \<Rightarrow> None
      | HandlerSwitched dis \<Rightarrow> Some (s\<lparr>is_synced := False, handler_at := HandlerCleared dis\<rparr>)
      | HandlerCleared dis \<Rightarrow>
          Some (let s' = s\<lparr>handler_at := HandlerIdle\<rparr> in
                if dis \<and> target_set s then s' else spawn_sync_task_impl s'))"
| "indexer_step msl p2sh (RealTimeNotification vcc) s =
     Some (s\<lparr>rt_channel := rt_channel s @ [VirtualChainChangesNotification vcc]\<rparr>)"
| "indexer_step msl p2sh (HistoricalNotification vcc) s =
     Some (s\<lparr>ht_channel := ht_channel s @ [HistoricalVirtualChainChangesNotification vcc False]\<rparr>)"
| "indexer_step msl p2sh Shutdown s =
     (if shutdown_channel s = 0 then Some (s\<lparr>shutdown_channel := 1\<rparr>) else None)"

text \<open>The indexer after its start: the sync task has been spawned.\<close>

definition indexer_init :: "db \<Rightarrow> indexer" where
  "indexer_init d =
     \<lparr>store = d, rt_channel = [], ht_channel = [], switch_channel = 0, shutdown_channel = 0,
      real_time_mod_enabled = False, rt_at = RtReceiving, ht_at = HtReceiving,
      is_synced = False, resync_requested = False, sync_task_running = True, target_set = False,
      releasing = 0, sync_at = SyncLoop, handler_at = HandlerIdle\<rparr>"

text \<open>What the indexer can become: every event may happen whenever it is enabled.\<close>

inductive evolves :: "u64 \<Rightarrow> (bytes \<Rightarrow> spk) \<Rightarrow> indexer \<Rightarrow> indexer \<Rightarrow> bool" for msl p2sh s where
  here: "evolves msl p2sh s s"
| step: "evolves msl p2sh s s1 \<Longrightarrow> indexer_step msl p2sh e s1 = Some s2 \<Longrightarrow> evolves msl p2sh s s2"

text \<open>A schedule, executed.\<close>

fun run :: "u64 \<Rightarrow> (bytes \<Rightarrow> spk) \<Rightarrow> event list \<Rightarrow> indexer \<Rightarrow> indexer option" where
  "run msl p2sh [] s = Some s"
| "run msl p2sh (e # es) s = Option.bind (indexer_step msl p2sh e s) (run msl p2sh es)"

text \<open>
  The disconnections of a schedule that are reported while the state is not synced. The handler of a
  disconnection sends its switch all the same, where the handler of a chain change sends none.
\<close>

fun early_disconnections :: "u64 \<Rightarrow> (bytes \<Rightarrow> spk) \<Rightarrow> event list \<Rightarrow> indexer \<Rightarrow> nat" where
  "early_disconnections msl p2sh [] s = 0"
| "early_disconnections msl p2sh (e # es) s =
     (case indexer_step msl p2sh e s of
        None \<Rightarrow> 0
      | Some s' \<Rightarrow> of_bool (e = Disconnected \<and> \<not> is_synced s) + early_disconnections msl p2sh es s')"

lemma run_evolves:
  "run msl p2sh es s1 = Some s2 \<Longrightarrow> evolves msl p2sh s s1 \<Longrightarrow> evolves msl p2sh s s2"
proof (induction es arbitrary: s1)
  case (Cons e es)
  then obtain s1' where s1': "indexer_step msl p2sh e s1 = Some s1'" "run msl p2sh es s1' = Some s2"
    by (auto simp: Option.bind_eq_Some_conv)
  with Cons.prems(2) have "evolves msl p2sh s s1'" by (blast intro: evolves.step)
  with Cons.IH s1'(2) show ?case by blast
qed simp

lemma run_append: "run msl p2sh (es @ es') s = Option.bind (run msl p2sh es s) (run msl p2sh es')"
  by (induction es arbitrary: s) (auto split: option.splits Option.bind_splits)

lemma evolves_run: "evolves msl p2sh s s' \<longleftrightarrow> (\<exists>es. run msl p2sh es s = Some s')"
proof
  show "evolves msl p2sh s s' \<Longrightarrow> \<exists>es. run msl p2sh es s = Some s'"
  proof (induction rule: evolves.induct)
    case (step s1 e s2)
    then obtain es where "run msl p2sh es s = Some s1" by blast
    with step.hyps(2) have "run msl p2sh (es @ [e]) s = Some s2" by (simp add: run_append)
    then show ?case by blast
  qed (auto intro: exI [of _ "[]"])
qed (blast intro: run_evolves evolves.here)

section \<open>Work that the two tasks have left\<close>

fun rt_work :: "rt_notification \<Rightarrow> nat" where
  "rt_work SwitchToQueue = 3"
| "rt_work (VirtualChainChangesNotification _) = 1"
| "rt_work ApplyQueue = 2"

fun ht_work :: "ht_notification \<Rightarrow> nat" where
  "ht_work (HistoricalVirtualChainChangesNotification _ _) = 1"
| "ht_work (ApplicationHistoricalVirtualChainChangesNotification _) = 3"

definition pending_work :: "'a processor_state_scheme \<Rightarrow> nat" where
  "pending_work s = sum_list (map rt_work (rt_channel s)) + sum_list (map ht_work (ht_channel s)) +
     switch_channel s + shutdown_channel s +
     (case rt_at s of RtSending \<Rightarrow> 2 | RtReplying _ \<Rightarrow> 1 | _ \<Rightarrow> 0)"

lemma rt_task_cases [consumes 1, case_names send reply stop application switch direct enqueue]:
  assumes "rtvccn_task msl p2sh s = Some s'"
  obtains "rt_at s = RtSending" "switch_channel s = 0" "s' = s\<lparr>switch_channel := 1, rt_at := RtReceiving\<rparr>"
  | r where "rt_at s = RtReplying r" "ht_at s = HtApplying"
      "s' = s\<lparr>ht_at := HtCompleting (Inr ()) True, real_time_mod_enabled := True,
              rt_at := (if isl r then RtStopped else RtReceiving)\<rparr>"
  | "rt_at s = RtReceiving" "shutdown_channel s > 0" "s' = s\<lparr>shutdown_channel := shutdown_channel s - 1, rt_at := RtStopped\<rparr>"
  | ms r d where "rt_at s = RtReceiving" "rt_channel s = ApplyQueue # ms"
      "process_queue_application msl p2sh (store s) = (r, d)" "s' = s\<lparr>rt_channel := ms, store := d, rt_at := RtReplying r\<rparr>"
  | ms where "rt_at s = RtReceiving" "rt_channel s = SwitchToQueue # ms"
      "s' = s\<lparr>rt_channel := ms, real_time_mod_enabled := False, rt_at := RtSending\<rparr>"
  | vcc ms r d where "rt_at s = RtReceiving" "rt_channel s = VirtualChainChangesNotification vcc # ms"
      "real_time_mod_enabled s" "process_chain_changes msl p2sh vcc (store s) = (r, d)"
      "s' = s\<lparr>rt_channel := ms, store := d, rt_at := (if isl r then RtStopped else RtReceiving)\<rparr>"
  | vcc ms where "rt_at s = RtReceiving" "rt_channel s = VirtualChainChangesNotification vcc # ms"
      "\<not> real_time_mod_enabled s" "s' = s\<lparr>rt_channel := ms, store := process_queue vcc (store s)\<rparr>"
proof (cases "rt_at s")
  case RtReceiving
  show ?thesis
  proof (cases "shutdown_channel s > 0")
    case True
    with RtReceiving assms show ?thesis by (intro that(3)) (simp_all add: rtvccn_task_def)
  next
    case False
    with RtReceiving assms obtain m ms where m: "rt_channel s = m # ms" "s' = rt_receive msl p2sh m (s\<lparr>rt_channel := ms\<rparr>)"
      by (auto simp: rtvccn_task_def split: list.splits)
    show ?thesis
    proof (cases m)
      case SwitchToQueue
      with m RtReceiving show ?thesis by (intro that(5)) simp_all
    next
      case (VirtualChainChangesNotification vcc)
      obtain r d where "process_chain_changes msl p2sh vcc (store s) = (r, d)" by fastforce
      with m RtReceiving VirtualChainChangesNotification show ?thesis
        by (cases "real_time_mod_enabled s") (auto intro: that(6,7))
    next
      case ApplyQueue
      obtain r d where "process_queue_application msl p2sh (store s) = (r, d)" by fastforce
      with m RtReceiving ApplyQueue show ?thesis by (intro that(4)) simp_all
    qed
  qed
qed (use assms that(1,2) in \<open>auto simp: rtvccn_task_def split: if_splits\<close>)

lemma ht_task_cases [consumes 1, case_names stop switch replay application failure]:
  assumes "htvccn_task msl p2sh s = Some s'"
  obtains "ht_at s = HtSwitch \<or> ht_at s = HtReceiving" "shutdown_channel s > 0"
      "s' = s\<lparr>shutdown_channel := shutdown_channel s - 1, ht_at := HtStopped\<rparr>"
  | "ht_at s = HtSwitch" "switch_channel s > 0" "s' = s\<lparr>switch_channel := switch_channel s - 1, ht_at := HtReceiving\<rparr>"
  | vcc c ms r d where "ht_at s = HtReceiving" "ht_channel s = HistoricalVirtualChainChangesNotification vcc c # ms"
      "process_chain_changes msl p2sh vcc (store s) = (r, d)"
      "s' = s\<lparr>ht_channel := ms, store := d,
              ht_at := (if c then HtCompleting r False else if isl r then HtStopped else HtReceiving)\<rparr>"
  | vcc ms d where "ht_at s = HtReceiving" "ht_channel s = ApplicationHistoricalVirtualChainChangesNotification vcc # ms"
      "process_chain_changes msl p2sh vcc (store s) = (Inr (), d)"
      "s' = s\<lparr>ht_channel := ms, store := d, rt_channel := rt_channel s @ [ApplyQueue], ht_at := HtApplying\<rparr>"
  | vcc ms e d where "ht_at s = HtReceiving" "ht_channel s = ApplicationHistoricalVirtualChainChangesNotification vcc # ms"
      "process_chain_changes msl p2sh vcc (store s) = (Inl e, d)"
      "s' = s\<lparr>ht_channel := ms, store := d, ht_at := HtCompleting (Inl e) True\<rparr>"
proof (cases "ht_at s")
  case HtReceiving
  show ?thesis
  proof (cases "shutdown_channel s > 0")
    case True
    with HtReceiving assms show ?thesis by (intro that(1)) (simp_all add: htvccn_task_def)
  next
    case False
    with HtReceiving assms obtain m ms where m: "ht_channel s = m # ms" "s' = ht_receive msl p2sh m (s\<lparr>ht_channel := ms\<rparr>)"
      by (auto simp: htvccn_task_def split: list.splits)
    show ?thesis
    proof (cases m)
      case (HistoricalVirtualChainChangesNotification vcc c)
      obtain r d where "process_chain_changes msl p2sh vcc (store s) = (r, d)" by fastforce
      with m HtReceiving HistoricalVirtualChainChangesNotification show ?thesis by (intro that(3)) simp_all
    next
      case (ApplicationHistoricalVirtualChainChangesNotification vcc)
      obtain r d where "process_chain_changes msl p2sh vcc (store s) = (r, d)" by fastforce
      with m HtReceiving ApplicationHistoricalVirtualChainChangesNotification show ?thesis
        by (cases r) (auto intro: that(4,5))
    qed
  qed
next
  case HtSwitch
  then show ?thesis using assms that(1,2) by (auto simp: htvccn_task_def split: if_splits)
qed (use assms in \<open>simp_all add: htvccn_task_def\<close>)

lemma rt_task_work: "rtvccn_task msl p2sh s = Some s' \<Longrightarrow> pending_work s' < pending_work s"
  by (erule rt_task_cases) (simp_all add: pending_work_def)

lemma ht_task_work: "htvccn_task msl p2sh s = Some s' \<Longrightarrow> pending_work s' < pending_work s"
  by (erule ht_task_cases) (auto simp: pending_work_def)

section \<open>The discipline of switches\<close>

text \<open>
  The switches that are under way or that the syncer still owes: in the real-time channel, between
  the two tasks, and one for a state that is synced and has not been left.
\<close>

definition under_way :: "indexer \<Rightarrow> nat" where
  "under_way s = count_list (rt_channel s) SwitchToQueue + of_bool (rt_at s = RtSending) + switch_channel s"

definition owed :: "indexer \<Rightarrow> nat" where
  "owed s = of_bool (sync_at s = SyncApplied) +
     of_bool (is_synced s \<and> (case handler_at s of HandlerSwitched _ \<Rightarrow> False | _ \<Rightarrow> True))"

definition applying :: "indexer \<Rightarrow> nat" where
  "applying s = count_list (rt_channel s) ApplyQueue + (case rt_at s of RtReplying _ \<Rightarrow> 1 | _ \<Rightarrow> 0)"

definition applications :: "indexer \<Rightarrow> nat" where
  "applications s =
     length [m \<leftarrow> ht_channel s. case m of ApplicationHistoricalVirtualChainChangesNotification _ \<Rightarrow> True | _ \<Rightarrow> False] +
     (case ht_at s of HtApplying \<Rightarrow> 1 | HtCompleting _ a \<Rightarrow> of_bool a | _ \<Rightarrow> 0)"

definition replays :: "indexer \<Rightarrow> nat" where
  "replays s =
     length [m \<leftarrow> ht_channel s. case m of HistoricalVirtualChainChangesNotification _ c \<Rightarrow> c | _ \<Rightarrow> False] +
     (case ht_at s of HtCompleting _ a \<Rightarrow> of_bool (\<not> a) | _ \<Rightarrow> 0)"

text \<open>Every rendezvous has its two ends.\<close>

definition rendezvous_inv :: "indexer \<Rightarrow> bool" where
  "rendezvous_inv s =
     (applying s = of_bool (ht_at s = HtApplying) \<and>
      applications s = of_bool (sync_at s = SyncWaitApply) \<and>
      replays s = of_bool (sync_at s = SyncWait))"

text \<open>At most one switch is in play, and one more for each of the \<^verbatim>\<open>k\<close> early disconnections.\<close>

definition switch_inv :: "nat \<Rightarrow> indexer \<Rightarrow> bool" where
  "switch_inv k s =
     (under_way s + owed s \<le> k + 1 \<and>
      (ht_at s \<noteq> HtStopped \<and> ht_at s \<noteq> HtSwitch \<longrightarrow> under_way s + owed s \<le> k))"

definition mode_inv :: "indexer \<Rightarrow> bool" where
  "mode_inv s =
     (real_time_mod_enabled s \<longrightarrow>
        ht_at s = HtStopped \<or>
        (ht_at s = HtSwitch \<or> (\<exists>r. ht_at s = HtCompleting r True)) \<and> switch_channel s = 0 \<and> rt_at s \<noteq> RtSending)"

lemmas inv_defs = rendezvous_inv_def switch_inv_def mode_inv_def under_way_def owed_def applying_def
  applications_def replays_def

lemma take_completion_eq:
  "take_completion s = Some (r, s') \<longleftrightarrow>
   (\<exists>a. ht_at s = HtCompleting r a \<and> s' = s\<lparr>ht_at := (if isl r then HtStopped else if a then HtSwitch else HtReceiving)\<rparr>)"
  by (auto simp: take_completion_def split: ht_place.splits)

lemma spawn_fields [simp]:
  "store (spawn_sync_task_impl s) = store s" "rt_channel (spawn_sync_task_impl s) = rt_channel s"
  "ht_channel (spawn_sync_task_impl s) = ht_channel s" "switch_channel (spawn_sync_task_impl s) = switch_channel s"
  "real_time_mod_enabled (spawn_sync_task_impl s) = real_time_mod_enabled s" "rt_at (spawn_sync_task_impl s) = rt_at s"
  "ht_at (spawn_sync_task_impl s) = ht_at s" "is_synced (spawn_sync_task_impl s) = is_synced s"
  "handler_at (spawn_sync_task_impl s) = handler_at s" "target_set (spawn_sync_task_impl s) = target_set s"
  "releasing (spawn_sync_task_impl s) = releasing s" "sync_task_running (spawn_sync_task_impl s)"
  "sync_at (spawn_sync_task_impl s) = (if sync_task_running s then sync_at s else SyncLoop)"
  by (simp_all add: spawn_sync_task_impl_def)

text \<open>The flag of the sync task is set exactly while the task runs.\<close>

definition claim_inv :: "indexer \<Rightarrow> bool" where
  "claim_inv s = ((sync_task_running s \<longleftrightarrow> sync_at s \<noteq> SyncIdle) \<and> (target_set s \<longrightarrow> sync_task_running s \<and> sync_at s \<noteq> SyncCleared))"

lemma completion_cases:
  assumes "indexer_step msl p2sh CompletionStep s = Some s'"
  obtains r a where "ht_at s = HtCompleting r a" "sync_at s = SyncWait"
      "s' = s\<lparr>ht_at := (if isl r then HtStopped else if a then HtSwitch else HtReceiving), sync_at := SyncLoop\<rparr>"
  | r a where "ht_at s = HtCompleting r a" "sync_at s = SyncWaitApply"
      "s' = s\<lparr>ht_at := (if isl r then HtStopped else if a then HtSwitch else HtReceiving),
              sync_at := (if isl r then SyncLoop else SyncApplied)\<rparr>"
  using assms by (auto simp: take_completion_eq split: option.splits prod.splits if_splits)

lemma claim_inv_step: "claim_inv s \<Longrightarrow> indexer_step msl p2sh e s = Some s' \<Longrightarrow> claim_inv s'"
proof (cases e)
  case RtTask
  moreover assume "claim_inv s" "indexer_step msl p2sh e s = Some s'"
  ultimately show ?thesis by (auto simp: claim_inv_def elim!: rt_task_cases)
next
  case HtTask
  moreover assume "claim_inv s" "indexer_step msl p2sh e s = Some s'"
  ultimately show ?thesis by (auto simp: claim_inv_def elim!: ht_task_cases)
next
  case CompletionStep
  assume i: "claim_inv s" and st: "indexer_step msl p2sh e s = Some s'"
  show ?thesis using st unfolding CompletionStep by (cases rule: completion_cases) (use i in \<open>auto simp: claim_inv_def\<close>)
qed (auto simp: claim_inv_def Let_def spawn_sync_task_impl_def split: if_splits handler_place.splits)

text \<open>The events of the syncer and of the handler, apart from the completion, change the tasks' places nowhere.\<close>

definition task_event :: "event \<Rightarrow> bool" where
  "task_event e = (e = RtTask \<or> e = HtTask \<or> e = CompletionStep)"

lemma rendezvous_inv_other:
  "rendezvous_inv s \<Longrightarrow> claim_inv s \<Longrightarrow> \<not> task_event e \<Longrightarrow> indexer_step msl p2sh e s = Some s' \<Longrightarrow> rendezvous_inv s'"
  by (cases e; clarsimp simp: task_event_def Let_def split: if_splits handler_place.splits; simp add: inv_defs claim_inv_def)

lemma switch_inv_other:
  "switch_inv k s \<Longrightarrow> claim_inv s \<Longrightarrow> \<not> task_event e \<Longrightarrow> indexer_step msl p2sh e s = Some s' \<Longrightarrow>
   switch_inv (k + of_bool (e = Disconnected \<and> \<not> is_synced s)) s'"
  by (cases e; clarsimp simp: task_event_def Let_def split: if_splits handler_place.splits; auto simp: inv_defs claim_inv_def split: if_splits)

lemma mode_inv_other:
  "mode_inv s \<Longrightarrow> claim_inv s \<Longrightarrow> \<not> task_event e \<Longrightarrow> indexer_step msl p2sh e s = Some s' \<Longrightarrow> mode_inv s'"
  by (cases e; clarsimp simp: task_event_def Let_def split: if_splits handler_place.splits; simp add: inv_defs claim_inv_def)

text \<open>
  The invariant after \<^verbatim>\<open>k\<close> early disconnections. The real-time mode keeps the historical task out only
  when there were none.
\<close>

definition tasks_inv :: "nat \<Rightarrow> indexer \<Rightarrow> bool" where
  "tasks_inv k s = (claim_inv s \<and> rendezvous_inv s \<and> switch_inv k s \<and> (k = 0 \<longrightarrow> mode_inv s))"

lemma tasks_inv_rt:
  assumes "tasks_inv k s" "rtvccn_task msl p2sh s = Some s'"
  shows "tasks_inv k s'"
proof -
  have i: "rendezvous_inv s" "switch_inv k s" "k = 0 \<Longrightarrow> mode_inv s" using assms(1) by (simp_all add: tasks_inv_def)
  have "claim_inv s'" using claim_inv_step [of s msl p2sh RtTask s'] assms by (simp add: tasks_inv_def)
  moreover have "rendezvous_inv s'"
    using assms(2) by (cases rule: rt_task_cases) (use i in \<open>auto simp: rendezvous_inv_def applying_def applications_def replays_def\<close>)
  moreover have "switch_inv k s'"
    using assms(2) by (cases rule: rt_task_cases) (use i in \<open>auto simp: switch_inv_def under_way_def owed_def\<close>)
  moreover have "mode_inv s'" if "k = 0"
    using assms(2) by (cases rule: rt_task_cases) (use i that in \<open>auto simp: switch_inv_def mode_inv_def under_way_def\<close>)
  ultimately show ?thesis by (simp add: tasks_inv_def)
qed

lemma tasks_inv_ht:
  assumes "tasks_inv k s" "htvccn_task msl p2sh s = Some s'"
  shows "tasks_inv k s'"
proof -
  have i: "rendezvous_inv s" "switch_inv k s" "k = 0 \<Longrightarrow> mode_inv s" using assms(1) by (simp_all add: tasks_inv_def)
  have "claim_inv s'" using claim_inv_step [of s msl p2sh HtTask s'] assms by (simp add: tasks_inv_def)
  moreover have "rendezvous_inv s'"
    using assms(2) by (cases rule: ht_task_cases) (use i in \<open>auto simp: rendezvous_inv_def applying_def applications_def replays_def\<close>)
  moreover have "switch_inv k s'"
    using assms(2) by (cases rule: ht_task_cases) (use i in \<open>auto simp: switch_inv_def under_way_def owed_def\<close>)
  moreover have "mode_inv s'" if "k = 0"
    using assms(2) by (cases rule: ht_task_cases) (use i that in \<open>auto simp: switch_inv_def mode_inv_def under_way_def\<close>)
  ultimately show ?thesis by (simp add: tasks_inv_def)
qed

lemma tasks_inv_completion:
  assumes "tasks_inv k s" "indexer_step msl p2sh CompletionStep s = Some s'"
  shows "tasks_inv k s'"
proof -
  have i: "rendezvous_inv s" "switch_inv k s" "k = 0 \<Longrightarrow> mode_inv s" using assms(1) by (simp_all add: tasks_inv_def)
  have "claim_inv s'" using claim_inv_step [OF _ assms(2)] assms(1) by (simp add: tasks_inv_def)
  moreover have "rendezvous_inv s'"
    using assms(2) by (cases rule: completion_cases) (use i in \<open>auto simp: rendezvous_inv_def applying_def applications_def replays_def split: if_splits\<close>)
  moreover have "switch_inv k s'"
    using assms(2) by (cases rule: completion_cases) (use i in \<open>auto simp: rendezvous_inv_def replays_def applications_def switch_inv_def under_way_def owed_def\<close>)
  moreover have "mode_inv s'" if "k = 0"
    using assms(2) by (cases rule: completion_cases) (use i that in \<open>auto simp: mode_inv_def\<close>)
  ultimately show ?thesis by (simp add: tasks_inv_def)
qed

lemma tasks_inv_step:
  assumes "tasks_inv k s" "indexer_step msl p2sh e s = Some s'"
  shows "tasks_inv (k + of_bool (e = Disconnected \<and> \<not> is_synced s)) s'"
proof (cases "task_event e")
  case True
  then consider "e = RtTask" | "e = HtTask" | "e = CompletionStep" by (auto simp: task_event_def)
  then show ?thesis
  proof cases
    case 1
    then show ?thesis using tasks_inv_rt [OF assms(1)] assms(2) by simp
  next
    case 2
    then show ?thesis using tasks_inv_ht [OF assms(1)] assms(2) by simp
  next
    case 3
    with tasks_inv_completion [OF assms(1)] assms(2) have "tasks_inv k s'" by blast
    with 3 show ?thesis by simp
  qed
next
  case False
  have i: "claim_inv s" "rendezvous_inv s" "switch_inv k s" "k = 0 \<Longrightarrow> mode_inv s"
    using assms(1) by (simp_all add: tasks_inv_def)
  show ?thesis unfolding tasks_inv_def
    using claim_inv_step [OF i(1) assms(2)] rendezvous_inv_other [OF i(2,1) False assms(2)]
      switch_inv_other [OF i(3,1) False assms(2)] mode_inv_other [OF i(4) i(1) False assms(2)] by blast
qed

lemma tasks_inv_init: "tasks_inv 0 (indexer_init d)"
  by (simp add: tasks_inv_def inv_defs claim_inv_def indexer_init_def)

lemma tasks_inv_run:
  "run msl p2sh es s = Some s' \<Longrightarrow> tasks_inv k s \<Longrightarrow> tasks_inv (k + early_disconnections msl p2sh es s) s'"
proof (induction es arbitrary: k s)
  case (Cons e es)
  then obtain s1 where s1: "indexer_step msl p2sh e s = Some s1" "run msl p2sh es s1 = Some s'"
    by (auto simp: Option.bind_eq_Some_conv)
  from Cons.IH [OF s1(2) tasks_inv_step [OF Cons.prems(2) s1(1)]] s1(1) show ?case by (simp add: add.assoc)
qed simp

lemma tasks_inv_from_start:
  "run msl p2sh es (indexer_init d) = Some s \<Longrightarrow> tasks_inv (early_disconnections msl p2sh es (indexer_init d)) s"
  using tasks_inv_run [OF _ tasks_inv_init, of msl p2sh es d s] by simp

lemma tasks_inv_tasks:
  "run msl p2sh es s = Some s' \<Longrightarrow> set es \<subseteq> {RtTask, HtTask} \<Longrightarrow> tasks_inv k s \<Longrightarrow> tasks_inv k s'"
proof (induction es arbitrary: s)
  case (Cons e es)
  then obtain s1 where s1: "indexer_step msl p2sh e s = Some s1" "run msl p2sh es s1 = Some s'"
    by (auto simp: Option.bind_eq_Some_conv)
  have "tasks_inv k s1" using tasks_inv_step [OF Cons.prems(3) s1(1)] Cons.prems(2) by auto
  with Cons.IH [OF s1(2)] Cons.prems(2) show ?case by simp
qed simp

section \<open>Properties\<close>

text \<open>C22: Unless a disconnection has been reported while the state was not synced, the historical task waits as
  long as the real-time mode is enabled: it receives no message and no step of it changes the database, so the
  two tasks never process chain changes in the same period. The condition is needed: see
  an_early_disconnection_lets_the_historical_task_in.\<close>

theorem historical_task_waits_in_real_time_mode:
  assumes "run msl p2sh es (indexer_init d) = Some s" "early_disconnections msl p2sh es (indexer_init d) = 0"
    and "real_time_mod_enabled s"
  shows "ht_at s \<noteq> HtReceiving \<and> (\<forall>s'. htvccn_task msl p2sh s = Some s' \<longrightarrow> store s' = store s)"
proof (intro conjI allI impI)
  have "mode_inv s" using tasks_inv_from_start [OF assms(1)] assms(2) by (simp add: tasks_inv_def)
  then show n: "ht_at s \<noteq> HtReceiving" using assms(3) by (auto simp: mode_inv_def)
  fix s' assume "htvccn_task msl p2sh s = Some s'"
  then show "store s' = store s" by (rule ht_task_cases) (use n in auto)
qed

lemma task_steps_work:
  "set es \<subseteq> {RtTask, HtTask} \<Longrightarrow> run msl p2sh es s = Some s' \<Longrightarrow> length es + pending_work s' \<le> pending_work s"
proof (induction es arbitrary: s)
  case (Cons e es)
  then obtain s1 where s1: "indexer_step msl p2sh e s = Some s1" "run msl p2sh es s1 = Some s'"
    by (auto simp: Option.bind_eq_Some_conv)
  have "pending_work s1 < pending_work s" using s1(1) Cons.prems(1) rt_task_work ht_task_work by auto
  moreover have "length es + pending_work s' \<le> pending_work s1" using Cons.IH [OF _ s1(2)] Cons.prems(1) by simp
  ultimately show ?case by simp
qed simp

text \<open>C23: The two tasks come to rest: from any state, a schedule of steps of the two tasks is at most as long as
  the work that the channels and the tasks hold.\<close>

theorem task_steps_terminate:
  assumes "set es \<subseteq> {RtTask, HtTask}" "run msl p2sh es s = Some s'"
  shows "length es + pending_work s' \<le> pending_work s"
  using assms by (rule task_steps_work)

lemma resting_tasks:
  assumes "tasks_inv k s" "k \<le> 1" "rtvccn_task msl p2sh s = None" "htvccn_task msl p2sh s = None"
  shows "rt_at s = RtStopped \<or> (rt_at s = RtReceiving \<and> rt_channel s = []) \<or> ht_at s = HtStopped"
    and "ht_at s = HtReceiving \<Longrightarrow> ht_channel s = []" and "ht_at s = HtApplying \<Longrightarrow> rt_at s = RtStopped"
proof -
  have i: "rendezvous_inv s" "switch_inv k s" using assms(1) by (simp_all add: tasks_inv_def)
  show rt: "rt_at s = RtStopped \<or> (rt_at s = RtReceiving \<and> rt_channel s = []) \<or> ht_at s = HtStopped"
  proof (cases "rt_at s")
    case RtSending
    with assms(3) have c: "switch_channel s \<noteq> 0" by (simp add: rtvccn_task_def split: if_splits)
    with assms(4) have "ht_at s \<noteq> HtSwitch" by (auto simp: htvccn_task_def split: if_splits)
    with RtSending c i(2) assms(2) show ?thesis by (auto simp: switch_inv_def under_way_def)
  next
    case (RtReplying r)
    with i(1) have "ht_at s = HtApplying" by (cases "ht_at s = HtApplying") (simp_all add: rendezvous_inv_def applying_def)
    with RtReplying assms(3) show ?thesis by (simp add: rtvccn_task_def)
  qed (use assms(3) in \<open>auto simp: rtvccn_task_def split: if_splits list.splits\<close>)
  show "ht_channel s = []" if "ht_at s = HtReceiving"
    using that assms(4) by (auto simp: htvccn_task_def split: if_splits list.splits)
  show "rt_at s = RtStopped" if "ht_at s = HtApplying"
    using that rt i(1) by (auto simp: rendezvous_inv_def applying_def)
qed

text \<open>C20: With at most one disconnection reported while the state was not synced, the two tasks do not block each
  other, whichever of them steps first: from any state that the indexer has reached, a schedule of their steps is
  finite, and where neither of them can step any more the real-time channel is drained (unless one of the two
  tasks has stopped), the historical task, if it still receives, has drained its channel, and it does not wait
  for the reply of a real-time task that goes on. Two such disconnections block the tasks for good: see
  repeated_disconnections_block_the_tasks.\<close>

theorem tasks_never_block_each_other:
  assumes "run msl p2sh es (indexer_init d) = Some s" "early_disconnections msl p2sh es (indexer_init d) \<le> 1"
    and "set es' \<subseteq> {RtTask, HtTask}" "run msl p2sh es' s = Some s'"
  shows "length es' \<le> pending_work s \<and>
    (rtvccn_task msl p2sh s' = None \<and> htvccn_task msl p2sh s' = None \<longrightarrow>
      (rt_at s' = RtReceiving \<and> rt_channel s' = [] \<or> rt_at s' = RtStopped \<or> ht_at s' = HtStopped) \<and>
      (ht_at s' = HtReceiving \<longrightarrow> ht_channel s' = []) \<and>
      (ht_at s' = HtApplying \<longrightarrow> rt_at s' = RtStopped))"
proof (intro conjI impI)
  show "length es' \<le> pending_work s" using task_steps_work [OF assms(3,4)] by simp
  assume "rtvccn_task msl p2sh s' = None \<and> htvccn_task msl p2sh s' = None"
  moreover have "tasks_inv (early_disconnections msl p2sh es (indexer_init d)) s'"
    by (rule tasks_inv_tasks [OF assms(4,3) tasks_inv_from_start [OF assms(1)]])
  ultimately show "rt_at s' = RtReceiving \<and> rt_channel s' = [] \<or> rt_at s' = RtStopped \<or> ht_at s' = HtStopped"
    "ht_at s' = HtReceiving \<Longrightarrow> ht_channel s' = []" "ht_at s' = HtApplying \<Longrightarrow> rt_at s' = RtStopped"
    using resting_tasks assms(2) by blast+
qed

section \<open>The sync task is never forgotten\<close>

definition wake_inv :: "indexer \<Rightarrow> bool" where
  "wake_inv s = (claim_inv s \<and>
     (is_synced s \<or> sync_task_running s \<or> releasing s > 0 \<or> (\<exists>dis. handler_at s = HandlerCleared dis)))"

lemma wake_inv_step:
  assumes "wake_inv s" "indexer_step msl p2sh e s = Some s'"
  shows "wake_inv s'"
proof -
  have c: "claim_inv s" "claim_inv s'" using assms claim_inv_step by (auto simp: wake_inv_def)
  consider "e = RtTask" | "e = HtTask" | "e = CompletionStep" | "\<not> task_event e" by (auto simp: task_event_def)
  then have "is_synced s' \<or> sync_task_running s' \<or> releasing s' > 0 \<or> (\<exists>dis. handler_at s' = HandlerCleared dis)"
  proof cases
    case 1
    with assms(2) have "rtvccn_task msl p2sh s = Some s'" by simp
    then show ?thesis by (cases rule: rt_task_cases) (use assms(1) in \<open>auto simp: wake_inv_def\<close>)
  next
    case 2
    with assms(2) have "htvccn_task msl p2sh s = Some s'" by simp
    then show ?thesis by (cases rule: ht_task_cases) (use assms(1) in \<open>auto simp: wake_inv_def\<close>)
  next
    case 3
    show ?thesis using assms(2) unfolding 3 by (cases rule: completion_cases) (use assms(1) in \<open>auto simp: wake_inv_def\<close>)
  next
    case 4
    with assms c(1) show ?thesis
      by (cases e; clarsimp simp: task_event_def Let_def split: if_splits handler_place.splits;
          auto simp: wake_inv_def claim_inv_def)
  qed
  with c(2) show ?thesis by (simp add: wake_inv_def)
qed


section \<open>How the indexer gets stuck, and what it loses\<close>

lemma no_changes_ok [simp]: "process_chain_changes msl p2sh no_changes d = (Inr (), d)"
  by (simp add: process_chain_changes_def process_chain_changes_wtx_def no_changes_def)

lemma empty_queue_application:
  "notification_queue d = part_empty \<Longrightarrow> process_queue_application msl p2sh d = (Inr (), d)"
  by (simp add: process_queue_application_def part_first_key_def part_entries_simps key_or_default_def)

text \<open>Two disconnections while the state is not synced, then the end of the synchronisation.\<close>

definition disconnect_schedule :: "event list" where
  "disconnect_schedule =
     [Disconnected, HandlerStep, HandlerStep, RtTask, RtTask, Disconnected, HandlerStep, HandlerStep, RtTask,
      ApplyStep, HtTask]"

definition blocked :: "indexer \<Rightarrow> bool" where
  "blocked s = (rt_at s = RtSending \<and> switch_channel s > 0 \<and> ht_at s = HtApplying)"

lemma blocked_run:
  "early_disconnections msl p2sh disconnect_schedule (indexer_init d) = 2 \<and>
   (\<exists>s. run msl p2sh disconnect_schedule (indexer_init d) = Some s \<and> blocked s \<and> store s = d \<and>
        sync_at s = SyncWaitApply)"
  by (simp add: disconnect_schedule_def indexer_init_def rtvccn_task_def htvccn_task_def spawn_sync_task_impl_def
      blocked_def)

lemma blocked_step:
  assumes "blocked s \<and> store s = d \<and> sync_at s = SyncWaitApply \<and> sync_task_running s" "indexer_step msl p2sh e s = Some s'"
  shows "blocked s' \<and> store s' = d \<and> sync_at s' = SyncWaitApply \<and> sync_task_running s'"
  using assms
  by (cases e; clarsimp simp: blocked_def rtvccn_task_def htvccn_task_def take_completion_def Let_def
      split: if_splits handler_place.splits)

text \<open>Disconnections reported while the state is not synced can block the indexer for good: every one of them
  sends a switch that no waiting historical task takes. With two of them before the end of a synchronisation,
  the real-time task waits for room in the switch channel, the historical task for the reply of the real-time
  task, and the sync task for the historical one, whatever happens afterwards.\<close>

theorem repeated_disconnections_block_the_tasks:
  "\<exists>es s. run msl p2sh es (indexer_init d) = Some s \<and> early_disconnections msl p2sh es (indexer_init d) = 2 \<and>
     (\<forall>s'. evolves msl p2sh s s' \<longrightarrow>
        rt_at s' = RtSending \<and> ht_at s' = HtApplying \<and> sync_at s' = SyncWaitApply \<and> store s' = d)"
proof -
  obtain s where s: "run msl p2sh disconnect_schedule (indexer_init d) = Some s" "blocked s" "store s = d"
    "sync_at s = SyncWaitApply"
    using blocked_run by blast
  have "claim_inv s" using tasks_inv_from_start [OF s(1)] by (simp add: tasks_inv_def)
  with s(4) have r: "sync_task_running s" by (simp add: claim_inv_def)
  have "blocked s' \<and> store s' = d \<and> sync_at s' = SyncWaitApply \<and> sync_task_running s'"
    if "evolves msl p2sh s s'" for s'
    using that
  proof (induction rule: evolves.induct)
    case here
    with s r show ?case by simp
  next
    case (step s1 e s2)
    then show ?case using blocked_step by blast
  qed
  with s(1) blocked_run show ?thesis unfolding blocked_def by blast
qed

theorem repeated_disconnections_block_the_tasks_witness:
  "\<exists>s s'. evolves 248 (\<lambda>_. spk_A) (indexer_init db_empty) s \<and>
     indexer_step 248 (\<lambda>_. spk_A) (RealTimeNotification vcc_A) s = Some s' \<and>
     rt_at s' = RtSending \<and> ht_at s' = HtApplying \<and> sync_at s' = SyncWaitApply \<and> store s' = db_empty"
proof -
  obtain es s where s: "run 248 (\<lambda>_. spk_A) es (indexer_init db_empty) = Some s"
    "\<forall>s'. evolves 248 (\<lambda>_. spk_A) s s' \<longrightarrow>
       rt_at s' = RtSending \<and> ht_at s' = HtApplying \<and> sync_at s' = SyncWaitApply \<and> store s' = db_empty"
    using repeated_disconnections_block_the_tasks [of 248 "\<lambda>_. spk_A" db_empty] by blast
  have st: "indexer_step 248 (\<lambda>_. spk_A) (RealTimeNotification vcc_A) s =
      Some (s\<lparr>rt_channel := rt_channel s @ [VirtualChainChangesNotification vcc_A]\<rparr>)"
    by simp
  then have "evolves 248 (\<lambda>_. spk_A) s (s\<lparr>rt_channel := rt_channel s @ [VirtualChainChangesNotification vcc_A]\<rparr>)"
    by (rule evolves.step [OF evolves.here])
  moreover have "evolves 248 (\<lambda>_. spk_A) (indexer_init db_empty) s" using s(1) evolves_run by blast
  ultimately show ?thesis using s(2) st by blast
qed

text \<open>
  One disconnection while the state is not synced: the switch that it sends waits in the switch channel, and
  the historical task takes it right after the application has enabled the real-time mode.
\<close>

definition early_schedule :: "event list" where
  "early_schedule =
     [Disconnected, HandlerStep, HandlerStep, RtTask, RtTask, ApplyStep, HtTask, RtTask, RtTask, CompletionStep, HtTask]"

theorem an_early_disconnection_lets_the_historical_task_in:
  assumes "notification_queue d = part_empty"
  shows "\<exists>es s. run msl p2sh es (indexer_init d) = Some s \<and> early_disconnections msl p2sh es (indexer_init d) = 1 \<and>
    real_time_mod_enabled s \<and> ht_at s = HtReceiving"
proof -
  have "early_disconnections msl p2sh early_schedule (indexer_init d) = 1 \<and>
    (\<exists>s. run msl p2sh early_schedule (indexer_init d) = Some s \<and> real_time_mod_enabled s \<and> ht_at s = HtReceiving)"
    by (simp add: early_schedule_def indexer_init_def rtvccn_task_def htvccn_task_def take_completion_def
        spawn_sync_task_impl_def empty_queue_application [OF assms])
  then show ?thesis by blast
qed

theorem an_early_disconnection_lets_the_historical_task_in_witness:
  "\<exists>es s. run 248 (\<lambda>_. spk_A) es (indexer_init db_empty) = Some s \<and> real_time_mod_enabled s \<and> ht_at s = HtReceiving"
proof -
  have "notification_queue db_empty = part_empty" by (simp add: db_empty_def)
  from an_early_disconnection_lets_the_historical_task_in [OF this] show ?thesis by blast
qed

text \<open>
  A chain change reported while the application is under way: the flag that it sets is read by nobody any
  more, and the syncer marks the state as synced.
\<close>

definition lost_schedule :: "event list" where
  "lost_schedule =
     [ApplyStep, HtTask, RtTask, RtTask, ChainChanged, CompletionStep, MarkStep, ClearStep, ReleaseStep, ReleaseCheck]"

theorem resync_requests_during_the_application_are_lost:
  assumes "notification_queue d = part_empty"
  shows "\<exists>es s. run msl p2sh es (indexer_init d) = Some s \<and> ChainChanged \<in> set es \<and> Disconnected \<notin> set es \<and>
    resync_requested s \<and> is_synced s \<and> \<not> sync_task_running s \<and> releasing s = 0 \<and> handler_at s = HandlerIdle"
proof -
  have "\<exists>s. run msl p2sh lost_schedule (indexer_init d) = Some s \<and> resync_requested s \<and> is_synced s \<and>
      \<not> sync_task_running s \<and> releasing s = 0 \<and> handler_at s = HandlerIdle"
    by (simp add: lost_schedule_def indexer_init_def rtvccn_task_def htvccn_task_def take_completion_def
        spawn_sync_task_impl_def empty_queue_application [OF assms])
  moreover have "ChainChanged \<in> set lost_schedule \<and> Disconnected \<notin> set lost_schedule" by (simp add: lost_schedule_def)
  ultimately show ?thesis by blast
qed

theorem resync_requests_during_the_application_are_lost_witness:
  "\<exists>es s. run 248 (\<lambda>_. spk_A) es (indexer_init db_empty) = Some s \<and> resync_requested s \<and> is_synced s \<and> \<not> sync_task_running s"
proof -
  have "notification_queue db_empty = part_empty" by (simp add: db_empty_def)
  from resync_requests_during_the_application_are_lost [OF this] show ?thesis by blast
qed

text \<open>
  A schedule of chain changes alone in which a handler is interrupted between clearing
  \<^verbatim>\<open>is_synced\<close> and spawning the sync task, and another one before it clears \<^verbatim>\<open>is_synced\<close>.
\<close>

definition apply_schedule :: "event list" where
  "apply_schedule = [ApplyStep, HtTask, RtTask, RtTask, CompletionStep, MarkStep]"

definition switch_schedule :: "event list" where
  "switch_schedule = [RtTask, RtTask, HtTask]"

definition release_schedule :: "event list" where
  "release_schedule = [ClearStep, ReleaseStep, ReleaseCheck]"

definition interrupted_schedule :: "event list" where
  "interrupted_schedule =
     apply_schedule @ [ChainChanged, HandlerStep] @ release_schedule @ switch_schedule @
     apply_schedule @ release_schedule @ [HandlerStep, ApplyStep, ChainChanged] @ switch_schedule @
     [HtTask, RtTask, RtTask, CompletionStep, MarkStep, HandlerStep, HandlerStep] @ release_schedule @ [ReplayStep no_changes]"

definition stalled :: "indexer \<Rightarrow> bool" where
  "stalled s = (under_way s = 0 \<and> \<not> is_synced s \<and> sync_at s = SyncWait \<and> sync_task_running s \<and>
     (ht_at s = HtSwitch \<or> ht_at s = HtStopped) \<and> (\<forall>dis. handler_at s \<noteq> HandlerSwitched dis))"

lemma stalled_run:
  assumes "notification_queue d = part_empty"
  shows "\<exists>s. run msl p2sh interrupted_schedule (indexer_init d) = Some s \<and> stalled s"
  by (simp add: interrupted_schedule_def apply_schedule_def switch_schedule_def release_schedule_def indexer_init_def
      rtvccn_task_def htvccn_task_def take_completion_def spawn_sync_task_impl_def stalled_def under_way_def
      empty_queue_application [OF assms])

lemma stalled_step:
  assumes "stalled s" "indexer_step msl p2sh e s = Some s'" "e = Disconnected \<longrightarrow> is_synced s"
  shows "stalled s'"
proof -
  consider "e = RtTask" | "e = HtTask" | "e = CompletionStep" | "\<not> task_event e" by (auto simp: task_event_def)
  then show ?thesis
  proof cases
    case 1
    with assms(2) have "rtvccn_task msl p2sh s = Some s'" by simp
    then show ?thesis by (cases rule: rt_task_cases) (use assms(1) in \<open>auto simp: stalled_def under_way_def\<close>)
  next
    case 2
    with assms(2) have "htvccn_task msl p2sh s = Some s'" by simp
    then show ?thesis by (cases rule: ht_task_cases) (use assms(1) in \<open>auto simp: stalled_def under_way_def\<close>)
  next
    case 3
    show ?thesis using assms(2) unfolding 3 by (cases rule: completion_cases) (use assms(1) in \<open>auto simp: stalled_def\<close>)
  next
    case 4
    with assms show ?thesis
      by (cases e; clarsimp simp: task_event_def Let_def split: if_splits handler_place.splits;
          simp add: stalled_def under_way_def)
  qed
qed

lemma stalled_for_good:
  "run msl p2sh es s = Some s' \<Longrightarrow> early_disconnections msl p2sh es s = 0 \<Longrightarrow> stalled s \<Longrightarrow> stalled s'"
proof (induction es arbitrary: s)
  case (Cons e es)
  then obtain s1 where s1: "indexer_step msl p2sh e s = Some s1" "run msl p2sh es s1 = Some s'"
    by (auto simp: Option.bind_eq_Some_conv)
  with Cons.prems have "e = Disconnected \<longrightarrow> is_synced s" "early_disconnections msl p2sh es s1 = 0" by auto
  with Cons.IH [OF s1(2)] stalled_step [OF Cons.prems(3) s1(1)] show ?case by blast
qed simp

text \<open>Interrupted handlers can stall the synchronisation even without disconnections: a sync task that a
  late handler spawned over a synced state can consume the switch of a later notification, after which the
  replay of the next synchronisation waits behind a historical task that no switch will reach, whatever happens
  before the next disconnection.\<close>

theorem interrupted_handlers_stall_the_synchronisation:
  assumes "notification_queue d = part_empty"
  shows "\<exists>es s. run msl p2sh es (indexer_init d) = Some s \<and> Disconnected \<notin> set es \<and>
     (\<forall>es' s'. run msl p2sh es' s = Some s' \<and> early_disconnections msl p2sh es' s = 0 \<longrightarrow>
        \<not> is_synced s' \<and> sync_at s' = SyncWait \<and> ht_at s' \<noteq> HtReceiving)"
proof -
  obtain s where s: "run msl p2sh interrupted_schedule (indexer_init d) = Some s" "stalled s"
    using stalled_run [OF assms] by blast
  moreover have "Disconnected \<notin> set interrupted_schedule"
    by (simp add: interrupted_schedule_def apply_schedule_def switch_schedule_def release_schedule_def)
  moreover have "\<not> is_synced s' \<and> sync_at s' = SyncWait \<and> ht_at s' \<noteq> HtReceiving"
    if "run msl p2sh es' s = Some s' \<and> early_disconnections msl p2sh es' s = 0" for es' s'
    using stalled_for_good [OF _ _ s(2)] that unfolding stalled_def by force
  ultimately show ?thesis by blast
qed

theorem interrupted_handlers_stall_the_synchronisation_witness:
  "\<exists>s. evolves 248 (\<lambda>_. spk_A) (indexer_init db_empty) s \<and> \<not> is_synced s \<and> sync_at s = SyncWait \<and> ht_at s \<noteq> HtReceiving"
proof -
  have "notification_queue db_empty = part_empty" by (simp add: db_empty_def)
  from interrupted_handlers_stall_the_synchronisation [OF this, of 248 "\<lambda>_. spk_A"]
  obtain es s where s: "run 248 (\<lambda>_. spk_A) es (indexer_init db_empty) = Some s"
    "\<forall>es' s'. run 248 (\<lambda>_. spk_A) es' s = Some s' \<and> early_disconnections 248 (\<lambda>_. spk_A) es' s = 0 \<longrightarrow>
       \<not> is_synced s' \<and> sync_at s' = SyncWait \<and> ht_at s' \<noteq> HtReceiving"
    by blast
  have "run 248 (\<lambda>_. spk_A) [] s = Some s \<and> early_disconnections 248 (\<lambda>_. spk_A) [] s = 0" by simp
  with s evolves_run show ?thesis by blast
qed

section \<open>Witnesses\<close>

text \<open>The state of a database that has been synchronised: the real-time mode is enabled.\<close>

lemma synced_run:
  "\<exists>s. run 248 (\<lambda>_. spk_A) apply_schedule (indexer_init db_empty) = Some s \<and> real_time_mod_enabled s \<and>
     early_disconnections 248 (\<lambda>_. spk_A) apply_schedule (indexer_init db_empty) = 0"
proof -
  have q: "notification_queue db_empty = part_empty" by (simp add: db_empty_def)
  show ?thesis
    by (simp add: apply_schedule_def indexer_init_def rtvccn_task_def htvccn_task_def take_completion_def
        empty_queue_application [OF q])
qed

theorem historical_task_waits_in_real_time_mode_witness:
  "\<exists>s :: indexer. real_time_mod_enabled s \<and> ht_at s \<noteq> HtReceiving \<and>
     (\<forall>s'. htvccn_task 248 (\<lambda>_. spk_A) s = Some s' \<longrightarrow> store s' = store s)"
  using synced_run historical_task_waits_in_real_time_mode [of 248 "\<lambda>_. spk_A" apply_schedule db_empty] by blast

theorem task_steps_terminate_witness:
  "length [HtTask, RtTask, RtTask] +
     pending_work (the (run 248 (\<lambda>_. spk_A) [HtTask, RtTask, RtTask] (the (run 248 (\<lambda>_. spk_A) [ApplyStep] (indexer_init db_empty)))))
   \<le> pending_work (the (run 248 (\<lambda>_. spk_A) [ApplyStep] (indexer_init db_empty)))"
proof -
  have q: "notification_queue db_empty = part_empty" by (simp add: db_empty_def)
  show ?thesis
    by (rule task_steps_terminate [of _ 248 "\<lambda>_. spk_A"])
      (simp_all add: indexer_init_def rtvccn_task_def htvccn_task_def empty_queue_application [OF q])
qed

text \<open>
  A disconnection while the state is not synced, the end of the synchronisation, and a disconnection of the
  synced state: the real-time task waits for the historical one, which takes the first switch.
\<close>

definition one_early_schedule :: "event list" where
  "one_early_schedule =
     [Disconnected, HandlerStep, HandlerStep, ApplyStep, HtTask, RtTask, RtTask, RtTask, RtTask, CompletionStep,
      MarkStep, Disconnected]"

lemma one_early_run:
  "\<exists>s s'. run 248 (\<lambda>_. spk_A) one_early_schedule (indexer_init db_empty) = Some s \<and>
     early_disconnections 248 (\<lambda>_. spk_A) one_early_schedule (indexer_init db_empty) = 1 \<and>
     run 248 (\<lambda>_. spk_A) [RtTask, HtTask, RtTask] s = Some s' \<and>
     rtvccn_task 248 (\<lambda>_. spk_A) s' = None \<and> htvccn_task 248 (\<lambda>_. spk_A) s' = None \<and> ht_at s' = HtReceiving"
proof -
  have q: "notification_queue db_empty = part_empty" by (simp add: db_empty_def)
  show ?thesis
    by (simp add: one_early_schedule_def indexer_init_def rtvccn_task_def htvccn_task_def take_completion_def
        spawn_sync_task_impl_def empty_queue_application [OF q])
qed

theorem tasks_never_block_each_other_witness:
  "\<exists>s s'. 3 \<le> pending_work s \<and> run 248 (\<lambda>_. spk_A) [RtTask, HtTask, RtTask] s = Some s' \<and>
     rtvccn_task 248 (\<lambda>_. spk_A) s' = None \<and> htvccn_task 248 (\<lambda>_. spk_A) s' = None \<and> ht_channel s' = []"
proof -
  obtain s s' where s: "run 248 (\<lambda>_. spk_A) one_early_schedule (indexer_init db_empty) = Some s"
    "early_disconnections 248 (\<lambda>_. spk_A) one_early_schedule (indexer_init db_empty) = 1"
    "run 248 (\<lambda>_. spk_A) [RtTask, HtTask, RtTask] s = Some s'"
    "rtvccn_task 248 (\<lambda>_. spk_A) s' = None" "htvccn_task 248 (\<lambda>_. spk_A) s' = None" "ht_at s' = HtReceiving"
    using one_early_run by blast
  have "length [RtTask, HtTask, RtTask] \<le> pending_work s \<and>
    (rtvccn_task 248 (\<lambda>_. spk_A) s' = None \<and> htvccn_task 248 (\<lambda>_. spk_A) s' = None \<longrightarrow>
      (rt_at s' = RtReceiving \<and> rt_channel s' = [] \<or> rt_at s' = RtStopped \<or> ht_at s' = HtStopped) \<and>
      (ht_at s' = HtReceiving \<longrightarrow> ht_channel s' = []) \<and> (ht_at s' = HtApplying \<longrightarrow> rt_at s' = RtStopped))"
    by (rule tasks_never_block_each_other [OF s(1) _ _ s(3)]) (simp_all add: s(2))
  with s(3-6) show ?thesis by (intro exI [of _ s] exI [of _ s']) simp
qed


end
