(* ===== verification/Synchronisation.thy ===== *)
theory Synchronisation
  imports Syncer ChainBlocks Tasks
begin

text \<open>
  The loop of the historical synchronisation, \<^verbatim>\<open>sync_task\<close> of \<^verbatim>\<open>nexus/src/syncer.rs\<close>, one iteration at a
  time and on the data: which changes are sent to the processor, which block becomes the last known
  one, and when the loop ends. The answers of the node in one iteration are a record; the
  interleaving with the other threads is the subject of \<^verbatim>\<open>Tasks\<close>.
\<close>

section \<open>State and answers\<close>

record syncer =
  sy_last_known_block :: blue_hash_key
  sy_target :: "blue_hash_key option"
  sy_is_synced :: bool
  sy_resync_requested :: bool
  sy_db :: db

text \<open>
  What one iteration may ask: the historical data (removed hashes, added hashes, acceptance records),
  the blocks, the sink before marking the state synced, the sink after a bypassed target, and whether
  the channel to the processor is open. Nothing stands for a failed call.
\<close>

record answers =
  an_history :: "(hash list \<times> hash list \<times> accepted_transactions list) option"
  an_blocks :: bridge
  an_latest_sink :: "blue_hash_key option"
  an_refreshed_sink :: "blue_hash_key option"
  an_open :: bool

section \<open>Operations\<close>

text \<open>The processor replies after it has processed the changes; an error of the processing is an error here.\<close>

definition send_and_wait :: "u64 \<Rightarrow> (bytes \<Rightarrow> spk) \<Rightarrow> bool \<Rightarrow> virtual_chain_changes \<Rightarrow> db \<Rightarrow> bool \<times> db" where
  "send_and_wait msl p2sh open vcc d =
     (if \<not> open then (False, d)
      else (case process_chain_changes msl p2sh vcc d of (Inl e, d') \<Rightarrow> (False, d') | (Inr _, d') \<Rightarrow> (True, d')))"

text \<open>The queue is applied after a success; its own outcome does not reach the sender.\<close>

definition send_and_apply_queue :: "u64 \<Rightarrow> (bytes \<Rightarrow> spk) \<Rightarrow> bool \<Rightarrow> virtual_chain_changes \<Rightarrow> db \<Rightarrow> bool \<times> db" where
  "send_and_apply_queue msl p2sh open vcc d =
     (if \<not> open then (False, d)
      else (case process_chain_changes msl p2sh vcc d of
              (Inl e, d') \<Rightarrow> (False, d')
            | (Inr _, d') \<Rightarrow> (True, snd (process_queue_application msl p2sh d'))))"

definition last_added_chain_block :: "bridge \<Rightarrow> hash list \<Rightarrow> sync_error + blue_hash_key option" where
  "last_added_chain_block br added =
     (if added = [] then Inr None
      else (case br (last added) of
              None \<Rightarrow> Inl BridgeError
            | Some b \<Rightarrow> Inr (Some (BlueScoredChainBlockHash (bl_blue_score b) (last added)))))"

definition mark_synced_if_at_current_sink :: "u64 \<Rightarrow> (bytes \<Rightarrow> spk) \<Rightarrow> answers \<Rightarrow> syncer \<Rightarrow> bool \<times> syncer" where
  "mark_synced_if_at_current_sink msl p2sh ans s =
     (case an_latest_sink ans of
        None \<Rightarrow> (False, s)
      | Some latest_sink \<Rightarrow>
         (let s1 = s\<lparr>sy_resync_requested := False\<rparr> in
          if \<not> is_same_sync_point (sy_last_known_block s) latest_sink then (False, s1\<lparr>sy_target := Some latest_sink\<rparr>)
          else
           (let (sent, d) = send_and_apply_queue msl p2sh (an_open ans) no_changes (sy_db s1) in
            if \<not> sent then (False, s1\<lparr>sy_db := d\<rparr>)
            else (True, s1\<lparr>sy_db := d, sy_is_synced := True, sy_target := None\<rparr>))))"

definition current_sync_target_or :: "syncer \<Rightarrow> blue_hash_key \<Rightarrow> blue_hash_key" where
  "current_sync_target_or s fallback = value_or fallback (sy_target s)"

definition refresh_sync_target_or :: "answers \<Rightarrow> blue_hash_key \<Rightarrow> blue_hash_key" where
  "refresh_sync_target_or ans fallback = value_or fallback (an_refreshed_sink ans)"

text \<open>
  A last known block at or beyond the sink that the node does not remove is removed all the same, with
  a rollback to its score.
\<close>

definition rollback_of_stale_point ::
  "blue_hash_key \<Rightarrow> blue_hash_key \<Rightarrow> hash list \<Rightarrow> hash list \<times> u64 option" where
  "rollback_of_stale_point from sink removed =
     (if bh_blue_score from \<ge> bh_blue_score sink \<and> bh_block_hash from \<noteq> bh_block_hash sink \<and> bh_block_hash from \<notin> set removed
      then (removed @ [bh_block_hash from], Some (bh_blue_score from))
      else (removed, None))"

text \<open>
  One iteration: whether the loop ends, the sink and the state for the next one. A panic of the
  analyzer is on the left.
\<close>

definition sync_round ::
  "('a, 'p) node \<Rightarrow> 'p analyzer \<Rightarrow> (rpc_transaction \<Rightarrow> transaction option) \<Rightarrow> u64 \<Rightarrow> (bytes \<Rightarrow> spk) \<Rightarrow> answers
     \<Rightarrow> blue_hash_key \<Rightarrow> syncer \<Rightarrow> string + (bool \<times> blue_hash_key \<times> syncer)" where
  "sync_round node an convert msl p2sh ans sink s =
     (let from = sy_last_known_block s;
          finish = (\<lambda>s. let (synced, s') = mark_synced_if_at_current_sink msl p2sh ans s in
                     Inr (synced, if synced then sink else current_sync_target_or s' sink, s')) in
      if is_same_sync_point from sink then finish s
      else (case an_history ans of
        None \<Rightarrow> Inr (False, sink, s)
      | Some (removed0, added, accepted) \<Rightarrow>
         (let (removed, forced) = rollback_of_stale_point from sink removed0 in
          case validate_historical_acceptance_coverage added accepted of
            Inl _ \<Rightarrow> Inr (False, sink, s)
          | Inr _ \<Rightarrow>
             (let last_added = (case last_added_chain_block (an_blocks ans) added of Inr x \<Rightarrow> x | Inl _ \<Rightarrow> None) in
              if last_added = None \<and> removed = [] then Inr (False, sink, s)
              else
               (let target = value_or sink (sy_target s);
                    s1 = s\<lparr>sy_target := Some target\<rparr>;
                    progress = classify_target_progress added last_added target in
                case reconstruct_and_process_acceptance_data node an convert (an_blocks ans) accepted of
                  Inl _ \<Rightarrow> Inr (False, sink, s1)
                | Inr (Inl msg) \<Rightarrow> Inl msg
                | Inr (Inr (ms, rejections)) \<Rightarrow>
                   (let (sent, d) = send_and_wait msl p2sh (an_open ans)
                          \<lparr>removed_chain_block_hashes = removed, forced_rollback_blue_score = forced, mergesets = ms\<rparr> (sy_db s1);
                        s2 = s1\<lparr>sy_db := d\<rparr> in
                    if \<not> sent then Inr (False, sink, s2)
                    else (case (case last_added of Some b \<Rightarrow> Some b | None \<Rightarrow> last_accepted_block (chain_block_scores d)) of
                      None \<Rightarrow> Inr (False, sink, s2)
                    | Some b \<Rightarrow>
                       (let s3 = s2\<lparr>sy_last_known_block := b\<rparr> in
                        case progress of
                          Obsolete \<Rightarrow> (let sink' = refresh_sync_target_or ans sink in Inr (False, sink', s3\<lparr>sy_target := Some sink'\<rparr>))
                        | Reached \<Rightarrow> finish s3
                        | Pending \<Rightarrow> Inr (False, sink, s3)))))))))"

section \<open>The end of the loop\<close>

lemma mark_synced_True:
  assumes "mark_synced_if_at_current_sink msl p2sh ans s = (True, s')"
  shows "sy_is_synced s' \<and> sy_target s' = None \<and> \<not> sy_resync_requested s' \<and> an_latest_sink ans = Some (sy_last_known_block s')"
  using assms
  by (auto simp: mark_synced_if_at_current_sink_def is_same_sync_point_def Let_def split: option.splits if_splits prod.splits)

lemma mark_synced_False:
  assumes "mark_synced_if_at_current_sink msl p2sh ans s = (False, s')"
  shows "sy_db s' = sy_db s"
  using assms
  by (auto simp: mark_synced_if_at_current_sink_def Let_def send_and_apply_queue_def process_chain_changes_def
      no_changes_def split: option.splits if_splits prod.splits sum.splits)

text \<open>The synchronisation ends only at the sink: when an iteration ends the loop, the last known block is the
  sink that the node reported in that iteration, with the same hash, the target and a pending request for another
  synchronisation are cleared, and the state is marked synced.\<close>

theorem synchronisation_ends_at_the_sink:
  assumes "sync_round node an convert msl p2sh ans sink s = Inr (True, sink', s')"
  shows "sy_is_synced s' \<and> sy_target s' = None \<and> \<not> sy_resync_requested s' \<and> an_latest_sink ans = Some (sy_last_known_block s')"
proof -
  obtain s0 where "mark_synced_if_at_current_sink msl p2sh ans s0 = (True, s')"
    using assms
    by (auto simp: sync_round_def Let_def split: if_splits option.splits sum.splits prod.splits target_progress.splits)
  then show ?thesis by (rule mark_synced_True)
qed

definition sink_A :: blue_hash_key where "sink_A = BlueScoredChainBlockHash 5 55"

definition answers_A :: "(hash list \<times> hash list \<times> accepted_transactions list) option \<Rightarrow> answers" where
  "answers_A history = \<lparr>an_history = history, an_blocks = Map.empty, an_latest_sink = Some sink_A, an_refreshed_sink = None,
     an_open = True\<rparr>"

definition syncer_A :: "blue_hash_key \<Rightarrow> syncer" where
  "syncer_A last_known = \<lparr>sy_last_known_block = last_known, sy_target = None, sy_is_synced = False,
     sy_resync_requested = True, sy_db = db_two_blocks\<rparr>"

theorem synchronisation_ends_at_the_sink_witness:
  "\<exists>s'. sync_round sample_node sample_analyzer (\<lambda>_. None) 248 (\<lambda>_. spk_A) (answers_A None) sink_A (syncer_A sink_A) =
      Inr (True, sink_A, s') \<and> sy_is_synced s' \<and> an_latest_sink (answers_A None) = Some (sy_last_known_block s')"
proof -
  obtain s' where r: "sync_round sample_node sample_analyzer (\<lambda>_. None) 248 (\<lambda>_. spk_A) (answers_A None) sink_A (syncer_A sink_A) =
      Inr (True, sink_A, s')"
    by (simp add: sync_round_def mark_synced_if_at_current_sink_def send_and_apply_queue_def process_chain_changes_def
        process_chain_changes_wtx_def no_changes_def answers_A_def syncer_A_def is_same_sync_point_def Let_def)
  with synchronisation_ends_at_the_sink [OF r] show ?thesis by blast
qed

section \<open>A stale last known block\<close>

lemma reconstruct_blocks_hashes:
  "reconstruct_blocks br as cache = Inr cbs \<Longrightarrow> map (\<lambda>cb. Some (cb_accepted_chain_block_hash cb)) cbs = map ac_hash as"
proof (induction "as" arbitrary: cache cbs)
  case (Cons a "as")
  then obtain cb cache1 cbs' where h: "reconstruct_chain_block_acceptance br a cache = Inr (cb, cache1)"
    and t: "reconstruct_blocks br as cache1 = Inr cbs'" and cbs: "cbs = cb # cbs'"
    by (auto simp: and_then_Inr_iff)
  have "ac_hash a = Some (cb_accepted_chain_block_hash cb)"
    using h by (auto simp: reconstruct_chain_block_acceptance_def and_then_Inr_iff sync_ok_or_def Let_def split: option.splits)
  with Cons.IH [OF t] cbs show ?case by simp
qed simp

lemma process_reconstructed_hashes:
  "process_reconstructed_acceptance_data node an convert cbs = Inr (ms, rs) \<Longrightarrow>
   map ms_accepted_chain_block_hash ms = map cb_accepted_chain_block_hash cbs"
  by (induction cbs arbitrary: ms rs) (auto simp: and_then_Inr_iff mergeset_of_block_def)

lemma reconstructed_hashes:
  assumes "validate_historical_acceptance_coverage added accepted = Inr ()"
    and "reconstruct_and_process_acceptance_data node an convert br accepted = Inr (Inr (ms, rs))"
  shows "map ms_accepted_chain_block_hash ms = added"
proof -
  obtain cbs where c: "reconstruct_blocks br accepted Map.empty = Inr cbs"
    and p: "process_reconstructed_acceptance_data node an convert cbs = Inr (ms, rs)"
    using assms(2) by (auto simp: reconstruct_and_process_acceptance_data_def and_then_Inr_iff)
  have "map Some (map cb_accepted_chain_block_hash cbs) = map Some added"
    using reconstruct_blocks_hashes [OF c] assms(1) [unfolded validate_coverage_iff] by (simp add: o_def)
  then have "map cb_accepted_chain_block_hash cbs = added" by (simp only: inj_map_eq_map [OF inj_Some])
  then show ?thesis by (simp add: process_reconstructed_hashes [OF p])
qed

lemma send_and_wait_db:
  assumes "send_and_wait msl p2sh op vcc d = (sent, d')"
  shows "d' = d \<or> process_chain_changes_wtx msl p2sh vcc d = Inr d'"
  using assms by (auto simp: send_and_wait_def process_chain_changes_def split: if_splits sum.splits prod.splits)

lemma forced_rollback_blocks:
  assumes r: "process_chain_changes_wtx msl p2sh vcc d = Inr d'" and ok: "chain_index_ok d"
    and f: "forced_rollback_blue_score vcc = Some s"
    and k: "k \<in> chain_blocks d'" "s \<le> bh_blue_score k"
  shows "bh_block_hash k \<in> ms_accepted_chain_block_hash ` set (mergesets vcc)"
proof -
  obtain m where m: "rollback_score d vcc = Some m" "m \<le> s" by (rule rollback_score_forced [OF f])
  have "k \<notin> kept_blocks d vcc" using m k(2) by (auto simp: kept_blocks_def)
  then show ?thesis using chain_changes_blocks(2) [OF r ok] k(1) by (auto simp: mergeset_block_def)
qed

text \<open>C14: A last known block that the node has left is rolled back even when the response does not remove it: after an
  iteration that starts at or beyond the sink on another block, and does not end the loop, either the database is
  as it was, or every chain block at or above the score of the old block is one that the response added. The old
  block itself can only stay if it was added again.\<close>

theorem stale_sync_point_is_rolled_back:
  assumes "sync_round node an convert msl p2sh ans sink s = Inr (False, sink', s')"
    and "bh_blue_score sink \<le> bh_blue_score (sy_last_known_block s)"
    and "bh_block_hash (sy_last_known_block s) \<noteq> bh_block_hash sink"
    and "an_history ans = Some (removed, added, accepted)" and "bh_block_hash (sy_last_known_block s) \<notin> set removed"
    and "chain_index_ok (sy_db s)"
  shows "sy_db s' = sy_db s \<or>
    (\<forall>k \<in> chain_blocks (sy_db s'). bh_blue_score (sy_last_known_block s) \<le> bh_blue_score k \<longrightarrow> bh_block_hash k \<in> set added)"
proof -
  let ?from = "sy_last_known_block s"
  have stale: "\<not> is_same_sync_point ?from sink"
    "rollback_of_stale_point ?from sink removed = (removed @ [bh_block_hash ?from], Some (bh_blue_score ?from))"
    using assms(2,3,5) by (auto simp: is_same_sync_point_def rollback_of_stale_point_def)
  consider "sy_db s' = sy_db s" | ms rs sent
    where "validate_historical_acceptance_coverage added accepted = Inr ()"
      "reconstruct_and_process_acceptance_data node an convert (an_blocks ans) accepted = Inr (Inr (ms, rs))"
      "send_and_wait msl p2sh (an_open ans) \<lparr>removed_chain_block_hashes = removed @ [bh_block_hash ?from],
         forced_rollback_blue_score = Some (bh_blue_score ?from), mergesets = ms\<rparr> (sy_db s) = (sent, sy_db s')"
    using assms(1) stale
    by (auto simp: sync_round_def Let_def assms(4) split: if_splits option.splits sum.splits prod.splits target_progress.splits
        dest: mark_synced_False)
  then show ?thesis
  proof cases
    case 2
    from send_and_wait_db [OF 2(3)] show ?thesis
    proof
      assume r: "process_chain_changes_wtx msl p2sh \<lparr>removed_chain_block_hashes = removed @ [bh_block_hash ?from],
         forced_rollback_blue_score = Some (bh_blue_score ?from), mergesets = ms\<rparr> (sy_db s) = Inr (sy_db s')"
      have "bh_block_hash k \<in> set added" if "k \<in> chain_blocks (sy_db s')" "bh_blue_score ?from \<le> bh_blue_score k" for k
        using forced_rollback_blocks [OF r assms(6) _ that] reconstructed_hashes [OF 2(1,2)] by auto
      then show ?thesis by blast
    qed simp
  qed simp
qed

text \<open>The iteration removes block 66 of the sample database, that the node has left for a shorter chain.\<close>

lemma stale_round:
  "\<exists>sink' s'. sync_round sample_node sample_analyzer (\<lambda>_. None) 248 (\<lambda>_. spk_A) (answers_A (Some ([], [], []))) sink_A
     (syncer_A (BlueScoredChainBlockHash 6 66)) = Inr (False, sink', s')"
  by (auto simp: sync_round_def Let_def answers_A_def syncer_A_def is_same_sync_point_def sink_A_def rollback_of_stale_point_def
      validate_historical_acceptance_coverage_def last_added_chain_block_def classify_target_progress_def value_or_def
      reconstruct_and_process_acceptance_data_def split: option.splits prod.splits)

theorem stale_sync_point_is_rolled_back_witness:
  "\<exists>sink' s'. sync_round sample_node sample_analyzer (\<lambda>_. None) 248 (\<lambda>_. spk_A) (answers_A (Some ([], [], []))) sink_A
     (syncer_A (BlueScoredChainBlockHash 6 66)) = Inr (False, sink', s') \<and>
     (sy_db s' = db_two_blocks \<or> (\<forall>k \<in> chain_blocks (sy_db s'). bh_blue_score k < 6))"
proof -
  obtain sink' s' where r: "sync_round sample_node sample_analyzer (\<lambda>_. None) 248 (\<lambda>_. spk_A) (answers_A (Some ([], [], []))) sink_A
     (syncer_A (BlueScoredChainBlockHash 6 66)) = Inr (False, sink', s')" using stale_round by blast
  have "sy_db s' = db_two_blocks \<or> (\<forall>k \<in> chain_blocks (sy_db s'). 6 \<le> bh_blue_score k \<longrightarrow> bh_block_hash k \<in> set [])"
    using stale_sync_point_is_rolled_back [OF r, of "[]" "[]" "[]"] db_two_blocks_index
    by (simp add: syncer_A_def sink_A_def answers_A_def)
  with r show ?thesis by (auto simp: not_le)
qed

end
