(* ===== verification/View.thy ===== *)
theory View
  imports ApiText Queries
begin

text \<open>
  The read side of the database, \<^verbatim>\<open>nexus/src/nft_view.rs\<close>, with the collectors of \<^verbatim>\<open>nexus/src/utils.rs\<close> that
  cut a page: every endpoint of \<^verbatim>\<open>DbView\<close> as a function of the database. A list endpoint scans a range of a
  partition in one of two directions, reads one row more than the page holds, and returns that row apart.
  The left of a result is a panic of the thread that reads, or an inconsistency of the listing index.
  A page size is a natural number: the caller bounds it, so the sum of one and it does not overflow.
\<close>

section \<open>The collectors\<close>

fun split_last_loop :: "'t list \<Rightarrow> 't \<Rightarrow> 't list \<Rightarrow> 't list \<times> 't" where
  "split_last_loop init lst [] = (init, lst)"
| "split_last_loop init lst (item # iter) = split_last_loop (init @ [lst]) item iter"

fun collect_split_last :: "'t list \<Rightarrow> ('t list \<times> 't) option" where
  "collect_split_last [] = None"
| "collect_split_last [first] = Some ([], first)"
| "collect_split_last (first # second # iter) = Some (split_last_loop [first] second iter)"

fun result_split_last_loop :: "'t list \<Rightarrow> 't option \<Rightarrow> ('e + 't) list \<Rightarrow> 'e + ('t list \<times> 't) option" where
  "result_split_last_loop init lst [] = Inr (map_option (\<lambda>l. (init, l)) lst)"
| "result_split_last_loop init lst (Inr v # iter) =
     result_split_last_loop (case lst of None \<Rightarrow> init | Some prev \<Rightarrow> init @ [prev]) (Some v) iter"
| "result_split_last_loop init lst (Inl e # iter) = Inl e"

definition collect_split_last_result :: "('e + 't) list \<Rightarrow> 'e + ('t list \<times> 't) option" where
  "collect_split_last_result iter = result_split_last_loop [] None iter"

section \<open>Arguments and results\<close>

datatype direction = Forward | Backward

record 'o iterator_args =
  ia_offset :: 'o
  ia_direction :: direction
  ia_limit :: nat

datatype view_error = ViewPanic string | ListingIndexInconsistency

type_synonym 'a view = "view_error + 'a"

datatype token_listing_state = Unlisted | Listed

record token_status =
  st_state :: token_listing_state
  st_listing_tx_id :: "hash option"
  st_op_score :: "u64 option"

definition unlisted :: token_status where
  "unlisted = \<lparr>st_state = Unlisted, st_listing_tx_id = None, st_op_score = None\<rparr>"

definition listed :: "hash \<Rightarrow> u64 \<Rightarrow> token_status" where
  "listed tx op = \<lparr>st_state = Listed, st_listing_tx_id = Some tx, st_op_score = Some op\<rparr>"

definition token_status_of :: "listing_value option \<Rightarrow> token_status" where
  "token_status_of l = (case l of Some lv \<Rightarrow> listed (lv_listing_tx_id lv) (lv_op_score lv) | None \<Rightarrow> unlisted)"

datatype collection_state = Deployed | Finished

record collection =
  cl_deploy_info_with_common :: deploy_info_with_common
  cl_minted :: u64
  cl_op_score_modified :: u64
  cl_state :: collection_state
  cl_mts_mod :: u64
  cl_op_score_added :: u64

record nft_lookup_entry =
  ne_token_id :: u64
  ne_mod_tx_score :: u64
  ne_listing :: "listing_value option"

record ownership =
  ow_token_id :: u64
  ow_owner :: spk
  ow_mod_tx_score :: u64
  ow_listing :: "listing_value option"

record token_lookup_entry =
  te_owner :: spk
  te_mod_tx_score :: u64
  te_listing :: "listing_value option"

record token_history_record =
  hr_owner :: spk
  hr_mod_tx_score :: u64
  hr_tx_id :: hash

record address_nft_info =
  an_tick :: tick
  an_tick_metadata :: "metadata option"
  an_token_id :: u64
  an_op_score_modified :: u64
  an_status :: token_status

record listing_entry =
  le_tick :: tick
  le_token_id :: u64
  le_seller :: spk
  le_listing_tx_id :: hash
  le_redeem_script :: bytes
  le_op_score :: u64

definition incompatible :: "ustring list \<Rightarrow> deploy_info_with_common \<Rightarrow> bool" where
  "incompatible protocols dw = has_incompatible_uri_prefix protocols (di_metadata (dw_info dw))"

section \<open>Pages\<close>

text \<open>\<^verbatim>\<open>process_iter\<close>: the rows of one page and one more, each turned into an item.\<close>

definition process_iter :: "('k \<times> 'v) list \<Rightarrow> nat \<Rightarrow> ('k \<Rightarrow> 'v \<Rightarrow> 't view) \<Rightarrow> ('t list \<times> 't) option view" where
  "process_iter rows limit f = collect_split_last_result (take (limit + 1) (map (\<lambda>(k, v). f k v) rows))"

definition token_listing :: "db \<Rightarrow> tick \<Rightarrow> u64 \<Rightarrow> listing_value option" where
  "token_listing d t i = part_get (listings d) (OwnershipKey t i)"

text \<open>The collection of a tick, if it is deployed and its metadata is at an acceptable address.\<close>

definition visible_collection :: "db \<Rightarrow> tick \<Rightarrow> ustring list \<Rightarrow> scored_deploy_info option" where
  "visible_collection d t protocols =
     (case part_get (collection_registry d) t of
        None \<Rightarrow> None
      | Some sdi \<Rightarrow> if incompatible protocols (sd_deploy_info sdi) then None else Some sdi)"

section \<open>Collections\<close>

definition collection_entry :: "db \<Rightarrow> deployment_key \<Rightarrow> deploy_info_with_common \<Rightarrow> collection view" where
  "collection_entry d k info =
     (let last_mint_seq = last_minted_token_seq_no (dk_tick k) (mint_history d) in
      and_then
        (case last_mint_seq of
           None \<Rightarrow> Inr None
         | Some t \<Rightarrow>
           (case part_get (operation_history d) (ts_score t) of
              None \<Rightarrow> Inl (ViewPanic ''called Option::unwrap on a None value'')
            | Some v \<Rightarrow> Inr (Some (oc_block_time (op_common (co_operation v))))))
        (\<lambda>mts_mod. Inr
           \<lparr>cl_deploy_info_with_common = info,
            cl_minted = (case last_mint_seq of Some t \<Rightarrow> ts_seq_no t | None \<Rightarrow> 0),
            cl_op_score_modified = (case last_mint_seq of Some t \<Rightarrow> ts_score t | None \<Rightarrow> dk_score k),
            cl_state = Deployed,
            cl_mts_mod = (case mts_mod of Some m \<Rightarrow> m | None \<Rightarrow> oc_block_time (dw_common info)),
            cl_op_score_added = dk_score k\<rparr>))"

definition deployment_rows ::
  "db \<Rightarrow> u64 \<Rightarrow> direction \<Rightarrow> ustring list \<Rightarrow> (deployment_key \<times> deploy_info_with_common) list" where
  "deployment_rows d offset dir protocols =
     filter (\<lambda>(k, v). \<not> incompatible protocols v)
       (case dir of
          Forward \<Rightarrow> part_range (Included (DeploymentKey offset tick_MIN)) Unbounded (collection_deployments d)
        | Backward \<Rightarrow> rev (part_range Unbounded (Included (DeploymentKey offset tick_MAX)) (collection_deployments d)))"

definition krc721_collection_list ::
  "db \<Rightarrow> u64 iterator_args \<Rightarrow> ustring list \<Rightarrow> (collection list \<times> collection) option view" where
  "krc721_collection_list d a protocols =
     process_iter (deployment_rows d (ia_offset a) (ia_direction a) protocols) (ia_limit a) (collection_entry d)"

definition krc721_collection_lookup :: "db \<Rightarrow> tick \<Rightarrow> ustring list \<Rightarrow> collection option" where
  "krc721_collection_lookup d t protocols =
     (case visible_collection d t protocols of
        None \<Rightarrow> None
      | Some sdi \<Rightarrow>
        (let deploy_score = sd_deploy_score sdi; info = sd_deploy_info sdi;
             last_mint_seq = last_minted_token_seq_no t (mint_history d);
             mts_mod = Option.bind last_mint_seq (\<lambda>l.
               map_option (\<lambda>v. oc_block_time (op_common (co_operation v)))
                 (part_get (operation_history d) (ts_score l)))
         in Some
           \<lparr>cl_deploy_info_with_common = info,
            cl_minted = (case last_mint_seq of Some l \<Rightarrow> ts_seq_no l | None \<Rightarrow> 0),
            cl_op_score_modified = (case last_mint_seq of Some l \<Rightarrow> ts_score l | None \<Rightarrow> deploy_score),
            cl_state = Deployed,
            cl_mts_mod = (case mts_mod of Some m \<Rightarrow> m | None \<Rightarrow> oc_block_time (dw_common info)),
            cl_op_score_added = deploy_score\<rparr>))"

definition krc721_deployment_list ::
  "db \<Rightarrow> u64 iterator_args \<Rightarrow> ustring list \<Rightarrow>
   ((u64 \<times> deploy_info_with_common) list \<times> (u64 \<times> deploy_info_with_common)) option view" where
  "krc721_deployment_list d a protocols =
     process_iter (deployment_rows d (ia_offset a) (ia_direction a) protocols) (ia_limit a)
       (\<lambda>k op. Inr (dk_score k, op))"

definition krc721_royalty_fee :: "db \<Rightarrow> spk \<Rightarrow> tick \<Rightarrow> ustring list \<Rightarrow> u64 option" where
  "krc721_royalty_fee d p t protocols =
     (case visible_collection d t protocols of
        None \<Rightarrow> None
      | Some sdi \<Rightarrow>
        (case last_fee p t (vip d) of
           Some fee \<Rightarrow> Some fee
         | None \<Rightarrow> map_option royalty_fee (di_royalty (dw_info (sd_deploy_info sdi)))))"

section \<open>Tokens\<close>

definition krc721_token_lookup :: "db \<Rightarrow> tick \<Rightarrow> u64 \<Rightarrow> ustring list \<Rightarrow> token_lookup_entry option" where
  "krc721_token_lookup d t i protocols =
     (case part_get (current_ownership d) (OwnershipKey t i) of
        None \<Rightarrow> None
      | Some v \<Rightarrow>
        (case visible_collection d t protocols of
           None \<Rightarrow> None
         | Some _ \<Rightarrow> Some \<lparr>te_owner = co_owner v, te_mod_tx_score = co_mod_tx_score v,
                          te_listing = token_listing d t i\<rparr>))"

definition token_rows :: "db \<Rightarrow> tick \<Rightarrow> u64 \<Rightarrow> direction \<Rightarrow> (ownership_key \<times> current_ownership_value) list" where
  "token_rows d t offset dir =
     (case dir of
        Forward \<Rightarrow> part_range (Included (OwnershipKey t offset)) (Included (OwnershipKey t (- 1))) (current_ownership d)
      | Backward \<Rightarrow> rev (part_range (Included (OwnershipKey t 0)) (Included (OwnershipKey t offset)) (current_ownership d)))"

definition krc721_token_list ::
  "db \<Rightarrow> tick \<Rightarrow> u64 iterator_args \<Rightarrow> ustring list \<Rightarrow> (ownership list \<times> ownership) option view" where
  "krc721_token_list d t a protocols =
     (case visible_collection d t protocols of
        None \<Rightarrow> Inr None
      | Some _ \<Rightarrow>
        process_iter (token_rows d t (ia_offset a) (ia_direction a)) (ia_limit a)
          (\<lambda>k v. Inr \<lparr>ow_token_id = ok_token_id k, ow_owner = co_owner v, ow_mod_tx_score = co_mod_tx_score v,
                      ow_listing = token_listing d t (ok_token_id k)\<rparr>))"

definition history_entry :: "db \<Rightarrow> ownership_history_key \<Rightarrow> spk \<Rightarrow> token_history_record view" where
  "history_entry d k owner =
     (case part_get (operation_history d) (oh_score k) of
        None \<Rightarrow> Inl (ViewPanic ''operation must exist'')
      | Some op \<Rightarrow> Inr \<lparr>hr_owner = owner, hr_mod_tx_score = oh_score k,
                        hr_tx_id = oc_tx_id (op_common (co_operation op))\<rparr>)"

definition history_rows ::
  "db \<Rightarrow> tick \<Rightarrow> u64 \<Rightarrow> u64 \<Rightarrow> direction \<Rightarrow> (ownership_history_key \<times> spk) list" where
  "history_rows d t i offset dir =
     (case dir of
        Forward \<Rightarrow> rev (part_range (Included (OwnershipHistoryKey t i 0))
          (Included (OwnershipHistoryKey_with_score t i offset)) (ownership_history d))
      | Backward \<Rightarrow> part_range (Included (OwnershipHistoryKey_with_score t i offset))
          (Included (OwnershipHistoryKey t i (- 1))) (ownership_history d))"

definition krc721_token_history_list ::
  "db \<Rightarrow> tick \<Rightarrow> u64 \<Rightarrow> u64 iterator_args \<Rightarrow> ustring list \<Rightarrow>
   (token_history_record list \<times> token_history_record) option view" where
  "krc721_token_history_list d t i a protocols =
     (case visible_collection d t protocols of
        None \<Rightarrow> Inr None
      | Some _ \<Rightarrow>
        process_iter (history_rows d t i (ia_offset a) (ia_direction a)) (ia_limit a) (history_entry d))"

section \<open>Holdings of an address\<close>

text \<open>
  The loop keeps the collection it read last: of \<^verbatim>\<open>last_tick_info\<close> it uses the tick and the metadata, which
  start as the defaults, the least tick and an empty address.
\<close>

record push_state =
  ps_c :: "address_nft_info list"
  ps_tick :: tick
  ps_metadata :: metadata
  ps_incompatible :: bool

definition push_start :: push_state where
  "push_start = \<lparr>ps_c = [], ps_tick = tick_MIN, ps_metadata = Remote [], ps_incompatible = False\<rparr>"

definition nft_info :: "db \<Rightarrow> metadata \<Rightarrow> address_holding_key \<Rightarrow> u64 \<Rightarrow> address_nft_info" where
  "nft_info d m k mod_tx_score =
     \<lparr>an_tick = ah_tick k, an_tick_metadata = Some m, an_token_id = ah_token_id k,
      an_op_score_modified = mod_tx_score, an_status = token_status_of (token_listing d (ah_tick k) (ah_token_id k))\<rparr>"

definition conditional_push ::
  "db \<Rightarrow> ustring list \<Rightarrow> nat \<Rightarrow> push_state \<Rightarrow> address_holding_key \<times> u64 \<Rightarrow> (push_state \<times> bool) view" where
  "conditional_push d protocols limit s r =
     (case r of (k, mod_tx_score) \<Rightarrow>
      and_then
        (if ps_tick s = ah_tick k \<and> \<not> ps_incompatible s
         then Inr (s\<lparr>ps_c := ps_c s @ [nft_info d (ps_metadata s) k mod_tx_score]\<rparr>)
         else if ps_tick s \<noteq> ah_tick k then
           (case part_get (collection_registry d) (ah_tick k) of
              None \<Rightarrow> Inl (ViewPanic ''called Option::unwrap on a None value'')
            | Some depl \<Rightarrow>
              (let dw = sd_deploy_info depl;
                   s' = s\<lparr>ps_tick := oc_tick (dw_common dw), ps_metadata := di_metadata (dw_info dw),
                          ps_incompatible := incompatible protocols dw\<rparr>
               in Inr (if ps_incompatible s' then s'
                       else s'\<lparr>ps_c := ps_c s' @ [nft_info d (ps_metadata s') k mod_tx_score]\<rparr>)))
         else Inr s)
        (\<lambda>s'. Inr (s', length (ps_c s') < limit + 1)))"

fun push_loop ::
  "db \<Rightarrow> ustring list \<Rightarrow> nat \<Rightarrow> push_state \<Rightarrow> (address_holding_key \<times> u64) list \<Rightarrow> push_state view" where
  "push_loop d protocols limit s [] = Inr s"
| "push_loop d protocols limit s (r # rows) =
     and_then (conditional_push d protocols limit s r)
       (\<lambda>(s', go). if go then push_loop d protocols limit s' rows else Inr s')"

definition holding_rows ::
  "db \<Rightarrow> spk \<Rightarrow> tick_token_offset \<Rightarrow> direction \<Rightarrow> (address_holding_key \<times> u64) list" where
  "holding_rows d p offset dir =
     (case dir of
        Forward \<Rightarrow> part_range (Included (AddressHoldingKey p (tto_tick offset) (tto_token_id offset)))
          (Excluded (AddressHoldingKey p tick_MAX (- 1))) (address_holdings d)
      | Backward \<Rightarrow> rev (part_range (Included (AddressHoldingKey p tick_MIN 0))
          (Included (AddressHoldingKey p (tto_tick offset) (tto_token_id offset))) (address_holdings d)))"

definition krc721_address_nft_list ::
  "db \<Rightarrow> spk \<Rightarrow> tick_token_offset iterator_args \<Rightarrow> ustring list \<Rightarrow>
   (address_nft_info list \<times> address_nft_info) option view" where
  "krc721_address_nft_list d p a protocols =
     and_then (push_loop d protocols (ia_limit a) push_start (holding_rows d p (ia_offset a) (ia_direction a)))
       (\<lambda>s. Inr (if ps_c s = [] then None else Some (butlast (ps_c s), last (ps_c s))))"

definition tick_holding_rows :: "db \<Rightarrow> spk \<Rightarrow> tick \<Rightarrow> u64 \<Rightarrow> direction \<Rightarrow> (address_holding_key \<times> u64) list" where
  "tick_holding_rows d p t offset dir =
     (case dir of
        Forward \<Rightarrow> part_range (Included (AddressHoldingKey p t offset))
          (Excluded (AddressHoldingKey p t (- 1))) (address_holdings d)
      | Backward \<Rightarrow> rev (part_range (Included (AddressHoldingKey p t 0))
          (Included (AddressHoldingKey p t offset)) (address_holdings d)))"

definition krc721_address_nft_lookup ::
  "db \<Rightarrow> tick \<Rightarrow> spk \<Rightarrow> u64 iterator_args \<Rightarrow> ustring list \<Rightarrow> (nft_lookup_entry list \<times> nft_lookup_entry) option view" where
  "krc721_address_nft_lookup d t p a protocols =
     (case visible_collection d t protocols of
        None \<Rightarrow> Inr None
      | Some _ \<Rightarrow>
        process_iter (tick_holding_rows d p t (ia_offset a) (ia_direction a)) (ia_limit a)
          (\<lambda>k mod_tx_score. Inr \<lparr>ne_token_id = ah_token_id k, ne_mod_tx_score = mod_tx_score,
                                 ne_listing = token_listing d t (ah_token_id k)\<rparr>))"

section \<open>Operations\<close>

definition operation_rows :: "db \<Rightarrow> u64 \<Rightarrow> direction \<Rightarrow> (u64 \<times> checked_operation) list" where
  "operation_rows d offset dir =
     (case dir of
        Forward \<Rightarrow> part_range (Included offset) Unbounded (operation_history d)
      | Backward \<Rightarrow> rev (part_range Unbounded (Included offset) (operation_history d)))"

definition krc721_op_list ::
  "db \<Rightarrow> u64 iterator_args \<Rightarrow> ((u64 \<times> checked_operation) list \<times> (u64 \<times> checked_operation)) option view" where
  "krc721_op_list d a =
     process_iter (operation_rows d (ia_offset a) (ia_direction a)) (ia_limit a) (\<lambda>score op. Inr (score, op))"

definition krc721_op_by_score :: "db \<Rightarrow> u64 \<Rightarrow> checked_operation option" where
  "krc721_op_by_score d score = part_get (operation_history d) score"

record scored_checked_operation =
  so_opscore :: u64
  so_checked_operation :: checked_operation

definition krc721_op_by_txid :: "db \<Rightarrow> hash \<Rightarrow> scored_checked_operation option" where
  "krc721_op_by_txid d txid =
     (case part_get (tx_id_to_opscore d) txid of
        None \<Rightarrow> None
      | Some score \<Rightarrow> map_option (\<lambda>op. \<lparr>so_opscore = score, so_checked_operation = op\<rparr>)
                       (part_get (operation_history d) score))"

definition krc721_rejection_by_txid :: "db \<Rightarrow> hash \<Rightarrow> ustring option" where
  "krc721_rejection_by_txid d txid = part_get (tx_id_to_rejection d) txid"

section \<open>Available token ids\<close>

definition krc721_available_token_id_ranges :: "db \<Rightarrow> tick \<Rightarrow> available_ranges option" where
  "krc721_available_token_id_ranges d t =
     (case part_get (collection_registry d) t of
        None \<Rightarrow> None
      | Some depl \<Rightarrow>
        (let info = dw_info (sd_deploy_info depl) in
         case last_minted_token_seq_no t (mint_history d) of
           None \<Rightarrow>
             if di_max info = 0 then Some FullyMinted
             else Some (Available [\<lparr>ar_start_token_id = 1, ar_size = di_max info\<rparr>])
         | Some last_mint_seq \<Rightarrow>
             if ts_seq_no last_mint_seq = di_max info then Some FullyMinted
             else
               (let ranges = map (\<lambda>(_, start, sz). \<lparr>ar_start_token_id = start, ar_size = sz\<rparr>)
                      (part_range (Included (RangeKey t 0)) (Excluded (RangeKey t (- 1))) (available_ranges d))
                in if ranges = [] \<and> di_premint info < di_max info
                   then Some (Available [\<lparr>ar_start_token_id = di_premint info + 1,
                                          ar_size = di_max info - di_premint info\<rparr>])
                   else Some (Available ranges))))"

section \<open>Listings\<close>

definition listing_entry_of :: "db \<Rightarrow> tick \<Rightarrow> u64 \<Rightarrow> listing_entry view" where
  "listing_entry_of d t i =
     (case token_listing d t i of
        None \<Rightarrow> Inl ListingIndexInconsistency
      | Some lv \<Rightarrow> Inr \<lparr>le_tick = t, le_token_id = i, le_seller = lv_seller lv,
          le_listing_tx_id = lv_listing_tx_id lv, le_redeem_script = lv_redeem_script lv, le_op_score = lv_op_score lv\<rparr>)"

definition listing_rows :: "db \<Rightarrow> tick \<Rightarrow> u64 \<Rightarrow> direction \<Rightarrow> (listing_by_tick_key \<times> unit) list" where
  "listing_rows d t offset dir =
     (case dir of
        Forward \<Rightarrow> part_range (Included (ListingByTickKey t offset)) (Included (ListingByTickKey t (- 1))) (listings_by_tick d)
      | Backward \<Rightarrow> rev (part_range (Included (ListingByTickKey t 0)) (Included (ListingByTickKey t offset)) (listings_by_tick d)))"

definition krc721_active_listings ::
  "db \<Rightarrow> tick \<Rightarrow> u64 iterator_args \<Rightarrow> (listing_entry list \<times> listing_entry) option view" where
  "krc721_active_listings d t a =
     (case part_get (collection_registry d) t of
        None \<Rightarrow> Inr None
      | Some _ \<Rightarrow>
        process_iter (listing_rows d t (ia_offset a) (ia_direction a)) (ia_limit a)
          (\<lambda>k _. listing_entry_of d (lt_tick k) (lt_token_id k)))"

definition krc721_listing_lookup :: "db \<Rightarrow> tick \<Rightarrow> u64 \<Rightarrow> listing_value option" where
  "krc721_listing_lookup d t i = part_get (listings d) (OwnershipKey t i)"

definition address_listing_rows ::
  "db \<Rightarrow> spk \<Rightarrow> tick_token_offset \<Rightarrow> direction \<Rightarrow> (address_holding_key \<times> u64) list" where
  "address_listing_rows d p offset dir =
     (case dir of
        Forward \<Rightarrow> part_range (Included (AddressHoldingKey p (tto_tick offset) (tto_token_id offset)))
          (Included (AddressHoldingKey p tick_MAX (- 1))) (address_listings d)
      | Backward \<Rightarrow> rev (part_range (Included (AddressHoldingKey p tick_MIN 0))
          (Included (AddressHoldingKey p (tto_tick offset) (tto_token_id offset))) (address_listings d)))"

definition krc721_address_listings ::
  "db \<Rightarrow> spk \<Rightarrow> tick_token_offset iterator_args \<Rightarrow> (listing_entry list \<times> listing_entry) option view" where
  "krc721_address_listings d p a =
     process_iter (address_listing_rows d p (ia_offset a) (ia_direction a)) (ia_limit a)
       (\<lambda>k _. listing_entry_of d (ah_tick k) (ah_token_id k))"

end
