(* ===== verification/Accessor.thy ===== *)
theory Accessor
  imports View Analyzer
begin

text \<open>
  The answers of the API: \<^verbatim>\<open>nexus/src/accessor.rs\<close>, the wrappers of \<^verbatim>\<open>core/src/model/krc721/model.rs\<close> and
  the request types of \<^verbatim>\<open>data.rs\<close>. An endpoint resolves its arguments, reads a page in a blocking thread
  whose panic it reports as an error, and turns scripts into addresses. The conversions between scripts
  and addresses and the hexadecimal writer belong to other crates and are fields of \<^verbatim>\<open>api\<close>.
\<close>

record 'a api =
  address_of_spk :: "spk \<Rightarrow> ustring + 'a"
  spk_of_address :: "ustring \<Rightarrow> ustring + spk"
  hex_string :: "bytes \<Rightarrow> ustring"
  api_protocols :: "ustring list"
  api_reserved :: "ustring list"

datatype core_error = ReadError view_error | AddressError ustring | ScriptError ustring

type_synonym 'a core_result = "core_error + 'a"

abbreviation read_result :: "'a view \<Rightarrow> 'a core_result" where
  "read_result \<equiv> map_sum ReadError id"

definition script_address :: "'a api \<Rightarrow> spk \<Rightarrow> 'a core_result" where
  "script_address api p = map_sum ScriptError id (address_of_spk api p)"

definition address_script :: "'a api \<Rightarrow> ustring \<Rightarrow> spk core_result" where
  "address_script api s = map_sum AddressError id (spk_of_address api s)"

text \<open>\<^verbatim>\<open>.map(f).collect::<Result<Vec<_>, _>>()\<close>: the first error ends it.\<close>

fun collect_results :: "('a \<Rightarrow> 'e + 'b) \<Rightarrow> 'a list \<Rightarrow> 'e + 'b list" where
  "collect_results f [] = Inr []"
| "collect_results f (x # xs) = and_then (f x) (\<lambda>y. and_then (collect_results f xs) (\<lambda>ys. Inr (y # ys)))"

text \<open>\<^verbatim>\<open>Option::transpose\<close> after a map.\<close>

definition transpose_map :: "('a \<Rightarrow> 'e + 'b) \<Rightarrow> 'a option \<Rightarrow> 'e + 'b option" where
  "transpose_map f x = (case x of None \<Rightarrow> Inr None | Some a \<Rightarrow> and_then (f a) (\<lambda>b. Inr (Some b)))"

section \<open>Requests and pages\<close>

record 'o request_args =
  ra_offset :: "'o option"
  ra_direction :: "direction option"
  ra_limit :: "nat option"

record ('v, 'o) pagination =
  pg_data :: "'v list"
  pg_next_page_offset :: "'o option"

definition MAX_ITERATOR_LIMIT :: nat where
  "MAX_ITERATOR_LIMIT = 50"

definition resolve_limit :: "nat option \<Rightarrow> nat" where
  "resolve_limit l = min (case l of Some n \<Rightarrow> n | None \<Rightarrow> MAX_ITERATOR_LIMIT) MAX_ITERATOR_LIMIT"

definition resolve_u64_iter_args :: "u64 request_args \<Rightarrow> u64 iterator_args" where
  "resolve_u64_iter_args r =
     (let dir = (case ra_direction r of Some dir \<Rightarrow> dir | None \<Rightarrow> Forward) in
      \<lparr>ia_offset = (case ra_offset r of Some off \<Rightarrow> off
                    | None \<Rightarrow> (case dir of Forward \<Rightarrow> 0 | Backward \<Rightarrow> - 1)),
       ia_direction = dir, ia_limit = resolve_limit (ra_limit r)\<rparr>)"

definition resolve_tick_token_args :: "tick_token_offset request_args \<Rightarrow> tick_token_offset iterator_args" where
  "resolve_tick_token_args r =
     (let dir = (case ra_direction r of Some dir \<Rightarrow> dir | None \<Rightarrow> Forward) in
      \<lparr>ia_offset = (case ra_offset r of Some off \<Rightarrow> off
                    | None \<Rightarrow> (case dir of Forward \<Rightarrow> \<lparr>tto_tick = tick_MIN, tto_token_id = 0\<rparr>
                                        | Backward \<Rightarrow> \<lparr>tto_tick = tick_MAX, tto_token_id = - 1\<rparr>)),
       ia_direction = dir, ia_limit = resolve_limit (ra_limit r)\<rparr>)"

definition to_paginated :: "('v list \<times> 'v) option \<Rightarrow> nat \<Rightarrow> ('v \<Rightarrow> 'o) \<Rightarrow> ('v, 'o) pagination" where
  "to_paginated split_last limit convert =
     (case split_last of
        None \<Rightarrow> \<lparr>pg_data = [], pg_next_page_offset = None\<rparr>
      | Some (container, last_element) \<Rightarrow>
          if length container < limit
          then \<lparr>pg_data = container @ [last_element], pg_next_page_offset = None\<rparr>
          else \<lparr>pg_data = container, pg_next_page_offset = Some (convert last_element)\<rparr>)"

text \<open>The data of a page converted, its offset kept.\<close>

definition convert_page :: "('v \<Rightarrow> 'w core_result) \<Rightarrow> ('v, 'o) pagination \<Rightarrow> ('w, 'o) pagination core_result" where
  "convert_page f p =
     and_then (collect_results f (pg_data p))
       (\<lambda>data. Inr \<lparr>pg_data = data, pg_next_page_offset = pg_next_page_offset p\<rparr>)"

section \<open>Wrappers\<close>

record 'a operation_meta_wrapper =
  om_protocol :: protocol
  om_deployer :: 'a
  om_royalty_to :: "'a option"
  om_to :: "'a option"
  om_operation :: checked_operation
  om_op_score :: u64
  om_fee :: u64

definition operation_meta_try_from :: "'a api \<Rightarrow> u64 \<Rightarrow> checked_operation \<Rightarrow> 'a operation_meta_wrapper core_result" where
  "operation_meta_try_from api score op =
     (let operation = co_operation op in
      and_then (script_address api (oc_sender (op_common operation))) (\<lambda>deployer.
      and_then
        (case op_info operation of
           Deploy info \<Rightarrow> transpose_map (\<lambda>r. script_address api (beneficiary r)) (di_royalty info)
         | _ \<Rightarrow> Inr None) (\<lambda>royalty_to.
      and_then
        (case op_info operation of
           Transfer info \<Rightarrow> and_then (script_address api (ti_to info)) (\<lambda>a. Inr (Some a))
         | Mint info \<Rightarrow> and_then (script_address api (mi_to info)) (\<lambda>a. Inr (Some a))
         | Send info \<Rightarrow> transpose_map (script_address api) (si_buyer info)
         | _ \<Rightarrow> Inr None) (\<lambda>to.
      Inr \<lparr>om_protocol = Krc721, om_deployer = deployer, om_royalty_to = royalty_to, om_to = to,
           om_operation = op, om_op_score = score, om_fee = oc_fee (op_common operation)\<rparr>))))"

record 'a scored_deploy_answer =
  sa_deployer :: 'a
  sa_royalty_to :: "'a option"
  sa_deploy_info_with_common :: deploy_info_with_common
  sa_op_score :: u64

definition scored_deploy_try_from ::
  "'a api \<Rightarrow> u64 \<Rightarrow> deploy_info_with_common \<Rightarrow> 'a scored_deploy_answer core_result" where
  "scored_deploy_try_from api score dw =
     and_then (script_address api (oc_sender (dw_common dw))) (\<lambda>deployer.
     and_then (transpose_map (\<lambda>r. script_address api (beneficiary r)) (di_royalty (dw_info dw))) (\<lambda>royalty_to.
     Inr \<lparr>sa_deployer = deployer, sa_royalty_to = royalty_to, sa_deploy_info_with_common = dw, sa_op_score = score\<rparr>))"

record 'a collection_meta_wrapper =
  cm_deployer :: 'a
  cm_royalty_to :: "'a option"
  cm_collection :: collection

definition collection_meta_try_from :: "'a api \<Rightarrow> collection \<Rightarrow> 'a collection_meta_wrapper core_result" where
  "collection_meta_try_from api c =
     (let info = dw_info (cl_deploy_info_with_common c) in
      and_then (script_address api (di_deployer info)) (\<lambda>deployer.
      and_then (transpose_map (\<lambda>r. script_address api (beneficiary r)) (di_royalty info)) (\<lambda>royalty_to.
      Inr \<lparr>cm_deployer = deployer, cm_royalty_to = royalty_to, cm_collection = c\<rparr>)))"

record 'a token_answer =
  tn_tick :: tick
  tn_token_id :: u64
  tn_owner :: 'a
  tn_op_score_modified :: u64
  tn_status :: token_status

record 'a history_entity =
  he_owner :: 'a
  he_op_score_modified :: u64
  he_tx_id :: hash

record 'a listing_meta_wrapper =
  lw_tick :: tick
  lw_token_id :: u64
  lw_seller :: 'a
  lw_listing_tx_id :: hash
  lw_redeem_script :: ustring
  lw_op_score :: u64
  lw_metadata :: "metadata option"

definition listing_entry_to_meta :: "'a api \<Rightarrow> listing_entry \<Rightarrow> 'a listing_meta_wrapper core_result" where
  "listing_entry_to_meta api e =
     and_then (script_address api (le_seller e)) (\<lambda>seller.
     Inr \<lparr>lw_tick = le_tick e, lw_token_id = le_token_id e, lw_seller = seller, lw_listing_tx_id = le_listing_tx_id e,
          lw_redeem_script = hex_string api (le_redeem_script e), lw_op_score = le_op_score e, lw_metadata = None\<rparr>)"

section \<open>Endpoints\<close>

text \<open>
  Every endpoint first counts the request (\<^verbatim>\<open>track_request\<close>); the count is part of the state of the
  status endpoint below and does not influence an answer. A collection page is converted before it is
  cut, the row after the page included; the other pages are converted after.
\<close>

definition api_collection_list ::
  "'a api \<Rightarrow> db \<Rightarrow> u64 request_args \<Rightarrow> ('a collection_meta_wrapper, u64) pagination core_result" where
  "api_collection_list api d r =
     (let a = resolve_u64_iter_args r in
      and_then (read_result (krc721_collection_list d a (api_protocols api))) (\<lambda>split_last.
        case split_last of
          None \<Rightarrow> Inr \<lparr>pg_data = [], pg_next_page_offset = None\<rparr>
        | Some (collections, lst) \<Rightarrow>
            and_then (collect_results (collection_meta_try_from api) collections) (\<lambda>cs.
            and_then (collection_meta_try_from api lst) (\<lambda>l.
            Inr (to_paginated (Some (cs, l)) (ia_limit a) (\<lambda>c. cl_op_score_added (cm_collection c)))))))"

definition api_collection_lookup :: "'a api \<Rightarrow> db \<Rightarrow> tick \<Rightarrow> 'a collection_meta_wrapper option core_result" where
  "api_collection_lookup api d t =
     transpose_map (collection_meta_try_from api) (krc721_collection_lookup d t (api_protocols api))"

definition token_answer_of :: "'a api \<Rightarrow> tick \<Rightarrow> ownership \<Rightarrow> 'a token_answer core_result" where
  "token_answer_of api t v =
     and_then (script_address api (ow_owner v)) (\<lambda>owner.
     Inr \<lparr>tn_tick = t, tn_token_id = ow_token_id v, tn_owner = owner, tn_op_score_modified = ow_mod_tx_score v,
          tn_status = token_status_of (ow_listing v)\<rparr>)"

definition api_token_list ::
  "'a api \<Rightarrow> db \<Rightarrow> tick \<Rightarrow> u64 request_args \<Rightarrow> ('a token_answer, u64) pagination core_result" where
  "api_token_list api d t r =
     (let a = resolve_u64_iter_args r in
      and_then (read_result (krc721_token_list d t a (api_protocols api))) (\<lambda>skip_last.
      convert_page (token_answer_of api t) (to_paginated skip_last (ia_limit a) ow_token_id)))"

definition api_token_lookup :: "'a api \<Rightarrow> db \<Rightarrow> tick \<Rightarrow> u64 \<Rightarrow> 'a token_answer option core_result" where
  "api_token_lookup api d t i =
     transpose_map
       (\<lambda>e. and_then (script_address api (te_owner e)) (\<lambda>address.
          Inr \<lparr>tn_tick = t, tn_token_id = i, tn_owner = address, tn_op_score_modified = te_mod_tx_score e,
               tn_status = token_status_of (te_listing e)\<rparr>))
       (krc721_token_lookup d t i (api_protocols api))"

definition api_address_nft_list ::
  "'a api \<Rightarrow> db \<Rightarrow> ustring \<Rightarrow> tick_token_offset request_args \<Rightarrow> (address_nft_info, tick_token_offset) pagination core_result" where
  "api_address_nft_list api d address r =
     (let a = resolve_tick_token_args r in
      and_then (address_script api address) (\<lambda>p.
      and_then (read_result (krc721_address_nft_list d p a (api_protocols api))) (\<lambda>split_last.
      Inr (to_paginated split_last (ia_limit a) (\<lambda>l. \<lparr>tto_tick = an_tick l, tto_token_id = an_token_id l\<rparr>)))))"

definition api_address_nft_lookup ::
  "'a api \<Rightarrow> db \<Rightarrow> ustring \<Rightarrow> tick \<Rightarrow> u64 request_args \<Rightarrow> (address_nft_info, u64) pagination core_result" where
  "api_address_nft_lookup api d address t r =
     (let a = resolve_u64_iter_args r in
      and_then (address_script api address) (\<lambda>p.
      and_then (read_result (krc721_address_nft_lookup d t p a (api_protocols api))) (\<lambda>split_last.
      let paginated = to_paginated split_last (ia_limit a) ne_token_id in
      Inr \<lparr>pg_data = map (\<lambda>v. \<lparr>an_tick = t, an_tick_metadata = None, an_token_id = ne_token_id v,
                                 an_op_score_modified = ne_mod_tx_score v, an_status = token_status_of (ne_listing v)\<rparr>)
                         (pg_data paginated),
           pg_next_page_offset = pg_next_page_offset paginated\<rparr>)))"

definition api_op_list ::
  "'a api \<Rightarrow> db \<Rightarrow> u64 request_args \<Rightarrow> ('a operation_meta_wrapper, u64) pagination core_result" where
  "api_op_list api d r =
     (let a = resolve_u64_iter_args r in
      and_then (read_result (krc721_op_list d a)) (\<lambda>skip_last.
      convert_page (\<lambda>(score, op). operation_meta_try_from api score op) (to_paginated skip_last (ia_limit a) fst)))"

definition api_op_by_score :: "'a api \<Rightarrow> db \<Rightarrow> u64 \<Rightarrow> 'a operation_meta_wrapper option core_result" where
  "api_op_by_score api d score = transpose_map (operation_meta_try_from api score) (krc721_op_by_score d score)"

definition api_op_by_txid :: "'a api \<Rightarrow> db \<Rightarrow> hash \<Rightarrow> 'a operation_meta_wrapper option core_result" where
  "api_op_by_txid api d txid =
     transpose_map (\<lambda>op. operation_meta_try_from api (so_opscore op) (so_checked_operation op)) (krc721_op_by_txid d txid)"

definition api_deployment_list ::
  "'a api \<Rightarrow> db \<Rightarrow> u64 request_args \<Rightarrow> ('a scored_deploy_answer, u64) pagination core_result" where
  "api_deployment_list api d r =
     (let a = resolve_u64_iter_args r in
      and_then (read_result (krc721_deployment_list d a (api_protocols api))) (\<lambda>skip_last.
      convert_page (\<lambda>(score, op). scored_deploy_try_from api score op) (to_paginated skip_last (ia_limit a) fst)))"

definition api_royalty_fee :: "'a api \<Rightarrow> db \<Rightarrow> ustring \<Rightarrow> tick \<Rightarrow> ustring option core_result" where
  "api_royalty_fee api d address t =
     and_then (address_script api address) (\<lambda>p.
     Inr (map_option u64_to_string (krc721_royalty_fee d p t (api_protocols api))))"

text \<open>The reason of a rejection: recorded by the analyzer, or the text of the error of a recorded operation.\<close>

definition api_rejection_by_txid ::
  "(ctx_validation_error \<Rightarrow> ustring) \<Rightarrow> db \<Rightarrow> hash \<Rightarrow> ustring option" where
  "api_rejection_by_txid error_text d txid =
     (case krc721_rejection_by_txid d txid of
        Some rejection \<Rightarrow> Some rejection
      | None \<Rightarrow>
        (case krc721_op_by_txid d txid of
           None \<Rightarrow> None
         | Some op \<Rightarrow> map_option error_text (co_error (so_checked_operation op))))"

definition api_reserved_tokens :: "'a api \<Rightarrow> ustring list" where
  "api_reserved_tokens api = api_reserved api"

definition api_token_history ::
  "'a api \<Rightarrow> db \<Rightarrow> tick \<Rightarrow> u64 \<Rightarrow> u64 request_args \<Rightarrow> ('a history_entity, u64) pagination core_result" where
  "api_token_history api d t i r =
     (let a = resolve_u64_iter_args r in
      and_then (read_result (krc721_token_history_list d t i a (api_protocols api))) (\<lambda>skip_last.
      convert_page
        (\<lambda>h. and_then (script_address api (hr_owner h)) (\<lambda>owner.
           Inr \<lparr>he_owner = owner, he_op_score_modified = hr_mod_tx_score h, he_tx_id = hr_tx_id h\<rparr>))
        (to_paginated skip_last (ia_limit a) hr_mod_tx_score)))"

definition api_available_token_id_ranges :: "db \<Rightarrow> tick \<Rightarrow> available_ranges option" where
  "api_available_token_id_ranges d t = krc721_available_token_id_ranges d t"

definition api_active_listings ::
  "'a api \<Rightarrow> db \<Rightarrow> tick \<Rightarrow> u64 request_args \<Rightarrow> ('a listing_meta_wrapper, u64) pagination core_result" where
  "api_active_listings api d t r =
     (let a = resolve_u64_iter_args r in
      and_then (read_result (krc721_active_listings d t a)) (\<lambda>split_last.
      convert_page (listing_entry_to_meta api) (to_paginated split_last (ia_limit a) le_op_score)))"

definition api_listing_lookup :: "'a api \<Rightarrow> db \<Rightarrow> tick \<Rightarrow> u64 \<Rightarrow> 'a listing_meta_wrapper option core_result" where
  "api_listing_lookup api d t i =
     (case krc721_listing_lookup d t i of
        None \<Rightarrow> Inr None
      | Some lv \<Rightarrow>
        and_then (script_address api (lv_seller lv)) (\<lambda>seller.
        Inr (Some \<lparr>lw_tick = t, lw_token_id = i, lw_seller = seller, lw_listing_tx_id = lv_listing_tx_id lv,
                   lw_redeem_script = hex_string api (lv_redeem_script lv), lw_op_score = lv_op_score lv,
                   lw_metadata = None\<rparr>)))"

definition api_address_listings ::
  "'a api \<Rightarrow> db \<Rightarrow> ustring \<Rightarrow> tick_token_offset request_args \<Rightarrow>
   ('a listing_meta_wrapper, tick_token_offset) pagination core_result" where
  "api_address_listings api d address r =
     (let a = resolve_tick_token_args r in
      and_then (address_script api address) (\<lambda>p.
      and_then (read_result (krc721_address_listings d p a)) (\<lambda>split_last.
      convert_page (listing_entry_to_meta api)
        (to_paginated split_last (ia_limit a) (\<lambda>l. \<lparr>tto_tick = le_tick l, tto_token_id = le_token_id l\<rparr>)))))"

section \<open>The status\<close>

record indexer_status =
  is_node_connected :: bool
  is_node_synced :: bool
  is_indexer_synced :: bool
  is_last_known_block_hash :: "hash option"
  is_blue_score :: u64
  is_current_op_score :: u64
  is_daa_score :: u64
  is_stats :: stats

record accessor_state =
  ac_requests :: u64
  ac_last_status_snapshot :: "indexer_status option"
  ac_last_status_snapshot_timestamp :: u64

text \<open>What the endpoint reads of the clock, the node's state and the syncer; version and network are constants.\<close>

record status_inputs =
  sx_now :: u64
  sx_node_connected :: bool
  sx_node_synced :: bool
  sx_daa_score :: u64
  sx_syncer :: "(bool \<times> blue_hash_key option) option"

definition track_request :: "accessor_state \<Rightarrow> accessor_state" where
  "track_request s = s\<lparr>ac_requests := ac_requests s + 1\<rparr>"

definition fresh_status :: "u64 \<Rightarrow> db \<Rightarrow> status_inputs \<Rightarrow> indexer_status" where
  "fresh_status msl d x =
     (let last_known_block = Option.bind (sx_syncer x) snd;
          last_known_blue_score = (case last_known_block of Some b \<Rightarrow> bh_blue_score b | None \<Rightarrow> 0)
      in \<lparr>is_node_connected = sx_node_connected x, is_node_synced = sx_node_synced x,
          is_indexer_synced = (case sx_syncer x of Some (synced, _) \<Rightarrow> synced | None \<Rightarrow> False),
          is_last_known_block_hash = map_option bh_block_hash last_known_block,
          is_blue_score = last_known_blue_score,
          is_current_op_score = calculate_tx_score_from_blue msl (last_known_blue_score + 1) - 1,
          is_daa_score = sx_daa_score x,
          is_stats = stats_load (db_stats d)\<rparr>)"

definition krc721_indexer_status ::
  "u64 \<Rightarrow> db \<Rightarrow> status_inputs \<Rightarrow> accessor_state \<Rightarrow> indexer_status \<times> accessor_state" where
  "krc721_indexer_status msl d x s0 =
     (let s = track_request s0;
          elapsed = sat_sub (sx_now x) (ac_last_status_snapshot_timestamp s);
          fresh = fresh_status msl d x;
          renewed = (fresh, s\<lparr>ac_last_status_snapshot := Some fresh, ac_last_status_snapshot_timestamp := sx_now x\<rparr>)
      in if elapsed < 1000
         then (case ac_last_status_snapshot s of Some status \<Rightarrow> (status, s) | None \<Rightarrow> renewed)
         else renewed)"

end
