(* ===== verification/Rejections.thy ===== *)
theory Rejections
  imports Accessor
begin

text \<open>
  The rejected transactions of \<^verbatim>\<open>database.rs\<close>: the reason of each by its id, and the ids by a serial number, of
  which the last million is kept; the serial of the next rejection is found again when the database is
  opened. The syncer stores a rejection for every inscription that the analyzer refuses.
\<close>

definition REJECTIONS_LEN_LIMIT :: u64 where
  "REJECTIONS_LEN_LIMIT = 1000000"

definition reject_tx :: "db \<Rightarrow> hash \<Rightarrow> ustring \<Rightarrow> db" where
  "reject_tx d tx_id reason =
     (let serial = serial_rejection d;
          d1 = d\<lparr>serial_rejection := serial + 1\<rparr>;
          d2 = (if serial \<ge> REJECTIONS_LEN_LIMIT
                then (let serial_to_remove = serial - REJECTIONS_LEN_LIMIT in
                      case part_get (serial_to_rejected_tx_id d1) serial_to_remove of
                        None \<Rightarrow> d1
                      | Some txid \<Rightarrow>
                          d1\<lparr>serial_to_rejected_tx_id := part_remove serial_to_remove (serial_to_rejected_tx_id d1),
                             tx_id_to_rejection := part_remove txid (tx_id_to_rejection d1)\<rparr>)
                else d1)
      in d2\<lparr>tx_id_to_rejection := part_insert tx_id reason (tx_id_to_rejection d2),
            serial_to_rejected_tx_id := part_insert serial tx_id (serial_to_rejected_tx_id d2)\<rparr>)"

text \<open>The tasks that store the rejections of a batch run in the order the pool takes them up.\<close>

definition store_rejections :: "('e \<Rightarrow> ustring) \<Rightarrow> (hash \<times> 'e) list \<Rightarrow> db \<Rightarrow> db" where
  "store_rejections error_text rejections d = fold (\<lambda>(txid, err) d. reject_tx d txid (error_text err)) rejections d"

section \<open>Opening the database\<close>

text \<open>The rejections of an older layout, copied row by row.\<close>

fun migrate_rows ::
  "u64 \<Rightarrow> (hash \<times> ustring) list \<Rightarrow> (u64, hash) part \<Rightarrow> (hash, ustring) part
     \<Rightarrow> u64 \<times> (u64, hash) part \<times> (hash, ustring) part" where
  "migrate_rows serial [] s2r t2r = (serial, s2r, t2r)"
| "migrate_rows serial ((txid, rejection) # rows) s2r t2r =
     migrate_rows (serial + 1) rows (part_insert serial txid s2r) (part_insert txid rejection t2r)"

definition migrate ::
  "(hash, ustring) part \<Rightarrow> (u64, hash) part \<Rightarrow> (hash, ustring) part \<Rightarrow> u64 \<times> (u64, hash) part \<times> (hash, ustring) part" where
  "migrate rp s2r t2r =
     migrate_rows (case part_last_key s2r of Some k \<Rightarrow> k | None \<Rightarrow> 0) (part_range Unbounded Unbounded rp) s2r t2r"

text \<open>\<^verbatim>\<open>Db::try_open\<close> over the stored partitions, with those of the older layout if they are there.\<close>

definition try_open :: "(hash, ustring) part option \<Rightarrow> db \<Rightarrow> db" where
  "try_open legacy d =
     (let d1 = d\<lparr>notification_queue := queue_purge (notification_queue d)\<rparr> in
      case legacy of
        Some rejections_by_txid \<Rightarrow>
          (let (serial, s2r, t2r) = migrate rejections_by_txid (serial_to_rejected_tx_id d1) (tx_id_to_rejection d1)
           in d1\<lparr>serial_to_rejected_tx_id := s2r, tx_id_to_rejection := t2r, serial_rejection := serial\<rparr>)
      | None \<Rightarrow>
          d1\<lparr>serial_rejection :=
               (case part_last_key (serial_to_rejected_tx_id d1) of Some k \<Rightarrow> k | None \<Rightarrow> 0) + 1\<rparr>)"

section \<open>The ring\<close>

datatype ring_event = Rejected hash ustring | Reopened

fun ring_step :: "ring_event \<Rightarrow> db \<Rightarrow> db" where
  "ring_step (Rejected tx reason) d = reject_tx d tx reason"
| "ring_step Reopened d = try_open None d"

definition ring_run :: "ring_event list \<Rightarrow> db \<Rightarrow> db" where
  "ring_run es d = fold ring_step es d"

fun rejections_of :: "ring_event list \<Rightarrow> (hash \<times> ustring) list" where
  "rejections_of [] = []"
| "rejections_of (Rejected tx reason # es) = (tx, reason) # rejections_of es"
| "rejections_of (Reopened # es) = rejections_of es"

text \<open>The latest rejection of a transaction, and its loss by an earlier one that has left the window meanwhile.\<close>

definition latest :: "(hash \<times> ustring) list \<Rightarrow> hash \<Rightarrow> nat \<Rightarrow> bool" where
  "latest rs tx l \<longleftrightarrow> l < length rs \<and> fst (rs ! l) = tx \<and> (\<forall>i. l < i \<and> i < length rs \<longrightarrow> fst (rs ! i) \<noteq> tx)"

definition window :: nat where
  "window = unat REJECTIONS_LEN_LIMIT"

definition evicted :: "(hash \<times> ustring) list \<Rightarrow> hash \<Rightarrow> nat \<Rightarrow> bool" where
  "evicted rs tx l \<longleftrightarrow> (\<exists>i \<le> l. fst (rs ! i) = tx \<and> l < i + window \<and> i + window < length rs)"

definition ring_inv :: "(hash \<times> ustring) list \<Rightarrow> db \<Rightarrow> bool" where
  "ring_inv rs d \<longleftrightarrow>
     serial_rejection d = word_of_nat (length rs + 1) \<and>
     (\<forall>s. part_get (serial_to_rejected_tx_id d) s =
        (if 0 < unat s \<and> unat s \<le> length rs \<and> length rs < unat s + window
         then Some (fst (rs ! (unat s - 1))) else None)) \<and>
     (\<forall>tx r. part_get (tx_id_to_rejection d) tx = Some r \<longleftrightarrow>
        (\<exists>l. latest rs tx l \<and> snd (rs ! l) = r \<and> \<not> evicted rs tx l))"

lemma window_pos [simp]: "0 < window"
  by (simp add: window_def REJECTIONS_LEN_LIMIT_def)

lemma latest_snoc_same: "latest (rs @ [(tx, r)]) tx l \<longleftrightarrow> l = length rs"
proof
  assume l: "latest (rs @ [(tx, r)]) tx l"
  then have "\<not> l < length rs" unfolding latest_def by (metis fst_conv length_append_singleton lessI nth_append_length)
  with l show "l = length rs" by (simp add: latest_def)
qed (auto simp: latest_def)

lemma latest_snoc_other: "tx \<noteq> tx' \<Longrightarrow> latest (rs @ [(tx', r)]) tx l \<longleftrightarrow> latest rs tx l"
  by (cases "l < length rs") (auto simp: latest_def nth_append less_Suc_eq)

lemma evicted_snoc:
  assumes "latest rs tx l"
  shows "evicted (rs @ [x]) tx l \<longleftrightarrow> evicted rs tx l \<or> window \<le> length rs \<and> fst (rs ! (length rs - window)) = tx"
proof
  assume "evicted (rs @ [x]) tx l"
  then show "evicted rs tx l \<or> window \<le> length rs \<and> fst (rs ! (length rs - window)) = tx"
    using assms by (auto simp: evicted_def latest_def nth_append less_Suc_eq dest!: sym [of "_ + window"])
next
  assume e: "evicted rs tx l \<or> window \<le> length rs \<and> fst (rs ! (length rs - window)) = tx"
  show "evicted (rs @ [x]) tx l"
  proof (cases "evicted rs tx l")
    case True
    then show ?thesis using assms by (auto simp: evicted_def latest_def nth_append)
  next
    case False
    let ?i = "length rs - window"
    have w: "window \<le> length rs" "fst (rs ! ?i) = tx" using e False by auto
    have i: "?i < length rs" "?i + window = length rs" using w window_pos by linarith+
    moreover have "l < length rs" using assms by (simp add: latest_def)
    moreover have "?i \<le> l"
    proof (rule ccontr)
      assume "\<not> ?i \<le> l"
      then have "fst (rs ! ?i) \<noteq> tx" using assms i unfolding latest_def by simp
      then show False using w by simp
    qed
    ultimately show ?thesis unfolding evicted_def using w by (intro exI [of _ ?i]) (simp add: nth_append)
  qed
qed

text \<open>One rejection, field by field: the entry whose serial leaves the window is removed.\<close>

definition leaving :: "db \<Rightarrow> hash option" where
  "leaving d =
     (if serial_rejection d \<ge> REJECTIONS_LEN_LIMIT
      then part_get (serial_to_rejected_tx_id d) (serial_rejection d - REJECTIONS_LEN_LIMIT) else None)"

lemma reject_tx_fields:
  "serial_rejection (reject_tx d tx r) = serial_rejection d + 1"
  "part_get (tx_id_to_rejection (reject_tx d tx r)) x =
     (if x = tx then Some r else if leaving d = Some x then None else part_get (tx_id_to_rejection d) x)"
  "part_get (serial_to_rejected_tx_id (reject_tx d tx r)) s =
     (if s = serial_rejection d then Some tx
      else if leaving d \<noteq> None \<and> s = serial_rejection d - REJECTIONS_LEN_LIMIT then None
      else part_get (serial_to_rejected_tx_id d) s)"
  by (auto simp: reject_tx_def leaving_def Let_def split: option.splits)

lemma serial_unat:
  assumes "ring_inv rs d" and "length rs + 1 < 2 ^ 64"
  shows "unat (serial_rejection d) = length rs + 1"
    and "REJECTIONS_LEN_LIMIT \<le> serial_rejection d \<longleftrightarrow> window \<le> length rs + 1"
    and "window \<le> length rs + 1 \<Longrightarrow> unat (serial_rejection d - REJECTIONS_LEN_LIMIT) = length rs + 1 - window"
proof -
  show u: "unat (serial_rejection d) = length rs + 1"
    using assms unat_u64_of_nat [of "length rs + 1"] by (simp add: ring_inv_def)
  show c: "REJECTIONS_LEN_LIMIT \<le> serial_rejection d \<longleftrightarrow> window \<le> length rs + 1"
    by (simp add: word_le_nat_alt u window_def)
  show "window \<le> length rs + 1 \<Longrightarrow> unat (serial_rejection d - REJECTIONS_LEN_LIMIT) = length rs + 1 - window"
    using c by (simp add: unat_sub u window_def)
qed

lemma leaving_entry:
  assumes "ring_inv rs d" and "length rs + 1 < 2 ^ 64"
  shows "leaving d = (if window \<le> length rs then Some (fst (rs ! (length rs - window))) else None)"
proof (cases "window \<le> length rs + 1")
  case True
  have "Suc (length rs - window) \<le> length rs" if "window \<le> length rs" using that window_pos by linarith
  with True show ?thesis using assms(1) serial_unat [OF assms]
    by (auto simp: leaving_def ring_inv_def Suc_diff_le)
next
  case False
  then show ?thesis using serial_unat(2) [OF assms] by (simp add: leaving_def)
qed

lemma ring_inv_reject:
  assumes inv: "ring_inv rs d" and len: "length rs + 1 < 2 ^ 64"
  shows "ring_inv (rs @ [(tx, r)]) (reject_tx d tx r)"
  unfolding ring_inv_def
proof (intro conjI allI)
  note u = serial_unat [OF inv len] and lv = leaving_entry [OF inv len]
  show "serial_rejection (reject_tx d tx r) = word_of_nat (length (rs @ [(tx, r)]) + 1)"
    using inv by (simp add: reject_tx_fields ring_inv_def)
  fix s
  have s: "s = serial_rejection d \<longleftrightarrow> unat s = length rs + 1" by (simp add: word_unat_eq_iff u(1))
  have e: "leaving d \<noteq> None \<and> s = serial_rejection d - REJECTIONS_LEN_LIMIT \<longleftrightarrow>
      0 < unat s \<and> length rs + 1 = unat s + window"
    using u(3) by (auto simp: lv word_unat_eq_iff Suc_diff_le)
  have g: "part_get (serial_to_rejected_tx_id d) s =
      (if 0 < unat s \<and> unat s \<le> length rs \<and> length rs < unat s + window then Some (fst (rs ! (unat s - 1))) else None)"
    using inv by (simp add: ring_inv_def)
  show "part_get (serial_to_rejected_tx_id (reject_tx d tx r)) s =
    (if 0 < unat s \<and> unat s \<le> length (rs @ [(tx, r)]) \<and> length (rs @ [(tx, r)]) < unat s + window
     then Some (fst ((rs @ [(tx, r)]) ! (unat s - 1))) else None)"
    unfolding reject_tx_fields s e g by (auto simp: nth_append le_Suc_eq)
next
  note lv = leaving_entry [OF inv len]
  fix x q
  have g: "part_get (tx_id_to_rejection d) x = Some q \<longleftrightarrow> (\<exists>l. latest rs x l \<and> snd (rs ! l) = q \<and> \<not> evicted rs x l)"
    using inv by (simp add: ring_inv_def)
  show "part_get (tx_id_to_rejection (reject_tx d tx r)) x = Some q \<longleftrightarrow>
    (\<exists>l. latest (rs @ [(tx, r)]) x l \<and> snd ((rs @ [(tx, r)]) ! l) = q \<and> \<not> evicted (rs @ [(tx, r)]) x l)"
  proof (cases "x = tx")
    case True
    then show ?thesis by (auto simp: reject_tx_fields latest_snoc_same evicted_def)
  next
    case False
    have "snd ((rs @ [(tx, r)]) ! l) = snd (rs ! l)" if "latest rs x l" for l
      using that by (simp add: latest_def nth_append)
    then show ?thesis using False
      by (auto simp: reject_tx_fields latest_snoc_other evicted_snoc lv g)
  qed
qed

lemma queue_purge_empty: "queue_purge p = part_empty"
proof (rule part_eqI)
  fix k :: u64
  have r: "part_get (fold part_remove ks q) k = (if k \<in> set ks then None else part_get q k)" for ks q
    by (induction ks arbitrary: q) auto
  show "part_get (queue_purge p) k = part_get part_empty k"
    by (auto simp: queue_purge_def r in_entries_iff [symmetric] image_iff) (metis in_entries_iff fst_conv not_None_eq)
qed

text \<open>Opening finds the serial again: the greatest one in the partition is that of the last rejection.\<close>

lemma ring_inv_open:
  assumes inv: "ring_inv rs d" and len: "length rs + 1 < 2 ^ 64"
  shows "try_open None d = d\<lparr>notification_queue := part_empty\<rparr>"
proof -
  have g: "part_get (serial_to_rejected_tx_id d) s =
      (if 0 < unat s \<and> unat s \<le> length rs \<and> length rs < unat s + window then Some (fst (rs ! (unat s - 1))) else None)" for s
    using inv by (simp add: ring_inv_def)
  have "(case part_last_key (serial_to_rejected_tx_id d) of Some k \<Rightarrow> k | None \<Rightarrow> 0) + 1 = serial_rejection d"
  proof (cases "part_last_key (serial_to_rejected_tx_id d)")
    case None
    have "length rs = 0"
    proof (rule ccontr)
      let ?s = "word_of_nat (length rs) :: u64"
      assume "length rs \<noteq> 0"
      moreover have "unat ?s = length rs" using len by (intro unat_u64_of_nat) simp
      ultimately have "?s \<in> part_keys (serial_to_rejected_tx_id d)" by (simp add: part_keys_def g)
      then show False using None by (simp add: part_last_key_None_iff)
    qed
    then show ?thesis using None inv by (simp add: ring_inv_def)
  next
    case (Some k)
    from part_last_key_SomeD(1) [OF Some] have k: "0 < unat k" "unat k \<le> length rs" by (auto simp: part_keys_def g split: if_splits)
    let ?s = "word_of_nat (length rs) :: u64"
    have s: "unat ?s = length rs" using len by (intro unat_u64_of_nat) simp
    have "0 < length rs" using k by linarith
    with s have "?s \<in> part_keys (serial_to_rejected_tx_id d)" using k by (simp add: part_keys_def g)
    then have "?s \<le> k" by (rule part_last_key_SomeD(2) [OF Some])
    then have "k = ?s" using k s by (auto simp: word_le_nat_alt word_unat_eq_iff simp del: unat_eq_zero)
    then show ?thesis using Some inv by (simp add: ring_inv_def)
  qed
  then show ?thesis by (simp add: try_open_def queue_purge_empty)
qed

lemma ring_inv_queue [simp]: "ring_inv rs (d\<lparr>notification_queue := q\<rparr>) = ring_inv rs d"
  by (simp add: ring_inv_def)

lemma ring_inv_start:
  assumes "serial_to_rejected_tx_id d = part_empty" and "tx_id_to_rejection d = part_empty" and "serial_rejection d = 1"
  shows "ring_inv [] d"
  using assms by (auto simp: ring_inv_def latest_def)

lemma ring_inv_run:
  "ring_inv rs d \<Longrightarrow> length (rs @ rejections_of es) + 1 < 2 ^ 64 \<Longrightarrow> ring_inv (rs @ rejections_of es) (ring_run es d)"
proof (induction es arbitrary: rs d)
  case (Cons e es)
  show ?case
  proof (cases e)
    case (Rejected tx r)
    then show ?thesis using Cons.IH [OF ring_inv_reject [OF Cons.prems(1)], of tx r] Cons.prems(2) by (simp add: ring_run_def)
  next
    case Reopened
    then show ?thesis using Cons.IH [of rs "d\<lparr>notification_queue := part_empty\<rparr>"] ring_inv_open [OF Cons.prems(1)] Cons.prems
      by (simp add: ring_run_def)
  qed
qed (simp add: ring_run_def)

text \<open>C37: From an empty database on, over any rejections and restarts, the API has the reason of a rejected
  transaction exactly when no rejection of it that came before the latest one, or the latest one itself, has
  left the window of the last million rejections since; and then it is the reason of the latest one.\<close>

theorem rejection_is_answered:
  assumes "serial_to_rejected_tx_id d = part_empty" and "tx_id_to_rejection d = part_empty" and "serial_rejection d = 1"
    and "length (rejections_of es) + 1 < 2 ^ 64"
  shows "krc721_rejection_by_txid (ring_run es d) tx = Some reason \<longleftrightarrow>
    (\<exists>l. latest (rejections_of es) tx l \<and> snd (rejections_of es ! l) = reason \<and> \<not> evicted (rejections_of es) tx l)"
  using ring_inv_run [OF ring_inv_start, of d es] assms by (simp add: krc721_rejection_by_txid_def ring_inv_def)

text \<open>A transaction that is rejected twice within the window, as after a reorganisation, loses its reason when
  the first rejection leaves the window, although the second is still in it.\<close>

theorem repeated_rejection_is_lost:
  assumes "serial_to_rejected_tx_id d = part_empty" and "tx_id_to_rejection d = part_empty" and "serial_rejection d = 1"
    and "length (rejections_of es) + 1 < 2 ^ 64" and "latest (rejections_of es) tx l"
    and "i < l" and "fst (rejections_of es ! i) = tx" and "l < i + window" and "i + window < length (rejections_of es)"
  shows "krc721_rejection_by_txid (ring_run es d) tx = None"
proof -
  have "evicted (rejections_of es) tx l" using assms(6-9) by (auto simp: evicted_def intro: exI [of _ i])
  moreover have "l' = l" if "latest (rejections_of es) tx l'" for l'
    using that assms(5) by (auto simp: latest_def) (metis linorder_neqE_nat)
  ultimately show ?thesis
    using ring_inv_run [OF ring_inv_start [OF assms(1-3)], of es] assms(4)
    by (simp add: krc721_rejection_by_txid_def ring_inv_def) (metis not_None_eq)
qed

lemma window_value: "window = 1000000"
  by (simp add: window_def REJECTIONS_LEN_LIMIT_def)

lemma db_empty_ring [simp]:
  "serial_to_rejected_tx_id db_empty = part_empty" "tx_id_to_rejection db_empty = part_empty" "serial_rejection db_empty = 1"
  by (simp_all add: db_empty_def)

theorem rejection_is_answered_witness:
  "krc721_rejection_by_txid (ring_run [Rejected 7 [97], Rejected 8 [98], Reopened, Rejected 9 [99]] db_empty) 7 = Some [97]"
proof -
  let ?es = "[Rejected 7 [97], Rejected 8 [98], Reopened, Rejected 9 [99]]"
  have "latest (rejections_of ?es) 7 0" by (auto simp: latest_def less_Suc_eq nth_Cons split: nat.splits)
  moreover have "\<not> evicted (rejections_of ?es) 7 0" by (simp add: evicted_def window_value)
  ultimately show ?thesis by (subst rejection_is_answered) auto
qed

lemma rejections_of_replicate [simp]: "rejections_of (replicate n (Rejected tx r)) = replicate n (tx, r)"
  by (induction n) auto

theorem repeated_rejection_is_lost_witness:
  "krc721_rejection_by_txid
     (ring_run (Rejected 7 [97] # Rejected 7 [98] # replicate (window - 1) (Rejected 8 [99])) db_empty) 7 = None"
proof (rule repeated_rejection_is_lost [where i = 0 and l = 1])
  let ?es = "Rejected 7 [97] # Rejected 7 [98] # replicate (window - 1) (Rejected 8 [99])"
  show "latest (rejections_of ?es) 7 1"
    by (auto simp: latest_def nth_Cons split: nat.splits)
qed (simp_all add: window_value)

section \<open>The migration\<close>

lemma migrate_rows_reason:
  "migrate_rows serial rows s2r t2r = (serial', s2r', t2r') \<Longrightarrow> distinct (map fst rows) \<Longrightarrow>
   serial' = serial + word_of_nat (length rows) \<and>
   part_get t2r' tx = (case map_of rows tx of Some r \<Rightarrow> Some r | None \<Rightarrow> part_get t2r tx)"
proof (induction serial rows s2r t2r arbitrary: serial' s2r' t2r' rule: migrate_rows.induct)
  case (2 serial txid rejection rows s2r t2r)
  then have "map_of rows txid = None" by (simp add: map_of_eq_None_iff)
  with 2 show ?case by (auto split: option.splits)
qed simp

text \<open>Opening a database of the older layout loses no reason: each is answered afterwards, the ones that were
  there already too, and an interrupted migration can be repeated.\<close>

theorem migration_keeps_reasons:
  "krc721_rejection_by_txid (try_open (Some legacy) d) tx =
     (case part_get legacy tx of Some r \<Rightarrow> Some r | None \<Rightarrow> krc721_rejection_by_txid d tx) \<and>
   krc721_rejection_by_txid (try_open (Some legacy) (try_open (Some legacy) d)) tx =
     krc721_rejection_by_txid (try_open (Some legacy) d) tx"
proof -
  have rows: "part_range Unbounded Unbounded legacy = part_entries legacy" by (simp add: part_range_def)
  then have answer: "krc721_rejection_by_txid (try_open (Some legacy) d) tx =
      (case part_get legacy tx of Some r \<Rightarrow> Some r | None \<Rightarrow> krc721_rejection_by_txid d tx)" for d
  proof -
    obtain serial s2r t2r where m: "migrate legacy (serial_to_rejected_tx_id d) (tx_id_to_rejection d) = (serial, s2r, t2r)"
      by (metis prod_cases3)
    have "map_of (part_entries legacy) tx = part_get legacy tx" by (simp add: part_get_def)
    with migrate_rows_reason [OF m [unfolded migrate_def rows] al_sorted_distinct [OF part_entries_sorted], of tx]
    show ?thesis by (simp add: krc721_rejection_by_txid_def try_open_def m split: option.split)
  qed
  show ?thesis by (simp add: answer split: option.split)
qed

end
