(* ===== verification/Nexus.thy ===== *)
theory Nexus
  imports Rejections Syncer
begin

text \<open>
  The connection to the node, \<^verbatim>\<open>nexus/src/nexus.rs\<close>: the check of the node's version, the negotiation of a
  connection, the notifications that are passed on, and the loop that takes them up. What the node answers
  to the calls of an event is part of the event; what the service calls in turn is a list of effects.
\<close>

section \<open>The version of the node\<close>

record kaspad_version =
  kv_major :: u64
  kv_minor :: u64
  kv_patch :: u64
  kv_toc :: "u64 option"

text \<open>\<^verbatim>\<open>char::is_whitespace\<close>, \<^verbatim>\<open>str::trim\<close>, \<^verbatim>\<open>str::strip_prefix\<close> and \<^verbatim>\<open>Iterator::find_map\<close>.\<close>

definition is_whitespace :: "nat \<Rightarrow> bool" where
  "is_whitespace c =
     (9 \<le> c \<and> c \<le> 13 \<or> c \<in> {0x20, 0x85, 0xA0, 0x1680, 0x2028, 0x2029, 0x202F, 0x205F, 0x3000} \<or>
      0x2000 \<le> c \<and> c \<le> 0x200A)"

definition trim :: "ustring \<Rightarrow> ustring" where
  "trim s = rev (dropWhile is_whitespace (rev (dropWhile is_whitespace s)))"

definition strip_prefix :: "ustring \<Rightarrow> ustring \<Rightarrow> ustring option" where
  "strip_prefix p s = (if prefix p s then Some (drop (length p) s) else None)"

fun find_map :: "('a \<Rightarrow> 'b option) \<Rightarrow> 'a list \<Rightarrow> 'b option" where
  "find_map f [] = None"
| "find_map f (x # xs) = (case f x of Some y \<Rightarrow> Some y | None \<Rightarrow> find_map f xs)"

definition parse_kaspad_version :: "ustring \<Rightarrow> kaspad_version option" where
  "parse_kaspad_version version0 =
     (let version = value_or (trim version0)
            (strip_prefix (ascii ''v'') (trim (value_or version0 (strip_prefix (ascii ''kaspad'') (trim version0)))))
      in case split_on 45 version of
           [] \<Rightarrow> None
         | core # parts \<Rightarrow>
           (case split_on 46 core of
              [a, b, c] \<Rightarrow>
                Option.bind (u64_from_str a) (\<lambda>major.
                Option.bind (u64_from_str b) (\<lambda>minor.
                Option.bind (u64_from_str c) (\<lambda>patch.
                Some \<lparr>kv_major = major, kv_minor = minor, kv_patch = patch,
                      kv_toc = find_map (\<lambda>part. Option.bind (strip_prefix (ascii ''toc.'') part) u64_from_str) parts\<rparr>)))
            | _ \<Rightarrow> None))"

definition MINIMUM_KASPAD_VERSION :: ustring where
  "MINIMUM_KASPAD_VERSION = ascii ''1.3.0-toc.5''"

definition version_less :: "kaspad_version \<Rightarrow> kaspad_version \<Rightarrow> bool" where
  "version_less v w =
     (kv_major v < kv_major w \<or> kv_major v = kv_major w \<and>
        (kv_minor v < kv_minor w \<or> kv_minor v = kv_minor w \<and> kv_patch v < kv_patch w))"

definition toc_supported :: "u64 option \<Rightarrow> u64 option \<Rightarrow> bool" where
  "toc_supported version_toc minimum_toc =
     (case (version_toc, minimum_toc) of
        (None, Some _) \<Rightarrow> True
      | (Some v, Some m) \<Rightarrow> v \<ge> m
      | (Some _, None) \<Rightarrow> False
      | (None, None) \<Rightarrow> True)"

text \<open>The left is the panic of an unreadable minimum.\<close>

definition is_supported_kaspad_version :: "ustring \<Rightarrow> bool res" where
  "is_supported_kaspad_version s =
     (case parse_kaspad_version s of
        None \<Rightarrow> Inr False
      | Some version \<Rightarrow>
        (case parse_kaspad_version MINIMUM_KASPAD_VERSION of
           None \<Rightarrow> Inl (Panic ''minimum version is valid'')
         | Some minimum \<Rightarrow>
             Inr (if version_less minimum version then True
                  else if version_less version minimum then False
                  else toc_supported (kv_toc version) (kv_toc minimum))))"

text \<open>A version as the node prints it.\<close>

definition version_text :: "kaspad_version \<Rightarrow> ustring" where
  "version_text v =
     u64_to_string (kv_major v) @ [46] @ u64_to_string (kv_minor v) @ [46] @ u64_to_string (kv_patch v) @
     (case kv_toc v of None \<Rightarrow> [] | Some n \<Rightarrow> [45] @ ascii ''toc.'' @ u64_to_string n)"

lemma ascii_texts:
  "ascii ''v'' = [118]" "ascii ''kaspad'' = [107, 97, 115, 112, 97, 100]" "ascii ''toc.'' = [116, 111, 99, 46]"
  by (simp_all add: ascii_def)

lemma u64_text_ne [simp]: "u64_to_string x \<noteq> []"
  by (simp add: u64_to_string_def)

lemma trim_id: "s \<noteq> [] \<Longrightarrow> \<not> is_whitespace (hd s) \<Longrightarrow> \<not> is_whitespace (last s) \<Longrightarrow> trim s = s"
proof -
  assume s: "s \<noteq> []" and h: "\<not> is_whitespace (hd s)" and l: "\<not> is_whitespace (last s)"
  have "dropWhile is_whitespace s = s" using s h by (cases s) auto
  moreover have "dropWhile is_whitespace (rev s) = rev s" using s l by (cases s rule: rev_cases) auto
  ultimately show ?thesis by (simp add: trim_def)
qed

lemma trim_space [simp]: "trim (32 # s) = trim s"
  by (simp add: trim_def is_whitespace_def)

lemma digit_not_space: "48 \<le> c \<Longrightarrow> c \<le> 57 \<Longrightarrow> \<not> is_whitespace c"
  by (auto simp: is_whitespace_def)

lemma version_text_ends:
  "version_text v \<noteq> []" "48 \<le> hd (version_text v) \<and> hd (version_text v) \<le> 57"
  "48 \<le> last (version_text v) \<and> last (version_text v) \<le> 57"
proof -
  have h: "48 \<le> hd (u64_to_string x) \<and> hd (u64_to_string x) \<le> 57"
    and l: "48 \<le> last (u64_to_string x) \<and> last (u64_to_string x) \<le> 57" for x
    using u64_text_chars [of "hd (u64_to_string x)" x] u64_text_chars [of "last (u64_to_string x)" x] by simp_all
  show "version_text v \<noteq> []" by (simp add: version_text_def)
  show "48 \<le> hd (version_text v) \<and> hd (version_text v) \<le> 57" using h by (simp add: version_text_def)
  show "48 \<le> last (version_text v) \<and> last (version_text v) \<le> 57" using l
    by (cases "kv_toc v") (simp_all add: version_text_def ascii_texts)
qed

lemma version_text_parts:
  "split_on 45 (version_text v) =
     (u64_to_string (kv_major v) @ [46] @ u64_to_string (kv_minor v) @ [46] @ u64_to_string (kv_patch v)) #
     (case kv_toc v of None \<Rightarrow> [] | Some n \<Rightarrow> [ascii ''toc.'' @ u64_to_string n])"
proof -
  have d: "45 \<notin> set (u64_to_string x)" for x using u64_text_chars [of 45 x] by auto
  then have c: "45 \<notin> set (u64_to_string (kv_major v) @ [46] @ u64_to_string (kv_minor v) @ [46] @ u64_to_string (kv_patch v))"
    by simp
  show ?thesis
    using split_on_none [OF c] split_on_append [OF c] d
    by (cases "kv_toc v") (simp_all add: version_text_def ascii_texts split_on_none)
qed

lemma core_parts:
  "split_on 46 (u64_to_string a @ [46] @ u64_to_string b @ [46] @ u64_to_string c) = map u64_to_string [a, b, c]"
proof -
  have d: "46 \<notin> set (u64_to_string x)" for x using u64_text_chars [of 46 x] by auto
  then show ?thesis by (simp add: split_on_append split_on_none)
qed

lemma parse_of_text:
  assumes "value_or (trim s) (strip_prefix (ascii ''v'') (trim (value_or s (strip_prefix (ascii ''kaspad'') (trim s))))) = version_text v"
  shows "parse_kaspad_version s = Some v"
proof -
  have "strip_prefix (ascii ''toc.'') (ascii ''toc.'' @ t) = Some t" for t by (simp add: strip_prefix_def)
  then show ?thesis unfolding parse_kaspad_version_def assms version_text_parts Let_def
    by (cases v) (simp add: core_parts [simplified] split: option.split)
qed

lemma version_text_trim: "trim (version_text v) = version_text v"
  using version_text_ends [of v] by (intro trim_id) (auto simp: digit_not_space)

lemma version_text_strip:
  "strip_prefix (ascii ''v'') (version_text v) = None" "strip_prefix (ascii ''kaspad'') (version_text v) = None"
  using version_text_ends(1,2) [of v] by (cases "version_text v"; auto simp: strip_prefix_def ascii_texts)+

lemma trim_before_text:
  assumes "\<not> is_whitespace c"
  shows "trim (c # p @ version_text v) = c # p @ version_text v"
  using assms version_text_ends(1,3) [of v] by (intro trim_id) (simp_all add: digit_not_space)

lemma letters_not_space: "\<not> is_whitespace 118" "\<not> is_whitespace 107"
  by (simp_all add: is_whitespace_def)

lemma parse_version_text: "parse_kaspad_version (version_text v) = Some v"
  by (rule parse_of_text) (simp add: version_text_trim version_text_strip value_or_def)

lemma split_on_Cons: "x \<noteq> c \<Longrightarrow> \<exists>p ps. split_on c (x # s) = (x # p) # ps"
  by (cases "split_on c s") auto

lemma kaspad_texts:
  "ascii ''kaspad v'' = 107 # [97, 115, 112, 97, 100, 32, 118]" "ascii ''kaspad '' = 107 # [97, 115, 112, 97, 100, 32]"
  by (simp_all add: ascii_def)

lemma strip_kaspad: "strip_prefix (ascii ''kaspad'') (107 # 97 # 115 # 112 # 97 # 100 # q) = Some q"
  by (simp add: strip_prefix_def ascii_texts)

lemma v_text: "ascii ''v'' @ q = 118 # q"
  by (simp add: ascii_texts)

lemma strip_v: "strip_prefix (ascii ''v'') (118 # q) = Some q"
  by (simp add: strip_prefix_def ascii_texts)

text \<open>The version of a node is read from its text with or without a letter v in front, and with the name of the
  program in front of the v. With the name alone in front of the number, which the reader strips and then
  forgets, nothing is read, and such a node is refused.\<close>

theorem version_text_is_read:
  "parse_kaspad_version (version_text v) = Some v \<and>
   parse_kaspad_version (ascii ''v'' @ version_text v) = Some v \<and>
   parse_kaspad_version (ascii ''kaspad v'' @ version_text v) = Some v \<and>
   parse_kaspad_version (ascii ''kaspad '' @ version_text v) = None"
proof (intro conjI)
  let ?t = "version_text v"
  note trv = trim_before_text [OF letters_not_space(1), of "[]" v, simplified]
  note trk = trim_before_text [OF letters_not_space(2)]
  show "parse_kaspad_version ?t = Some v" by (rule parse_version_text)
  have "strip_prefix (ascii ''kaspad'') (118 # ?t) = None" by (simp add: strip_prefix_def ascii_texts)
  then show "parse_kaspad_version (ascii ''v'' @ ?t) = Some v"
    unfolding v_text by (intro parse_of_text) (simp add: trv strip_v value_or_def)
  show "parse_kaspad_version (ascii ''kaspad v'' @ ?t) = Some v"
    unfolding kaspad_texts using trk [of "[97, 115, 112, 97, 100, 32, 118]" v]
    by (intro parse_of_text) (simp add: trv strip_v strip_kaspad value_or_def)
  let ?s = "107 # 97 # 115 # 112 # 97 # 100 # 32 # ?t"
  obtain p ps where c: "split_on 45 ?s = (107 # p) # ps" using split_on_Cons [of 107 45] by fastforce
  obtain q qs where q: "split_on 46 (107 # p) = (107 # q) # qs" using split_on_Cons [of 107 46 p] by auto
  have "u64_from_str (107 # q) = None" by (simp add: u64_from_str_def)
  then show "parse_kaspad_version (ascii ''kaspad '' @ ?t) = None"
    unfolding kaspad_texts using trk [of "[97, 115, 112, 97, 100, 32]" v] c q
    by (simp add: parse_kaspad_version_def Let_def strip_kaspad version_text_trim version_text_strip value_or_def
        split: list.split del: split_on.simps)
qed

lemma minimum_version:
  "parse_kaspad_version MINIMUM_KASPAD_VERSION = Some \<lparr>kv_major = 1, kv_minor = 3, kv_patch = 0, kv_toc = Some 5\<rparr>"
proof -
  have "MINIMUM_KASPAD_VERSION = version_text \<lparr>kv_major = 1, kv_minor = 3, kv_patch = 0, kv_toc = Some 5\<rparr>"
    by (simp add: MINIMUM_KASPAD_VERSION_def version_text_def ascii_def u64_to_string_def dec_digits.simps)
  then show ?thesis unfolding \<open>MINIMUM_KASPAD_VERSION = _\<close> by (intro parse_version_text)
qed

text \<open>The supported versions are the releases from 1.3.0 on and the test builds from 1.3.0-toc.5 on: the check
  is total and compares versions, not texts.\<close>

theorem supported_versions:
  "is_supported_kaspad_version s = Inr (case parse_kaspad_version s of
     None \<Rightarrow> False
   | Some v \<Rightarrow> (1, 3, 0) < (unat (kv_major v), unat (kv_minor v), unat (kv_patch v)) \<or>
       (unat (kv_major v), unat (kv_minor v), unat (kv_patch v)) = (1, 3, 0) \<and>
       (case kv_toc v of None \<Rightarrow> True | Some toc \<Rightarrow> 5 \<le> toc))"
proof (cases "parse_kaspad_version s")
  case (Some v)
  have "unat (1 :: u64) = 1" "unat (3 :: u64) = 3" by simp_all
  then show ?thesis unfolding is_supported_kaspad_version_def minimum_version Some
    by (auto simp: version_less_def toc_supported_def less_prod_def' word_less_nat_alt word_unat_eq_iff split: option.splits)
qed (simp add: is_supported_kaspad_version_def)

section \<open>The connection\<close>

text \<open>
  What the service calls: the node's RPC, the syncer and the consumer of the notifications (the syncer again,
  or a recorder). The state of \<^verbatim>\<open>state.rs\<close>, the listener, the counter of notifications, and the syncer, if
  there is one, with the last block it knows.
\<close>

datatype 'v nexus_effect =
    RegisterListener nat
  | StartNotify nat bool
  | UnregisterListener nat
  | SpawnSyncer blue_hash_key
  | RpcDisconnect
  | RpcConnect
  | ConsumerDisconnected
  | ConsumerChainChanged 'v

record nexus =
  nx_is_node_connected :: bool
  nx_is_node_synced :: bool
  nx_current_daa_score :: u64
  nx_listener_id :: "nat option"
  nx_vcc_notifications :: u64
  nx_syncer :: "blue_hash_key option option"

datatype nexus_error = InvalidNetworkType | RpcApiVersion | UnsupportedKaspadVersion | NodeNotSynced | CallFailed

record 'n server_info =
  gi_server_version :: ustring
  gi_network_id :: 'n
  gi_is_synced :: bool
  gi_virtual_daa_score :: u64
  gi_rpc_api_version :: u16

text \<open>The answers of the calls that an event makes; an absent or false one is an error of the call.\<close>

record 'n node_answers =
  na_server_info :: "'n server_info option"
  na_pruning_point :: "hash option"
  na_blue_score :: "hash \<Rightarrow> u64 option"
  na_new_listener :: nat
  na_start_notify :: "bool \<Rightarrow> bool"
  na_unregister :: bool
  na_disconnect :: bool
  na_connect :: bool
  na_consumer :: bool

text \<open>A method returns an error or a value, the state, and its calls; \<^verbatim>\<open>?\<close> goes on with the value.\<close>

type_synonym ('v, 'a) nexus_method = "nexus \<Rightarrow> (nexus_error + 'a) \<times> nexus \<times> 'v nexus_effect list"

definition nx_return :: "'a \<Rightarrow> ('v, 'a) nexus_method" where
  "nx_return a n = (Inr a, n, [])"

definition nx_bind :: "('v, 'a) nexus_method \<Rightarrow> ('a \<Rightarrow> ('v, 'b) nexus_method) \<Rightarrow> ('v, 'b) nexus_method" where
  "nx_bind m f n =
     (case m n of
        (Inl e, n1, es) \<Rightarrow> (Inl e, n1, es)
      | (Inr a, n1, es) \<Rightarrow> (case f a n1 of (r, n2, es') \<Rightarrow> (r, n2, es @ es')))"

definition nx_require :: "bool \<Rightarrow> nexus_error \<Rightarrow> ('v, unit) nexus_method" where
  "nx_require b e n = ((if b then Inr () else Inl e), n, [])"

definition nx_answer :: "'a option \<Rightarrow> ('v, 'a) nexus_method" where
  "nx_answer x n = ((case x of None \<Rightarrow> Inl CallFailed | Some a \<Rightarrow> Inr a), n, [])"

definition nx_modify :: "(nexus \<Rightarrow> nexus) \<Rightarrow> ('v, unit) nexus_method" where
  "nx_modify f n = (Inr (), f n, [])"

definition nx_call :: "'v nexus_effect \<Rightarrow> bool \<Rightarrow> ('v, unit) nexus_method" where
  "nx_call e ok n = ((if ok then Inr () else Inl CallFailed), n, [e])"

definition spawn_syncer :: "'n node_answers \<Rightarrow> ('v, unit) nexus_method" where
  "spawn_syncer ans n =
     (if nx_syncer n = Some None
      then nx_bind (nx_answer (na_pruning_point ans)) (\<lambda>last_known_block_hash.
           nx_bind (nx_answer (na_blue_score ans last_known_block_hash)) (\<lambda>blue_score.
           let b = BlueScoredChainBlockHash blue_score last_known_block_hash in
           nx_bind (nx_call (SpawnSyncer b) True) (\<lambda>_. nx_modify (\<lambda>n. n\<lparr>nx_syncer := Some (Some b)\<rparr>)))) n
      else nx_return () n)"

definition init_state_from_server :: "'n \<Rightarrow> u16 \<Rightarrow> 'n node_answers \<Rightarrow> ('v, bool) nexus_method" where
  "init_state_from_server network_id RPC_API_VERSION ans =
     nx_bind (nx_answer (na_server_info ans)) (\<lambda>info.
     nx_bind (nx_require (network_id = gi_network_id info) InvalidNetworkType) (\<lambda>_.
     nx_bind (nx_require (\<not> gi_rpc_api_version info > RPC_API_VERSION) RpcApiVersion) (\<lambda>_.
     nx_bind (\<lambda>n. nx_require (\<not> (nx_syncer n \<noteq> None \<and> is_supported_kaspad_version (gi_server_version info) \<noteq> Inr True))
                UnsupportedKaspadVersion n) (\<lambda>_.
     nx_bind (nx_modify (\<lambda>n. n\<lparr>nx_current_daa_score := gi_virtual_daa_score info\<rparr>)) (\<lambda>_.
     nx_bind (spawn_syncer ans) (\<lambda>_.
     nx_return (gi_is_synced info)))))))"

definition register_notification_listener :: "'n node_answers \<Rightarrow> ('v, unit) nexus_method" where
  "register_notification_listener ans =
     (let listener_id = na_new_listener ans in
      nx_bind (nx_call (RegisterListener listener_id) True) (\<lambda>_.
      nx_bind (nx_modify (\<lambda>n. n\<lparr>nx_listener_id := Some listener_id\<rparr>)) (\<lambda>_.
      nx_bind (nx_call (StartNotify listener_id False) (na_start_notify ans False)) (\<lambda>_.
      nx_call (StartNotify listener_id True) (na_start_notify ans True)))))"

definition handle_connect_impl :: "'n \<Rightarrow> u16 \<Rightarrow> 'n node_answers \<Rightarrow> ('v, unit) nexus_method" where
  "handle_connect_impl network_id RPC_API_VERSION ans =
     nx_bind (init_state_from_server network_id RPC_API_VERSION ans) (\<lambda>is_node_synced.
     nx_bind (nx_require is_node_synced NodeNotSynced) (\<lambda>_.
     nx_bind (nx_modify (\<lambda>n. n\<lparr>nx_is_node_connected := True\<rparr>)) (\<lambda>_.
     nx_bind (nx_modify (\<lambda>n. n\<lparr>nx_is_node_synced := is_node_synced\<rparr>)) (\<lambda>_.
     register_notification_listener ans))))"

definition handle_connect :: "'n \<Rightarrow> u16 \<Rightarrow> 'n node_answers \<Rightarrow> ('v, unit) nexus_method" where
  "handle_connect network_id RPC_API_VERSION ans n =
     (case handle_connect_impl network_id RPC_API_VERSION ans n of
        (Inr _, n1, es) \<Rightarrow> (Inr (), n1, es)
      | (Inl err, n1, es) \<Rightarrow>
          (case nx_bind (nx_call RpcDisconnect (na_disconnect ans)) (\<lambda>_.
                nx_bind (nx_call RpcConnect (na_connect ans)) (\<lambda>_.
                \<lambda>n. (Inl err, n, []))) n1 of
             (r, n2, es') \<Rightarrow> (r, n2, es @ es')))"

definition unregister_notification_listener :: "'n node_answers \<Rightarrow> ('v, unit) nexus_method" where
  "unregister_notification_listener ans n =
     nx_bind (nx_modify (\<lambda>n. n\<lparr>nx_listener_id := None\<rparr>)) (\<lambda>_.
       case nx_listener_id n of
         None \<Rightarrow> nx_return ()
       | Some listener_id \<Rightarrow> nx_call (UnregisterListener listener_id) (na_unregister ans)) n"

definition handle_disconnect :: "'n node_answers \<Rightarrow> ('v, unit) nexus_method" where
  "handle_disconnect ans =
     nx_bind (nx_modify (\<lambda>n. n\<lparr>nx_is_node_connected := False\<rparr>)) (\<lambda>_.
     nx_bind (unregister_notification_listener ans) (\<lambda>_.
     nx_call ConsumerDisconnected (na_consumer ans)))"

definition nexus_handle_virtual_chain_changed :: "'v \<Rightarrow> bool \<Rightarrow> ('v, unit) nexus_method" where
  "nexus_handle_virtual_chain_changed notification ok =
     nx_bind (nx_modify (\<lambda>n. n\<lparr>nx_vcc_notifications := nx_vcc_notifications n + 1\<rparr>)) (\<lambda>_.
     nx_call (ConsumerChainChanged notification) ok)"

text \<open>The events of the loop; errors of the handlers are logged.\<close>

datatype ('n, 'v) nexus_event =
    Connected "'n node_answers"
  | Disconnected "'n node_answers"
  | VirtualDaaScoreChanged u64
  | VirtualChainChanged 'v bool
  | UnknownNotification
  | NexusShutdown "'n node_answers"

fun nexus_step :: "'n \<Rightarrow> u16 \<Rightarrow> ('n, 'v) nexus_event \<Rightarrow> nexus \<Rightarrow> nexus \<times> 'v nexus_effect list" where
  "nexus_step net ver (Connected ans) n =
     (if \<not> nx_is_node_connected n then snd (handle_connect net ver ans n) else (n, []))"
| "nexus_step net ver (Disconnected ans) n =
     (if nx_is_node_connected n then snd (handle_disconnect ans n) else (n, []))"
| "nexus_step net ver (VirtualDaaScoreChanged s) n = (n\<lparr>nx_current_daa_score := s\<rparr>, [])"
| "nexus_step net ver (VirtualChainChanged v ok) n = snd (nexus_handle_virtual_chain_changed v ok n)"
| "nexus_step net ver UnknownNotification n = (n, [])"
| "nexus_step net ver (NexusShutdown ans) n =
     (if nx_is_node_connected n then snd (handle_disconnect ans n) else (n, []))"

fun nexus_task :: "'n \<Rightarrow> u16 \<Rightarrow> ('n, 'v) nexus_event list \<Rightarrow> nexus \<Rightarrow> nexus \<times> 'v nexus_effect list" where
  "nexus_task net ver [] n = (n, [])"
| "nexus_task net ver (e # es) n =
     (case nexus_step net ver e n of
        (n1, fx) \<Rightarrow>
          if (case e of NexusShutdown _ \<Rightarrow> True | _ \<Rightarrow> False) then (n1, fx)
          else (case nexus_task net ver es n1 of (n2, fx') \<Rightarrow> (n2, fx @ fx')))"

definition nexus_init :: "blue_hash_key option option \<Rightarrow> nexus" where
  "nexus_init syncer =
     \<lparr>nx_is_node_connected = False, nx_is_node_synced = False, nx_current_daa_score = 0, nx_listener_id = None,
      nx_vcc_notifications = 0, nx_syncer = syncer\<rparr>"

section \<open>Lifecycle of a connection\<close>

named_theorems nexus_method

lemma nx_bind_steps [nexus_method]:
  "nx_bind (nx_require b e) f n = (if b then f () n else (Inl e, n, []))"
  "nx_bind (\<lambda>n. nx_require (P n) e n) f n = (if P n then f () n else (Inl e, n, []))"
  "nx_bind (nx_answer x) g n = (case x of None \<Rightarrow> (Inl CallFailed, n, []) | Some a \<Rightarrow> g a n)"
  "nx_bind (nx_modify h) f n = f () (h n)"
  "nx_bind (nx_call c ok) f n =
     (if ok then (case f () n of (r, n', fx) \<Rightarrow> (r, n', c # fx)) else (Inl CallFailed, n, [c]))"
  "nx_bind (nx_return a) k n = k a n"
  "nx_return a n = (Inr a, n, [])"
  "nx_modify h n = (Inr (), h n, [])"
  "nx_call c ok n = ((if ok then Inr () else Inl CallFailed), n, [c])"
  by (simp_all add: nx_bind_def nx_require_def nx_answer_def nx_modify_def nx_call_def nx_return_def split: option.split prod.split)

lemma nx_bind_result [nexus_method]:
  "m n = (Inl e, n1, es) \<Longrightarrow> nx_bind m f n = (Inl e, n1, es)"
  "m n = (Inr a, n1, es) \<Longrightarrow> nx_bind m f n = (case f a n1 of (r, n2, es') \<Rightarrow> (r, n2, es @ es'))"
  by (simp_all add: nx_bind_def)

lemma nx_bind_assoc [nexus_method]: "nx_bind (nx_bind m f) g = nx_bind m (\<lambda>a. nx_bind (f a) g)"
  by (rule ext) (auto simp: nx_bind_def split: prod.split sum.split)

text \<open>What a connection attempt leaves behind: it is refused, or a listener is registered for good.\<close>

definition accepted :: "'n \<Rightarrow> u16 \<Rightarrow> 'n node_answers \<Rightarrow> nexus \<Rightarrow> bool" where
  "accepted net ver ans n \<longleftrightarrow>
     (\<exists>info. na_server_info ans = Some info \<and> gi_network_id info = net \<and> gi_rpc_api_version info \<le> ver \<and> gi_is_synced info \<and>
        (nx_syncer n \<noteq> None \<longrightarrow> is_supported_kaspad_version (gi_server_version info) = Inr True) \<and>
        (nx_syncer n = Some None \<longrightarrow>
           (\<exists>h. na_pruning_point ans = Some h \<and> na_blue_score ans h \<noteq> None)))"

text \<open>The beginning and the end of a connection, among the calls.\<close>

fun lifecycle :: "'v nexus_effect \<Rightarrow> bool option" where
  "lifecycle (RegisterListener _) = Some True"
| "lifecycle ConsumerDisconnected = Some False"
| "lifecycle _ = None"

definition lifecycles :: "'v nexus_effect list \<Rightarrow> bool list" where
  "lifecycles fx = List.map_filter lifecycle fx"

lemma lifecycles_simps [simp]:
  "lifecycles [] = []"
  "lifecycles (f # fx) = (case lifecycle f of None \<Rightarrow> [] | Some b \<Rightarrow> [b]) @ lifecycles fx"
  "lifecycles (fx @ gx) = lifecycles fx @ lifecycles gx"
  by (simp_all add: lifecycles_def List.map_filter_def split: option.split)

lemma spawn_syncer_frame:
  assumes "spawn_syncer ans n = (r, n', fx)"
  shows "n' = n\<lparr>nx_syncer := nx_syncer n'\<rparr>" "lifecycles fx = []"
    "(\<exists>u. r = Inr u) \<longleftrightarrow> (nx_syncer n = Some None \<longrightarrow> (\<exists>h. na_pruning_point ans = Some h \<and> na_blue_score ans h \<noteq> None))"
  using assms by (auto simp: spawn_syncer_def nexus_method Let_def split: option.splits if_splits)

lemma init_state_refused:
  assumes "\<And>info. na_server_info ans = Some info \<Longrightarrow> gi_network_id info \<noteq> net \<or> ver < gi_rpc_api_version info \<or>
    nx_syncer n \<noteq> None \<and> is_supported_kaspad_version (gi_server_version info) \<noteq> Inr True"
  shows "\<exists>e. init_state_from_server net ver ans n = (Inl e, n, [])"
  using assms by (cases "na_server_info ans") (auto simp: init_state_from_server_def nexus_method split: if_splits)

lemma init_state_result:
  assumes "na_server_info ans = Some info" and "net = gi_network_id info" and "gi_rpc_api_version info \<le> ver"
    and "nx_syncer n \<noteq> None \<longrightarrow> is_supported_kaspad_version (gi_server_version info) = Inr True"
    and sp: "spawn_syncer ans (n\<lparr>nx_current_daa_score := gi_virtual_daa_score info\<rparr>) = (q, n1, gx)"
  shows "init_state_from_server net ver ans n = (map_sum id (\<lambda>_. gi_is_synced info) q, n1, gx)"
proof (cases q)
  case (Inl e)
  with assms show ?thesis
    by (auto simp: init_state_from_server_def nexus_method not_less)
next
  case (Inr u)
  with assms show ?thesis
    by (auto simp: init_state_from_server_def nexus_method not_less)
qed

lemma register_result:
  "\<exists>r fx. register_notification_listener ans n = (r, n\<lparr>nx_listener_id := Some (na_new_listener ans)\<rparr>, fx) \<and> lifecycles fx = [True]"
  by (simp add: register_notification_listener_def nexus_method Let_def)

lemma handle_connect_impl_lifecycle:
  fixes fx :: "'v nexus_effect list"
  assumes h: "handle_connect_impl net ver ans n = (r, n', fx)"
  shows "if accepted net ver ans n
    then nx_is_node_connected n' \<and> nx_is_node_synced n' \<and> nx_listener_id n' = Some (na_new_listener ans) \<and> lifecycles fx = [True]
    else nx_is_node_connected n' = nx_is_node_connected n \<and> nx_listener_id n' = nx_listener_id n \<and>
      nx_is_node_synced n' = nx_is_node_synced n \<and> lifecycles fx = [] \<and> (\<forall>u. r \<noteq> Inr u)"
proof (cases "\<exists>info. na_server_info ans = Some info \<and> net = gi_network_id info \<and> gi_rpc_api_version info \<le> ver \<and>
    (nx_syncer n \<noteq> None \<longrightarrow> is_supported_kaspad_version (gi_server_version info) = Inr True)")
  case False
  then have "\<not> accepted net ver ans n" by (auto simp: accepted_def)
  moreover have "\<exists>e. init_state_from_server net ver ans n = (Inl e, n, [] :: 'v nexus_effect list)"
    using False by (intro init_state_refused) (auto simp: not_le)
  then obtain e where "init_state_from_server net ver ans n = (Inl e, n, [] :: 'v nexus_effect list)" ..
  ultimately show ?thesis using h by (auto simp: handle_connect_impl_def nx_bind_def)
next
  case True
  then obtain info where info: "na_server_info ans = Some info" "net = gi_network_id info" "gi_rpc_api_version info \<le> ver"
    "nx_syncer n \<noteq> None \<longrightarrow> is_supported_kaspad_version (gi_server_version info) = Inr True" by auto
  let ?n = "n\<lparr>nx_current_daa_score := gi_virtual_daa_score info\<rparr>"
  obtain q n1 and gx :: "'v nexus_effect list" where sp: "spawn_syncer ans ?n = (q, n1, gx)" by (metis prod_cases3)
  note fr = spawn_syncer_frame [OF sp] and init = init_state_result [OF info sp]
  have n1: "nx_is_node_connected n1 = nx_is_node_connected n" "nx_listener_id n1 = nx_listener_id n"
    "nx_is_node_synced n1 = nx_is_node_synced n"
    using fr(1) by (metis nexus.select_convs nexus.surjective nexus.update_convs)+
  show ?thesis
  proof (cases "accepted net ver ans n")
    case False
    then have "(\<exists>e. q = Inl e) \<or> \<not> gi_is_synced info" using info fr(3) by (cases q) (auto simp: accepted_def)
    then show ?thesis using h init fr(2) n1 False
      by (cases q) (auto simp: handle_connect_impl_def nx_bind_def nx_require_def split: prod.splits)
  next
    case True
    then have s: "gi_is_synced info" and "\<exists>u. q = Inr u" using info fr(3) by (auto simp: accepted_def)
    then obtain u where "q = Inr u" by blast
    have "\<exists>r fx. register_notification_listener ans (n1\<lparr>nx_is_node_connected := True, nx_is_node_synced := True\<rparr>) =
        (r, n1\<lparr>nx_is_node_connected := True, nx_is_node_synced := True, nx_listener_id := Some (na_new_listener ans)\<rparr>,
         fx :: 'v nexus_effect list) \<and> lifecycles fx = [True]"
      using register_result [of ans "n1\<lparr>nx_is_node_connected := True, nx_is_node_synced := True\<rparr>"] by simp
    with \<open>q = Inr u\<close> show ?thesis using h init fr(2) s True
      by (auto simp: handle_connect_impl_def nx_bind_result(2) nexus_method)
  qed
qed

lemma handle_connect_lifecycle:
  fixes fx :: "'v nexus_effect list"
  assumes "handle_connect net ver ans n = (r, n', fx)" and "\<not> nx_is_node_connected n" and "nx_listener_id n = None"
  shows "nx_is_node_connected n' = accepted net ver ans n \<and> (nx_listener_id n' \<noteq> None) = accepted net ver ans n \<and>
    lifecycles fx = (if accepted net ver ans n then [True] else []) \<and>
    (accepted net ver ans n \<longrightarrow> nx_is_node_synced n')"
proof -
  obtain q n1 and gx :: "'v nexus_effect list" where i: "handle_connect_impl net ver ans n = (q, n1, gx)" by (metis prod_cases3)
  show ?thesis using assms handle_connect_impl_lifecycle [OF i] i
    by (cases q) (auto simp: handle_connect_def nexus_method split: if_splits prod.splits)
qed

lemma handle_disconnect_lifecycle:
  assumes "handle_disconnect ans n = (r, n', fx)" and "nx_listener_id n \<noteq> None"
  shows "\<not> nx_is_node_connected n' \<and> nx_listener_id n' = None \<and> lifecycles fx = (if na_unregister ans then [False] else [])"
proof -
  obtain l where "nx_listener_id n = Some l" using assms(2) by auto
  then show ?thesis using assms(1)
    by (cases "na_unregister ans")
      (auto simp: handle_disconnect_def unregister_notification_listener_def nexus_method)
qed

text \<open>The invariant of the loop: a listener is kept exactly while the node counts as connected.\<close>

definition nexus_ok :: "nexus \<Rightarrow> bool" where
  "nexus_ok n \<longleftrightarrow> (nx_is_node_connected n \<longleftrightarrow> nx_listener_id n \<noteq> None) \<and> (nx_is_node_connected n \<longrightarrow> nx_is_node_synced n)"

definition unregisters :: "('n, 'v) nexus_event \<Rightarrow> bool" where
  "unregisters e = (case e of Disconnected ans \<Rightarrow> na_unregister ans | NexusShutdown ans \<Rightarrow> na_unregister ans | _ \<Rightarrow> True)"

lemma nexus_step_lifecycle:
  fixes fx :: "'v nexus_effect list"
  assumes "nexus_ok n" and "nexus_step net ver e n = (n', fx)"
  shows "nexus_ok n' \<and> lifecycles fx =
    (if nx_is_node_connected n = nx_is_node_connected n' \<or> \<not> nx_is_node_connected n' \<and> \<not> unregisters e then []
     else [nx_is_node_connected n'])"
proof (cases e)
  case (Connected ans)
  obtain r n1 and gx :: "'v nexus_effect list" where "handle_connect net ver ans n = (r, n1, gx)" by (metis prod_cases3)
  then show ?thesis using assms Connected handle_connect_lifecycle [of net ver ans n r n1 gx]
    by (auto simp: nexus_ok_def split: if_splits)
next
  case (Disconnected ans)
  obtain r n1 and gx :: "'v nexus_effect list" where "handle_disconnect ans n = (r, n1, gx)" by (metis prod_cases3)
  then show ?thesis using assms Disconnected handle_disconnect_lifecycle [of ans n r n1 gx]
    by (auto simp: nexus_ok_def unregisters_def split: if_splits)
next
  case (NexusShutdown ans)
  obtain r n1 and gx :: "'v nexus_effect list" where "handle_disconnect ans n = (r, n1, gx)" by (metis prod_cases3)
  then show ?thesis using assms NexusShutdown handle_disconnect_lifecycle [of ans n r n1 gx]
    by (auto simp: nexus_ok_def unregisters_def split: if_splits)
qed (use assms in \<open>auto simp: nexus_ok_def nexus_handle_virtual_chain_changed_def nexus_method\<close>)

text \<open>
  The changes of the connection along the events: whether it begins or ends, and, of an end, whether the listener
  could be unregistered.
\<close>

fun connection_log :: "'n \<Rightarrow> u16 \<Rightarrow> ('n, 'v) nexus_event list \<Rightarrow> nexus \<Rightarrow> (bool \<times> bool) list" where
  "connection_log net ver [] n = []"
| "connection_log net ver (e # es) n =
     (let n1 = fst (nexus_step net ver e n) in
      (if nx_is_node_connected n1 = nx_is_node_connected n then [] else [(nx_is_node_connected n1, unregisters e)]) @
      (if (case e of NexusShutdown _ \<Rightarrow> True | _ \<Rightarrow> False) then [] else connection_log net ver es n1))"

definition told :: "bool \<times> bool \<Rightarrow> bool" where
  "told change = (fst change \<or> snd change)"

text \<open>Beginnings and ends alternate, from the present state on.\<close>

fun alternating :: "bool \<Rightarrow> bool list \<Rightarrow> bool \<Rightarrow> bool" where
  "alternating c [] c' = (c = c')"
| "alternating c (b # bs) c' = (b \<noteq> c \<and> alternating b bs c')"

text \<open>C38: Over any events, whatever the calls answer, the connections begin and end in turn. A listener is registered
  at every beginning, and the consumer is told of every end, once and before the next beginning, unless the
  listener could not be unregistered: then it is not told (handle_disconnect returns before it does). It is told
  of nothing else, and the node counts as connected exactly while a listener is kept.\<close>

theorem connections_begin_and_end_in_turn:
  assumes "nexus_ok n" and "nexus_task net ver es n = (n', fx)"
  shows "alternating (nx_is_node_connected n) (map fst (connection_log net ver es n)) (nx_is_node_connected n') \<and>
    lifecycles fx = map fst (filter told (connection_log net ver es n)) \<and>
    (nx_is_node_connected n' \<longleftrightarrow> nx_listener_id n' \<noteq> None) \<and> (nx_is_node_connected n' \<longrightarrow> nx_is_node_synced n')"
proof -
  have "alternating (nx_is_node_connected n) (map fst (connection_log net ver es n)) (nx_is_node_connected n') \<and>
      lifecycles fx = map fst (filter told (connection_log net ver es n)) \<and> nexus_ok n'"
    using assms
  proof (induction es arbitrary: n n' fx)
    case (Cons e es)
    obtain n1 gx where s: "nexus_step net ver e n = (n1, gx)" by fastforce
    obtain n2 hx where t: "nexus_task net ver es n1 = (n2, hx)" by fastforce
    note 1 = nexus_step_lifecycle [OF Cons.prems(1) s]
    from Cons.IH [OF conjunct1 [OF 1] t] 1 Cons.prems(2) t show ?case
      by (auto simp: s told_def simp del: nexus_step.simps split: if_splits)
  qed simp
  then show ?thesis unfolding nexus_ok_def by blast
qed

text \<open>A node that is not synced is refused, but by then the syncer has been started at the pruning point of that
  node, for good: no later connection starts it again.\<close>

theorem refused_node_starts_the_syncer:
  fixes fx :: "'v nexus_effect list"
  assumes "na_server_info ans = Some info" and "net = gi_network_id info" and "gi_rpc_api_version info \<le> ver"
    and "is_supported_kaspad_version (gi_server_version info) = Inr True" and "\<not> gi_is_synced info"
    and "nx_syncer n = Some None" and "na_pruning_point ans = Some h" and "na_blue_score ans h = Some s"
    and "handle_connect_impl net ver ans n = (r, n', fx)"
  shows "r = Inl NodeNotSynced \<and> fx = [SpawnSyncer (BlueScoredChainBlockHash s h)] \<and>
    (\<forall>ans' q n'' gx. handle_connect_impl net ver ans' n' = (q, n'', gx) \<longrightarrow> (\<forall>b. SpawnSyncer b \<notin> set (gx :: 'v nexus_effect list)))"
proof -
  let ?n = "n\<lparr>nx_current_daa_score := gi_virtual_daa_score info\<rparr>"
  let ?b = "BlueScoredChainBlockHash s h"
  have sp: "spawn_syncer ans ?n = (Inr (), ?n\<lparr>nx_syncer := Some (Some ?b)\<rparr>, [SpawnSyncer ?b] :: 'v nexus_effect list)"
    using assms(6-8) by (simp add: spawn_syncer_def nexus_method Let_def)
  have "init_state_from_server net ver ans n = (Inr False, ?n\<lparr>nx_syncer := Some (Some ?b)\<rparr>, [SpawnSyncer ?b] :: 'v nexus_effect list)"
    using init_state_result [OF assms(1-3) _ sp] assms(4,5) by simp
  then have h: "handle_connect_impl net ver ans n = (Inl NodeNotSynced, ?n\<lparr>nx_syncer := Some (Some ?b)\<rparr>, [SpawnSyncer ?b] :: 'v nexus_effect list)"
    by (simp add: handle_connect_impl_def nx_bind_def nx_require_def)
  have none: "SpawnSyncer b \<notin> set gx" if "handle_connect_impl net ver ans' n' = (q, n'', gx)" "nx_syncer n' = Some (Some c)"
    for ans' q n'' b c and gx :: "'v nexus_effect list" and n'
    using that
    by (auto simp: handle_connect_impl_def init_state_from_server_def spawn_syncer_def register_notification_listener_def nexus_method
        Let_def split: option.splits if_splits)
  show ?thesis using h assms(9) none by auto
qed

definition sample_answers :: "bool \<Rightarrow> unit node_answers" where
  "sample_answers synced =
     \<lparr>na_server_info = Some \<lparr>gi_server_version = MINIMUM_KASPAD_VERSION, gi_network_id = (), gi_is_synced = synced,
        gi_virtual_daa_score = 5, gi_rpc_api_version = 1\<rparr>,
      na_pruning_point = Some 9, na_blue_score = (\<lambda>_. Some 4), na_new_listener = 7, na_start_notify = (\<lambda>_. True),
      na_unregister = True, na_disconnect = True, na_connect = True, na_consumer = True\<rparr>"

lemma minimum_supported [simp]: "is_supported_kaspad_version MINIMUM_KASPAD_VERSION = Inr True"
  by (simp add: is_supported_kaspad_version_def minimum_version version_less_def toc_supported_def)

text \<open>Two connections: the listener of the first cannot be unregistered, that of the second can.\<close>

theorem connections_begin_and_end_in_turn_witness:
  "\<exists>n' fx. nexus_task () 1 [Connected (sample_answers True), VirtualChainChanged ''x'' True,
      Disconnected ((sample_answers True)\<lparr>na_unregister := False\<rparr>), Connected (sample_answers True),
      Disconnected (sample_answers True)] (nexus_init (Some None)) = (n', fx) \<and>
    lifecycles fx = [True, True, False] \<and> \<not> nx_is_node_connected n'"
proof -
  let ?es = "[Connected (sample_answers True), VirtualChainChanged ''x'' True,
      Disconnected ((sample_answers True)\<lparr>na_unregister := False\<rparr>), Connected (sample_answers True),
      Disconnected (sample_answers True)]"
  obtain n' fx where t: "nexus_task () 1 ?es (nexus_init (Some None)) = (n', fx)" by fastforce
  have i: "nexus_ok (nexus_init (Some None))" by (simp add: nexus_ok_def nexus_init_def)
  have l: "connection_log () 1 ?es (nexus_init (Some None)) = [(True, True), (False, False), (True, True), (False, True)]"
    by (simp add: nexus_init_def sample_answers_def handle_connect_def handle_connect_impl_def init_state_from_server_def
        spawn_syncer_def register_notification_listener_def handle_disconnect_def unregister_notification_listener_def
        nexus_handle_virtual_chain_changed_def unregisters_def nexus_method Let_def)
  from connections_begin_and_end_in_turn [OF i t] t show ?thesis
    unfolding l by (simp add: told_def nexus_init_def del: nexus_task.simps)
qed

theorem refused_node_starts_the_syncer_witness:
  "\<exists>n'. handle_connect_impl () 1 (sample_answers False) (nexus_init (Some None)) =
    (Inl NodeNotSynced, n', [SpawnSyncer (BlueScoredChainBlockHash 4 9) :: unit nexus_effect])"
proof -
  obtain r n' and fx :: "unit nexus_effect list"
    where h: "handle_connect_impl () 1 (sample_answers False) (nexus_init (Some None)) = (r, n', fx)" by (metis prod_cases3)
  from refused_node_starts_the_syncer [OF _ _ _ _ _ _ _ _ h, of _ 9 4] show ?thesis
    using h by (simp add: sample_answers_def nexus_init_def)
qed

end
