(* ===== verification/Codec.thy ===== *)
theory Codec
  imports Stats Tick
begin

text \<open>
  Writers and readers of binary values. The borsh crate and the macros \<^verbatim>\<open>store!\<close> and \<^verbatim>\<open>load!\<close> of
  \<^verbatim>\<open>workflow_serializer\<close> are not part of the repository: a codec is an argument of the definitions that
  use it, and all that they need of it is that a value reads back from its own bytes and leaves those
  behind it alone. The codecs at the end are the documented format of a few types.
\<close>

record 'x codec =
  st :: "'x \<Rightarrow> bytes"
  ld :: "bytes \<Rightarrow> ('x \<times> bytes) option"

type_synonym 'x loader = "bytes \<Rightarrow> ('x \<times> bytes) option"

text \<open>\<^verbatim>\<open>let x = load!(X, reader)?\<close>, and the value at the end.\<close>

definition load :: "'x codec \<Rightarrow> ('x \<Rightarrow> 'y loader) \<Rightarrow> 'y loader" where
  "load c f bs = (case ld c bs of None \<Rightarrow> None | Some (x, rest) \<Rightarrow> f x rest)"

definition loaded :: "'x \<Rightarrow> 'x loader" where
  "loaded x bs = Some (x, bs)"

definition faithful :: "'x codec \<Rightarrow> 'x \<Rightarrow> bool" where
  "faithful c x \<longleftrightarrow> (\<forall>rest. ld c (st c x @ rest) = Some (x, rest))"

text \<open>\<^verbatim>\<open>borsh::from_slice\<close> refuses bytes behind the value.\<close>

definition from_slice :: "'x codec \<Rightarrow> bytes \<Rightarrow> 'x option" where
  "from_slice c bs = (case ld c bs of Some (x, []) \<Rightarrow> Some x | _ \<Rightarrow> None)"

lemma load_faithful [simp]: "faithful c x \<Longrightarrow> load c f (st c x @ rest) = f x rest"
  by (simp add: faithful_def load_def)

lemma loaded_simp [simp]: "loaded x bs = Some (x, bs)"
  by (simp add: loaded_def)

lemma from_slice_faithful [simp]: "faithful c x \<Longrightarrow> from_slice c (st c x) = Some x"
  using faithful_def [of c x] by (auto simp: from_slice_def dest: spec [of _ "[]"])

lemma faithfulI: "(\<And>rest. ld c (st c x @ rest) = Some (x, rest)) \<Longrightarrow> faithful c x"
  by (simp add: faithful_def)

section \<open>The format of simple types\<close>

definition u8_codec :: "byte codec" where
  "u8_codec = \<lparr>st = \<lambda>b. [b], ld = \<lambda>bs. case bs of [] \<Rightarrow> None | b # rest \<Rightarrow> Some (b, rest)\<rparr>"

definition u16_codec :: "u16 codec" where
  "u16_codec =
     \<lparr>st = \<lambda>x. rev (u16_be x),
      ld = \<lambda>bs. if length bs < 2 then None
                else map_option (\<lambda>x. (x, drop 2 bs)) (u16_of_be (rev (take 2 bs)))\<rparr>"

definition u64_codec :: "u64 codec" where
  "u64_codec = \<lparr>st = borsh_u64, ld = read_u64\<rparr>"

definition hash_codec :: "hash codec" where
  "hash_codec =
     \<lparr>st = hash_be,
      ld = \<lambda>bs. if length bs < 32 then None
                else map_option (\<lambda>x. (x, drop 32 bs)) (hash_of_be (take 32 bs))\<rparr>"

definition bool_codec :: "bool codec" where
  "bool_codec =
     \<lparr>st = \<lambda>b. st u8_codec (if b then 1 else 0),
      ld = load u8_codec (\<lambda>t. if t = 0 then loaded False else if t = 1 then loaded True else (\<lambda>_. None))\<rparr>"

definition option_codec :: "'x codec \<Rightarrow> 'x option codec" where
  "option_codec c =
     \<lparr>st = \<lambda>v. case v of None \<Rightarrow> st u8_codec 0 | Some x \<Rightarrow> st u8_codec 1 @ st c x,
      ld = load u8_codec (\<lambda>t. if t = 0 then loaded None else if t = 1 then load c (\<lambda>x. loaded (Some x)) else (\<lambda>_. None))\<rparr>"

definition u32_codec :: "32 word codec" where
  "u32_codec =
     \<lparr>st = \<lambda>x. rev (be_bytes 4 x),
      ld = \<lambda>bs. if length bs < 4 then None
                else map_option (\<lambda>x. (x, drop 4 bs)) (of_be_bytes 4 (rev (take 4 bs)))\<rparr>"

definition string_codec :: "ustring codec" where
  "string_codec =
     \<lparr>st = \<lambda>s. st u32_codec (word_of_nat (length (utf8_bytes s))) @ utf8_bytes s,
      ld = load u32_codec (\<lambda>n bs.
        if length bs < unat n then None
        else map_option (\<lambda>s. (s, drop (unat n) bs)) (from_utf8 (take (unat n) bs)))\<rparr>"

lemma faithful_u8 [simp]: "faithful u8_codec b"
  by (simp add: faithful_def u8_codec_def)

lemma faithful_u16 [simp]: "faithful u16_codec x"
  by (simp add: faithful_def u16_codec_def)

lemma faithful_u64 [simp]: "faithful u64_codec x"
  by (simp add: faithful_def u64_codec_def)

lemma faithful_hash [simp]: "faithful hash_codec x"
  by (simp add: faithful_def hash_codec_def)

lemma faithful_u32 [simp]: "faithful u32_codec x"
  by (simp add: faithful_def u32_codec_def of_be_bytes_be_bytes)

lemma faithful_string:
  assumes "\<forall>c \<in> set s. scalar c" and "length (utf8_bytes s) < 2 ^ 32"
  shows "faithful string_codec s"
proof (rule faithfulI)
  fix rest
  let ?n = "word_of_nat (length (utf8_bytes s)) :: 32 word"
  have "unat ?n = length (utf8_bytes s)" using assms(2) by (simp add: unat_of_nat unsigned_of_nat take_bit_nat_eq_self_iff)
  then show "ld string_codec (st string_codec s @ rest) = Some (s, rest)"
    by (simp add: string_codec_def from_utf8_utf8_bytes [OF assms(1)])
qed

lemma faithful_bool [simp]: "faithful bool_codec b"
  by (rule faithfulI) (cases b; simp add: bool_codec_def)

lemma faithful_option [simp]: "faithful (option_codec c) v \<longleftrightarrow> (case v of None \<Rightarrow> True | Some x \<Rightarrow> faithful c x)"
proof -
  have t: "ld (option_codec c) (st (option_codec c) v @ rest) =
      (case v of None \<Rightarrow> Some (None, rest) | Some x \<Rightarrow> load c (\<lambda>x. loaded (Some x)) (st c x @ rest))" for rest
    by (cases v) (simp_all add: option_codec_def)
  show ?thesis unfolding faithful_def t by (cases v) (auto simp: load_def split: option.splits)
qed

end
