(* ===== verification/Storage.thy ===== *)
theory Storage
  imports Codec Keys
begin

text \<open>
  A partition as it is stored: a tree of the storage engine from bytes to bytes. The generic operations of
  \<^verbatim>\<open>database/src/database/partition.rs\<close> write a key by \<^verbatim>\<open>owned_key\<close> and a value by borsh, and read both back; the
  tree is ordered by the bytes of the keys. The rest of the development works on typed partitions; the
  locale below is the reason why it may.
\<close>

section \<open>Operations on bytes\<close>

type_synonym tree = "(bytes, bytes) part"

text \<open>A value that borsh cannot read is an error; a key of the wrong length is a panic.\<close>

datatype store_error = Borsh | KeyPanic

definition stored_value :: "'v codec \<Rightarrow> bytes \<Rightarrow> store_error + 'v" where
  "stored_value c bs = (case from_slice c bs of None \<Rightarrow> Inl Borsh | Some v \<Rightarrow> Inr v)"

definition stored_key :: "(bytes \<Rightarrow> 'k option) \<Rightarrow> bytes \<Rightarrow> store_error + 'k" where
  "stored_key fk bs = (case fk bs of None \<Rightarrow> Inl KeyPanic | Some k \<Rightarrow> Inr k)"

definition tree_insert :: "('k \<Rightarrow> bytes) \<Rightarrow> 'v codec \<Rightarrow> 'k \<Rightarrow> 'v \<Rightarrow> tree \<Rightarrow> tree" where
  "tree_insert ok c k v t = part_insert (ok k) (st c v) t"

definition tree_insert_if_not_exist :: "('k \<Rightarrow> bytes) \<Rightarrow> 'v codec \<Rightarrow> 'k \<Rightarrow> 'v \<Rightarrow> tree \<Rightarrow> bool \<times> tree" where
  "tree_insert_if_not_exist ok c k v t =
     (case part_get t (ok k) of
        None \<Rightarrow> (True, part_insert (ok k) (st c v) t)
      | Some current \<Rightarrow> (False, part_insert (ok k) current t))"

definition tree_get :: "('k \<Rightarrow> bytes) \<Rightarrow> 'v codec \<Rightarrow> tree \<Rightarrow> 'k \<Rightarrow> store_error + 'v option" where
  "tree_get ok c t k =
     (case part_get t (ok k) of None \<Rightarrow> Inr None | Some bs \<Rightarrow> map_sum id Some (stored_value c bs))"

definition tree_contains :: "('k \<Rightarrow> bytes) \<Rightarrow> tree \<Rightarrow> 'k \<Rightarrow> bool" where
  "tree_contains ok t k = part_contains t (ok k)"

definition tree_remove :: "('k \<Rightarrow> bytes) \<Rightarrow> 'k \<Rightarrow> tree \<Rightarrow> tree" where
  "tree_remove ok k t = part_remove (ok k) t"

definition tree_remove_if_exists :: "('k \<Rightarrow> bytes) \<Rightarrow> 'v codec \<Rightarrow> 'k \<Rightarrow> tree \<Rightarrow> (store_error + 'v option) \<times> tree" where
  "tree_remove_if_exists ok c k t = (tree_get ok c t k, part_remove (ok k) t)"

definition tree_range ::
  "('k \<Rightarrow> bytes) \<Rightarrow> (bytes \<Rightarrow> 'k option) \<Rightarrow> 'v codec \<Rightarrow> 'k bound \<Rightarrow> 'k bound \<Rightarrow> tree \<Rightarrow> (store_error + 'k \<times> 'v) list" where
  "tree_range ok fk c lo hi t =
     map (\<lambda>(kb, vb). and_then (stored_key fk kb) (\<lambda>k. and_then (stored_value c vb) (\<lambda>v. Inr (k, v))))
       (part_range (map_bound ok lo) (map_bound ok hi) t)"

definition tree_range_keys ::
  "('k \<Rightarrow> bytes) \<Rightarrow> (bytes \<Rightarrow> 'k option) \<Rightarrow> 'k bound \<Rightarrow> 'k bound \<Rightarrow> tree \<Rightarrow> (store_error + 'k) list" where
  "tree_range_keys ok fk lo hi t = map (\<lambda>(kb, vb). stored_key fk kb) (part_range (map_bound ok lo) (map_bound ok hi) t)"

definition tree_last_key :: "(bytes \<Rightarrow> 'k option) \<Rightarrow> tree \<Rightarrow> store_error + 'k option" where
  "tree_last_key fk t = (case part_last_key t of None \<Rightarrow> Inr None | Some kb \<Rightarrow> map_sum id Some (stored_key fk kb))"

definition tree_first_key :: "(bytes \<Rightarrow> 'k option) \<Rightarrow> tree \<Rightarrow> store_error + 'k option" where
  "tree_first_key fk t = (case part_first_key t of None \<Rightarrow> Inr None | Some kb \<Rightarrow> map_sum id Some (stored_key fk kb))"

section \<open>The tree of a typed partition\<close>

definition represents :: "('k::linorder \<Rightarrow> bytes) \<Rightarrow> 'v codec \<Rightarrow> ('k, 'v) part \<Rightarrow> tree \<Rightarrow> bool" where
  "represents ok c p t \<longleftrightarrow>
     part_entries t = map (\<lambda>(k, v). (ok k, st c v)) (part_entries p) \<and> (\<forall>k v. part_get p k = Some v \<longrightarrow> faithful c v)"

lemma stored_value_faithful [simp]: "faithful c v \<Longrightarrow> stored_value c (st c v) = Inr v"
  by (simp add: stored_value_def)

locale typed_tree = db_key owned_key from_key_bytes
  for owned_key :: "'k::linorder \<Rightarrow> bytes" and from_key_bytes :: "bytes \<Rightarrow> 'k option" +
  fixes c :: "'v codec"
begin

lemma stored_key_owned: "stored_key from_key_bytes (owned_key k) = Inr k"
  by (simp add: stored_key_def from_owned)

lemma represents_empty: "represents owned_key c part_empty part_empty"
  by (simp add: represents_def part_entries_simps)

lemma encoded_upd:
  "map (\<lambda>(k, v). (owned_key k, st c v)) (al_upd k v xs) =
   al_upd (owned_key k) (st c v) (map (\<lambda>(k, v). (owned_key k, st c v)) xs)"
  by (induction k v xs rule: al_upd.induct) (auto simp: owned_less owned_inject)

lemma encoded_del:
  "map (\<lambda>(k, v). (owned_key k, st c v)) (al_del k xs) =
   al_del (owned_key k) (map (\<lambda>(k, v). (owned_key k, st c v)) xs)"
  by (induction k xs rule: al_del.induct) (auto simp: owned_inject)

lemma encoded_get: "map_of (map (\<lambda>(k, v). (owned_key k, st c v)) xs) (owned_key k) = map_option (st c) (map_of xs k)"
  by (induction xs) (auto simp: owned_inject)

lemma represents_lookup:
  "represents owned_key c p t \<Longrightarrow> part_get t (owned_key k) = map_option (st c) (part_get p k)"
  by (simp add: represents_def part_get_def encoded_get)

lemma represents_faithful: "represents owned_key c p t \<Longrightarrow> part_get p k = Some v \<Longrightarrow> faithful c v"
  by (simp add: represents_def)

lemma represents_get: "represents owned_key c p t \<Longrightarrow> tree_get owned_key c t k = Inr (part_get p k)"
  by (cases "part_get p k") (simp_all add: tree_get_def represents_lookup represents_faithful)

lemma represents_contains: "represents owned_key c p t \<Longrightarrow> tree_contains owned_key t k = part_contains p k"
  by (simp add: tree_contains_def represents_lookup)

lemma represents_insert:
  "represents owned_key c p t \<Longrightarrow> faithful c v \<Longrightarrow> represents owned_key c (part_insert k v p) (tree_insert owned_key c k v t)"
  by (auto simp: represents_def tree_insert_def part_entries_simps encoded_upd split: if_splits)

lemma represents_remove:
  "represents owned_key c p t \<Longrightarrow> represents owned_key c (part_remove k p) (tree_remove owned_key k t)"
  by (auto simp: represents_def tree_remove_def part_entries_simps encoded_del split: if_splits)

lemma represents_insert_if_not_exist:
  "represents owned_key c p t \<Longrightarrow> faithful c v \<Longrightarrow>
   fst (tree_insert_if_not_exist owned_key c k v t) = fst (part_insert_if_not_exist k v p) \<and>
   represents owned_key c (snd (part_insert_if_not_exist k v p)) (snd (tree_insert_if_not_exist owned_key c k v t))"
  using represents_insert [of p t v k]
  by (auto simp: tree_insert_if_not_exist_def part_insert_if_not_exist_simp represents_lookup tree_insert_def part_insert_same)

lemma represents_remove_if_exists:
  "represents owned_key c p t \<Longrightarrow>
   fst (tree_remove_if_exists owned_key c k t) = Inr (fst (part_remove_if_exists k p)) \<and>
   represents owned_key c (snd (part_remove_if_exists k p)) (snd (tree_remove_if_exists owned_key c k t))"
  using represents_remove [of p t k]
  by (simp add: tree_remove_if_exists_def part_remove_if_exists_def represents_get tree_remove_def)

lemma encoded_range:
  "filter (\<lambda>(b, v). above (map_bound owned_key lo) b \<and> below (map_bound owned_key hi) b)
     (map (\<lambda>(k, v). (owned_key k, st c v)) xs) =
   map (\<lambda>(k, v). (owned_key k, st c v)) (filter (\<lambda>(k, v). above lo k \<and> below hi k) xs)"
  by (induction xs) (auto simp: above_map below_map)

lemma represents_range:
  assumes "represents owned_key c p t"
  shows "tree_range owned_key from_key_bytes c lo hi t = map Inr (part_range lo hi p)"
    and "tree_range_keys owned_key from_key_bytes lo hi t = map Inr (part_range_keys lo hi p)"
proof -
  have r: "part_range (map_bound owned_key lo) (map_bound owned_key hi) t =
      map (\<lambda>(k, v). (owned_key k, st c v)) (part_range lo hi p)"
    using assms by (simp add: part_range_def represents_def encoded_range)
  have "faithful c v" if "(k, v) \<in> set (part_range lo hi p)" for k v
    using that assms represents_faithful by (auto simp: part_range_def in_entries_iff)
  then show "tree_range owned_key from_key_bytes c lo hi t = map Inr (part_range lo hi p)"
    by (auto simp: tree_range_def r stored_key_owned)
  show "tree_range_keys owned_key from_key_bytes lo hi t = map Inr (part_range_keys lo hi p)"
    by (auto simp: tree_range_keys_def r part_range_keys_def stored_key_owned)
qed

lemma represents_ends:
  assumes "represents owned_key c p t"
  shows "tree_last_key from_key_bytes t = Inr (part_last_key p)" and "tree_first_key from_key_bytes t = Inr (part_first_key p)"
proof -
  have e: "part_entries t = map (\<lambda>(k, v). (owned_key k, st c v)) (part_entries p)" using assms by (simp add: represents_def)
  show "tree_last_key from_key_bytes t = Inr (part_last_key p)"
    by (simp add: tree_last_key_def part_last_key_def e last_map case_prod_beta stored_key_owned)
  show "tree_first_key from_key_bytes t = Inr (part_first_key p)"
    by (cases "part_entries p") (auto simp: tree_first_key_def part_first_key_def e stored_key_owned)
qed

end

section \<open>Sequences of updates\<close>

datatype ('k, 'v) update = Insert 'k 'v | InsertIfNotExist 'k 'v | Remove 'k | RemoveIfExists 'k

fun part_update :: "('k::linorder, 'v) update \<Rightarrow> ('k, 'v) part \<Rightarrow> ('k, 'v) part" where
  "part_update (Insert k v) p = part_insert k v p"
| "part_update (InsertIfNotExist k v) p = snd (part_insert_if_not_exist k v p)"
| "part_update (Remove k) p = part_remove k p"
| "part_update (RemoveIfExists k) p = snd (part_remove_if_exists k p)"

fun tree_update :: "('k \<Rightarrow> bytes) \<Rightarrow> 'v codec \<Rightarrow> ('k, 'v) update \<Rightarrow> tree \<Rightarrow> tree" where
  "tree_update ok c (Insert k v) t = tree_insert ok c k v t"
| "tree_update ok c (InsertIfNotExist k v) t = snd (tree_insert_if_not_exist ok c k v t)"
| "tree_update ok c (Remove k) t = tree_remove ok k t"
| "tree_update ok c (RemoveIfExists k) t = snd (tree_remove_if_exists ok c k t)"

fun written :: "('k, 'v) update \<Rightarrow> 'v set" where
  "written (Insert k v) = {v}"
| "written (InsertIfNotExist k v) = {v}"
| "written _ = {}"

context typed_tree
begin

lemma represents_update:
  "represents owned_key c p t \<Longrightarrow> \<forall>v \<in> written u. faithful c v \<Longrightarrow>
   represents owned_key c (part_update u p) (tree_update owned_key c u t)"
  by (cases u) (auto simp: represents_insert represents_insert_if_not_exist represents_remove represents_remove_if_exists)

lemma represents_updates:
  "represents owned_key c p t \<Longrightarrow> \<forall>u \<in> set us. \<forall>v \<in> written u. faithful c v \<Longrightarrow>
   represents owned_key c (fold part_update us p) (fold (tree_update owned_key c) us t)"
  by (induction us arbitrary: p t) (simp_all add: represents_update)

end

text \<open>The statistics, whose reader accepts records without the fields of the marketplace, and two further partitions.\<close>

definition stats_codec :: "stats codec" where
  "stats_codec = \<lparr>st = stats_to_vec, ld = stats_deserialize_reader\<rparr>"

lemma faithful_stats [simp]: "faithful stats_codec s"
  by (simp add: faithful_def stats_codec_def stats_to_vec_def stats_deserialize_reader_def)

interpretation stats_tree: typed_tree stats_key_bytes stats_key_of_bytes stats_codec
  by unfold_locales

interpretation block_score_tree: typed_tree hash_be hash_of_be u64_codec
  by unfold_locales

interpretation rejection_tree: typed_tree u64_be u64_of_be hash_codec
  by unfold_locales

text \<open>C30: A typed partition is what is stored: after any updates, reads, scans in both orders and the ends of the
  tree of bytes are those of the typed partition, without an error, as long as the values that were written
  read back from their own bytes.\<close>

theorem stored_bytes_are_the_typed_partition:
  assumes "db_key ok fk" and "\<forall>u \<in> set us. \<forall>v \<in> written u. faithful c v"
    and "p = fold part_update us part_empty" and "t = fold (tree_update ok c) us part_empty"
  shows "tree_get ok c t k = Inr (part_get p k) \<and> tree_contains ok t k = part_contains p k \<and>
    tree_range ok fk c lo hi t = map Inr (part_range lo hi p) \<and>
    tree_range_keys ok fk lo hi t = map Inr (part_range_keys lo hi p) \<and>
    tree_first_key fk t = Inr (part_first_key p) \<and> tree_last_key fk t = Inr (part_last_key p)"
proof -
  have l: "typed_tree ok fk" using assms(1) by (simp add: typed_tree_def)
  note represents_updates = typed_tree.represents_updates [OF l]
  have r: "represents ok c p t"
    unfolding assms(3,4) by (rule typed_tree.represents_updates [OF l typed_tree.represents_empty [OF l] assms(2)])
  show ?thesis
    using typed_tree.represents_get [OF l r] typed_tree.represents_contains [OF l r] typed_tree.represents_range [OF l r]
      typed_tree.represents_ends [OF l r]
    by simp
qed

theorem stored_bytes_are_the_typed_partition_witness:
  "tree_get hash_be u64_codec (tree_insert hash_be u64_codec 7 5 part_empty) 7 = Inr (Some 5)"
  using stored_bytes_are_the_typed_partition
    [OF hash_key.db_key_axioms, of "[Insert 7 5]" u64_codec, OF _ refl refl, of 7 Unbounded Unbounded]
  by simp

text \<open>The statistics survive the change of their layout: whatever record of either layout is stored, the next reads
  succeed, the marketplace counters of an old record are zero, and a record written over it is of the new layout.\<close>

theorem stored_statistics_of_both_layouts:
  "tree_get stats_key_bytes stats_codec (part_insert (stats_key_bytes IndexerStats) (stats_to_vec s) t) IndexerStats = Inr (Some s) \<and>
   tree_get stats_key_bytes stats_codec (part_insert (stats_key_bytes IndexerStats) (take 40 (stats_to_vec s)) t) IndexerStats =
     Inr (Some (s\<lparr>st_listings := 0, st_sends := 0\<rparr>)) \<and>
   tree_get stats_key_bytes stats_codec
     (tree_insert stats_key_bytes stats_codec IndexerStats s'
       (part_insert (stats_key_bytes IndexerStats) (take 40 (stats_to_vec s)) t)) IndexerStats = Inr (Some s')"
proof -
  have f: "from_slice stats_codec bs = stats_from_slice bs" for bs
    by (auto simp: from_slice_def stats_from_slice_def stats_codec_def split: option.splits list.splits)
  have v1: "stats_from_slice (take 40 (stats_to_vec s)) = Some (s\<lparr>st_listings := 0, st_sends := 0\<rparr>)"
    by (simp add: stats_from_slice_def stats_deserialize_reader_def stats_to_vec_def)
  have v2: "stats_from_slice (stats_to_vec s) = Some s" for s
    by (simp add: stats_from_slice_def stats_deserialize_reader_def stats_to_vec_def)
  show ?thesis by (simp add: tree_get_def tree_insert_def stored_value_def f v1 v2 stats_codec_def [THEN arg_cong [of _ _ st]])
qed

end
