(* ===== verification/Archive.thy ===== *)
theory Archive
  imports Storage Analyzer
begin

text \<open>
  Archives of the database, \<^verbatim>\<open>snapshot/src\<close>: the partitions are read in chunks of about four megabytes, a pool of
  tasks compresses them, and the archive file is a header, the table of the partitions and the compressed
  chunks in order (\<^verbatim>\<open>snapshot.rs\<close>, \<^verbatim>\<open>chunk.rs\<close>, \<^verbatim>\<open>header.rs\<close>, \<^verbatim>\<open>partition.rs\<close>, \<^verbatim>\<open>record.rs\<close>). The compression and the hash
  are arguments. A file system maps paths to files and to databases; its calls do not fail.
\<close>

section \<open>Borsh vectors\<close>

fun ld_list :: "'x codec \<Rightarrow> nat \<Rightarrow> 'x list loader" where
  "ld_list c 0 = loaded []"
| "ld_list c (Suc n) = load c (\<lambda>x rest. map_option (\<lambda>(xs, r). (x # xs, r)) (ld_list c n rest))"

definition vec_codec :: "'x codec \<Rightarrow> 'x list codec" where
  "vec_codec c =
     \<lparr>st = \<lambda>xs. st u32_codec (word_of_nat (length xs)) @ concat (map (st c) xs),
      ld = load u32_codec (\<lambda>n. ld_list c (unat n))\<rparr>"

definition array_codec :: "nat \<Rightarrow> bytes codec" where
  "array_codec n = \<lparr>st = \<lambda>x. x, ld = \<lambda>bs. if length bs < n then None else Some (take n bs, drop n bs)\<rparr>"

definition pair_codec :: "'x codec \<Rightarrow> 'y codec \<Rightarrow> ('x \<times> 'y) codec" where
  "pair_codec c c' = \<lparr>st = \<lambda>(x, y). st c x @ st c' y, ld = load c (\<lambda>x. load c' (\<lambda>y. loaded (x, y)))\<rparr>"

lemma ld_list_faithful:
  "\<forall>x \<in> set xs. faithful c x \<Longrightarrow> ld_list c (length xs) (concat (map (st c) xs) @ rest) = Some (xs, rest)"
  by (induction xs) simp_all

lemma faithful_vec: "length xs < 2 ^ 32 \<Longrightarrow> \<forall>x \<in> set xs. faithful c x \<Longrightarrow> faithful (vec_codec c) xs"
  by (rule faithfulI)
    (simp add: vec_codec_def ld_list_faithful unat_of_nat unsigned_of_nat take_bit_nat_eq_self_iff)

lemma faithful_bytes: "length bs < 2 ^ 32 \<Longrightarrow> faithful (vec_codec u8_codec) bs"
  by (rule faithful_vec) simp_all

lemma faithful_array [simp]: "length x = n \<Longrightarrow> faithful (array_codec n) x"
  by (rule faithfulI) (simp add: array_codec_def)

lemma faithful_pair: "faithful c x \<Longrightarrow> faithful c' y \<Longrightarrow> faithful (pair_codec c c') (x, y)"
  by (rule faithfulI) (simp add: pair_codec_def)

lemma st_bytes: "st (vec_codec u8_codec) bs = st u32_codec (word_of_nat (length bs)) @ bs"
proof -
  have "concat (map (\<lambda>b. [b]) bs) = bs" by (induction bs) simp_all
  then show ?thesis by (simp add: vec_codec_def u8_codec_def)
qed

lemma length_st_u32 [simp]: "length (st u32_codec x) = 4"
  by (simp add: u32_codec_def)

section \<open>Header, table and chunks\<close>

definition DEFAULT_CHUNK_SIZE :: nat where "DEFAULT_CHUNK_SIZE = 1024 * 1024 * 4"
definition HEADER_MAGIC :: bytes where "HEADER_MAGIC = [75, 83, 80, 82, 45, 55, 50, 49]"
definition DATA_OFFSET :: u64 where "DATA_OFFSET = 128"

record header =
  hd_magic :: bytes
  hd_version :: u64
  hd_chunks :: u64
  hd_offset :: u64
  hd_hash :: bytes

definition header_default :: header where
  "header_default =
     \<lparr>hd_magic = HEADER_MAGIC, hd_version = 1, hd_chunks = 0, hd_offset = DATA_OFFSET, hd_hash = replicate 32 0\<rparr>"

definition header_codec :: "header codec" where
  "header_codec =
     \<lparr>st = \<lambda>h. st (array_codec 8) (hd_magic h) @ st u64_codec (hd_version h) @ st u64_codec (hd_chunks h) @
            st u64_codec (hd_offset h) @ st (array_codec 32) (hd_hash h),
      ld = load (array_codec 8) (\<lambda>magic. load u64_codec (\<lambda>version. load u64_codec (\<lambda>chunks.
           load u64_codec (\<lambda>offset. load (array_codec 32) (\<lambda>hash.
           loaded \<lparr>hd_magic = magic, hd_version = version, hd_chunks = chunks, hd_offset = offset, hd_hash = hash\<rparr>)))))\<rparr>"

type_synonym partition_id = u16

record partition_table =
  pt_version :: u16
  pt_partitions :: "(partition_id \<times> ustring) list"

definition table_codec :: "partition_table codec" where
  "table_codec =
     \<lparr>st = \<lambda>t. st u16_codec (pt_version t) @ st (vec_codec (pair_codec u16_codec string_codec)) (pt_partitions t),
      ld = load u16_codec (\<lambda>version. load (vec_codec (pair_codec u16_codec string_codec)) (\<lambda>partitions.
           loaded \<lparr>pt_version = version, pt_partitions = partitions\<rparr>))\<rparr>"

record stored_record =
  rec_k :: bytes
  rec_v :: bytes

definition Record_new :: "bytes \<times> bytes \<Rightarrow> stored_record" where
  "Record_new kv = \<lparr>rec_k = fst kv, rec_v = snd kv\<rparr>"

definition record_len :: "stored_record \<Rightarrow> nat" where
  "record_len r = length (rec_k r) + length (rec_v r)"

definition record_codec :: "stored_record codec" where
  "record_codec =
     \<lparr>st = \<lambda>r. st (vec_codec u8_codec) (rec_k r) @ st (vec_codec u8_codec) (rec_v r),
      ld = load (vec_codec u8_codec) (\<lambda>k. load (vec_codec u8_codec) (\<lambda>v. loaded \<lparr>rec_k = k, rec_v = v\<rparr>))\<rparr>"

record inflated =
  inf_partition_id :: partition_id
  inf_records :: "stored_record list"

record deflated =
  def_partition_id :: partition_id
  def_data :: bytes

definition deflated_codec :: "deflated codec" where
  "deflated_codec =
     \<lparr>st = \<lambda>d. st u16_codec (def_partition_id d) @ st (vec_codec u8_codec) (def_data d),
      ld = load u16_codec (\<lambda>i. load (vec_codec u8_codec) (\<lambda>data. loaded \<lparr>def_partition_id = i, def_data = data\<rparr>))\<rparr>"

lemma faithful_header: "length (hd_magic h) = 8 \<Longrightarrow> length (hd_hash h) = 32 \<Longrightarrow> faithful header_codec h"
  by (rule faithfulI) (simp add: header_codec_def)

lemma length_st_header: "length (hd_magic h) = 8 \<Longrightarrow> length (hd_hash h) = 32 \<Longrightarrow> length (st header_codec h) = 64"
  by (simp add: header_codec_def array_codec_def u64_codec_def borsh_u64_def)

lemma faithful_record: "record_len r < 2 ^ 32 \<Longrightarrow> faithful record_codec r"
proof (rule faithfulI)
  fix rest assume "record_len r < 2 ^ 32"
  then have "faithful (vec_codec u8_codec) (rec_k r)" "faithful (vec_codec u8_codec) (rec_v r)"
    by (simp_all add: faithful_bytes record_len_def)
  then show "ld record_codec (st record_codec r @ rest) = Some (r, rest)" by (simp add: record_codec_def)
qed

lemma length_st_record: "length (st record_codec r) = 8 + record_len r"
  by (simp add: record_codec_def st_bytes record_len_def)

lemma faithful_deflated: "length (def_data d) < 2 ^ 32 \<Longrightarrow> faithful deflated_codec d"
  by (rule faithfulI) (simp add: deflated_codec_def faithful_bytes)

section \<open>Chunks of a partition\<close>

text \<open>\<^verbatim>\<open>Custom\<close> has the text of the source; a value that cannot be read is an error of the file.\<close>

datatype archive_error = Custom string | Lsm | FsIo

text \<open>A partition with the iterator over its snapshot: what is still to come, in which an item may be an error.\<close>

record ingest_partition =
  ip_id :: partition_id
  ip_name :: ustring
  ip_iter :: "(archive_error + bytes \<times> bytes) list"

fun fill_loop ::
  "nat \<Rightarrow> nat \<Rightarrow> stored_record list \<Rightarrow> (archive_error + bytes \<times> bytes) list \<Rightarrow>
   (archive_error + stored_record list) \<times> (archive_error + bytes \<times> bytes) list" where
  "fill_loop chunk_size sz records [] = (Inr records, [])"
| "fill_loop chunk_size sz records (Inl e # iter) = (Inl e, iter)"
| "fill_loop chunk_size sz records (Inr kv # iter) =
     (let record = Record_new kv;
          sz = sz + record_len record;
          records = records @ [record]
      in if sz > chunk_size then (Inr records, iter) else fill_loop chunk_size sz records iter)"

definition fill :: "ingest_partition \<Rightarrow> nat \<Rightarrow> (archive_error + inflated option) \<times> ingest_partition" where
  "fill p chunk_size =
     (let (result, iter) = fill_loop chunk_size 0 [] (ip_iter p); p' = p\<lparr>ip_iter := iter\<rparr> in
      case result of
        Inl e \<Rightarrow> (Inl e, p')
      | Inr records \<Rightarrow>
          (Inr (if records \<noteq> [] then Some \<lparr>inf_partition_id = ip_id p, inf_records = records\<rparr> else None), p'))"

definition chunk_limit :: "nat option \<Rightarrow> nat" where
  "chunk_limit chunk_size = (case chunk_size of Some n \<Rightarrow> n | None \<Rightarrow> DEFAULT_CHUNK_SIZE)"

fun poll_next :: "nat option \<Rightarrow> ingest_partition list \<Rightarrow> (archive_error + inflated) option \<times> ingest_partition list" where
  "poll_next chunk_size [] = (None, [])"
| "poll_next chunk_size (p # ps) =
     (case fill p (chunk_limit chunk_size) of
        (Inl e, p') \<Rightarrow> (Some (Inl e), p' # ps)
      | (Inr (Some chunk), p') \<Rightarrow> (Some (Inr chunk), p' # ps)
      | (Inr None, p') \<Rightarrow> poll_next chunk_size ps)"

section \<open>The pool of tasks\<close>

record deflate_library =
  compress :: "bytes \<Rightarrow> bytes"
  decompress :: "bytes \<Rightarrow> bytes option"

definition deflate :: "deflate_library \<Rightarrow> inflated \<Rightarrow> deflated" where
  "deflate z c =
     \<lparr>def_partition_id = inf_partition_id c, def_data = compress z (st (vec_codec record_codec) (inf_records c))\<rparr>"

definition inflate :: "deflate_library \<Rightarrow> deflated \<Rightarrow> archive_error + inflated" where
  "inflate z d =
     (case decompress z (def_data d) of
        None \<Rightarrow> Inl FsIo
      | Some decompressed \<Rightarrow>
          (case from_slice (vec_codec record_codec) decompressed of
             None \<Rightarrow> Inl FsIo
           | Some records \<Rightarrow> Inr \<lparr>inf_partition_id = def_partition_id d, inf_records = records\<rparr>))"

text \<open>The results of the tasks come in the order in which they were started, whenever each of them ends.\<close>

function fill_pending ::
  "deflate_library \<Rightarrow> nat option \<Rightarrow> nat \<Rightarrow> ingest_partition list \<Rightarrow> deflated list \<Rightarrow> u64 \<Rightarrow>
   archive_error + ingest_partition list \<times> deflated list \<times> u64" where
  "fill_pending z chunk_size worker_count ps pending chunks =
     (if length pending < worker_count then
        (case poll_next chunk_size ps of
           (Some (Inr chunk), ps') \<Rightarrow> fill_pending z chunk_size worker_count ps' (pending @ [deflate z chunk]) (chunks + 1)
         | (Some (Inl e), ps') \<Rightarrow> Inl e
         | (None, ps') \<Rightarrow> Inr (ps', pending, chunks))
      else Inr (ps, pending, chunks))"
  by pat_completeness auto
termination
  by (relation "measure (\<lambda>(z, chunk_size, worker_count, ps, pending, chunks). worker_count - length pending)") auto

declare fill_pending.simps [simp del]

definition load_of :: "ingest_partition list \<Rightarrow> nat" where
  "load_of ps = sum_list (map (\<lambda>p. length (ip_iter p)) ps)"

lemma fill_loop_length: "length (snd (fill_loop n sz rs iter)) \<le> length iter"
  by (induction n sz rs iter rule: fill_loop.induct) (simp_all add: Let_def le_Suc_eq)

lemma fill_loop_consumes: "iter \<noteq> [] \<Longrightarrow> length (snd (fill_loop n sz rs iter)) < length iter"
proof (cases "(n, sz, rs, iter)" rule: fill_loop.cases)
  case (3 n' sz' rs' kv iter')
  then show ?thesis
    using fill_loop_length [of n "sz + record_len (Record_new kv)" "rs @ [Record_new kv]" iter'] by (simp add: Let_def)
qed auto

lemma fill_empty: "ip_iter p = [] \<Longrightarrow> fill p n = (Inr None, p\<lparr>ip_iter := []\<rparr>)"
  by (simp add: fill_def)

lemma fill_consumes: "ip_iter p \<noteq> [] \<Longrightarrow> fill p n = (r, p') \<Longrightarrow> length (ip_iter p') < length (ip_iter p)"
  using fill_loop_consumes [of "ip_iter p" n 0 "[]"] by (auto simp: fill_def Let_def split: prod.splits sum.splits)

lemma load_of_simps [simp]: "load_of [] = 0" "load_of (p # ps) = length (ip_iter p) + load_of ps"
  by (simp_all add: load_of_def)

lemma poll_answer_cases: "\<lbrakk>\<And>e. q = Inl e \<Longrightarrow> P; q = Inr None \<Longrightarrow> P; \<And>c. q = Inr (Some c) \<Longrightarrow> P\<rbrakk> \<Longrightarrow> P"
  by (cases q) (metis option.exhaust)+

lemma poll_next_consumes: "poll_next n ps = (Some r, ps') \<Longrightarrow> load_of ps' < load_of ps"
proof (induction n ps rule: poll_next.induct)
  case (2 n p ps)
  obtain q p' where f: "fill p (chunk_limit n) = (q, p')" by (metis surj_pair)
  show ?case
  proof (cases "ip_iter p = []")
    case True
    then show ?thesis using 2 by (fastforce simp: fill_empty)
  next
    case False
    have "load_of ps' < load_of ps" if "q = Inr None" using 2 f that by simp
    with fill_consumes [OF False f] show ?thesis using 2(2) f by (cases q rule: poll_answer_cases) fastforce+
  qed
qed simp

lemma poll_next_end: "poll_next n ps = (None, ps') \<Longrightarrow> ps' = []"
  by (induction n ps rule: poll_next.induct) (auto split: prod.splits sum.splits option.splits)

lemma fill_pending_load:
  "fill_pending z n w ps pending k = Inr (ps', pending', k') \<Longrightarrow>
   load_of ps' + length pending' \<le> load_of ps + length pending"
proof (induction z n w ps pending k rule: fill_pending.induct)
  case (1 z n w ps pending k)
  show ?case
  proof (cases "length pending < w")
    case True
    obtain r ps1 where r: "poll_next n ps = (r, ps1)" by (metis surj_pair)
    show ?thesis
    proof (cases "\<exists>chunk. r = Some (Inr chunk)")
      case True
      then obtain chunk where c: "r = Some (Inr chunk)" by blast
      with 1(2) r \<open>length pending < w\<close>
      have f: "fill_pending z n w ps1 (pending @ [deflate z chunk]) (k + 1) = Inr (ps', pending', k')"
        by (simp add: fill_pending.simps [of z n w ps])
      show ?thesis
        using 1(1) [OF \<open>length pending < w\<close> r [symmetric] c refl f] poll_next_consumes [of n ps "Inr chunk" ps1] r c by simp
    qed (use 1(2) r \<open>length pending < w\<close> poll_next_end [of n ps ps1] in
         \<open>auto simp: fill_pending.simps [of z n w ps] split: option.splits sum.splits\<close>)
  qed (use 1(2) in \<open>simp add: fill_pending.simps [of z n w ps]\<close>)
qed

function archive_loop ::
  "deflate_library \<Rightarrow> nat option \<Rightarrow> nat \<Rightarrow> ingest_partition list \<Rightarrow> deflated list \<Rightarrow> u64 \<Rightarrow> deflated list \<Rightarrow>
   (archive_error + u64) \<times> deflated list" where
  "archive_loop z chunk_size worker_count ps pending chunks out =
     (case fill_pending z chunk_size worker_count ps pending chunks of
        Inl e \<Rightarrow> (Inl e, out)
      | Inr (ps', [], chunks') \<Rightarrow> (Inr chunks', out)
      | Inr (ps', deflated # pending', chunks') \<Rightarrow>
          archive_loop z chunk_size worker_count ps' pending' chunks' (out @ [deflated]))"
  by pat_completeness auto
termination
  by (relation "measure (\<lambda>(z, chunk_size, worker_count, ps, pending, chunks, out). load_of ps + length pending)")
    (auto dest!: fill_pending_load)

declare archive_loop.simps [simp del]

section \<open>Databases and files\<close>

type_synonym path = ustring
type_synonym keyspace = "(ustring \<times> tree) list"

record world =
  w_files :: "path \<Rightarrow> bytes option"
  w_databases :: "path \<Rightarrow> keyspace option"

definition path_exists :: "world \<Rightarrow> path \<Rightarrow> bool" where
  "path_exists w p = (w_files w p \<noteq> None \<or> w_databases w p \<noteq> None)"

definition write_file :: "path \<Rightarrow> bytes \<Rightarrow> world \<Rightarrow> world" where
  "write_file p bs w = w\<lparr>w_files := (w_files w)(p \<mapsto> bs)\<rparr>"

definition write_database :: "path \<Rightarrow> keyspace \<Rightarrow> world \<Rightarrow> world" where
  "write_database p ks w = w\<lparr>w_databases := (w_databases w)(p \<mapsto> ks)\<rparr>"

text \<open>Writing from an earlier position of a file replaces what is there.\<close>

definition overwrite :: "bytes \<Rightarrow> bytes \<Rightarrow> bytes" where
  "overwrite new bs = new @ drop (length new) bs"

definition open_partition :: "ustring \<Rightarrow> keyspace \<Rightarrow> keyspace" where
  "open_partition name ks = (if name \<in> set (map fst ks) then ks else ks @ [(name, part_empty)])"

definition keyspace_insert :: "ustring \<Rightarrow> bytes \<Rightarrow> bytes \<Rightarrow> keyspace \<Rightarrow> keyspace" where
  "keyspace_insert name k v ks = map (\<lambda>(n, t). (n, if n = name then part_insert k v t else t)) ks"

text \<open>\<^verbatim>\<open>db::Snapshot\<close>, and what a sound tree gives.\<close>

record db_snapshot =
  ds_name :: ustring
  ds_iter :: "(archive_error + bytes \<times> bytes) list"

definition snapshot_of :: "ustring \<times> tree \<Rightarrow> db_snapshot" where
  "snapshot_of nt = \<lparr>ds_name = fst nt, ds_iter = map Inr (part_entries (snd nt))\<rparr>"

text \<open>\<^verbatim>\<open>Partition::try_open\<close>\<close>

definition try_open_partition :: "nat \<Rightarrow> db_snapshot \<Rightarrow> ingest_partition" where
  "try_open_partition i s = \<lparr>ip_id = word_of_nat i, ip_name = ds_name s, ip_iter = ds_iter s\<rparr>"

definition table_of_partitions :: "ingest_partition list \<Rightarrow> archive_error + partition_table" where
  "table_of_partitions ps =
     (if ps = [] then Inl (Custom ''No partitions in database'')
      else Inr \<lparr>pt_version = 1, pt_partitions = map (\<lambda>p. (ip_id p, ip_name p)) ps\<rparr>)"

text \<open>The names of \<^verbatim>\<open>database.rs\<close> in the order of \<^verbatim>\<open>take_snapshots\<close>.\<close>

definition partition_names :: "ustring list" where
  "partition_names = map ascii
     [''blockhash_to_score'', ''chain_block_scores'', ''operation_history'', ''tx_id_to_opscore'',
      ''collection_deployments'', ''tick_creation_history'', ''mint_history'', ''ownership_changes'',
      ''ownership_history'', ''current_ownership'', ''available_ranges'', ''range_lengths'', ''token_id_meta'',
      ''address_holdings'', ''database_stats'', ''score_to_discount'', ''vip'', ''notification_queue'',
      ''txid_to_rejection'', ''serial_to_rejected_txid'', ''listings'', ''listings_by_tick'', ''address_listings'']"

definition take_snapshots :: "(ustring \<Rightarrow> tree) \<Rightarrow> db_snapshot list" where
  "take_snapshots trees = map (\<lambda>n. snapshot_of (n, trees n)) partition_names"

section \<open>Snapshot\<close>

record snapshot =
  sn_database_root :: "path option"
  sn_archive_filename :: "path option"
  sn_chunk_size :: "nat option"
  sn_skip_partitions :: "ustring list option"

definition snapshot_default :: snapshot where
  "snapshot_default = \<lparr>sn_database_root = None, sn_archive_filename = None, sn_chunk_size = None, sn_skip_partitions = None\<rparr>"

definition purge :: "snapshot \<Rightarrow> world \<Rightarrow> (archive_error + unit) \<times> world" where
  "purge sn w =
     (case sn_database_root sn of
        None \<Rightarrow> (Inl (Custom ''Please specify database filename''), w)
      | Some root \<Rightarrow>
          if w_databases w root = None then (Inl FsIo, w)
          else (Inr (), w\<lparr>w_databases := (w_databases w)(root := None)\<rparr>))"

record archive_context =
  cx_partitions :: "ingest_partition list"
  cx_archive_filename :: path

text \<open>The order of \<^verbatim>\<open>list_partitions\<close> is that of the keyspace.\<close>

definition context_from_database :: "snapshot \<Rightarrow> world \<Rightarrow> archive_error + archive_context" where
  "context_from_database sn w =
     (case sn_database_root sn of
        None \<Rightarrow> Inl (Custom ''Please specify database filename'')
      | Some root \<Rightarrow>
     (case sn_archive_filename sn of
        None \<Rightarrow> Inl (Custom ''Please specify archive filename'')
      | Some filename \<Rightarrow>
     if path_exists w filename then Inl (Custom ''Archive file already exists, please remove it before packing.'')
     else
       let keyspace = (case w_databases w root of Some ks \<Rightarrow> ks | None \<Rightarrow> []) in
       if keyspace = [] then Inl (Custom ''No partitions found in the database...'')
       else Inr \<lparr>cx_partitions = map (\<lambda>(i, nt). try_open_partition i (snapshot_of nt)) (enumerate 0 keyspace),
                 cx_archive_filename = filename\<rparr>))"

definition context_from_snapshots :: "snapshot \<Rightarrow> db_snapshot list \<Rightarrow> world \<Rightarrow> archive_error + archive_context" where
  "context_from_snapshots sn snapshots w =
     (case sn_archive_filename sn of
        None \<Rightarrow> Inl (Custom ''Please specify archive filename'')
      | Some filename \<Rightarrow>
     if path_exists w filename then Inl (Custom ''Archive file already exists, please remove it before packing.'')
     else
       Inr \<lparr>cx_partitions =
              map (\<lambda>(i, s). try_open_partition i s)
                (enumerate 0
                  [s \<leftarrow> snapshots. \<not> (case sn_skip_partitions sn of Some names \<Rightarrow> ds_name s \<in> set names | None \<Rightarrow> False)]),
            cx_archive_filename = filename\<rparr>)"

definition archive_from_context ::
  "deflate_library \<Rightarrow> (bytes \<Rightarrow> bytes) \<Rightarrow> nat \<Rightarrow> snapshot \<Rightarrow> archive_context \<Rightarrow> world \<Rightarrow> (archive_error + header) \<times> world" where
  "archive_from_context z sha256 worker_count sn cx w =
     (case table_of_partitions (cx_partitions cx) of
        Inl e \<Rightarrow> (Inl e, w)
      | Inr partition_table \<Rightarrow>
          let zeros = replicate (unat DATA_OFFSET) 0;
              (result, out) = archive_loop z (sn_chunk_size sn) worker_count (cx_partitions cx) [] 0 [];
              file = zeros @ st table_codec partition_table @ concat (map (st deflated_codec) out)
          in case result of
               Inl e \<Rightarrow> (Inl e, write_file (cx_archive_filename cx) file w)
             | Inr chunks \<Rightarrow>
                 let header = header_default\<lparr>hd_chunks := chunks, hd_hash := sha256 (concat (map def_data out))\<rparr>
                 in (Inr header, write_file (cx_archive_filename cx) (overwrite (st header_codec header) file) w))"

definition archive_database ::
  "deflate_library \<Rightarrow> (bytes \<Rightarrow> bytes) \<Rightarrow> nat \<Rightarrow> snapshot \<Rightarrow> world \<Rightarrow> (archive_error + header) \<times> world" where
  "archive_database z sha256 worker_count sn w =
     (case context_from_database sn w of
        Inl e \<Rightarrow> (Inl e, w)
      | Inr cx \<Rightarrow> archive_from_context z sha256 worker_count sn cx w)"

definition archive_snapshots ::
  "deflate_library \<Rightarrow> (bytes \<Rightarrow> bytes) \<Rightarrow> nat \<Rightarrow> snapshot \<Rightarrow> db_snapshot list \<Rightarrow> world \<Rightarrow> (archive_error + header) \<times> world" where
  "archive_snapshots z sha256 worker_count sn snapshots w =
     (case context_from_snapshots sn snapshots w of
        Inl e \<Rightarrow> (Inl e, w)
      | Inr cx \<Rightarrow> archive_from_context z sha256 worker_count sn cx w)"

section \<open>Restoring\<close>

definition insert_records :: "ustring \<Rightarrow> stored_record list \<Rightarrow> keyspace \<Rightarrow> keyspace" where
  "insert_records name records ks = fold (\<lambda>r. keyspace_insert name (rec_k r) (rec_v r)) records ks"

text \<open>The chunks are read, hashed, decompressed and inserted one after the other.\<close>

fun restore_chunks ::
  "deflate_library \<Rightarrow> (partition_id \<Rightarrow> ustring option) \<Rightarrow> nat \<Rightarrow> bytes \<Rightarrow> bytes \<Rightarrow> keyspace \<Rightarrow>
   (archive_error + bytes) \<times> keyspace" where
  "restore_chunks z partition_map 0 file hashed ks = (Inr hashed, ks)"
| "restore_chunks z partition_map (Suc n) file hashed ks =
     (case ld deflated_codec file of
        None \<Rightarrow> (Inl FsIo, ks)
      | Some (deflated, file') \<Rightarrow>
     (case inflate z deflated of
        Inl e \<Rightarrow> (Inl e, ks)
      | Inr inflated \<Rightarrow>
     (case partition_map (inf_partition_id inflated) of
        None \<Rightarrow> (Inl (Custom ''Invalid partition id''), ks)
      | Some name \<Rightarrow>
          restore_chunks z partition_map n file' (hashed @ def_data deflated)
            (insert_records name (inf_records inflated) ks))))"

definition restore ::
  "deflate_library \<Rightarrow> (bytes \<Rightarrow> bytes) \<Rightarrow> snapshot \<Rightarrow> world \<Rightarrow> (archive_error + header) \<times> world" where
  "restore z sha256 sn w =
     (case sn_database_root sn of
        None \<Rightarrow> (Inl (Custom ''Please specify database filename''), w)
      | Some root \<Rightarrow>
     if path_exists w root then
       (Inl (Custom ''Database already exists, please remove it before restoring an archive.''), w)
     else
     (case sn_archive_filename sn of
        None \<Rightarrow> (Inl (Custom ''Please specify archive filename''), w)
      | Some filename \<Rightarrow>
     if \<not> path_exists w filename then
       (Inl (Custom ''Unable to locate archive file at `{archive_filename}`''), w)
     else
     (case w_files w filename of
        None \<Rightarrow> (Inl FsIo, w)
      | Some file \<Rightarrow>
     (case ld header_codec file of
        None \<Rightarrow> (Inl FsIo, w)
      | Some (header, _) \<Rightarrow>
     if hd_magic header \<noteq> HEADER_MAGIC then (Inl (Custom ''Invalid archive file''), w)
     else
     (case ld table_codec (drop (unat (hd_offset header)) file) of
        None \<Rightarrow> (Inl FsIo, w)
      | Some (partition_table, file') \<Rightarrow>
          let keyspace = fold (\<lambda>(i, name). open_partition name) (pt_partitions partition_table) [];
              partition_map = map_of (rev (pt_partitions partition_table));
              (result, keyspace') = restore_chunks z partition_map (unat (hd_chunks header)) file' [] keyspace
          in (case result of
                Inl e \<Rightarrow> Inl e
              | Inr hashed \<Rightarrow>
                  if sha256 hashed \<noteq> hd_hash header then Inl (Custom ''Invalid archive file'') else Inr header,
              write_database root keyspace' w))))))"

end
