(* ===== verification/ArchiveProperties.thy ===== *)
theory ArchiveProperties
  imports Archive
begin

text \<open>
  What an archive holds, and what a restoration makes of it. The chunks, read one after the other, are the rows
  of the partitions in order, whatever the size of the chunks and the number of the tasks; so the restored
  database is the archived one.
\<close>

section \<open>Chunks are the rows in order\<close>

definition row_fits :: "nat \<Rightarrow> bytes \<times> bytes \<Rightarrow> bool" where
  "row_fits m kv \<longleftrightarrow> fst kv \<noteq> [] \<and> length (fst kv) + length (snd kv) \<le> m"

definition healthy :: "nat \<Rightarrow> ingest_partition list \<Rightarrow> bool" where
  "healthy m ps \<longleftrightarrow> (\<forall>p \<in> set ps. \<forall>x \<in> set (ip_iter p). \<exists>kv. x = Inr kv \<and> row_fits m kv)"

definition rows :: "ingest_partition list \<Rightarrow> (partition_id \<times> bytes \<times> bytes) list" where
  "rows ps = concat (map (\<lambda>p. map (\<lambda>x. (ip_id p, projr x)) (ip_iter p)) ps)"

definition rows_of :: "inflated \<Rightarrow> (partition_id \<times> bytes \<times> bytes) list" where
  "rows_of c = map (\<lambda>r. (inf_partition_id c, rec_k r, rec_v r)) (inf_records c)"

definition small_chunk :: "nat \<Rightarrow> inflated \<Rightarrow> bool" where
  "small_chunk n c \<longleftrightarrow> inf_records c \<noteq> [] \<and> (\<forall>r \<in> set (inf_records c). 0 < record_len r) \<and>
     sum_list (map record_len (inf_records c)) \<le> n"

lemma rows_simps [simp]: "rows [] = []" "rows (p # ps) = map (\<lambda>x. (ip_id p, projr x)) (ip_iter p) @ rows ps"
  by (simp_all add: rows_def)

lemma healthy_simps [simp]:
  "healthy m []" "healthy m (p # ps) \<longleftrightarrow> (\<forall>x \<in> set (ip_iter p). \<exists>kv. x = Inr kv \<and> row_fits m kv) \<and> healthy m ps"
  by (simp_all add: healthy_def)

lemma record_len_new [simp]: "record_len (Record_new kv) = length (fst kv) + length (snd kv)"
  by (simp add: record_len_def Record_new_def)

lemma record_new_fields [simp]: "rec_k (Record_new kv) = fst kv" "rec_v (Record_new kv) = snd kv"
  by (simp_all add: Record_new_def)

lemma fill_loop_healthy:
  assumes "\<forall>x \<in> set iter. \<exists>kv. x = Inr kv \<and> row_fits m kv" and "sz \<le> n"
  shows "\<exists>rs iter'. fill_loop n sz rs0 iter = (Inr (rs0 @ rs), iter') \<and>
    iter = map (\<lambda>r. Inr (rec_k r, rec_v r)) rs @ iter' \<and> (iter \<noteq> [] \<longrightarrow> rs \<noteq> []) \<and>
    (\<forall>r \<in> set rs. 0 < record_len r) \<and> sz + sum_list (map record_len rs) \<le> n + m"
  using assms
proof (induction n sz rs0 iter rule: fill_loop.induct)
  case (3 n sz rs0 kv iter)
  let ?r = "Record_new kv"
  have kv: "0 < record_len ?r" "record_len ?r \<le> m" using 3(2) by (auto simp: row_fits_def)
  show ?case
  proof (cases "sz + record_len ?r > n")
    case True
    then show ?thesis
      using kv 3(3) by (intro exI [of _ "[?r]"] exI [of _ iter]) (simp add: Let_def)
  next
    case False
    then obtain rs iter' where f: "fill_loop n (sz + record_len ?r) (rs0 @ [?r]) iter = (Inr ((rs0 @ [?r]) @ rs), iter')"
      and i: "iter = map (\<lambda>r. Inr (rec_k r, rec_v r)) rs @ iter'" "\<forall>r \<in> set rs. 0 < record_len r"
      and s: "sz + record_len ?r + sum_list (map record_len rs) \<le> n + m"
      using 3(1) [OF refl refl refl False] 3(2) by (auto simp: not_less)
    show ?thesis
      using False f i s kv by (intro exI [of _ "?r # rs"] exI [of _ iter']) (simp add: Let_def)
  qed
qed simp_all

lemma poll_next_healthy:
  assumes "healthy m ps"
  shows "(rows ps = [] \<and> poll_next n ps = (None, [])) \<or>
    (\<exists>c ps'. poll_next n ps = (Some (Inr c), ps') \<and> rows ps = rows_of c @ rows ps' \<and> healthy m ps' \<and>
       small_chunk (chunk_limit n + m) c)"
  using assms
proof (induction n ps rule: poll_next.induct)
  case (2 n p ps)
  let ?n = "chunk_limit n"
  have h: "\<forall>x \<in> set (ip_iter p). \<exists>kv. x = Inr kv \<and> row_fits m kv" "healthy m ps" using 2(2) by simp_all
  from fill_loop_healthy [OF h(1), of 0 ?n "[]"] obtain rs iter'
    where f: "fill_loop ?n 0 [] (ip_iter p) = (Inr rs, iter')" "ip_iter p = map (\<lambda>r. Inr (rec_k r, rec_v r)) rs @ iter'"
      and s: "ip_iter p \<noteq> [] \<longrightarrow> rs \<noteq> []" "\<forall>r \<in> set rs. 0 < record_len r" "sum_list (map record_len rs) \<le> ?n + m"
    by auto
  show ?case
  proof (cases "rs = []")
    case True
    with s(1) have "ip_iter p = []" by blast
    then have e: "ip_iter p = []" "fill p ?n = (Inr None, p\<lparr>ip_iter := []\<rparr>)" by (simp_all add: fill_empty)
    have i: "rows (p # ps) = rows ps" "poll_next n (p # ps) = poll_next n ps" using e by simp_all
    show ?thesis unfolding i by (rule 2(1) [OF e(2) [symmetric] refl refl h(2)])
  next
    case False
    let ?c = "\<lparr>inf_partition_id = ip_id p, inf_records = rs\<rparr>"
    have "fill p ?n = (Inr (Some ?c), p\<lparr>ip_iter := iter'\<rparr>)" using False f(1) by (simp add: fill_def)
    then have "poll_next n (p # ps) = (Some (Inr ?c), p\<lparr>ip_iter := iter'\<rparr> # ps)" by simp
    moreover have "rows (p # ps) = rows_of ?c @ rows (p\<lparr>ip_iter := iter'\<rparr> # ps)" using f(2) by (simp add: rows_of_def)
    moreover have "healthy m (p\<lparr>ip_iter := iter'\<rparr> # ps)" using h f(2) by simp
    moreover have "small_chunk (chunk_limit n + m) ?c"
      using s False by (simp add: small_chunk_def)
    ultimately show ?thesis by blast
  qed
qed simp

text \<open>The chunks that one reader would take.\<close>

function chunks_of :: "nat option \<Rightarrow> ingest_partition list \<Rightarrow> inflated list" where
  "chunks_of n ps = (case poll_next n ps of (Some (Inr c), ps') \<Rightarrow> c # chunks_of n ps' | _ \<Rightarrow> [])"
  by pat_completeness auto
termination by (relation "measure (\<lambda>(n, ps). load_of ps)") (auto dest!: poll_next_consumes [OF sym])

declare chunks_of.simps [simp del]

lemma fill_pending_healthy:
  assumes "healthy m ps"
  shows "\<exists>cs ps'. fill_pending z n w ps pending k = Inr (ps', pending @ map (deflate z) cs, k + word_of_nat (length cs)) \<and>
    chunks_of n ps = cs @ chunks_of n ps' \<and> rows ps = concat (map rows_of cs) @ rows ps' \<and> healthy m ps' \<and>
    (\<forall>c \<in> set cs. small_chunk (chunk_limit n + m) c) \<and>
    (pending @ map (deflate z) cs = [] \<longrightarrow> w = 0 \<or> rows ps' = [])"
  using assms
proof (induction z n w ps pending k rule: fill_pending.induct)
  case (1 z n w ps pending k)
  show ?case
  proof (cases "length pending < w")
    case False
    then show ?thesis using 1(2)
      by (intro exI [of _ "[]"] exI [of _ ps]) (auto simp: fill_pending.simps [of z n w ps])
  next
    case True
    from poll_next_healthy [OF 1(2), of n] show ?thesis
    proof (elim disjE exE conjE)
      assume "rows ps = []" "poll_next n ps = (None, [])"
      then show ?thesis using True
        by (intro exI [of _ "[]"]) (simp add: fill_pending.simps [of z n w ps] chunks_of.simps [of n ps] chunks_of.simps [of n "[]"])
    next
      fix c ps1
      assume p: "poll_next n ps = (Some (Inr c), ps1)" and r: "rows ps = rows_of c @ rows ps1" and h: "healthy m ps1"
        and s: "small_chunk (chunk_limit n + m) c"
      from 1(1) [OF True p [symmetric] refl refl h] obtain cs ps'
        where f: "fill_pending z n w ps1 (pending @ [deflate z c]) (k + 1) =
            Inr (ps', (pending @ [deflate z c]) @ map (deflate z) cs, k + 1 + word_of_nat (length cs))"
          and q': "chunks_of n ps1 = cs @ chunks_of n ps'"
          and r': "rows ps1 = concat (map rows_of cs) @ rows ps'" and h': "healthy m ps'"
          and s': "\<forall>c \<in> set cs. small_chunk (chunk_limit n + m) c"
        by blast
      then show ?thesis using True p r s
        by (intro exI [of _ "c # cs"] exI [of _ ps'])
          (simp add: fill_pending.simps [of z n w ps] chunks_of.simps [of n ps] add.assoc)
    qed
  qed
qed

lemma chunks_of_healthy:
  "healthy m ps \<Longrightarrow> concat (map rows_of (chunks_of n ps)) = rows ps \<and> (\<forall>c \<in> set (chunks_of n ps). small_chunk (chunk_limit n + m) c)"
proof (induction n ps rule: chunks_of.induct)
  case (1 n ps)
  from poll_next_healthy [OF 1(2), of n] show ?case
  proof (elim disjE exE conjE)
    fix c ps'
    assume p: "poll_next n ps = (Some (Inr c), ps')" "rows ps = rows_of c @ rows ps'" "healthy m ps'"
      and s: "small_chunk (chunk_limit n + m) c"
    then show ?thesis using 1(1) [OF p(1) [symmetric] refl refl p(3)] by (simp add: chunks_of.simps [of n ps])
  qed (simp add: chunks_of.simps [of n ps])
qed

lemma archive_loop_healthy:
  assumes "healthy m ps" and "0 < w"
  shows "archive_loop z n w ps pending k out =
    (Inr (k + word_of_nat (length (chunks_of n ps))), out @ pending @ map (deflate z) (chunks_of n ps))"
  using assms
proof (induction z n w ps pending k out rule: archive_loop.induct)
  case (1 z n w ps pending k out)
  from fill_pending_healthy [OF 1(2), of z n w pending k] obtain cs ps'
    where f: "fill_pending z n w ps pending k = Inr (ps', pending @ map (deflate z) cs, k + word_of_nat (length cs))"
      and q: "chunks_of n ps = cs @ chunks_of n ps'" and h: "healthy m ps'"
      and e: "pending @ map (deflate z) cs = [] \<longrightarrow> w = 0 \<or> rows ps' = []"
    by blast
  show ?case
  proof (cases "pending @ map (deflate z) cs")
    case Nil
    then have "rows ps' = []" "cs = []" "pending = []" using e 1(3) by auto
    then have "chunks_of n ps' = []"
      using chunks_of_healthy [OF h, of n] by (cases "chunks_of n ps'") (auto simp: small_chunk_def rows_of_def)
    then show ?thesis using f q \<open>cs = []\<close> \<open>pending = []\<close> by (simp add: archive_loop.simps [of z n w ps])
  next
    case (Cons d rest)
    have "(out @ [d]) @ rest @ map (deflate z) (chunks_of n ps') = out @ pending @ map (deflate z) (chunks_of n ps)"
      unfolding q using Cons by (metis append.assoc append_Cons append_Nil map_append)
    then show ?thesis
      using 1(1) [OF f refl refl Cons h 1(3)] f Cons q by (simp add: archive_loop.simps [of z n w ps] add.assoc)
  qed
qed

section \<open>Chunks read back\<close>

text \<open>What is asked of the compression: it is undone, and it does not blow a value up beyond what borsh can write.\<close>

definition deflate_sound :: "deflate_library \<Rightarrow> bool" where
  "deflate_sound z \<longleftrightarrow>
     (\<forall>x. decompress z (compress z x) = Some x \<and> (length x < 2 ^ 31 \<longrightarrow> length (compress z x) < 2 ^ 32))"

lemma length_le_record_lens: "\<forall>r \<in> set rs. 0 < record_len r \<Longrightarrow> length rs \<le> sum_list (map record_len rs)"
  by (induction rs) auto

lemma length_st_records:
  "length (st (vec_codec record_codec) rs) = 4 + 8 * length rs + sum_list (map record_len rs)"
proof -
  have "length (concat (map (st record_codec) rs)) = 8 * length rs + sum_list (map record_len rs)"
    by (induction rs) (simp_all add: length_st_record)
  then show ?thesis by (simp add: vec_codec_def)
qed

lemma small_chunk_fits:
  assumes "small_chunk n c" and "9 * n + 4 < 2 ^ 31"
  shows "faithful (vec_codec record_codec) (inf_records c)" and "length (st (vec_codec record_codec) (inf_records c)) < 2 ^ 31"
proof -
  have l: "length (inf_records c) \<le> sum_list (map record_len (inf_records c))"
      "sum_list (map record_len (inf_records c)) \<le> n"
    using assms(1) length_le_record_lens by (auto simp: small_chunk_def)
  have "record_len r < 2 ^ 32" if "r \<in> set (inf_records c)" for r
    using member_le_sum_list [of "record_len r" "map record_len (inf_records c)"] that l(2) assms(2) by simp
  then show "faithful (vec_codec record_codec) (inf_records c)"
    using l assms(2) by (intro faithful_vec) (auto simp: faithful_record)
  show "length (st (vec_codec record_codec) (inf_records c)) < 2 ^ 31"
    using l assms(2) by (simp add: length_st_records)
qed

lemma inflate_deflate:
  "deflate_sound z \<Longrightarrow> small_chunk n c \<Longrightarrow> 9 * n + 4 < 2 ^ 31 \<Longrightarrow> inflate z (deflate z c) = Inr c"
  by (simp add: inflate_def deflate_def deflate_sound_def small_chunk_fits(1))

lemma faithful_deflate:
  "deflate_sound z \<Longrightarrow> small_chunk n c \<Longrightarrow> 9 * n + 4 < 2 ^ 31 \<Longrightarrow> faithful deflated_codec (deflate z c)"
  using small_chunk_fits(2) [of n c] unfolding deflate_sound_def by (intro faithful_deflated) (simp add: deflate_def)

definition insert_row :: "(partition_id \<Rightarrow> ustring option) \<Rightarrow> partition_id \<times> bytes \<times> bytes \<Rightarrow> keyspace \<Rightarrow> keyspace" where
  "insert_row pm = (\<lambda>(i, k, v). keyspace_insert (the (pm i)) k v)"

lemma insert_records_rows:
  "pm (inf_partition_id c) = Some name \<Longrightarrow> insert_records name (inf_records c) ks = fold (insert_row pm) (rows_of c) ks"
proof -
  assume n: "pm (inf_partition_id c) = Some name"
  have "fold (\<lambda>r. keyspace_insert name (rec_k r) (rec_v r)) rs ks =
      fold (insert_row pm) (map (\<lambda>r. (inf_partition_id c, rec_k r, rec_v r)) rs) ks" for rs
    using n by (induction rs arbitrary: ks) (simp_all add: insert_row_def)
  then show ?thesis by (simp add: insert_records_def rows_of_def)
qed

lemma restore_chunks_archived:
  assumes "deflate_sound z" and "9 * n + 4 < 2 ^ 31"
    and "\<forall>c \<in> set cs. small_chunk n c \<and> pm (inf_partition_id c) \<noteq> None"
  shows "restore_chunks z pm (length cs) (concat (map (st deflated_codec) (map (deflate z) cs)) @ rest) hashed ks =
    (Inr (hashed @ concat (map def_data (map (deflate z) cs))), fold (insert_row pm) (concat (map rows_of cs)) ks)"
  using assms(3)
proof (induction cs arbitrary: hashed ks)
  case (Cons c cs)
  obtain name where c: "small_chunk n c" "pm (inf_partition_id c) = Some name" using Cons.prems by auto
  have f: "ld deflated_codec (st deflated_codec (deflate z c) @ bs) = Some (deflate z c, bs)" for bs
    using faithful_deflate [OF assms(1) c(1) assms(2)] by (simp add: faithful_def)
  show ?case
    using Cons by (simp add: f inflate_deflate [OF assms(1) c(1) assms(2)] c(2) insert_records_rows [of pm, OF c(2)])
qed simp

section \<open>The restored partitions\<close>

lemma keyspace_insert_lookup:
  "map_of (keyspace_insert n k v ks) m = map_option (if n = m then part_insert k v else id) (map_of ks m)"
  by (induction ks) (auto simp: keyspace_insert_def)

lemma insert_rows_lookup:
  "map_of (fold (insert_row pm) rs ks) m =
   map_option (fold (\<lambda>(i, k, v). if the (pm i) = m then part_insert k v else id) rs) (map_of ks m)"
proof (induction rs arbitrary: ks)
  case Nil
  then show ?case by (simp add: option.map_id0 id_def [symmetric])
next
  case (Cons r rs)
  then show ?case
    by (cases r) (auto simp: insert_row_def keyspace_insert_lookup option.map_comp comp_def split: option.splits)
qed

lemma opened_lookup:
  "map_of (fold (\<lambda>(i, name). open_partition name) tb ks) m =
   (case map_of ks m of Some t \<Rightarrow> Some t | None \<Rightarrow> if m \<in> snd ` set tb then Some part_empty else None)"
proof (induction tb arbitrary: ks)
  case (Cons x tb)
  have o: "map_of (open_partition n ks) m =
      (case map_of ks m of Some t \<Rightarrow> Some t | None \<Rightarrow> if m = n then Some part_empty else None)" for n
    by (auto simp: open_partition_def map_add_def dom_map_of_conv_image_fst [symmetric] split: option.splits)
  show ?case by (cases x) (auto simp: Cons o split: option.splits)
qed (simp split: option.splits)

lemma insert_entries:
  assumes "distinct (map fst xs)"
  shows "part_get (fold (\<lambda>(k, v). part_insert k v) xs p) k = (case map_of xs k of Some v \<Rightarrow> Some v | None \<Rightarrow> part_get p k)"
  using assms
proof (induction xs arbitrary: p)
  case (Cons x xs)
  obtain a b where x: "x = (a, b)" by (metis surj_pair)
  have "map_of xs a = None" using Cons.prems x by (simp add: map_of_eq_None_iff)
  then show ?case using Cons x by (auto split: option.splits)
qed simp

lemma fold_unused: "fold (\<lambda>x. id) xs y = y"
  by (induction xs) simp_all

lemma insert_all_entries: "fold (\<lambda>(k, v). part_insert k v) (part_entries t) part_empty = t"
proof (rule part_eqI)
  fix k show "part_get (fold (\<lambda>(k, v). part_insert k v) (part_entries t) part_empty) k = part_get t k"
    unfolding insert_entries [OF al_sorted_distinct [OF part_entries_sorted]]
    by (simp add: part_get_def part_entries_simps split: option.splits)
qed

lemma rows_of_partition:
  assumes "\<forall>p \<in> set ps. pm (ip_id p) = Some (ip_name p)" and "distinct (map ip_name ps)"
    and "p \<in> set ps" and "ip_iter p = map Inr (part_entries t)"
  shows "fold (\<lambda>(i, k, v). if the (pm i) = ip_name p then part_insert k v else id) (rows ps) part_empty = t"
proof -
  let ?f = "\<lambda>(i, k, v). if the (pm i) = ip_name p then part_insert k v else id"
  obtain as bs where ps: "ps = as @ p # bs" using assms(3) by (meson split_list)
  have skip: "fold ?f (rows qs) x = x" if "\<forall>q \<in> set qs. pm (ip_id q) = Some (ip_name q) \<and> ip_name q \<noteq> ip_name p" for qs x
    using that by (induction qs) (auto simp: fold_map comp_def fold_unused)
  have app: "rows (xs @ ys) = rows xs @ rows ys" for xs ys by (simp add: rows_def)
  have "fold ?f (map (\<lambda>x. (ip_id p, projr x)) (ip_iter p)) x = fold (\<lambda>(k, v). part_insert k v) (part_entries t) x" for x
    using assms(1,3) by (simp add: assms(4) fold_map comp_def case_prod_beta')
  moreover have "\<forall>q \<in> set as \<union> set bs. pm (ip_id q) = Some (ip_name q) \<and> ip_name q \<noteq> ip_name p"
    using assms(1,2) by (auto simp: ps) (metis imageI)+
  ultimately show ?thesis by (simp add: ps app skip insert_all_entries)
qed

section \<open>Archive and restoration\<close>

definition parts_of :: "(ustring \<times> tree) list \<Rightarrow> ingest_partition list" where
  "parts_of ks = map (\<lambda>(i, nt). try_open_partition i (snapshot_of nt)) (enumerate 0 ks)"

lemma parts_of_nth:
  "length (parts_of ks) = length ks"
  "i < length ks \<Longrightarrow> parts_of ks ! i =
     \<lparr>ip_id = word_of_nat i, ip_name = fst (ks ! i), ip_iter = map Inr (part_entries (snd (ks ! i)))\<rparr>"
  by (simp_all add: parts_of_def nth_enumerate_eq try_open_partition_def snapshot_of_def)

lemma parts_of_names: "map ip_name (parts_of ks) = map fst ks"
  by (rule nth_equalityI) (simp_all add: parts_of_nth)

lemma parts_of_ids:
  assumes "length ks \<le> 2 ^ 16" shows "distinct (map ip_id (parts_of ks))"
proof -
  have "i = j" if "i < length ks" "j < length ks" "word_of_nat i = (word_of_nat j :: u16)" for i j
  proof -
    have "unat (word_of_nat i :: u16) = unat (word_of_nat j :: u16)" using that(3) by simp
    with that(1,2) assms show ?thesis by (simp add: unat_of_nat unsigned_of_nat take_bit_nat_eq_self_iff)
  qed
  then show ?thesis by (auto simp: distinct_conv_nth parts_of_nth)
qed

lemma in_parts_of:
  "p \<in> set (parts_of ks) \<Longrightarrow> \<exists>t. (ip_name p, t) \<in> set ks \<and> ip_iter p = map Inr (part_entries t)"
  by (auto simp: in_set_conv_nth parts_of_nth) (metis nth_mem prod.collapse)

definition fitting :: "nat \<Rightarrow> (ustring \<times> tree) list \<Rightarrow> bool" where
  "fitting m ks \<longleftrightarrow> (\<forall>(n, t) \<in> set ks. faithful string_codec n \<and> (\<forall>kv \<in> set (part_entries t). row_fits m kv))"

lemma parts_of_healthy: "fitting m ks \<Longrightarrow> healthy m (parts_of ks)"
  using in_parts_of by (fastforce simp: fitting_def healthy_def)

lemma length_rows_parts_of: "length (rows (parts_of ks)) = sum_list (map (\<lambda>(n, t). length (part_entries t)) ks)"
proof -
  have "length (rows (parts_of ks)) = sum_list (map (\<lambda>p. length (ip_iter p)) (parts_of ks))"
    by (simp add: rows_def length_concat comp_def)
  also have "map (\<lambda>p. length (ip_iter p)) (parts_of ks) = map (\<lambda>(n, t). length (part_entries t)) ks"
    by (rule nth_equalityI) (simp_all add: parts_of_nth case_prod_beta)
  finally show ?thesis .
qed

lemma few_chunks: "healthy m ps \<Longrightarrow> length (chunks_of n ps) \<le> length (rows ps)"
proof -
  assume h: "healthy m ps"
  have "length cs \<le> length (concat (map rows_of cs))" if "\<forall>c \<in> set cs. small_chunk (chunk_limit n + m) c" for cs
    using that
  proof (induction cs)
    case (Cons c cs)
    then have "0 < length (rows_of c)" by (simp add: small_chunk_def rows_of_def)
    moreover have "length cs \<le> length (concat (map rows_of cs))" using Cons by simp
    ultimately show ?case by (simp only: list.map concat.simps length_append list.size)
  qed simp
  with chunks_of_healthy [OF h, of n] show ?thesis by metis
qed

lemma faithful_table:
  "length (pt_partitions t) < 2 ^ 32 \<Longrightarrow> \<forall>(i, n) \<in> set (pt_partitions t). faithful string_codec n \<Longrightarrow> faithful table_codec t"
proof (rule faithfulI)
  fix rest
  assume "length (pt_partitions t) < 2 ^ 32" "\<forall>(i, n) \<in> set (pt_partitions t). faithful string_codec n"
  then have "faithful (vec_codec (pair_codec u16_codec string_codec)) (pt_partitions t)"
    by (intro faithful_vec) (auto simp: faithful_pair)
  then show "ld table_codec (st table_codec t @ rest) = Some (t, rest)" by (simp add: table_codec_def)
qed

text \<open>The file of an archive with the given chunks, whose header may be that of other chunks.\<close>

definition header_of :: "deflate_library \<Rightarrow> (bytes \<Rightarrow> bytes) \<Rightarrow> inflated list \<Rightarrow> header" where
  "header_of z sha256 cs = header_default\<lparr>hd_chunks := word_of_nat (length cs),
     hd_hash := sha256 (concat (map def_data (map (deflate z) cs)))\<rparr>"

definition archive_file :: "deflate_library \<Rightarrow> header \<Rightarrow> ingest_partition list \<Rightarrow> inflated list \<Rightarrow> bytes" where
  "archive_file z h ps cs = overwrite (st header_codec h) (replicate (unat DATA_OFFSET) 0 @
     st table_codec \<lparr>pt_version = 1, pt_partitions = map (\<lambda>p. (ip_id p, ip_name p)) ps\<rparr> @
     concat (map (st deflated_codec) (map (deflate z) cs)))"

lemma archive_of_healthy:
  assumes "healthy m (cx_partitions cx)" and "0 < w" and "cx_partitions cx \<noteq> []"
  shows "archive_from_context z sha256 w sn cx wd =
    (let cs = chunks_of (sn_chunk_size sn) (cx_partitions cx); h = header_of z sha256 cs
     in (Inr h, write_file (cx_archive_filename cx) (archive_file z h (cx_partitions cx) cs) wd))"
  using assms
  by (simp add: archive_from_context_def table_of_partitions_def archive_loop_healthy [OF assms(1,2)] header_of_def
      archive_file_def Let_def comp_def)

lemma restore_of_archive_file:
  assumes "deflate_sound z" and "\<forall>x. length (sha256 x) = 32" and "9 * n + 4 < 2 ^ 31" and "length cs < 2 ^ 64"
    and "length ps \<le> 2 ^ 16" and "\<forall>p \<in> set ps. faithful string_codec (ip_name p)"
    and "\<forall>c \<in> set cs. small_chunk n c \<and> pm (inf_partition_id c) \<noteq> None"
    and "pm = map_of (rev (map (\<lambda>p. (ip_id p, ip_name p)) ps))"
    and "sn_database_root rs = Some root" and "sn_archive_filename rs = Some f"
    and "w_files wd f = Some (archive_file z h ps cs)" and "\<not> path_exists wd root" and "h = header_of z sha256 cs"
  shows "restore z sha256 rs wd =
    (Inr h, write_database root (fold (insert_row pm) (concat (map rows_of cs))
       (fold (\<lambda>(i, name). open_partition name) (map (\<lambda>p. (ip_id p, ip_name p)) ps) [])) wd)"
proof -
  define ds where "ds = map (deflate z) cs"
  let ?table = "\<lparr>pt_version = 1, pt_partitions = map (\<lambda>p. (ip_id p, ip_name p)) ps\<rparr>"
  let ?body = "concat (map (st deflated_codec) ds)"
  have h: "length (hd_magic h) = 8" "length (hd_hash h) = 32" "hd_magic h = HEADER_MAGIC" "unat (hd_offset h) = 128"
      "unat (hd_chunks h) = length cs"
    using assms(2,4,13)
    by (simp_all add: header_of_def header_default_def HEADER_MAGIC_def DATA_OFFSET_def unat_of_nat unsigned_of_nat
        take_bit_nat_eq_self_iff)
  note sz = length_st_header [OF h(1,2)]
  have whole: "archive_file z h ps cs = st header_codec h @ replicate 64 0 @ st table_codec ?table @ ?body"
    by (simp add: archive_file_def overwrite_def sz DATA_OFFSET_def ds_def)
  have 1: "\<exists>r. ld header_codec (archive_file z h ps cs) = Some (h, r)"
    using faithful_header [OF h(1,2)] by (simp add: faithful_def whole)
  have 2: "drop 128 (archive_file z h ps cs) = st table_codec ?table @ ?body"
    by (simp add: whole sz)
  have "faithful table_codec ?table" using assms(5,6) by (intro faithful_table) auto
  then have 3: "ld table_codec (st table_codec ?table @ ?body) = Some (?table, ?body)" by (simp add: faithful_def)
  have 4: "restore_chunks z pm (length cs) ?body [] ks =
      (Inr (concat (map def_data ds)), fold (insert_row pm) (concat (map rows_of cs)) ks)" for ks
    using restore_chunks_archived [OF assms(1,3,7), of "[]" "[]" ks] by (simp add: ds_def)
  have 5: "sha256 (concat (map def_data ds)) = hd_hash h" by (simp add: assms(13) header_of_def ds_def)
  show ?thesis
    using 1 assms(9-12) by (auto simp: restore_def path_exists_def h(3-5) 2 3 4 5 assms(8) [symmetric] Let_def)
qed

definition ids_of :: "ingest_partition list \<Rightarrow> partition_id \<Rightarrow> ustring option" where
  "ids_of ps = map_of (rev (map (\<lambda>p. (ip_id p, ip_name p)) ps))"

lemma ids_of_parts: "length ks \<le> 2 ^ 16 \<Longrightarrow> p \<in> set (parts_of ks) \<Longrightarrow> ids_of (parts_of ks) (ip_id p) = Some (ip_name p)"
  using parts_of_ids [of ks] by (auto simp: ids_of_def map_of_eq_Some_iff rev_map [symmetric] comp_def)

lemma row_ids: "(i, k, v) \<in> set (rows ps) \<Longrightarrow> i \<in> ip_id ` set ps"
  by (auto simp: rows_def)

lemma chunk_ids:
  assumes "healthy m ps" and "c \<in> set (chunks_of n ps)" shows "inf_partition_id c \<in> ip_id ` set ps"
proof -
  have "inf_records c \<noteq> []" using chunks_of_healthy [OF assms(1)] assms(2) by (auto simp: small_chunk_def)
  then obtain r where "r \<in> set (inf_records c)" by (cases "inf_records c") auto
  then have "(inf_partition_id c, rec_k r, rec_v r) \<in> set (concat (map rows_of (chunks_of n ps)))"
    using assms(2) by (auto simp: rows_of_def)
  then show ?thesis using chunks_of_healthy [OF assms(1)] row_ids by metis
qed

lemma archive_then_restore:
  assumes z: "deflate_sound z" "\<forall>x. length (sha256 x) = 32" "0 < workers"
    and ks: "ks \<noteq> []" "distinct (map fst ks)" "length ks \<le> 2 ^ 16" "fitting m ks"
    and n: "9 * (chunk_limit (sn_chunk_size sn) + m) + 4 < 2 ^ 31"
      "sum_list (map (\<lambda>(n, t). length (part_entries t)) ks) < 2 ^ 64"
  shows "\<exists>h bs.
    (\<forall>f wd. archive_from_context z sha256 workers sn \<lparr>cx_partitions = parts_of ks, cx_archive_filename = f\<rparr> wd =
       (Inr h, write_file f bs wd)) \<and>
    (\<forall>rs root f wd. sn_database_root rs = Some root \<longrightarrow> sn_archive_filename rs = Some f \<longrightarrow> w_files wd f = Some bs \<longrightarrow>
       \<not> path_exists wd root \<longrightarrow> (\<exists>ks'. restore z sha256 rs wd = (Inr h, write_database root ks' wd) \<and> map_of ks' = map_of ks))"
proof -
  let ?ps = "parts_of ks" and ?pm = "ids_of (parts_of ks)"
  define cs where "cs = chunks_of (sn_chunk_size sn) ?ps"
  let ?h = "header_of z sha256 cs"
  let ?ks = "fold (insert_row ?pm) (rows ?ps)
    (fold (\<lambda>(i, name). open_partition name) (map (\<lambda>p. (ip_id p, ip_name p)) ?ps) [])"
  have h: "healthy m ?ps" by (rule parts_of_healthy [OF ks(4)])
  have pm: "\<forall>p \<in> set ?ps. ?pm (ip_id p) = Some (ip_name p)" using ids_of_parts [OF ks(3)] by blast
  have ne: "?ps \<noteq> []" using ks(1) parts_of_nth(1) [of ks] by auto
  have a: "archive_from_context z sha256 workers sn \<lparr>cx_partitions = ?ps, cx_archive_filename = f\<rparr> wd =
      (Inr ?h, write_file f (archive_file z ?h ?ps cs) wd)" for f wd
    using archive_of_healthy [of m "\<lparr>cx_partitions = ?ps, cx_archive_filename = f\<rparr>" workers z sha256 sn wd] h z(3) ne
    by (simp add: cs_def Let_def)
  have c: "\<forall>c \<in> set cs. small_chunk (chunk_limit (sn_chunk_size sn) + m) c \<and> ?pm (inf_partition_id c) \<noteq> None"
    using chunks_of_healthy [OF h, of "sn_chunk_size sn"] chunk_ids [OF h] pm by (fastforce simp: cs_def)
  have l: "length cs < 2 ^ 64"
    using few_chunks [OF h, of "sn_chunk_size sn"] n(2) by (simp add: cs_def length_rows_parts_of)
  have names: "\<forall>p \<in> set ?ps. faithful string_codec (ip_name p)"
    using in_parts_of ks(4) by (fastforce simp: fitting_def)
  have "restore z sha256 rs wd = (Inr ?h, write_database root ?ks wd)"
    if "sn_database_root rs = Some root" "sn_archive_filename rs = Some f" "w_files wd f = Some (archive_file z ?h ?ps cs)"
      "\<not> path_exists wd root" for rs root f wd
    using restore_of_archive_file [OF z(1,2) n(1) l _ names c ids_of_def that refl] ks(3)
      chunks_of_healthy [OF h, of "sn_chunk_size sn"]
    by (simp add: parts_of_nth cs_def)
  moreover have "map_of ?ks = map_of ks"
  proof
    fix x
    have o: "map_of ?ks x = map_option (fold (\<lambda>(i, k, v). if the (?pm i) = x then part_insert k v else id) (rows ?ps))
        (if x \<in> set (map fst ks) then Some part_empty else None)"
      unfolding insert_rows_lookup opened_lookup by (simp add: parts_of_names [symmetric] image_comp comp_def)
    show "map_of ?ks x = map_of ks x"
    proof (cases "x \<in> set (map fst ks)")
      case True
      then obtain p where p: "p \<in> set ?ps" "ip_name p = x" by (metis imageE list.set_map parts_of_names)
      from in_parts_of [OF p(1)] obtain t where t: "(x, t) \<in> set ks" "ip_iter p = map Inr (part_entries t)"
        using p(2) by blast
      have "distinct (map ip_name ?ps)" using ks(2) by (simp add: parts_of_names)
      from rows_of_partition [OF pm this p(1) t(2)] show ?thesis using True o p(2) t(1) ks(2) by simp
    next
      case False
      then have "map_of ks x = None" by (simp add: map_of_eq_None_iff)
      with False show ?thesis using o by simp
    qed
  qed
  ultimately show ?thesis using a by blast
qed

section \<open>The claims\<close>

lemma partition_names_fit: "\<forall>n \<in> set partition_names. faithful string_codec n"
proof -
  have a: "faithful string_codec s" if "list_all (\<lambda>c. c < 128) s" "length s < 100" for s
  proof (rule faithful_string)
    show "\<forall>c \<in> set s. scalar c" using that(1) by (auto simp: list_all_iff scalar_def)
    have "length (utf8_bytes xs) = length xs" if "list_all (\<lambda>c. c < 128) xs" for xs
      using that by (induction xs) (simp_all add: utf8_bytes_def utf8_char_def)
    from this [OF that(1)] that(2) show "length (utf8_bytes s) < 2 ^ 32" by simp
  qed
  show ?thesis by (simp add: partition_names_def ascii_def a)
qed

lemma partition_names_distinct: "distinct partition_names" "length partition_names = 23"
  by (simp_all add: partition_names_def ascii_def)

definition kept_partitions :: "(ustring \<Rightarrow> tree) \<Rightarrow> (ustring \<times> tree) list" where
  "kept_partitions trees = map (\<lambda>n. (n, trees n)) [n \<leftarrow> partition_names. n \<noteq> ascii ''notification_queue'']"

lemma context_of_kept:
  assumes "sn_archive_filename sn = Some f" and "\<not> path_exists w f"
    and "sn_skip_partitions sn = Some [ascii ''notification_queue'']"
  shows "context_from_snapshots sn (take_snapshots trees) w =
    Inr \<lparr>cx_partitions = parts_of (kept_partitions trees), cx_archive_filename = f\<rparr>"
proof -
  have "[s \<leftarrow> take_snapshots trees. ds_name s \<noteq> ascii ''notification_queue''] = map snapshot_of (kept_partitions trees)"
    by (simp add: take_snapshots_def kept_partitions_def filter_map comp_def snapshot_of_def)
  moreover have "map (\<lambda>(i, s). try_open_partition i s) (enumerate 0 (map snapshot_of ks)) = parts_of ks" for ks
    by (rule nth_equalityI) (simp_all add: parts_of_def nth_enumerate_eq case_prod_beta)
  ultimately show ?thesis using assms by (simp add: context_from_snapshots_def)
qed

lemma database_archive:
  assumes "deflate_sound z" and "\<forall>x. length (sha256 x) = 32" and "0 < workers"
    and "\<forall>n k v. part_get (trees n) k = Some v \<longrightarrow> row_fits m (k, v)"
    and "9 * (chunk_limit (sn_chunk_size sn) + m) + 4 < 2 ^ 31"
    and "sum_list (map (\<lambda>n. length (part_entries (trees n))) partition_names) < 2 ^ 64"
    and "sn_skip_partitions sn = Some [ascii ''notification_queue'']"
  shows "\<exists>h bs.
    (\<forall>f w. sn_archive_filename sn = Some f \<longrightarrow> \<not> path_exists w f \<longrightarrow>
       archive_snapshots z sha256 workers sn (take_snapshots trees) w = (Inr h, write_file f bs w)) \<and>
    (\<forall>rs root f w. sn_database_root rs = Some root \<longrightarrow> sn_archive_filename rs = Some f \<longrightarrow> w_files w f = Some bs \<longrightarrow>
       \<not> path_exists w root \<longrightarrow> (\<exists>ks. restore z sha256 rs w = (Inr h, write_database root ks w) \<and>
         (\<forall>n. map_of ks n =
            (if n \<in> set partition_names \<and> n \<noteq> ascii ''notification_queue'' then Some (trees n) else None))))"
proof -
  let ?ks = "kept_partitions trees"
  have l: "length ?ks \<le> 23" unfolding kept_partitions_def partition_names_distinct(2) [symmetric] by simp
  have "\<forall>n. \<forall>kv \<in> set (part_entries (trees n)). row_fits m kv" using assms(4) by (auto simp: in_entries_iff)
  then have fit: "fitting m ?ks" using partition_names_fit by (auto simp: fitting_def kept_partitions_def)
  have d: "distinct (map fst ?ks)" by (simp add: kept_partitions_def comp_def partition_names_distinct(1))
  have ne: "?ks \<noteq> []" by (simp add: kept_partitions_def partition_names_def ascii_def)
  have le: "sum_list (map f (filter P xs)) \<le> sum_list (map f xs)" for f :: "ustring \<Rightarrow> nat" and P xs
    by (induction xs) auto
  have few: "sum_list (map (\<lambda>(n, t). length (part_entries t)) ?ks) < 2 ^ 64"
    using le_less_trans [OF le assms(6)] by (simp add: kept_partitions_def comp_def)
  have m: "map_of ?ks n = (if n \<in> set partition_names \<and> n \<noteq> ascii ''notification_queue'' then Some (trees n) else None)" for n
    by (auto simp: kept_partitions_def map_of_map_restrict restrict_map_def)
  have "length ?ks \<le> 2 ^ 16" using l by simp
  from archive_then_restore [OF assms(1-3) ne d this fit assms(5) few] obtain h bs where
      a: "\<forall>f w. archive_from_context z sha256 workers sn \<lparr>cx_partitions = parts_of ?ks, cx_archive_filename = f\<rparr> w =
        (Inr h, write_file f bs w)"
      and r: "\<forall>rs root f w. sn_database_root rs = Some root \<longrightarrow> sn_archive_filename rs = Some f \<longrightarrow> w_files w f = Some bs \<longrightarrow>
        \<not> path_exists w root \<longrightarrow> (\<exists>ks. restore z sha256 rs w = (Inr h, write_database root ks w) \<and> map_of ks = map_of ?ks)"
    by blast
  show ?thesis
    using r by (intro exI [of _ h] exI [of _ bs]) (simp add: archive_snapshots_def context_of_kept [OF _ _ assms(7)] a m [symmetric] fun_eq_iff)
qed

text \<open>C31: The archive of a database restores to that database: whatever its contents, the size of the chunks and the
  number of tasks, the archive is written and read without an error, and every partition but the queue of
  notifications, which is skipped, has all its rows again.\<close>

theorem archived_database_is_restored:
  assumes "deflate_sound z" and "\<forall>x. length (sha256 x) = 32" and "0 < workers"
    and "\<forall>n k v. part_get (trees n) k = Some v \<longrightarrow> row_fits m (k, v)"
    and "9 * (chunk_limit (sn_chunk_size sn) + m) + 4 < 2 ^ 31"
    and "sum_list (map (\<lambda>n. length (part_entries (trees n))) partition_names) < 2 ^ 64"
    and "sn_skip_partitions sn = Some [ascii ''notification_queue'']" and "sn_archive_filename sn = Some f"
    and "\<not> path_exists w f" and "sn_database_root rs = Some root" and "sn_archive_filename rs = Some f"
    and "\<not> path_exists w root" and "root \<noteq> f"
  shows "\<exists>h w1 w2 ks. archive_snapshots z sha256 workers sn (take_snapshots trees) w = (Inr h, w1) \<and>
    restore z sha256 rs w1 = (Inr h, w2) \<and> w_databases w2 root = Some ks \<and>
    (\<forall>n. map_of ks n = (if n \<in> set partition_names \<and> n \<noteq> ascii ''notification_queue'' then Some (trees n) else None))"
proof -
  from database_archive [OF assms(1-7)] obtain h bs where
      a: "archive_snapshots z sha256 workers sn (take_snapshots trees) w = (Inr h, write_file f bs w)"
      and r: "\<forall>rs root f w. sn_database_root rs = Some root \<longrightarrow> sn_archive_filename rs = Some f \<longrightarrow> w_files w f = Some bs \<longrightarrow>
        \<not> path_exists w root \<longrightarrow> (\<exists>ks. restore z sha256 rs w = (Inr h, write_database root ks w) \<and>
          (\<forall>n. map_of ks n =
            (if n \<in> set partition_names \<and> n \<noteq> ascii ''notification_queue'' then Some (trees n) else None)))"
    using assms(8,9) by blast
  have w: "w_files (write_file f bs w) f = Some bs" "\<not> path_exists (write_file f bs w) root"
    using assms(12,13) by (auto simp: write_file_def path_exists_def)
  from r [rule_format, OF assms(10,11) w] show ?thesis using a by (auto simp: write_database_def)
qed

text \<open>A compression that stores the bytes as they are, and a constant for the hash.\<close>

definition stored_as_is :: deflate_library where
  "stored_as_is = \<lparr>compress = \<lambda>x. x, decompress = Some\<rparr>"

definition sample_tree :: tree where "sample_tree = part_insert [1] [2] part_empty"

definition empty_world :: world where "empty_world = \<lparr>w_files = \<lambda>_. None, w_databases = \<lambda>_. None\<rparr>"

lemma stored_as_is_sound: "deflate_sound stored_as_is"
  by (simp add: deflate_sound_def stored_as_is_def)

lemma sample_tree_simps [simp]: "part_entries sample_tree = [([1], [2])]"
  by (simp add: sample_tree_def part_entries_simps)

lemma sample_tree_fits: "part_get sample_tree k = Some v \<Longrightarrow> row_fits 2 (k, v)"
  by (auto simp: sample_tree_def row_fits_def split: if_splits)

lemma empty_world_simps [simp]: "\<not> path_exists empty_world p" "w_files empty_world p = None"
  by (simp_all add: empty_world_def path_exists_def)

theorem archived_database_is_restored_witness:
  "\<exists>h w1 w2 ks. archive_snapshots stored_as_is (\<lambda>_. replicate 32 0) 4
      (snapshot_default\<lparr>sn_archive_filename := Some [97], sn_skip_partitions := Some [ascii ''notification_queue'']\<rparr>)
      (take_snapshots (\<lambda>_. sample_tree)) empty_world = (Inr h, w1) \<and>
    restore stored_as_is (\<lambda>_. replicate 32 0) (snapshot_default\<lparr>sn_archive_filename := Some [97], sn_database_root := Some [98]\<rparr>) w1 =
      (Inr h, w2) \<and> w_databases w2 [98] = Some ks \<and>
    (\<forall>n. map_of ks n = (if n \<in> set partition_names \<and> n \<noteq> ascii ''notification_queue'' then Some sample_tree else None))"
  by (rule archived_database_is_restored [where m = 2 and f = "[97]" and root = "[98]", OF stored_as_is_sound])
    (simp_all add: sample_tree_fits snapshot_default_def chunk_limit_def DEFAULT_CHUNK_SIZE_def partition_names_def)

text \<open>C34: The number of tasks and the order in which they end do not matter: any two pools write the same file and
  return the same header.\<close>

theorem archive_is_the_same_with_any_pool:
  assumes "0 < workers" and "0 < workers'" and "\<forall>s \<in> set snapshots. \<forall>x \<in> set (ds_iter s). \<exists>k v. x = Inr (k, v) \<and> k \<noteq> []"
  shows "archive_snapshots z sha256 workers sn snapshots w = archive_snapshots z sha256 workers' sn snapshots w"
proof (cases "context_from_snapshots sn snapshots w")
  case (Inr cx)
  let ?kvs = "concat (map (\<lambda>p. map projr (ip_iter p)) (cx_partitions cx))"
  let ?m = "sum_list (map (\<lambda>(k, v). length k + length v) ?kvs)"
  have i: "\<exists>kv. x = Inr kv \<and> fst kv \<noteq> []" if "p \<in> set (cx_partitions cx)" "x \<in> set (ip_iter p)" for p x
    using Inr that assms(3)
    by (fastforce simp: context_from_snapshots_def try_open_partition_def in_set_enumerate_eq
        dest: nth_mem split: option.splits if_splits)
  have "length (fst kv) + length (snd kv) \<le> ?m" if "p \<in> set (cx_partitions cx)" "Inr kv \<in> set (ip_iter p)" for p kv
  proof -
    have "kv \<in> set ?kvs" using that by force
    then have "length (fst kv) + length (snd kv) \<in> set (map (\<lambda>(k, v). length k + length v) ?kvs)"
      unfolding set_map by (metis (mono_tags, lifting) case_prod_beta imageI)
    then show ?thesis by (rule member_le_sum_list) simp
  qed
  with i have h: "healthy ?m (cx_partitions cx)" unfolding healthy_def row_fits_def by metis
  show ?thesis
  proof (cases "cx_partitions cx = []")
    case True
    then show ?thesis using Inr by (simp add: archive_snapshots_def archive_from_context_def table_of_partitions_def)
  next
    case False
    show ?thesis using Inr archive_of_healthy [OF h assms(1) False] archive_of_healthy [OF h assms(2) False]
      by (simp add: archive_snapshots_def)
  qed
qed (simp add: archive_snapshots_def)

theorem archive_is_the_same_with_any_pool_witness:
  "archive_snapshots stored_as_is id 1 (snapshot_default\<lparr>sn_archive_filename := Some [97]\<rparr>)
     [snapshot_of ([98], sample_tree)] empty_world =
   archive_snapshots stored_as_is id 8 (snapshot_default\<lparr>sn_archive_filename := Some [97]\<rparr>)
     [snapshot_of ([98], sample_tree)] empty_world"
  by (rule archive_is_the_same_with_any_pool) (simp_all add: snapshot_of_def)

lemma unfinished_refused:
  assumes "sn_archive_filename sn = Some f" and "\<not> path_exists w f"
    and "archive_snapshots z sha256 workers sn snapshots w = (Inl e, w1)" and "sn_archive_filename rs = Some f"
  shows "\<exists>e'. restore z' sha256' rs w1 = (Inl e', w1)"
proof -
  have c: "cx_archive_filename cx = f" if "context_from_snapshots sn snapshots w = Inr cx" for cx
    using that assms(1) by (auto simp: context_from_snapshots_def split: if_splits)
  have "w1 = w \<or> (\<exists>rest. w1 = write_file f (replicate 128 0 @ rest) w)"
    using assms(3) c
    by (auto simp: archive_snapshots_def archive_from_context_def DATA_OFFSET_def Let_def split: sum.splits prod.splits)
  then show ?thesis
  proof
    assume "w1 = w"
    then show ?thesis using assms(2,4) by (auto simp: restore_def path_exists_def split: option.splits)
  next
    assume "\<exists>rest. w1 = write_file f (replicate 128 0 @ rest) w"
    then obtain rest where w1: "w_files w1 f = Some (replicate 128 0 @ rest)" by (auto simp: write_file_def)
    have "\<exists>h r. ld header_codec (replicate 128 0 @ rest) = Some (h, r) \<and> hd_magic h \<noteq> HEADER_MAGIC"
    proof -
      define h where "h = \<lparr>hd_magic = replicate 8 0, hd_version = 0, hd_chunks = 0, hd_offset = 0, hd_hash = replicate 32 0\<rparr>"
      have "nat_be n 0 = replicate n 0" for n by (induction n) simp_all
      then have "st u64_codec 0 = replicate 8 (0 :: byte)" by (simp add: u64_codec_def borsh_u64_def be_bytes_def)
      moreover have "replicate 128 (0 :: byte) =
          replicate 8 0 @ replicate 8 0 @ replicate 8 0 @ replicate 8 0 @ replicate 32 0 @ replicate 64 0"
        by (simp only: replicate_add [symmetric]) simp
      ultimately have whole: "replicate 128 0 @ rest = st header_codec h @ replicate 64 0 @ rest"
        by (simp add: h_def header_codec_def array_codec_def)
      have f: "faithful header_codec h" by (rule faithful_header) (simp_all add: h_def)
      have "hd (hd_magic h) = 0" "hd HEADER_MAGIC = 75" by (simp_all add: h_def HEADER_MAGIC_def hd_replicate)
      then have m: "hd_magic h \<noteq> HEADER_MAGIC" by auto
      show ?thesis unfolding whole using f m by (auto simp: faithful_def)
    qed
    then show ?thesis using w1 assms(4) by (auto simp: restore_def path_exists_def split: option.splits)
  qed
qed

text \<open>C35: An archive that was not finished cannot be restored: after a failure the file is missing or begins with
  zeros, and a restoration refuses it without touching the databases.\<close>

theorem unfinished_archive_is_refused:
  assumes "sn_archive_filename sn = Some f" and "\<not> path_exists w f"
    and "archive_snapshots z sha256 workers sn snapshots w = (Inl e, w1)" and "sn_archive_filename rs = Some f"
  shows "\<exists>e'. restore z' sha256' rs w1 = (Inl e', w1)"
  by (rule unfinished_refused [OF assms])

theorem unfinished_archive_is_refused_witness:
  "\<exists>w1. archive_snapshots stored_as_is id 1 (snapshot_default\<lparr>sn_archive_filename := Some [97]\<rparr>)
      [\<lparr>ds_name = [98], ds_iter = [Inr ([1], [2]), Inl Lsm]\<rparr>] empty_world = (Inl Lsm, w1) \<and>
    (\<exists>e'. restore stored_as_is id (snapshot_default\<lparr>sn_archive_filename := Some [97], sn_database_root := Some [99]\<rparr>) w1 =
      (Inl e', w1))"
proof -
  let ?sn = "snapshot_default\<lparr>sn_archive_filename := Some [97]\<rparr>"
  let ?ss = "[\<lparr>ds_name = [98], ds_iter = [Inr ([1], [2]), Inl Lsm]\<rparr>]"
  have "fst (archive_snapshots stored_as_is id 1 ?sn ?ss empty_world) = Inl Lsm"
    by (simp add: archive_snapshots_def context_from_snapshots_def snapshot_default_def archive_from_context_def
        table_of_partitions_def try_open_partition_def archive_loop.simps fill_pending.simps fill_def chunk_limit_def
        DEFAULT_CHUNK_SIZE_def Let_def)
  then obtain w1 where a: "archive_snapshots stored_as_is id 1 ?sn ?ss empty_world = (Inl Lsm, w1)" by (metis prod.collapse)
  show ?thesis
    using a unfinished_archive_is_refused [of ?sn "[97]" empty_world stored_as_is id 1 ?ss Lsm w1
        "snapshot_default\<lparr>sn_archive_filename := Some [97], sn_database_root := Some [99]\<rparr>"]
    by (simp add: snapshot_default_def)
qed

text \<open>The hash covers the compressed data and not the partition of a chunk: when the chunks of an archive are
  assigned to other partitions, the restoration succeeds with the same header, and the rows are in those.\<close>

theorem partition_ids_are_not_hashed:
  assumes "deflate_sound z" and "\<forall>x. length (sha256 x) = 32" and "9 * n + 4 < 2 ^ 31" and "length cs < 2 ^ 64"
    and "length ps \<le> 2 ^ 16" and "\<forall>p \<in> set ps. faithful string_codec (ip_name p)"
    and "\<forall>c \<in> set cs. small_chunk n c \<and> move (inf_partition_id c) \<in> ip_id ` set ps"
    and "sn_database_root rs = Some root" and "sn_archive_filename rs = Some f"
    and "w_files wd f = Some (archive_file z (header_of z sha256 cs) ps
      (map (\<lambda>c. c\<lparr>inf_partition_id := move (inf_partition_id c)\<rparr>) cs))" and "\<not> path_exists wd root"
  shows "restore z sha256 rs wd = (Inr (header_of z sha256 cs),
    write_database root (fold (insert_row (ids_of ps)) (map (\<lambda>(i, k, v). (move i, k, v)) (concat (map rows_of cs)))
       (fold (\<lambda>(i, name). open_partition name) (map (\<lambda>p. (ip_id p, ip_name p)) ps) [])) wd)"
proof -
  let ?cs = "map (\<lambda>c. c\<lparr>inf_partition_id := move (inf_partition_id c)\<rparr>) cs"
  have h: "header_of z sha256 cs = header_of z sha256 ?cs" by (simp add: header_of_def deflate_def comp_def)
  have "ids_of ps i \<noteq> None" if "i \<in> ip_id ` set ps" for i
    using that by (auto simp: ids_of_def map_of_eq_None_iff image_image)
  then have c: "\<forall>c \<in> set ?cs. small_chunk n c \<and> ids_of ps (inf_partition_id c) \<noteq> None"
    using assms(7) by (auto simp: small_chunk_def)
  have r: "concat (map rows_of ?cs) = map (\<lambda>(i, k, v). (move i, k, v)) (concat (map rows_of cs))"
    by (simp add: rows_of_def map_concat comp_def)
  show ?thesis
    unfolding r [symmetric]
    by (rule restore_of_archive_file [OF assms(1-3) _ assms(5,6) c ids_of_def assms(8,9,10,11) h]) (simp only: length_map assms(4))
qed

theorem partition_ids_are_not_hashed_witness:
  "\<exists>ks. restore stored_as_is (\<lambda>_. replicate 32 0)
      (snapshot_default\<lparr>sn_archive_filename := Some [97], sn_database_root := Some [98]\<rparr>)
      (write_file [97] (archive_file stored_as_is
        (header_of stored_as_is (\<lambda>_. replicate 32 0) [\<lparr>inf_partition_id = 0, inf_records = [Record_new ([1], [2])]\<rparr>])
        (parts_of [([99], sample_tree), ([100], part_empty)])
        [\<lparr>inf_partition_id = 1, inf_records = [Record_new ([1], [2])]\<rparr>]) empty_world) =
      (Inr (header_of stored_as_is (\<lambda>_. replicate 32 0) [\<lparr>inf_partition_id = 0, inf_records = [Record_new ([1], [2])]\<rparr>]), ks)"
proof -
  let ?cs = "[\<lparr>inf_partition_id = 0, inf_records = [Record_new ([1], [2])]\<rparr>]"
  let ?ps = "parts_of [([99], sample_tree), ([100], part_empty)]"
  have f: "faithful string_codec [99]" "faithful string_codec [100]"
    by (rule faithful_string; simp add: scalar_def utf8_bytes_def utf8_char_def)+
  have n: "\<forall>p \<in> set ?ps. faithful string_codec (ip_name p)" "length ?ps \<le> 2 ^ 16" "1 \<in> ip_id ` set ?ps"
    using f by (auto simp: parts_of_def try_open_partition_def snapshot_of_def)
  show ?thesis
    by (rule exI, rule partition_ids_are_not_hashed [of _ _ 2 ?cs ?ps "\<lambda>_. 1" _ "[98]" "[97]",
        OF stored_as_is_sound _ _ _ n(2,1), simplified inflated.update_convs list.map])
      (use n(3) in \<open>simp_all add: small_chunk_def snapshot_default_def write_file_def path_exists_def empty_world_def\<close>)
qed

end
