(* ===== verification/Messages.thy ===== *)
theory Messages
  imports Codec Accessor
begin

text \<open>
  The messages of the RPC interface, \<^verbatim>\<open>rpc/core/src/message.rs\<close>, with the arguments of \<^verbatim>\<open>core/src/model/krc721/data.rs\<close>:
  one datatype for each struct and one codec for its \<^verbatim>\<open>Serializer\<close> and \<^verbatim>\<open>Deserializer\<close>. A message is a version
  and its fields; the version is read and not looked at. The codecs of the fields are derived by borsh and
  are an argument.
\<close>

section \<open>Arguments\<close>

datatype collection_lookup_args = CollectionLookupArgs (cla_tick: tick)

datatype token_list_lookup_args = TokenListLookupArgs (tla_tick: tick)

datatype token_lookup_args = TokenLookupArgs (tka_tick: tick) (tka_id: u64)

datatype address_lookup_args = AddressLookupArgs (ala_tick: tick) (ala_address: ustring)

datatype address_list_lookup_args = AddressListLookupArgs (aia_address: ustring)

datatype op_lookup_args = OpLookupArgs (ola_score: u64)

datatype tx_lookup_args = TxLookupArgs (txa_txid: hash)

datatype royalty_fee_lookup_args = RoyaltyFeeLookupArgs (rfa_address: ustring) (rfa_tick: tick)

datatype network = Mainnet | Testnet10

text \<open>\<^verbatim>\<open>IndexerStatus\<close> with the two constants of the running indexer.\<close>

record status_answer = indexer_status +
  is_version :: ustring
  is_network :: network

datatype 'a subscription =
    SubscriptionTest
  | SubscriptionAddress "'a list option"
  | SubscriptionKrc20Operation "'a list option"
  | SubscriptionKrc721Operation "'a list option"

text \<open>The codecs of the fields.\<close>

record 'a wire =
  w_u16 :: "u16 codec"
  w_subscription :: "('a subscription) codec"
  w_bool :: "bool codec"
  w_indexer_status :: "status_answer codec"
  w_u64 :: "u64 codec"
  w_iter_args :: "u64 request_args codec"
  w_collections :: "('a collection_meta_wrapper, u64) pagination codec"
  w_collection_lookup_args :: "collection_lookup_args codec"
  w_collection :: "'a collection_meta_wrapper option codec"
  w_token_lookup_args :: "token_lookup_args codec"
  w_token :: "'a token_answer option codec"
  w_token_list_lookup_args :: "token_list_lookup_args codec"
  w_tokens :: "('a token_answer, u64) pagination codec"
  w_address_lookup_args :: "address_lookup_args codec"
  w_nfts_of_tick :: "(address_nft_info, u64) pagination codec"
  w_address_list_lookup_args :: "address_list_lookup_args codec"
  w_tick_token_iter_args :: "tick_token_offset request_args codec"
  w_nfts :: "(address_nft_info, tick_token_offset) pagination codec"
  w_operations :: "('a operation_meta_wrapper, u64) pagination codec"
  w_op_lookup_args :: "op_lookup_args codec"
  w_operation :: "'a operation_meta_wrapper option codec"
  w_tx_lookup_args :: "tx_lookup_args codec"
  w_deployments :: "('a scored_deploy_answer, u64) pagination codec"
  w_royalty_fee_lookup_args :: "royalty_fee_lookup_args codec"
  w_text :: "ustring option codec"
  w_tick :: "tick codec"
  w_ranges :: "available_ranges codec"
  w_texts :: "ustring list codec"
  w_history :: "('a history_entity, u64) pagination codec"

named_theorems message_codecs

section \<open>Messages\<close>

datatype 'a subscribe_request = SubscribeRequest "'a subscription"

definition subscribe_request_codec :: "'a wire \<Rightarrow> 'a subscribe_request codec" where
  "subscribe_request_codec w =
     \<lparr>st = \<lambda>m. case m of SubscribeRequest subscription \<Rightarrow> st (w_u16 w) 1 @ st (w_subscription w) subscription,
      ld = load (w_u16 w) (\<lambda>version. load (w_subscription w) (\<lambda>subscription. loaded (SubscribeRequest subscription)))\<rparr>"

datatype subscribe_response = SubscribeResponse

definition subscribe_response_codec :: "'a wire \<Rightarrow> subscribe_response codec" where
  "subscribe_response_codec w =
     \<lparr>st = \<lambda>m. st (w_u16 w) 1,
      ld = load (w_u16 w) (\<lambda>version. loaded SubscribeResponse)\<rparr>"

datatype ping_request = PingRequest

definition ping_request_codec :: "'a wire \<Rightarrow> ping_request codec" where
  "ping_request_codec w =
     \<lparr>st = \<lambda>m. st (w_u16 w) 1,
      ld = load (w_u16 w) (\<lambda>version. loaded PingRequest)\<rparr>"

datatype ping_response = PingResponse

definition ping_response_codec :: "'a wire \<Rightarrow> ping_response codec" where
  "ping_response_codec w =
     \<lparr>st = \<lambda>m. st (w_u16 w) 1,
      ld = load (w_u16 w) (\<lambda>version. loaded PingResponse)\<rparr>"

datatype get_sync_status_request = GetSyncStatusRequest

definition get_sync_status_request_codec :: "'a wire \<Rightarrow> get_sync_status_request codec" where
  "get_sync_status_request_codec w =
     \<lparr>st = \<lambda>m. st (w_u16 w) 1,
      ld = load (w_u16 w) (\<lambda>version. loaded GetSyncStatusRequest)\<rparr>"

datatype get_sync_status_response = GetSyncStatusResponse bool bool bool

definition get_sync_status_response_codec :: "'a wire \<Rightarrow> get_sync_status_response codec" where
  "get_sync_status_response_codec w =
     \<lparr>st = \<lambda>m. case m of GetSyncStatusResponse node_connected node_synced indexer_synced \<Rightarrow> st (w_u16 w) 1 @ st (w_bool w) node_connected @ st (w_bool w) node_synced @ st (w_bool w) indexer_synced,
      ld = load (w_u16 w) (\<lambda>version. load (w_bool w) (\<lambda>node_connected. load (w_bool w) (\<lambda>node_synced. load (w_bool w) (\<lambda>indexer_synced. loaded (GetSyncStatusResponse node_connected node_synced indexer_synced)))))\<rparr>"

datatype get_status_request = GetStatusRequest

definition get_status_request_codec :: "'a wire \<Rightarrow> get_status_request codec" where
  "get_status_request_codec w =
     \<lparr>st = \<lambda>m. st (w_u16 w) 1,
      ld = load (w_u16 w) (\<lambda>version. loaded GetStatusRequest)\<rparr>"

datatype get_status_response = GetStatusResponse status_answer

definition get_status_response_codec :: "'a wire \<Rightarrow> get_status_response codec" where
  "get_status_response_codec w =
     \<lparr>st = \<lambda>m. case m of GetStatusResponse status \<Rightarrow> st (w_u16 w) 1 @ st (w_indexer_status w) status,
      ld = load (w_u16 w) (\<lambda>version. load (w_indexer_status w) (\<lambda>status. loaded (GetStatusResponse status)))\<rparr>"

datatype get_metrics_request = GetMetricsRequest

definition get_metrics_request_codec :: "'a wire \<Rightarrow> get_metrics_request codec" where
  "get_metrics_request_codec w =
     \<lparr>st = \<lambda>m. st (w_u16 w) 1,
      ld = load (w_u16 w) (\<lambda>version. loaded GetMetricsRequest)\<rparr>"

datatype get_metrics_response = GetMetricsResponse u64

definition get_metrics_response_codec :: "'a wire \<Rightarrow> get_metrics_response codec" where
  "get_metrics_response_codec w =
     \<lparr>st = \<lambda>m. case m of GetMetricsResponse counter \<Rightarrow> st (w_u16 w) 1 @ st (w_u64 w) counter,
      ld = load (w_u16 w) (\<lambda>version. load (w_u64 w) (\<lambda>counter. loaded (GetMetricsResponse counter)))\<rparr>"

datatype get_collection_list_request = GetCollectionListRequest "u64 request_args"

definition get_collection_list_request_codec :: "'a wire \<Rightarrow> get_collection_list_request codec" where
  "get_collection_list_request_codec w =
     \<lparr>st = \<lambda>m. case m of GetCollectionListRequest iter_args \<Rightarrow> st (w_u16 w) 1 @ st (w_iter_args w) iter_args,
      ld = load (w_u16 w) (\<lambda>version. load (w_iter_args w) (\<lambda>iter_args. loaded (GetCollectionListRequest iter_args)))\<rparr>"

datatype 'a get_collection_list_response = GetCollectionListResponse "('a collection_meta_wrapper, u64) pagination"

definition get_collection_list_response_codec :: "'a wire \<Rightarrow> 'a get_collection_list_response codec" where
  "get_collection_list_response_codec w =
     \<lparr>st = \<lambda>m. case m of GetCollectionListResponse response \<Rightarrow> st (w_u16 w) 1 @ st (w_collections w) response,
      ld = load (w_u16 w) (\<lambda>version. load (w_collections w) (\<lambda>response. loaded (GetCollectionListResponse response)))\<rparr>"

datatype get_collection_request = GetCollectionRequest collection_lookup_args

definition get_collection_request_codec :: "'a wire \<Rightarrow> get_collection_request codec" where
  "get_collection_request_codec w =
     \<lparr>st = \<lambda>m. case m of GetCollectionRequest args \<Rightarrow> st (w_u16 w) 1 @ st (w_collection_lookup_args w) args,
      ld = load (w_u16 w) (\<lambda>version. load (w_collection_lookup_args w) (\<lambda>args. loaded (GetCollectionRequest args)))\<rparr>"

datatype 'a get_collection_response = GetCollectionResponse "'a collection_meta_wrapper option"

definition get_collection_response_codec :: "'a wire \<Rightarrow> 'a get_collection_response codec" where
  "get_collection_response_codec w =
     \<lparr>st = \<lambda>m. case m of GetCollectionResponse response \<Rightarrow> st (w_u16 w) 1 @ st (w_collection w) response,
      ld = load (w_u16 w) (\<lambda>version. load (w_collection w) (\<lambda>response. loaded (GetCollectionResponse response)))\<rparr>"

datatype get_token_request = GetTokenRequest token_lookup_args

definition get_token_request_codec :: "'a wire \<Rightarrow> get_token_request codec" where
  "get_token_request_codec w =
     \<lparr>st = \<lambda>m. case m of GetTokenRequest args \<Rightarrow> st (w_u16 w) 1 @ st (w_token_lookup_args w) args,
      ld = load (w_u16 w) (\<lambda>version. load (w_token_lookup_args w) (\<lambda>args. loaded (GetTokenRequest args)))\<rparr>"

datatype 'a get_token_response = GetTokenResponse "'a token_answer option"

definition get_token_response_codec :: "'a wire \<Rightarrow> 'a get_token_response codec" where
  "get_token_response_codec w =
     \<lparr>st = \<lambda>m. case m of GetTokenResponse response \<Rightarrow> st (w_u16 w) 1 @ st (w_token w) response,
      ld = load (w_u16 w) (\<lambda>version. load (w_token w) (\<lambda>response. loaded (GetTokenResponse response)))\<rparr>"

datatype get_token_list_request = GetTokenListRequest token_list_lookup_args "u64 request_args"

definition get_token_list_request_codec :: "'a wire \<Rightarrow> get_token_list_request codec" where
  "get_token_list_request_codec w =
     \<lparr>st = \<lambda>m. case m of GetTokenListRequest args iter_args \<Rightarrow> st (w_u16 w) 1 @ st (w_token_list_lookup_args w) args @ st (w_iter_args w) iter_args,
      ld = load (w_u16 w) (\<lambda>version. load (w_token_list_lookup_args w) (\<lambda>args. load (w_iter_args w) (\<lambda>iter_args. loaded (GetTokenListRequest args iter_args))))\<rparr>"

datatype 'a get_token_list_response = GetTokenListResponse "('a token_answer, u64) pagination"

definition get_token_list_response_codec :: "'a wire \<Rightarrow> 'a get_token_list_response codec" where
  "get_token_list_response_codec w =
     \<lparr>st = \<lambda>m. case m of GetTokenListResponse response \<Rightarrow> st (w_u16 w) 1 @ st (w_tokens w) response,
      ld = load (w_u16 w) (\<lambda>version. load (w_tokens w) (\<lambda>response. loaded (GetTokenListResponse response)))\<rparr>"

datatype get_address_lookup_request = GetAddressLookupRequest address_lookup_args "u64 request_args"

definition get_address_lookup_request_codec :: "'a wire \<Rightarrow> get_address_lookup_request codec" where
  "get_address_lookup_request_codec w =
     \<lparr>st = \<lambda>m. case m of GetAddressLookupRequest args iter_args \<Rightarrow> st (w_u16 w) 1 @ st (w_address_lookup_args w) args @ st (w_iter_args w) iter_args,
      ld = load (w_u16 w) (\<lambda>version. load (w_address_lookup_args w) (\<lambda>args. load (w_iter_args w) (\<lambda>iter_args. loaded (GetAddressLookupRequest args iter_args))))\<rparr>"

datatype get_address_lookup_response = GetAddressLookupResponse "(address_nft_info, u64) pagination"

definition get_address_lookup_response_codec :: "'a wire \<Rightarrow> get_address_lookup_response codec" where
  "get_address_lookup_response_codec w =
     \<lparr>st = \<lambda>m. case m of GetAddressLookupResponse response \<Rightarrow> st (w_u16 w) 1 @ st (w_nfts_of_tick w) response,
      ld = load (w_u16 w) (\<lambda>version. load (w_nfts_of_tick w) (\<lambda>response. loaded (GetAddressLookupResponse response)))\<rparr>"

datatype get_address_list_request = GetAddressListRequest address_list_lookup_args "tick_token_offset request_args"

definition get_address_list_request_codec :: "'a wire \<Rightarrow> get_address_list_request codec" where
  "get_address_list_request_codec w =
     \<lparr>st = \<lambda>m. case m of GetAddressListRequest args iter_args \<Rightarrow> st (w_u16 w) 1 @ st (w_address_list_lookup_args w) args @ st (w_tick_token_iter_args w) iter_args,
      ld = load (w_u16 w) (\<lambda>version. load (w_address_list_lookup_args w) (\<lambda>args. load (w_tick_token_iter_args w) (\<lambda>iter_args. loaded (GetAddressListRequest args iter_args))))\<rparr>"

datatype get_address_list_response = GetAddressListResponse "(address_nft_info, tick_token_offset) pagination"

definition get_address_list_response_codec :: "'a wire \<Rightarrow> get_address_list_response codec" where
  "get_address_list_response_codec w =
     \<lparr>st = \<lambda>m. case m of GetAddressListResponse response \<Rightarrow> st (w_u16 w) 1 @ st (w_nfts w) response,
      ld = load (w_u16 w) (\<lambda>version. load (w_nfts w) (\<lambda>response. loaded (GetAddressListResponse response)))\<rparr>"

datatype get_op_list_request = GetOpListRequest "u64 request_args"

definition get_op_list_request_codec :: "'a wire \<Rightarrow> get_op_list_request codec" where
  "get_op_list_request_codec w =
     \<lparr>st = \<lambda>m. case m of GetOpListRequest iter_args \<Rightarrow> st (w_u16 w) 1 @ st (w_iter_args w) iter_args,
      ld = load (w_u16 w) (\<lambda>version. load (w_iter_args w) (\<lambda>iter_args. loaded (GetOpListRequest iter_args)))\<rparr>"

datatype 'a get_op_list_response = GetOpListResponse "('a operation_meta_wrapper, u64) pagination"

definition get_op_list_response_codec :: "'a wire \<Rightarrow> 'a get_op_list_response codec" where
  "get_op_list_response_codec w =
     \<lparr>st = \<lambda>m. case m of GetOpListResponse response \<Rightarrow> st (w_u16 w) 1 @ st (w_operations w) response,
      ld = load (w_u16 w) (\<lambda>version. load (w_operations w) (\<lambda>response. loaded (GetOpListResponse response)))\<rparr>"

datatype get_op_by_score_request = GetOpByScoreRequest op_lookup_args

definition get_op_by_score_request_codec :: "'a wire \<Rightarrow> get_op_by_score_request codec" where
  "get_op_by_score_request_codec w =
     \<lparr>st = \<lambda>m. case m of GetOpByScoreRequest args \<Rightarrow> st (w_u16 w) 1 @ st (w_op_lookup_args w) args,
      ld = load (w_u16 w) (\<lambda>version. load (w_op_lookup_args w) (\<lambda>args. loaded (GetOpByScoreRequest args)))\<rparr>"

datatype 'a get_op_by_score_response = GetOpByScoreResponse "'a operation_meta_wrapper option"

definition get_op_by_score_response_codec :: "'a wire \<Rightarrow> 'a get_op_by_score_response codec" where
  "get_op_by_score_response_codec w =
     \<lparr>st = \<lambda>m. case m of GetOpByScoreResponse response \<Rightarrow> st (w_u16 w) 1 @ st (w_operation w) response,
      ld = load (w_u16 w) (\<lambda>version. load (w_operation w) (\<lambda>response. loaded (GetOpByScoreResponse response)))\<rparr>"

datatype get_op_by_txid_request = GetOpByTxidRequest tx_lookup_args

definition get_op_by_txid_request_codec :: "'a wire \<Rightarrow> get_op_by_txid_request codec" where
  "get_op_by_txid_request_codec w =
     \<lparr>st = \<lambda>m. case m of GetOpByTxidRequest args \<Rightarrow> st (w_u16 w) 1 @ st (w_tx_lookup_args w) args,
      ld = load (w_u16 w) (\<lambda>version. load (w_tx_lookup_args w) (\<lambda>args. loaded (GetOpByTxidRequest args)))\<rparr>"

datatype 'a get_op_by_txid_response = GetOpByTxidResponse "'a operation_meta_wrapper option"

definition get_op_by_txid_response_codec :: "'a wire \<Rightarrow> 'a get_op_by_txid_response codec" where
  "get_op_by_txid_response_codec w =
     \<lparr>st = \<lambda>m. case m of GetOpByTxidResponse response \<Rightarrow> st (w_u16 w) 1 @ st (w_operation w) response,
      ld = load (w_u16 w) (\<lambda>version. load (w_operation w) (\<lambda>response. loaded (GetOpByTxidResponse response)))\<rparr>"

datatype get_deployment_list_request = GetDeploymentListRequest "u64 request_args"

definition get_deployment_list_request_codec :: "'a wire \<Rightarrow> get_deployment_list_request codec" where
  "get_deployment_list_request_codec w =
     \<lparr>st = \<lambda>m. case m of GetDeploymentListRequest iter_args \<Rightarrow> st (w_u16 w) 1 @ st (w_iter_args w) iter_args,
      ld = load (w_u16 w) (\<lambda>version. load (w_iter_args w) (\<lambda>iter_args. loaded (GetDeploymentListRequest iter_args)))\<rparr>"

datatype 'a get_deployment_list_response = GetDeploymentListResponse "('a scored_deploy_answer, u64) pagination"

definition get_deployment_list_response_codec :: "'a wire \<Rightarrow> 'a get_deployment_list_response codec" where
  "get_deployment_list_response_codec w =
     \<lparr>st = \<lambda>m. case m of GetDeploymentListResponse response \<Rightarrow> st (w_u16 w) 1 @ st (w_deployments w) response,
      ld = load (w_u16 w) (\<lambda>version. load (w_deployments w) (\<lambda>response. loaded (GetDeploymentListResponse response)))\<rparr>"

datatype get_royalty_fee_request = GetRoyaltyFeeRequest royalty_fee_lookup_args

definition get_royalty_fee_request_codec :: "'a wire \<Rightarrow> get_royalty_fee_request codec" where
  "get_royalty_fee_request_codec w =
     \<lparr>st = \<lambda>m. case m of GetRoyaltyFeeRequest args \<Rightarrow> st (w_u16 w) 1 @ st (w_royalty_fee_lookup_args w) args,
      ld = load (w_u16 w) (\<lambda>version. load (w_royalty_fee_lookup_args w) (\<lambda>args. loaded (GetRoyaltyFeeRequest args)))\<rparr>"

datatype get_royalty_fee_response = GetRoyaltyFeeResponse "ustring option"

definition get_royalty_fee_response_codec :: "'a wire \<Rightarrow> get_royalty_fee_response codec" where
  "get_royalty_fee_response_codec w =
     \<lparr>st = \<lambda>m. case m of GetRoyaltyFeeResponse response \<Rightarrow> st (w_u16 w) 1 @ st (w_text w) response,
      ld = load (w_u16 w) (\<lambda>version. load (w_text w) (\<lambda>response. loaded (GetRoyaltyFeeResponse response)))\<rparr>"

datatype get_rejection_by_txid_request = GetRejectionByTxidRequest tx_lookup_args

definition get_rejection_by_txid_request_codec :: "'a wire \<Rightarrow> get_rejection_by_txid_request codec" where
  "get_rejection_by_txid_request_codec w =
     \<lparr>st = \<lambda>m. case m of GetRejectionByTxidRequest args \<Rightarrow> st (w_u16 w) 1 @ st (w_tx_lookup_args w) args,
      ld = load (w_u16 w) (\<lambda>version. load (w_tx_lookup_args w) (\<lambda>args. loaded (GetRejectionByTxidRequest args)))\<rparr>"

datatype get_rejection_by_txid_response = GetRejectionByTxidResponse "ustring option"

definition get_rejection_by_txid_response_codec :: "'a wire \<Rightarrow> get_rejection_by_txid_response codec" where
  "get_rejection_by_txid_response_codec w =
     \<lparr>st = \<lambda>m. case m of GetRejectionByTxidResponse response \<Rightarrow> st (w_u16 w) 1 @ st (w_text w) response,
      ld = load (w_u16 w) (\<lambda>version. load (w_text w) (\<lambda>response. loaded (GetRejectionByTxidResponse response)))\<rparr>"

datatype get_available_token_id_ranges_request = GetAvailableTokenIdRangesRequest tick

definition get_available_token_id_ranges_request_codec :: "'a wire \<Rightarrow> get_available_token_id_ranges_request codec" where
  "get_available_token_id_ranges_request_codec w =
     \<lparr>st = \<lambda>m. case m of GetAvailableTokenIdRangesRequest tick \<Rightarrow> st (w_u16 w) 1 @ st (w_tick w) tick,
      ld = load (w_u16 w) (\<lambda>version. load (w_tick w) (\<lambda>tick. loaded (GetAvailableTokenIdRangesRequest tick)))\<rparr>"

datatype get_available_token_id_ranges_response = GetAvailableTokenIdRangesResponse available_ranges

definition get_available_token_id_ranges_response_codec :: "'a wire \<Rightarrow> get_available_token_id_ranges_response codec" where
  "get_available_token_id_ranges_response_codec w =
     \<lparr>st = \<lambda>m. case m of GetAvailableTokenIdRangesResponse response \<Rightarrow> st (w_u16 w) 1 @ st (w_ranges w) response,
      ld = load (w_u16 w) (\<lambda>version. load (w_ranges w) (\<lambda>response. loaded (GetAvailableTokenIdRangesResponse response)))\<rparr>"

datatype get_reserved_tokens_request = GetReservedTokensRequest

definition get_reserved_tokens_request_codec :: "'a wire \<Rightarrow> get_reserved_tokens_request codec" where
  "get_reserved_tokens_request_codec w =
     \<lparr>st = \<lambda>m. st (w_u16 w) 1,
      ld = load (w_u16 w) (\<lambda>version. loaded GetReservedTokensRequest)\<rparr>"

datatype get_reserved_tokens_response = GetReservedTokensResponse "ustring list"

definition get_reserved_tokens_response_codec :: "'a wire \<Rightarrow> get_reserved_tokens_response codec" where
  "get_reserved_tokens_response_codec w =
     \<lparr>st = \<lambda>m. case m of GetReservedTokensResponse response \<Rightarrow> st (w_u16 w) 1 @ st (w_texts w) response,
      ld = load (w_u16 w) (\<lambda>version. load (w_texts w) (\<lambda>response. loaded (GetReservedTokensResponse response)))\<rparr>"

datatype get_token_history_request = GetTokenHistoryRequest token_lookup_args "u64 request_args"

definition get_token_history_request_codec :: "'a wire \<Rightarrow> get_token_history_request codec" where
  "get_token_history_request_codec w =
     \<lparr>st = \<lambda>m. case m of GetTokenHistoryRequest args iter_args \<Rightarrow> st (w_u16 w) 1 @ st (w_token_lookup_args w) args @ st (w_iter_args w) iter_args,
      ld = load (w_u16 w) (\<lambda>version. load (w_token_lookup_args w) (\<lambda>args. load (w_iter_args w) (\<lambda>iter_args. loaded (GetTokenHistoryRequest args iter_args))))\<rparr>"

datatype 'a get_token_history_response = GetTokenHistoryResponse "('a history_entity, u64) pagination"

definition get_token_history_response_codec :: "'a wire \<Rightarrow> 'a get_token_history_response codec" where
  "get_token_history_response_codec w =
     \<lparr>st = \<lambda>m. case m of GetTokenHistoryResponse entities \<Rightarrow> st (w_u16 w) 1 @ st (w_history w) entities,
      ld = load (w_u16 w) (\<lambda>version. load (w_history w) (\<lambda>entities. loaded (GetTokenHistoryResponse entities)))\<rparr>"

section \<open>Notifications\<close>

datatype ('a, 'k) notification =
    NotificationTest
  | NotificationAddress 'a
  | NotificationKrc20Operation 'k
  | NotificationKrc721Operation operation

definition notification_codec ::
  "u16 codec \<Rightarrow> byte codec \<Rightarrow> 'a codec \<Rightarrow> 'k codec \<Rightarrow> operation codec \<Rightarrow> ('a, 'k) notification codec" where
  "notification_codec cu16 cu8 caddress ckrc20 ckrc721 =
     \<lparr>st = \<lambda>n. st cu16 1 @
        (case n of
           NotificationTest \<Rightarrow> st cu8 0
         | NotificationAddress address \<Rightarrow> st cu8 1 @ st caddress address
         | NotificationKrc20Operation operation \<Rightarrow> st cu8 2 @ st ckrc20 operation
         | NotificationKrc721Operation operation \<Rightarrow> st cu8 3 @ st ckrc721 operation),
      ld = load cu16 (\<lambda>version. load cu8 (\<lambda>update_type.
        if update_type = 0 then loaded NotificationTest
        else if update_type = 1 then load caddress (\<lambda>address. loaded (NotificationAddress address))
        else if update_type = 2 then load ckrc20 (\<lambda>operation. loaded (NotificationKrc20Operation operation))
        else if update_type = 3 then load ckrc721 (\<lambda>operation. loaded (NotificationKrc721Operation operation))
        else (\<lambda>_. None)))\<rparr>"

lemma faithful_notification:
  assumes "faithful cu16 1" and "\<And>b. faithful cu8 b"
    and "case n of NotificationTest \<Rightarrow> True | NotificationAddress a \<Rightarrow> faithful caddress a
      | NotificationKrc20Operation k \<Rightarrow> faithful ckrc20 k | NotificationKrc721Operation p \<Rightarrow> faithful ckrc721 p"
  shows "faithful (notification_codec cu16 cu8 caddress ckrc20 ckrc721) n"
  using assms by (intro faithfulI; cases n) (simp_all add: notification_codec_def)

section \<open>Round trips\<close>

lemmas message_codec_defs =
  subscribe_request_codec_def
  subscribe_response_codec_def
  ping_request_codec_def
  ping_response_codec_def
  get_sync_status_request_codec_def
  get_sync_status_response_codec_def
  get_status_request_codec_def
  get_status_response_codec_def
  get_metrics_request_codec_def
  get_metrics_response_codec_def
  get_collection_list_request_codec_def
  get_collection_list_response_codec_def
  get_collection_request_codec_def
  get_collection_response_codec_def
  get_token_request_codec_def
  get_token_response_codec_def
  get_token_list_request_codec_def
  get_token_list_response_codec_def
  get_address_lookup_request_codec_def
  get_address_lookup_response_codec_def
  get_address_list_request_codec_def
  get_address_list_response_codec_def
  get_op_list_request_codec_def
  get_op_list_response_codec_def
  get_op_by_score_request_codec_def
  get_op_by_score_response_codec_def
  get_op_by_txid_request_codec_def
  get_op_by_txid_response_codec_def
  get_deployment_list_request_codec_def
  get_deployment_list_response_codec_def
  get_royalty_fee_request_codec_def
  get_royalty_fee_response_codec_def
  get_rejection_by_txid_request_codec_def
  get_rejection_by_txid_response_codec_def
  get_available_token_id_ranges_request_codec_def
  get_available_token_id_ranges_response_codec_def
  get_reserved_tokens_request_codec_def
  get_reserved_tokens_response_codec_def
  get_token_history_request_codec_def
  get_token_history_response_codec_def

lemma faithful_subscribe_request [message_codecs]:
  "faithful (w_u16 w) 1 \<Longrightarrow> faithful (w_subscription w) x \<Longrightarrow>
   faithful (subscribe_request_codec w) (SubscribeRequest x)"
  by (rule faithfulI) (simp add: subscribe_request_codec_def)

lemma faithful_subscribe_response [message_codecs]:
  "faithful (w_u16 w) 1 \<Longrightarrow>
   faithful (subscribe_response_codec w) SubscribeResponse"
  by (rule faithfulI) (simp add: subscribe_response_codec_def)

lemma faithful_ping_request [message_codecs]:
  "faithful (w_u16 w) 1 \<Longrightarrow>
   faithful (ping_request_codec w) PingRequest"
  by (rule faithfulI) (simp add: ping_request_codec_def)

lemma faithful_ping_response [message_codecs]:
  "faithful (w_u16 w) 1 \<Longrightarrow>
   faithful (ping_response_codec w) PingResponse"
  by (rule faithfulI) (simp add: ping_response_codec_def)

lemma faithful_get_sync_status_request [message_codecs]:
  "faithful (w_u16 w) 1 \<Longrightarrow>
   faithful (get_sync_status_request_codec w) GetSyncStatusRequest"
  by (rule faithfulI) (simp add: get_sync_status_request_codec_def)

lemma faithful_get_sync_status_response [message_codecs]:
  "faithful (w_u16 w) 1 \<Longrightarrow> faithful (w_bool w) x \<Longrightarrow> faithful (w_bool w) y \<Longrightarrow> faithful (w_bool w) z \<Longrightarrow>
   faithful (get_sync_status_response_codec w) (GetSyncStatusResponse x y z)"
  by (rule faithfulI) (simp add: get_sync_status_response_codec_def)

lemma faithful_get_status_request [message_codecs]:
  "faithful (w_u16 w) 1 \<Longrightarrow>
   faithful (get_status_request_codec w) GetStatusRequest"
  by (rule faithfulI) (simp add: get_status_request_codec_def)

lemma faithful_get_status_response [message_codecs]:
  "faithful (w_u16 w) 1 \<Longrightarrow> faithful (w_indexer_status w) x \<Longrightarrow>
   faithful (get_status_response_codec w) (GetStatusResponse x)"
  by (rule faithfulI) (simp add: get_status_response_codec_def)

lemma faithful_get_metrics_request [message_codecs]:
  "faithful (w_u16 w) 1 \<Longrightarrow>
   faithful (get_metrics_request_codec w) GetMetricsRequest"
  by (rule faithfulI) (simp add: get_metrics_request_codec_def)

lemma faithful_get_metrics_response [message_codecs]:
  "faithful (w_u16 w) 1 \<Longrightarrow> faithful (w_u64 w) x \<Longrightarrow>
   faithful (get_metrics_response_codec w) (GetMetricsResponse x)"
  by (rule faithfulI) (simp add: get_metrics_response_codec_def)

lemma faithful_get_collection_list_request [message_codecs]:
  "faithful (w_u16 w) 1 \<Longrightarrow> faithful (w_iter_args w) x \<Longrightarrow>
   faithful (get_collection_list_request_codec w) (GetCollectionListRequest x)"
  by (rule faithfulI) (simp add: get_collection_list_request_codec_def)

lemma faithful_get_collection_list_response [message_codecs]:
  "faithful (w_u16 w) 1 \<Longrightarrow> faithful (w_collections w) x \<Longrightarrow>
   faithful (get_collection_list_response_codec w) (GetCollectionListResponse x)"
  by (rule faithfulI) (simp add: get_collection_list_response_codec_def)

lemma faithful_get_collection_request [message_codecs]:
  "faithful (w_u16 w) 1 \<Longrightarrow> faithful (w_collection_lookup_args w) x \<Longrightarrow>
   faithful (get_collection_request_codec w) (GetCollectionRequest x)"
  by (rule faithfulI) (simp add: get_collection_request_codec_def)

lemma faithful_get_collection_response [message_codecs]:
  "faithful (w_u16 w) 1 \<Longrightarrow> faithful (w_collection w) x \<Longrightarrow>
   faithful (get_collection_response_codec w) (GetCollectionResponse x)"
  by (rule faithfulI) (simp add: get_collection_response_codec_def)

lemma faithful_get_token_request [message_codecs]:
  "faithful (w_u16 w) 1 \<Longrightarrow> faithful (w_token_lookup_args w) x \<Longrightarrow>
   faithful (get_token_request_codec w) (GetTokenRequest x)"
  by (rule faithfulI) (simp add: get_token_request_codec_def)

lemma faithful_get_token_response [message_codecs]:
  "faithful (w_u16 w) 1 \<Longrightarrow> faithful (w_token w) x \<Longrightarrow>
   faithful (get_token_response_codec w) (GetTokenResponse x)"
  by (rule faithfulI) (simp add: get_token_response_codec_def)

lemma faithful_get_token_list_request [message_codecs]:
  "faithful (w_u16 w) 1 \<Longrightarrow> faithful (w_token_list_lookup_args w) x \<Longrightarrow> faithful (w_iter_args w) y \<Longrightarrow>
   faithful (get_token_list_request_codec w) (GetTokenListRequest x y)"
  by (rule faithfulI) (simp add: get_token_list_request_codec_def)

lemma faithful_get_token_list_response [message_codecs]:
  "faithful (w_u16 w) 1 \<Longrightarrow> faithful (w_tokens w) x \<Longrightarrow>
   faithful (get_token_list_response_codec w) (GetTokenListResponse x)"
  by (rule faithfulI) (simp add: get_token_list_response_codec_def)

lemma faithful_get_address_lookup_request [message_codecs]:
  "faithful (w_u16 w) 1 \<Longrightarrow> faithful (w_address_lookup_args w) x \<Longrightarrow> faithful (w_iter_args w) y \<Longrightarrow>
   faithful (get_address_lookup_request_codec w) (GetAddressLookupRequest x y)"
  by (rule faithfulI) (simp add: get_address_lookup_request_codec_def)

lemma faithful_get_address_lookup_response [message_codecs]:
  "faithful (w_u16 w) 1 \<Longrightarrow> faithful (w_nfts_of_tick w) x \<Longrightarrow>
   faithful (get_address_lookup_response_codec w) (GetAddressLookupResponse x)"
  by (rule faithfulI) (simp add: get_address_lookup_response_codec_def)

lemma faithful_get_address_list_request [message_codecs]:
  "faithful (w_u16 w) 1 \<Longrightarrow> faithful (w_address_list_lookup_args w) x \<Longrightarrow> faithful (w_tick_token_iter_args w) y \<Longrightarrow>
   faithful (get_address_list_request_codec w) (GetAddressListRequest x y)"
  by (rule faithfulI) (simp add: get_address_list_request_codec_def)

lemma faithful_get_address_list_response [message_codecs]:
  "faithful (w_u16 w) 1 \<Longrightarrow> faithful (w_nfts w) x \<Longrightarrow>
   faithful (get_address_list_response_codec w) (GetAddressListResponse x)"
  by (rule faithfulI) (simp add: get_address_list_response_codec_def)

lemma faithful_get_op_list_request [message_codecs]:
  "faithful (w_u16 w) 1 \<Longrightarrow> faithful (w_iter_args w) x \<Longrightarrow>
   faithful (get_op_list_request_codec w) (GetOpListRequest x)"
  by (rule faithfulI) (simp add: get_op_list_request_codec_def)

lemma faithful_get_op_list_response [message_codecs]:
  "faithful (w_u16 w) 1 \<Longrightarrow> faithful (w_operations w) x \<Longrightarrow>
   faithful (get_op_list_response_codec w) (GetOpListResponse x)"
  by (rule faithfulI) (simp add: get_op_list_response_codec_def)

lemma faithful_get_op_by_score_request [message_codecs]:
  "faithful (w_u16 w) 1 \<Longrightarrow> faithful (w_op_lookup_args w) x \<Longrightarrow>
   faithful (get_op_by_score_request_codec w) (GetOpByScoreRequest x)"
  by (rule faithfulI) (simp add: get_op_by_score_request_codec_def)

lemma faithful_get_op_by_score_response [message_codecs]:
  "faithful (w_u16 w) 1 \<Longrightarrow> faithful (w_operation w) x \<Longrightarrow>
   faithful (get_op_by_score_response_codec w) (GetOpByScoreResponse x)"
  by (rule faithfulI) (simp add: get_op_by_score_response_codec_def)

lemma faithful_get_op_by_txid_request [message_codecs]:
  "faithful (w_u16 w) 1 \<Longrightarrow> faithful (w_tx_lookup_args w) x \<Longrightarrow>
   faithful (get_op_by_txid_request_codec w) (GetOpByTxidRequest x)"
  by (rule faithfulI) (simp add: get_op_by_txid_request_codec_def)

lemma faithful_get_op_by_txid_response [message_codecs]:
  "faithful (w_u16 w) 1 \<Longrightarrow> faithful (w_operation w) x \<Longrightarrow>
   faithful (get_op_by_txid_response_codec w) (GetOpByTxidResponse x)"
  by (rule faithfulI) (simp add: get_op_by_txid_response_codec_def)

lemma faithful_get_deployment_list_request [message_codecs]:
  "faithful (w_u16 w) 1 \<Longrightarrow> faithful (w_iter_args w) x \<Longrightarrow>
   faithful (get_deployment_list_request_codec w) (GetDeploymentListRequest x)"
  by (rule faithfulI) (simp add: get_deployment_list_request_codec_def)

lemma faithful_get_deployment_list_response [message_codecs]:
  "faithful (w_u16 w) 1 \<Longrightarrow> faithful (w_deployments w) x \<Longrightarrow>
   faithful (get_deployment_list_response_codec w) (GetDeploymentListResponse x)"
  by (rule faithfulI) (simp add: get_deployment_list_response_codec_def)

lemma faithful_get_royalty_fee_request [message_codecs]:
  "faithful (w_u16 w) 1 \<Longrightarrow> faithful (w_royalty_fee_lookup_args w) x \<Longrightarrow>
   faithful (get_royalty_fee_request_codec w) (GetRoyaltyFeeRequest x)"
  by (rule faithfulI) (simp add: get_royalty_fee_request_codec_def)

lemma faithful_get_royalty_fee_response [message_codecs]:
  "faithful (w_u16 w) 1 \<Longrightarrow> faithful (w_text w) x \<Longrightarrow>
   faithful (get_royalty_fee_response_codec w) (GetRoyaltyFeeResponse x)"
  by (rule faithfulI) (simp add: get_royalty_fee_response_codec_def)

lemma faithful_get_rejection_by_txid_request [message_codecs]:
  "faithful (w_u16 w) 1 \<Longrightarrow> faithful (w_tx_lookup_args w) x \<Longrightarrow>
   faithful (get_rejection_by_txid_request_codec w) (GetRejectionByTxidRequest x)"
  by (rule faithfulI) (simp add: get_rejection_by_txid_request_codec_def)

lemma faithful_get_rejection_by_txid_response [message_codecs]:
  "faithful (w_u16 w) 1 \<Longrightarrow> faithful (w_text w) x \<Longrightarrow>
   faithful (get_rejection_by_txid_response_codec w) (GetRejectionByTxidResponse x)"
  by (rule faithfulI) (simp add: get_rejection_by_txid_response_codec_def)

lemma faithful_get_available_token_id_ranges_request [message_codecs]:
  "faithful (w_u16 w) 1 \<Longrightarrow> faithful (w_tick w) x \<Longrightarrow>
   faithful (get_available_token_id_ranges_request_codec w) (GetAvailableTokenIdRangesRequest x)"
  by (rule faithfulI) (simp add: get_available_token_id_ranges_request_codec_def)

lemma faithful_get_available_token_id_ranges_response [message_codecs]:
  "faithful (w_u16 w) 1 \<Longrightarrow> faithful (w_ranges w) x \<Longrightarrow>
   faithful (get_available_token_id_ranges_response_codec w) (GetAvailableTokenIdRangesResponse x)"
  by (rule faithfulI) (simp add: get_available_token_id_ranges_response_codec_def)

lemma faithful_get_reserved_tokens_request [message_codecs]:
  "faithful (w_u16 w) 1 \<Longrightarrow>
   faithful (get_reserved_tokens_request_codec w) GetReservedTokensRequest"
  by (rule faithfulI) (simp add: get_reserved_tokens_request_codec_def)

lemma faithful_get_reserved_tokens_response [message_codecs]:
  "faithful (w_u16 w) 1 \<Longrightarrow> faithful (w_texts w) x \<Longrightarrow>
   faithful (get_reserved_tokens_response_codec w) (GetReservedTokensResponse x)"
  by (rule faithfulI) (simp add: get_reserved_tokens_response_codec_def)

lemma faithful_get_token_history_request [message_codecs]:
  "faithful (w_u16 w) 1 \<Longrightarrow> faithful (w_token_lookup_args w) x \<Longrightarrow> faithful (w_iter_args w) y \<Longrightarrow>
   faithful (get_token_history_request_codec w) (GetTokenHistoryRequest x y)"
  by (rule faithfulI) (simp add: get_token_history_request_codec_def)

lemma faithful_get_token_history_response [message_codecs]:
  "faithful (w_u16 w) 1 \<Longrightarrow> faithful (w_history w) x \<Longrightarrow>
   faithful (get_token_history_response_codec w) (GetTokenHistoryResponse x)"
  by (rule faithfulI) (simp add: get_token_history_response_codec_def)

end
