(* ===== verification/Generator.thy ===== *)
theory Generator
  imports ArchiveProperties Messages
begin

text \<open>
  Snapshots over the network. The generator of a running indexer (\<^verbatim>\<open>snapshot/src/generator.rs\<close>, \<^verbatim>\<open>phase.rs\<close>,
  \<^verbatim>\<open>status.rs\<close>) archives its database on request and serves the file; the receiver (\<^verbatim>\<open>receiver.rs\<close>) asks the
  servers of its network in turn, waits for an archive and downloads it, and the daemon restores it
  (\<^verbatim>\<open>krc721d.rs\<close>). The server is a state with steps for requests, for the tasks it has started and for the rest of
  the indexer; the connection of the client to the servers is an argument. The number shown as the progress is
  left out, and so are the headers of the answers.
\<close>

section \<open>Phases and answers\<close>

datatype phase = PhaseNone | Archiving | Restoring | Ready (ph_archive: ustring) (ph_daa_score: u64)

record status =
  ss_daa_score :: u64
  ss_sync :: bool
  ss_phase :: phase

text \<open>A file comes with its length and may break off.\<close>

datatype body = Message string | PhaseBody phase | StatusBody status | FileBody "nat option" bytes bool

record reply =
  rp_status :: nat
  rp_body :: body

definition reply :: "nat \<Rightarrow> body \<Rightarrow> reply" where
  "reply code body = \<lparr>rp_status = code, rp_body = body\<rparr>"

text \<open>\<^verbatim>\<open>Path::join\<close>: an absolute path replaces the first one.\<close>

definition path_join :: "path \<Rightarrow> ustring \<Rightarrow> path" where
  "path_join p name = (if name \<noteq> [] \<and> hd name = 47 then name else p @ [47] @ name)"

definition in_folder :: "path \<Rightarrow> path \<Rightarrow> bool" where
  "in_folder folder p = prefix (folder @ [47]) p"

section \<open>The generator\<close>

text \<open>
  A task of the pool: before it reads the score, before it archives, and after. Handlers that have found no
  archive in progress are counted until they set the phase.
\<close>

datatype job = Spawned | Named ustring u64 | Archived ustring u64

record generator =
  ge_folder :: path
  ge_phase :: phase
  ge_check_headers :: bool
  ge_synced :: bool
  ge_daa_score :: u64
  ge_snapshots :: "db_snapshot list"
  ge_world :: world
  ge_checked :: nat
  ge_jobs :: "job list"

definition generator_new :: "path \<Rightarrow> db_snapshot list \<Rightarrow> world \<Rightarrow> generator" where
  "generator_new folder snapshots w =
     \<lparr>ge_folder = folder, ge_phase = PhaseNone, ge_check_headers = False, ge_synced = False, ge_daa_score = 0,
      ge_snapshots = snapshots, ge_world = w, ge_checked = 0, ge_jobs = []\<rparr>"

record archiver =
  ar_deflate :: deflate_library
  ar_sha256 :: "bytes \<Rightarrow> bytes"
  ar_workers :: nat

definition SNAPSHOT_API_KEY :: ustring where
  "SNAPSHOT_API_KEY = ascii ''bcdbc3956ffccfef6cca6ea2860cabc4''"

definition check_headers :: "generator \<Rightarrow> ustring option \<Rightarrow> bool" where
  "check_headers g key = (\<not> ge_check_headers g \<or> key = Some SNAPSHOT_API_KEY)"

definition archive_name :: "u64 \<Rightarrow> ustring" where
  "archive_name daa_score = ascii ''snapshot-'' @ u64_to_string daa_score @ ascii ''.krc721''"

text \<open>\<^verbatim>\<open>snapshot_generate\<close> up to the test of \<^verbatim>\<open>generate\<close>, and what follows it.\<close>

definition snapshot_generate :: "ustring option \<Rightarrow> generator \<Rightarrow> reply option \<times> generator" where
  "snapshot_generate key g =
     (if \<not> check_headers g key then (Some (reply 401 (Message ''Unauthorized'')), g)
      else if \<not> ge_synced g then (Some (reply 500 (Message ''Indexer is not synced'')), g)
      else if ge_phase g \<noteq> PhaseNone then (Some (reply 200 (PhaseBody (ge_phase g))), g)
      else (None, g\<lparr>ge_checked := ge_checked g + 1\<rparr>))"

definition generate_start :: "generator \<Rightarrow> reply option \<times> generator" where
  "generate_start g =
     (if ge_checked g = 0 then (None, g)
      else (Some (reply 200 (PhaseBody Archiving)),
            g\<lparr>ge_checked := ge_checked g - 1, ge_phase := Archiving, ge_jobs := ge_jobs g @ [Spawned]\<rparr>))"

definition job_snapshot :: "generator \<Rightarrow> ustring \<Rightarrow> snapshot" where
  "job_snapshot g archive = snapshot_default\<lparr>sn_archive_filename := Some (path_join (ge_folder g) archive),
     sn_skip_partitions := Some [ascii ''notification_queue'']\<rparr>"

definition job_step :: "archiver \<Rightarrow> nat \<Rightarrow> generator \<Rightarrow> generator" where
  "job_step ar i g =
     (if i \<ge> length (ge_jobs g) then g
      else case ge_jobs g ! i of
        Spawned \<Rightarrow> g\<lparr>ge_jobs := (ge_jobs g)[i := Named (archive_name (ge_daa_score g)) (ge_daa_score g)]\<rparr>
      | Named archive daa_score \<Rightarrow>
          (let (result, w) = archive_snapshots (ar_deflate ar) (ar_sha256 ar) (ar_workers ar) (job_snapshot g archive)
                 (ge_snapshots g) (ge_world g);
               g = g\<lparr>ge_world := w, ge_jobs := (ge_jobs g)[i := Archived archive daa_score]\<rparr>
           in case result of Inr header \<Rightarrow> g | Inl err \<Rightarrow> g\<lparr>ge_phase := PhaseNone\<rparr>)
      | Archived archive daa_score \<Rightarrow>
          g\<lparr>ge_phase := Ready archive daa_score, ge_jobs := take i (ge_jobs g) @ drop (Suc i) (ge_jobs g)\<rparr>)"

text \<open>The folder is removed with all that is in it and created again.\<close>

definition reset :: "generator \<Rightarrow> generator" where
  "reset g = g\<lparr>ge_phase := PhaseNone,
     ge_world := (ge_world g)\<lparr>w_files := \<lambda>p. if in_folder (ge_folder g) p then None else w_files (ge_world g) p\<rparr>\<rparr>"

definition snapshot_reset :: "generator \<Rightarrow> reply \<times> generator" where
  "snapshot_reset g = (reply 200 (Message ''Resetting snapshot...''), reset g)"

definition snapshot_status :: "generator \<Rightarrow> reply" where
  "snapshot_status g =
     reply 200 (StatusBody \<lparr>ss_daa_score = ge_daa_score g, ss_sync = ge_synced g, ss_phase = ge_phase g\<rparr>)"

definition snapshot_download :: "ustring \<Rightarrow> generator \<Rightarrow> reply" where
  "snapshot_download filename g =
     (case ge_phase g of
        Ready archive _ \<Rightarrow>
          if archive \<noteq> filename then reply 404 (Message ''Archive not found'')
          else (case w_files (ge_world g) (path_join (ge_folder g) archive) of
                  None \<Rightarrow> reply 404 (Message ''Archive data file not found'')
                | Some bs \<Rightarrow> reply 200 (FileBody (Some (length bs)) bs True))
      | _ \<Rightarrow> reply 405 (Message ''Snapshot is not ready''))"

datatype event =
    RequestGenerate "ustring option" | StartGeneration | RequestReset | RequestStatus | RequestDownload ustring
  | JobStep nat | SyncedChanges bool | DaaScoreChanges u64 | DatabaseChanges "db_snapshot list"

fun server_step :: "archiver \<Rightarrow> event \<Rightarrow> generator \<Rightarrow> reply option \<times> generator" where
  "server_step ar (RequestGenerate key) g = snapshot_generate key g"
| "server_step ar StartGeneration g = generate_start g"
| "server_step ar RequestReset g = (let (r, g') = snapshot_reset g in (Some r, g'))"
| "server_step ar RequestStatus g = (Some (snapshot_status g), g)"
| "server_step ar (RequestDownload filename) g = (Some (snapshot_download filename g), g)"
| "server_step ar (JobStep i) g = (None, job_step ar i g)"
| "server_step ar (SyncedChanges b) g = (None, g\<lparr>ge_synced := b\<rparr>)"
| "server_step ar (DaaScoreChanges s) g = (None, g\<lparr>ge_daa_score := s\<rparr>)"
| "server_step ar (DatabaseChanges snapshots) g = (None, g\<lparr>ge_snapshots := snapshots\<rparr>)"

definition server_run :: "archiver \<Rightarrow> event list \<Rightarrow> generator \<Rightarrow> generator" where
  "server_run ar es g = fold (\<lambda>e g. snd (server_step ar e g)) es g"

lemma server_run_simps [simp]:
  "server_run ar [] g = g" "server_run ar (e # es) g = server_run ar es (snd (server_step ar e g))"
  by (simp_all add: server_run_def)

section \<open>The receiver\<close>

datatype request = GetGenerate | GetStatus | GetReset | GetDownload ustring

datatype receive_error =
    Reqwest | RequestFailed nat | ContentLengthMissing | NotSynced u64 | UnexpectedPhase phase
  | NoServersConfigured network | NoServersAvailable

text \<open>The connection: an answer or an error of the transport, and what becomes of the servers meanwhile.\<close>

type_synonym 'w connection = "ustring \<Rightarrow> request \<Rightarrow> 'w \<Rightarrow> reply option \<times> 'w"

definition received :: "(body \<Rightarrow> 'a option) \<Rightarrow> reply option \<Rightarrow> receive_error + 'a" where
  "received read answer =
     (case answer of
        None \<Rightarrow> Inl Reqwest
      | Some r \<Rightarrow>
          if \<not> (200 \<le> rp_status r \<and> rp_status r < 300) then Inl (RequestFailed (rp_status r))
          else (case read (rp_body r) of None \<Rightarrow> Inl Reqwest | Some x \<Rightarrow> Inr x))"

fun as_phase :: "body \<Rightarrow> phase option" where
  "as_phase (PhaseBody p) = Some p" | "as_phase _ = None"

fun as_status :: "body \<Rightarrow> status option" where
  "as_status (StatusBody s) = Some s" | "as_status _ = None"

definition request_generate :: "'w connection \<Rightarrow> ustring \<Rightarrow> 'w \<Rightarrow> (receive_error + phase) \<times> 'w" where
  "request_generate ask server w = (let (r, w') = ask server GetGenerate w in (received as_phase r, w'))"

definition request_status :: "'w connection \<Rightarrow> ustring \<Rightarrow> 'w \<Rightarrow> (receive_error + status) \<times> 'w" where
  "request_status ask server w = (let (r, w') = ask server GetStatus w in (received as_status r, w'))"

definition request_phase :: "'w connection \<Rightarrow> ustring \<Rightarrow> 'w \<Rightarrow> (receive_error + phase) \<times> 'w" where
  "request_phase ask server w =
     (let (r, w') = ask server GetStatus w in (map_sum id ss_phase (received as_status r), w'))"

definition request_reset :: "'w connection \<Rightarrow> ustring \<Rightarrow> 'w \<Rightarrow> (receive_error + unit) \<times> 'w" where
  "request_reset ask server w = (let (r, w') = ask server GetReset w in (received (\<lambda>_. Some ()) r, w'))"

text \<open>The file is created under the name the server gave, and filled as the parts of the answer come.\<close>

definition download ::
  "'w connection \<Rightarrow> path \<Rightarrow> ustring \<Rightarrow> ustring \<Rightarrow> 'w \<times> world \<Rightarrow> (receive_error + path) \<times> 'w \<times> world" where
  "download ask folder server filename w =
     (let (r, w1) = ask server (GetDownload filename) (fst w) in
      case received Some r of
        Inl e \<Rightarrow> (Inl e, w1, snd w)
      | Inr (FileBody total_size data complete) \<Rightarrow>
          if total_size = None then (Inl ContentLengthMissing, w1, snd w)
          else (let target_path = path_join folder filename; w2 = write_file target_path data (snd w)
                in (if complete then Inr target_path else Inl Reqwest, w1, w2))
      | Inr _ \<Rightarrow> (Inl ContentLengthMissing, w1, snd w))"

definition daa_score_per_second :: "network \<Rightarrow> u64" where
  "daa_score_per_second network = (case network of Mainnet \<Rightarrow> 10 | Testnet10 \<Rightarrow> 10)"

definition daa_score_per_hour :: "network \<Rightarrow> u64" where
  "daa_score_per_hour network = daa_score_per_second network * 3600"

definition SNAPSHOT_TIMEOUT_HOURS :: u64 where "SNAPSHOT_TIMEOUT_HOURS = 12"

definition ensure_available :: "'w connection \<Rightarrow> network \<Rightarrow> ustring \<Rightarrow> 'w \<Rightarrow> (receive_error + phase) \<times> 'w" where
  "ensure_available ask network server w =
     (case request_status ask server w of
        (Inl e, w1) \<Rightarrow> (Inl e, w1)
      | (Inr status, w1) \<Rightarrow>
          if \<not> ss_sync status then (Inl (NotSynced (ss_daa_score status)), w1)
          else (case ss_phase status of
            Ready archive daa_score \<Rightarrow>
              (let daa_score_timeout = daa_score_per_hour network * SNAPSHOT_TIMEOUT_HOURS in
               if sat_sub (ss_daa_score status) daa_score_timeout > daa_score then
                 (case request_reset ask server w1 of
                    (Inl e, w2) \<Rightarrow> (Inl e, w2)
                  | (Inr _, w2) \<Rightarrow>
                      (case request_phase ask server w2 of
                         (Inr PhaseNone, w3) \<Rightarrow> (Inr PhaseNone, w3)
                       | (Inr phase, w3) \<Rightarrow> (Inl (UnexpectedPhase phase), w3)
                       | (Inl e, w3) \<Rightarrow> (Inl e, w3)))
               else (Inr (Ready archive daa_score), w1))
          | phase \<Rightarrow> (Inr phase, w1)))"

text \<open>The loop that waits for an archive: the name of the archive, or None when the server is given up. It need not
  end, and then its value is None.\<close>

partial_function (option) poll_loop :: "'w connection \<Rightarrow> ustring \<Rightarrow> 'w \<Rightarrow> (ustring option \<times> 'w) option" where
  "poll_loop ask server w =
     (case request_status ask server w of
        (Inl e, w') \<Rightarrow> Some (None, w')
      | (Inr status, w') \<Rightarrow>
          (case ss_phase status of
             Archiving \<Rightarrow> poll_loop ask server w'
           | Ready archive daa_score \<Rightarrow> Some (Some archive, w')
           | _ \<Rightarrow> Some (None, w')))"

fun fetch_from ::
  "'w connection \<Rightarrow> network \<Rightarrow> path \<Rightarrow> ustring list \<Rightarrow> 'w \<times> world \<Rightarrow> ((receive_error + path) \<times> 'w \<times> world) option" where
  "fetch_from ask network folder [] w = Some (Inl NoServersAvailable, w)"
| "fetch_from ask network folder (server # servers) w =
     (case ensure_available ask network server (fst w) of
        (Inl e, w1) \<Rightarrow> fetch_from ask network folder servers (w1, snd w)
      | (Inr (Ready archive daa_score), w1) \<Rightarrow> Some (download ask folder server archive (w1, snd w))
      | (Inr PhaseNone, w1) \<Rightarrow>
          (case request_generate ask server w1 of
             (Inl e, w2) \<Rightarrow> fetch_from ask network folder servers (w2, snd w)
           | (Inr _, w2) \<Rightarrow>
               (case poll_loop ask server w2 of
                  None \<Rightarrow> None
                | Some (None, w3) \<Rightarrow> fetch_from ask network folder servers (w3, snd w)
                | Some (Some archive, w3) \<Rightarrow> Some (download ask folder server archive (w3, snd w))))
      | (Inr phase, w1) \<Rightarrow> fetch_from ask network folder servers (w1, snd w))"

definition fetch ::
  "'w connection \<Rightarrow> (network \<Rightarrow> ustring list option) \<Rightarrow> network \<Rightarrow> path \<Rightarrow> 'w \<times> world \<Rightarrow>
   ((receive_error + path) \<times> 'w \<times> world) option" where
  "fetch ask servers network folder w =
     (case servers network of
        None \<Rightarrow> Some (Inl (NoServersConfigured network), w)
      | Some ss \<Rightarrow> fetch_from ask network folder ss w)"

section \<open>The daemon\<close>

datatype sync_outcome =
  DatabaseExists | FetchFailed receive_error | DryRun path | RestoreFailed archive_error | SyncComplete header

definition server_map :: "(network \<Rightarrow> ustring) \<Rightarrow> network \<Rightarrow> ustring option \<Rightarrow> network \<Rightarrow> ustring list option" where
  "server_map default_server network server =
     (case server of
        Some s \<Rightarrow> [network \<mapsto> [s]]
      | None \<Rightarrow> (\<lambda>n. Some [default_server n]))"

text \<open>\<^verbatim>\<open>Mode::Sync\<close>: the folder of the database and the folder of the downloads are arguments.\<close>

definition run_sync ::
  "archiver \<Rightarrow> 'w connection \<Rightarrow> (network \<Rightarrow> ustring) \<Rightarrow> network \<Rightarrow> path \<Rightarrow> path \<Rightarrow> bool \<Rightarrow> ustring option \<Rightarrow> 'w \<times> world \<Rightarrow>
   (sync_outcome \<times> 'w \<times> world) option" where
  "run_sync ar ask default_server network db_folder sync_folder dry_run server w =
     (if \<not> dry_run \<and> path_exists (snd w) db_folder then Some (DatabaseExists, w)
      else (case fetch ask (server_map default_server network server) network sync_folder w of
        None \<Rightarrow> None
      | Some (Inl e, w') \<Rightarrow> Some (FetchFailed e, w')
      | Some (Inr filename, w1, w2) \<Rightarrow>
          if dry_run then Some (DryRun filename, w1, w2)
          else (case restore (ar_deflate ar) (ar_sha256 ar)
                    (snapshot_default\<lparr>sn_database_root := Some db_folder, sn_archive_filename := Some filename\<rparr>) w2 of
                  (Inr header, w3) \<Rightarrow> Some (SyncComplete header, w1, w3)
                | (Inl err, w3) \<Rightarrow> Some (RestoreFailed err, w1, w3))))"

end
