(* ===== verification/GeneratorProperties.thy ===== *)
theory GeneratorProperties
  imports Generator
begin

text \<open>
  What holds of the exchange of snapshots: which files a server gives away, what becomes of an archive that fails,
  and that a client which synchronises from an idle server ends with its database.
\<close>

section \<open>Names of archives\<close>

lemma archive_name_flat: "47 \<notin> set (archive_name d)" "archive_name d \<noteq> []"
proof -
  have "47 \<notin> set (dec_digits n)" for n using dec_digits_chars [of 47 n] by auto
  then show "47 \<notin> set (archive_name d)" by (simp add: archive_name_def u64_to_string_def ascii_def)
  show "archive_name d \<noteq> []" by (simp add: archive_name_def ascii_def)
qed

lemma path_join_archive: "path_join p (archive_name d) = p @ [47] @ archive_name d"
  using archive_name_flat [of d] by (metis hd_in_set path_join_def)

fun job_named :: "job \<Rightarrow> bool" where
  "job_named Spawned = True"
| "job_named (Named a d) = (a = archive_name d)"
| "job_named (Archived a d) = (a = archive_name d)"

definition named :: "path \<Rightarrow> generator \<Rightarrow> bool" where
  "named folder g \<longleftrightarrow> ge_folder g = folder \<and> (\<forall>a d. ge_phase g = Ready a d \<longrightarrow> a = archive_name d) \<and>
     (\<forall>j \<in> set (ge_jobs g). job_named j)"

lemma named_new: "named folder (generator_new folder snapshots w)"
  by (simp add: named_def generator_new_def)

lemma named_job_step: "named folder g \<Longrightarrow> named folder (job_step ar i g)"
proof (cases "i < length (ge_jobs g)")
  case True
  assume n: "named folder g"
  with True have j: "job_named (ge_jobs g ! i)" by (simp add: named_def)
  have t: "\<forall>j \<in> set (take i (ge_jobs g) @ drop (Suc i) (ge_jobs g)). job_named j"
    using n by (auto simp: named_def dest: in_set_takeD in_set_dropD)
  have u: "named folder (g\<lparr>ge_jobs := (ge_jobs g)[i := j]\<rparr>)" if "job_named j" for j
    using n that set_update_subset_insert [of "ge_jobs g" i j] by (auto simp: named_def)
  have u': "named folder (g\<lparr>ge_world := w, ge_jobs := (ge_jobs g)[i := j]\<rparr>)" if "job_named j" for j w
    using n that set_update_subset_insert [of "ge_jobs g" i j] by (auto simp: named_def)
  have r: "named folder (h\<lparr>ge_phase := PhaseNone\<rparr>)" if "named folder h" for h
    using that by (simp add: named_def)
  show ?thesis
  proof (cases "ge_jobs g ! i")
    case Spawned
    then show ?thesis using True u by (simp add: job_step_def)
  next
    case (Named a d)
    obtain x w where "archive_snapshots (ar_deflate ar) (ar_sha256 ar) (ar_workers ar) (job_snapshot g a) (ge_snapshots g)
        (ge_world g) = (x, w)" by (metis surj_pair)
    then have "job_step ar i g = g\<lparr>ge_world := w, ge_jobs := (ge_jobs g)[i := Archived a d]\<rparr> \<or>
        job_step ar i g = g\<lparr>ge_world := w, ge_jobs := (ge_jobs g)[i := Archived a d]\<rparr>\<lparr>ge_phase := PhaseNone\<rparr>"
      using True Named by (cases x) (simp_all add: job_step_def)
    moreover have "named folder (g\<lparr>ge_world := w, ge_jobs := (ge_jobs g)[i := Archived a d]\<rparr>)"
      by (rule u') (use j Named in simp)
    ultimately show ?thesis using r by metis
  next
    case (Archived a d)
    then show ?thesis using True n j t by (simp add: job_step_def named_def)
  qed
qed (simp add: job_step_def)

lemma named_step: "named folder g \<Longrightarrow> named folder (snd (server_step ar e g))"
  by (cases e)
    (auto simp: named_job_step, auto simp: snapshot_generate_def generate_start_def snapshot_reset_def reset_def named_def)

lemma named_run: "named folder g \<Longrightarrow> named folder (server_run ar es g)"
  by (induction es arbitrary: g) (simp_all add: named_step)

text \<open>C33: Only archives are given away: whatever requests and other steps a server has been through, a file that it
  sends is the one of the present phase, under a name that the server has made, in its folder.\<close>

theorem only_archives_are_served:
  assumes "g = server_run ar es (generator_new folder snapshots w)"
    and "rp_body (snapshot_download filename g) = FileBody len data complete"
  shows "\<exists>daa_score. ge_phase g = Ready filename daa_score \<and> filename = archive_name daa_score \<and> 47 \<notin> set filename \<and>
    w_files (ge_world g) (folder @ [47] @ filename) = Some data \<and> len = Some (length data) \<and> complete"
proof -
  have n: "named folder g" unfolding assms(1) by (intro named_run named_new)
  obtain a d where p: "ge_phase g = Ready a d" "a = filename"
    using assms(2) by (auto simp: snapshot_download_def reply_def split: phase.splits if_splits option.splits)
  then have "filename = archive_name d" "ge_folder g = folder" using n by (auto simp: named_def)
  then show ?thesis
    using assms(2) p archive_name_flat(1) [of d] path_join_archive [of folder d]
    by (auto simp: snapshot_download_def reply_def split: option.splits)
qed

definition sample_archiver :: archiver where
  "sample_archiver = \<lparr>ar_deflate = stored_as_is, ar_sha256 = \<lambda>_. replicate 32 0, ar_workers = 4\<rparr>"

definition full_world :: world where
  "full_world = \<lparr>w_files = \<lambda>_. Some [1], w_databases = \<lambda>_. None\<rparr>"

lemma full_world_exists [simp]: "path_exists full_world p"
  by (simp add: path_exists_def full_world_def)

lemma occupied_archive: "sn_archive_filename sn = Some f \<Longrightarrow> path_exists w f \<Longrightarrow>
  archive_snapshots z sha256 workers sn snapshots w =
    (Inl (Custom ''Archive file already exists, please remove it before packing.''), w)"
  by (simp add: archive_snapshots_def context_from_snapshots_def)

theorem only_archives_are_served_witness:
  "\<exists>daa_score. ge_phase (server_run sample_archiver
      [SyncedChanges True, RequestGenerate None, StartGeneration, JobStep 0, JobStep 0, JobStep 0]
      (generator_new [98] [] full_world)) = Ready (archive_name 0) daa_score \<and> archive_name 0 = archive_name daa_score \<and>
    47 \<notin> set (archive_name 0)"
proof -
  let ?g = "server_run sample_archiver
      [SyncedChanges True, RequestGenerate None, StartGeneration, JobStep 0, JobStep 0, JobStep 0]
      (generator_new [98] [] full_world)"
  have "rp_body (snapshot_download (archive_name 0) ?g) = FileBody (Some 1) [1] True"
    by (simp add: generator_new_def snapshot_generate_def check_headers_def generate_start_def job_step_def
        job_snapshot_def occupied_archive snapshot_download_def reply_def full_world_def path_exists_def)
  from only_archives_are_served [OF refl this] show ?thesis by blast
qed

section \<open>Archives that fail\<close>

text \<open>An archive that fails is offered all the same: the task sets the phase to none and then to ready. If the name
  was free, what a client can download then is refused by every restoration.\<close>

theorem failed_archive_is_offered:
  assumes "i < length (ge_jobs g)" and "ge_jobs g ! i = Named archive daa_score"
    and "archive_snapshots (ar_deflate ar) (ar_sha256 ar) (ar_workers ar) (job_snapshot g archive) (ge_snapshots g) (ge_world g) =
      (Inl err, w)"
  shows "ge_phase (server_run ar [JobStep i, JobStep i] g) = Ready archive daa_score \<and>
    ge_world (server_run ar [JobStep i, JobStep i] g) = w \<and>
    (\<not> path_exists (ge_world g) (path_join (ge_folder g) archive) \<longrightarrow>
      (\<forall>z sha256 rs. sn_archive_filename rs = Some (path_join (ge_folder g) archive) \<longrightarrow>
         (\<exists>e. restore z sha256 rs w = (Inl e, w))))"
proof -
  have "sn_archive_filename (job_snapshot g archive) = Some (path_join (ge_folder g) archive)"
    by (simp add: job_snapshot_def)
  then show ?thesis
    using assms unfinished_refused [OF _ _ assms(3)] by (auto simp: job_step_def)
qed

theorem failed_archive_is_offered_witness:
  "ge_phase (server_run sample_archiver [JobStep 0, JobStep 0]
     (generator_new [98] [] full_world\<lparr>ge_jobs := [Named [97] 5]\<rparr>)) = Ready [97] 5"
proof -
  let ?g = "generator_new [98] [] full_world\<lparr>ge_jobs := [Named [97] 5]\<rparr>"
  have a: "archive_snapshots (ar_deflate sample_archiver) (ar_sha256 sample_archiver) (ar_workers sample_archiver)
      (job_snapshot ?g [97]) (ge_snapshots ?g) (ge_world ?g) =
      (Inl (Custom ''Archive file already exists, please remove it before packing.''), full_world)"
    by (simp add: occupied_archive job_snapshot_def generator_new_def)
  show ?thesis using failed_archive_is_offered [of 0 ?g "[97]" 5, OF _ _ a] by simp
qed

section \<open>Overlapping requests\<close>

lemma archive_writes:
  "sn_archive_filename sn = Some f \<Longrightarrow> archive_snapshots z sha256 workers sn snapshots w = (Inr h, w') \<Longrightarrow> path_exists w' f"
  by (auto simp: archive_snapshots_def context_from_snapshots_def archive_from_context_def path_exists_def write_file_def
      Let_def split: sum.splits prod.splits if_splits option.splits)

text \<open>Requests can overlap: two requests that both find no archive in progress start two tasks with one name; while
  the archive of the first is complete, the second, which finds the file there, takes the phase back to none and
  then announces the file of the first.\<close>

theorem overlapping_requests_archive_twice:
  assumes "\<not> ge_check_headers g" and "ge_synced g" and "ge_phase g = PhaseNone" and "ge_checked g = 0" and "ge_jobs g = []"
    and "archive_snapshots (ar_deflate ar) (ar_sha256 ar) (ar_workers ar) (job_snapshot g (archive_name (ge_daa_score g)))
      (ge_snapshots g) (ge_world g) = (Inr h, w)"
    and "g2 = server_run ar [RequestGenerate k, RequestGenerate k', StartGeneration, StartGeneration] g"
    and "g3 = server_run ar [JobStep 0, JobStep 1, JobStep 0, JobStep 0] g2"
  shows "ge_jobs g2 = [Spawned, Spawned] \<and> ge_phase g3 = Ready (archive_name (ge_daa_score g)) (ge_daa_score g) \<and> ge_world g3 = w \<and>
    ge_phase (server_run ar [JobStep 0] g3) = PhaseNone \<and>
    ge_phase (server_run ar [JobStep 0, JobStep 0] g3) = Ready (archive_name (ge_daa_score g)) (ge_daa_score g)"
proof -
  let ?a = "archive_name (ge_daa_score g)"
  have g2: "g2 = g\<lparr>ge_phase := Archiving, ge_jobs := [Spawned, Spawned]\<rparr>"
    using assms(1-5) by (simp add: assms(7) snapshot_generate_def check_headers_def generate_start_def)
  have s: "job_snapshot (g\<lparr>ge_phase := p, ge_jobs := js\<rparr>) ?a = job_snapshot g ?a"
    "job_snapshot (g\<lparr>ge_phase := p, ge_jobs := js, ge_world := w'\<rparr>) ?a = job_snapshot g ?a"
    "job_snapshot (g\<lparr>ge_phase := p, ge_world := w', ge_jobs := js\<rparr>) ?a = job_snapshot g ?a" for p js w'
    by (simp_all add: job_snapshot_def)
  have g3: "g3 = g\<lparr>ge_phase := Ready ?a (ge_daa_score g), ge_world := w, ge_jobs := [Named ?a (ge_daa_score g)]\<rparr>"
    using assms(6) by (simp add: assms(8) g2 job_step_def s)
  have f: "sn_archive_filename (job_snapshot g ?a) = Some (path_join (ge_folder g) ?a)" by (simp add: job_snapshot_def)
  have o: "archive_snapshots (ar_deflate ar) (ar_sha256 ar) (ar_workers ar) (job_snapshot g ?a) (ge_snapshots g) w =
      (Inl (Custom ''Archive file already exists, please remove it before packing.''), w)"
    by (rule occupied_archive [OF f archive_writes [OF f assms(6)]])
  show ?thesis by (simp add: g2 g3 job_step_def s o)
qed

definition sample_server :: generator where
  "sample_server = generator_new [98] (take_snapshots (\<lambda>_. sample_tree)) empty_world\<lparr>ge_synced := True\<rparr>"

lemma sample_server_archives:
  "\<exists>h w. archive_snapshots (ar_deflate sample_archiver) (ar_sha256 sample_archiver) (ar_workers sample_archiver)
     (job_snapshot sample_server (archive_name (ge_daa_score sample_server))) (ge_snapshots sample_server) (ge_world sample_server) =
     (Inr h, w)"
proof -
  have "deflate_sound (ar_deflate sample_archiver)" "\<forall>x. length (ar_sha256 sample_archiver x) = 32" "0 < ar_workers sample_archiver"
    by (simp_all add: sample_archiver_def stored_as_is_sound)
  from database_archive [OF this, where trees = "\<lambda>_. sample_tree" and m = 2
      and sn = "job_snapshot sample_server (archive_name (ge_daa_score sample_server))"]
  show ?thesis
    by (auto simp: sample_tree_fits job_snapshot_def snapshot_default_def chunk_limit_def DEFAULT_CHUNK_SIZE_def
        partition_names_def sample_server_def generator_new_def)
qed

theorem overlapping_requests_archive_twice_witness:
  "ge_phase (server_run sample_archiver [JobStep 0] (server_run sample_archiver [JobStep 0, JobStep 1, JobStep 0, JobStep 0]
     (server_run sample_archiver [RequestGenerate None, RequestGenerate None, StartGeneration, StartGeneration] sample_server))) =
   PhaseNone"
proof -
  obtain h w where a: "archive_snapshots (ar_deflate sample_archiver) (ar_sha256 sample_archiver) (ar_workers sample_archiver)
      (job_snapshot sample_server (archive_name (ge_daa_score sample_server))) (ge_snapshots sample_server) (ge_world sample_server) =
      (Inr h, w)" using sample_server_archives by blast
  show ?thesis
    using overlapping_requests_archive_twice [OF _ _ _ _ _ a refl refl, of None None]
    by (simp add: sample_server_def generator_new_def)
qed

section \<open>Synchronisation from a server\<close>

text \<open>One server as the other end of the connection: a request is handled as a whole, and before it the server takes the
  steps that the schedule has for it.\<close>

fun answer_request :: "archiver \<Rightarrow> request \<Rightarrow> generator \<Rightarrow> reply option \<times> generator" where
  "answer_request ar GetGenerate g =
     (case snapshot_generate (Some SNAPSHOT_API_KEY) g of (Some r, g') \<Rightarrow> (Some r, g') | (None, g') \<Rightarrow> generate_start g')"
| "answer_request ar GetStatus g = (Some (snapshot_status g), g)"
| "answer_request ar GetReset g = (let (r, g') = snapshot_reset g in (Some r, g'))"
| "answer_request ar (GetDownload filename) g = (Some (snapshot_download filename g), g)"

fun remote :: "archiver \<Rightarrow> (generator \<times> event list list) connection" where
  "remote ar server r (g, []) = (let (answer, g') = answer_request ar r g in (answer, g', []))"
| "remote ar server r (g, es # schedule) = (let (answer, g') = answer_request ar r (server_run ar es g) in (answer, g', schedule))"

definition stage :: "generator \<Rightarrow> ustring \<Rightarrow> world \<Rightarrow> nat \<Rightarrow> generator" where
  "stage g a w k =
     g\<lparr>ge_phase := if k < 3 then Archiving else Ready a (ge_daa_score g),
       ge_jobs := [[Spawned], [Named a (ge_daa_score g)], [Archived a (ge_daa_score g)], []] ! min k 3,
       ge_world := if k < 2 then ge_world g else w\<rparr>"

lemma stage_step:
  assumes "archive_snapshots (ar_deflate ar) (ar_sha256 ar) (ar_workers ar) (job_snapshot g (archive_name (ge_daa_score g)))
      (ge_snapshots g) (ge_world g) = (Inr h, w)" and "k < 3"
  shows "job_step ar 0 (stage g (archive_name (ge_daa_score g)) w k) = stage g (archive_name (ge_daa_score g)) w (Suc k)"
proof -
  have "k = 0 \<or> k = 1 \<or> k = 2" using assms(2) by auto
  then show ?thesis using assms(1) by (elim disjE) (simp_all add: stage_def job_step_def job_snapshot_def)
qed

lemma stage_run:
  assumes "archive_snapshots (ar_deflate ar) (ar_sha256 ar) (ar_workers ar) (job_snapshot g (archive_name (ge_daa_score g)))
      (ge_snapshots g) (ge_world g) = (Inr h, w)" and "k + j \<le> 3"
  shows "server_run ar (replicate j (JobStep 0)) (stage g (archive_name (ge_daa_score g)) w k) =
    stage g (archive_name (ge_daa_score g)) w (k + j)"
  using assms(2) by (induction j arbitrary: k) (simp_all add: stage_step [OF assms(1)])

lemma replicate_split:
  "es @ xs = replicate n x \<Longrightarrow> es = replicate (length es) x \<and> xs = replicate (n - length es) x \<and> length es \<le> n"
proof -
  assume a: "es @ xs = replicate n x"
  then have l: "length es \<le> n" by (metis le_add1 length_append length_replicate)
  from a have "es = take (length es) (replicate n x)" "xs = drop (length es) (replicate n x)"
    by (simp_all add: append_eq_conv_conj)
  with l show ?thesis by (metis drop_replicate min.absorb1 take_replicate)
qed

lemma poll_until_ready:
  assumes "archive_snapshots (ar_deflate ar) (ar_sha256 ar) (ar_workers ar) (job_snapshot g (archive_name (ge_daa_score g)))
      (ge_snapshots g) (ge_world g) = (Inr h, w)"
    and "k < 3" and "concat polls = replicate (3 - k) (JobStep 0)"
  shows "\<exists>rest. poll_loop (remote ar) server (stage g (archive_name (ge_daa_score g)) w k, polls) =
      Some (Some (archive_name (ge_daa_score g)), stage g (archive_name (ge_daa_score g)) w 3, rest) \<and> concat rest = []"
  using assms(2,3)
proof (induction polls arbitrary: k)
  case (Cons es polls)
  let ?a = "archive_name (ge_daa_score g)"
  have es: "es = replicate (length es) (JobStep 0)" "concat polls = replicate (3 - (k + length es)) (JobStep 0)" "k + length es \<le> 3"
    using replicate_split [of es "concat polls" "3 - k" "JobStep 0"] Cons.prems by auto
  have run: "server_run ar es (stage g ?a w k) = stage g ?a w (k + length es)"
    by (subst es(1)) (simp only: stage_run [OF assms(1) es(3)])
  have p: "ge_phase (stage g ?a w i) = (if i < 3 then Archiving else Ready ?a (ge_daa_score g))" for i
    by (simp add: stage_def)
  show ?case
  proof (cases "k + length es < 3")
    case True
    from Cons.IH [OF this es(2)] show ?thesis
      using True by (subst poll_loop.simps) (simp add: request_status_def run snapshot_status_def reply_def received_def p)
  next
    case False
    then have k: "k + length es = 3" using es(3) by simp
    then show ?thesis using es(2)
      by (subst poll_loop.simps) (simp add: request_status_def run snapshot_status_def reply_def received_def p)
  qed
qed simp

text \<open>C32: A client that synchronises from an idle server ends with its database: the server is asked for an archive, is
  asked for its state until the archive is ready, however its task is interleaved with these requests, and the
  file that is downloaded restores to all partitions but the queue of notifications.\<close>

theorem synchronised_database_is_the_servers:
  assumes "deflate_sound (ar_deflate ar)" and "\<forall>x. length (ar_sha256 ar x) = 32" and "0 < ar_workers ar"
    and "\<forall>n k v. part_get (trees n) k = Some v \<longrightarrow> row_fits m (k, v)"
    and "9 * (DEFAULT_CHUNK_SIZE + m) + 4 < 2 ^ 31"
    and "sum_list (map (\<lambda>n. length (part_entries (trees n))) partition_names) < 2 ^ 64"
    and "\<not> ge_check_headers g" and "ge_synced g" and "ge_phase g = PhaseNone" and "ge_checked g = 0" and "ge_jobs g = []"
    and "ge_snapshots g = take_snapshots trees"
    and "\<not> path_exists (ge_world g) (path_join (ge_folder g) (archive_name (ge_daa_score g)))"
    and "concat polls = replicate 3 (JobStep 0)"
    and "\<not> path_exists w db_folder" and "db_folder \<noteq> path_join sync_folder (archive_name (ge_daa_score g))"
  shows "\<exists>h r w' ks.
    run_sync ar (remote ar) default_server network db_folder sync_folder False (Some server) ((g, [] # [] # polls), w) =
      Some (SyncComplete h, r, w') \<and> w_databases w' db_folder = Some ks \<and>
    (\<forall>n. map_of ks n = (if n \<in> set partition_names \<and> n \<noteq> ascii ''notification_queue'' then Some (trees n) else None))"
proof -
  let ?a = "archive_name (ge_daa_score g)"
  let ?f = "path_join (ge_folder g) ?a" and ?t = "path_join sync_folder ?a"
  have c: "chunk_limit (sn_chunk_size (job_snapshot g ?a)) = DEFAULT_CHUNK_SIZE"
      "sn_skip_partitions (job_snapshot g ?a) = Some [ascii ''notification_queue'']" "sn_archive_filename (job_snapshot g ?a) = Some ?f"
    by (simp_all add: job_snapshot_def snapshot_default_def chunk_limit_def)
  from database_archive [OF assms(1-4) _ assms(6) c(2)] assms(5) c(1) obtain h bs where
      a: "\<forall>f w. sn_archive_filename (job_snapshot g ?a) = Some f \<longrightarrow> \<not> path_exists w f \<longrightarrow>
        archive_snapshots (ar_deflate ar) (ar_sha256 ar) (ar_workers ar) (job_snapshot g ?a) (take_snapshots trees) w =
          (Inr h, write_file f bs w)"
      and r: "\<forall>rs root f w. sn_database_root rs = Some root \<longrightarrow> sn_archive_filename rs = Some f \<longrightarrow> w_files w f = Some bs \<longrightarrow>
        \<not> path_exists w root \<longrightarrow> (\<exists>ks. restore (ar_deflate ar) (ar_sha256 ar) rs w = (Inr h, write_database root ks w) \<and>
          (\<forall>n. map_of ks n =
            (if n \<in> set partition_names \<and> n \<noteq> ascii ''notification_queue'' then Some (trees n) else None)))"
    by auto
  let ?w = "write_file ?f bs (ge_world g)"
  have arch: "archive_snapshots (ar_deflate ar) (ar_sha256 ar) (ar_workers ar) (job_snapshot g ?a) (ge_snapshots g) (ge_world g) =
      (Inr h, ?w)"
    using a c(3) assms(12,13) by simp
  from poll_until_ready [OF arch, of 0 polls server] assms(14) obtain rest where
      p: "poll_loop (remote ar) server (stage g ?a ?w 0, polls) = Some (Some ?a, stage g ?a ?w 3, rest)"
        "concat rest = []"
    by auto
  have e: "ensure_available (remote ar) network server (g, [] # [] # polls) = (Inr PhaseNone, g, [] # polls)"
    using assms(8,9) by (simp add: ensure_available_def request_status_def snapshot_status_def reply_def received_def)
  have q: "request_generate (remote ar) server (g, [] # polls) = (Inr Archiving, stage g ?a ?w 0, polls)"
    using assms(7-11)
    by (simp add: request_generate_def snapshot_generate_def check_headers_def generate_start_def reply_def received_def stage_def)
  have "w_files ?w ?f = Some bs" by (simp add: write_file_def)
  then have s: "snapshot_download ?a (stage g ?a ?w 3) = reply 200 (FileBody (Some (length bs)) bs True)"
    by (simp add: snapshot_download_def stage_def)
  have "\<exists>x. remote ar server (GetDownload ?a) (stage g ?a ?w 3, rest) = (Some (reply 200 (FileBody (Some (length bs)) bs True)), x)"
    using p(2) s by (cases rest) simp_all
  then obtain x where d: "remote ar server (GetDownload ?a) (stage g ?a ?w 3, rest) =
      (Some (reply 200 (FileBody (Some (length bs)) bs True)), x)" by blast
  have n: "\<not> path_exists (write_file ?t bs w) db_folder" using assms(15,16) by (auto simp: write_file_def path_exists_def)
  have t: "w_files (write_file ?t bs w) ?t = Some bs" by (simp add: write_file_def)
  let ?rs = "snapshot_default\<lparr>sn_database_root := Some db_folder, sn_archive_filename := Some ?t\<rparr>"
  have "sn_database_root ?rs = Some db_folder" "sn_archive_filename ?rs = Some ?t" by simp_all
  from r [rule_format, OF this t n] obtain ks where
      rs: "restore (ar_deflate ar) (ar_sha256 ar) ?rs (write_file ?t bs w) = (Inr h, write_database db_folder ks (write_file ?t bs w))"
      "\<forall>n. map_of ks n = (if n \<in> set partition_names \<and> n \<noteq> ascii ''notification_queue'' then Some (trees n) else None)"
    by blast
  have "run_sync ar (remote ar) default_server network db_folder sync_folder False (Some server) ((g, [] # [] # polls), w) =
      Some (SyncComplete h, x, write_database db_folder ks (write_file ?t bs w))"
    using assms(15)
    by (simp add: run_sync_def fetch_def server_map_def e q p download_def d reply_def received_def rs Let_def)
  with rs(2) show ?thesis by (auto simp: write_database_def)
qed

theorem synchronised_database_is_the_servers_witness:
  "\<exists>h r w' ks.
    run_sync sample_archiver (remote sample_archiver) (\<lambda>_. []) Mainnet [99] [100] False (Some [97])
      ((sample_server, [] # [] # [[JobStep 0], [], [JobStep 0, JobStep 0]]), empty_world) = Some (SyncComplete h, r, w') \<and>
    w_databases w' [99] = Some ks \<and>
    (\<forall>n. map_of ks n = (if n \<in> set partition_names \<and> n \<noteq> ascii ''notification_queue'' then Some sample_tree else None))"
  by (rule synchronised_database_is_the_servers [where m = 2])
    (simp_all add: sample_archiver_def stored_as_is_sound sample_tree_fits DEFAULT_CHUNK_SIZE_def partition_names_def
      sample_server_def generator_new_def path_join_archive numeral_3_eq_3)

end
