(* ===== verification/Paging.thy ===== *)
theory Paging
  imports Accessor
begin

text \<open>
  What a client gets that follows the offsets of the pages. The locale \<^verbatim>\<open>paged_rows\<close> is the contract of a
  list endpoint: a request at the offset of a row starts with that row. Under it, following the offsets
  ends and yields every row once, in order, for any page size but zero. The lists of operations, tokens,
  deployments and holdings satisfy it; the list of active listings, whose offsets are scores where the
  scan expects token ids, does not.
\<close>

section \<open>The collectors\<close>

lemma split_last_loop: "split_last_loop init lst xs = (init @ butlast (lst # xs), last (lst # xs))"
  by (induction init lst xs rule: split_last_loop.induct) auto

lemma collect_split_last: "collect_split_last xs = (if xs = [] then None else Some (butlast xs, last xs))"
  by (induction xs rule: collect_split_last.induct) (simp_all add: split_last_loop)

lemma result_split_last_loop_Inr:
  "result_split_last_loop init lst (map Inr xs) =
   Inr (let ys = (case lst of None \<Rightarrow> init | Some l \<Rightarrow> init @ [l]) @ xs
        in if xs = [] then map_option (\<lambda>l. (init, l)) lst else Some (butlast ys, last ys))"
proof (induction xs arbitrary: init lst)
  case (Cons x xs)
  then show ?case by (cases lst) (auto simp: Let_def butlast_append)
qed simp

text \<open>On results that are all present the two collectors agree; otherwise the first error is returned.\<close>

lemma collect_split_last_result_Inr: "collect_split_last_result (map Inr xs) = Inr (collect_split_last xs)"
  by (simp add: collect_split_last_result_def result_split_last_loop_Inr collect_split_last)

lemma collect_split_last_result_Inl:
  "collect_split_last_result (map Inr xs @ Inl e # ys) = Inl e"
proof -
  have "result_split_last_loop init lst (map Inr xs @ Inl e # ys) = Inl e" for init lst
    by (induction xs arbitrary: init lst) auto
  then show ?thesis by (simp add: collect_split_last_result_def)
qed

lemma process_iter_Inr:
  assumes "\<And>k v. (k, v) \<in> set (take (limit + 1) rows) \<Longrightarrow> f k v = Inr (g k v)"
  shows "process_iter rows limit f = Inr (collect_split_last (take (limit + 1) (map (\<lambda>(k, v). g k v) rows)))"
proof -
  have "take (limit + 1) (map (\<lambda>(k, v). f k v) rows) = map Inr (take (limit + 1) (map (\<lambda>(k, v). g k v) rows))"
    using assms by (auto simp: take_map)
  then show ?thesis by (simp only: process_iter_def collect_split_last_result_Inr)
qed

section \<open>Pages\<close>

definition page :: "nat \<Rightarrow> ('v \<Rightarrow> 'o) \<Rightarrow> 'v list \<Rightarrow> ('v, 'o) pagination" where
  "page limit offset_of xs =
     (if length xs \<le> limit then \<lparr>pg_data = xs, pg_next_page_offset = None\<rparr>
      else \<lparr>pg_data = take limit xs, pg_next_page_offset = Some (offset_of (xs ! limit))\<rparr>)"

lemma to_paginated_page:
  "to_paginated (collect_split_last (take (limit + 1) xs)) limit offset_of = page limit offset_of xs"
proof (cases "xs = []")
  case False
  show ?thesis
  proof (cases "length xs \<le> limit")
    case True
    then have "length xs - 1 < limit" using False by (cases xs) auto
    with True False show ?thesis by (simp add: to_paginated_def collect_split_last page_def)
  next
    case longer: False
    then have t: "take (Suc limit) xs = take limit xs @ [xs ! limit]" by (simp add: take_Suc_conv_app_nth)
    then show ?thesis using longer False
      by (simp add: to_paginated_def collect_split_last page_def butlast_append)
  qed
qed (simp add: to_paginated_def collect_split_last page_def)

text \<open>The rows that a client gets that asks at an offset and goes on at the offset of every answer.\<close>

inductive pages :: "('o \<Rightarrow> 'e + ('v, 'o) pagination) \<Rightarrow> 'o \<Rightarrow> 'v list \<Rightarrow> bool" for fetch where
  pages_last: "fetch off = Inr p \<Longrightarrow> pg_next_page_offset p = None \<Longrightarrow> pages fetch off (pg_data p)"
| pages_more: "fetch off = Inr p \<Longrightarrow> pg_next_page_offset p = Some off' \<Longrightarrow> pages fetch off' vs \<Longrightarrow>
    pages fetch off (pg_data p @ vs)"

lemma pages_unfold:
  "pages fetch off ws \<Longrightarrow> \<exists>q. fetch off = Inr q \<and>
     (case pg_next_page_offset q of
        None \<Rightarrow> ws = pg_data q
      | Some off' \<Rightarrow> \<exists>us. pages fetch off' us \<and> ws = pg_data q @ us)"
  by (erule pages.cases) force+

lemma pages_functional: "pages fetch off vs \<Longrightarrow> pages fetch off ws \<Longrightarrow> vs = ws"
proof (induction arbitrary: ws rule: pages.induct)
  case (pages_last off p)
  from pages_unfold [OF pages_last.prems] pages_last.hyps show ?case by auto
next
  case (pages_more off p off' vs)
  from pages_unfold [OF pages_more.prems] pages_more.hyps(1,2)
  obtain us where "pages fetch off' us" "ws = pg_data p @ us" by auto
  with pages_more.IH show ?case by blast
qed

lemma collect_results_append:
  "collect_results f (xs @ ys) = and_then (collect_results f xs) (\<lambda>us. and_then (collect_results f ys) (\<lambda>vs. Inr (us @ vs)))"
proof (induction xs)
  case Nil
  then show ?case by (cases "collect_results f ys") auto
next
  case (Cons x xs)
  then show ?case by (cases "f x"; cases "collect_results f xs"; cases "collect_results f ys") auto
qed

lemma collect_results_Inr: "collect_results Inr xs = Inr xs"
  by (induction xs) auto

lemma convert_page_Inr: "convert_page Inr p = Inr p"
  by (simp add: convert_page_def collect_results_Inr)

locale paged_rows =
  fixes rows :: "'v list"
    and rows_from :: "'o \<Rightarrow> 'v list"
    and offset_of :: "'v \<Rightarrow> 'o"
  assumes from_row: "rows = xs @ v # ys \<Longrightarrow> rows_from (offset_of v) = v # ys"
begin

lemma pages_from:
  assumes fetch: "\<And>off. fetch off = convert_page f (page limit offset_of (rows_from off))" and limit: "0 < limit"
    and suffix: "suffix (rows_from off) rows" and conv: "collect_results f (rows_from off) = Inr ws"
  shows "pages fetch off ws"
  using suffix conv
proof (induction "length (rows_from off)" arbitrary: off ws rule: less_induct)
  case less
  show ?case
  proof (cases "length (rows_from off) \<le> limit")
    case True
    then have "fetch off = Inr \<lparr>pg_data = ws, pg_next_page_offset = None\<rparr>"
      using less.prems(2) by (simp add: fetch page_def convert_page_def)
    then show ?thesis using pages_last [of fetch off] by simp
  next
    case False
    define v where "v = rows_from off ! limit"
    define rest where "rest = drop (Suc limit) (rows_from off)"
    have s: "rows_from off = take limit (rows_from off) @ v # rest"
      using False unfolding v_def rest_def by (simp add: id_take_nth_drop)
    from less.prems(1) obtain zs where "rows = zs @ rows_from off" by (auto simp: suffix_def)
    then have "rows = (zs @ take limit (rows_from off)) @ v # rest" using s by (metis append_assoc)
    then have n: "rows_from (offset_of v) = v # rest" by (rule from_row)
    have n': "suffix (rows_from (offset_of v)) rows"
      unfolding n suffix_def using \<open>rows = (zs @ take limit (rows_from off)) @ v # rest\<close> by blast
    obtain us vs where us: "collect_results f (take limit (rows_from off)) = Inr us"
      and vs: "collect_results f (v # rest) = Inr vs" and ws: "ws = us @ vs"
      using less.prems(2) collect_results_append [of f "take limit (rows_from off)" "v # rest"]
      unfolding s [symmetric] by (auto simp: and_then_Inr_iff simp del: collect_results.simps)
    have "length (rows_from (offset_of v)) < length (rows_from off)"
      using n limit False by (simp add: rest_def)
    then have "pages fetch (offset_of v) vs" using less.hyps n n' vs by metis
    moreover have "fetch off = Inr \<lparr>pg_data = us, pg_next_page_offset = Some (offset_of v)\<rparr>"
      using False us by (simp add: fetch page_def convert_page_def v_def)
    ultimately show ?thesis using pages_more [of fetch off] ws by fastforce
  qed
qed

lemma pages_all:
  assumes "\<And>off. fetch off = convert_page f (page limit offset_of (rows_from off))" and "0 < limit"
    and "rows_from start = rows" and "collect_results f rows = Inr ws"
  shows "pages fetch start ws"
  using assms by (intro pages_from) auto

text \<open>With pages of no rows the client is sent back to the row it asked for.\<close>

lemma pages_none:
  assumes fetch: "\<And>off. fetch off = convert_page f (page 0 offset_of (rows_from off))"
  shows "pages fetch off ws \<Longrightarrow> suffix (rows_from off) rows \<Longrightarrow> rows_from off = []"
proof (induction rule: pages.induct)
  case (pages_last off p)
  then show ?case by (auto simp: fetch page_def convert_page_def split: if_splits)
next
  case (pages_more off p off' vs)
  show ?case
  proof (rule ccontr)
    assume "rows_from off \<noteq> []"
    then obtain v rest where c: "rows_from off = v # rest" by (cases "rows_from off") auto
    then have "off' = offset_of v" using pages_more.hyps(1,2) by (auto simp: fetch page_def convert_page_def)
    moreover from pages_more.prems c have "rows_from (offset_of v) = v # rest"
      by (auto simp: suffix_def intro: from_row)
    ultimately show False using pages_more.IH pages_more.prems c by simp
  qed
qed

end

lemma paged_rows_map:
  assumes "\<And>xs r ys. R = xs @ r # ys \<Longrightarrow> F (key r) = r # ys" and "\<And>r. r \<in> set R \<Longrightarrow> off (e r) = key r"
  shows "paged_rows (map e R) (\<lambda>o'. map e (F o')) off"
proof
  fix xs v ys assume "map e R = xs @ v # ys"
  then obtain us r vs where "R = us @ r # vs" "v = e r" "ys = map e vs"
    by (auto simp: map_eq_append_conv map_eq_Cons_conv)
  with assms show "map e (F (off v)) = v # ys" by simp
qed

lemma filter_split:
  "filter P R = xs @ r # ys \<Longrightarrow> \<exists>us vs. R = us @ r # vs \<and> filter P (r # vs) = r # ys"
proof (induction xs arbitrary: R)
  case Nil
  then obtain us vs where "R = us @ r # vs" "P r" "ys = filter P vs" by (auto simp: filter_eq_Cons_iff)
  then show ?case by (intro exI [of _ us] exI [of _ vs]) simp
next
  case (Cons x xs)
  then obtain ts R' where R: "R = ts @ x # R'" and "filter P R' = xs @ r # ys" by (auto simp: filter_eq_Cons_iff)
  from Cons.IH [OF this(2)] obtain us vs where "R' = us @ r # vs" "filter P (r # vs) = r # ys" by blast
  with R show ?case by (intro exI [of _ "ts @ x # us"] exI [of _ vs]) simp
qed

lemma paged_rows_filter_map:
  assumes "\<And>xs r ys. R = xs @ r # ys \<Longrightarrow> F (key r) = r # ys" and "\<And>r. r \<in> set R \<Longrightarrow> P r \<Longrightarrow> off (e r) = key r"
  shows "paged_rows (map e (filter P R)) (\<lambda>o'. map e (filter P (F o'))) off"
proof (rule paged_rows_map [where key = key])
  fix xs r ys assume "filter P R = xs @ r # ys"
  from filter_split [OF this] obtain us vs where "R = us @ r # vs" and v: "filter P (r # vs) = r # ys" by blast
  then have "F (key r) = r # vs" by (intro assms(1))
  with v show "filter P (F (key r)) = r # ys" by simp
qed (use assms(2) in auto)

section \<open>Scans of a partition\<close>

lemma sorted_from_row:
  assumes "al_sorted (xs @ (k, v) # ys)"
  shows "filter (\<lambda>(a, b). k \<le> a) (xs @ (k, v) # ys) = (k, v) # ys"
proof -
  have "\<forall>r \<in> set xs. fst r < k" "\<forall>r \<in> set ys. k < fst r" using assms by (auto simp: sorted_wrt_append)
  then have "filter (\<lambda>(a, b). k \<le> a) xs = []" "filter (\<lambda>(a, b). k \<le> a) ys = ys"
    by (auto simp: filter_empty_conv not_le intro!: filter_True less_imp_le)
  then show ?thesis by simp
qed

lemma sorted_upto_row:
  assumes "al_sorted (xs @ (k, v) # ys)"
  shows "filter (\<lambda>(a, b). a \<le> k) (xs @ (k, v) # ys) = xs @ [(k, v)]"
proof -
  have "\<forall>r \<in> set xs. fst r < k" "\<forall>r \<in> set ys. k < fst r" using assms by (auto simp: sorted_wrt_append)
  then have "filter (\<lambda>(a, b). a \<le> k) xs = xs" "filter (\<lambda>(a, b). a \<le> k) ys = []"
    by (auto simp: filter_empty_conv not_le intro!: filter_True less_imp_le)
  then show ?thesis by simp
qed

text \<open>The rows of a range from one of its rows on, in either direction.\<close>

lemma above_mono: "above lo k \<Longrightarrow> k \<le> a \<Longrightarrow> above lo a"
  by (cases lo) auto

lemma below_mono: "below hi k \<Longrightarrow> a \<le> k \<Longrightarrow> below hi a"
  by (cases hi) auto

lemma part_range_from_row:
  assumes "part_range lo hi p = xs @ (k, v) # ys"
  shows "part_range (Included k) hi p = (k, v) # ys"
proof -
  have "above lo k" using assms in_part_range_iff [of k v lo hi p] by simp
  then have "part_range (Included k) hi p = filter (\<lambda>(a, b). k \<le> a) (part_range lo hi p)"
    unfolding part_range_def filter_filter by (intro filter_cong) (auto intro: above_mono)
  also have "\<dots> = (k, v) # ys" using part_range_sorted [of lo hi p] unfolding assms by (rule sorted_from_row)
  finally show ?thesis .
qed

lemma part_range_upto_row:
  assumes "rev (part_range lo hi p) = xs @ (k, v) # ys"
  shows "rev (part_range lo (Included k) p) = (k, v) # ys"
proof -
  have a: "part_range lo hi p = rev ys @ (k, v) # rev xs" using arg_cong [OF assms, of rev] by simp
  then have "below hi k" using in_part_range_iff [of k v lo hi p] by simp
  then have "part_range lo (Included k) p = filter (\<lambda>(a, b). a \<le> k) (part_range lo hi p)"
    unfolding part_range_def filter_filter by (intro filter_cong) (auto intro: below_mono)
  also have "\<dots> = rev ys @ [(k, v)]" using part_range_sorted [of lo hi p] unfolding a by (rule sorted_upto_row)
  finally show ?thesis by simp
qed

lemma filter_pair_cong:
  "(\<And>k v. (k, v) \<in> set es \<Longrightarrow> P k v = Q k v) \<Longrightarrow> filter (\<lambda>(k, v). P k v) es = filter (\<lambda>(k, v). Q k v) es"
  by (auto intro!: filter_cong)

lemma part_range_key: "r \<in> set (part_range lo hi p) \<Longrightarrow> fst r \<in> part_keys p"
  using in_part_range_iff [of "fst r" "snd r" lo hi p] by (simp add: part_keys_def)

lemmas part_range_rows = part_range_from_row [where k = "fst r" and v = "snd r" for r, unfolded prod.collapse]
  part_range_upto_row [where k = "fst r" and v = "snd r" for r, unfolded prod.collapse]

lemma part_keys_update [simp]:
  "part_keys part_empty = {}" "part_keys (part_insert k v p) = insert k (part_keys p)"
  by (auto simp: part_keys_def)

end
