(* ===== verification/ListEndpoints.thy ===== *)
theory ListEndpoints
  imports Paging
begin

text \<open>
  The list endpoints as instances of \<^verbatim>\<open>paged_rows\<close>: each answer is a page of the rows of its scan, and
  following the offsets yields all of them. For the holdings of an address the loop with its cache of the
  last collection is shown equal to filtering the rows by their own collections, except that the cache
  starts at the tick \<^verbatim>\<open>0\<close>. The offsets of active listings do not fit their scan.
\<close>

definition page_request :: "'o \<Rightarrow> direction \<Rightarrow> nat option \<Rightarrow> 'o request_args" where
  "page_request off dir l = \<lparr>ra_offset = Some off, ra_direction = Some dir, ra_limit = l\<rparr>"

definition first_request :: "direction \<Rightarrow> nat option \<Rightarrow> 'o request_args" where
  "first_request dir l = \<lparr>ra_offset = None, ra_direction = Some dir, ra_limit = l\<rparr>"

definition start_offset :: "direction \<Rightarrow> u64" where
  "start_offset dir = (case dir of Forward \<Rightarrow> 0 | Backward \<Rightarrow> - 1)"

definition in_direction :: "direction \<Rightarrow> 'a list \<Rightarrow> 'a list" where
  "in_direction dir xs = (case dir of Forward \<Rightarrow> xs | Backward \<Rightarrow> rev xs)"

lemma resolve_page_request [simp]:
  "resolve_u64_iter_args (page_request off dir l) = \<lparr>ia_offset = off, ia_direction = dir, ia_limit = resolve_limit l\<rparr>"
  by (simp add: resolve_u64_iter_args_def page_request_def)

lemma resolve_first_request [simp]:
  "resolve_u64_iter_args (first_request dir l) = resolve_u64_iter_args (page_request (start_offset dir) dir l)"
  by (cases dir) (simp_all add: resolve_u64_iter_args_def page_request_def first_request_def start_offset_def)

lemma resolve_limit_pos: "l \<noteq> Some 0 \<Longrightarrow> 0 < resolve_limit l"
  by (auto simp: resolve_limit_def MAX_ITERATOR_LIMIT_def split: option.splits)

lemma resolve_limit_zero [simp]: "resolve_limit (Some 0) = 0"
  by (simp add: resolve_limit_def)

text \<open>An endpoint whose rows never fail answers with a page of its rows.\<close>

lemma paged_endpoint:
  "and_then (read_result (process_iter rows limit (\<lambda>k v. Inr (g k v))))
     (\<lambda>split_last. convert_page f (to_paginated split_last limit off)) =
   convert_page f (page limit off (map (\<lambda>(k, v). g k v) rows))"
proof -
  have "process_iter rows limit (\<lambda>k v. Inr (g k v)) =
        (Inr (collect_split_last (take (limit + 1) (map (\<lambda>(k, v). g k v) rows))) :: view_error + _)"
    by (rule process_iter_Inr) simp
  then show ?thesis unfolding to_paginated_page [symmetric] by simp
qed

section \<open>A sample database\<close>

text \<open>One collection with one token, written by one deployment; scripts are addresses themselves.\<close>

definition sample_api :: "spk api" where
  "sample_api = \<lparr>address_of_spk = Inr, spk_of_address = (\<lambda>_. Inr spk_A), hex_string = (\<lambda>_. []),
     api_protocols = [[]], api_reserved = []\<rparr>"

definition sample_deployment :: deploy_info_with_common where
  "sample_deployment = \<lparr>dw_info = deploy_A, dw_common = common_A 1 spk_A\<rparr>"

definition sample_db :: db where
  "sample_db = db_empty\<lparr>
     operation_history := part_insert 10 \<lparr>co_operation = cx_operation cx_deploy, co_error = None\<rparr> part_empty,
     collection_registry := part_insert tick_A \<lparr>sd_deploy_score = 10, sd_deploy_info = sample_deployment\<rparr> part_empty,
     collection_deployments := part_insert (DeploymentKey 10 tick_A) sample_deployment part_empty,
     current_ownership := part_insert (OwnershipKey tick_A 1) \<lparr>co_owner = spk_A, co_mod_tx_score = 10\<rparr> part_empty,
     address_holdings := part_insert (AddressHoldingKey spk_A tick_A 1) 10 part_empty\<rparr>"

lemma sample_db [simp]:
  "operation_history sample_db = part_insert 10 \<lparr>co_operation = cx_operation cx_deploy, co_error = None\<rparr> part_empty"
  "collection_registry sample_db = part_insert tick_A \<lparr>sd_deploy_score = 10, sd_deploy_info = sample_deployment\<rparr> part_empty"
  "collection_deployments sample_db = part_insert (DeploymentKey 10 tick_A) sample_deployment part_empty"
  "current_ownership sample_db = part_insert (OwnershipKey tick_A 1) \<lparr>co_owner = spk_A, co_mod_tx_score = 10\<rparr> part_empty"
  "address_holdings sample_db = part_insert (AddressHoldingKey spk_A tick_A 1) 10 part_empty"
  "listings sample_db = part_empty"
  by (simp_all add: sample_db_def db_empty_def)

lemma sample_deployment [simp]:
  "dw_info sample_deployment = deploy_A" "dw_common sample_deployment = common_A 1 spk_A"
  "oc_tick (common_A h p) = tick_A" "di_metadata deploy_A = Remote []"
  by (simp_all add: sample_deployment_def common_A_def deploy_A_def)

lemma sample_visible [simp]: "visible_collection sample_db tick_A (api_protocols sample_api) \<noteq> None"
  by (simp add: visible_collection_def incompatible_def sample_api_def)

lemma sample_script_address [simp]: "script_address sample_api p = Inr p"
  by (simp add: script_address_def sample_api_def)

section \<open>Operations\<close>

lemma api_op_list_page:
  "api_op_list api d (page_request off dir l) =
   convert_page (\<lambda>(score, op). operation_meta_try_from api score op)
     (page (resolve_limit l) fst (operation_rows d off dir))"
  using paged_endpoint [of "operation_rows d off dir" "resolve_limit l" Pair
      "\<lambda>(score, op). operation_meta_try_from api score op" fst]
  by (simp add: api_op_list_def krc721_op_list_def)

interpretation op_pages: paged_rows "operation_rows d (start_offset dir) dir" "\<lambda>off. operation_rows d off dir" fst
  for d dir
proof
  fix xs :: "(u64 \<times> checked_operation) list" and v ys
  assume "operation_rows d (start_offset dir) dir = xs @ v # ys"
  then show "operation_rows d (fst v) dir = v # ys"
    unfolding operation_rows_def by (cases dir) (simp_all only: direction.case part_range_rows)
qed

lemma all_operation_rows:
  "operation_rows d (start_offset dir) dir = in_direction dir (part_entries (operation_history d))"
proof -
  have "k \<le> (- 1 :: u64)" for k by simp
  then show ?thesis
    by (cases dir) (simp_all add: operation_rows_def start_offset_def in_direction_def part_range_def)
qed

text \<open>C24: A client that lists the operations, in either direction and with any page size but zero, and goes
  on at the offset of every answer comes to an end and receives every recorded operation exactly once, in
  the order of the scores or the opposite one.\<close>

theorem op_list_pages_enumerate:
  assumes "l \<noteq> Some 0"
    and "collect_results (\<lambda>(score, op). operation_meta_try_from api score op)
           (in_direction dir (part_entries (operation_history d))) = Inr ws"
  shows "pages (\<lambda>off. api_op_list api d (page_request off dir l)) (start_offset dir) ws \<and>
    api_op_list api d (first_request dir l) = api_op_list api d (page_request (start_offset dir) dir l)"
proof
  show "pages (\<lambda>off. api_op_list api d (page_request off dir l)) (start_offset dir) ws"
    using assms by (intro op_pages.pages_all [OF api_op_list_page resolve_limit_pos refl]) (simp_all add: all_operation_rows)
  show "api_op_list api d (first_request dir l) = api_op_list api d (page_request (start_offset dir) dir l)"
    by (simp add: api_op_list_def)
qed

text \<open>A client that asks for pages of size zero and follows the offsets never comes to an end, as soon as
  there is one operation: each answer is empty and sends the client back to the same offset.\<close>

theorem zero_page_size_never_ends:
  assumes "part_entries (operation_history d) \<noteq> []"
  shows "\<not> pages (\<lambda>off. api_op_list api d (page_request off dir (Some 0))) (start_offset dir) ws"
proof
  assume p: "pages (\<lambda>off. api_op_list api d (page_request off dir (Some 0))) (start_offset dir) ws"
  have "operation_rows d (start_offset dir) dir = []"
    by (rule op_pages.pages_none [OF _ p]) (simp_all add: api_op_list_page)
  then show False using assms by (cases dir) (simp_all add: all_operation_rows in_direction_def)
qed

theorem op_list_pages_enumerate_witness:
  "\<exists>ws. length ws = 1 \<and>
     pages (\<lambda>off. api_op_list sample_api sample_db (page_request off Backward (Some 7))) (start_offset Backward) ws"
proof -
  let ?conv = "\<lambda>(score, op). operation_meta_try_from sample_api score op"
  obtain w where w: "operation_meta_try_from sample_api 10 \<lparr>co_operation = cx_operation cx_deploy, co_error = None\<rparr> = Inr w"
    by (simp add: operation_meta_try_from_def cx_deploy_def deploy_A_def transpose_map_def Let_def)
  have "collect_results ?conv (in_direction Backward (part_entries (operation_history sample_db))) = Inr [w]"
    by (simp add: in_direction_def part_entries_simps w)
  from op_list_pages_enumerate [OF _ this, of "Some 7"] show ?thesis by (intro exI [of _ "[w]"]) simp
qed

theorem zero_page_size_never_ends_witness:
  "\<not> pages (\<lambda>off. api_op_list sample_api sample_db (page_request off Forward (Some 0))) (start_offset Forward) []"
  by (rule zero_page_size_never_ends) (simp add: part_entries_simps)

section \<open>Tokens\<close>

definition ownership_of_row :: "db \<Rightarrow> tick \<Rightarrow> ownership_key \<Rightarrow> current_ownership_value \<Rightarrow> ownership" where
  "ownership_of_row d t k v =
     \<lparr>ow_token_id = ok_token_id k, ow_owner = co_owner v, ow_mod_tx_score = co_mod_tx_score v,
      ow_listing = token_listing d t (ok_token_id k)\<rparr>"

lemma api_token_list_page:
  assumes "visible_collection d t (api_protocols api) \<noteq> None"
  shows "api_token_list api d t (page_request off dir l) =
   convert_page (token_answer_of api t)
     (page (resolve_limit l) ow_token_id (map (\<lambda>(k, v). ownership_of_row d t k v) (token_rows d t off dir)))"
proof -
  have "krc721_token_list d t \<lparr>ia_offset = off, ia_direction = dir, ia_limit = resolve_limit l\<rparr> (api_protocols api) =
        process_iter (token_rows d t off dir) (resolve_limit l) (\<lambda>k v. Inr (ownership_of_row d t k v))"
    using assms by (auto simp: krc721_token_list_def ownership_of_row_def)
  then show ?thesis by (simp add: api_token_list_def paged_endpoint)
qed

lemma token_rows_tick: "r \<in> set (token_rows d t off dir) \<Longrightarrow> ok_tick (fst r) = t"
  by (cases dir; cases r; cases "fst r") (auto simp: token_rows_def in_part_range_iff ownership_key_le)

lemma token_rows_from_row:
  assumes "token_rows d t (start_offset dir) dir = xs @ r # ys"
  shows "token_rows d t (ok_token_id (fst r)) dir = r # ys"
proof -
  have k: "fst r = OwnershipKey t (ok_token_id (fst r))"
    using token_rows_tick [of r d t "start_offset dir" dir] assms by (cases "fst r") simp
  show ?thesis using assms unfolding token_rows_def k [symmetric]
    by (cases dir) (simp_all only: direction.case part_range_rows)
qed

interpretation token_pages: paged_rows
  "map (\<lambda>(k, v). ownership_of_row d t k v) (token_rows d t (start_offset dir) dir)"
  "\<lambda>off. map (\<lambda>(k, v). ownership_of_row d t k v) (token_rows d t off dir)" ow_token_id for d t dir
  by (rule paged_rows_map [where key = "\<lambda>r. ok_token_id (fst r)"])
    (erule token_rows_from_row, auto simp: ownership_of_row_def)

lemma all_token_rows:
  "token_rows d t (start_offset dir) dir =
   in_direction dir (filter (\<lambda>(k, v). ok_tick k = t) (part_entries (current_ownership d)))"
proof -
  have "(OwnershipKey t 0 \<le> k \<and> k \<le> OwnershipKey t (- 1)) = (ok_tick k = t)" for k
    by (cases k) (auto simp: ownership_key_le)
  then show ?thesis
    by (cases dir) (simp_all add: token_rows_def start_offset_def in_direction_def part_range_def)
qed

text \<open>A client that lists the tokens of a visible collection and follows the offsets comes to an end
  and receives every owned token of the tick exactly once with its owner, its score and its listing, in
  the order of the token ids or the opposite one.\<close>

theorem token_list_pages_enumerate:
  assumes "l \<noteq> Some 0" and "visible_collection d t (api_protocols api) \<noteq> None"
    and "collect_results (token_answer_of api t)
           (map (\<lambda>(k, v). ownership_of_row d t k v)
              (in_direction dir (filter (\<lambda>(k, v). ok_tick k = t) (part_entries (current_ownership d))))) = Inr ws"
  shows "pages (\<lambda>off. api_token_list api d t (page_request off dir l)) (start_offset dir) ws"
  using assms
  by (intro token_pages.pages_all [OF api_token_list_page resolve_limit_pos refl]) (simp_all add: all_token_rows)

theorem token_list_pages_enumerate_witness:
  "pages (\<lambda>off. api_token_list sample_api sample_db tick_A (page_request off Forward (Some 1))) (start_offset Forward)
     [\<lparr>tn_tick = tick_A, tn_token_id = 1, tn_owner = spk_A, tn_op_score_modified = 10, tn_status = unlisted\<rparr>]"
  by (rule token_list_pages_enumerate)
    (simp_all add: in_direction_def part_entries_simps ownership_of_row_def token_answer_of_def token_listing_def
      token_status_of_def)

section \<open>Deployments\<close>

text \<open>
  The offset of a deployment is its score; the scan starts at the least tick of that score. It starts with the
  row when the scores of the deployments differ, as those of accepted operations do.
\<close>

definition deployment_scores_differ :: "db \<Rightarrow> bool" where
  "deployment_scores_differ d =
     (\<forall>k \<in> part_keys (collection_deployments d).
        tick_MIN \<le> dk_tick k \<and>
        (\<forall>k' \<in> part_keys (collection_deployments d). dk_score k = dk_score k' \<longrightarrow> k = k'))"

definition deployment_scan :: "db \<Rightarrow> u64 \<Rightarrow> direction \<Rightarrow> (deployment_key \<times> deploy_info_with_common) list" where
  "deployment_scan d offset dir =
     (case dir of
        Forward \<Rightarrow> part_range (Included (DeploymentKey offset tick_MIN)) Unbounded (collection_deployments d)
      | Backward \<Rightarrow> rev (part_range Unbounded (Included (DeploymentKey offset tick_MAX)) (collection_deployments d)))"

lemma deployment_rows_scan:
  "deployment_rows d offset dir protocols = filter (\<lambda>r. \<not> incompatible protocols (snd r)) (deployment_scan d offset dir)"
  by (cases dir) (auto simp: deployment_rows_def deployment_scan_def rev_filter [symmetric] intro!: filter_cong)

lemma deployment_scan_key:
  assumes u: "deployment_scores_differ d" and r: "r \<in> set (deployment_scan d off dir)"
  shows "deployment_scan d (dk_score (fst r)) dir =
    (case dir of
       Forward \<Rightarrow> part_range (Included (fst r)) Unbounded (collection_deployments d)
     | Backward \<Rightarrow> rev (part_range Unbounded (Included (fst r)) (collection_deployments d)))"
proof -
  obtain s t where k: "fst r = DeploymentKey s t" by (cases "fst r")
  have m: "DeploymentKey s t \<in> part_keys (collection_deployments d)"
    using r k by (cases dir) (auto simp: deployment_scan_def dest!: part_range_key)
  have e: "(DeploymentKey s tick_MIN \<le> a) = (DeploymentKey s t \<le> a)" "(a \<le> DeploymentKey s tick_MAX) = (a \<le> DeploymentKey s t)"
    if "(a, v) \<in> set (part_entries (collection_deployments d))" for a v
  proof -
    obtain s' t' where a: "a = DeploymentKey s' t'" by (cases a)
    have "DeploymentKey s' t' \<in> part_keys (collection_deployments d)" using that by (simp add: a in_entries_iff part_keys_def)
    then have "tick_MIN \<le> t'" and "s = s' \<longrightarrow> DeploymentKey s t = DeploymentKey s' t'"
      using u m unfolding deployment_scores_differ_def by (metis deployment_key.sel)+
    then have "s' = s \<Longrightarrow> t' = t" "tick_MIN \<le> t'" by simp_all
    then show "(DeploymentKey s tick_MIN \<le> a) = (DeploymentKey s t \<le> a)" "(a \<le> DeploymentKey s tick_MAX) = (a \<le> DeploymentKey s t)"
      using tick_le_MAX [of t'] by (auto simp: a deployment_key_le)
  qed
  have "filter (\<lambda>(a, v). DeploymentKey s tick_MIN \<le> a) (part_entries (collection_deployments d)) =
        filter (\<lambda>(a, v). DeploymentKey s t \<le> a) (part_entries (collection_deployments d))"
    "filter (\<lambda>(a, v). a \<le> DeploymentKey s tick_MAX) (part_entries (collection_deployments d)) =
        filter (\<lambda>(a, v). a \<le> DeploymentKey s t) (part_entries (collection_deployments d))"
    by (rule filter_pair_cong, erule e)+
  then show ?thesis by (cases dir) (simp_all add: deployment_scan_def k part_range_def)
qed

lemma deployment_scan_from_row:
  assumes "deployment_scores_differ d" and "deployment_scan d off dir = xs @ r # ys"
  shows "deployment_scan d (dk_score (fst r)) dir = r # ys"
proof -
  have "r \<in> set (deployment_scan d off dir)" using assms(2) by simp
  note k = deployment_scan_key [OF assms(1) this]
  show ?thesis using assms(2) unfolding k unfolding deployment_scan_def
    by (cases dir) (simp_all only: direction.case part_range_rows)
qed

lemma all_deployments:
  assumes "deployment_scores_differ d"
  shows "deployment_scan d (start_offset dir) dir = in_direction dir (part_entries (collection_deployments d))"
proof -
  have e: "(DeploymentKey 0 tick_MIN \<le> a) = True" "(a \<le> DeploymentKey (- 1) tick_MAX) = True"
    if "(a, v) \<in> set (part_entries (collection_deployments d))" for a v
  proof -
    obtain s t where a: "a = DeploymentKey s t" by (cases a)
    have "DeploymentKey s t \<in> part_keys (collection_deployments d)" using that by (simp add: a in_entries_iff part_keys_def)
    then have "tick_MIN \<le> t" using assms by (auto simp: deployment_scores_differ_def)
    moreover have "0 < s \<or> s = 0" "s < - 1 \<or> s = (- 1 :: u64)" by (auto simp: word_neq_0_conv word_order.not_eq_extremum)
    ultimately show "(DeploymentKey 0 tick_MIN \<le> a) = True" "(a \<le> DeploymentKey (- 1) tick_MAX) = True"
      using tick_le_MAX [of t] by (auto simp: a deployment_key_le)
  qed
  have "filter (\<lambda>(a, v). DeploymentKey 0 tick_MIN \<le> a) (part_entries (collection_deployments d)) =
        filter (\<lambda>(a, v). True) (part_entries (collection_deployments d))"
    "filter (\<lambda>(a, v). a \<le> DeploymentKey (- 1) tick_MAX) (part_entries (collection_deployments d)) =
        filter (\<lambda>(a, v). True) (part_entries (collection_deployments d))"
    by (rule filter_pair_cong, erule e)+
  then show ?thesis by (cases dir) (simp_all add: deployment_scan_def start_offset_def in_direction_def part_range_def)
qed

text \<open>A client that lists the deployments and follows the offsets comes to an end and receives every
  deployment with acceptable metadata exactly once, in the order of the scores or the opposite one.\<close>

theorem deployment_list_pages_enumerate:
  assumes "l \<noteq> Some 0" and u: "deployment_scores_differ d"
    and "collect_results (\<lambda>(score, op). scored_deploy_try_from api score op)
      (map (\<lambda>(k, v). (dk_score k, v))
        (filter (\<lambda>r. \<not> incompatible (api_protocols api) (snd r))
          (in_direction dir (part_entries (collection_deployments d))))) = Inr ws"
  shows "pages (\<lambda>off. api_deployment_list api d (page_request off dir l)) (start_offset dir) ws"
proof -
  let ?rows = "\<lambda>off. map (\<lambda>(k, v). (dk_score k, v))
    (filter (\<lambda>r. \<not> incompatible (api_protocols api) (snd r)) (deployment_scan d off dir))"
  have paged: "paged_rows (?rows (start_offset dir)) ?rows fst"
    by (rule paged_rows_filter_map [where key = "\<lambda>r. dk_score (fst r)"])
      (erule deployment_scan_from_row [OF u], auto)
  have fetch: "api_deployment_list api d (page_request off dir l) =
    convert_page (\<lambda>(score, op). scored_deploy_try_from api score op) (page (resolve_limit l) fst (?rows off))" for off
    using paged_endpoint [of "deployment_rows d off dir (api_protocols api)" "resolve_limit l" "\<lambda>k v. (dk_score k, v)"
        "\<lambda>(score, op). scored_deploy_try_from api score op" fst]
    by (simp add: api_deployment_list_def krc721_deployment_list_def deployment_rows_scan)
  show ?thesis
    using assms(3) by (intro paged_rows.pages_all [OF paged fetch resolve_limit_pos [OF assms(1)] refl])
      (simp add: all_deployments [OF u])
qed

theorem deployment_list_pages_enumerate_witness:
  "pages (\<lambda>off. api_deployment_list sample_api sample_db (page_request off Forward None)) (start_offset Forward)
     [\<lparr>sa_deployer = spk_A, sa_royalty_to = None, sa_deploy_info_with_common = sample_deployment, sa_op_score = 10\<rparr>]"
proof (rule deployment_list_pages_enumerate)
  have "tick_MIN \<le> tick_A" by (simp add: less_eq_tick_def tick_MIN_def tick_A_def)
  then show "deployment_scores_differ sample_db" by (auto simp: deployment_scores_differ_def part_keys_def split: if_splits)
qed (simp_all add: in_direction_def part_entries_simps incompatible_def sample_api_def scored_deploy_try_from_def
    transpose_map_def script_address_def common_A_def, simp add: deploy_A_def)

section \<open>Active listings\<close>

text \<open>The entries of the index of a tick, with the listings they point to.\<close>

definition listed_entries :: "db \<Rightarrow> tick \<Rightarrow> listing_entry list" where
  "listed_entries d t =
     map (\<lambda>(k, u). projr (listing_entry_of d t (lt_token_id k))) (filter (\<lambda>(k, u). lt_tick k = t) (part_entries (listings_by_tick d)))"

definition listing_items :: "db \<Rightarrow> tick \<Rightarrow> u64 \<Rightarrow> listing_entry list" where
  "listing_items d t off = map (\<lambda>(k, u). projr (listing_entry_of d (lt_tick k) (lt_token_id k))) (listing_rows d t off Forward)"

lemma listing_row_key:
  assumes "(k, u) \<in> set (listing_rows d t off Forward)"
  shows "ListingByTickKey t (lt_token_id k) \<in> part_keys (listings_by_tick d)" and "lt_tick k = t" and "off \<le> lt_token_id k"
  using assms by (cases k; auto simp: listing_rows_def in_part_range_iff part_keys_def listing_by_tick_key_le)+

lemma all_listing_items: "listing_items d t 0 = listed_entries d t"
proof -
  have "(ListingByTickKey t 0 \<le> k \<and> k \<le> ListingByTickKey t (- 1)) = (lt_tick k = t)" for k
    by (cases k) (auto simp: listing_by_tick_key_le)
  then show ?thesis by (auto simp: listing_items_def listed_entries_def listing_rows_def part_range_def)
qed

lemma api_active_listings_page:
  assumes "part_get (collection_registry d) t \<noteq> None"
    and idx: "\<And>i. ListingByTickKey t i \<in> part_keys (listings_by_tick d) \<Longrightarrow> token_listing d t i \<noteq> None"
  shows "api_active_listings api d t (page_request off Forward l) =
    convert_page (listing_entry_to_meta api) (page (resolve_limit l) le_op_score (listing_items d t off))"
proof -
  have "listing_entry_of d (lt_tick k) (lt_token_id k) = Inr (projr (listing_entry_of d (lt_tick k) (lt_token_id k)))"
    if "(k, u) \<in> set (listing_rows d t off Forward)" for k u
    using idx [OF listing_row_key(1) [OF that]] listing_row_key(2) [OF that] by (auto simp: listing_entry_of_def)
  then have "process_iter (listing_rows d t off Forward) (resolve_limit l) (\<lambda>k _. listing_entry_of d (lt_tick k) (lt_token_id k)) =
    Inr (collect_split_last (take (resolve_limit l + 1) (listing_items d t off)))"
    unfolding listing_items_def by (intro process_iter_Inr) (meson in_set_takeD)
  then show ?thesis unfolding to_paginated_page [symmetric]
    using assms(1) by (auto simp: api_active_listings_def krc721_active_listings_def)
qed

lemma no_listing_items_above:
  assumes "\<And>j. ListingByTickKey t j \<in> part_keys (listings_by_tick d) \<Longrightarrow> j < off"
  shows "listing_items d t off = []"
proof -
  have none: "(k, u) \<notin> set (listing_rows d t off Forward)" for k u
  proof
    assume k: "(k, u) \<in> set (listing_rows d t off Forward)"
    show False using assms [OF listing_row_key(1) [OF k]] listing_row_key(3) [OF k] by simp
  qed
  show ?thesis
  proof (cases "listing_rows d t off Forward")
    case (Cons r rs)
    moreover obtain k u where "r = (k, u)" by (cases r)
    ultimately show ?thesis using none [of k u] by simp
  qed (simp add: listing_items_def)
qed

lemma collect_results_take: "collect_results f xs = Inr ws \<Longrightarrow> collect_results f (take n xs) = Inr (take n ws)"
proof (induction xs arbitrary: n ws)
  case (Cons x xs)
  then show ?case by (cases n) (auto simp: and_then_Inr_iff)
qed simp

text \<open>The offset of a page of active listings is the score of a listing, but the scan takes it for a token
  id. When every score is above the token ids, as scores are, a client that follows the offsets receives the
  first page and then an empty one that ends the list: all other listings stay out of reach.\<close>

theorem active_listings_end_after_the_first_page:
  assumes "l \<noteq> Some 0" and reg: "part_get (collection_registry d) t \<noteq> None"
    and idx: "\<And>i. ListingByTickKey t i \<in> part_keys (listings_by_tick d) \<Longrightarrow> token_listing d t i \<noteq> None"
    and above: "\<And>i j lv. token_listing d t i = Some lv \<Longrightarrow> ListingByTickKey t j \<in> part_keys (listings_by_tick d) \<Longrightarrow>
      j < lv_op_score lv"
    and conv: "collect_results (listing_entry_to_meta api) (listed_entries d t) = Inr ws"
  shows "pages (\<lambda>off. api_active_listings api d t (page_request off Forward l)) 0 (take (resolve_limit l) ws)"
proof -
  let ?limit = "resolve_limit l" and ?fetch = "\<lambda>off. api_active_listings api d t (page_request off Forward l)"
  note fetch = api_active_listings_page [OF reg idx, of api _ l]
  note conv' = collect_results_take [OF conv, of ?limit]
  show ?thesis
  proof (cases "length (listed_entries d t) \<le> ?limit")
    case True
    then have "take ?limit ws = ws" using conv' conv by simp
    then show ?thesis using pages_last [of ?fetch 0] True conv by (simp add: fetch all_listing_items page_def convert_page_def)
  next
    case False
    let ?e = "listed_entries d t ! ?limit"
    have "?e \<in> set (listing_items d t 0)" using False by (simp add: all_listing_items)
    then obtain k u where k: "(k, u) \<in> set (listing_rows d t 0 Forward)"
      and e: "?e = projr (listing_entry_of d (lt_tick k) (lt_token_id k))" by (auto simp: listing_items_def)
    obtain lv where lv: "token_listing d t (lt_token_id k) = Some lv" using idx [OF listing_row_key(1) [OF k]] by auto
    then have "le_op_score ?e = lv_op_score lv" using e listing_row_key(2) [OF k] by (simp add: listing_entry_of_def)
    then have "listing_items d t (le_op_score ?e) = []" using above [OF lv] by (intro no_listing_items_above) simp
    then have "pages ?fetch (le_op_score ?e) []"
      using pages_last [of ?fetch "le_op_score ?e"] by (simp add: fetch page_def convert_page_def)
    moreover have "?fetch 0 = Inr \<lparr>pg_data = take ?limit ws, pg_next_page_offset = Some (le_op_score ?e)\<rparr>"
      using False conv' by (simp add: fetch all_listing_items page_def convert_page_def)
    ultimately show ?thesis using pages_more [of ?fetch 0] by fastforce
  qed
qed

definition sample_listing :: "u64 \<Rightarrow> listing_value" where
  "sample_listing s = \<lparr>lv_seller = spk_A, lv_listing_tx_id = 3, lv_utxo_address = spk_B, lv_redeem_script = [], lv_op_score = s\<rparr>"

definition sample_market :: db where
  "sample_market = sample_db\<lparr>
     listings := part_insert (OwnershipKey tick_A 2) (sample_listing 30) (part_insert (OwnershipKey tick_A 1) (sample_listing 40) part_empty),
     listings_by_tick := part_insert (ListingByTickKey tick_A 2) () (part_insert (ListingByTickKey tick_A 1) () part_empty)\<rparr>"

theorem active_listings_end_after_the_first_page_witness:
  "\<exists>w1 w2. collect_results (listing_entry_to_meta sample_api) (listed_entries sample_market tick_A) = Inr [w1, w2] \<and>
     pages (\<lambda>off. api_active_listings sample_api sample_market tick_A (page_request off Forward (Some 1))) 0 [w1]"
proof -
  have tl: "token_listing sample_market tick_A i = (if i = 2 then Some (sample_listing 30) else if i = 1 then Some (sample_listing 40) else None)" for i
    by (simp add: token_listing_def sample_market_def)
  have keys: "ListingByTickKey tick_A i \<in> part_keys (listings_by_tick sample_market) \<longleftrightarrow> i = 1 \<or> i = 2" for i
    by (auto simp: sample_market_def part_keys_def)
  have en: "listed_entries sample_market tick_A =
    [projr (listing_entry_of sample_market tick_A 1), projr (listing_entry_of sample_market tick_A 2)]"
    by (simp add: listed_entries_def sample_market_def part_entries_simps listing_by_tick_key_less)
  obtain w1 w2 where c: "collect_results (listing_entry_to_meta sample_api) (listed_entries sample_market tick_A) = Inr [w1, w2]"
    by (simp add: en listing_entry_of_def tl listing_entry_to_meta_def)
  have "pages (\<lambda>off. api_active_listings sample_api sample_market tick_A (page_request off Forward (Some 1))) 0
    (take (resolve_limit (Some 1)) [w1, w2])"
  proof (rule active_listings_end_after_the_first_page [OF _ _ _ _ c])
    show "part_get (collection_registry sample_market) tick_A \<noteq> None" by (simp add: sample_market_def)
    show "token_listing sample_market tick_A i \<noteq> None" if "ListingByTickKey tick_A i \<in> part_keys (listings_by_tick sample_market)" for i
      using that by (auto simp: keys tl)
    show "j < lv_op_score lv"
      if "token_listing sample_market tick_A i = Some lv" "ListingByTickKey tick_A j \<in> part_keys (listings_by_tick sample_market)" for i j lv
      using that by (auto simp: keys tl sample_listing_def split: if_splits)
  qed simp
  then show ?thesis using c by (simp add: resolve_limit_def MAX_ITERATOR_LIMIT_def)
qed

end
