(* ===== verification/HoldingsList.thy ===== *)
theory HoldingsList
  imports ListEndpoints
begin

text \<open>
  The tokens of an address. The endpoint walks over the holdings and keeps the collection it read last;
  the theory compares this loop with looking up the collection of every row. They agree except for the
  tick \<^verbatim>\<open>0\<close>, the default the loop starts with. The scan of an address meets the holdings of that address
  only if no other script extends its script, which the standard scripts of the node satisfy.
\<close>

section \<open>The loop and its cache\<close>

definition tick_metadata :: "db \<Rightarrow> tick \<Rightarrow> metadata" where
  "tick_metadata d t =
     (case part_get (collection_registry d) t of Some depl \<Rightarrow> di_metadata (dw_info (sd_deploy_info depl)) | None \<Rightarrow> Remote [])"

definition shown :: "db \<Rightarrow> ustring list \<Rightarrow> address_holding_key \<times> u64 \<Rightarrow> bool" where
  "shown d protocols r = (visible_collection d (ah_tick (fst r)) protocols \<noteq> None)"

definition nft_of_row :: "db \<Rightarrow> address_holding_key \<times> u64 \<Rightarrow> address_nft_info" where
  "nft_of_row d r = nft_info d (tick_metadata d (ah_tick (fst r))) (fst r) (snd r)"

definition registered_as :: "db \<Rightarrow> tick \<Rightarrow> bool" where
  "registered_as d t =
     (\<exists>depl. part_get (collection_registry d) t = Some depl \<and> oc_tick (dw_common (sd_deploy_info depl)) = t)"

definition cache_ok :: "db \<Rightarrow> ustring list \<Rightarrow> push_state \<Rightarrow> (address_holding_key \<times> u64) list \<Rightarrow> bool" where
  "cache_ok d protocols s rows =
     ((\<forall>r \<in> set rows. ah_tick (fst r) \<noteq> ps_tick s) \<or>
      (\<exists>depl. part_get (collection_registry d) (ps_tick s) = Some depl \<and>
         ps_metadata s = di_metadata (dw_info (sd_deploy_info depl)) \<and>
         ps_incompatible s = incompatible protocols (sd_deploy_info depl)))"

lemma conditional_push_cached:
  assumes "registered_as d (ah_tick (fst r))" and "cache_ok d protocols s (r # rows)"
  obtains s' where "conditional_push d protocols limit s r = Inr (s', length (ps_c s') < limit + 1)"
    and "cache_ok d protocols s' rows"
    and "ps_c s' = ps_c s @ (if shown d protocols r then [nft_of_row d r] else [])"
proof -
  obtain k sc where r: "r = (k, sc)" by fastforce
  obtain depl where depl: "part_get (collection_registry d) (ah_tick k) = Some depl"
    and t: "oc_tick (dw_common (sd_deploy_info depl)) = ah_tick k"
    using assms(1) by (auto simp: registered_as_def r)
  have sh: "shown d protocols r = (\<not> incompatible protocols (sd_deploy_info depl))"
    and m: "nft_of_row d r = nft_info d (di_metadata (dw_info (sd_deploy_info depl))) k sc"
    using depl by (simp_all add: shown_def visible_collection_def nft_of_row_def tick_metadata_def r)
  show thesis
  proof (cases "ps_tick s = ah_tick k")
    case True
    then have c: "ps_metadata s = di_metadata (dw_info (sd_deploy_info depl))"
      "ps_incompatible s = incompatible protocols (sd_deploy_info depl)"
      using assms(2) depl by (auto simp: cache_ok_def r)
    define s' where "s' = (if ps_incompatible s then s else s\<lparr>ps_c := ps_c s @ [nft_info d (ps_metadata s) k sc]\<rparr>)"
    show thesis
    proof (rule that [of s'])
      show "cache_ok d protocols s' rows" using True c depl by (auto simp: cache_ok_def s'_def)
    qed (use True c sh m in \<open>auto simp: conditional_push_def r s'_def\<close>)
  next
    case False
    define s1 where "s1 = s\<lparr>ps_tick := ah_tick k, ps_metadata := di_metadata (dw_info (sd_deploy_info depl)),
      ps_incompatible := incompatible protocols (sd_deploy_info depl)\<rparr>"
    define s' where "s' = (if ps_incompatible s1 then s1 else s1\<lparr>ps_c := ps_c s1 @ [nft_info d (ps_metadata s1) k sc]\<rparr>)"
    show thesis
    proof (rule that [of s'])
      show "cache_ok d protocols s' rows" using depl by (auto simp: cache_ok_def s'_def s1_def)
    qed (use False depl t sh m in \<open>auto simp: conditional_push_def r s'_def s1_def Let_def\<close>)
  qed
qed

lemma push_loop_shown:
  assumes "\<And>r. r \<in> set rows \<Longrightarrow> registered_as d (ah_tick (fst r))" and "cache_ok d protocols s rows"
    and "length (ps_c s) \<le> limit"
  shows "\<exists>s'. push_loop d protocols limit s rows = Inr s' \<and>
    ps_c s' = take (limit + 1) (ps_c s @ map (nft_of_row d) (filter (shown d protocols) rows))"
  using assms
proof (induction rows arbitrary: s)
  case (Cons r rows)
  obtain s' where s': "conditional_push d protocols limit s r = Inr (s', length (ps_c s') < limit + 1)"
    and c: "cache_ok d protocols s' rows"
    and p: "ps_c s' = ps_c s @ (if shown d protocols r then [nft_of_row d r] else [])"
    using Cons.prems by (elim conditional_push_cached [rotated]) auto
  have e: "ps_c s @ map (nft_of_row d) (filter (shown d protocols) (r # rows)) =
           ps_c s' @ map (nft_of_row d) (filter (shown d protocols) rows)"
    using p by simp
  show ?case
  proof (cases "length (ps_c s') < limit + 1")
    case True
    obtain s2 where "push_loop d protocols limit s' rows = Inr s2"
      and "ps_c s2 = take (limit + 1) (ps_c s' @ map (nft_of_row d) (filter (shown d protocols) rows))"
      using Cons.IH [of s'] Cons.prems c True by auto
    then show ?thesis unfolding e by (intro exI [of _ s2]) (simp only: push_loop.simps s' and_then.simps prod.case True if_True)
  next
    case False
    then have "length (ps_c s') = limit + 1" using p Cons.prems(3) by (auto split: if_splits)
    with False show ?thesis unfolding e by (intro exI [of _ s']) (simp add: s')
  qed
qed simp

lemma address_nft_list_page:
  assumes "\<And>r. r \<in> set rows \<Longrightarrow> registered_as d (ah_tick (fst r))"
    and "\<And>r. r \<in> set rows \<Longrightarrow> ah_tick (fst r) \<noteq> tick_MIN"
    and rows: "rows = holding_rows d p (ia_offset a) (ia_direction a)"
  shows "krc721_address_nft_list d p a protocols =
    Inr (collect_split_last (take (ia_limit a + 1) (map (nft_of_row d) (filter (shown d protocols) rows))))"
proof -
  have "cache_ok d protocols push_start rows" using assms(2) by (auto simp: cache_ok_def push_start_def)
  from push_loop_shown [OF assms(1) this, of "ia_limit a"]
  show ?thesis by (auto simp: krc721_address_nft_list_def rows push_start_def collect_split_last)
qed

text \<open>The list of the tokens of an address is the holdings of the scan whose collections are visible, each
  with the metadata of its own collection, cut after one row more than the page: the loop that remembers
  only the last collection loses and mixes up nothing, whatever the order of the ticks, unless a holding
  is of the least tick.\<close>

theorem address_nft_list_shows_visible_holdings:
  assumes "\<And>r. r \<in> set (holding_rows d p (ia_offset a) (ia_direction a)) \<Longrightarrow> registered_as d (ah_tick (fst r))"
    and "\<And>r. r \<in> set (holding_rows d p (ia_offset a) (ia_direction a)) \<Longrightarrow> ah_tick (fst r) \<noteq> tick_MIN"
  shows "krc721_address_nft_list d p a protocols =
    Inr (collect_split_last (take (ia_limit a + 1)
      (map (nft_of_row d) (filter (shown d protocols) (holding_rows d p (ia_offset a) (ia_direction a))))))"
  by (rule address_nft_list_page [OF assms refl])

lemma sample_registered [simp]: "registered_as sample_db tick_A"
  by (simp add: registered_as_def)

lemma sample_holding_keys: "k \<in> part_keys (address_holdings sample_db) \<longleftrightarrow> k = AddressHoldingKey spk_A tick_A 1"
  by simp

lemma sample_holding_row:
  "r \<in> set (holding_rows sample_db p off dir) \<Longrightarrow> fst r = AddressHoldingKey spk_A tick_A 1"
  by (cases dir) (auto simp: holding_rows_def dest: part_range_key)

lemma tick_A_not_least [simp]: "tick_A \<noteq> tick_MIN"
  by (simp add: tick_A_def tick_MIN_def)

theorem address_nft_list_shows_visible_holdings_witness:
  "\<exists>r. krc721_address_nft_list sample_db spk_A \<lparr>ia_offset = \<lparr>tto_tick = tick_MIN, tto_token_id = 0\<rparr>, ia_direction = Forward, ia_limit = 1\<rparr>
     [[]] = Inr r"
  using address_nft_list_shows_visible_holdings
    [of sample_db spk_A "\<lparr>ia_offset = \<lparr>tto_tick = tick_MIN, tto_token_id = 0\<rparr>, ia_direction = Forward, ia_limit = 1\<rparr>" "[[]]"]
  by (metis sample_holding_row sample_registered tick_A_not_least address_holding_key.sel(2))

text \<open>The tick of the single digit zero is a tick that can be deployed, and it is the tick the loop starts
  with: when the first holding is of that tick, the answer begins with this token, with empty metadata and
  without a look at its collection, be it hidden or not deployed at all.\<close>

theorem tick_zero_is_listed_unchecked:
  assumes "holding_rows d p (ia_offset a) (ia_direction a) = (k, sc) # rows" and "ah_tick k = tick_MIN"
    and "krc721_address_nft_list d p a protocols = Inr r"
  shows "tick_from_str ascii_upper ascii_alphanumeric [48] = Inr tick_MIN \<and>
    (\<exists>c l. r = Some (c, l) \<and> hd (c @ [l]) = nft_info d (Remote []) k sc)"
proof
  have "tick_new_unchecked [48, 0, 0, 0, 0, 0, 0, 0, 0, 0] = Some tick_MIN"
    by (simp add: tick_new_unchecked_def tick_MIN_def)
  then show "tick_from_str ascii_upper ascii_alphanumeric [48] = Inr tick_MIN"
    by (simp add: tick_from_str_def to_uppercase_def ascii_upper_def ascii_alphanumeric_def utf8_bytes_def
        utf8_char_def pad10_def eval_nat_numeral)
  let ?n = "nft_info d (Remote []) k sc"
  have grows: "push_loop d protocols l s xs = Inr s' \<Longrightarrow> ps_c s \<noteq> [] \<Longrightarrow> ps_c s' \<noteq> [] \<and> hd (ps_c s') = hd (ps_c s)"
    for l s xs s'
  proof (induction xs arbitrary: s)
    case (Cons x xs)
    obtain s1 go where c: "conditional_push d protocols l s x = Inr (s1, go)"
      using Cons.prems(1) by (cases "conditional_push d protocols l s x") auto
    then have "ps_c s1 \<noteq> [] \<and> hd (ps_c s1) = hd (ps_c s)"
      using Cons.prems(2)
      by (auto simp: conditional_push_def and_then_Inr_iff Let_def split: prod.splits if_splits option.splits)
    then show ?case using Cons.IH [of s1] Cons.prems(1) by (cases go) (auto simp: c)
  qed simp
  define s1 where "s1 = push_start\<lparr>ps_c := [?n]\<rparr>"
  have "conditional_push d protocols (ia_limit a) push_start (k, sc) = Inr (s1, 1 < ia_limit a + 1)"
    using assms(2) by (simp add: conditional_push_def push_start_def s1_def)
  note step = this
  obtain s' where L: "push_loop d protocols (ia_limit a) push_start ((k, sc) # rows) = Inr s'"
    and r: "r = (if ps_c s' = [] then None else Some (butlast (ps_c s'), last (ps_c s')))"
    using assms(1,3) by (auto simp: krc721_address_nft_list_def and_then_Inr_iff)
  have "ps_c s' \<noteq> [] \<and> hd (ps_c s') = hd (ps_c s1)"
  proof (cases "1 < ia_limit a + 1")
    case True
    then have "push_loop d protocols (ia_limit a) s1 rows = Inr s'" using L unfolding push_loop.simps step by simp
    then show ?thesis by (rule grows) (simp add: s1_def)
  next
    case False
    then have "s' = s1" using L unfolding push_loop.simps step by simp
    then show ?thesis by (simp add: s1_def)
  qed
  then show "\<exists>c l. r = Some (c, l) \<and> hd (c @ [l]) = ?n" by (simp add: r s1_def)
qed

definition sample_zero_db :: db where
  "sample_zero_db = db_empty\<lparr>address_holdings := part_insert (AddressHoldingKey spk_A tick_MIN 1) 5 part_empty\<rparr>"

theorem tick_zero_is_listed_unchecked_witness:
  "\<exists>c l. krc721_address_nft_list sample_zero_db spk_A
      \<lparr>ia_offset = \<lparr>tto_tick = tick_MIN, tto_token_id = 0\<rparr>, ia_direction = Forward, ia_limit = 1\<rparr> [] = Inr (Some (c, l)) \<and>
    hd (c @ [l]) = nft_info sample_zero_db (Remote []) (AddressHoldingKey spk_A tick_MIN 1) 5"
proof -
  let ?a = "\<lparr>ia_offset = \<lparr>tto_tick = tick_MIN, tto_token_id = 0\<rparr>, ia_direction = Forward, ia_limit = 1\<rparr>"
  have "tick_MIN < tick_MAX" by (simp add: less_tick_def less_eq_tick_def tick_MIN_def tick_MAX_def)
  then have rows: "holding_rows sample_zero_db spk_A (ia_offset ?a) (ia_direction ?a) = [(AddressHoldingKey spk_A tick_MIN 1, 5)]"
    by (simp add: holding_rows_def part_range_def sample_zero_db_def part_entries_simps address_holding_key_less le_less)
  obtain r where r: "krc721_address_nft_list sample_zero_db spk_A ?a [] = Inr r"
    by (simp add: krc721_address_nft_list_def rows [simplified] conditional_push_def push_start_def)
  from tick_zero_is_listed_unchecked [OF rows _ r] show ?thesis using r by auto
qed

section \<open>The scan of an address\<close>

text \<open>No key of another script starts with the bytes of this script.\<close>

definition separated :: "spk \<Rightarrow> address_holding_key set \<Rightarrow> bool" where
  "separated p K = (\<forall>k \<in> K. prefix (spk_bytes p) (address_holding_key_bytes k) \<longrightarrow> ah_spk k = p)"

lemma between_prefix: "P @ a \<le> x \<Longrightarrow> x \<le> P @ b \<Longrightarrow> prefix P (x :: bytes)"
proof (induction P arbitrary: x)
  case (Cons c P)
  then show ?case by (cases x) (auto simp: Cons_less_Cons le_less)
qed simp

lemma between_separated:
  assumes "separated p K" and "k \<in> K" and "AddressHoldingKey p t i \<le> k" and "k \<le> AddressHoldingKey p t' i'"
  shows "ah_spk k = p"
  using assms between_prefix [of "spk_bytes p" "tick_bytes t @ u64_be i" "address_holding_key_bytes k" "tick_bytes t' @ u64_be i'"]
  by (simp add: separated_def less_eq_address_holding_key_def)

lemma address_holding_key_le:
  "(AddressHoldingKey p t i \<le> AddressHoldingKey p t' i') = (t < t' \<or> t = t' \<and> i \<le> i')"
  by (auto simp: le_less address_holding_key_less)

text \<open>Scripts of the shapes that the node builds for an address: the first byte fixes the length.\<close>

definition standard_script :: "spk \<Rightarrow> bool" where
  "standard_script p =
     (spk_version p = 0 \<and>
      (spk_script p \<noteq> [] \<and>
       length (spk_script p) =
         (if hd (spk_script p) = 0x20 then 34 else 35)))"

lemma standard_separated:
  assumes "standard_script p" and "\<And>k. k \<in> K \<Longrightarrow> standard_script (ah_spk k)"
  shows "separated p K"
proof (unfold separated_def, intro ballI impI)
  fix k assume k: "k \<in> K" and pre: "prefix (spk_bytes p) (address_holding_key_bytes k)"
  obtain v s where p: "p = Spk v s" by (cases p)
  obtain q t i where kq: "k = AddressHoldingKey q t i" by (cases k)
  obtain v' s' where q: "q = Spk v' s'" by (cases q)
  have st: "standard_script p" "standard_script q" using assms(1) assms(2) [OF k] by (simp_all add: kq)
  have s: "prefix s (s' @ tick_bytes t @ u64_be i)" and v: "v = v'"
    using pre by (auto simp: kq p q prefix_def append_eq_append_conv)
  have "hd s = hd s'" using s st by (cases s; cases s') (auto simp: standard_script_def p q)
  then have "length s = length s'" using st by (simp add: standard_script_def p q)
  then have "s = s'" using s prefix_append_same_length [of s s' "tick_bytes t @ u64_be i"] by simp
  with v show "ah_spk k = p" by (simp add: kq p q)
qed

section \<open>The pages of an address\<close>

definition start_tick_token :: "direction \<Rightarrow> tick_token_offset" where
  "start_tick_token dir =
     (case dir of Forward \<Rightarrow> \<lparr>tto_tick = tick_MIN, tto_token_id = 0\<rparr> | Backward \<Rightarrow> \<lparr>tto_tick = tick_MAX, tto_token_id = - 1\<rparr>)"

lemma resolve_tick_token_request [simp]:
  "resolve_tick_token_args (page_request off dir l) = \<lparr>ia_offset = off, ia_direction = dir, ia_limit = resolve_limit l\<rparr>"
  by (simp add: resolve_tick_token_args_def page_request_def)

lemma resolve_first_tick_token_request:
  "resolve_tick_token_args (first_request dir l) = resolve_tick_token_args (page_request (start_tick_token dir) dir l)"
  by (cases dir) (simp_all add: resolve_tick_token_args_def page_request_def first_request_def start_tick_token_def)

definition holding_offset :: "address_holding_key \<Rightarrow> tick_token_offset" where
  "holding_offset k = \<lparr>tto_tick = ah_tick k, tto_token_id = ah_token_id k\<rparr>"

text \<open>The keys that a scan can meet: ticks between the two bounds, and no other script in the way.\<close>

definition scannable :: "spk \<Rightarrow> address_holding_key set \<Rightarrow> bool" where
  "scannable p K = (separated p K \<and> (\<forall>k \<in> K. tick_MIN \<le> ah_tick k \<and> ah_tick k < tick_MAX))"

lemma in_range_of_script:
  assumes "scannable p (part_keys P)" and "r \<in> set (part_range (Included (AddressHoldingKey p t i)) hi P)"
    and "below hi (fst r) \<Longrightarrow> fst r \<le> AddressHoldingKey p t' i'"
  shows "ah_spk (fst r) = p"
proof (rule between_separated [of p "part_keys P"])
  have "(fst r, snd r) \<in> set (part_range (Included (AddressHoldingKey p t i)) hi P)" using assms(2) by simp
  then show "fst r \<in> part_keys P" "AddressHoldingKey p t i \<le> fst r" "fst r \<le> AddressHoldingKey p t' i'"
    using assms(3) by (simp_all only: in_part_range_iff part_keys_def mem_Collect_eq above.simps) auto
  show "separated p (part_keys P)" using assms(1) by (simp add: scannable_def)
qed

lemma holding_rows_script:
  assumes "scannable p (part_keys (address_holdings d))" and "r \<in> set (holding_rows d p off dir)"
  shows "ah_spk (fst r) = p"
proof (cases dir)
  case Forward
  then show ?thesis using assms(2)
    by (intro in_range_of_script [OF assms(1), where hi = "Excluded (AddressHoldingKey p tick_MAX (- 1))"
        and t' = tick_MAX and i' = "- 1"])
      (simp_all add: holding_rows_def)
next
  case Backward
  then show ?thesis using assms(2)
    by (intro in_range_of_script [OF assms(1), where hi = "Included (AddressHoldingKey p (tto_tick off) (tto_token_id off))"
        and t' = "tto_tick off" and i' = "tto_token_id off"])
      (simp_all add: holding_rows_def)
qed

lemma holding_rows_from_row:
  assumes "scannable p (part_keys (address_holdings d))" and "holding_rows d p off dir = xs @ r # ys"
  shows "holding_rows d p (holding_offset (fst r)) dir = r # ys"
proof -
  have "ah_spk (fst r) = p" using holding_rows_script [OF assms(1), of r off dir] assms(2) by simp
  then have k: "AddressHoldingKey p (tto_tick (holding_offset (fst r))) (tto_token_id (holding_offset (fst r))) = fst r"
    by (cases "fst r") (simp add: holding_offset_def)
  show ?thesis using assms(2) unfolding holding_rows_def k
    by (cases dir) (simp_all only: direction.case part_range_rows)
qed

lemma all_holding_rows:
  assumes "scannable p (part_keys (address_holdings d))"
  shows "holding_rows d p (start_tick_token dir) dir =
    in_direction dir (filter (\<lambda>(k, v). ah_spk k = p) (part_entries (address_holdings d)))"
proof -
  have bounds: "AddressHoldingKey p tick_MIN 0 \<le> k" "k < AddressHoldingKey p tick_MAX (- 1)" "k \<le> AddressHoldingKey p tick_MAX (- 1)"
    if "k \<in> part_keys (address_holdings d)" "ah_spk k = p" for k
  proof -
    obtain t i where k: "k = AddressHoldingKey p t i" using \<open>ah_spk k = p\<close> by (cases k) simp
    have "tick_MIN \<le> t" "t < tick_MAX" using \<open>k \<in> part_keys _\<close> assms by (auto simp: k scannable_def)
    then show "AddressHoldingKey p tick_MIN 0 \<le> k" "k < AddressHoldingKey p tick_MAX (- 1)" "k \<le> AddressHoldingKey p tick_MAX (- 1)"
      by (auto simp: k address_holding_key_le address_holding_key_less)
  qed
  have only: "ah_spk k = p" if "k \<in> part_keys (address_holdings d)" "AddressHoldingKey p tick_MIN 0 \<le> k"
    "k \<le> AddressHoldingKey p tick_MAX (- 1)" for k
    using that assms between_separated [of p "part_keys (address_holdings d)" k] by (auto simp: scannable_def)
  have e: "(AddressHoldingKey p tick_MIN 0 \<le> k \<and> k < AddressHoldingKey p tick_MAX (- 1)) = (ah_spk k = p)"
    "(AddressHoldingKey p tick_MIN 0 \<le> k \<and> k \<le> AddressHoldingKey p tick_MAX (- 1)) = (ah_spk k = p)"
    if "(k, v) \<in> set (part_entries (address_holdings d))" for k v
  proof -
    have k: "k \<in> part_keys (address_holdings d)" using that by (simp add: in_entries_iff part_keys_def)
    show "(AddressHoldingKey p tick_MIN 0 \<le> k \<and> k < AddressHoldingKey p tick_MAX (- 1)) = (ah_spk k = p)"
      "(AddressHoldingKey p tick_MIN 0 \<le> k \<and> k \<le> AddressHoldingKey p tick_MAX (- 1)) = (ah_spk k = p)"
      using bounds [OF k] only [OF k] by (auto simp: less_imp_le)
  qed
  have f: "filter (\<lambda>(k, v). AddressHoldingKey p tick_MIN 0 \<le> k \<and> k < AddressHoldingKey p tick_MAX (- 1)) (part_entries (address_holdings d)) =
           filter (\<lambda>(k, v). ah_spk k = p) (part_entries (address_holdings d))"
    "filter (\<lambda>(k, v). AddressHoldingKey p tick_MIN 0 \<le> k \<and> k \<le> AddressHoldingKey p tick_MAX (- 1)) (part_entries (address_holdings d)) =
           filter (\<lambda>(k, v). ah_spk k = p) (part_entries (address_holdings d))"
    by (rule filter_pair_cong, erule e)+
  show ?thesis
    unfolding holding_rows_def start_tick_token_def in_direction_def part_range_def
    by (cases dir) (simp_all add: f)
qed

text \<open>C25: A client that lists the tokens of an address and follows the offsets comes to an end and receives
  every holding of the address whose collection is visible exactly once, ordered by tick and token id, when
  all holdings are of deployed ticks other than the least one and no other script extends the script.\<close>

theorem address_nft_list_pages_enumerate:
  assumes "l \<noteq> Some 0" and "spk_of_address api address = Inr p"
    and scan: "scannable p (part_keys (address_holdings d))"
    and reg: "\<And>k. k \<in> part_keys (address_holdings d) \<Longrightarrow> registered_as d (ah_tick k) \<and> ah_tick k \<noteq> tick_MIN"
  shows "pages (\<lambda>off. api_address_nft_list api d address (page_request off dir l)) (start_tick_token dir)
    (map (nft_of_row d) (filter (shown d (api_protocols api))
      (in_direction dir (filter (\<lambda>(k, v). ah_spk k = p) (part_entries (address_holdings d))))))"
proof -
  let ?off = "\<lambda>n. \<lparr>tto_tick = an_tick n, tto_token_id = an_token_id n\<rparr>"
  let ?rows = "\<lambda>off. map (nft_of_row d) (filter (shown d (api_protocols api)) (holding_rows d p off dir))"
  have keys: "fst r \<in> part_keys (address_holdings d)" if "r \<in> set (holding_rows d p off dir)" for r off
    using that by (cases dir) (auto simp: holding_rows_def dest: part_range_key)
  have paged: "paged_rows (?rows (start_tick_token dir)) ?rows ?off"
    by (rule paged_rows_filter_map [where key = "\<lambda>r. holding_offset (fst r)"])
      (erule holding_rows_from_row [OF scan], simp add: nft_of_row_def nft_info_def holding_offset_def)
  have fetch: "api_address_nft_list api d address (page_request off dir l) =
      convert_page Inr (page (resolve_limit l) ?off (?rows off))" for off
  proof -
    have "krc721_address_nft_list d p \<lparr>ia_offset = off, ia_direction = dir, ia_limit = resolve_limit l\<rparr> (api_protocols api) =
          Inr (collect_split_last (take (resolve_limit l + 1) (?rows off)))"
      using address_nft_list_page [of _ d p "\<lparr>ia_offset = off, ia_direction = dir, ia_limit = resolve_limit l\<rparr>"] keys reg by simp
    then show ?thesis
      unfolding to_paginated_page [symmetric] by (simp add: api_address_nft_list_def address_script_def assms(2) convert_page_Inr)
  qed
  show ?thesis
    using paged_rows.pages_all [OF paged fetch resolve_limit_pos [OF assms(1)] refl collect_results_Inr]
    by (simp add: all_holding_rows [OF scan])
qed

theorem address_nft_list_pages_enumerate_witness:
  "\<exists>ns. length ns = 1 \<and>
     pages (\<lambda>off. api_address_nft_list sample_api sample_db [] (page_request off Backward (Some 1))) (start_tick_token Backward) ns"
proof -
  have "tick_MIN \<le> tick_A" and "tick_A < tick_MAX"
    by (simp_all add: less_eq_tick_def less_tick_def tick_MIN_def tick_A_def tick_MAX_def)
  then have scan: "scannable spk_A (part_keys (address_holdings sample_db))"
    by (simp add: scannable_def separated_def)
  have "shown sample_db (api_protocols sample_api) (AddressHoldingKey spk_A tick_A 1, 10)"
    using sample_visible by (simp add: shown_def)
  with address_nft_list_pages_enumerate [of "Some 1" sample_api "[]" spk_A sample_db Backward] scan
  show ?thesis
    by (intro exI conjI) (auto simp: in_direction_def part_entries_simps sample_api_def)
qed

end
