(* ===== verification/ReadModel.thy ===== *)
theory ReadModel
  imports HoldingsList AbstractLedger
begin

text \<open>
  The read side over a database that the processor has written: under the ledger invariant and the
  record of every score in the operation history, which the processing of operations keeps, no endpoint
  fails, the answers are those of the abstract ledger, and the available token ids are exactly the ids
  nobody owns.
\<close>

section \<open>Every score has its operation\<close>

definition histories_recorded :: "db \<Rightarrow> bool" where
  "histories_recorded d \<longleftrightarrow>
     (\<forall>k \<in> part_keys (ownership_history d). oh_score k \<in> part_keys (operation_history d)) \<and>
     (\<forall>k \<in> part_keys (mint_history d). mh_score k \<in> part_keys (operation_history d)) \<and>
     (\<forall>t sdi. part_get (collection_registry d) t = Some sdi \<longrightarrow> oc_tick (dw_common (sd_deploy_info sdi)) = t)"

text \<open>What one operation at a score writes to the histories and the registry.\<close>

definition writes_at :: "u64 \<Rightarrow> db \<Rightarrow> db \<Rightarrow> bool" where
  "writes_at s d d' \<longleftrightarrow>
     operation_history d' = operation_history d \<and>
     (\<forall>k \<in> part_keys (ownership_history d'). k \<in> part_keys (ownership_history d) \<or> oh_score k = s) \<and>
     (\<forall>k \<in> part_keys (mint_history d'). k \<in> part_keys (mint_history d) \<or> mh_score k = s) \<and>
     (\<forall>t sdi. part_get (collection_registry d') t = Some sdi \<longrightarrow>
        part_get (collection_registry d) t = Some sdi \<or> oc_tick (dw_common (sd_deploy_info sdi)) = t)"

lemma writes_at_refl [simp]: "writes_at s d d"
  by (simp add: writes_at_def)

lemma writes_at_trans: "writes_at s d d1 \<Longrightarrow> writes_at s d1 d2 \<Longrightarrow> writes_at s d d2"
  unfolding writes_at_def by (elim conjE, intro conjI; simp; blast)

lemma mh_score_with_seq [simp]: "mh_score (MintHistoryKey_with_seq t n i s) = s"
  by (simp add: MintHistoryKey_with_seq_def)

lemma oh_score_with_score [simp]: "oh_score (OwnershipHistoryKey_with_score t i s) = s"
  by (simp add: oh_score_def OwnershipHistoryKey_with_score_def)

lemma writes_at_record_mint: "writes_at s d (record_mint d t i n s p)"
  by (simp add: writes_at_def record_mint_def)

lemma writes_at_move: "writes_at s d (move_ownership d s t i p q)"
  by (simp add: writes_at_def move_ownership_def)

lemma writes_at_generate: "generate_token_id d t e m p = Inr (v, d1) \<Longrightarrow> writes_at s d d1"
  by (subst generate_frame, assumption) (simp add: writes_at_def)

lemma writes_at_mint: "process_mint d ent s common info dep = Inr (r, d') \<Longrightarrow> writes_at s d d'"
  by (auto simp: process_mint_def Let_def and_then_Inr_iff split: option.splits if_splits
      intro: writes_at_record_mint writes_at_trans [OF writes_at_generate writes_at_record_mint])

lemma writes_at_premint: "premint_loop n d s common info = Inr (r, d') \<Longrightarrow> writes_at s d d'"
proof (induction n arbitrary: d)
  case (Suc n)
  then obtain q d1 where m: "process_mint d 0 s common \<lparr>mi_token_id = 0, mi_to = di_deployer info, mi_royalty = None\<rparr> True = Inr (q, d1)"
    and c: "(case q of Inl e \<Rightarrow> reject d1 e | Inr _ \<Rightarrow> premint_loop n d1 s common info) = Inr (r, d')"
    by (auto simp: and_then_Inr_iff)
  have "writes_at s d1 d'" using c Suc.IH by (cases q) auto
  with writes_at_mint [OF m] show ?case by (rule writes_at_trans)
qed simp

lemma writes_at_deployment:
  assumes "process_deployment d s common info = Inr (r, d')"
  shows "writes_at s d d'"
proof (cases "part_get (collection_registry d) (oc_tick common)")
  case None
  let ?d = "d\<lparr>collection_registry := part_insert (oc_tick common)
      \<lparr>sd_deploy_score = s, sd_deploy_info = \<lparr>dw_info = info, dw_common = common\<rparr>\<rparr> (collection_registry d),
    collection_deployments := part_insert (DeploymentKey s (oc_tick common)) \<lparr>dw_info = info, dw_common = common\<rparr>
      (collection_deployments d)\<rparr>"
  have "writes_at s d ?d" by (simp add: writes_at_def)
  moreover have "writes_at s ?d d'"
    using assms None by (auto simp: process_deployment_def Let_def split: if_splits dest: writes_at_premint)
  ultimately show ?thesis by (rule writes_at_trans)
qed (use assms in \<open>auto simp: process_deployment_def split: if_splits\<close>)

lemma writes_at_listings:
  "writes_at s d (insert_listing d t i lv)" "writes_at s d d1 \<Longrightarrow> writes_at s d (remove_listing d1 t i p)"
  by (simp_all add: writes_at_def insert_listing_def remove_listing_def)

lemma case_sum_db:
  "(case r of Inl e \<Rightarrow> (Some e, op, diff, d1) | Inr u \<Rightarrow> (None, f u, g u, d1)) = (err, op', diff', d') \<Longrightarrow> d1 = d'"
  by (cases r) auto

lemma writes_at_apply:
  assumes "apply_operation p2sh d ent s op diff = Inr (err, op', diff', d')"
  shows "writes_at s d d'"
proof -
  have t: "process_transfer d s common info = Inr (r, d1) \<Longrightarrow> writes_at s d d1" for common info r d1
    by (auto simp: process_transfer_def Let_def split: option.splits if_splits intro: writes_at_move)
  have dc: "process_discount d s common info = Inr (r, d1) \<Longrightarrow> writes_at s d d1" for common info r d1
    by (auto simp: process_discount_def Let_def writes_at_def split: option.splits if_splits)
  have l: "process_list p2sh d s common info = Inr (r, d1) \<Longrightarrow> writes_at s d d1" for common info r d1
    by (auto simp: process_list_def Let_def split: option.splits if_splits intro: writes_at_listings)
  have sd: "process_send d s common info = Inr (r, d1) \<Longrightarrow> writes_at s d d1" for common info r d1
    by (auto simp: process_send_def Let_def split: option.splits if_splits intro: writes_at_listings writes_at_move)
  note handlers = writes_at_deployment writes_at_mint t dc l sd
  show ?thesis
    using assms
    by (cases "op_info op")
      (auto simp: apply_operation_def Let_def and_then_Inr_iff dest!: case_sum_db dest: handlers)
qed

lemma histories_recorded_step:
  assumes "histories_recorded d" and "writes_at s d d1"
  shows "histories_recorded (record_operation d1 s op err)"
  using assms unfolding histories_recorded_def writes_at_def by (auto simp: record_operation_def) metis

lemma process_nft_operations_histories:
  "process_nft_operations p2sh d cxs diff = Inr (diff', d') \<Longrightarrow> histories_recorded d \<Longrightarrow> histories_recorded d'"
proof (induction p2sh d cxs diff rule: process_nft_operations.induct)
  case (2 p2sh d cx cxs diff)
  then obtain err op diff1 d1 where a: "apply_operation p2sh d (cx_mergeset_entropy cx) (cx_tx_score cx) (cx_operation cx) diff = Inr (err, op, diff1, d1)"
    and p: "process_nft_operations p2sh (record_operation d1 (cx_tx_score cx) op err) cxs diff1 = Inr (diff', d')"
    by (auto simp: and_then_Inr_iff)
  show ?case by (rule 2(1) [OF p histories_recorded_step [OF 2(3) writes_at_apply [OF a]]])
qed simp

text \<open>C27: Processing operations keeps the history complete: every entry of the ownership and mint histories
  has the operation of its score on record, and every collection is registered under its own tick.\<close>

theorem process_nft_operations_keeps_histories:
  assumes "histories_recorded d" and "process_nft_operations p2sh d cxs diff = Inr (diff', d')"
  shows "histories_recorded d'"
  using assms(2,1) by (rule process_nft_operations_histories)

lemma chain_state_histories [simp]:
  "histories_recorded (d\<lparr>chain_block_scores := x, blockhash_to_score := y\<rparr>) = histories_recorded d"
  "histories_recorded (d\<lparr>chain_block_scores := x\<rparr>) = histories_recorded d"
  by (simp_all add: histories_recorded_def)

lemma add_mergeset_histories:
  "add_mergeset msl p2sh b d m diff = Inr (diff', d') \<Longrightarrow> histories_recorded d \<Longrightarrow> histories_recorded d'"
  by (auto simp: add_mergeset_def Let_def and_then_Inr_iff split: prod.splits if_splits dest!: process_nft_operations_histories)

lemma add_mergesets_histories:
  "add_mergesets msl p2sh b d ms diff = Inr (diff', d') \<Longrightarrow> histories_recorded d \<Longrightarrow> histories_recorded d'"
  by (induction ms arbitrary: d diff) (auto simp: and_then_Inr_iff dest!: add_mergeset_histories)

lemma process_batches_histories:
  "process_batches msl p2sh d bs = Inr d' \<Longrightarrow> histories_recorded d \<Longrightarrow> histories_recorded d'"
  by (induction bs arbitrary: d) (auto simp: process_additions_def and_then_Inr_iff Let_def dest!: add_mergesets_histories)

lemma deployment_of_A: "\<exists>diff. process_nft_operations (\<lambda>_. spk_A) db_empty [cx_deploy] stats_default =
    Inr (diff, record_operation db_A 10 (cx_operation cx_deploy) None)"
  using db_A(1) by (simp add: cx_deploy_def apply_operation_def deploy_A_def Let_def)

lemma histories_recorded_empty [simp]: "histories_recorded db_empty"
  by (simp add: histories_recorded_def db_empty_def)

theorem process_nft_operations_keeps_histories_witness:
  "histories_recorded (record_operation db_A 10 (cx_operation cx_deploy) None)"
  using deployment_of_A process_nft_operations_keeps_histories [OF histories_recorded_empty] by blast

text \<open>The database after the deployment of the sample collection.\<close>

definition db_R :: db where
  "db_R = record_operation db_A 10 (cx_operation cx_deploy) None"

lemma db_R [simp]:
  "ledger_ok db_R" "histories_recorded db_R"
  "part_get (operation_history db_R) 10 = Some \<lparr>co_operation = cx_operation cx_deploy, co_error = None\<rparr>"
proof -
  show "histories_recorded db_R" unfolding db_R_def
    by (rule histories_recorded_step [OF histories_recorded_empty writes_at_deployment [OF db_A(1)]])
  show "ledger_ok db_R" by (simp add: db_R_def db_A(2))
qed (simp add: db_R_def record_operation_def)

lemma db_R_tokens [simp]:
  "part_get (collection_registry db_R) tick_A = Some \<lparr>sd_deploy_score = 10, sd_deploy_info = sample_deployment\<rparr>"
  "part_get (current_ownership db_R) (OwnershipKey tick_A i) =
     (if 0 < i \<and> i \<le> 2 then Some \<lparr>co_owner = spk_A, co_mod_tx_score = 10\<rparr> else None)"
  "listings db_R = part_empty"
  using db_A(4-6) by (simp_all add: db_R_def record_operation_def sample_deployment_def)

lemma db_R_visible [simp]: "visible_collection db_R tick_A [[]] \<noteq> None"
  by (simp add: visible_collection_def incompatible_def)

section \<open>No endpoint fails\<close>

lemma process_iter_total:
  assumes "\<And>r. r \<in> set rows \<Longrightarrow> \<exists>y. f (fst r) (snd r) = Inr y"
  shows "\<exists>page. process_iter rows limit f = Inr page"
proof -
  have "f k v = Inr (projr (f k v))" if "(k, v) \<in> set (take (limit + 1) rows)" for k v
    using assms [of "(k, v)"] in_set_takeD [OF that] by auto
  then show ?thesis using process_iter_Inr [of limit rows f "\<lambda>k v. projr (f k v)"] by blast
qed

lemma push_loop_total:
  "(\<And>r. r \<in> set rows \<Longrightarrow> part_get (collection_registry d) (ah_tick (fst r)) \<noteq> None) \<Longrightarrow>
   \<exists>s'. push_loop d protocols limit s rows = Inr s'"
proof (induction rows arbitrary: s)
  case (Cons r rows)
  obtain depl where "part_get (collection_registry d) (ah_tick (fst r)) = Some depl" using Cons.prems [of r] by auto
  then have "\<exists>x. conditional_push d protocols limit s r = Inr x"
    by (cases r) (auto simp: conditional_push_def Let_def split: if_splits)
  then obtain s1 go where c: "conditional_push d protocols limit s r = Inr (s1, go)" by auto
  have "\<exists>s'. push_loop d protocols limit s1 rows = Inr s'" using Cons by simp
  with c show ?case by (cases go) auto
qed simp

lemma owned_registered: "ledger_ok d \<Longrightarrow> owned d t i \<Longrightarrow> part_get (collection_registry d) t \<noteq> None"
  by (auto simp: ledger_ok_def tick_ok_def untouched_def split: option.splits)

lemma holding_owned: "ledger_ok d \<Longrightarrow> k \<in> part_keys (address_holdings d) \<Longrightarrow> owned d (ah_tick k) (ah_token_id k)"
  by (cases k) (auto simp: ledger_ok_def holdings_ok_def part_keys_def owned_def)

lemma listing_of_index:
  assumes "ledger_ok d"
  shows "k \<in> part_keys (listings_by_tick d) \<Longrightarrow> \<exists>e. listing_entry_of d (lt_tick k) (lt_token_id k) = Inr e"
    and "h \<in> part_keys (address_listings d) \<Longrightarrow> \<exists>e. listing_entry_of d (ah_tick h) (ah_token_id h) = Inr e"
  using assms
  by (cases k, auto simp: ledger_ok_def listings_ok_def part_keys_def listing_entry_of_def token_listing_def)
    (cases h, auto simp: ledger_ok_def listings_ok_def part_keys_def listing_entry_of_def token_listing_def)

lemma minted_recorded:
  assumes "histories_recorded d" and "last_minted_token_seq_no t (mint_history d) = Some r"
  shows "\<exists>v. part_get (operation_history d) (ts_score r) = Some v"
  using assms last_minted_SomeD(1) [OF assms(2)] by (auto simp: histories_recorded_def part_keys_def) 

lemma collection_entry_total: "histories_recorded d \<Longrightarrow> \<exists>c. collection_entry d k info = Inr c"
  using minted_recorded [of d "dk_tick k"]
  by (cases "last_minted_token_seq_no (dk_tick k) (mint_history d)") (force simp: collection_entry_def Let_def)+

text \<open>On a sound database no list of the API fails: neither a missing operation, nor a missing collection, nor
  an entry of the listing indexes without its listing is ever met.\<close>

lemma lists_total:
  assumes "ledger_ok d" and "histories_recorded d"
  shows "\<exists>page. krc721_collection_list d a protocols = Inr page"
    and "\<exists>page. krc721_token_history_list d t i a protocols = Inr page"
    and "\<exists>page. krc721_address_nft_list d p b protocols = Inr page"
    and "\<exists>page. krc721_active_listings d t a = Inr page"
    and "\<exists>page. krc721_address_listings d p b = Inr page"
proof -
  show "\<exists>page. krc721_collection_list d a protocols = Inr page"
    unfolding krc721_collection_list_def by (intro process_iter_total collection_entry_total assms(2))
  have h: "\<exists>y. history_entry d (fst r) (snd r) = Inr y" if "r \<in> set (history_rows d t i off dir)" for r off dir
  proof -
    have "fst r \<in> part_keys (ownership_history d)"
      using that by (cases dir) (auto simp: history_rows_def dest: part_range_key)
    then show ?thesis using assms(2) by (auto simp: histories_recorded_def history_entry_def part_keys_def)
  qed
  then show "\<exists>page. krc721_token_history_list d t i a protocols = Inr page"
    by (auto simp: krc721_token_history_list_def split: option.split intro: process_iter_total)
  have "part_get (collection_registry d) (ah_tick (fst r)) \<noteq> None" if "r \<in> set (holding_rows d p off dir)" for r off dir
  proof -
    have "fst r \<in> part_keys (address_holdings d)"
      using that by (cases dir) (auto simp: holding_rows_def dest: part_range_key)
    then show ?thesis by (rule owned_registered [OF assms(1) holding_owned [OF assms(1)]])
  qed
  then obtain s' where "push_loop d protocols (ia_limit b) push_start (holding_rows d p (ia_offset b) (ia_direction b)) = Inr s'"
    using push_loop_total [of "holding_rows d p (ia_offset b) (ia_direction b)" d] by blast
  then show "\<exists>page. krc721_address_nft_list d p b protocols = Inr page"
    by (simp add: krc721_address_nft_list_def)
  have "\<exists>y. listing_entry_of d (lt_tick (fst r)) (lt_token_id (fst r)) = Inr y" if "r \<in> set (listing_rows d t off dir)" for r off dir
    using that by (cases dir) (auto simp: listing_rows_def dest: part_range_key intro: listing_of_index(1) [OF assms(1)])
  then show "\<exists>page. krc721_active_listings d t a = Inr page"
    by (auto simp: krc721_active_listings_def split: option.split intro: process_iter_total)
  have "\<exists>y. listing_entry_of d (ah_tick (fst r)) (ah_token_id (fst r)) = Inr y" if "r \<in> set (address_listing_rows d p off dir)" for r off dir
    using that by (cases dir) (auto simp: address_listing_rows_def dest: part_range_key intro: listing_of_index(2) [OF assms(1)])
  then show "\<exists>page. krc721_address_listings d p b = Inr page"
    unfolding krc721_address_listings_def by (intro process_iter_total)
qed

section \<open>The available token ids\<close>

definition range_pair :: "available_range \<Rightarrow> u64 \<times> u64" where
  "range_pair r = (ar_start_token_id r, ar_size r)"

definition answer_ids :: "available_ranges \<Rightarrow> nat list" where
  "answer_ids a = (case a of FullyMinted \<Rightarrow> [] | Available rs \<Rightarrow> ids_of (map range_pair rs))"

definition as_range :: "range_key \<times> u64 \<times> u64 \<Rightarrow> available_range" where
  "as_range = (\<lambda>(_, start, sz). \<lparr>ar_start_token_id = start, ar_size = sz\<rparr>)"

lemma sorted_set_eq:
  assumes "al_sorted xs" and "al_sorted ys" and "set xs = set ys"
  shows "xs = ys"
proof (rule al_sorted_ext [OF assms(1,2)])
  show "map_of xs = map_of ys"
    using assms by (simp add: map_of_inject_set al_sorted_distinct)
qed

lemma stored_ranges:
  assumes "ranges_rep d t L"
  shows "part_range (Included (RangeKey t 0)) (Excluded (RangeKey t (- 1))) (available_ranges d) =
    map (\<lambda>i. (RangeKey t (word_of_nat i), L ! i)) [0..<length L]"
proof (rule sorted_set_eq [OF part_range_sorted])
  have l: "length L < 2 ^ 64" using assms by (simp add: ranges_rep_def)
  have u: "unat (word_of_nat i :: u64) = i" if "i < length L" for i using that l by (intro unat_u64_of_nat) simp
  show "al_sorted (map (\<lambda>i. (RangeKey t (word_of_nat i), L ! i)) [0..<length L])"
    using u by (simp add: sorted_wrt_map sorted_wrt_iff_nth_less range_key_less word_less_nat_alt)
  show "set (part_range (Included (RangeKey t 0)) (Excluded (RangeKey t (- 1))) (available_ranges d)) =
    set (map (\<lambda>i. (RangeKey t (word_of_nat i), L ! i)) [0..<length L])"
  proof (intro set_eqI iffI)
    fix x assume "x \<in> set (part_range (Included (RangeKey t 0)) (Excluded (RangeKey t (- 1))) (available_ranges d))"
    then obtain i v where x: "x = (RangeKey t i, v)" and g: "part_get (available_ranges d) (RangeKey t i) = Some v"
    proof -
      obtain t' i v where x: "x = (RangeKey t' i, v)" by (metis prod.collapse range_key.exhaust)
      assume "x \<in> set (part_range (Included (RangeKey t 0)) (Excluded (RangeKey t (- 1))) (available_ranges d))"
      then have "part_get (available_ranges d) (RangeKey t' i) = Some v" "t' = t"
        by (auto simp: x in_part_range_iff range_key_le range_key_less)
      with x that show thesis by blast
    qed
    then have "unat i < length L" "v = L ! unat i" using assms by (auto simp: ranges_rep_def split: if_splits)
    then show "x \<in> set (map (\<lambda>i. (RangeKey t (word_of_nat i), L ! i)) [0..<length L])"
      using x by (auto intro!: image_eqI [of _ _ "unat i"])
  next
    fix x assume "x \<in> set (map (\<lambda>i. (RangeKey t (word_of_nat i), L ! i)) [0..<length L])"
    then obtain i where i: "i < length L" and x: "x = (RangeKey t (word_of_nat i), L ! i)" by auto
    have "(word_of_nat i :: u64) < - 1" using u [OF i] i l by (simp add: word_less_nat_alt unat_max_u64)
    then show "x \<in> set (part_range (Included (RangeKey t 0)) (Excluded (RangeKey t (- 1))) (available_ranges d))"
      using assms u [OF i] i by (simp add: x in_part_range_iff ranges_rep_def range_key_le range_key_less)
  qed
qed

lemma stored_ranges_answer:
  "ranges_rep d t L \<Longrightarrow>
   map range_pair (map as_range (part_range (Included (RangeKey t 0)) (Excluded (RangeKey t (- 1))) (available_ranges d))) = L"
  by (simp add: stored_ranges as_range_def range_pair_def comp_def case_prod_beta map_nth)

lemma fresh_ranges_answer:
  "ranges_fresh d t \<Longrightarrow> part_range (Included (RangeKey t 0)) (Excluded (RangeKey t (- 1))) (available_ranges d) = []"
proof -
  assume f: "ranges_fresh d t"
  have "(k, v) \<notin> set (part_range (Included (RangeKey t 0)) (Excluded (RangeKey t (- 1))) (available_ranges d))" for k v
    using f by (cases k) (auto simp: in_part_range_iff ranges_fresh_def range_key_le range_key_less)
  then show ?thesis by (metis list.set_intros(1) neq_Nil_conv surj_pair)
qed

lemma printable_ranges: "ranges_ok m (map range_pair rs) \<Longrightarrow> list_all range_printable rs"
  by (auto simp: ranges_ok_def range_pair_def range_printable_def list_all_iff)

lemma answer_serializes:
  "ranges_ok m (map range_pair rs) \<Longrightarrow> \<exists>text. available_ranges_serialize (Available rs) = Inr text"
  using capacity_sum_ok [OF printable_ranges] by (simp add: available_ranges_serialize_def ranges_capacity_def)

text \<open>An answer that lists the ids of the supply nobody owns, each once, and that can be written.\<close>

definition answers_free :: "db \<Rightarrow> tick \<Rightarrow> u64 \<Rightarrow> available_ranges \<Rightarrow> bool" where
  "answers_free d t m a \<longleftrightarrow>
     distinct (answer_ids a) \<and>
     (\<forall>i. unat i \<in> set (answer_ids a) \<longleftrightarrow> 0 < i \<and> i \<le> m \<and> \<not> owned d t i) \<and>
     (\<exists>text. available_ranges_serialize a = Inr text)"

lemma FullyMinted_answers:
  "(\<And>i. owned d t i \<longleftrightarrow> 0 < i \<and> i \<le> m) \<Longrightarrow> answers_free d t m FullyMinted"
  by (simp add: answers_free_def answer_ids_def available_ranges_serialize_def)

lemma Available_answers:
  assumes w: "ranges_wf m p (map range_pair rs)"
    and o: "\<And>i. owned d t i \<longleftrightarrow> 0 < i \<and> i \<le> m \<and> unat i \<notin> set (ids_of (map range_pair rs))"
  shows "answers_free d t m (Available rs)"
proof -
  have "0 < i \<and> i \<le> m" if "unat i \<in> set (ids_of (map range_pair rs))" for i
    using that w by (auto simp: ranges_wf_def word_less_nat_alt word_le_nat_alt)
  then have "unat i \<in> set (ids_of (map range_pair rs)) \<longleftrightarrow> 0 < i \<and> i \<le> m \<and> \<not> owned d t i" for i
    using o by blast
  moreover have "\<exists>text. available_ranges_serialize (Available rs) = Inr text"
    using w by (intro answer_serializes [of m]) (simp add: ranges_wf_def)
  ultimately show ?thesis using w by (simp add: answers_free_def answer_ids_def ranges_wf_def)
qed

lemma exhausted_ids:
  assumes "ranges_wf m p L" and "length (ids_of L) = unat m" and "0 < i" and "i \<le> m"
  shows "unat i \<in> set (ids_of L)"
proof -
  have "distinct (ids_of L)" and sub: "set (ids_of L) \<subseteq> {1..unat m}"
    using assms(1) by (auto simp: ranges_wf_def)
  then have "card (set (ids_of L)) = card {1..unat m}" using assms(2) by (simp add: distinct_card)
  then have "set (ids_of L) = {1..unat m}" using sub by (intro card_subset_eq) auto
  then show ?thesis using assms(3,4) by (auto simp: word_less_nat_alt word_le_nat_alt)
qed

text \<open>What the supply invariant says once the premint is done: all ids are owned, or the ranges hold the others.\<close>

lemma supply_inv_full:
  assumes "supply_inv d t m p m L"
  shows "owned d t i \<longleftrightarrow> 0 < i \<and> i \<le> m"
proof (cases "p = m")
  case False
  then have "length (ids_of L) = 0" "owned d t i \<longleftrightarrow> 0 < i \<and> i \<le> m \<and> unat i \<notin> set (ids_of L)"
    using assms by (simp_all add: supply_inv_def not_less)
  then show ?thesis by (simp only: length_0_conv) simp
qed (use assms in \<open>auto simp: supply_inv_def\<close>)

lemma supply_inv_left:
  assumes "supply_inv d t m p n L" and "p \<le> n" and "n \<noteq> m"
  shows "tick_ranges d t m p L" "ranges_wf m p L" "length (ids_of L) = unat m - unat n" "p < m" "n < m"
    "owned d t i \<longleftrightarrow> 0 < i \<and> i \<le> m \<and> unat i \<notin> set (ids_of L)"
  using assms by (auto simp: supply_inv_def not_less)

lemma supply_inv_unminted:
  assumes "supply_inv d t m p 0 L" and "p \<le> 0"
  shows "\<not> owned d t i"
  using assms exhausted_ids [of m p L i] by (cases "m = 0") (auto simp: supply_inv_def)

lemma stored_answer:
  assumes "tick_ranges d t m p L" and "L \<noteq> []"
  defines "R \<equiv> map as_range (part_range (Included (RangeKey t 0)) (Excluded (RangeKey t (- 1))) (available_ranges d))"
  shows "map range_pair (if R = [] then [\<lparr>ar_start_token_id = p + 1, ar_size = m - p\<rparr>] else R) = L"
  using assms(1) unfolding tick_ranges_def
proof
  assume "ranges_rep d t L"
  from stored_ranges_answer [OF this] assms(2) show ?thesis by (auto simp: R_def)
next
  assume "ranges_fresh d t \<and> L = initial_ranges m p"
  then show ?thesis by (simp add: R_def fresh_ranges_answer range_pair_def initial_ranges_def add.commute)
qed

lemma available_answer:
  assumes inv: "supply_inv d t (di_max info) (di_premint info) n L" and pn: "di_premint info \<le> n"
    and reg: "part_get (collection_registry d) t = Some sdi" and info: "info = dw_info (sd_deploy_info sdi)"
  shows "\<exists>a. krc721_available_token_id_ranges d t = Some a \<and> answers_free d t (di_max info) a"
proof (cases "last_minted_token_seq_no t (mint_history d)")
  case None
  let ?a = "Available [\<lparr>ar_start_token_id = 1, ar_size = di_max info\<rparr>]"
  have n0: "n = 0" using supply_inv_last_seq [OF inv] None by (simp add: last_seq_def)
  have "answers_free d t (di_max info) (if di_max info = 0 then FullyMinted else ?a)"
  proof (cases "di_max info = 0")
    case False
    have w: "ranges_wf (di_max info) 0 (map range_pair [\<lparr>ar_start_token_id = 1, ar_size = di_max info\<rparr>])"
      using initial_ranges_wf [of 0 "di_max info"] False by (simp add: initial_ranges_def range_pair_def word_neq_0_conv)
    have "set (ids_of (map range_pair [\<lparr>ar_start_token_id = 1, ar_size = di_max info\<rparr>])) = {1..unat (di_max info)}"
      by (auto simp: range_pair_def ids_of_def range_ids_def)
    then have "answers_free d t (di_max info) ?a"
      using supply_inv_unminted [of d t "di_max info" "di_premint info" L] inv pn n0
      by (intro Available_answers [OF w]) (auto simp: word_less_nat_alt word_le_nat_alt)
    with False show ?thesis by simp
  qed (use inv n0 supply_inv_full in \<open>auto intro: FullyMinted_answers\<close>)
  then show ?thesis by (simp add: krc721_available_token_id_ranges_def reg None info Let_def split: if_splits)
next
  case (Some r)
  then have nr: "ts_seq_no r = n" using supply_inv_last_seq [OF inv] by (simp add: last_seq_def)
  show ?thesis
  proof (cases "n = di_max info")
    case True
    then show ?thesis using supply_inv_full inv nr
      by (auto simp: krc721_available_token_id_ranges_def reg Some info [symmetric] Let_def intro!: FullyMinted_answers)
  next
    case False
    note left = supply_inv_left [OF inv pn False]
    have "L \<noteq> []" using left(3,5) by (auto simp: word_less_nat_alt)
    from stored_answer [OF left(1) this] obtain rs where rs: "map range_pair rs = L"
      and "krc721_available_token_id_ranges d t = Some (Available rs)"
      using False left(4) by (simp add: krc721_available_token_id_ranges_def reg Some info [symmetric] nr Let_def as_range_def)
    then show ?thesis using Available_answers [of "di_max info" "di_premint info" rs d t] left(2,6) by auto
  qed
qed

text \<open>C17: For a collection whose premint is done the answer lists exactly the ids that can still be minted, each of
  them once: the ids of the supply that nobody owns, before the first random mint as well as after it and at
  the end; and the answer can be written without a panic.\<close>

theorem available_ranges_are_the_free_ids:
  assumes "ledger_ok d" and reg: "part_get (collection_registry d) t = Some sdi"
    and info: "info = dw_info (sd_deploy_info sdi)" and pre: "di_premint info \<le> last_seq t (mint_history d)"
  shows "\<exists>a. krc721_available_token_id_ranges d t = Some a \<and> distinct (answer_ids a) \<and>
    (\<forall>i. unat i \<in> set (answer_ids a) \<longleftrightarrow> 0 < i \<and> i \<le> di_max info \<and> \<not> owned d t i) \<and>
    (\<exists>text. available_ranges_serialize a = Inr text)"
proof -
  obtain n L where inv: "supply_inv d t (di_max info) (di_premint info) n L"
    using assms(1) reg by (auto simp: ledger_ok_def tick_ok_def supply_ok_def info split: option.splits dest!: spec [of _ t])
  with pre have "di_premint info \<le> n" by (simp add: supply_inv_last_seq)
  from available_answer [OF inv this reg info] show ?thesis by (simp add: answers_free_def)
qed

lemma db_R_premint: "di_premint deploy_A \<le> last_seq tick_A (mint_history db_R)"
proof (rule ccontr)
  assume less: "\<not> di_premint deploy_A \<le> last_seq tick_A (mint_history db_R)"
  obtain n L where inv: "supply_inv db_R tick_A (di_max deploy_A) (di_premint deploy_A) n L"
    using db_R(1) by (auto simp: ledger_ok_def tick_ok_def supply_ok_def split: option.splits dest!: spec [of _ tick_A])
  with less have "n < di_premint deploy_A" by (simp add: supply_inv_last_seq)
  then have "owned db_R tick_A 2 \<longleftrightarrow> (2 :: u64) \<le> n" and "n < 2" using inv by (auto simp: supply_inv_def deploy_A_def)
  then show False by (simp add: owned_def)
qed

theorem available_ranges_are_the_free_ids_witness:
  "\<exists>a. krc721_available_token_id_ranges db_R tick_A = Some a \<and> 2 \<notin> set (answer_ids a) \<and> 3 \<in> set (answer_ids a)"
proof -
  obtain a where a: "krc721_available_token_id_ranges db_R tick_A = Some a"
    "\<And>i. unat i \<in> set (answer_ids a) \<longleftrightarrow> 0 < i \<and> i \<le> di_max deploy_A \<and> \<not> owned db_R tick_A i"
    using available_ranges_are_the_free_ids [OF db_R(1) db_R_tokens(1), of deploy_A] db_R_premint by auto
  from a(2) [of 2] a(2) [of 3] show ?thesis using a(1) by (auto simp: owned_def deploy_A_def)
qed

section \<open>Tokens and their history\<close>

text \<open>C16: The answer on a token is read off the abstract ledger: there is one exactly when the collection is visible
  and the token is owned, it names the owner, and it shows the token for sale exactly when the ledger has a
  sale, which is then by that owner and by the listing transaction that the answer names.\<close>

theorem token_lookup_refines_the_ledger:
  assumes "ledger_ok d"
  shows "map_option te_owner (krc721_token_lookup d t i protocols) =
      (if visible_collection d t protocols = None then None else lg_owner (abs_ledger d) t i) \<and>
    (\<forall>e. krc721_token_lookup d t i protocols = Some e \<longrightarrow>
      token_status_of (te_listing e) =
        (case lg_sale (abs_ledger d) t i of
           None \<Rightarrow> unlisted
         | Some (seller, tx) \<Rightarrow> (token_status_of (te_listing e))\<lparr>st_state := Listed, st_listing_tx_id := Some tx\<rparr>) \<and>
      (\<forall>seller tx. lg_sale (abs_ledger d) t i = Some (seller, tx) \<longrightarrow> seller = te_owner e))"
proof -
  have s: "\<exists>s. part_get (current_ownership d) (OwnershipKey t i) = Some \<lparr>co_owner = lv_seller lv, co_mod_tx_score = s\<rparr>"
    if "part_get (listings d) (OwnershipKey t i) = Some lv" for lv
    using assms that by (simp add: ledger_ok_def listings_ok_def)
  show ?thesis
    by (auto simp: krc721_token_lookup_def token_listing_def token_status_of_def listed_def unlisted_def
        split: option.splits dest!: s)
qed

theorem token_lookup_refines_the_ledger_witness:
  "map_option te_owner (krc721_token_lookup db_R tick_A 2 [[]]) = Some spk_A"
  using token_lookup_refines_the_ledger [OF db_R(1), of tick_A 2 "[[]]"] by (simp add: abs_ledger_def)

lemma history_rows_key:
  "r \<in> set (history_rows d t i off dir) \<Longrightarrow> fst r \<in> part_keys (ownership_history d)"
  by (cases dir) (auto simp: history_rows_def dest: part_range_key)

text \<open>C28: The history of an owned token, newest first, starts with the present owner and the score and the
  transaction by which it became the owner.\<close>

theorem token_history_starts_with_the_owner:
  assumes l: "ledger_ok d" and h: "histories_recorded d"
    and co: "part_get (current_ownership d) (OwnershipKey t i) = Some co"
    and vis: "visible_collection d t protocols \<noteq> None"
  shows "\<exists>c lst op. krc721_token_history_list d t i \<lparr>ia_offset = - 1, ia_direction = Backward, ia_limit = limit\<rparr> protocols
      = Inr (Some (c, lst)) \<and>
    part_get (operation_history d) (co_mod_tx_score co) = Some op \<and>
    hd (c @ [lst]) = \<lparr>hr_owner = co_owner co, hr_mod_tx_score = co_mod_tx_score co,
      hr_tx_id = oc_tx_id (op_common (co_operation op))\<rparr>"
proof -
  let ?rows = "history_rows d t i (- 1) Backward"
  let ?k = "OwnershipHistoryKey_with_score t i (co_mod_tx_score co)"
  have lo: "last_owner_with_tx_mod_score (OwnershipKey t i) (ownership_history d) = Some (co_owner co, co_mod_tx_score co)"
    using l co by (auto simp: ledger_ok_def history_ok_def)
  note last = last_owner_SomeD [OF this, simplified]
  have rows: "?rows = part_range (Included (OwnershipHistoryKey t i 0)) (Included (OwnershipHistoryKey t i (- 1))) (ownership_history d)"
    by (simp add: history_rows_def OwnershipHistoryKey_with_score_def rev_u64_def)
  have "(?k, co_owner co) \<in> set ?rows"
    using last(1) by (simp add: rows in_part_range_iff OwnershipHistoryKey_with_score_def ownership_history_key_le)
  then obtain r rs where c: "?rows = r # rs" by (cases ?rows) auto
  have le: "fst r \<le> ?k" using part_range_sorted rows c \<open>(?k, co_owner co) \<in> set ?rows\<close> by (metis al_sorted_hd fst_conv)
  have r: "r = (?k, co_owner co)"
  proof -
    have m: "(fst r, snd r) \<in> set ?rows" using c by simp
    then obtain n where k: "fst r = OwnershipHistoryKey_with_score t i n" and g: "part_get (ownership_history d) (fst r) = Some (snd r)"
      by (cases "fst r") (auto simp: rows in_part_range_iff ownership_history_key_le OwnershipHistoryKey_with_score_def,
          metis rev_u64_invol)
    have "n \<le> co_mod_tx_score co" using last(2) [of n] g k by (simp add: part_keys_def)
    moreover have "co_mod_tx_score co \<le> n" using le k by (simp add: OwnershipHistoryKey_with_score_def ownership_history_key_le)
    ultimately show ?thesis using k g last(1) by (cases r) auto
  qed
  have "?k \<in> part_keys (ownership_history d)" using last(1) by (simp add: part_keys_def)
  then obtain op where op: "part_get (operation_history d) (co_mod_tx_score co) = Some op"
    using h by (auto simp: histories_recorded_def part_keys_def dest!: bspec)
  have "history_entry d k v = Inr (projr (history_entry d k v))" if "(k, v) \<in> set ?rows" for k v
    using history_rows_key [OF that] h by (auto simp: histories_recorded_def history_entry_def part_keys_def)
  then have "process_iter ?rows limit (history_entry d) =
    Inr (collect_split_last (take (limit + 1) (map (\<lambda>(k, v). projr (history_entry d k v)) ?rows)))"
    by (intro process_iter_Inr) (meson in_set_takeD)
  moreover have "projr (history_entry d ?k (co_owner co)) = \<lparr>hr_owner = co_owner co, hr_mod_tx_score = co_mod_tx_score co,
      hr_tx_id = oc_tx_id (op_common (co_operation op))\<rparr>"
    by (simp add: history_entry_def op)
  ultimately show ?thesis using vis op
    by (auto simp: krc721_token_history_list_def c r collect_split_last append_butlast_last_id simp del: append_butlast_last_id)
qed

theorem token_history_starts_with_the_owner_witness:
  "\<exists>c lst. krc721_token_history_list db_R tick_A 1 \<lparr>ia_offset = - 1, ia_direction = Backward, ia_limit = 3\<rparr> [[]] = Inr (Some (c, lst)) \<and>
    hr_owner (hd (c @ [lst])) = spk_A"
proof -
  have "part_get (current_ownership db_R) (OwnershipKey tick_A 1) = Some \<lparr>co_owner = spk_A, co_mod_tx_score = 10\<rparr>" by simp
  from token_history_starts_with_the_owner [OF db_R(1,2) this db_R_visible, of 3] show ?thesis by auto
qed

end
