(* ===== verification/Rpc.thy ===== *)
theory Rpc
  imports Messages
begin

text \<open>
  The RPC interface of an indexer: the operations (\<^verbatim>\<open>rpc/core/src/ops.rs\<close>), the calls of \<^verbatim>\<open>nexus/src/nexus.rs\<close>
  over the endpoints of the accessor, the methods that the server registers (\<^verbatim>\<open>rpc/server/src/router.rs\<close> with
  the macro of \<^verbatim>\<open>macros/src/wrpc/server.rs\<close>) and the calls of the client (\<^verbatim>\<open>rpc/client/src/client.rs\<close>,
  \<^verbatim>\<open>macros/src/wrpc/client.rs\<close>). The transport between them is an argument.
\<close>

section \<open>Operations\<close>

datatype rpc_api_ops =
    Notify | Subscribe | Ping | GetSyncStatus | GetStatus | GetCollectionList | GetCollection | GetTokenList | GetToken
  | GetAddressList | GetAddressLookup | GetOpList | GetOpByScore | GetOpByTxid | GetDeploymentList | GetRoyaltyFee
  | GetRejectionByTxid | GetReservedTokens | GetAvailableTokenIdRanges | GetTokenHistory

section \<open>The calls of an indexer\<close>

text \<open>A running indexer as its RPC server sees it, and the results of its calls.\<close>

record 'a node =
  nd_api :: "'a api"
  nd_db :: db
  nd_validation_text :: "ctx_validation_error \<Rightarrow> ustring"
  nd_error_text :: "core_error \<Rightarrow> ustring"
  nd_mergeset_size_limit :: u64
  nd_inputs :: status_inputs
  nd_version :: ustring
  nd_network :: network

type_synonym 'r node_call = "accessor_state \<Rightarrow> 'r core_result \<times> accessor_state"

text \<open>Every endpoint but the status only counts the request.\<close>

definition answered :: "('v \<Rightarrow> 'r) \<Rightarrow> 'v core_result \<Rightarrow> 'r node_call" where
  "answered f r s = (map_sum id f r, track_request s)"

definition node_status :: "'a node \<Rightarrow> status_answer node_call" where
  "node_status n s =
     (case krc721_indexer_status (nd_mergeset_size_limit n) (nd_db n) (nd_inputs n) s of
        (status, s') \<Rightarrow> (Inr (indexer_status.extend status \<lparr>is_version = nd_version n, is_network = nd_network n\<rparr>), s'))"

definition subscribe_call :: "'a node \<Rightarrow> 'a subscribe_request \<Rightarrow> subscribe_response node_call" where
  "subscribe_call n q s = (Inr SubscribeResponse, s)"

definition ping_call :: "'a node \<Rightarrow> ping_request \<Rightarrow> ping_response node_call" where
  "ping_call n q s = (Inr PingResponse, s)"

definition get_sync_status_call :: "'a node \<Rightarrow> get_sync_status_request \<Rightarrow> get_sync_status_response node_call" where
  "get_sync_status_call n q s =
     (Inr (GetSyncStatusResponse (sx_node_connected (nd_inputs n)) (sx_node_synced (nd_inputs n))
        (case sx_syncer (nd_inputs n) of Some (synced, _) \<Rightarrow> synced | None \<Rightarrow> False)), s)"

definition get_status_call :: "'a node \<Rightarrow> get_status_request \<Rightarrow> get_status_response node_call" where
  "get_status_call n q s = (case node_status n s of (r, s') \<Rightarrow> (map_sum id GetStatusResponse r, s'))"

definition get_collection_list_call ::
  "'a node \<Rightarrow> get_collection_list_request \<Rightarrow> 'a get_collection_list_response node_call" where
  "get_collection_list_call n q =
     (case q of GetCollectionListRequest iter_args \<Rightarrow>
        answered GetCollectionListResponse (api_collection_list (nd_api n) (nd_db n) iter_args))"

definition get_collection_call :: "'a node \<Rightarrow> get_collection_request \<Rightarrow> 'a get_collection_response node_call" where
  "get_collection_call n q =
     (case q of GetCollectionRequest args \<Rightarrow>
        answered GetCollectionResponse (api_collection_lookup (nd_api n) (nd_db n) (cla_tick args)))"

definition get_token_list_call :: "'a node \<Rightarrow> get_token_list_request \<Rightarrow> 'a get_token_list_response node_call" where
  "get_token_list_call n q =
     (case q of GetTokenListRequest args iter_args \<Rightarrow>
        answered GetTokenListResponse (api_token_list (nd_api n) (nd_db n) (tla_tick args) iter_args))"

definition get_token_call :: "'a node \<Rightarrow> get_token_request \<Rightarrow> 'a get_token_response node_call" where
  "get_token_call n q =
     (case q of GetTokenRequest args \<Rightarrow>
        answered GetTokenResponse (api_token_lookup (nd_api n) (nd_db n) (tka_tick args) (tka_id args)))"

definition get_address_list_call :: "'a node \<Rightarrow> get_address_list_request \<Rightarrow> get_address_list_response node_call" where
  "get_address_list_call n q =
     (case q of GetAddressListRequest args iter_args \<Rightarrow>
        answered GetAddressListResponse (api_address_nft_list (nd_api n) (nd_db n) (aia_address args) iter_args))"

definition get_address_lookup_call ::
  "'a node \<Rightarrow> get_address_lookup_request \<Rightarrow> get_address_lookup_response node_call" where
  "get_address_lookup_call n q =
     (case q of GetAddressLookupRequest args iter_args \<Rightarrow>
        answered GetAddressLookupResponse
          (api_address_nft_lookup (nd_api n) (nd_db n) (ala_address args) (ala_tick args) iter_args))"

definition get_op_list_call :: "'a node \<Rightarrow> get_op_list_request \<Rightarrow> 'a get_op_list_response node_call" where
  "get_op_list_call n q =
     (case q of GetOpListRequest iter_args \<Rightarrow>
        answered GetOpListResponse (api_op_list (nd_api n) (nd_db n) iter_args))"

definition get_op_by_score_call :: "'a node \<Rightarrow> get_op_by_score_request \<Rightarrow> 'a get_op_by_score_response node_call" where
  "get_op_by_score_call n q =
     (case q of GetOpByScoreRequest args \<Rightarrow>
        answered GetOpByScoreResponse (api_op_by_score (nd_api n) (nd_db n) (ola_score args)))"

definition get_op_by_txid_call :: "'a node \<Rightarrow> get_op_by_txid_request \<Rightarrow> 'a get_op_by_txid_response node_call" where
  "get_op_by_txid_call n q =
     (case q of GetOpByTxidRequest args \<Rightarrow>
        answered GetOpByTxidResponse (api_op_by_txid (nd_api n) (nd_db n) (txa_txid args)))"

definition get_deployment_list_call ::
  "'a node \<Rightarrow> get_deployment_list_request \<Rightarrow> 'a get_deployment_list_response node_call" where
  "get_deployment_list_call n q =
     (case q of GetDeploymentListRequest iter_args \<Rightarrow>
        answered GetDeploymentListResponse (api_deployment_list (nd_api n) (nd_db n) iter_args))"

definition get_royalty_fee_call :: "'a node \<Rightarrow> get_royalty_fee_request \<Rightarrow> get_royalty_fee_response node_call" where
  "get_royalty_fee_call n q =
     (case q of GetRoyaltyFeeRequest args \<Rightarrow>
        answered GetRoyaltyFeeResponse (api_royalty_fee (nd_api n) (nd_db n) (rfa_address args) (rfa_tick args)))"

definition get_rejection_by_txid_call ::
  "'a node \<Rightarrow> get_rejection_by_txid_request \<Rightarrow> get_rejection_by_txid_response node_call" where
  "get_rejection_by_txid_call n q =
     (case q of GetRejectionByTxidRequest args \<Rightarrow>
        answered GetRejectionByTxidResponse (Inr (api_rejection_by_txid (nd_validation_text n) (nd_db n) (txa_txid args))))"

definition get_reserved_tokens_call ::
  "'a node \<Rightarrow> get_reserved_tokens_request \<Rightarrow> get_reserved_tokens_response node_call" where
  "get_reserved_tokens_call n q = answered GetReservedTokensResponse (Inr (api_reserved_tokens (nd_api n)))"

section \<open>The server\<close>

text \<open>
  A method reads the request, calls the indexer, turns an error into its text and writes the response. The
  text of an unreadable request comes from the server library.
\<close>

type_synonym rpc_method = "bytes \<Rightarrow> accessor_state \<Rightarrow> (ustring + bytes) \<times> accessor_state"

definition rpc_method_of ::
  "ustring \<Rightarrow> 'a node \<Rightarrow> 'q codec \<Rightarrow> 'r codec \<Rightarrow> ('a node \<Rightarrow> 'q \<Rightarrow> 'r node_call) \<Rightarrow> rpc_method" where
  "rpc_method_of unreadable n cq cr call payload s =
     (case from_slice cq payload of
        None \<Rightarrow> (Inl unreadable, s)
      | Some request \<Rightarrow>
          (case call n request s of (r, s') \<Rightarrow> (map_sum (nd_error_text n) (st cr) r, s')))"

definition server_interface :: "ustring \<Rightarrow> 'a wire \<Rightarrow> 'a node \<Rightarrow> rpc_api_ops \<Rightarrow> rpc_method option" where
  "server_interface u w n rpc_op =
     (case rpc_op of
        Subscribe \<Rightarrow> Some (rpc_method_of u n (subscribe_request_codec w) (subscribe_response_codec w) subscribe_call)
      | Ping \<Rightarrow> Some (rpc_method_of u n (ping_request_codec w) (ping_response_codec w) ping_call)
      | GetStatus \<Rightarrow> Some (rpc_method_of u n (get_status_request_codec w) (get_status_response_codec w) get_status_call)
      | GetSyncStatus \<Rightarrow>
          Some (rpc_method_of u n (get_sync_status_request_codec w) (get_sync_status_response_codec w) get_sync_status_call)
      | GetCollectionList \<Rightarrow>
          Some (rpc_method_of u n (get_collection_list_request_codec w) (get_collection_list_response_codec w) get_collection_list_call)
      | GetCollection \<Rightarrow>
          Some (rpc_method_of u n (get_collection_request_codec w) (get_collection_response_codec w) get_collection_call)
      | GetTokenList \<Rightarrow>
          Some (rpc_method_of u n (get_token_list_request_codec w) (get_token_list_response_codec w) get_token_list_call)
      | GetToken \<Rightarrow> Some (rpc_method_of u n (get_token_request_codec w) (get_token_response_codec w) get_token_call)
      | GetAddressList \<Rightarrow>
          Some (rpc_method_of u n (get_address_list_request_codec w) (get_address_list_response_codec w) get_address_list_call)
      | GetAddressLookup \<Rightarrow>
          Some (rpc_method_of u n (get_address_lookup_request_codec w) (get_address_lookup_response_codec w) get_address_lookup_call)
      | GetOpList \<Rightarrow> Some (rpc_method_of u n (get_op_list_request_codec w) (get_op_list_response_codec w) get_op_list_call)
      | GetOpByScore \<Rightarrow>
          Some (rpc_method_of u n (get_op_by_score_request_codec w) (get_op_by_score_response_codec w) get_op_by_score_call)
      | GetOpByTxid \<Rightarrow>
          Some (rpc_method_of u n (get_op_by_txid_request_codec w) (get_op_by_txid_response_codec w) get_op_by_txid_call)
      | GetDeploymentList \<Rightarrow>
          Some (rpc_method_of u n (get_deployment_list_request_codec w) (get_deployment_list_response_codec w) get_deployment_list_call)
      | GetRoyaltyFee \<Rightarrow>
          Some (rpc_method_of u n (get_royalty_fee_request_codec w) (get_royalty_fee_response_codec w) get_royalty_fee_call)
      | GetRejectionByTxid \<Rightarrow>
          Some (rpc_method_of u n (get_rejection_by_txid_request_codec w) (get_rejection_by_txid_response_codec w) get_rejection_by_txid_call)
      | GetReservedTokens \<Rightarrow>
          Some (rpc_method_of u n (get_reserved_tokens_request_codec w) (get_reserved_tokens_response_codec w) get_reserved_tokens_call)
      | _ \<Rightarrow> None)"

section \<open>The client\<close>

text \<open>
  What the library does between the two ends: it passes the request to the method of the operation and its
  result back, and answers an operation without a method with an error.
\<close>

record rpc_library =
  rl_call :: "(rpc_api_ops \<Rightarrow> rpc_method option) \<Rightarrow> rpc_api_ops \<Rightarrow> rpc_method"
  rl_unreadable_request :: ustring
  rl_unreadable_response :: ustring

definition delivers :: "rpc_library \<Rightarrow> bool" where
  "delivers l \<longleftrightarrow>
     (\<forall>i rpc_op m payload s. i rpc_op = Some m \<longrightarrow> rl_call l i rpc_op payload s = m payload s) \<and>
     (\<forall>i rpc_op payload s. i rpc_op = None \<longrightarrow> (\<exists>text. rl_call l i rpc_op payload s = (Inl text, s)))"

datatype rpc_error = RpcSubsystem ustring

definition client_call ::
  "rpc_library \<Rightarrow> 'a wire \<Rightarrow> 'a node \<Rightarrow> 'q codec \<Rightarrow> 'r codec \<Rightarrow> rpc_api_ops \<Rightarrow> 'q
     \<Rightarrow> accessor_state \<Rightarrow> (rpc_error + 'r) \<times> accessor_state" where
  "client_call l w n cq cr rpc_op request s =
     (case rl_call l (server_interface (rl_unreadable_request l) w n) rpc_op (st cq request) s of
        (Inl text, s') \<Rightarrow> (Inl (RpcSubsystem text), s')
      | (Inr payload, s') \<Rightarrow>
          (case from_slice cr payload of
             None \<Rightarrow> (Inl (RpcSubsystem (rl_unreadable_response l)), s')
           | Some response \<Rightarrow> (Inr response, s')))"

text \<open>A call of a registered method is the call of the indexer, when request and response read back.\<close>

lemma client_call_registered:
  assumes "delivers l" and "server_interface (rl_unreadable_request l) w n rpc_op = Some (rpc_method_of (rl_unreadable_request l) n cq cr call)"
    and "faithful cq request" and "\<And>r s'. call n request s = (Inr r, s') \<Longrightarrow> faithful cr r"
  shows "client_call l w n cq cr rpc_op request s =
    (case call n request s of (r, s') \<Rightarrow> (map_sum (\<lambda>e. RpcSubsystem (nd_error_text n e)) id r, s'))"
proof -
  have "rl_call l (server_interface (rl_unreadable_request l) w n) rpc_op (st cq request) s =
      rpc_method_of (rl_unreadable_request l) n cq cr call (st cq request) s"
    using assms(1,2) by (simp add: delivers_def)
  moreover obtain r s' where c: "call n request s = (r, s')" by fastforce
  ultimately show ?thesis using assms(3,4)
    by (cases r) (simp_all add: client_call_def rpc_method_of_def)
qed

lemma client_call_unregistered:
  assumes "delivers l" and "\<And>u. server_interface u w n rpc_op = None"
  shows "\<exists>text. client_call l w n cq cr rpc_op request s = (Inl (RpcSubsystem text), s)"
proof -
  obtain msg where "rl_call l (server_interface (rl_unreadable_request l) w n) rpc_op (st cq request) s = (Inl msg, s)"
    using assms unfolding delivers_def by metis
  then show ?thesis by (simp add: client_call_def)
qed

text \<open>\<^verbatim>\<open>ping\<close>, \<^verbatim>\<open>get_sync_status\<close>, \<^verbatim>\<open>get_status\<close> and \<^verbatim>\<open>negotiate\<close> of \<^verbatim>\<open>Krc721RpcClient\<close>.\<close>

datatype 'n client_error = ClientRpc rpc_error | NetworkId 'n network

definition client_ping :: "rpc_library \<Rightarrow> 'a wire \<Rightarrow> 'a node \<Rightarrow> accessor_state \<Rightarrow> (rpc_error + ping_response) \<times> accessor_state" where
  "client_ping l w n = client_call l w n (ping_request_codec w) (ping_response_codec w) Ping PingRequest"

definition client_get_sync_status ::
  "rpc_library \<Rightarrow> 'a wire \<Rightarrow> 'a node \<Rightarrow> accessor_state \<Rightarrow> (rpc_error + get_sync_status_response) \<times> accessor_state" where
  "client_get_sync_status l w n =
     client_call l w n (get_sync_status_request_codec w) (get_sync_status_response_codec w) GetSyncStatus GetSyncStatusRequest"

definition client_get_status ::
  "rpc_library \<Rightarrow> 'a wire \<Rightarrow> 'a node \<Rightarrow> accessor_state \<Rightarrow> (rpc_error + get_status_response) \<times> accessor_state" where
  "client_get_status l w n =
     client_call l w n (get_status_request_codec w) (get_status_response_codec w) GetStatus GetStatusRequest"

definition negotiate ::
  "rpc_library \<Rightarrow> 'a wire \<Rightarrow> 'a node \<Rightarrow> (network \<Rightarrow> 'n) \<Rightarrow> 'n \<Rightarrow> accessor_state
     \<Rightarrow> ('n client_error + status_answer) \<times> accessor_state" where
  "negotiate l w n network_id_of network_id s =
     (case client_get_status l w n s of
        (Inl e, s') \<Rightarrow> (Inl (ClientRpc e), s')
      | (Inr (GetStatusResponse status), s') \<Rightarrow>
          ((if network_id_of (is_network status) \<noteq> network_id then Inl (NetworkId network_id (is_network status))
            else Inr status), s'))"

section \<open>The data interface\<close>

text \<open>The methods of \<^verbatim>\<open>trait DataT\<close> with their arguments and their results, and the accessor as its provider.\<close>

datatype data_request =
    IndexerStatus
  | CollectionList "u64 request_args"
  | CollectionLookup collection_lookup_args
  | TokenList token_list_lookup_args "u64 request_args"
  | TokenLookup token_lookup_args
  | AddressNftList address_list_lookup_args "tick_token_offset request_args"
  | AddressNftLookup address_lookup_args "u64 request_args"
  | OpList "u64 request_args"
  | OpByScore op_lookup_args
  | OpByTxid tx_lookup_args
  | DeploymentList "u64 request_args"
  | RoyaltyFee royalty_fee_lookup_args
  | RejectionByTxid tx_lookup_args
  | ReservedTokens
  | TokenHistory token_lookup_args "u64 request_args"
  | AvailableTokenIdRanges token_list_lookup_args
  | ActiveListings token_list_lookup_args "u64 request_args"
  | ListingLookup token_lookup_args
  | AddressListings address_list_lookup_args "tick_token_offset request_args"

datatype 'a data_answer =
    StatusAnswer status_answer
  | CollectionsAnswer "('a collection_meta_wrapper, u64) pagination"
  | CollectionAnswer "'a collection_meta_wrapper option"
  | TokensAnswer "('a token_answer, u64) pagination"
  | TokenAnswer "'a token_answer option"
  | NftsAnswer "(address_nft_info, tick_token_offset) pagination"
  | NftsOfTickAnswer "(address_nft_info, u64) pagination"
  | OperationsAnswer "('a operation_meta_wrapper, u64) pagination"
  | OperationAnswer "'a operation_meta_wrapper option"
  | DeploymentsAnswer "('a scored_deploy_answer, u64) pagination"
  | FeeAnswer "ustring option"
  | ReasonAnswer "ustring option"
  | ReservedAnswer "ustring list"
  | HistoryAnswer "('a history_entity, u64) pagination"
  | RangesAnswer "available_ranges option"
  | ListingsAnswer "('a listing_meta_wrapper, u64) pagination"
  | ListingAnswer "'a listing_meta_wrapper option"
  | AddressListingsAnswer "('a listing_meta_wrapper, tick_token_offset) pagination"

fun accessor_data :: "'a node \<Rightarrow> data_request \<Rightarrow> 'a data_answer node_call" where
  "accessor_data n IndexerStatus s = (case node_status n s of (r, s') \<Rightarrow> (map_sum id StatusAnswer r, s'))"
| "accessor_data n (CollectionList i) s = answered CollectionsAnswer (api_collection_list (nd_api n) (nd_db n) i) s"
| "accessor_data n (CollectionLookup a) s =
     answered CollectionAnswer (api_collection_lookup (nd_api n) (nd_db n) (cla_tick a)) s"
| "accessor_data n (TokenList a i) s = answered TokensAnswer (api_token_list (nd_api n) (nd_db n) (tla_tick a) i) s"
| "accessor_data n (TokenLookup a) s =
     answered TokenAnswer (api_token_lookup (nd_api n) (nd_db n) (tka_tick a) (tka_id a)) s"
| "accessor_data n (AddressNftList a i) s =
     answered NftsAnswer (api_address_nft_list (nd_api n) (nd_db n) (aia_address a) i) s"
| "accessor_data n (AddressNftLookup a i) s =
     answered NftsOfTickAnswer (api_address_nft_lookup (nd_api n) (nd_db n) (ala_address a) (ala_tick a) i) s"
| "accessor_data n (OpList i) s = answered OperationsAnswer (api_op_list (nd_api n) (nd_db n) i) s"
| "accessor_data n (OpByScore a) s = answered OperationAnswer (api_op_by_score (nd_api n) (nd_db n) (ola_score a)) s"
| "accessor_data n (OpByTxid a) s = answered OperationAnswer (api_op_by_txid (nd_api n) (nd_db n) (txa_txid a)) s"
| "accessor_data n (DeploymentList i) s = answered DeploymentsAnswer (api_deployment_list (nd_api n) (nd_db n) i) s"
| "accessor_data n (RoyaltyFee a) s =
     answered FeeAnswer (api_royalty_fee (nd_api n) (nd_db n) (rfa_address a) (rfa_tick a)) s"
| "accessor_data n (RejectionByTxid a) s =
     answered ReasonAnswer (Inr (api_rejection_by_txid (nd_validation_text n) (nd_db n) (txa_txid a))) s"
| "accessor_data n ReservedTokens s = answered ReservedAnswer (Inr (api_reserved_tokens (nd_api n))) s"
| "accessor_data n (TokenHistory a i) s =
     answered HistoryAnswer (api_token_history (nd_api n) (nd_db n) (tka_tick a) (tka_id a) i) s"
| "accessor_data n (AvailableTokenIdRanges a) s =
     answered RangesAnswer (Inr (api_available_token_id_ranges (nd_db n) (tla_tick a))) s"
| "accessor_data n (ActiveListings a i) s =
     answered ListingsAnswer (api_active_listings (nd_api n) (nd_db n) (tla_tick a) i) s"
| "accessor_data n (ListingLookup a) s =
     answered ListingAnswer (api_listing_lookup (nd_api n) (nd_db n) (tka_tick a) (tka_id a)) s"
| "accessor_data n (AddressListings a i) s =
     answered AddressListingsAnswer (api_address_listings (nd_api n) (nd_db n) (aia_address a) i) s"

end
