(* ===== verification/Cluster.thy ===== *)
theory Cluster
  imports Rpc
begin

text \<open>
  The cluster of \<^verbatim>\<open>cluster/src/cluster.rs\<close> and its connections, \<^verbatim>\<open>cluster/src/connection.rs\<close>: a front end that
  passes every query on to one of several indexers over RPC. A connection keeps what the indexer last said
  of itself; the cluster takes the available connection with the fewest running calls.
\<close>

section \<open>Connections\<close>

text \<open>
  The remote end \<open>'r\<close> is the indexer behind the client of the connection. The bias is a floating point
  number; its product with a count, rounded down, is the argument \<open>scaled\<close> of the definitions.
\<close>

record ('r, 'n, 'b) connection =
  cn_network_id :: 'n
  cn_bias :: "'b option"
  cn_rpc :: 'r
  cn_is_connected :: bool
  cn_sessions :: u64
  cn_is_node_connected :: bool
  cn_is_node_synced :: bool
  cn_is_indexer_synced :: bool
  cn_is_available :: bool

definition connection_new :: "'n \<Rightarrow> 'b option \<Rightarrow> 'r \<Rightarrow> ('r, 'n, 'b) connection" where
  "connection_new network_id bias rpc =
     \<lparr>cn_network_id = network_id, cn_bias = bias, cn_rpc = rpc, cn_is_connected = False, cn_sessions = 0,
      cn_is_node_connected = False, cn_is_node_synced = False, cn_is_indexer_synced = False, cn_is_available = False\<rparr>"

definition sessions :: "('b option \<Rightarrow> u64 \<Rightarrow> u64) \<Rightarrow> ('r, 'n, 'b) connection \<Rightarrow> u64" where
  "sessions scaled c = scaled (cn_bias c) (cn_sessions c)"

definition acquire :: "('r, 'n, 'b) connection \<Rightarrow> ('r, 'n, 'b) connection" where
  "acquire c = c\<lparr>cn_sessions := cn_sessions c + 1\<rparr>"

definition release :: "('r, 'n, 'b) connection \<Rightarrow> ('r, 'n, 'b) connection" where
  "release c = c\<lparr>cn_sessions := cn_sessions c - 1\<rparr>"

datatype 'n connection_error = ConnectionRpc rpc_error | NetworkMismatch 'n 'n

definition cn_handle_connect ::
  "(network \<Rightarrow> 'n) \<Rightarrow> rpc_error + get_status_response \<Rightarrow> ('r, 'n, 'b) connection
     \<Rightarrow> ('n connection_error + unit) \<times> ('r, 'n, 'b) connection" where
  "cn_handle_connect network_id_of answer c =
     (case answer of
        Inl e \<Rightarrow> (Inl (ConnectionRpc e), c)
      | Inr (GetStatusResponse response) \<Rightarrow>
          (let network_id = network_id_of (is_network response) in
           if network_id \<noteq> cn_network_id c then (Inl (NetworkMismatch (cn_network_id c) network_id), c)
           else (Inr (),
             c\<lparr>cn_is_node_connected := is_node_connected response, cn_is_indexer_synced := is_indexer_synced response,
               cn_is_node_synced := is_node_synced response, cn_is_connected := True,
               cn_is_available := is_node_connected response \<and> is_node_synced response \<and> is_indexer_synced response\<rparr>)))"

definition cn_handle_disconnect :: "('r, 'n, 'b) connection \<Rightarrow> ('r, 'n, 'b) connection" where
  "cn_handle_disconnect c =
     c\<lparr>cn_is_available := False, cn_is_connected := False, cn_is_node_connected := False, cn_is_indexer_synced := False\<rparr>"

definition cn_poll :: "rpc_error + get_sync_status_response \<Rightarrow> ('r, 'n, 'b) connection \<Rightarrow> ('r, 'n, 'b) connection" where
  "cn_poll answer c =
     (case answer of
        Inl e \<Rightarrow> c
      | Inr (GetSyncStatusResponse node_connected node_synced indexer_synced) \<Rightarrow>
          c\<lparr>cn_is_available := node_connected \<and> node_synced \<and> indexer_synced, cn_is_node_connected := node_connected,
            cn_is_node_synced := node_synced, cn_is_indexer_synced := indexer_synced\<rparr>)"

text \<open>The events of \<^verbatim>\<open>Connection::task\<close>, with what the indexer answers to the call of the handler.\<close>

datatype link_event =
    LinkUp "rpc_error + get_status_response"
  | LinkDown
  | PollTick "rpc_error + get_sync_status_response"
  | LinkShutdown

fun link_step :: "(network \<Rightarrow> 'n) \<Rightarrow> link_event \<Rightarrow> ('r, 'n, 'b) connection \<Rightarrow> ('r, 'n, 'b) connection" where
  "link_step ni (LinkUp answer) c = (if \<not> cn_is_connected c then snd (cn_handle_connect ni answer c) else c)"
| "link_step ni LinkDown c = (if cn_is_connected c then cn_handle_disconnect c else c)"
| "link_step ni (PollTick answer) c = cn_poll answer c"
| "link_step ni LinkShutdown c = (if cn_is_connected c then cn_handle_disconnect c else c)"

fun link_task :: "(network \<Rightarrow> 'n) \<Rightarrow> link_event list \<Rightarrow> ('r, 'n, 'b) connection \<Rightarrow> ('r, 'n, 'b) connection" where
  "link_task ni [] c = c"
| "link_task ni (LinkShutdown # es) c = link_step ni LinkShutdown c"
| "link_task ni (e # es) c = link_task ni es (link_step ni e c)"

section \<open>The cluster\<close>

definition cluster_new :: "(network \<Rightarrow> 'n) \<Rightarrow> network \<Rightarrow> ('b option \<times> 'r) list \<Rightarrow> ('r, 'n, 'b) connection list" where
  "cluster_new network_id_of network nodes = map (\<lambda>(bias, rpc). connection_new (network_id_of network) bias rpc) nodes"

text \<open>
  \<^verbatim>\<open>select\<close> gives the index of the connection instead of a reference to it. It is the selection of a call that no
  other call interrupts; the theory of the cluster's properties takes it apart into its steps.
\<close>

definition least_loaded :: "('b option \<Rightarrow> u64 \<Rightarrow> u64) \<Rightarrow> ('r, 'n, 'b) connection list \<Rightarrow> nat list \<Rightarrow> nat option" where
  "least_loaded scaled cs connections =
     (case sort_key (\<lambda>i. sessions scaled (cs ! i)) connections of [] \<Rightarrow> None | i # _ \<Rightarrow> Some i)"

definition select :: "('b option \<Rightarrow> u64 \<Rightarrow> u64) \<Rightarrow> ('r, 'n, 'b) connection list \<Rightarrow> nat option" where
  "select scaled cs = least_loaded scaled cs (filter (\<lambda>i. cn_is_available (cs ! i)) [0..<length cs])"

datatype cluster_error = ServiceNotAvailable | CustomError rpc_error

type_synonym ('a, 'n, 'b) cluster = "('a node \<times> accessor_state, 'n, 'b) connection list"

type_synonym ('a, 'n, 'b, 'v) cluster_method = "('a, 'n, 'b) cluster \<Rightarrow> (cluster_error + 'v) \<times> ('a, 'n, 'b) cluster"

text \<open>\<^verbatim>\<open>let connection = self.select().ok_or(ServiceNotAvailable)?\<close>, the call on it, and the drop of the reference.\<close>

definition on_selected ::
  "('b option \<Rightarrow> u64 \<Rightarrow> u64) \<Rightarrow> ('a node \<Rightarrow> accessor_state \<Rightarrow> (rpc_error + 'r) \<times> accessor_state) \<Rightarrow> ('r \<Rightarrow> 'v)
     \<Rightarrow> ('a, 'n, 'b, 'v) cluster_method" where
  "on_selected scaled call response cs =
     (case select scaled cs of
        None \<Rightarrow> (Inl ServiceNotAvailable, cs)
      | Some i \<Rightarrow>
          (let c = acquire (cs ! i) in
           case cn_rpc c of (n, s) \<Rightarrow>
             (case call n s of (r, s') \<Rightarrow>
                (map_sum CustomError response r, cs[i := release (c\<lparr>cn_rpc := (n, s')\<rparr>)]))))"

section \<open>The endpoints\<close>

definition cluster_indexer_status ::
  "rpc_library \<Rightarrow> 'a wire \<Rightarrow> ('b option \<Rightarrow> u64 \<Rightarrow> u64)
     \<Rightarrow> ('a, 'n, 'b, status_answer) cluster_method" where
  "cluster_indexer_status l w scaled =
     on_selected scaled
       (\<lambda>n. client_call l w n (get_status_request_codec w) (get_status_response_codec w) GetStatus GetStatusRequest)
       (\<lambda>r. case r of GetStatusResponse response \<Rightarrow> response)"

definition cluster_collection_list ::
  "rpc_library \<Rightarrow> 'a wire \<Rightarrow> ('b option \<Rightarrow> u64 \<Rightarrow> u64) \<Rightarrow> u64 request_args
     \<Rightarrow> ('a, 'n, 'b, ('a collection_meta_wrapper, u64) pagination) cluster_method" where
  "cluster_collection_list l w scaled iter_args =
     on_selected scaled
       (\<lambda>n. client_call l w n (get_collection_list_request_codec w) (get_collection_list_response_codec w) GetCollectionList (GetCollectionListRequest iter_args))
       (\<lambda>r. case r of GetCollectionListResponse response \<Rightarrow> response)"

definition cluster_collection_lookup ::
  "rpc_library \<Rightarrow> 'a wire \<Rightarrow> ('b option \<Rightarrow> u64 \<Rightarrow> u64) \<Rightarrow> collection_lookup_args
     \<Rightarrow> ('a, 'n, 'b, 'a collection_meta_wrapper option) cluster_method" where
  "cluster_collection_lookup l w scaled args =
     on_selected scaled
       (\<lambda>n. client_call l w n (get_collection_request_codec w) (get_collection_response_codec w) GetCollection (GetCollectionRequest args))
       (\<lambda>r. case r of GetCollectionResponse response \<Rightarrow> response)"

definition cluster_token_lookup ::
  "rpc_library \<Rightarrow> 'a wire \<Rightarrow> ('b option \<Rightarrow> u64 \<Rightarrow> u64) \<Rightarrow> token_lookup_args
     \<Rightarrow> ('a, 'n, 'b, 'a token_answer option) cluster_method" where
  "cluster_token_lookup l w scaled args =
     on_selected scaled
       (\<lambda>n. client_call l w n (get_token_request_codec w) (get_token_response_codec w) GetToken (GetTokenRequest args))
       (\<lambda>r. case r of GetTokenResponse response \<Rightarrow> response)"

definition cluster_token_list ::
  "rpc_library \<Rightarrow> 'a wire \<Rightarrow> ('b option \<Rightarrow> u64 \<Rightarrow> u64) \<Rightarrow> token_list_lookup_args \<Rightarrow> u64 request_args
     \<Rightarrow> ('a, 'n, 'b, ('a token_answer, u64) pagination) cluster_method" where
  "cluster_token_list l w scaled args iter_args =
     on_selected scaled
       (\<lambda>n. client_call l w n (get_token_list_request_codec w) (get_token_list_response_codec w) GetTokenList (GetTokenListRequest args iter_args))
       (\<lambda>r. case r of GetTokenListResponse response \<Rightarrow> response)"

definition cluster_address_nft_list ::
  "rpc_library \<Rightarrow> 'a wire \<Rightarrow> ('b option \<Rightarrow> u64 \<Rightarrow> u64) \<Rightarrow> address_list_lookup_args \<Rightarrow> tick_token_offset request_args
     \<Rightarrow> ('a, 'n, 'b, (address_nft_info, tick_token_offset) pagination) cluster_method" where
  "cluster_address_nft_list l w scaled args iter_args =
     on_selected scaled
       (\<lambda>n. client_call l w n (get_address_list_request_codec w) (get_address_list_response_codec w) GetAddressList (GetAddressListRequest args iter_args))
       (\<lambda>r. case r of GetAddressListResponse response \<Rightarrow> response)"

definition cluster_address_nft_lookup ::
  "rpc_library \<Rightarrow> 'a wire \<Rightarrow> ('b option \<Rightarrow> u64 \<Rightarrow> u64) \<Rightarrow> address_lookup_args \<Rightarrow> u64 request_args
     \<Rightarrow> ('a, 'n, 'b, (address_nft_info, u64) pagination) cluster_method" where
  "cluster_address_nft_lookup l w scaled args iter_args =
     on_selected scaled
       (\<lambda>n. client_call l w n (get_address_lookup_request_codec w) (get_address_lookup_response_codec w) GetAddressLookup (GetAddressLookupRequest args iter_args))
       (\<lambda>r. case r of GetAddressLookupResponse response \<Rightarrow> response)"

definition cluster_op_list ::
  "rpc_library \<Rightarrow> 'a wire \<Rightarrow> ('b option \<Rightarrow> u64 \<Rightarrow> u64) \<Rightarrow> u64 request_args
     \<Rightarrow> ('a, 'n, 'b, ('a operation_meta_wrapper, u64) pagination) cluster_method" where
  "cluster_op_list l w scaled iter_args =
     on_selected scaled
       (\<lambda>n. client_call l w n (get_op_list_request_codec w) (get_op_list_response_codec w) GetOpList (GetOpListRequest iter_args))
       (\<lambda>r. case r of GetOpListResponse response \<Rightarrow> response)"

definition cluster_op_by_score ::
  "rpc_library \<Rightarrow> 'a wire \<Rightarrow> ('b option \<Rightarrow> u64 \<Rightarrow> u64) \<Rightarrow> op_lookup_args
     \<Rightarrow> ('a, 'n, 'b, 'a operation_meta_wrapper option) cluster_method" where
  "cluster_op_by_score l w scaled args =
     on_selected scaled
       (\<lambda>n. client_call l w n (get_op_by_score_request_codec w) (get_op_by_score_response_codec w) GetOpByScore (GetOpByScoreRequest args))
       (\<lambda>r. case r of GetOpByScoreResponse response \<Rightarrow> response)"

definition cluster_op_by_txid ::
  "rpc_library \<Rightarrow> 'a wire \<Rightarrow> ('b option \<Rightarrow> u64 \<Rightarrow> u64) \<Rightarrow> tx_lookup_args
     \<Rightarrow> ('a, 'n, 'b, 'a operation_meta_wrapper option) cluster_method" where
  "cluster_op_by_txid l w scaled args =
     on_selected scaled
       (\<lambda>n. client_call l w n (get_op_by_txid_request_codec w) (get_op_by_txid_response_codec w) GetOpByTxid (GetOpByTxidRequest args))
       (\<lambda>r. case r of GetOpByTxidResponse response \<Rightarrow> response)"

definition cluster_deployment_list ::
  "rpc_library \<Rightarrow> 'a wire \<Rightarrow> ('b option \<Rightarrow> u64 \<Rightarrow> u64) \<Rightarrow> u64 request_args
     \<Rightarrow> ('a, 'n, 'b, ('a scored_deploy_answer, u64) pagination) cluster_method" where
  "cluster_deployment_list l w scaled iter_args =
     on_selected scaled
       (\<lambda>n. client_call l w n (get_deployment_list_request_codec w) (get_deployment_list_response_codec w) GetDeploymentList (GetDeploymentListRequest iter_args))
       (\<lambda>r. case r of GetDeploymentListResponse response \<Rightarrow> response)"

definition cluster_royalty_fee ::
  "rpc_library \<Rightarrow> 'a wire \<Rightarrow> ('b option \<Rightarrow> u64 \<Rightarrow> u64) \<Rightarrow> royalty_fee_lookup_args
     \<Rightarrow> ('a, 'n, 'b, ustring option) cluster_method" where
  "cluster_royalty_fee l w scaled args =
     on_selected scaled
       (\<lambda>n. client_call l w n (get_royalty_fee_request_codec w) (get_royalty_fee_response_codec w) GetRoyaltyFee (GetRoyaltyFeeRequest args))
       (\<lambda>r. case r of GetRoyaltyFeeResponse response \<Rightarrow> response)"

definition cluster_rejection_by_txid ::
  "rpc_library \<Rightarrow> 'a wire \<Rightarrow> ('b option \<Rightarrow> u64 \<Rightarrow> u64) \<Rightarrow> tx_lookup_args
     \<Rightarrow> ('a, 'n, 'b, ustring option) cluster_method" where
  "cluster_rejection_by_txid l w scaled args =
     on_selected scaled
       (\<lambda>n. client_call l w n (get_rejection_by_txid_request_codec w) (get_rejection_by_txid_response_codec w) GetRejectionByTxid (GetRejectionByTxidRequest args))
       (\<lambda>r. case r of GetRejectionByTxidResponse response \<Rightarrow> response)"

definition cluster_reserved_tokens ::
  "rpc_library \<Rightarrow> 'a wire \<Rightarrow> ('b option \<Rightarrow> u64 \<Rightarrow> u64)
     \<Rightarrow> ('a, 'n, 'b, ustring list) cluster_method" where
  "cluster_reserved_tokens l w scaled =
     on_selected scaled
       (\<lambda>n. client_call l w n (get_reserved_tokens_request_codec w) (get_reserved_tokens_response_codec w) GetReservedTokens GetReservedTokensRequest)
       (\<lambda>r. case r of GetReservedTokensResponse response \<Rightarrow> response)"

definition cluster_token_history ::
  "rpc_library \<Rightarrow> 'a wire \<Rightarrow> ('b option \<Rightarrow> u64 \<Rightarrow> u64) \<Rightarrow> token_lookup_args \<Rightarrow> u64 request_args
     \<Rightarrow> ('a, 'n, 'b, ('a history_entity, u64) pagination) cluster_method" where
  "cluster_token_history l w scaled args iter_args =
     on_selected scaled
       (\<lambda>n. client_call l w n (get_token_history_request_codec w) (get_token_history_response_codec w) GetTokenHistory (GetTokenHistoryRequest args iter_args))
       (\<lambda>r. case r of GetTokenHistoryResponse response \<Rightarrow> response)"

definition cluster_available_token_id_ranges ::
  "rpc_library \<Rightarrow> 'a wire \<Rightarrow> ('b option \<Rightarrow> u64 \<Rightarrow> u64) \<Rightarrow> token_list_lookup_args
     \<Rightarrow> ('a, 'n, 'b, available_ranges option) cluster_method" where
  "cluster_available_token_id_ranges l w scaled args =
     on_selected scaled
       (\<lambda>n. client_call l w n (get_available_token_id_ranges_request_codec w) (get_available_token_id_ranges_response_codec w) GetAvailableTokenIdRanges (GetAvailableTokenIdRangesRequest (tla_tick args)))
       (\<lambda>r. case r of GetAvailableTokenIdRangesResponse response \<Rightarrow> Some response)"

definition cluster_active_listings ::
  "token_list_lookup_args \<Rightarrow> u64 request_args \<Rightarrow> ('a, 'n, 'b, ('a listing_meta_wrapper, u64) pagination) cluster_method" where
  "cluster_active_listings args iter_args cs = (Inl ServiceNotAvailable, cs)"

definition cluster_listing_lookup ::
  "token_lookup_args \<Rightarrow> ('a, 'n, 'b, 'a listing_meta_wrapper option) cluster_method" where
  "cluster_listing_lookup args cs = (Inl ServiceNotAvailable, cs)"

definition cluster_address_listings ::
  "address_list_lookup_args \<Rightarrow> tick_token_offset request_args \<Rightarrow> ('a, 'n, 'b, ('a listing_meta_wrapper, tick_token_offset) pagination) cluster_method" where
  "cluster_address_listings args iter_args cs = (Inl ServiceNotAvailable, cs)"

text \<open>The data interface over the cluster.\<close>

definition as_answer :: "('v \<Rightarrow> 'a data_answer) \<Rightarrow> ('a, 'n, 'b, 'v) cluster_method \<Rightarrow> ('a, 'n, 'b, 'a data_answer) cluster_method" where
  "as_answer f m cs = (case m cs of (r, cs') \<Rightarrow> (map_sum id f r, cs'))"

fun cluster_data ::
  "rpc_library \<Rightarrow> 'a wire \<Rightarrow> ('b option \<Rightarrow> u64 \<Rightarrow> u64) \<Rightarrow> data_request \<Rightarrow> ('a, 'n, 'b, 'a data_answer) cluster_method" where
  "cluster_data l w scaled IndexerStatus = as_answer StatusAnswer (cluster_indexer_status l w scaled)"
| "cluster_data l w scaled (CollectionList i) = as_answer CollectionsAnswer (cluster_collection_list l w scaled i)"
| "cluster_data l w scaled (CollectionLookup a) = as_answer CollectionAnswer (cluster_collection_lookup l w scaled a)"
| "cluster_data l w scaled (TokenList a i) = as_answer TokensAnswer (cluster_token_list l w scaled a i)"
| "cluster_data l w scaled (TokenLookup a) = as_answer TokenAnswer (cluster_token_lookup l w scaled a)"
| "cluster_data l w scaled (AddressNftList a i) = as_answer NftsAnswer (cluster_address_nft_list l w scaled a i)"
| "cluster_data l w scaled (AddressNftLookup a i) = as_answer NftsOfTickAnswer (cluster_address_nft_lookup l w scaled a i)"
| "cluster_data l w scaled (OpList i) = as_answer OperationsAnswer (cluster_op_list l w scaled i)"
| "cluster_data l w scaled (OpByScore a) = as_answer OperationAnswer (cluster_op_by_score l w scaled a)"
| "cluster_data l w scaled (OpByTxid a) = as_answer OperationAnswer (cluster_op_by_txid l w scaled a)"
| "cluster_data l w scaled (DeploymentList i) = as_answer DeploymentsAnswer (cluster_deployment_list l w scaled i)"
| "cluster_data l w scaled (RoyaltyFee a) = as_answer FeeAnswer (cluster_royalty_fee l w scaled a)"
| "cluster_data l w scaled (RejectionByTxid a) = as_answer ReasonAnswer (cluster_rejection_by_txid l w scaled a)"
| "cluster_data l w scaled ReservedTokens = as_answer ReservedAnswer (cluster_reserved_tokens l w scaled)"
| "cluster_data l w scaled (TokenHistory a i) = as_answer HistoryAnswer (cluster_token_history l w scaled a i)"
| "cluster_data l w scaled (AvailableTokenIdRanges a) = as_answer RangesAnswer (cluster_available_token_id_ranges l w scaled a)"
| "cluster_data l w scaled (ActiveListings a i) = as_answer ListingsAnswer (cluster_active_listings a i)"
| "cluster_data l w scaled (ListingLookup a) = as_answer ListingAnswer (cluster_listing_lookup a)"
| "cluster_data l w scaled (AddressListings a i) = as_answer AddressListingsAnswer (cluster_address_listings a i)"

section \<open>Answers\<close>

text \<open>
  The queries that a cluster can answer. It sends the other five into the void: the server of an indexer has no
  method for the history of a token and for the available ids, and the queries for listings are not sent at all.
\<close>

fun passed_on :: "data_request \<Rightarrow> bool" where
  "passed_on (TokenHistory a i) = False"
| "passed_on (AvailableTokenIdRanges a) = False"
| "passed_on (ActiveListings a i) = False"
| "passed_on (ListingLookup a) = False"
| "passed_on (AddressListings a i) = False"
| "passed_on _ = True"

text \<open>
  What the theorem needs of the codecs of the fields: they give back the arguments and the answer at hand. The
  server reads the arguments of a query only when it has a method for it.
\<close>

fun reads_back_request :: "'a wire \<Rightarrow> data_request \<Rightarrow> bool" where
  "reads_back_request w IndexerStatus = True"
| "reads_back_request w (CollectionList i) = faithful (w_iter_args w) i"
| "reads_back_request w (CollectionLookup a) = faithful (w_collection_lookup_args w) a"
| "reads_back_request w (TokenList a i) = (faithful (w_token_list_lookup_args w) a \<and> faithful (w_iter_args w) i)"
| "reads_back_request w (TokenLookup a) = faithful (w_token_lookup_args w) a"
| "reads_back_request w (AddressNftList a i) =
     (faithful (w_address_list_lookup_args w) a \<and> faithful (w_tick_token_iter_args w) i)"
| "reads_back_request w (AddressNftLookup a i) = (faithful (w_address_lookup_args w) a \<and> faithful (w_iter_args w) i)"
| "reads_back_request w (OpList i) = faithful (w_iter_args w) i"
| "reads_back_request w (OpByScore a) = faithful (w_op_lookup_args w) a"
| "reads_back_request w (OpByTxid a) = faithful (w_tx_lookup_args w) a"
| "reads_back_request w (DeploymentList i) = faithful (w_iter_args w) i"
| "reads_back_request w (RoyaltyFee a) = faithful (w_royalty_fee_lookup_args w) a"
| "reads_back_request w (RejectionByTxid a) = faithful (w_tx_lookup_args w) a"
| "reads_back_request w ReservedTokens = True"
| "reads_back_request w (TokenHistory a i) = True"
| "reads_back_request w (AvailableTokenIdRanges a) = True"
| "reads_back_request w (ActiveListings a i) = True"
| "reads_back_request w (ListingLookup a) = True"
| "reads_back_request w (AddressListings a i) = True"

fun reads_back_answer :: "'a wire \<Rightarrow> 'a data_answer \<Rightarrow> bool" where
  "reads_back_answer w (StatusAnswer x) = faithful (w_indexer_status w) x"
| "reads_back_answer w (CollectionsAnswer x) = faithful (w_collections w) x"
| "reads_back_answer w (CollectionAnswer x) = faithful (w_collection w) x"
| "reads_back_answer w (TokensAnswer x) = faithful (w_tokens w) x"
| "reads_back_answer w (TokenAnswer x) = faithful (w_token w) x"
| "reads_back_answer w (NftsAnswer x) = faithful (w_nfts w) x"
| "reads_back_answer w (NftsOfTickAnswer x) = faithful (w_nfts_of_tick w) x"
| "reads_back_answer w (OperationsAnswer x) = faithful (w_operations w) x"
| "reads_back_answer w (OperationAnswer x) = faithful (w_operation w) x"
| "reads_back_answer w (DeploymentsAnswer x) = faithful (w_deployments w) x"
| "reads_back_answer w (FeeAnswer x) = faithful (w_text w) x"
| "reads_back_answer w (ReasonAnswer x) = faithful (w_text w) x"
| "reads_back_answer w (ReservedAnswer x) = faithful (w_texts w) x"
| "reads_back_answer w _ = False"

lemma release_acquire [simp]: "release ((acquire c)\<lparr>cn_rpc := x\<rparr>) = c\<lparr>cn_rpc := x\<rparr>" "cn_rpc (acquire c) = cn_rpc c"
  by (simp_all add: release_def acquire_def)

lemma endpoint_answer:
  assumes "delivers l"
    and "server_interface (rl_unreadable_request l) w n rpc_op = Some (rpc_method_of (rl_unreadable_request l) n cq cr call)"
    and "faithful cq q" and "select scaled cs = Some i" and "cn_rpc (cs ! i) = (n, s)"
    and "call n q s = (map_sum id g v, s')" and "\<And>x. v = Inr x \<Longrightarrow> faithful cr (g x)" and "\<And>x. f (g x) = x"
  shows "as_answer A (on_selected scaled (\<lambda>n. client_call l w n cq cr rpc_op q) f) cs =
    (map_sum (\<lambda>e. CustomError (RpcSubsystem (nd_error_text n e))) id (map_sum id A v), cs[i := (cs ! i)\<lparr>cn_rpc := (n, s')\<rparr>])"
proof -
  have "client_call l w n cq cr rpc_op q s = (map_sum (\<lambda>e. RpcSubsystem (nd_error_text n e)) g v, s')"
  proof -
    have "client_call l w n cq cr rpc_op q s =
        (case call n q s of (r, t) \<Rightarrow> (map_sum (\<lambda>e. RpcSubsystem (nd_error_text n e)) id r, t))"
      by (rule client_call_registered [OF assms(1-3)]) (use assms(6,7) in \<open>cases v; auto\<close>)
    with assms(6) show ?thesis by (cases v) simp_all
  qed
  with assms(4,5,8) show ?thesis by (cases v) (simp_all add: on_selected_def as_answer_def)
qed

lemma endpoint_total:
  assumes "delivers l"
    and "server_interface (rl_unreadable_request l) w n rpc_op = Some (rpc_method_of (rl_unreadable_request l) n cq cr call)"
    and "faithful cq q" and "select scaled cs = Some i" and "cn_rpc (cs ! i) = (n, s)"
    and "call n q s = (Inr (g x), s')" and "faithful cr (g x)" and "f (g x) = x"
  shows "as_answer A (on_selected scaled (\<lambda>n. client_call l w n cq cr rpc_op q) f) cs =
    (Inr (A x), cs[i := (cs ! i)\<lparr>cn_rpc := (n, s')\<rparr>])"
proof -
  have "client_call l w n cq cr rpc_op q s = (Inr (g x), s')"
    using client_call_registered [OF assms(1-3), of s] assms(6,7) by simp
  with assms(4,5,8) show ?thesis by (simp add: on_selected_def as_answer_def)
qed

lemmas node_call_defs =
  get_collection_list_call_def get_collection_call_def get_token_list_call_def get_token_call_def
  get_address_list_call_def get_address_lookup_call_def get_op_list_call_def get_op_by_score_call_def
  get_op_by_txid_call_def get_deployment_list_call_def get_royalty_fee_call_def get_rejection_by_txid_call_def
  get_reserved_tokens_call_def answered_def

lemmas cluster_endpoint_defs =
  cluster_indexer_status_def cluster_collection_list_def cluster_collection_lookup_def cluster_token_lookup_def
  cluster_token_list_def cluster_address_nft_list_def cluster_address_nft_lookup_def cluster_op_list_def
  cluster_op_by_score_def cluster_op_by_txid_def cluster_deployment_list_def cluster_royalty_fee_def
  cluster_rejection_by_txid_def cluster_reserved_tokens_def

text \<open>For every query that the server has a method for, the answer of a cluster is the answer of the accessor of
  the indexer it selects, errors as their text; the count of running calls is as before, and of the
  cluster only the state of that indexer's accessor changes.\<close>

theorem cluster_answers_as_the_selected_indexer:
  assumes "delivers l" and "faithful (w_u16 w) 1" and "passed_on req" and "reads_back_request w req"
    and "select scaled cs = Some i" and "cn_rpc (cs ! i) = (n, s)" and "accessor_data n req s = (r, s')"
    and "\<And>a. r = Inr a \<Longrightarrow> reads_back_answer w a"
  shows "cluster_data l w scaled req cs =
    (map_sum (\<lambda>e. CustomError (RpcSubsystem (nd_error_text n e))) id r, cs[i := (cs ! i)\<lparr>cn_rpc := (n, s')\<rparr>])"
proof (cases req)
  case IndexerStatus
  obtain v s1 where v: "node_status n s = (v, s1)" by fastforce
  with assms(7) IndexerStatus have r: "r = map_sum id StatusAnswer v" "s1 = s'" by simp_all
  have "as_answer StatusAnswer (cluster_indexer_status l w scaled) cs =
      (map_sum (\<lambda>e. CustomError (RpcSubsystem (nd_error_text n e))) id (map_sum id StatusAnswer v), cs[i := (cs ! i)\<lparr>cn_rpc := (n, s')\<rparr>])"
    unfolding cluster_endpoint_defs
    by (rule endpoint_answer [where call = get_status_call and s = s and g = GetStatusResponse])
      (use assms v r in \<open>auto simp: server_interface_def get_status_call_def message_codecs\<close>)
  with IndexerStatus r show ?thesis by simp
qed (use assms in \<open>auto simp: cluster_endpoint_defs node_call_defs server_interface_def message_codecs intro!: endpoint_answer endpoint_total\<close>)

end
