(* ===== verification/ClusterProperties.thy ===== *)
theory ClusterProperties
  imports Cluster Rejections
begin

text \<open>
  What a cluster promises: which indexer answers a query, that the counts of running calls are right when
  calls overlap, which connection a call takes that is not disturbed, and what availability means; and where it
  fails. Here a selection is taken apart into the steps between which other calls and the connections act.
\<close>

section \<open>An answer over the wire\<close>

text \<open>Two indexers, of which the second is available; the codecs of the message are those of its types.\<close>

definition no_codec :: "'x codec" where
  "no_codec = \<lparr>st = \<lambda>_. [], ld = \<lambda>_. None\<rparr>"

definition sample_wire :: "unit wire" where
  "sample_wire =
     \<lparr>w_u16 = u16_codec, w_subscription = no_codec, w_bool = bool_codec, w_indexer_status = no_codec, w_u64 = u64_codec,
      w_iter_args = no_codec, w_collections = no_codec, w_collection_lookup_args = no_codec, w_collection = no_codec,
      w_token_lookup_args = no_codec, w_token = no_codec, w_token_list_lookup_args = no_codec, w_tokens = no_codec,
      w_address_lookup_args = no_codec, w_nfts_of_tick = no_codec, w_address_list_lookup_args = no_codec,
      w_tick_token_iter_args = no_codec, w_nfts = no_codec, w_operations = no_codec,
      w_op_lookup_args = \<lparr>st = \<lambda>a. st u64_codec (ola_score a), ld = load u64_codec (\<lambda>s. loaded (OpLookupArgs s))\<rparr>,
      w_operation = option_codec no_codec,
      w_tx_lookup_args = \<lparr>st = \<lambda>a. st hash_codec (txa_txid a), ld = load hash_codec (\<lambda>h. loaded (TxLookupArgs h))\<rparr>,
      w_deployments = no_codec, w_royalty_fee_lookup_args = no_codec, w_text = option_codec string_codec,
      w_tick = no_codec, w_ranges = no_codec, w_texts = no_codec, w_history = no_codec\<rparr>"

definition direct_library :: rpc_library where
  "direct_library =
     \<lparr>rl_call = \<lambda>i rpc_op payload s. case i rpc_op of Some m \<Rightarrow> m payload s | None \<Rightarrow> (Inl [78], s),
      rl_unreadable_request = [82], rl_unreadable_response = [83]\<rparr>"

definition sample_node :: "unit node" where
  "sample_node =
     \<lparr>nd_api = \<lparr>address_of_spk = \<lambda>_. Inr (), spk_of_address = \<lambda>_. Inl [], hex_string = \<lambda>_. [], api_protocols = [], api_reserved = []\<rparr>,
      nd_db = reject_tx db_empty 7 [65], nd_validation_text = \<lambda>_. [], nd_error_text = \<lambda>_. [69], nd_mergeset_size_limit = 248,
      nd_inputs = \<lparr>sx_now = 0, sx_node_connected = True, sx_node_synced = True, sx_daa_score = 1, sx_syncer = None\<rparr>,
      nd_version = [], nd_network = Mainnet\<rparr>"

definition sample_accessor :: accessor_state where
  "sample_accessor = \<lparr>ac_requests = 0, ac_last_status_snapshot = None, ac_last_status_snapshot_timestamp = 0\<rparr>"

definition sample_cluster :: "(unit, network, unit) cluster" where
  "sample_cluster =
     [connection_new Mainnet None (sample_node, sample_accessor),
      (connection_new Mainnet None (sample_node, sample_accessor))\<lparr>cn_is_available := True\<rparr>]"

lemma direct_library_delivers [simp]: "delivers direct_library"
  by (auto simp: delivers_def direct_library_def)

lemma sample_selected [simp]: "select (\<lambda>_ x. x) sample_cluster = Some 1"
  by (simp add: select_def least_loaded_def sample_cluster_def connection_new_def)

lemma sample_rejection: "accessor_data sample_node (RejectionByTxid (TxLookupArgs 7)) sample_accessor =
    (Inr (ReasonAnswer (Some [65])), track_request sample_accessor)"
  by (simp add: sample_node_def answered_def api_rejection_by_txid_def krc721_rejection_by_txid_def reject_tx_fields)

theorem cluster_answers_as_the_selected_indexer_witness:
  "fst (cluster_data direct_library sample_wire (\<lambda>_ x. x) (RejectionByTxid (TxLookupArgs 7)) sample_cluster) =
    Inr (ReasonAnswer (Some [65]))"
proof -
  have c: "cn_rpc (sample_cluster ! 1) = (sample_node, sample_accessor)" by (simp add: sample_cluster_def connection_new_def)
  have u: "faithful (w_u16 sample_wire) 1" by (simp add: sample_wire_def)
  have q: "reads_back_request sample_wire (RejectionByTxid (TxLookupArgs 7))"
    by (simp add: sample_wire_def faithful_def hash_codec_def load_def)
  have a: "reads_back_answer sample_wire x" if "Inr (ReasonAnswer (Some [65])) = (Inr x :: core_error + unit data_answer)" for x
    using that by (auto simp: sample_wire_def scalar_def utf8_bytes_def utf8_char_def intro!: faithful_string)
  show ?thesis
    using cluster_answers_as_the_selected_indexer [OF direct_library_delivers u _ q sample_selected c sample_rejection a] by simp
qed

section \<open>Queries without an answer\<close>

lemma unregistered_fails:
  assumes "delivers l" and "\<And>u n. server_interface u w n rpc_op = None"
  shows "\<exists>e. as_answer A (on_selected scaled (\<lambda>n. client_call l w n cq cr rpc_op q) f) cs = (Inl e, cs)"
proof (cases "select scaled cs")
  case (Some k)
  obtain n s where r: "cn_rpc (cs ! k) = (n, s)" by fastforce
  obtain msg where "client_call l w n cq cr rpc_op q s = (Inl (RpcSubsystem msg), s)"
    by (rule exE [OF client_call_unregistered [OF assms]])
  moreover have "(cs ! k)\<lparr>cn_rpc := (n, s)\<rparr> = cs ! k" using r by (cases "cs ! k") simp
  then have "cs[k := (cs ! k)\<lparr>cn_rpc := (n, s)\<rparr>] = cs" by simp
  ultimately show ?thesis using Some r by (simp add: as_answer_def on_selected_def)
qed (simp add: as_answer_def on_selected_def)

text \<open>The server has no method for the history of a token and for the available ids of a collection, and the
  cluster does not pass on queries for listings: over a cluster these five queries always fail, whatever its
  indexers hold.\<close>

lemma not_passed_on_fails:
  assumes "delivers l" and "\<not> passed_on req"
  shows "\<exists>e. cluster_data l w scaled req cs = (Inl e, cs)"
proof -
  have "server_interface u w n GetTokenHistory = None" "server_interface u w n GetAvailableTokenIdRanges = None" for u n
    by (simp_all add: server_interface_def)
  note fails = unregistered_fails [OF assms(1) this(1)] unregistered_fails [OF assms(1) this(2)]
  show ?thesis using assms(2)
    by (cases req; simp add: cluster_token_history_def cluster_available_token_id_ranges_def fails)
      (simp_all add: as_answer_def cluster_active_listings_def cluster_listing_lookup_def cluster_address_listings_def)
qed

theorem cluster_never_answers_histories_and_ranges:
  assumes "delivers l"
    and "req \<in> {TokenHistory a i, AvailableTokenIdRanges b, ActiveListings b i, ListingLookup a, AddressListings c j}"
  shows "\<exists>e. fst (cluster_data l w scaled req cs) = Inl e"
proof -
  have "\<not> passed_on req" using assms(2) by auto
  from not_passed_on_fails [OF assms(1) this, of w scaled cs] show ?thesis by auto
qed

theorem cluster_never_answers_histories_and_ranges_witness:
  "\<exists>e. fst (cluster_data direct_library sample_wire (\<lambda>_ x. x) (AvailableTokenIdRanges (TokenListLookupArgs tick_MIN)) sample_cluster) = Inl e"
  by (rule cluster_never_answers_histories_and_ranges
        [OF direct_library_delivers, of _ undefined undefined "TokenListLookupArgs tick_MIN" undefined undefined]) simp

section \<open>The choice of a connection\<close>

lemma least_loaded_least:
  assumes "least_loaded scaled cs xs = Some i"
  shows "i \<in> set xs \<and> (\<forall>k \<in> set xs. sessions scaled (cs ! i) \<le> sessions scaled (cs ! k)) \<and>
    (\<exists>ys zs. xs = ys @ i # zs \<and> (\<forall>k \<in> set ys. sessions scaled (cs ! i) < sessions scaled (cs ! k)))"
proof -
  let ?f = "\<lambda>i. sessions scaled (cs ! i)"
  obtain rest where s: "sort_key ?f xs = i # rest"
    using assms by (auto simp: least_loaded_def split: list.splits)
  then have i: "i \<in> set xs" by (metis list.set_intros(1) set_sort)
  have "sorted (map ?f (i # rest))" by (simp only: s [symmetric] sorted_sort_key)
  then have le: "?f i \<le> ?f k" if "k \<in> set xs" for k
    using that by (auto simp: set_sort [of ?f xs, symmetric] s simp del: set_sort)
  have "filter (\<lambda>x. ?f x = ?f i) (i # rest) = filter (\<lambda>x. ?f x = ?f i) xs"
    unfolding s [symmetric] by (rule sort_key_stable)
  then have h: "filter (\<lambda>x. ?f x = ?f i) xs = i # filter (\<lambda>x. ?f x = ?f i) rest" by simp
  then obtain ys zs where "xs = ys @ i # zs" "\<forall>u\<in>set ys. ?f u \<noteq> ?f i" by (auto simp: filter_eq_Cons_iff)
  moreover from this le have "\<forall>k \<in> set ys. ?f i < ?f k" by (simp add: less_le) metis
  ultimately show ?thesis using i le by blast
qed

lemma least_loaded_None_iff: "least_loaded scaled cs xs = None \<longleftrightarrow> xs = []"
  by (auto simp: least_loaded_def split: list.splits dest: arg_cong [of _ _ set] dest!: sym [of "[]"])

lemma select_available: "select scaled cs = Some i \<Longrightarrow> i < length cs \<and> cn_is_available (cs ! i)"
  using least_loaded_least [of scaled cs "filter (\<lambda>i. cn_is_available (cs ! i)) [0..<length cs]" i] by (simp add: select_def)

lemma select_None_iff: "select scaled cs = None \<longleftrightarrow> (\<forall>c \<in> set cs. \<not> cn_is_available c)"
  by (auto simp: select_def least_loaded_None_iff filter_empty_conv set_conv_nth)

section \<open>Running calls\<close>

text \<open>
  Calls of different clients overlap. A call reads the flag of one connection after the other, sorts the
  available ones by the counts of their running calls, takes the first, and only then counts itself; it is
  uncounted when its reference is dropped. Between any two of these steps other calls and the tasks of the
  connections take theirs. The sort reads the counts again for every comparison: when they change meanwhile,
  the standard library leaves the resulting order open. So \<^verbatim>\<open>CallSorts\<close> names the connection that comes out first;
  it is any of the sorted ones when the flag of the place says that one of their counts has changed, and else the
  first one of the stable sort.
\<close>

datatype call_place =
  CallReading nat "nat list" | CallSorting "nat list" bool | CallChosen nat | CallHolding nat | CallDone

record ('r, 'n, 'b) running =
  ru_connections :: "('r, 'n, 'b) connection list"
  ru_calls :: "call_place list"

datatype cluster_event =
  CallBegins | CallReads nat | CallSorts nat nat | CallAcquires nat | CallEnds nat | Link nat link_event

text \<open>A count changes under the sorting of another call.\<close>

fun disturb :: "nat \<Rightarrow> call_place \<Rightarrow> call_place" where
  "disturb i (CallSorting xs changed) = CallSorting xs (changed \<or> i \<in> set xs)"
| "disturb i p = p"

fun call_reads :: "('r, 'n, 'b) connection list \<Rightarrow> call_place \<Rightarrow> call_place" where
  "call_reads cs (CallReading j xs) =
     (if j < length cs then CallReading (j + 1) (if cn_is_available (cs ! j) then xs @ [j] else xs)
      else if xs = [] then CallDone else CallSorting xs False)"
| "call_reads cs p = p"

fun call_sorts ::
  "('b option \<Rightarrow> u64 \<Rightarrow> u64) \<Rightarrow> ('r, 'n, 'b) connection list \<Rightarrow> nat \<Rightarrow> call_place \<Rightarrow> call_place" where
  "call_sorts scaled cs i (CallSorting xs changed) =
     (if (if changed then i \<in> set xs else least_loaded scaled cs xs = Some i) then CallChosen i else CallSorting xs changed)"
| "call_sorts scaled cs i p = p"

definition at_place :: "nat \<Rightarrow> (call_place \<Rightarrow> call_place) \<Rightarrow> call_place list \<Rightarrow> call_place list" where
  "at_place k f ps = (if k < length ps then ps[k := f (ps ! k)] else ps)"

definition holding :: "nat \<Rightarrow> call_place list \<Rightarrow> nat option" where
  "holding k ps = (if k < length ps then (case ps ! k of CallHolding i \<Rightarrow> Some i | _ \<Rightarrow> None) else None)"

definition chosen :: "nat \<Rightarrow> call_place list \<Rightarrow> nat option" where
  "chosen k ps = (if k < length ps then (case ps ! k of CallChosen i \<Rightarrow> Some i | _ \<Rightarrow> None) else None)"

fun cluster_step ::
  "(network \<Rightarrow> 'n) \<Rightarrow> ('b option \<Rightarrow> u64 \<Rightarrow> u64) \<Rightarrow> cluster_event \<Rightarrow> ('r, 'n, 'b) running \<Rightarrow> ('r, 'n, 'b) running" where
  "cluster_step ni scaled CallBegins u = u\<lparr>ru_calls := ru_calls u @ [CallReading 0 []]\<rparr>"
| "cluster_step ni scaled (CallReads k) u = u\<lparr>ru_calls := at_place k (call_reads (ru_connections u)) (ru_calls u)\<rparr>"
| "cluster_step ni scaled (CallSorts k i) u = u\<lparr>ru_calls := at_place k (call_sorts scaled (ru_connections u) i) (ru_calls u)\<rparr>"
| "cluster_step ni scaled (CallAcquires k) u =
     (case chosen k (ru_calls u) of
        None \<Rightarrow> u
      | Some i \<Rightarrow> u\<lparr>ru_connections := (ru_connections u)[i := acquire (ru_connections u ! i)],
                     ru_calls := (map (disturb i) (ru_calls u))[k := CallHolding i]\<rparr>)"
| "cluster_step ni scaled (CallEnds k) u =
     (case holding k (ru_calls u) of
        None \<Rightarrow> u
      | Some i \<Rightarrow> u\<lparr>ru_connections := (ru_connections u)[i := release (ru_connections u ! i)],
                     ru_calls := (map (disturb i) (ru_calls u))[k := CallDone]\<rparr>)"
| "cluster_step ni scaled (Link i e) u =
     u\<lparr>ru_connections := (ru_connections u)[i := link_step ni e (ru_connections u ! i)]\<rparr>"

definition cluster_run ::
  "(network \<Rightarrow> 'n) \<Rightarrow> ('b option \<Rightarrow> u64 \<Rightarrow> u64) \<Rightarrow> cluster_event list \<Rightarrow> ('r, 'n, 'b) running \<Rightarrow> ('r, 'n, 'b) running" where
  "cluster_run ni scaled es u = fold (cluster_step ni scaled) es u"

definition cluster_start :: "(network \<Rightarrow> 'n) \<Rightarrow> network \<Rightarrow> ('b option \<times> 'r) list \<Rightarrow> ('r, 'n, 'b) running" where
  "cluster_start ni network nodes = \<lparr>ru_connections = cluster_new ni network nodes, ru_calls = []\<rparr>"

text \<open>The connections that a place names exist.\<close>

fun place_ok :: "nat \<Rightarrow> call_place \<Rightarrow> bool" where
  "place_ok n (CallReading j xs) = (\<forall>i \<in> set xs. i < n)"
| "place_ok n (CallSorting xs changed) = (\<forall>i \<in> set xs. i < n)"
| "place_ok n (CallChosen i) = (i < n)"
| "place_ok n (CallHolding i) = (i < n)"
| "place_ok n CallDone = True"

definition calls_counted :: "('r, 'n, 'b) running \<Rightarrow> bool" where
  "calls_counted u \<longleftrightarrow>
     (\<forall>p \<in> set (ru_calls u). place_ok (length (ru_connections u)) p) \<and>
     (\<forall>i < length (ru_connections u).
        cn_sessions (ru_connections u ! i) = word_of_nat (count_list (ru_calls u) (CallHolding i)))"

definition reports_agree :: "('r, 'n, 'b) connection \<Rightarrow> bool" where
  "reports_agree c \<longleftrightarrow> cn_is_available c = (cn_is_node_connected c \<and> cn_is_node_synced c \<and> cn_is_indexer_synced c)"

lemma link_step_fields [simp]: "cn_sessions (link_step ni e c) = cn_sessions c" "cn_bias (link_step ni e c) = cn_bias c"
  by (cases e; auto simp: cn_handle_connect_def cn_handle_disconnect_def cn_poll_def Let_def
      split: sum.split get_status_response.split get_sync_status_response.split)+

lemma link_step_reports: "reports_agree c \<Longrightarrow> reports_agree (link_step ni e c)"
  by (cases e; auto simp: reports_agree_def cn_handle_connect_def cn_handle_disconnect_def cn_poll_def Let_def
      split: sum.split get_status_response.split get_sync_status_response.split)

lemma session_fields [simp]:
  "reports_agree (acquire c) = reports_agree c" "reports_agree (release c) = reports_agree c"
  "cn_sessions (acquire c) = cn_sessions c + 1" "cn_sessions (release c) = cn_sessions c - 1"
  by (simp_all add: reports_agree_def acquire_def release_def)

lemma count_list_change:
  "k < length ps \<Longrightarrow> count_list (ps[k := p]) q + of_bool (ps ! k = q) = count_list ps q + of_bool (p = q)"
proof (induction ps arbitrary: k)
  case (Cons x ps)
  then show ?case by (cases k) auto
qed simp

lemma disturb_holding [simp]: "disturb i p = CallHolding j \<longleftrightarrow> p = CallHolding j"
  by (cases p) auto

lemma disturb_count [simp]: "count_list (map (disturb i) ps) (CallHolding j) = count_list ps (CallHolding j)"
  by (induction ps) auto

lemma disturb_place_ok [simp]: "place_ok n (disturb i p) = place_ok n p"
  by (cases p) auto

lemma at_place_count:
  assumes "\<And>p. f p = CallHolding i \<longleftrightarrow> p = CallHolding i"
  shows "count_list (at_place k f ps) (CallHolding i) = count_list ps (CallHolding i)"
  using count_list_change [of k ps "f (ps ! k)" "CallHolding i"] by (simp add: at_place_def assms)

lemma at_place_ok:
  assumes "\<forall>p \<in> set ps. place_ok n p" and "\<And>p. place_ok n p \<Longrightarrow> place_ok n (f p)"
  shows "\<forall>p \<in> set (at_place k f ps). place_ok n p"
  using assms by (auto simp: at_place_def dest!: set_update_subset_insert [THEN subsetD])

lemma call_reads_place: "place_ok (length cs) p \<Longrightarrow> place_ok (length cs) (call_reads cs p)" "call_reads cs p = CallHolding i \<longleftrightarrow> p = CallHolding i"
  by (cases p; auto)+

lemma call_sorts_place: "place_ok n p \<Longrightarrow> place_ok n (call_sorts scaled cs k p)" "call_sorts scaled cs k p = CallHolding i \<longleftrightarrow> p = CallHolding i"
  by (cases p; auto dest: least_loaded_least)+

lemma reports_update:
  assumes "\<forall>c \<in> set cs. reports_agree c" and "\<And>c. reports_agree c \<Longrightarrow> reports_agree (f c)"
  shows "\<forall>c \<in> set (cs[i := f (cs ! i)]). reports_agree c"
  using assms by (cases "i < length cs") (auto simp: list_update_beyond dest!: set_update_subset_insert [THEN subsetD])

lemma cluster_step_reports:
  assumes "\<forall>c \<in> set (ru_connections u). reports_agree c"
  shows "\<forall>c \<in> set (ru_connections (cluster_step ni scaled e u)). reports_agree c"
proof (cases e)
  case (CallAcquires k)
  then show ?thesis using assms reports_update [OF assms, of acquire] by (simp split: option.split)
next
  case (CallEnds k)
  then show ?thesis using assms reports_update [OF assms, of release] by (simp split: option.split)
next
  case (Link i e)
  then show ?thesis using reports_update [OF assms, of "link_step ni e"] by (simp add: link_step_reports)
qed (use assms in simp_all)

lemma cluster_step_counts:
  assumes "calls_counted u"
  shows "calls_counted (cluster_step ni scaled e u)"
proof -
  let ?cs = "ru_connections u" and ?ps = "ru_calls u"
  have ok: "\<forall>p \<in> set ?ps. place_ok (length ?cs) p"
    and n: "\<And>i. i < length ?cs \<Longrightarrow> cn_sessions (?cs ! i) = word_of_nat (count_list ?ps (CallHolding i))"
    using assms by (simp_all add: calls_counted_def)
  have change: "calls_counted (u\<lparr>ru_connections := ?cs[i := f (?cs ! i)], ru_calls := (map (disturb i) ?ps)[k := p]\<rparr>)"
    if k: "k < length ?ps" and p: "place_ok (length ?cs) p" "i < length ?cs" "\<And>j. j \<noteq> i \<Longrightarrow> p \<noteq> CallHolding j \<and> ?ps ! k \<noteq> CallHolding j"
      and c: "cn_sessions (f (?cs ! i)) + of_bool (?ps ! k = CallHolding i) = cn_sessions (?cs ! i) + of_bool (p = CallHolding i)" for f i k p
  proof -
    have cc: "count_list ((map (disturb i) ?ps)[k := p]) (CallHolding j) + of_bool (?ps ! k = CallHolding j) =
        count_list ?ps (CallHolding j) + of_bool (p = CallHolding j)" for j
      using count_list_change [of k "map (disturb i) ?ps" p "CallHolding j"] k by simp
    have w: "word_of_nat (count_list ((map (disturb i) ?ps)[k := p]) (CallHolding j)) + of_bool (?ps ! k = CallHolding j) =
        (word_of_nat (count_list ?ps (CallHolding j)) + of_bool (p = CallHolding j) :: u64)" for j
      using arg_cong [OF cc [of j], of word_of_nat] by simp
    have "cn_sessions (?cs[i := f (?cs ! i)] ! j) = word_of_nat (count_list ((map (disturb i) ?ps)[k := p]) (CallHolding j))"
      if "j < length ?cs" for j
    proof (cases "j = i")
      case True
      have "cn_sessions (f (?cs ! i)) + of_bool (?ps ! k = CallHolding i) =
          word_of_nat (count_list ((map (disturb i) ?ps)[k := p]) (CallHolding i)) + of_bool (?ps ! k = CallHolding i)"
        using c w [of i] n [OF p(2)] by simp
      with True p(2) show ?thesis by simp
    next
      case False
      with p(3) cc [of j] n that show ?thesis by simp
    qed
    with ok p(1) show ?thesis by (auto simp: calls_counted_def dest!: set_update_subset_insert [THEN subsetD])
  qed
  show ?thesis
  proof (cases e)
    case (CallAcquires k)
    show ?thesis
    proof (cases "chosen k ?ps")
      case (Some i)
      then have k: "k < length ?ps" "?ps ! k = CallChosen i"
        by (auto simp: chosen_def split: if_splits call_place.splits)
      with ok have "i < length ?cs" using nth_mem [OF k(1)] by fastforce
      with k show ?thesis unfolding CallAcquires cluster_step.simps Some option.case by (intro change) simp_all
    qed (use assms CallAcquires in simp)
  next
    case (CallEnds k)
    show ?thesis
    proof (cases "holding k ?ps")
      case (Some i)
      then have k: "k < length ?ps" "?ps ! k = CallHolding i"
        by (auto simp: holding_def split: if_splits call_place.splits)
      with ok have "i < length ?cs" using nth_mem [OF k(1)] by fastforce
      with k show ?thesis unfolding CallEnds cluster_step.simps Some option.case by (intro change) simp_all
    qed (use assms CallEnds in simp)
  next
    case (Link i e)
    with ok n show ?thesis by (cases "i < length ?cs") (auto simp: calls_counted_def nth_list_update list_update_beyond)
  next
    case (CallReads k)
    have "\<forall>p \<in> set (at_place k (call_reads ?cs) ?ps). place_ok (length ?cs) p"
      by (rule at_place_ok [OF ok]) (rule call_reads_place(1))
    with n CallReads show ?thesis by (simp add: calls_counted_def at_place_count call_reads_place(2))
  next
    case (CallSorts k i)
    have "\<forall>p \<in> set (at_place k (call_sorts scaled ?cs i) ?ps). place_ok (length ?cs) p"
      by (rule at_place_ok [OF ok]) (rule call_sorts_place(1))
    with n CallSorts show ?thesis by (simp add: calls_counted_def at_place_count call_sorts_place(2))
  qed (use ok n in \<open>simp add: calls_counted_def\<close>)
qed

lemma cluster_run_inv:
  "calls_counted u \<Longrightarrow> calls_counted (cluster_run ni scaled es u)"
  "\<forall>c \<in> set (ru_connections u). reports_agree c \<Longrightarrow> \<forall>c \<in> set (ru_connections (cluster_run ni scaled es u)). reports_agree c"
proof -
  have run: "cluster_run ni scaled (e # es) u = cluster_run ni scaled es (cluster_step ni scaled e u)" for e es u
    by (simp add: cluster_run_def del: cluster_step.simps)
  have nil: "cluster_run ni scaled [] u = u" for u by (simp add: cluster_run_def)
  show "calls_counted u \<Longrightarrow> calls_counted (cluster_run ni scaled es u)"
  proof (induction es arbitrary: u)
    case (Cons e es)
    from Cons.IH [OF cluster_step_counts [OF Cons.prems]] show ?case unfolding run .
  qed (simp only: nil)
  show "\<forall>c \<in> set (ru_connections (cluster_run ni scaled es u)). reports_agree c" if "\<forall>c \<in> set (ru_connections u). reports_agree c"
    using that
  proof (induction es arbitrary: u)
    case (Cons e es)
    from Cons.IH [OF cluster_step_reports [OF Cons.prems]] show ?case unfolding run .
  qed (simp only: nil)
qed

lemma cluster_start_inv:
  "calls_counted (cluster_start ni network nodes)" "\<forall>c \<in> set (ru_connections (cluster_start ni network nodes)). reports_agree c"
  by (auto simp: calls_counted_def reports_agree_def cluster_start_def cluster_new_def connection_new_def case_prod_beta)

section \<open>The choice of a running call\<close>

text \<open>The events that change neither a count nor a report.\<close>

fun quiet :: "cluster_event \<Rightarrow> bool" where
  "quiet CallBegins = True"
| "quiet (CallReads k) = True"
| "quiet (CallSorts k i) = True"
| "quiet _ = False"

text \<open>Where a call can be that has seen the connections as they are.\<close>

fun selecting :: "('b option \<Rightarrow> u64 \<Rightarrow> u64) \<Rightarrow> ('r, 'n, 'b) connection list \<Rightarrow> call_place \<Rightarrow> bool" where
  "selecting scaled cs (CallReading j xs) = (j \<le> length cs \<and> xs = filter (\<lambda>i. cn_is_available (cs ! i)) [0..<j])"
| "selecting scaled cs (CallSorting xs changed) =
     (\<not> changed \<and> xs = filter (\<lambda>i. cn_is_available (cs ! i)) [0..<length cs])"
| "selecting scaled cs (CallChosen i) = (select scaled cs = Some i)"
| "selecting scaled cs (CallHolding i) = False"
| "selecting scaled cs CallDone = (select scaled cs = None)"

lemma selecting_steps:
  "selecting scaled cs p \<Longrightarrow> selecting scaled cs (call_reads cs p)"
  "selecting scaled cs p \<Longrightarrow> selecting scaled cs (call_sorts scaled cs i p)"
  by (cases p; auto simp: select_def least_loaded_None_iff)+

lemma quiet_step:
  assumes "quiet e" and "k < length (ru_calls u)" and "selecting scaled (ru_connections u) (ru_calls u ! k)"
  shows "ru_connections (cluster_step ni scaled e u) = ru_connections u \<and>
    k < length (ru_calls (cluster_step ni scaled e u)) \<and>
    selecting scaled (ru_connections u) (ru_calls (cluster_step ni scaled e u) ! k)"
  using assms by (cases e) (auto simp: at_place_def nth_append nth_list_update selecting_steps)

lemma quiet_run:
  "\<forall>e \<in> set es. quiet e \<Longrightarrow> k < length (ru_calls u) \<Longrightarrow> selecting scaled (ru_connections u) (ru_calls u ! k) \<Longrightarrow>
   ru_connections (cluster_run ni scaled es u) = ru_connections u \<and>
   selecting scaled (ru_connections u) (ru_calls (cluster_run ni scaled es u) ! k)"
proof (induction es arbitrary: u)
  case (Cons e es)
  have run: "cluster_run ni scaled (e # es) u = cluster_run ni scaled es (cluster_step ni scaled e u)"
    by (simp add: cluster_run_def del: cluster_step.simps)
  have q: "quiet e" "\<forall>e \<in> set es. quiet e" using Cons.prems(1) by simp_all
  from quiet_step [OF q(1) Cons.prems(2,3), of ni] Cons.IH [OF q(2), of "cluster_step ni scaled e u"]
  show ?case unfolding run by simp
qed (simp add: cluster_run_def)

lemma select_least:
  assumes "select scaled cs = Some i"
  shows "i < length cs \<and> cn_is_available (cs ! i) \<and>
    (\<forall>k < length cs. cn_is_available (cs ! k) \<longrightarrow>
       sessions scaled (cs ! i) < sessions scaled (cs ! k) \<or> sessions scaled (cs ! i) = sessions scaled (cs ! k) \<and> i \<le> k)"
proof (intro conjI allI impI)
  let ?xs = "filter (\<lambda>i. cn_is_available (cs ! i)) [0..<length cs]" and ?f = "\<lambda>k. sessions scaled (cs ! k)"
  show "i < length cs" "cn_is_available (cs ! i)" using select_available [OF assms] by simp_all
  fix k assume k: "k < length cs" "cn_is_available (cs ! k)"
  have l: "least_loaded scaled cs ?xs = Some i" using assms by (simp add: select_def)
  obtain ys zs where xs: "?xs = ys @ i # zs" "\<forall>k \<in> set ys. ?f i < ?f k" using least_loaded_least [OF l] by blast
  have "sorted_wrt (<) (ys @ i # zs)" unfolding xs(1) [symmetric] by (intro sorted_wrt_filter) simp
  moreover have "k \<in> set (ys @ i # zs)" unfolding xs(1) [symmetric] using k by simp
  moreover have "?f i \<le> ?f k" using least_loaded_least [OF l] k by simp
  ultimately show "?f i < ?f k \<or> ?f i = ?f k \<and> i \<le> k" using xs(2) by (auto simp: sorted_wrt_append)
qed

text \<open>C39: Calls and links interleave in any way: afterwards the session count of every connection is the number of
  the calls that hold it. From there a call begins, and while it selects its connection other calls may begin,
  read and choose, but none acquires or releases one and no report comes in: then the call takes an available
  connection that, weighted by the bias, no more calls hold than any other available one, the first of several
  such. (When another call acquires in between, this may fail: see overlapping_calls_take_the_same_connection.)\<close>

theorem calls_go_to_the_least_loaded:
  assumes "u = cluster_run ni scaled es (cluster_start ni network nodes)"
    and "\<forall>e \<in> set es'. quiet e" and "u' = cluster_run ni scaled (CallBegins # es') u"
    and "ru_calls u' ! length (ru_calls u) = CallChosen i"
  shows "i < length (ru_connections u) \<and> cn_is_available (ru_connections u ! i) \<and>
    (\<forall>k < length (ru_connections u). cn_sessions (ru_connections u ! k) = word_of_nat (count_list (ru_calls u) (CallHolding k))) \<and>
    (\<forall>k < length (ru_connections u). cn_is_available (ru_connections u ! k) \<longrightarrow>
       (let load = (\<lambda>i. scaled (cn_bias (ru_connections u ! i)) (word_of_nat (count_list (ru_calls u) (CallHolding i))))
        in load i < load k \<or> load i = load k \<and> i \<le> k))"
proof -
  let ?v = "cluster_step ni scaled CallBegins u" and ?cs = "ru_connections u"
  have "calls_counted u" unfolding assms(1) by (rule cluster_run_inv(1) [OF cluster_start_inv(1)])
  then have n: "cn_sessions (?cs ! k) = word_of_nat (count_list (ru_calls u) (CallHolding k))" if "k < length ?cs" for k
    using that by (simp add: calls_counted_def)
  have v: "ru_connections ?v = ?cs" "length (ru_calls u) < length (ru_calls ?v)"
    "selecting scaled (ru_connections ?v) (ru_calls ?v ! length (ru_calls u))" by simp_all
  have "u' = cluster_run ni scaled es' ?v" unfolding assms(3) by (simp add: cluster_run_def)
  then have "select scaled ?cs = Some i"
    using quiet_run [OF assms(2) v(2,3), of ni] assms(4) by simp
  note least = select_least [OF this]
  then have "i < length ?cs" by blast
  with least n [of i] n show ?thesis by (simp add: sessions_def Let_def)
qed

text \<open>Two idle connections, both available.\<close>

definition two_idle :: "cluster_event list" where
  "two_idle = [Link 0 (PollTick (Inr (GetSyncStatusResponse True True True))), Link 1 (PollTick (Inr (GetSyncStatusResponse True True True)))]"

definition two_nodes :: "(unit option \<times> unit) list" where
  "two_nodes = [(None, ()), (None, ())]"

lemma two_idle_run:
  "cluster_run id (\<lambda>_ x. x) two_idle (cluster_start id Mainnet two_nodes) =
     \<lparr>ru_connections = replicate 2 ((connection_new Mainnet None ())\<lparr>cn_is_available := True, cn_is_node_connected := True,
        cn_is_node_synced := True, cn_is_indexer_synced := True\<rparr>), ru_calls = []\<rparr>"
  by (simp add: cluster_run_def two_idle_def two_nodes_def cluster_start_def cluster_new_def cn_poll_def numeral_2_eq_2)

theorem calls_go_to_the_least_loaded_witness:
  "cn_is_available (ru_connections (cluster_run id (\<lambda>_ x. x) two_idle (cluster_start id Mainnet two_nodes)) ! 0)"
proof -
  let ?es = "[CallReads 0, CallReads 0, CallReads 0, CallSorts 0 0]"
  let ?u = "cluster_run id (\<lambda>_ x. x) two_idle (cluster_start id Mainnet two_nodes)"
  have c: "ru_calls (cluster_run id (\<lambda>_ x. x) (CallBegins # ?es) ?u) ! length (ru_calls ?u) = CallChosen 0"
    unfolding two_idle_run
    by (simp add: cluster_run_def at_place_def connection_new_def least_loaded_def sessions_def numeral_2_eq_2)
  have q: "\<forall>e \<in> set ?es. quiet e" by simp
  from calls_go_to_the_least_loaded [OF refl q refl c] show ?thesis by blast
qed

text \<open>Two calls that overlap between choice and count take the same idle connection, although another one is idle.\<close>

theorem overlapping_calls_take_the_same_connection:
  "\<exists>es. (let u = cluster_run id (\<lambda>_ x. x) (two_idle @ es) (cluster_start id Mainnet two_nodes) in
     ru_calls u = [CallHolding 0, CallHolding 0] \<and> cn_sessions (ru_connections u ! 0) = 2 \<and>
     cn_is_available (ru_connections u ! 1) \<and> cn_sessions (ru_connections u ! 1) = 0)"
proof (rule exI)
  let ?es = "[CallBegins, CallReads 0, CallReads 0, CallReads 0, CallSorts 0 0,
    CallBegins, CallReads 1, CallReads 1, CallReads 1, CallSorts 1 0, CallAcquires 0, CallAcquires 1]"
  have r: "cluster_run id (\<lambda>_ x. x) (two_idle @ ?es) (cluster_start id Mainnet two_nodes) =
      cluster_run id (\<lambda>_ x. x) ?es (cluster_run id (\<lambda>_ x. x) two_idle (cluster_start id Mainnet two_nodes))"
    by (simp add: cluster_run_def del: cluster_step.simps)
  show "let u = cluster_run id (\<lambda>_ x. x) (two_idle @ ?es) (cluster_start id Mainnet two_nodes) in
     ru_calls u = [CallHolding 0, CallHolding 0] \<and> cn_sessions (ru_connections u ! 0) = 2 \<and>
     cn_is_available (ru_connections u ! 1) \<and> cn_sessions (ru_connections u ! 1) = 0"
    unfolding r two_idle_run
    by (simp add: cluster_run_def at_place_def connection_new_def least_loaded_def sessions_def acquire_def chosen_def
        numeral_2_eq_2)
qed

text \<open>A connection is available exactly while the last reports of its indexer say that the node is connected and
  synced and the indexer is synced; so a call is refused only when no indexer of the cluster has reported so.\<close>

theorem available_connections_report_synced:
  assumes "u = cluster_run ni scaled es (cluster_start ni network nodes)"
  shows "(\<forall>c \<in> set (ru_connections u). cn_is_available c =
      (cn_is_node_connected c \<and> cn_is_node_synced c \<and> cn_is_indexer_synced c)) \<and>
    (select scaled (ru_connections u) = None \<longleftrightarrow>
      (\<forall>c \<in> set (ru_connections u). \<not> (cn_is_node_connected c \<and> cn_is_node_synced c \<and> cn_is_indexer_synced c)))"
proof -
  have "\<forall>c \<in> set (ru_connections u). reports_agree c" unfolding assms by (rule cluster_run_inv(2) [OF cluster_start_inv(2)])
  then show ?thesis by (auto simp: select_None_iff reports_agree_def)
qed

section \<open>A node of another network\<close>

text \<open>The network of an indexer is compared when the link comes up, and on a mismatch the handler only returns an
  error: the link stays up, the next poll makes the connection available, and because it never counted as
  connected the end of the link does not take that back. Such a connection is selected although it is not
  connected, even after the link is gone.\<close>

theorem indexer_of_another_network_is_selected:
  assumes "ni (is_network status) \<noteq> cn_network_id c" and "\<not> cn_is_connected c"
    and "k < length cs" and "\<And>i. i < length cs \<Longrightarrow> i \<noteq> k \<Longrightarrow> \<not> cn_is_available (cs ! i)"
    and "c1 = link_task ni [LinkUp (Inr (GetStatusResponse status)), PollTick (Inr (GetSyncStatusResponse True True True))] c"
    and "c2 = link_step ni LinkDown c1"
  shows "\<not> cn_is_connected c1 \<and> select scaled (cs[k := c1]) = Some k \<and> select scaled (cs[k := c2]) = Some k"
proof -
  have c1: "cn_is_available c1" "\<not> cn_is_connected c1" using assms(1,2,5) by (simp_all add: cn_handle_connect_def cn_poll_def)
  then have c2: "c2 = c1" using assms(6) by simp
  have "select scaled (cs[k := c1]) = Some k"
  proof (cases "select scaled (cs[k := c1])")
    case None
    then show ?thesis using c1 assms(3) by (auto simp: select_None_iff set_update_memI)
  next
    case (Some i)
    then show ?thesis using select_available [OF Some] assms(3,4) by (cases "i = k") auto
  qed
  with c1 c2 show ?thesis by simp
qed

theorem available_connections_report_synced_witness:
  "select (\<lambda>_ x. x) (ru_connections (cluster_run id (\<lambda>_ x. x) [] (cluster_start id Mainnet [(None :: unit option, ())]))) = None"
  by (subst available_connections_report_synced [OF refl, THEN conjunct2])
    (simp add: cluster_run_def cluster_start_def cluster_new_def connection_new_def)

theorem indexer_of_another_network_is_selected_witness:
  "\<exists>c1 :: (unit, network, unit) connection.
     select (\<lambda>_ x. x) [c1] = Some 0 \<and> \<not> cn_is_connected c1 \<and> cn_network_id c1 = Mainnet"
proof -
  let ?c = "connection_new Mainnet (None :: unit option) ()"
  let ?status = "indexer_status.extend (fresh_status 248 db_empty (nd_inputs sample_node)) \<lparr>is_version = [], is_network = Testnet10\<rparr>"
  define c1 where "c1 = link_task id [LinkUp (Inr (GetStatusResponse ?status)), PollTick (Inr (GetSyncStatusResponse True True True))] ?c"
  have "\<not> cn_is_connected c1 \<and> select (\<lambda>_ x. x) ([?c][0 := c1]) = Some 0 \<and> select (\<lambda>_ x. x) ([?c][0 := link_step id LinkDown c1]) = Some 0"
    by (rule indexer_of_another_network_is_selected [OF _ _ _ _ c1_def refl])
      (simp_all add: indexer_status.defs connection_new_def)
  moreover have "cn_network_id c1 = Mainnet"
    by (simp add: c1_def connection_new_def cn_handle_connect_def cn_poll_def indexer_status.defs)
  ultimately have "select (\<lambda>_ x. x) [c1] = Some 0 \<and> \<not> cn_is_connected c1 \<and> cn_network_id c1 = Mainnet" by simp
  then show ?thesis by blast
qed

end
