(* ===== verification/Latency.thy ===== *)
theory Latency
  imports Messages
begin

text \<open>
  The measurements of the HTTP server: the endpoints by the path of a request, the latencies of each
  (\<^verbatim>\<open>http/server/src/metrics/latency.rs\<close>), and the text of the rate limit (\<^verbatim>\<open>limits.rs\<close>). Durations are
  natural numbers of nanoseconds; the counters are 64 bits wide and wrap around.
\<close>

section \<open>Endpoints\<close>

datatype endpoint =
    Root | Metrics | Docs | Sandbox | KRC721CollectionList | KRC721CollectionLookup | KRC721TokenLookup
  | KRC721TokenList | KRC721TokenHistory | KRC721AddressNftList | KRC721AddressNftLookup | KRC721OpList
  | KRC721OpByScore | KRC721OpByTxid | KRC721DeploymentList | KRC721RoyaltyFee | KRC721RejectionByTxid
  | KRC721ReservedTokens | KRC721IndexerStatus | KRC721TokenIdRanges

fun endpoint_index :: "endpoint \<Rightarrow> nat" where
  "endpoint_index Root = 0" | "endpoint_index Metrics = 1" | "endpoint_index Docs = 2" | "endpoint_index Sandbox = 3"
| "endpoint_index KRC721CollectionList = 4" | "endpoint_index KRC721CollectionLookup = 5"
| "endpoint_index KRC721TokenLookup = 6" | "endpoint_index KRC721TokenList = 7"
| "endpoint_index KRC721TokenHistory = 8" | "endpoint_index KRC721AddressNftList = 9"
| "endpoint_index KRC721AddressNftLookup = 10" | "endpoint_index KRC721OpList = 11"
| "endpoint_index KRC721OpByScore = 12" | "endpoint_index KRC721OpByTxid = 13"
| "endpoint_index KRC721DeploymentList = 14" | "endpoint_index KRC721RoyaltyFee = 15"
| "endpoint_index KRC721RejectionByTxid = 16" | "endpoint_index KRC721ReservedTokens = 17"
| "endpoint_index KRC721IndexerStatus = 18" | "endpoint_index KRC721TokenIdRanges = 19"

definition ENDPOINT_COUNT :: nat where "ENDPOINT_COUNT = 20"

text \<open>\<^verbatim>\<open>[&str]::join\<close> with a single character.\<close>

fun join_with :: "nat \<Rightarrow> ustring list \<Rightarrow> ustring" where
  "join_with c [] = []"
| "join_with c [p] = p"
| "join_with c (p # q # ps) = p @ c # join_with c (q # ps)"

definition network_pattern :: ustring where "network_pattern = ascii ''/api/v1/krc721/''"

definition endpoint_in_network :: "ustring \<Rightarrow> endpoint option" where
  "endpoint_in_network p =
     (if p = ascii ''nfts'' then Some KRC721CollectionList
      else if prefix (ascii ''nfts/'') p \<and> count_list p 47 = 1 then Some KRC721CollectionLookup
      else if prefix (ascii ''nfts/'') p \<and> count_list p 47 = 2 then Some KRC721TokenLookup
      else if prefix (ascii ''owners/'') p then Some KRC721TokenList
      else if prefix (ascii ''history/'') p then Some KRC721TokenHistory
      else if prefix (ascii ''address/'') p \<and> count_list p 47 = 1 then Some KRC721AddressNftList
      else if prefix (ascii ''address/'') p \<and> count_list p 47 = 2 then Some KRC721AddressNftLookup
      else if p = ascii ''ops'' then Some KRC721OpList
      else if prefix (ascii ''ops/score/'') p then Some KRC721OpByScore
      else if prefix (ascii ''ops/txid/'') p then Some KRC721OpByTxid
      else if p = ascii ''deployments'' then Some KRC721DeploymentList
      else if prefix (ascii ''royalties/'') p then Some KRC721RoyaltyFee
      else if prefix (ascii ''rejections/txid/'') p then Some KRC721RejectionByTxid
      else if p = ascii ''reserved'' then Some KRC721ReservedTokens
      else if p = ascii ''status'' then Some KRC721IndexerStatus
      else if prefix (ascii ''ranges/'') p then Some KRC721TokenIdRanges
      else None)"

definition from_path :: "ustring \<Rightarrow> endpoint option" where
  "from_path path =
     (if path = ascii ''/'' then Some Root
      else if path = ascii ''/api/metrics'' then Some Metrics
      else if path = ascii ''/docs'' then Some Docs
      else if path = ascii ''/sandbox'' then Some Sandbox
      else if prefix network_pattern path then
        (let route = drop (length network_pattern) path
         in endpoint_in_network (join_with 47 (drop 1 (split_on 47 route))))
      else None)"

section \<open>Latencies\<close>

record endpoint_metrics =
  em_min_nanos :: u64
  em_max_nanos :: u64
  em_sum_ms :: u64
  em_count :: u64

definition endpoint_metrics_new :: endpoint_metrics where
  "endpoint_metrics_new = \<lparr>em_min_nanos = - 1, em_max_nanos = 0, em_sum_ms = 0, em_count = 0\<rparr>"

definition endpoint_metrics_record :: "nat \<Rightarrow> endpoint_metrics \<Rightarrow> endpoint_metrics" where
  "endpoint_metrics_record duration m =
     (let nanos = word_of_nat duration in
      \<lparr>em_min_nanos = min (em_min_nanos m) nanos, em_max_nanos = max (em_max_nanos m) nanos,
       em_sum_ms = em_sum_ms m + nanos, em_count = em_count m + 1\<rparr>)"

record latency_stats =
  ls_min_nanos :: u64
  ls_max_nanos :: u64
  ls_avg_nanos :: u64
  ls_count :: u64

definition endpoint_stats :: "endpoint_metrics \<Rightarrow> latency_stats" where
  "endpoint_stats m =
     (let count = em_count m in
      \<lparr>ls_min_nanos = em_min_nanos m, ls_max_nanos = em_max_nanos m,
       ls_avg_nanos = (if count = 0 then 0 else em_sum_ms m div count), ls_count = count\<rparr>)"

type_synonym latency_metrics = "endpoint_metrics list"

definition latency_metrics_new :: latency_metrics where
  "latency_metrics_new = replicate ENDPOINT_COUNT endpoint_metrics_new"

definition latency_metrics_record :: "endpoint \<Rightarrow> nat \<Rightarrow> latency_metrics \<Rightarrow> latency_metrics" where
  "latency_metrics_record e duration ms =
     ms[endpoint_index e := endpoint_metrics_record duration (ms ! endpoint_index e)]"

record latency_snapshot =
  lt_root :: latency_stats
  lt_metrics :: latency_stats
  lt_sandbox :: latency_stats
  lt_docs :: latency_stats
  lt_krc721_collection_list :: latency_stats
  lt_krc721_collection_lookup :: latency_stats
  lt_krc721_token_lookup :: latency_stats
  lt_krc721_token_list :: latency_stats
  lt_krc721_token_history :: latency_stats
  lt_krc721_address_nft_list :: latency_stats
  lt_krc721_address_nft_lookup :: latency_stats
  lt_krc721_op_list :: latency_stats
  lt_krc721_op_by_score :: latency_stats
  lt_krc721_op_by_txid :: latency_stats
  lt_krc721_deployment_list :: latency_stats
  lt_krc721_royalty_fee :: latency_stats
  lt_krc721_rejection_by_txid :: latency_stats
  lt_krc721_reserved_tokens :: latency_stats
  lt_krc721_indexer_status :: latency_stats
  lt_krc721_token_id_ranges :: latency_stats

definition latency_snapshot_of :: "latency_metrics \<Rightarrow> latency_snapshot" where
  "latency_snapshot_of ms =
     (let stats = (\<lambda>e. endpoint_stats (ms ! endpoint_index e)) in
      \<lparr>lt_root = stats Root, lt_metrics = stats Metrics, lt_sandbox = stats Sandbox, lt_docs = stats Docs,
       lt_krc721_collection_list = stats KRC721CollectionList,
       lt_krc721_collection_lookup = stats KRC721CollectionLookup,
       lt_krc721_token_lookup = stats KRC721TokenLookup, lt_krc721_token_list = stats KRC721TokenList,
       lt_krc721_token_history = stats KRC721TokenHistory,
       lt_krc721_address_nft_list = stats KRC721AddressNftList,
       lt_krc721_address_nft_lookup = stats KRC721AddressNftLookup, lt_krc721_op_list = stats KRC721OpList,
       lt_krc721_op_by_score = stats KRC721OpByScore, lt_krc721_op_by_txid = stats KRC721OpByTxid,
       lt_krc721_deployment_list = stats KRC721DeploymentList, lt_krc721_royalty_fee = stats KRC721RoyaltyFee,
       lt_krc721_rejection_by_txid = stats KRC721RejectionByTxid,
       lt_krc721_reserved_tokens = stats KRC721ReservedTokens,
       lt_krc721_indexer_status = stats KRC721IndexerStatus,
       lt_krc721_token_id_ranges = stats KRC721TokenIdRanges\<rparr>)"

text \<open>A request of the middleware: its path and how long it took, or None when its future was dropped before.\<close>

definition metrics_middleware :: "ustring \<Rightarrow> nat option \<Rightarrow> latency_metrics \<Rightarrow> latency_metrics" where
  "metrics_middleware path elapsed ms =
     (case from_path path of
        None \<Rightarrow> ms
      | Some e \<Rightarrow> (case elapsed of None \<Rightarrow> ms | Some d \<Rightarrow> latency_metrics_record e d ms))"

section \<open>Rate limits\<close>

record rate_limit =
  rl_requests :: u64
  rl_period :: u64

datatype rate_limit_error = InvalidRateLimit | UnableToParseRequests ustring | UnableToParsePeriod ustring

definition rate_limit_from_str :: "ustring \<Rightarrow> rate_limit_error + rate_limit" where
  "rate_limit_from_str s =
     (case split_once 58 s of
        None \<Rightarrow> Inl InvalidRateLimit
      | Some (requests, period) \<Rightarrow>
          if requests = [] \<or> period = [] then Inl InvalidRateLimit
          else (case u64_from_str requests of
            None \<Rightarrow> Inl (UnableToParseRequests requests)
          | Some r \<Rightarrow>
            (case u64_from_str period of
               None \<Rightarrow> Inl (UnableToParsePeriod period)
             | Some p \<Rightarrow> Inr \<lparr>rl_requests = r, rl_period = p\<rparr>)))"

lemma rate_limit_text:
  "rate_limit_from_str (u64_to_string r @ 58 # u64_to_string p) = Inr \<lparr>rl_requests = r, rl_period = p\<rparr>"
proof -
  have "58 \<notin> set (u64_to_string r)" using u64_text_chars [of 58 r] by auto
  then show ?thesis by (simp add: rate_limit_from_str_def split_once_append u64_to_string_def [of r] u64_to_string_def [of p])
      (simp flip: u64_to_string_def)
qed

section \<open>What the latencies of an endpoint mean\<close>

definition after_recording :: "nat list \<Rightarrow> endpoint_metrics" where
  "after_recording ds = fold endpoint_metrics_record ds endpoint_metrics_new"

text \<open>The four counters stand for the smallest and the largest duration, the sum and the number modulo their width.\<close>

lemma fold_recorded:
  "fold endpoint_metrics_record ds m =
     \<lparr>em_min_nanos = fold (\<lambda>d x. min x (word_of_nat d)) ds (em_min_nanos m),
      em_max_nanos = fold (\<lambda>d x. max x (word_of_nat d)) ds (em_max_nanos m),
      em_sum_ms = em_sum_ms m + word_of_nat (sum_list ds), em_count = em_count m + word_of_nat (length ds)\<rparr>"
  by (induction ds arbitrary: m) (simp_all add: endpoint_metrics_record_def Let_def algebra_simps)

lemma unat_min: "unat (min x y) = min (unat x) (unat y)" for x y :: u64
  by (simp add: min_def word_le_nat_alt)

lemma unat_max: "unat (max x y) = max (unat x) (unat y)" for x y :: u64
  by (simp add: max_def word_le_nat_alt)

lemma unat_narrow: "d < 2 ^ 64 \<Longrightarrow> unat (word_of_nat d :: u64) = d"
  by (simp add: unat_of_nat)

lemma unat_fold_min:
  "\<forall>d \<in> set ds. d < 2 ^ 64 \<Longrightarrow> unat (fold (\<lambda>d x. min x (word_of_nat d)) ds (x :: u64)) = Min (insert (unat x) (set ds))"
proof (induction ds arbitrary: x)
  case (Cons d ds)
  then have "unat (fold (\<lambda>d x. min x (word_of_nat d)) (d # ds) x) = Min (insert (min (unat x) d) (set ds))"
    by (simp add: unat_min unat_narrow)
  then show ?case by (cases "set ds = {}") (simp_all add: min.assoc)
qed simp

lemma unat_fold_max:
  "\<forall>d \<in> set ds. d < 2 ^ 64 \<Longrightarrow> unat (fold (\<lambda>d x. max x (word_of_nat d)) ds (x :: u64)) = Max (insert (unat x) (set ds))"
proof (induction ds arbitrary: x)
  case (Cons d ds)
  then have "unat (fold (\<lambda>d x. max x (word_of_nat d)) (d # ds) x) = Max (insert (max (unat x) d) (set ds))"
    by (simp add: unat_max unat_narrow)
  then show ?case by (cases "set ds = {}") (simp_all add: max.assoc)
qed simp

lemma sum_between: "length ds * Min (set ds) \<le> sum_list ds \<and> sum_list ds \<le> length ds * Max (set ds)"
  if "ds \<noteq> []" for ds :: "nat list"
proof -
  have "length ds * b \<le> sum_list ds" if "\<forall>d \<in> set ds. b \<le> d" for b
    using that by (induction ds) (auto intro: add_mono)
  moreover have "sum_list ds \<le> length ds * b" if "\<forall>d \<in> set ds. d \<le> b" for b
    using that by (induction ds) (auto intro: add_mono)
  ultimately show ?thesis by simp
qed

text \<open>While the durations of an endpoint add up to less than 64 bits can hold, its statistics are exact: the
  number, the smallest and the largest of them, and their average rounded down, which lies between these
  two.\<close>

theorem latencies_are_exact:
  assumes "ds \<noteq> []" and "sum_list ds < 2 ^ 64" and "length ds < 2 ^ 64"
    and "stats = endpoint_stats (after_recording ds)"
  shows "unat (ls_count stats) = length ds \<and> unat (ls_min_nanos stats) = Min (set ds) \<and> unat (ls_max_nanos stats) = Max (set ds) \<and>
    unat (ls_avg_nanos stats) = sum_list ds div length ds \<and>
    ls_min_nanos stats \<le> ls_avg_nanos stats \<and> ls_avg_nanos stats \<le> ls_max_nanos stats"
proof -
  have small: "\<forall>d \<in> set ds. d < 2 ^ 64" using assms(2) member_le_sum_list le_less_trans by blast
  let ?m = "after_recording ds"
  have c: "unat (em_count ?m) = length ds" "unat (em_sum_ms ?m) = sum_list ds"
    using assms(2,3) by (simp_all add: after_recording_def fold_recorded endpoint_metrics_new_def unat_narrow)
  have top: "unat (- 1 :: u64) = 2 ^ 64 - 1" by (simp add: unsigned_minus_1_eq_mask mask_eq_exp_minus_1)
  have "Min (set ds) \<le> 2 ^ 64 - 1"
    using assms(1) small Min_in [of "set ds"] by (metis List.finite_set Nat.lessE diff_Suc_1 less_Suc_eq_le set_empty)
  then have mn: "unat (em_min_nanos ?m) = Min (set ds)"
    using assms(1) by (simp add: after_recording_def fold_recorded endpoint_metrics_new_def unat_fold_min [OF small] top)
  have mx: "unat (em_max_nanos ?m) = Max (set ds)"
    using assms(1) by (simp add: after_recording_def fold_recorded endpoint_metrics_new_def unat_fold_max [OF small])
  have "em_count ?m \<noteq> 0" using c(1) assms(1) by auto
  then have av: "unat (ls_avg_nanos stats) = sum_list ds div length ds"
    by (simp add: assms(4) endpoint_stats_def Let_def c unat_div_distrib)
  have "0 < length ds" using assms(1) by simp
  then have "Min (set ds) \<le> sum_list ds div length ds" "sum_list ds div length ds \<le> Max (set ds)"
    using sum_between [OF assms(1)] div_le_mono [of "sum_list ds" "length ds * Max (set ds)" "length ds"]
    by (simp_all only: less_eq_div_iff_mult_less_eq mult.commute [of "Min (set ds)"] nonzero_mult_div_cancel_left
        neq0_conv)
  with av c mn mx show ?thesis by (simp add: assms(4) endpoint_stats_def Let_def word_le_nat_alt)
qed

theorem latencies_are_exact_witness:
  "unat (ls_avg_nanos (endpoint_stats (after_recording [3, 8]))) = 5"
  using latencies_are_exact [of "[3, 8]", OF _ _ _ refl] by (simp flip: numeral_2_eq_2)

end
