(* ===== verification/Http.thy ===== *)
theory Http
  imports ClusterProperties Latency
begin

text \<open>
  The HTTP server of an indexer or of a cluster: the documents and their status (\<^verbatim>\<open>http/server/src/service.rs\<close>,
  \<^verbatim>\<open>core/src/model/krc721/model.rs\<close>), the rejection of unreadable paths (\<^verbatim>\<open>path.rs\<close>), the routes with their
  handlers, the filter of addresses (\<^verbatim>\<open>filter.rs\<close>), the counter of requests (\<^verbatim>\<open>metrics.rs\<close>) and their order.
  The web framework chooses the route and reads the arguments: a request carries the outcome of both. The
  JSON writers of the data types and the renderer of the manual are arguments. The layers of the framework
  for rates, timeouts, origins and traces are left out, and so are the routes of the snapshots (theory
  Generator).
\<close>

section \<open>Documents\<close>

record ('t, 'o) api_response =
  rs_message :: ustring
  rs_result :: "'t option"
  rs_next :: "'o option"

definition response_pagination :: "('v, 'o) pagination \<Rightarrow> ('v list, 'o) api_response" where
  "response_pagination p =
     \<lparr>rs_message = ascii ''success'', rs_result = Some (pg_data p), rs_next = pg_next_page_offset p\<rparr>"

definition response_single :: "'t option \<Rightarrow> ('t, unit) api_response" where
  "response_single result =
     \<lparr>rs_message = (if result \<noteq> None then ascii ''success'' else ascii ''not found''), rs_result = result, rs_next = None\<rparr>"

definition response_error :: "ustring \<Rightarrow> (unit, unit) api_response" where
  "response_error msg = \<lparr>rs_message = msg, rs_result = None, rs_next = None\<rparr>"

definition has_result :: "('t, 'o) api_response \<Rightarrow> bool" where
  "has_result r = (rs_result r \<noteq> None)"

record http_response =
  hr_status :: nat
  hr_content_type :: "string option"
  hr_cache_control :: "string option"
  hr_body :: ustring

definition not_cached :: string where
  "not_cached = ''no-cache, no-store, must-revalidate, proxy-revalidate, max-age=0''"

definition to_pagination ::
  "((unit, unit) api_response \<Rightarrow> ustring) \<Rightarrow> ('e \<Rightarrow> ustring) \<Rightarrow> (('v list, 'o) api_response \<Rightarrow> ustring)
     \<Rightarrow> 'e + ('v, 'o) pagination \<Rightarrow> http_response" where
  "to_pagination write_error error_text write result =
     (case result of
        Inr value \<Rightarrow>
          \<lparr>hr_status = 200, hr_content_type = Some ''application/json'', hr_cache_control = Some not_cached,
           hr_body = write (response_pagination value)\<rparr>
      | Inl err \<Rightarrow>
          \<lparr>hr_status = 500, hr_content_type = None, hr_cache_control = None,
           hr_body = write_error (response_error (error_text err))\<rparr>)"

definition to_json ::
  "('e \<Rightarrow> ustring) \<Rightarrow> (('t, unit) api_response \<Rightarrow> ustring) \<Rightarrow> 'e + 't option \<Rightarrow> http_response" where
  "to_json error_text write result =
     (case result of
        Inr value \<Rightarrow>
          (let response = response_single value;
               (code, body, content_type) =
                 (if has_result response then (200, write response, ''application/json'')
                  else (404, rs_message response, ''text/plain''))
           in \<lparr>hr_status = code, hr_content_type = Some content_type, hr_cache_control = Some not_cached, hr_body = body\<rparr>)
      | Inl err \<Rightarrow>
          \<lparr>hr_status = 500, hr_content_type = Some ''text/plain'', hr_cache_control = None, hr_body = error_text err\<rparr>)"

section \<open>Unreadable paths\<close>

datatype path_error_kind =
    WrongNumberOfParameters | ParseErrorAtKey ustring | ParseErrorAtIndex u64 | ParseError | InvalidUtf8InPathParam ustring
  | UnsupportedType | KindMessage ustring | OtherKind

datatype path_rejection = FailedToDeserializePathParams path_error_kind | MissingPathParams ustring | OtherRejection ustring

record path_error =
  pe_message :: ustring
  pe_location :: "ustring option"

text \<open>The text of a kind is the framework's.\<close>

definition url_path_rejection :: "(path_error_kind \<Rightarrow> ustring) \<Rightarrow> path_rejection \<Rightarrow> nat \<times> path_error" where
  "url_path_rejection kind_text rejection =
     (case rejection of
        FailedToDeserializePathParams kind \<Rightarrow>
          (case kind of
             WrongNumberOfParameters \<Rightarrow> (400, \<lparr>pe_message = kind_text kind, pe_location = None\<rparr>)
           | ParseErrorAtKey key \<Rightarrow> (400, \<lparr>pe_message = kind_text kind, pe_location = Some key\<rparr>)
           | ParseErrorAtIndex index \<Rightarrow> (400, \<lparr>pe_message = kind_text kind, pe_location = Some (u64_to_string index)\<rparr>)
           | ParseError \<Rightarrow> (400, \<lparr>pe_message = kind_text kind, pe_location = None\<rparr>)
           | InvalidUtf8InPathParam key \<Rightarrow> (400, \<lparr>pe_message = kind_text kind, pe_location = Some key\<rparr>)
           | UnsupportedType \<Rightarrow> (500, \<lparr>pe_message = kind_text kind, pe_location = None\<rparr>)
           | KindMessage msg \<Rightarrow> (400, \<lparr>pe_message = msg, pe_location = None\<rparr>)
           | OtherKind \<Rightarrow> (400, \<lparr>pe_message = ascii ''Unhandled deserialization error: '' @ kind_text kind, pe_location = None\<rparr>))
      | MissingPathParams error \<Rightarrow> (500, \<lparr>pe_message = error, pe_location = None\<rparr>)
      | OtherRejection msg \<Rightarrow> (500, \<lparr>pe_message = ascii ''Unhandled path rejection: '' @ msg, pe_location = None\<rparr>))"

section \<open>Routes\<close>

datatype api_route =
    Nfts | NftsOfTick | Nft | Owners | History | AddressNfts | AddressNftsOfTick | Ops | OpsScore | OpsTxid | Deployments
  | Royalties | RejectionsTxid | Reserved | StatusRoute | Ranges | Listings | ListingOfToken | AddressListingsRoute

fun network_text :: "network \<Rightarrow> ustring" where
  "network_text Mainnet = ascii ''mainnet''"
| "network_text Testnet10 = ascii ''testnet-10''"

fun route_tail :: "api_route \<Rightarrow> string" where
  "route_tail Nfts = ''/nfts''"
| "route_tail NftsOfTick = ''/nfts/{tick}''"
| "route_tail Nft = ''/nfts/{tick}/{id}''"
| "route_tail Owners = ''/owners/{tick}''"
| "route_tail History = ''/history/{tick}/{id}''"
| "route_tail AddressNfts = ''/address/{address}''"
| "route_tail AddressNftsOfTick = ''/address/{address}/{tick}''"
| "route_tail Ops = ''/ops''"
| "route_tail OpsScore = ''/ops/score/{score}''"
| "route_tail OpsTxid = ''/ops/txid/{txid}''"
| "route_tail Deployments = ''/deployments''"
| "route_tail Royalties = ''/royalties/{address}/{tick}''"
| "route_tail RejectionsTxid = ''/rejections/txid/{txid}''"
| "route_tail Reserved = ''/reserved''"
| "route_tail StatusRoute = ''/status''"
| "route_tail Ranges = ''/ranges/{tick}''"
| "route_tail Listings = ''/listings/{tick}''"
| "route_tail ListingOfToken = ''/listings/{tick}/{id}''"
| "route_tail AddressListingsRoute = ''/address/{address}/listings''"

definition route_template :: "network \<Rightarrow> api_route \<Rightarrow> ustring" where
  "route_template network r = ascii ''/api/v1/krc721/'' @ network_text network @ ascii (route_tail r)"

text \<open>A request of a route, with what the extractors have made of its path and its query.\<close>

type_synonym 'v path_arg = "path_rejection + 'v"
type_synonym 'v query_arg = "http_response + 'v"

datatype api_request =
    GetNfts "u64 request_args query_arg"
  | GetNftsOfTick "collection_lookup_args path_arg"
  | GetNft "token_lookup_args path_arg"
  | GetOwners "token_list_lookup_args path_arg" "u64 request_args query_arg"
  | GetHistory "token_lookup_args path_arg" "u64 request_args query_arg"
  | GetAddressNfts "address_list_lookup_args path_arg" "tick_token_offset request_args query_arg"
  | GetAddressNftsOfTick "address_lookup_args path_arg" "u64 request_args query_arg"
  | GetOps "u64 request_args query_arg"
  | GetOpsScore "op_lookup_args path_arg"
  | GetOpsTxid "tx_lookup_args path_arg"
  | GetDeployments "u64 request_args query_arg"
  | GetRoyalties "royalty_fee_lookup_args path_arg"
  | GetRejectionsTxid "tx_lookup_args path_arg"
  | GetReserved
  | GetStatusRoute
  | GetRanges "token_list_lookup_args path_arg"
  | GetListings "token_list_lookup_args path_arg" "u64 request_args query_arg"
  | GetListingOfToken "token_lookup_args path_arg"
  | GetAddressListings "address_list_lookup_args path_arg" "tick_token_offset request_args query_arg"

record 'a writers =
  wr_kind_text :: "path_error_kind \<Rightarrow> ustring"
  wr_path_error :: "path_error \<Rightarrow> ustring"
  wr_error :: "(unit, unit) api_response \<Rightarrow> ustring"
  wr_status :: "(status_answer, unit) api_response \<Rightarrow> ustring"
  wr_collections :: "('a collection_meta_wrapper list, u64) api_response \<Rightarrow> ustring"
  wr_collection :: "('a collection_meta_wrapper, unit) api_response \<Rightarrow> ustring"
  wr_tokens :: "('a token_answer list, u64) api_response \<Rightarrow> ustring"
  wr_token :: "('a token_answer, unit) api_response \<Rightarrow> ustring"
  wr_nfts :: "(address_nft_info list, tick_token_offset) api_response \<Rightarrow> ustring"
  wr_nfts_of_tick :: "(address_nft_info list, u64) api_response \<Rightarrow> ustring"
  wr_operations :: "('a operation_meta_wrapper list, u64) api_response \<Rightarrow> ustring"
  wr_operation :: "('a operation_meta_wrapper, unit) api_response \<Rightarrow> ustring"
  wr_deployments :: "('a scored_deploy_answer list, u64) api_response \<Rightarrow> ustring"
  wr_text :: "(ustring, unit) api_response \<Rightarrow> ustring"
  wr_texts :: "(ustring list, unit) api_response \<Rightarrow> ustring"
  wr_history :: "('a history_entity list, u64) api_response \<Rightarrow> ustring"
  wr_ranges :: "(available_ranges, unit) api_response \<Rightarrow> ustring"
  wr_listings :: "('a listing_meta_wrapper list, u64) api_response \<Rightarrow> ustring"
  wr_listing :: "('a listing_meta_wrapper, unit) api_response \<Rightarrow> ustring"
  wr_address_listings :: "('a listing_meta_wrapper list, tick_token_offset) api_response \<Rightarrow> ustring"

definition path_rejected :: "'a writers \<Rightarrow> path_rejection \<Rightarrow> http_response" where
  "path_rejected w rejection =
     (case url_path_rejection (wr_kind_text w) rejection of (status, body) \<Rightarrow>
        \<lparr>hr_status = status, hr_content_type = Some ''application/json'', hr_cache_control = None, hr_body = wr_path_error w body\<rparr>)"

definition with_path :: "'a writers \<Rightarrow> 'v path_arg \<Rightarrow> ('v \<Rightarrow> http_response + 'q) \<Rightarrow> http_response + 'q" where
  "with_path w p f = (case p of Inl rejection \<Rightarrow> Inl (path_rejected w rejection) | Inr v \<Rightarrow> f v)"

text \<open>What a handler asks of the data, after the path and then the query are read.\<close>

fun api_query :: "'a writers \<Rightarrow> api_request \<Rightarrow> http_response + data_request" where
  "api_query w (GetNfts query) = and_then query (\<lambda>i. Inr (CollectionList i))"
| "api_query w (GetNftsOfTick path) = with_path w path (\<lambda>a. Inr (CollectionLookup a))"
| "api_query w (GetNft path) = with_path w path (\<lambda>a. Inr (TokenLookup a))"
| "api_query w (GetOwners path query) = with_path w path (\<lambda>a. and_then query (\<lambda>i. Inr (TokenList a i)))"
| "api_query w (GetHistory path query) = with_path w path (\<lambda>a. and_then query (\<lambda>i. Inr (TokenHistory a i)))"
| "api_query w (GetAddressNfts path query) = with_path w path (\<lambda>a. and_then query (\<lambda>i. Inr (AddressNftList a i)))"
| "api_query w (GetAddressNftsOfTick path query) = with_path w path (\<lambda>a. and_then query (\<lambda>i. Inr (AddressNftLookup a i)))"
| "api_query w (GetOps query) = and_then query (\<lambda>i. Inr (OpList i))"
| "api_query w (GetOpsScore path) = with_path w path (\<lambda>a. Inr (OpByScore a))"
| "api_query w (GetOpsTxid path) = with_path w path (\<lambda>a. Inr (OpByTxid a))"
| "api_query w (GetDeployments query) = and_then query (\<lambda>i. Inr (DeploymentList i))"
| "api_query w (GetRoyalties path) = with_path w path (\<lambda>a. Inr (RoyaltyFee a))"
| "api_query w (GetRejectionsTxid path) = with_path w path (\<lambda>a. Inr (RejectionByTxid a))"
| "api_query w GetReserved = Inr ReservedTokens"
| "api_query w GetStatusRoute = Inr IndexerStatus"
| "api_query w (GetRanges path) = with_path w path (\<lambda>a. Inr (AvailableTokenIdRanges a))"
| "api_query w (GetListings path query) = with_path w path (\<lambda>a. and_then query (\<lambda>i. Inr (ActiveListings a i)))"
| "api_query w (GetListingOfToken path) = with_path w path (\<lambda>a. Inr (ListingLookup a))"
| "api_query w (GetAddressListings path query) = with_path w path (\<lambda>a. and_then query (\<lambda>i. Inr (AddressListings a i)))"

text \<open>Which of the two functions writes the answer of a handler.\<close>

fun paged :: "data_request \<Rightarrow> bool" where
  "paged (CollectionList _) = True" | "paged (TokenList _ _) = True" | "paged (TokenHistory _ _) = True"
| "paged (AddressNftList _ _) = True" | "paged (AddressNftLookup _ _) = True" | "paged (OpList _) = True"
| "paged (DeploymentList _) = True" | "paged (ActiveListings _ _) = True" | "paged (AddressListings _ _) = True"
| "paged _ = False"

fun written :: "'a writers \<Rightarrow> ('e \<Rightarrow> ustring) \<Rightarrow> bool \<Rightarrow> 'e + 'a data_answer \<Rightarrow> http_response" where
  "written w t p (Inl e) =
     (if p then to_pagination (wr_error w) t (\<lambda>_ :: (unit list, unit) api_response. []) (Inl e)
      else to_json t (\<lambda>_ :: (unit, unit) api_response. []) (Inl e))"
| "written w t p (Inr (StatusAnswer x)) = to_json t (wr_status w) (Inr (Some x))"
| "written w t p (Inr (CollectionsAnswer x)) = to_pagination (wr_error w) t (wr_collections w) (Inr x)"
| "written w t p (Inr (CollectionAnswer x)) = to_json t (wr_collection w) (Inr x)"
| "written w t p (Inr (TokensAnswer x)) = to_pagination (wr_error w) t (wr_tokens w) (Inr x)"
| "written w t p (Inr (TokenAnswer x)) = to_json t (wr_token w) (Inr x)"
| "written w t p (Inr (NftsAnswer x)) = to_pagination (wr_error w) t (wr_nfts w) (Inr x)"
| "written w t p (Inr (NftsOfTickAnswer x)) = to_pagination (wr_error w) t (wr_nfts_of_tick w) (Inr x)"
| "written w t p (Inr (OperationsAnswer x)) = to_pagination (wr_error w) t (wr_operations w) (Inr x)"
| "written w t p (Inr (OperationAnswer x)) = to_json t (wr_operation w) (Inr x)"
| "written w t p (Inr (DeploymentsAnswer x)) = to_pagination (wr_error w) t (wr_deployments w) (Inr x)"
| "written w t p (Inr (FeeAnswer x)) = to_json t (wr_text w) (Inr x)"
| "written w t p (Inr (ReasonAnswer x)) = to_json t (wr_text w) (Inr x)"
| "written w t p (Inr (ReservedAnswer x)) = to_json t (wr_texts w) (Inr (Some x))"
| "written w t p (Inr (HistoryAnswer x)) = to_pagination (wr_error w) t (wr_history w) (Inr x)"
| "written w t p (Inr (RangesAnswer x)) = to_json t (wr_ranges w) (Inr x)"
| "written w t p (Inr (ListingsAnswer x)) = to_pagination (wr_error w) t (wr_listings w) (Inr x)"
| "written w t p (Inr (ListingAnswer x)) = to_json t (wr_listing w) (Inr x)"
| "written w t p (Inr (AddressListingsAnswer x)) = to_pagination (wr_error w) t (wr_address_listings w) (Inr x)"

type_synonym ('s, 'e, 'a) data_source = "data_request \<Rightarrow> 's \<Rightarrow> ('e + 'a data_answer) \<times> 's"

definition api_handler ::
  "'a writers \<Rightarrow> ('e \<Rightarrow> ustring) \<Rightarrow> ('s, 'e, 'a) data_source \<Rightarrow> api_request \<Rightarrow> 's \<Rightarrow> http_response \<times> 's" where
  "api_handler w error_text data request s =
     (case api_query w request of
        Inl response \<Rightarrow> (response, s)
      | Inr q \<Rightarrow> (case data q s of (result, s') \<Rightarrow> (written w error_text (paged q) result, s')))"

section \<open>Pages\<close>

text \<open>\<^verbatim>\<open>str::replace\<close> with a pattern that is not empty.\<close>

fun str_replace :: "ustring \<Rightarrow> ustring \<Rightarrow> ustring \<Rightarrow> ustring" where
  "str_replace pat new [] = []"
| "str_replace pat new (c # s) =
     (if prefix pat (c # s) then new @ str_replace pat new (drop (length pat - 1) s) else c # str_replace pat new s)"

text \<open>The manual: its texts are turned into HTML by a library and put into the frame.\<close>

record manual =
  mn_krc721 :: ustring
  mn_rest :: ustring
  mn_overview :: ustring
  mn_rust :: ustring
  mn_ts :: ustring
  mn_pagination :: ustring
  mn_field_reference :: ustring
  mn_error_handling :: ustring
  mn_docs_html :: ustring

definition generate_docs :: "(ustring \<Rightarrow> ustring) \<Rightarrow> manual \<Rightarrow> ustring" where
  "generate_docs markdown_to_html m =
     (let doc_html = mn_docs_html m;
          doc_html = str_replace (ascii ''{krc721_html}'') (markdown_to_html (mn_krc721 m)) doc_html;
          doc_html = str_replace (ascii ''{rest_html}'') (markdown_to_html (mn_rest m)) doc_html;
          doc_html = str_replace (ascii ''{overview_html}'') (markdown_to_html (mn_overview m)) doc_html;
          doc_html = str_replace (ascii ''{rust_html}'') (markdown_to_html (mn_rust m)) doc_html;
          doc_html = str_replace (ascii ''{ts_html}'') (markdown_to_html (mn_ts m)) doc_html;
          doc_html = str_replace (ascii ''{pagination_html}'') (markdown_to_html (mn_pagination m)) doc_html;
          doc_html = str_replace (ascii ''{field_reference_html}'') (markdown_to_html (mn_field_reference m)) doc_html;
          doc_html = str_replace (ascii ''{error_handling_html}'') (markdown_to_html (mn_error_handling m)) doc_html
      in str_replace (ascii ''<a '') (ascii ''<a target=\"_blank\" '') doc_html)"

record http_pages =
  pa_index_html :: ustring
  pa_sandbox_html :: ustring
  pa_doc_html :: ustring
  pa_skill_md :: ustring

definition http_pages_new ::
  "network \<Rightarrow> ustring \<Rightarrow> ustring \<Rightarrow> ustring \<Rightarrow> ustring \<Rightarrow> (ustring \<Rightarrow> ustring) \<Rightarrow> manual \<Rightarrow> http_pages" where
  "http_pages_new network version index_html sandbox_html skill_md markdown_to_html m =
     (let fill = (\<lambda>html. str_replace (ascii ''{{version}}'') version (str_replace (ascii ''{{network}}'') (network_text network) html))
      in \<lparr>pa_index_html = fill index_html, pa_sandbox_html = fill sandbox_html,
          pa_doc_html = generate_docs markdown_to_html m, pa_skill_md = skill_md\<rparr>)"

definition html_page :: "ustring \<Rightarrow> http_response" where
  "html_page html =
     \<lparr>hr_status = 200, hr_content_type = Some ''text/html; charset=utf-8'', hr_cache_control = None, hr_body = html\<rparr>"

definition skill_page :: "ustring \<Rightarrow> http_response" where
  "skill_page msg =
     \<lparr>hr_status = 200, hr_content_type = Some ''text/plain; charset=utf-8'', hr_cache_control = None, hr_body = msg\<rparr>"

section \<open>The server\<close>

text \<open>A request: its path, the address of the client if the connection tells it, the route that the framework has
  found, or its answer when there is none, and the time that the answer took.\<close>

datatype target = Api api_request | IndexPage | SandboxPage | DocsPage | SkillPage | MetricsPage | Unmatched http_response

record 'i http_request =
  hq_path :: ustring
  hq_client_ip :: "'i option"
  hq_target :: target
  hq_elapsed :: nat

record metrics_snapshot =
  mt_requests_per_second :: u64
  mt_latency :: latency_snapshot

record ('s, 'e, 'a, 'i) http_server =
  sv_writers :: "'a writers"
  sv_error_text :: "'e \<Rightarrow> ustring"
  sv_metrics_text :: "metrics_snapshot \<Rightarrow> ustring"
  sv_data :: "('s, 'e, 'a) data_source"
  sv_allowed_ips :: "'i list option"
  sv_pages :: http_pages

record 's http_state =
  hs_data :: 's
  hs_requests_per_second :: u64
  hs_latency :: latency_metrics

definition http_state_new :: "'s \<Rightarrow> 's http_state" where
  "http_state_new s = \<lparr>hs_data = s, hs_requests_per_second = 0, hs_latency = latency_metrics_new\<rparr>"

type_synonym 's service = "'s http_state \<Rightarrow> http_response res \<times> 's http_state"

definition route_service :: "('s, 'e, 'a, 'i) http_server \<Rightarrow> target \<Rightarrow> 's service" where
  "route_service sv t s =
     (case t of
        Api request \<Rightarrow>
          (case api_handler (sv_writers sv) (sv_error_text sv) (sv_data sv) request (hs_data s) of
             (response, d) \<Rightarrow> (Inr response, s\<lparr>hs_data := d\<rparr>))
      | IndexPage \<Rightarrow> (Inr (html_page (pa_index_html (sv_pages sv))), s)
      | SandboxPage \<Rightarrow> (Inr (html_page (pa_sandbox_html (sv_pages sv))), s)
      | DocsPage \<Rightarrow> (Inr (html_page (pa_doc_html (sv_pages sv))), s)
      | SkillPage \<Rightarrow> (Inr (skill_page (pa_skill_md (sv_pages sv))), s)
      | MetricsPage \<Rightarrow> (Inr \<lparr>hr_status = 404, hr_content_type = None, hr_cache_control = None, hr_body = []\<rparr>, s)
      | Unmatched response \<Rightarrow> (Inr response, s))"

text \<open>
  The filter takes the inner service out of itself and leaves zeroed memory behind, which the standard library
  refuses with a panic for a type that has no such value: a property of the service, given as an argument.
\<close>

definition refusal :: "nat \<Rightarrow> string \<Rightarrow> http_response" where
  "refusal code msg =
     \<lparr>hr_status = code, hr_content_type = Some ''text/plain; charset=utf-8'', hr_cache_control = None, hr_body = ascii msg\<rparr>"

definition ip_filter :: "bool \<Rightarrow> 'i list \<Rightarrow> 'i option \<Rightarrow> 's service \<Rightarrow> 's service" where
  "ip_filter zeroable allowed_ips client_ip inner s =
     (if \<not> zeroable then (Inl (Panic ''attempted to zero-initialize a type that has no such value''), s)
      else case client_ip of
        Some ip \<Rightarrow>
          if ip \<notin> set allowed_ips then (Inr (refusal 403 ''Access denied: IP not in allowed list''), s)
          else inner s
      | None \<Rightarrow> (Inr (refusal 400 ''Could not determine client IP address''), s))"

definition request_counter :: "'s service \<Rightarrow> 's service" where
  "request_counter inner s = inner (s\<lparr>hs_requests_per_second := hs_requests_per_second s + 1\<rparr>)"

definition metrics_snapshot_of :: "'s http_state \<Rightarrow> metrics_snapshot" where
  "metrics_snapshot_of s =
     \<lparr>mt_requests_per_second = hs_requests_per_second s, mt_latency = latency_snapshot_of (hs_latency s)\<rparr>"

definition metrics_handler :: "('s, 'e, 'a, 'i) http_server \<Rightarrow> 's service" where
  "metrics_handler sv s =
     (Inr \<lparr>hr_status = 200, hr_content_type = Some ''application/json'', hr_cache_control = None,
           hr_body = sv_metrics_text sv (metrics_snapshot_of s)\<rparr>, s)"

text \<open>The layers in the order in which the server adds them: a later one is further out. The route of the metrics is
  added after the filter and the counter; a panic drops the future before its time is recorded.\<close>

definition http_serve :: "bool \<Rightarrow> ('s, 'e, 'a, 'i) http_server \<Rightarrow> 'i http_request \<Rightarrow> 's service" where
  "http_serve zeroable sv request s =
     (let router = route_service sv (hq_target request);
          router = (case sv_allowed_ips sv of
                      Some allowed_ips \<Rightarrow> ip_filter zeroable allowed_ips (hq_client_ip request) router
                    | None \<Rightarrow> router);
          router = request_counter router;
          router = (if hq_target request = MetricsPage then metrics_handler sv else router);
          (response, s) = router s;
          elapsed = (case response of Inl _ \<Rightarrow> None | Inr _ \<Rightarrow> Some (hq_elapsed request))
      in (response, s\<lparr>hs_latency := metrics_middleware (hq_path request) elapsed (hs_latency s)\<rparr>))"

text \<open>A second task sets the counter to zero every second.\<close>

datatype 'i http_event = Arrives "'i http_request" | SecondPasses

fun http_step :: "bool \<Rightarrow> ('s, 'e, 'a, 'i) http_server \<Rightarrow> 'i http_event \<Rightarrow> 's http_state \<Rightarrow> 's http_state" where
  "http_step zeroable sv (Arrives request) s = snd (http_serve zeroable sv request s)"
| "http_step zeroable sv SecondPasses s = s\<lparr>hs_requests_per_second := 0\<rparr>"

definition http_run :: "bool \<Rightarrow> ('s, 'e, 'a, 'i) http_server \<Rightarrow> 'i http_event list \<Rightarrow> 's http_state \<Rightarrow> 's http_state" where
  "http_run zeroable sv es s = fold (http_step zeroable sv) es s"

end
