(* ===== verification/HttpProperties.thy ===== *)
theory HttpProperties
  imports Http
begin

text \<open>
  What holds of the HTTP server: which documents an indexer gives from behind a cluster, and which it does not; the filter
  keeps other clients from the data, the counters count, and which requests are measured under which name.
\<close>

section \<open>Names of the measured requests\<close>

text \<open>A path fills a template when its segments are those of the template and no captured one is empty.\<close>

definition is_capture :: "ustring \<Rightarrow> bool" where
  "is_capture seg = (seg \<noteq> [] \<and> hd seg = 123 \<and> last seg = 125)"

definition fills :: "ustring \<Rightarrow> ustring \<Rightarrow> bool" where
  "fills template path =
     list_all2 (\<lambda>t p. if is_capture t then p \<noteq> [] else t = p) (split_on 47 template) (split_on 47 path)"

lemma split_on_ne [simp]: "split_on c s \<noteq> []"
  by (cases s) (auto split: list.split)

lemma join_split: "join_with c (split_on c s) = s"
proof (induction s)
  case (Cons x s)
  obtain p ps where s: "split_on c s = p # ps" by (cases "split_on c s") auto
  with Cons show ?case by (cases ps) auto
qed simp

lemma split_pieces: "p \<in> set (split_on c s) \<Longrightarrow> c \<notin> set p"
  by (induction s arbitrary: p) (auto split: if_splits list.splits)

lemma split_join: "ps \<noteq> [] \<Longrightarrow> \<forall>p \<in> set ps. c \<notin> set p \<Longrightarrow> split_on c (join_with c ps) = ps"
  by (induction c ps rule: join_with.induct) (simp_all add: split_on_none split_on_append)

text \<open>A path of the API: its endpoint depends on the segments behind the network.\<close>

lemma from_path_segments:
  assumes "split_on 47 path = [] # ascii ''api'' # ascii ''v1'' # ascii ''krc721'' # n # ps" and "ps \<noteq> []"
  shows "from_path path = endpoint_in_network (join_with 47 ps)"
proof -
  have j: "join_with 47 (n # ps) = n @ 47 # join_with 47 ps" using assms(2) by (cases ps) simp_all
  have p: "path = network_pattern @ join_with 47 (n # ps)"
    using join_split [of 47 path] assms(2) by (simp add: assms(1) network_pattern_def ascii_def)
  have "\<forall>q \<in> set (n # ps). 47 \<notin> set q" using split_pieces [of _ 47 path] by (simp add: assms(1))
  then have "split_on 47 (join_with 47 (n # ps)) = n # ps" by (intro split_join) simp_all
  then show ?thesis by (simp add: from_path_def p) (simp add: network_pattern_def ascii_def)
qed

fun measured_as :: "api_route \<Rightarrow> endpoint option" where
  "measured_as Nfts = Some KRC721CollectionList"
| "measured_as NftsOfTick = Some KRC721CollectionLookup"
| "measured_as Nft = Some KRC721TokenLookup"
| "measured_as Owners = Some KRC721TokenList"
| "measured_as History = Some KRC721TokenHistory"
| "measured_as AddressNfts = Some KRC721AddressNftList"
| "measured_as AddressNftsOfTick = Some KRC721AddressNftLookup"
| "measured_as Ops = Some KRC721OpList"
| "measured_as OpsScore = Some KRC721OpByScore"
| "measured_as OpsTxid = Some KRC721OpByTxid"
| "measured_as Deployments = Some KRC721DeploymentList"
| "measured_as Royalties = Some KRC721RoyaltyFee"
| "measured_as RejectionsTxid = Some KRC721RejectionByTxid"
| "measured_as Reserved = Some KRC721ReservedTokens"
| "measured_as StatusRoute = Some KRC721IndexerStatus"
| "measured_as Ranges = Some KRC721TokenIdRanges"
| "measured_as Listings = None"
| "measured_as ListingOfToken = None"
| "measured_as AddressListingsRoute = Some KRC721AddressNftLookup"

lemma endpoints_without_arguments:
  "endpoint_in_network (ascii ''nfts'') = Some KRC721CollectionList"
  "endpoint_in_network (ascii ''ops'') = Some KRC721OpList"
  "endpoint_in_network (ascii ''deployments'') = Some KRC721DeploymentList"
  "endpoint_in_network (ascii ''reserved'') = Some KRC721ReservedTokens"
  "endpoint_in_network (ascii ''status'') = Some KRC721IndexerStatus"
  by (simp_all add: endpoint_in_network_def ascii_def)

lemma endpoints_with_an_argument:
  assumes "47 \<notin> set a"
  shows "endpoint_in_network (ascii ''nfts'' @ 47 # a) = Some KRC721CollectionLookup"
    and "endpoint_in_network (ascii ''owners'' @ 47 # a) = Some KRC721TokenList"
    and "endpoint_in_network (ascii ''address'' @ 47 # a) = Some KRC721AddressNftList"
    and "endpoint_in_network (ascii ''ops'' @ 47 # ascii ''score'' @ 47 # a) = Some KRC721OpByScore"
    and "endpoint_in_network (ascii ''ops'' @ 47 # ascii ''txid'' @ 47 # a) = Some KRC721OpByTxid"
    and "endpoint_in_network (ascii ''rejections'' @ 47 # ascii ''txid'' @ 47 # a) = Some KRC721RejectionByTxid"
    and "endpoint_in_network (ascii ''ranges'' @ 47 # a) = Some KRC721TokenIdRanges"
    and "endpoint_in_network (ascii ''listings'' @ 47 # a) = None"
  using assms by (simp_all add: endpoint_in_network_def ascii_def)

lemma endpoints_with_two_arguments:
  assumes "47 \<notin> set a" and "47 \<notin> set b"
  shows "endpoint_in_network (ascii ''nfts'' @ 47 # a @ 47 # b) = Some KRC721TokenLookup"
    and "endpoint_in_network (ascii ''history'' @ 47 # a @ 47 # b) = Some KRC721TokenHistory"
    and "endpoint_in_network (ascii ''address'' @ 47 # a @ 47 # b) = Some KRC721AddressNftLookup"
    and "endpoint_in_network (ascii ''royalties'' @ 47 # a @ 47 # b) = Some KRC721RoyaltyFee"
    and "endpoint_in_network (ascii ''listings'' @ 47 # a @ 47 # b) = None"
  using assms by (simp_all add: endpoint_in_network_def ascii_def)

text \<open>The segments of a template behind the network, None for a captured one.\<close>

fun segments_of :: "api_route \<Rightarrow> string option list" where
  "segments_of Nfts = [Some ''nfts'']"
| "segments_of NftsOfTick = [Some ''nfts'', None]"
| "segments_of Nft = [Some ''nfts'', None, None]"
| "segments_of Owners = [Some ''owners'', None]"
| "segments_of History = [Some ''history'', None, None]"
| "segments_of AddressNfts = [Some ''address'', None]"
| "segments_of AddressNftsOfTick = [Some ''address'', None, None]"
| "segments_of Ops = [Some ''ops'']"
| "segments_of OpsScore = [Some ''ops'', Some ''score'', None]"
| "segments_of OpsTxid = [Some ''ops'', Some ''txid'', None]"
| "segments_of Deployments = [Some ''deployments'']"
| "segments_of Royalties = [Some ''royalties'', None, None]"
| "segments_of RejectionsTxid = [Some ''rejections'', Some ''txid'', None]"
| "segments_of Reserved = [Some ''reserved'']"
| "segments_of StatusRoute = [Some ''status'']"
| "segments_of Ranges = [Some ''ranges'', None]"
| "segments_of Listings = [Some ''listings'', None]"
| "segments_of ListingOfToken = [Some ''listings'', None, None]"
| "segments_of AddressListingsRoute = [Some ''address'', None, Some ''listings'']"

definition segment :: "ustring \<Rightarrow> string option \<Rightarrow> bool" where
  "segment t x = (case x of None \<Rightarrow> is_capture t | Some s \<Rightarrow> \<not> is_capture t \<and> t = ascii s)"

lemma tail_segments: "list_all2 segment (split_on 47 (ascii (route_tail r))) (Some [] # segments_of r)"
  by (cases r) (simp_all add: segment_def is_capture_def ascii_def)

lemma segments_measured:
  assumes "list_all2 (\<lambda>x p. case x of None \<Rightarrow> p \<noteq> [] | Some s \<Rightarrow> p = ascii s) (segments_of r) ps"
    and "\<forall>p \<in> set ps. 47 \<notin> set p"
  shows "endpoint_in_network (join_with 47 ps) = measured_as r \<and> ps \<noteq> []"
  using assms
  by (cases r; clarsimp simp: list_all2_Cons1 endpoints_without_arguments endpoints_with_an_argument endpoints_with_two_arguments)

lemma split_api: "split_on 47 (ascii ''/api/v1/krc721/'' @ x) = [] # ascii ''api'' # ascii ''v1'' # ascii ''krc721'' # split_on 47 x"
  by (simp add: ascii_def)

lemma split_network: "split_on 47 (network_text network @ 47 # x) = network_text network # split_on 47 x"
  by (rule split_on_append) (cases network; simp add: ascii_def)

lemma template_segments:
  "\<exists>n ts. split_on 47 (route_template network r) = [] # ascii ''api'' # ascii ''v1'' # ascii ''krc721'' # n # ts \<and>
     \<not> is_capture n \<and> list_all2 segment ts (segments_of r)"
proof -
  define t where "t = ascii (route_tail r)"
  have t: "list_all2 segment (split_on 47 t) (Some [] # segments_of r)" unfolding t_def by (rule tail_segments)
  then obtain t0 ts where s: "split_on 47 t = t0 # ts" "t0 = []" "list_all2 segment ts (segments_of r)"
    by (auto simp: list_all2_Cons2 segment_def ascii_def)
  have "t \<noteq> []" "hd t = 47" unfolding t_def by (cases r; simp add: ascii_def)+
  then obtain t' where t': "t = 47 # t'" by (cases t) auto
  with s have ts: "split_on 47 t' = ts" by simp
  have "split_on 47 (route_template network r) =
      [] # ascii ''api'' # ascii ''v1'' # ascii ''krc721'' # network_text network # ts"
    using ts by (simp add: route_template_def split_api split_network flip: t_def) (simp add: t' split_network)
  moreover have "\<not> is_capture (network_text network)" by (cases network) (simp_all add: is_capture_def ascii_def)
  ultimately show ?thesis using s(3) by blast
qed

text \<open>The requests of every route of the API are measured under the name of their route, except those of listings:
  the listings of a collection and of a token are not measured at all, and the listings of an address are
  counted as a look-up of holdings.\<close>

theorem requests_are_measured_by_route:
  assumes "fills (route_template network r) path"
  shows "from_path path = measured_as r"
proof -
  obtain n ts where n: "split_on 47 (route_template network r) = [] # ascii ''api'' # ascii ''v1'' # ascii ''krc721'' # n # ts"
      "\<not> is_capture n" "list_all2 segment ts (segments_of r)"
    using template_segments by blast
  have fixed: "\<not> is_capture []" "\<not> is_capture (ascii ''api'')" "\<not> is_capture (ascii ''v1'')" "\<not> is_capture (ascii ''krc721'')"
    by (simp_all add: is_capture_def ascii_def)
  obtain ps where ps: "split_on 47 path = [] # ascii ''api'' # ascii ''v1'' # ascii ''krc721'' # n # ps"
      "list_all2 (\<lambda>t p. if is_capture t then p \<noteq> [] else t = p) ts ps"
    using assms n(2) fixed unfolding fills_def n(1) by (auto simp: list_all2_Cons1)
  have "list_all2 (\<lambda>x p. case x of None \<Rightarrow> p \<noteq> [] | Some s \<Rightarrow> p = ascii s) (segments_of r) ps"
  proof (rule list_all2_all_nthI)
    show l: "length (segments_of r) = length ps" using list_all2_lengthD [OF n(3)] list_all2_lengthD [OF ps(2)] by simp
    show "case segments_of r ! i of None \<Rightarrow> ps ! i \<noteq> [] | Some s \<Rightarrow> ps ! i = ascii s" if "i < length (segments_of r)" for i
      using list_all2_nthD2 [OF n(3) that] list_all2_nthD2 [OF ps(2), of i] that l
      by (auto simp: segment_def split: option.splits if_splits)
  qed
  moreover have "\<forall>p \<in> set ps. 47 \<notin> set p" using split_pieces [of _ 47 path] ps(1) by simp
  ultimately show ?thesis using from_path_segments [OF ps(1)] segments_measured by simp
qed

theorem requests_are_measured_by_route_witness:
  "from_path (ascii ''/api/v1/krc721/mainnet/address/k/listings'') = measured_as AddressListingsRoute"
  by (rule requests_are_measured_by_route [of Mainnet]) (simp add: fills_def route_template_def ascii_def is_capture_def)

section \<open>Documents of a cluster\<close>

lemma written_map: "written w t p (map_sum f id r) = written w (\<lambda>e. t (f e)) p r"
proof (cases r)
  case (Inr a)
  then show ?thesis by (cases a) (simp_all add: to_pagination_def to_json_def)
qed (simp add: to_pagination_def to_json_def)

lemma written_error: "hr_status (written w t p (Inl e)) = 500"
  by (simp add: to_pagination_def to_json_def)

text \<open>C26: A web server over a cluster, compared with the one of the indexer that the cluster selects. A request that
  cannot be read gets the same refusal from both. Of the other requests, the cluster passes on those of fourteen
  routes, whose arguments and answers the codecs of the messages are taken to give back: when the indexer has an answer, the cluster gives the very same document; when it has an error, both
  give the status 500, the cluster with the text of a remote error that quotes the indexer's. In the cluster
  only the state of that indexer's accessor changes, as it does there. The requests of the other five routes, for
  histories, available ids and listings, get the status 500 from the cluster and change nothing in it.\<close>

theorem cluster_serves_the_documents_of_the_indexer:
  assumes "delivers l" and "faithful (w_u16 w) 1" and "select scaled cs = Some i" and "cn_rpc (cs ! i) = (n, s)"
    and "\<And>q. api_query wr request = Inr q \<Longrightarrow> reads_back_request w q"
    and "\<And>q a s'. api_query wr request = Inr q \<Longrightarrow> passed_on q \<Longrightarrow> accessor_data n q s = (Inr a, s') \<Longrightarrow> reads_back_answer w a"
    and "api_handler wr error_text (accessor_data n) request s = (r, s')"
    and "api_handler wr t (cluster_data l w scaled) request cs = (r', cs')"
  shows "case api_query wr request of
      Inl response \<Rightarrow> r = response \<and> r' = response \<and> cs' = cs
    | Inr q \<Rightarrow>
        if passed_on q
        then cs' = cs[i := (cs ! i)\<lparr>cn_rpc := (n, s')\<rparr>] \<and>
          (case fst (accessor_data n q s) of
             Inr a \<Rightarrow> r' = r
           | Inl e \<Rightarrow> hr_status r = 500 \<and> hr_status r' = 500 \<and>
               r' = written wr t (paged q) (Inl (CustomError (RpcSubsystem (nd_error_text n e)))))
        else hr_status r' = 500 \<and> cs' = cs"
proof (cases "api_query wr request")
  case (Inl x)
  with assms(7,8) show ?thesis by (simp add: api_handler_def)
next
  case (Inr q)
  show ?thesis
  proof (cases "passed_on q")
    case True
    obtain v s1 where v: "accessor_data n q s = (v, s1)" by fastforce
    have "cluster_data l w scaled q cs =
        (map_sum (\<lambda>e. CustomError (RpcSubsystem (nd_error_text n e))) id v, cs[i := (cs ! i)\<lparr>cn_rpc := (n, s1)\<rparr>])"
      using assms(6) [OF Inr True] v
      by (intro cluster_answers_as_the_selected_indexer [OF assms(1,2) True assms(5) [OF Inr] assms(3,4) v]) simp
    moreover have "written wr t p (Inr a) = written wr error_text p (Inr a)" for p a
      by (cases a) (simp_all add: to_pagination_def to_json_def)
    ultimately show ?thesis using Inr v True assms(7,8)
      by (cases v) (auto simp: api_handler_def written_error simp del: written.simps)
  next
    case False
    obtain e where "cluster_data l w scaled q cs = (Inl e, cs)" by (rule exE [OF not_passed_on_fails [OF assms(1) False]])
    with Inr False assms(8) show ?thesis by (auto simp: api_handler_def written_error simp del: written.simps)
  qed
qed

definition sample_writers :: "unit writers" where
  "sample_writers =
     \<lparr>wr_kind_text = \<lambda>_. [], wr_path_error = pe_message, wr_error = rs_message, wr_status = rs_message,
      wr_collections = rs_message, wr_collection = rs_message, wr_tokens = rs_message, wr_token = rs_message,
      wr_nfts = rs_message, wr_nfts_of_tick = rs_message, wr_operations = rs_message, wr_operation = rs_message,
      wr_deployments = rs_message, wr_text = \<lambda>r. case rs_result r of Some x \<Rightarrow> x | None \<Rightarrow> [], wr_texts = rs_message,
      wr_history = rs_message, wr_ranges = rs_message, wr_listings = rs_message, wr_listing = rs_message,
      wr_address_listings = rs_message\<rparr>"

theorem cluster_serves_the_documents_of_the_indexer_witness:
  "fst (api_handler sample_writers (\<lambda>_. []) (cluster_data direct_library sample_wire (\<lambda>_ x. x))
      (GetRejectionsTxid (Inr (TxLookupArgs 7))) sample_cluster) =
    \<lparr>hr_status = 200, hr_content_type = Some ''application/json'', hr_cache_control = Some not_cached, hr_body = [65]\<rparr>"
proof -
  let ?request = "GetRejectionsTxid (Inr (TxLookupArgs 7))"
  have c: "cn_rpc (sample_cluster ! 1) = (sample_node, sample_accessor)" by (simp add: sample_cluster_def connection_new_def)
  have u: "faithful (w_u16 sample_wire) 1" by (simp add: sample_wire_def)
  have q: "reads_back_request sample_wire q" if "api_query sample_writers ?request = Inr q" for q
    using that by (auto simp: with_path_def sample_wire_def faithful_def hash_codec_def load_def)
  have a: "reads_back_answer sample_wire x"
    if "api_query sample_writers ?request = Inr q" "passed_on q" "accessor_data sample_node q sample_accessor = (Inr x, s')" for q x s'
    using that sample_rejection
    by (auto simp: with_path_def sample_wire_def scalar_def utf8_bytes_def utf8_char_def intro!: faithful_string)
  have h: "api_handler sample_writers (\<lambda>e. []) (accessor_data sample_node) ?request sample_accessor =
      (\<lparr>hr_status = 200, hr_content_type = Some ''application/json'', hr_cache_control = Some not_cached, hr_body = [65]\<rparr>,
       track_request sample_accessor)"
    using sample_rejection
    by (simp add: api_handler_def with_path_def to_json_def response_single_def has_result_def sample_writers_def)
  obtain r' cs' where c': "api_handler sample_writers (\<lambda>_. []) (cluster_data direct_library sample_wire (\<lambda>_ x. x)) ?request sample_cluster = (r', cs')"
    by fastforce
  have "r' = \<lparr>hr_status = 200, hr_content_type = Some ''application/json'', hr_cache_control = Some not_cached, hr_body = [65]\<rparr>"
  proof (rule cluster_serves_the_documents_of_the_indexer [OF direct_library_delivers u sample_selected c _ _ h c', elim_format])
    show "reads_back_request sample_wire q" if "api_query sample_writers ?request = Inr q" for q using that by (rule q)
    show "reads_back_answer sample_wire x"
      if "api_query sample_writers ?request = Inr q" "passed_on q" "accessor_data sample_node q sample_accessor = (Inr x, s')" for q x s'
      using that by (rule a)
  qed (simp add: with_path_def sample_rejection del: accessor_data.simps)
  then show ?thesis using c' by simp
qed

theorem cluster_serves_no_histories_and_ranges:
  assumes "delivers l"
    and "request \<in> {GetHistory (Inr a) (Inr i), GetRanges (Inr b), GetListings (Inr b) (Inr i), GetListingOfToken (Inr a),
           GetAddressListings (Inr c) (Inr j)}"
  shows "hr_status (fst (api_handler wr t (cluster_data l w scaled) request cs)) = 500"
proof -
  obtain q where q: "api_query wr request = Inr q"
      "q \<in> {TokenHistory a i, AvailableTokenIdRanges b, ActiveListings b i, ListingLookup a, AddressListings c j}"
    using assms(2) by (auto simp: with_path_def)
  obtain e where "fst (cluster_data l w scaled q cs) = Inl e"
    using cluster_never_answers_histories_and_ranges [OF assms(1) q(2)] by blast
  then show ?thesis using q(1)
    by (cases "cluster_data l w scaled q cs") (simp add: api_handler_def to_pagination_def to_json_def)
qed

section \<open>The layers\<close>

definition panics :: "bool \<Rightarrow> ('s, 'e, 'a, 'i) http_server \<Rightarrow> 'i http_request \<Rightarrow> bool" where
  "panics zeroable sv request \<longleftrightarrow> \<not> zeroable \<and> sv_allowed_ips sv \<noteq> None \<and> hq_target request \<noteq> MetricsPage"

lemma route_service_answers: "\<exists>r d. route_service sv t s = (Inr r, s\<lparr>hs_data := d\<rparr>)"
proof (cases t)
  case (Api request)
  obtain r d where "api_handler (sv_writers sv) (sv_error_text sv) (sv_data sv) request (hs_data s) = (r, d)" by fastforce
  with Api show ?thesis by (auto simp: route_service_def)
qed (auto simp: route_service_def intro!: exI [of _ "hs_data s"])

text \<open>C36: When the addresses of the clients are restricted, a request of another client, or of one whose address the
  server does not know, leaves the data as it is: it gets a refusal, or none because the filter panics. It
  counts all the same; the metrics are given to everybody.\<close>

theorem refused_clients_reach_no_data:
  assumes "sv_allowed_ips sv = Some ips" and "\<And>ip. hq_client_ip request = Some ip \<Longrightarrow> ip \<notin> set ips"
    and "hq_target request \<noteq> MetricsPage" and "http_serve zeroable sv request s = (r, s')"
  shows "hs_data s' = hs_data s \<and> hs_requests_per_second s' = hs_requests_per_second s + 1 \<and>
    (if zeroable
     then \<exists>response. r = Inr response \<and> hr_status response = (if hq_client_ip request = None then 400 else 403)
     else \<exists>msg. r = Inl (Panic msg)) \<and>
    (\<exists>response. fst (http_serve zeroable sv (request\<lparr>hq_target := MetricsPage\<rparr>) s) = Inr response \<and> hr_status response = 200)"
  using assms
  by (cases "hq_client_ip request")
    (auto simp: http_serve_def ip_filter_def request_counter_def refusal_def metrics_handler_def Let_def)

text \<open>The requests that an endpoint has answered.\<close>

fun answered_at :: "bool \<Rightarrow> ('s, 'e, 'a, 'i) http_server \<Rightarrow> endpoint \<Rightarrow> 'i http_event list \<Rightarrow> nat list" where
  "answered_at zeroable sv e [] = []"
| "answered_at zeroable sv e (Arrives request # es) =
     (if from_path (hq_path request) = Some e \<and> \<not> panics zeroable sv request
      then hq_elapsed request # answered_at zeroable sv e es else answered_at zeroable sv e es)"
| "answered_at zeroable sv e (SecondPasses # es) = answered_at zeroable sv e es"

text \<open>The requests since the counter was set to zero last.\<close>

fun counted_since :: "nat \<Rightarrow> 'i http_event list \<Rightarrow> nat" where
  "counted_since k [] = k"
| "counted_since k (Arrives request # es) = counted_since (if hq_target request = MetricsPage then k else k + 1) es"
| "counted_since k (SecondPasses # es) = counted_since 0 es"

lemma serve_counts:
  "hs_requests_per_second (snd (http_serve zeroable sv request s)) =
     hs_requests_per_second s + (if hq_target request = MetricsPage then 0 else 1)"
  "hs_latency (snd (http_serve zeroable sv request s)) =
     metrics_middleware (hq_path request) (if panics zeroable sv request then None else Some (hq_elapsed request)) (hs_latency s)"
proof -
  let ?s = "s\<lparr>hs_requests_per_second := hs_requests_per_second s + 1\<rparr>"
  obtain r d where r: "route_service sv (hq_target request) ?s = (Inr r, ?s\<lparr>hs_data := d\<rparr>)"
    using route_service_answers [of sv "hq_target request" ?s] by (elim exE)
  show "hs_requests_per_second (snd (http_serve zeroable sv request s)) =
      hs_requests_per_second s + (if hq_target request = MetricsPage then 0 else 1)"
    using r by (auto simp: http_serve_def ip_filter_def request_counter_def metrics_handler_def Let_def split: option.split)
  show "hs_latency (snd (http_serve zeroable sv request s)) =
      metrics_middleware (hq_path request) (if panics zeroable sv request then None else Some (hq_elapsed request)) (hs_latency s)"
    using r by (auto simp: http_serve_def ip_filter_def request_counter_def metrics_handler_def panics_def Let_def split: option.split)
qed

lemma endpoint_index_bound: "endpoint_index e < ENDPOINT_COUNT"
  by (cases e) (simp_all add: ENDPOINT_COUNT_def)

lemma endpoint_index_eq [simp]: "endpoint_index e = endpoint_index e' \<longleftrightarrow> e = e'"
  by (cases e; cases e') simp_all

lemma middleware_records:
  assumes "length ms = ENDPOINT_COUNT"
  shows "length (metrics_middleware path elapsed ms) = ENDPOINT_COUNT"
    and "metrics_middleware path elapsed ms ! endpoint_index e =
      (case elapsed of Some d \<Rightarrow> if from_path path = Some e then endpoint_metrics_record d (ms ! endpoint_index e) else ms ! endpoint_index e
       | None \<Rightarrow> ms ! endpoint_index e)"
  using assms endpoint_index_bound [of e]
  by (auto simp: metrics_middleware_def latency_metrics_record_def nth_list_update split: option.split)

lemma run_measures:
  "length (hs_latency s) = ENDPOINT_COUNT \<Longrightarrow> hs_requests_per_second s = word_of_nat k \<Longrightarrow>
   hs_requests_per_second (http_run zeroable sv es s) = word_of_nat (counted_since k es) \<and>
   hs_latency (http_run zeroable sv es s) ! endpoint_index e =
     fold endpoint_metrics_record (answered_at zeroable sv e es) (hs_latency s ! endpoint_index e)"
proof (induction es arbitrary: s k)
  case (Cons ev es)
  show ?case
  proof (cases ev)
    case (Arrives request)
    let ?s = "snd (http_serve zeroable sv request s)"
    have "length (hs_latency ?s) = ENDPOINT_COUNT" by (simp add: serve_counts middleware_records Cons.prems)
    moreover have "hs_requests_per_second ?s = word_of_nat (if hq_target request = MetricsPage then k else k + 1)"
      by (simp add: serve_counts Cons.prems)
    ultimately have ih: "hs_requests_per_second (http_run zeroable sv es ?s) =
          word_of_nat (counted_since (if hq_target request = MetricsPage then k else k + 1) es) \<and>
        hs_latency (http_run zeroable sv es ?s) ! endpoint_index e =
          fold endpoint_metrics_record (answered_at zeroable sv e es) (hs_latency ?s ! endpoint_index e)"
      by (rule Cons.IH)
    have "http_run zeroable sv (ev # es) s = http_run zeroable sv es ?s" by (simp add: http_run_def Arrives)
    then show ?thesis using ih by (simp add: Arrives serve_counts middleware_records Cons.prems)
  next
    case SecondPasses
    have "http_run zeroable sv (ev # es) s = http_run zeroable sv es (s\<lparr>hs_requests_per_second := 0\<rparr>)"
      by (simp add: http_run_def SecondPasses)
    then show ?thesis using Cons.IH [of "s\<lparr>hs_requests_per_second := 0\<rparr>" 0] Cons.prems SecondPasses by simp
  qed
qed (simp add: http_run_def)

text \<open>Whatever requests a server has been through, the counter is the number of those since it was set to zero last,
  and the numbers of an endpoint are those of the durations of exactly the requests that it has answered.\<close>

theorem metrics_are_those_of_the_requests:
  assumes "s = http_run zeroable sv es (http_state_new d)"
  shows "hs_requests_per_second s = word_of_nat (counted_since 0 es) \<and>
    hs_latency s ! endpoint_index e = after_recording (answered_at zeroable sv e es)"
proof -
  have "hs_latency (http_state_new d) ! endpoint_index e = endpoint_metrics_new"
    using endpoint_index_bound [of e] by (simp add: http_state_new_def latency_metrics_new_def)
  then show ?thesis using run_measures [of "http_state_new d" 0 zeroable sv es e]
    by (simp add: assms after_recording_def http_state_new_def latency_metrics_new_def)
qed

definition sample_server :: "(accessor_state, core_error, unit, nat) http_server" where
  "sample_server =
     \<lparr>sv_writers = sample_writers, sv_error_text = \<lambda>_. [], sv_metrics_text = \<lambda>_. [], sv_data = accessor_data sample_node,
      sv_allowed_ips = Some [1],
      sv_pages = \<lparr>pa_index_html = [], pa_sandbox_html = [], pa_doc_html = [], pa_skill_md = []\<rparr>\<rparr>"

definition sample_request :: "nat option \<Rightarrow> nat http_request" where
  "sample_request ip =
     \<lparr>hq_path = ascii ''/api/v1/krc721/mainnet/rejections/txid/7'', hq_client_ip = ip,
      hq_target = Api (GetRejectionsTxid (Inr (TxLookupArgs 7))), hq_elapsed = 5\<rparr>"

theorem refused_clients_reach_no_data_witness:
  "\<exists>response. fst (http_serve True sample_server (sample_request (Some 2)) (http_state_new sample_accessor)) = Inr response \<and>
     hr_status response = 403"
proof -
  obtain r s' where "http_serve True sample_server (sample_request (Some 2)) (http_state_new sample_accessor) = (r, s')" by fastforce
  from refused_clients_reach_no_data [of sample_server "[1]", OF _ _ _ this] this show ?thesis
    by (simp add: sample_server_def sample_request_def)
qed

theorem metrics_are_those_of_the_requests_witness:
  "hs_requests_per_second (http_run True sample_server [Arrives (sample_request (Some 1)), SecondPasses, Arrives (sample_request None)]
     (http_state_new sample_accessor)) = 1"
  by (subst metrics_are_those_of_the_requests [OF refl, THEN conjunct1]) (simp add: sample_request_def)

end
