(* ===== verification/HttpReads.thy ===== *)
theory HttpReads
  imports ReadModel HttpProperties
begin

text \<open>
  From the processed blocks to the documents: over a database that the processor has filled, a web server
  answers every request that it can read with a document or with the note that there is none. An error is
  only ever the one of an address or a script that the address library does not convert.
\<close>

section \<open>The errors of the data interface\<close>

definition not_converted :: "'a api \<Rightarrow> core_error \<Rightarrow> bool" where
  "not_converted api e \<longleftrightarrow>
     (\<exists>p msg. address_of_spk api p = Inl msg \<and> e = ScriptError msg) \<or>
     (\<exists>a msg. spk_of_address api a = Inl msg \<and> e = AddressError msg)"

definition converts :: "'a api \<Rightarrow> 'b core_result \<Rightarrow> bool" where
  "converts api r \<longleftrightarrow> (\<forall>e. r = Inl e \<longrightarrow> not_converted api e)"

named_theorems converting \<open>results whose only errors are those of the address library\<close>

lemma converts_Inr [converting]: "converts api (Inr x)"
  by (simp add: converts_def)

lemma converts_script [converting]: "converts api (script_address api p)"
  by (cases "address_of_spk api p") (auto simp: converts_def not_converted_def script_address_def)

lemma converts_address [converting]: "converts api (address_script api a)"
  by (cases "spk_of_address api a") (auto simp: converts_def not_converted_def address_script_def)

lemma converts_and_then [converting]:
  "converts api r \<Longrightarrow> (\<And>x. r = Inr x \<Longrightarrow> converts api (f x)) \<Longrightarrow> converts api (and_then r f)"
  by (cases r) (simp_all add: converts_def)

lemma converts_collect [converting]: "(\<And>x. converts api (f x)) \<Longrightarrow> converts api (collect_results f xs)"
  by (induction xs) (auto intro!: converting)

lemma converts_transpose [converting]: "(\<And>x. converts api (f x)) \<Longrightarrow> converts api (transpose_map f x)"
  by (auto simp: transpose_map_def split: option.split intro!: converting)

lemma converts_page [converting]: "(\<And>x. converts api (f x)) \<Longrightarrow> converts api (convert_page f p)"
  by (auto simp: convert_page_def intro!: converting)

lemma converts_read: "\<exists>x. r = Inr x \<Longrightarrow> converts api (read_result r)"
  by (auto simp: converts_def)

lemma converts_wrappers [converting]:
  "converts api (operation_meta_try_from api score op)" "converts api (scored_deploy_try_from api score dw)"
  "converts api (collection_meta_try_from api c)" "converts api (token_answer_of api t v)"
  "converts api (listing_entry_to_meta api l)"
  by (auto simp: operation_meta_try_from_def scored_deploy_try_from_def collection_meta_try_from_def token_answer_of_def
      listing_entry_to_meta_def Let_def split: operation_info.split intro!: converting)

section \<open>The lists that cannot fail\<close>

lemma plain_lists_total:
  "\<exists>page. krc721_deployment_list d a protocols = Inr page" "\<exists>page. krc721_op_list d a = Inr page"
  "\<exists>page. krc721_token_list d t a protocols = Inr page" "\<exists>page. krc721_address_nft_lookup d t p a protocols = Inr page"
  by (auto simp: krc721_deployment_list_def krc721_op_list_def krc721_token_list_def krc721_address_nft_lookup_def
      split: option.split intro!: process_iter_total)

lemma answered_converts: "converts api r \<Longrightarrow> converts api (fst (answered f r s))"
  by (cases r) (simp_all add: answered_def converts_def)

lemma accessor_data_converts:
  assumes "ledger_ok (nd_db n)" and "histories_recorded (nd_db n)"
  shows "converts (nd_api n) (fst (accessor_data n q s))"
proof -
  note total = lists_total [OF assms] plain_lists_total
  show ?thesis
  proof (cases q)
    case IndexerStatus
    then show ?thesis by (auto simp: node_status_def converts_def split: prod.split)
  qed (auto simp: api_collection_list_def api_collection_lookup_def api_token_list_def api_token_lookup_def
      api_address_nft_list_def api_address_nft_lookup_def api_op_list_def api_op_by_score_def api_op_by_txid_def
      api_deployment_list_def api_royalty_fee_def api_token_history_def api_active_listings_def api_listing_lookup_def
      api_address_listings_def Let_def split: option.split prod.split
      intro!: answered_converts converting converts_read total)
qed

section \<open>The status of an answer\<close>

lemma written_status: "hr_status (written w t p (Inr a)) \<in> {200, 404}"
  by (cases a) (auto simp: to_pagination_def to_json_def Let_def)

lemma request_served:
  assumes "ledger_ok (nd_db n)" and "histories_recorded (nd_db n)" and "api_query wr request = Inr q"
    and "api_handler wr error_text (accessor_data n) request s = (r, s')"
  shows "hr_status r \<in> {200, 404} \<or>
    hr_status r = 500 \<and> (\<exists>e. not_converted (nd_api n) e \<and> r = written wr error_text (paged q) (Inl e))"
proof -
  obtain v s1 where v: "accessor_data n q s = (v, s1)" by fastforce
  then have r: "r = written wr error_text (paged q) v" using assms(3,4) by (simp add: api_handler_def)
  show ?thesis
  proof (cases v)
    case (Inl e)
    have "not_converted (nd_api n) e"
      using accessor_data_converts [OF assms(1,2), of q s] by (simp add: v Inl converts_def)
    with r Inl show ?thesis by (auto simp: to_pagination_def to_json_def)
  next
    case (Inr a)
    with r show ?thesis using written_status [of wr error_text "paged q" a] by simp
  qed
qed

text \<open>C15: The processor fills an empty database with any batches of valid operations, no block being removed in
  between. Over this database a request whose path and query can be read gets a document or the note that there
  is none; it gets the status 500 only with the text of an address, or of the script of an address, that the
  address library does not convert. (A reorganisation may leave the listing indexes unsound; the theorem says
  nothing of the databases after one.)\<close>

theorem sound_databases_are_served_without_failures:
  assumes "batch_ordered msl 0 (concat bs)" and "batch_valid (concat bs)"
    and "process_batches msl p2sh db_empty bs = Inr (nd_db n)"
    and "api_query wr request = Inr q" and "api_handler wr error_text (accessor_data n) request s = (r, s')"
  shows "hr_status r \<in> {200, 404} \<or>
    hr_status r = 500 \<and> (\<exists>e. not_converted (nd_api n) e \<and> r = written wr error_text (paged q) (Inl e))"
proof -
  have "ledger_ok (nd_db n)"
    using process_batches_ok [OF ledger_ok_empty scores_le_empty assms(1,2), of p2sh] assms(3) by auto
  moreover have "histories_recorded (nd_db n)" using process_batches_histories [OF assms(3)] by simp
  ultimately show ?thesis using request_served assms(4,5) by blast
qed

text \<open>
  The database after the deployment and the mint of the sample collection, served by a node whose address
  library converts all.
\<close>

definition node_R :: "db \<Rightarrow> unit node" where
  "node_R d = sample_node\<lparr>nd_db := d, nd_api := (nd_api sample_node)\<lparr>spk_of_address := \<lambda>_. Inr spk_A\<rparr>\<rparr>"

theorem sound_databases_are_served_without_failures_witness:
  "\<exists>d. process_batches 248 (\<lambda>_. spk_A) db_empty batches_A = Inr d \<and>
     hr_status (fst (api_handler sample_writers (\<lambda>_. []) (accessor_data (node_R d))
       (GetOwners (Inr (TokenListLookupArgs tick_A)) (Inr \<lparr>ra_offset = None, ra_direction = None, ra_limit = None\<rparr>)) sample_accessor))
     \<in> {200, 404}"
proof -
  let ?request = "GetOwners (Inr (TokenListLookupArgs tick_A)) (Inr \<lparr>ra_offset = None, ra_direction = None, ra_limit = None\<rparr>)"
  obtain d where d: "process_batches 248 (\<lambda>_. spk_A) db_empty batches_A = Inr d"
    using process_batches_ok [OF ledger_ok_empty scores_le_empty batches_A] by blast
  obtain r s' where "api_handler sample_writers (\<lambda>_. []) (accessor_data (node_R d)) ?request sample_accessor = (r, s')" by fastforce
  from sound_databases_are_served_without_failures [OF batches_A _ _ this, of "\<lambda>_. spk_A"] this d show ?thesis
    by (auto simp: node_R_def with_path_def sample_node_def not_converted_def)
qed

end
