(* ===== verification/UserJson.thy ===== *)
theory UserJson
  imports Analyzer
begin

text \<open>
  The documents of inscriptions: how \<^verbatim>\<open>UserOperation\<close> of \<^verbatim>\<open>core/src/model/krc721/model.rs\<close>, with its tick, its
  operation, its protocol and its metadata, is read from the members of a JSON object. The JSON parser belongs to
  another crate and is an argument; what the derived readers do with its values is written out here: the renamed
  members, numbers in strings, members that may be missing or null, members given twice, and the metadata among the
  members of the object itself. Of a document that is refused the text of the error is left out.
\<close>

section \<open>Values and members\<close>

datatype json =
  JNull | JBool bool | JNumber ustring | JString ustring | JArray "json list" | JObject "(ustring \<times> json) list"

definition values_of :: "string \<Rightarrow> (ustring \<times> json) list \<Rightarrow> json list" where
  "values_of k members = map snd (filter (\<lambda>m. fst m = ascii k) members)"

definition required :: "string \<Rightarrow> (json \<Rightarrow> 'v option) \<Rightarrow> (ustring \<times> json) list \<Rightarrow> 'v option" where
  "required k reader members = (case values_of k members of [v] \<Rightarrow> reader v | _ \<Rightarrow> None)"

fun nullable :: "(json \<Rightarrow> 'v option) \<Rightarrow> json \<Rightarrow> 'v option option" where
  "nullable reader JNull = Some None"
| "nullable reader v = map_option Some (reader v)"

text \<open>A member that may be missing: the outer option is a failure, the inner one the value.\<close>

definition optional :: "string \<Rightarrow> (json \<Rightarrow> 'v option) \<Rightarrow> (ustring \<times> json) list \<Rightarrow> 'v option option" where
  "optional k reader members =
     (case values_of k members of [] \<Rightarrow> Some None | [v] \<Rightarrow> nullable reader v | _ \<Rightarrow> None)"

fun read_string :: "json \<Rightarrow> ustring option" where
  "read_string (JString s) = Some s"
| "read_string v = None"

text \<open>\<^verbatim>\<open>DisplayFromStr\<close>: a number in a string.\<close>

definition read_u64 :: "json \<Rightarrow> u64 option" where
  "read_u64 v = Option.bind (read_string v) u64_from_str"

text \<open>The name of a variant without data, as a string or as the only member of an object.\<close>

definition read_variant :: "json \<Rightarrow> ustring option" where
  "read_variant v =
     (case v of JString s \<Rightarrow> Some s | JObject [(s, JNull)] \<Rightarrow> Some s | _ \<Rightarrow> None)"

definition read_protocol :: "json \<Rightarrow> protocol option" where
  "read_protocol v = Option.bind (read_variant v) (\<lambda>s. if s = ascii ''krc-721'' then Some Krc721 else None)"

definition read_op :: "json \<Rightarrow> op option" where
  "read_op v = Option.bind (read_variant v) (map_of
     [(ascii ''deploy'', OpDeploy), (ascii ''mint'', OpMint), (ascii ''transfer'', OpTransfer),
      (ascii ''discount'', OpDiscount), (ascii ''list'', OpList), (ascii ''send'', OpSend)])"

definition read_tick :: "(nat \<Rightarrow> nat list) \<Rightarrow> (nat \<Rightarrow> bool) \<Rightarrow> json \<Rightarrow> tick option" where
  "read_tick up alnum v =
     Option.bind (read_string v) (\<lambda>s. case tick_deserialize up alnum s of Inl _ \<Rightarrow> None | Inr t \<Rightarrow> Some t)"

section \<open>Metadata\<close>

text \<open>The derived reader of a structure takes an object, or an array with its fields in order.\<close>

definition attribute_of ::
  "ustring option \<Rightarrow> ustring option \<Rightarrow> ustring option option \<Rightarrow> attribute option" where
  "attribute_of trait_type v display_type =
     Option.bind trait_type (\<lambda>a. Option.bind v (\<lambda>b. Option.bind display_type (\<lambda>c.
       Some \<lparr>at_trait_type = a, at_value = b, at_display_type = c\<rparr>)))"

fun read_attribute :: "json \<Rightarrow> attribute option" where
  "read_attribute (JObject members) =
     attribute_of (required ''traitType'' read_string members) (required ''value'' read_string members)
       (optional ''displayType'' read_string members)"
| "read_attribute (JArray [a, b, c]) = attribute_of (read_string a) (read_string b) (nullable read_string c)"
| "read_attribute v = None"

fun read_attributes :: "json \<Rightarrow> attribute list option" where
  "read_attributes (JArray vs) = those (map read_attribute vs)"
| "read_attributes v = None"

definition local_metadata_of ::
  "ustring option \<Rightarrow> ustring option \<Rightarrow> ustring option \<Rightarrow> attribute list option option \<Rightarrow> local_metadata option" where
  "local_metadata_of name description img attributes =
     Option.bind name (\<lambda>n. Option.bind description (\<lambda>d. Option.bind img (\<lambda>i. Option.bind attributes (\<lambda>a.
       Some \<lparr>lm_name = n, lm_description = d, lm_image = i, lm_attributes = a\<rparr>))))"

fun read_local_metadata :: "json \<Rightarrow> local_metadata option" where
  "read_local_metadata (JObject members) =
     local_metadata_of (required ''name'' read_string members) (required ''description'' read_string members)
       (required ''image'' read_string members) (optional ''attributes'' read_attributes members)"
| "read_local_metadata (JArray [n, d, i, a]) =
     local_metadata_of (read_string n) (read_string d) (read_string i) (nullable read_attributes a)"
| "read_local_metadata v = None"

text \<open>
  The flattened metadata: the first member that bears the name of a variant decides, and when its value cannot be
  read there is no metadata.
\<close>

definition flattened_metadata :: "(ustring \<times> json) list \<Rightarrow> metadata option" where
  "flattened_metadata members =
     (case filter (\<lambda>m. fst m \<in> {ascii ''buri'', ascii ''metadata''}) members of
        [] \<Rightarrow> None
      | (k, v) # _ \<Rightarrow>
         if k = ascii ''buri'' then map_option Remote (read_string v) else map_option Local (read_local_metadata v))"

section \<open>The operation\<close>

definition user_operation_of :: "(nat \<Rightarrow> nat list) \<Rightarrow> (nat \<Rightarrow> bool) \<Rightarrow> json \<Rightarrow> user_operation option" where
  "user_operation_of up alnum document =
     (case document of
        JObject members \<Rightarrow>
          Option.bind (required ''p'' read_protocol members) (\<lambda>protocol.
          Option.bind (required ''op'' read_op members) (\<lambda>op.
          Option.bind (required ''tick'' (read_tick up alnum) members) (\<lambda>t.
          Option.bind (optional ''tokenId'' read_u64 members) (\<lambda>token_id.
          Option.bind (optional ''max'' read_u64 members) (\<lambda>max_supply.
          Option.bind (optional ''to'' read_string members) (\<lambda>to_address.
          Option.bind (optional ''royaltyTo'' read_string members) (\<lambda>royalty_to.
          Option.bind (optional ''royaltyFee'' read_u64 members) (\<lambda>royalty_fee.
          Option.bind (optional ''daaMintStart'' read_u64 members) (\<lambda>daa_mint_start.
          Option.bind (optional ''discountFee'' read_u64 members) (\<lambda>discount_fee.
          Option.bind (optional ''premint'' read_u64 members) (\<lambda>premint.
          Some \<lparr>uo_protocol = protocol, uo_op = op, uo_tick = t, uo_token_id = token_id,
                uo_metadata = flattened_metadata members, uo_max = max_supply, uo_to = to_address,
                uo_royalty_to = royalty_to, uo_royalty_fee = royalty_fee, uo_daa_mint_start = daa_mint_start,
                uo_discount_fee = discount_fee, uo_premint = premint\<rparr>)))))))))))
      | _ \<Rightarrow> None)"

text \<open>A node whose documents are read by this schema over a JSON parser.\<close>

definition reads_documents :: "('a, 'p) node \<Rightarrow> (bytes \<Rightarrow> json option) \<Rightarrow> bool" where
  "reads_documents node parse \<longleftrightarrow>
     (\<forall>bs document model. parse bs = Some document \<longrightarrow>
        user_operation_of (char_to_uppercase node) (char_is_alphanumeric node) document = Some model \<longrightarrow>
        user_operation_from_json node bs = Inr model)"

section \<open>Objects of plain strings\<close>

text \<open>
  What is relied on of a JSON parser: an object whose members are strings without quotation marks, backslashes and
  control characters is read as its members. (The JSON standard demands it.)
\<close>

definition plain_text :: "ustring \<Rightarrow> bool" where
  "plain_text s \<longleftrightarrow> (\<forall>c \<in> set s. scalar c \<and> 32 \<le> c \<and> c \<noteq> 34 \<and> c \<noteq> 92)"

fun members_text :: "(ustring \<times> ustring) list \<Rightarrow> ustring" where
  "members_text [] = []"
| "members_text [(k, v)] = quoted k @ [58] @ quoted v"
| "members_text ((k, v) # kvs) = quoted k @ [58] @ quoted v @ [44] @ members_text kvs"

definition object_text :: "(ustring \<times> ustring) list \<Rightarrow> ustring" where
  "object_text kvs = [123] @ members_text kvs @ [125]"

definition string_members :: "(ustring \<times> ustring) list \<Rightarrow> (ustring \<times> json) list" where
  "string_members kvs = map (\<lambda>(k, v). (k, JString v)) kvs"

definition reads_plain_objects :: "(bytes \<Rightarrow> json option) \<Rightarrow> bool" where
  "reads_plain_objects parse \<longleftrightarrow>
     (\<forall>kvs. (\<forall>(k, v) \<in> set kvs. plain_text k \<and> plain_text v) \<longrightarrow>
        parse (utf8_bytes (object_text kvs)) = Some (JObject (string_members kvs)))"

lemma ascii_inject [simp]: "ascii s = ascii t \<longleftrightarrow> s = t"
  by (simp add: ascii_def inj_map_eq_map inj_def)

definition plain_char :: "nat \<Rightarrow> bool" where
  "plain_char c \<longleftrightarrow> scalar c \<and> 32 \<le> c \<and> c \<noteq> 34 \<and> c \<noteq> 92"

lemma plain_text_chars: "plain_text s = list_all plain_char s"
  by (simp add: plain_text_def plain_char_def list_all_iff)

lemma send_names_plain:
  "plain_text (ascii ''p'')" "plain_text (ascii ''krc-721'')" "plain_text (ascii ''op'')" "plain_text (ascii ''send'')"
  "plain_text (ascii ''tick'')" "plain_text (ascii ''tokenId'')"
  by (simp_all add: plain_text_chars plain_char_def ascii_def scalar_def)

text \<open>The document that a listing commits to, and what is read from it.\<close>

definition send_members :: "ustring \<Rightarrow> u64 \<Rightarrow> (ustring \<times> ustring) list" where
  "send_members tick_lower token_id =
     [(ascii ''p'', ascii ''krc-721''), (ascii ''op'', ascii ''send''), (ascii ''tick'', tick_lower),
      (ascii ''tokenId'', u64_to_string token_id)]"

lemma send_json_members: "send_json tick_lower token_id = object_text (send_members tick_lower token_id)"
  by (simp add: send_json_def object_text_def send_members_def member_def)

lemma send_members_plain:
  assumes "plain_text tick_lower"
  shows "\<forall>(k, v) \<in> set (send_members tick_lower token_id). plain_text k \<and> plain_text v"
proof -
  have "plain_text (u64_to_string token_id)"
    unfolding plain_text_def by (auto dest!: u64_text_chars simp: scalar_def)
  with assms show ?thesis by (simp add: send_members_def send_names_plain)
qed

lemma send_members_read:
  assumes "tick_from_str up alnum tick_lower = Inr t"
  shows "user_operation_of up alnum (JObject (string_members (send_members tick_lower token_id))) =
    Some \<lparr>uo_protocol = Krc721, uo_op = OpSend, uo_tick = t, uo_token_id = Some token_id, uo_metadata = None, uo_max = None,
      uo_to = None, uo_royalty_to = None, uo_royalty_fee = None, uo_daa_mint_start = None, uo_discount_fee = None,
      uo_premint = None\<rparr>"
  using assms unfolding tick_deserialize_iff [symmetric]
  by (simp add: user_operation_of_def string_members_def send_members_def required_def optional_def values_of_def
      read_protocol_def read_op_def read_tick_def read_u64_def read_variant_def flattened_metadata_def)

lemma send_json_read:
  assumes "reads_plain_objects parse" "reads_documents node parse" "plain_text tick_lower"
    and "tick_from_str (char_to_uppercase node) (char_is_alphanumeric node) tick_lower = Inr t"
  shows "user_operation_from_json node (utf8_bytes (send_json tick_lower token_id)) =
    Inr \<lparr>uo_protocol = Krc721, uo_op = OpSend, uo_tick = t, uo_token_id = Some token_id, uo_metadata = None, uo_max = None,
      uo_to = None, uo_royalty_to = None, uo_royalty_fee = None, uo_daa_mint_start = None, uo_discount_fee = None,
      uo_premint = None\<rparr>"
proof -
  have "parse (utf8_bytes (send_json tick_lower token_id)) = Some (JObject (string_members (send_members tick_lower token_id)))"
    using assms(1) send_members_plain [OF assms(3)] unfolding send_json_members reads_plain_objects_def by blast
  with assms(2) send_members_read [OF assms(4)] show ?thesis unfolding reads_documents_def by blast
qed

section \<open>A small parser\<close>

text \<open>A parser of objects whose members are strings without escapes.\<close>

definition read_quoted :: "ustring \<Rightarrow> (ustring \<times> ustring) option" where
  "read_quoted s =
     (case s of [] \<Rightarrow> None
      | c # r \<Rightarrow> if c \<noteq> 34 then None
                 else (case dropWhile (\<lambda>c. c \<noteq> 34) r of [] \<Rightarrow> None | _ # r' \<Rightarrow> Some (takeWhile (\<lambda>c. c \<noteq> 34) r, r')))"

text \<open>The members, up to the closing brace; the number bounds how many there can be.\<close>

fun read_members :: "nat \<Rightarrow> ustring \<Rightarrow> (ustring \<times> json) list option" where
  "read_members 0 s = None"
| "read_members (Suc n) s =
     (case read_quoted s of
        Some (k, c # s1) \<Rightarrow>
          (if c \<noteq> 58 then None
           else case read_quoted s1 of
             Some (v, c # s2) \<Rightarrow>
               if c = 125 then Some [(k, JString v)]
               else if c = 44 then map_option (Cons (k, JString v)) (read_members n s2)
               else None
           | _ \<Rightarrow> None)
      | _ \<Rightarrow> None)"

definition flat_parse :: "bytes \<Rightarrow> json option" where
  "flat_parse bs =
     (case from_utf8 bs of
        Some (c # s) \<Rightarrow>
          if c \<noteq> 123 then None
          else if s = [125] then Some (JObject [])
          else map_option JObject (read_members (length s) s)
      | _ \<Rightarrow> None)"

lemma read_quoted_quoted [simp]: "plain_text s \<Longrightarrow> read_quoted (quoted s @ r) = Some (s, r)"
  "plain_text s \<Longrightarrow> read_quoted (34 # s @ 34 # r) = Some (s, r)"
proof -
  assume "plain_text s"
  then have "\<And>c. c \<in> set s \<Longrightarrow> c \<noteq> 34" by (auto simp: plain_text_def)
  then show "read_quoted (quoted s @ r) = Some (s, r)" "read_quoted (34 # s @ 34 # r) = Some (s, r)"
    by (simp_all add: read_quoted_def quoted_def takeWhile_append2 dropWhile_append2)
qed

lemma read_members_text:
  "kvs \<noteq> [] \<Longrightarrow> \<forall>(k, v) \<in> set kvs. plain_text k \<and> plain_text v \<Longrightarrow> length kvs \<le> n \<Longrightarrow>
   read_members n (members_text kvs @ [125]) = Some (string_members kvs)"
proof (induction kvs arbitrary: n)
  case (Cons kv kvs)
  obtain k v m where kv: "kv = (k, v)" "n = Suc m" "length kvs \<le> m" using Cons.prems(3) by (cases kv; cases n) auto
  have p: "plain_text k" "plain_text v" using Cons.prems(2) by (simp_all add: kv)
  show ?case
  proof (cases kvs)
    case Nil
    then show ?thesis by (simp add: kv p string_members_def)
  next
    case (Cons kv' kvs')
    then have t: "members_text (kv # kvs) = quoted k @ [58] @ quoted v @ [44] @ members_text kvs" by (simp add: kv)
    have "read_members m (members_text kvs @ [125]) = Some (string_members kvs)"
      using Cons.IH [OF _ _ kv(3)] Cons Cons.prems(2) by simp
    then show ?thesis unfolding t by (simp add: kv p string_members_def)
  qed
qed simp

lemma members_text_length: "length kvs \<le> length (members_text kvs)"
  by (induction kvs rule: members_text.induct) (auto simp: quoted_def)

lemma quoted_scalar: "plain_text s \<Longrightarrow> list_all scalar (quoted s)"
  by (simp add: plain_text_def quoted_def list_all_iff) (simp add: scalar_def)

lemma members_text_scalar:
  "\<forall>(k, v) \<in> set kvs. plain_text k \<and> plain_text v \<Longrightarrow> list_all scalar (members_text kvs)"
proof (induction kvs)
  case (Cons kv kvs)
  have n: "scalar 58" "scalar 44" by (simp_all add: scalar_def)
  show ?case using Cons n by (cases kv; cases kvs) (simp_all add: quoted_scalar)
qed simp

lemma flat_parse_plain: "reads_plain_objects flat_parse"
  unfolding reads_plain_objects_def
proof (intro allI impI)
  fix kvs assume p: "\<forall>(k, v) \<in> set kvs. plain_text k \<and> plain_text v"
  have "\<forall>c \<in> set (object_text kvs). scalar c"
    using members_text_scalar [OF p] by (simp add: object_text_def list_all_iff) (simp add: scalar_def)
  then have u: "from_utf8 (utf8_bytes (object_text kvs)) = Some (123 # members_text kvs @ [125])"
    using from_utf8_utf8_bytes by (simp add: object_text_def)
  show "flat_parse (utf8_bytes (object_text kvs)) = Some (JObject (string_members kvs))"
  proof (cases "kvs = []")
    case True
    with u show ?thesis by (simp add: flat_parse_def string_members_def)
  next
    case False
    then have "members_text kvs @ [125] \<noteq> [125]" using members_text_length [of kvs] by auto
    moreover have "read_members (length (members_text kvs @ [125])) (members_text kvs @ [125]) = Some (string_members kvs)"
      by (rule read_members_text [OF False p]) (use members_text_length [of kvs] in simp)
    ultimately show ?thesis using u by (simp add: flat_parse_def del: read_members.simps)
  qed
qed

end
