(* ===== verification/Inscriptions.thy ===== *)
theory Inscriptions
  imports UserJson
begin

text \<open>
  The other end of the analyzer: how inscriptions are written (\<^verbatim>\<open>core/src/inscriptions/mod.rs\<close>, \<^verbatim>\<open>krc721.rs\<close>), the
  transaction that reveals one, and that the analyzer reads what was written, with its author. Signing, the
  identifiers of transactions and the JSON writer belong to other crates and are arguments; the wallet's
  bookkeeping around the transaction is left out.
\<close>

section \<open>Writing\<close>

text \<open>\<^verbatim>\<open>pay_to_script_hash_signature_script\<close> of the node's crates: the redeem script behind the signature.\<close>

type_synonym hash_signature_script = "bytes \<Rightarrow> bytes \<Rightarrow> bytes option"

definition redeem_script_hash_signature_script ::
  "('a, 'p) node \<Rightarrow> hash_signature_script \<Rightarrow> bytes \<Rightarrow> bytes \<Rightarrow> bytes \<Rightarrow> bytes \<Rightarrow> bytes option" where
  "redeem_script_hash_signature_script node psh header redeem_script pubkey tx_signature =
     Option.bind (redeem_pubkey node header redeem_script pubkey) (\<lambda>build_redeem_script.
     Option.bind (builder_add_data node tx_signature []) (\<lambda>signature_op.
     psh build_redeem_script signature_op))"

definition demo_tick :: "('a, 'p) node \<Rightarrow> string \<Rightarrow> tick analysis" where
  "demo_tick node name =
     (case tick_from_str (char_to_uppercase node) (char_is_alphanumeric node) (ascii name) of
        Inl _ \<Rightarrow> Inl (AnalyzerPanic ''unwrap'') | Inr t \<Rightarrow> Inr t)"

definition blank_operation :: "op \<Rightarrow> tick \<Rightarrow> user_operation" where
  "blank_operation kind t =
     \<lparr>uo_protocol = Krc721, uo_op = kind, uo_tick = t, uo_token_id = None, uo_metadata = None, uo_max = None, uo_to = None,
      uo_royalty_to = None, uo_royalty_fee = None, uo_daa_mint_start = None, uo_discount_fee = None, uo_premint = None\<rparr>"

text \<open>The end of every demonstration: the redeem script of the inscription and the address that commits to it.\<close>

definition committed ::
  "('a, 'p) node \<Rightarrow> 'p \<Rightarrow> (user_operation \<Rightarrow> bytes) \<Rightarrow> user_operation \<Rightarrow> bytes \<Rightarrow> ('a \<times> bytes) analysis" where
  "committed node prfx to_json model key =
     (case redeem_pubkey node PROTOCOL_KSPR_NAMESPACE (to_json model) key of
        None \<Rightarrow> Inl (AnalyzerPanic ''unwrap'')
      | Some script_sig \<Rightarrow>
         (case extract_script_pub_key_address node (pay_to_script_hash_script node script_sig) prfx of
            None \<Rightarrow> Inl (AnalyzerPanic ''unwrap'')
          | Some p2sh \<Rightarrow> Inr (p2sh, script_sig)))"

definition nft_deploy_demo :: "('a, 'p) node \<Rightarrow> 'p \<Rightarrow> (user_operation \<Rightarrow> bytes) \<Rightarrow> bytes \<Rightarrow> ('a \<times> bytes) analysis" where
  "nft_deploy_demo node prfx to_json pubkey =
     and_then (demo_tick node ''KASPARTY'') (\<lambda>t.
     committed node prfx to_json
       ((blank_operation OpDeploy t)\<lparr>uo_metadata := Some (Remote (ascii ''krc721://kaspart/images/'')), uo_max := Some 1000\<rparr>)
       (slice 1 33 pubkey))"

definition nft_deploy_demo_bytes :: "('a, 'p) node \<Rightarrow> 'p \<Rightarrow> (user_operation \<Rightarrow> bytes) \<Rightarrow> bytes \<Rightarrow> ('a \<times> bytes) analysis" where
  "nft_deploy_demo_bytes node prfx to_json pubkey =
     and_then (demo_tick node ''Y'') (\<lambda>t.
     committed node prfx to_json
       ((blank_operation OpDeploy t)\<lparr>uo_metadata := Some (Remote (ascii ''//////////'')), uo_max := Some 1000\<rparr>) pubkey)"

definition nft_mint_demo :: "('a, 'p) node \<Rightarrow> 'p \<Rightarrow> (user_operation \<Rightarrow> bytes) \<Rightarrow> bytes \<Rightarrow> ('a \<times> bytes) analysis" where
  "nft_mint_demo node prfx to_json pubkey =
     and_then (demo_tick node ''KASPARTY'') (\<lambda>t.
     committed node prfx to_json (blank_operation OpMint t) (slice 1 33 pubkey))"

definition nft_mint_demo_bytes :: "('a, 'p) node \<Rightarrow> 'p \<Rightarrow> (user_operation \<Rightarrow> bytes) \<Rightarrow> bytes \<Rightarrow> ('a \<times> bytes) analysis" where
  "nft_mint_demo_bytes node prfx to_json pubkey =
     and_then (demo_tick node ''Y'') (\<lambda>t. committed node prfx to_json (blank_operation OpMint t) pubkey)"

definition nft_transfer_demo :: "('a, 'p) node \<Rightarrow> 'p \<Rightarrow> (user_operation \<Rightarrow> bytes) \<Rightarrow> bytes \<Rightarrow> ('a \<times> bytes) analysis" where
  "nft_transfer_demo node prfx to_json pubkey =
     and_then (demo_tick node ''KASPARTY'') (\<lambda>t.
     committed node prfx to_json
       ((blank_operation OpTransfer t)\<lparr>uo_token_id := Some 74, uo_to := Some (ascii ''kaspa:qqabb6cz...'')\<rparr>)
       (slice 1 33 pubkey))"

text \<open>The first place of the key in a script is replaced by the text of the placeholder.\<close>

definition payload_to_placeholder :: "bytes \<Rightarrow> bytes \<Rightarrow> bytes analysis" where
  "payload_to_placeholder payload pubkey =
     (let needle = slice 1 33 pubkey in
      case window_position needle payload 0 of
        None \<Rightarrow> Inl (AnalyzerPanic ''Public key present in payload'')
      | Some position \<Rightarrow>
          Inr (take position payload @ map of_char ''{{pubkey}}'' @ drop (position + length needle) payload))"

section \<open>Revealing\<close>

text \<open>What the wallet brings in: the signature script of the only input for the amount it spends, and the identifier of
  a transaction.\<close>

record ('a, 'k) signing =
  sg_sign :: "'k \<Rightarrow> transaction \<Rightarrow> u64 \<Rightarrow> spk \<Rightarrow> bytes"
  sg_tx_id :: "hash \<Rightarrow> transaction_output list \<Rightarrow> hash"

record ('a, 'k) transaction_details =
  td_script_sig :: bytes
  td_recipient :: 'a
  td_secret_key :: 'k
  td_prev_tx_tid :: hash

definition reveal_transaction ::
  "('a, 'p) node \<Rightarrow> hash_signature_script \<Rightarrow> ('a, 'k) signing \<Rightarrow> ('a, 'k) transaction_details \<Rightarrow> u64 \<Rightarrow> u64
     \<Rightarrow> transaction option" where
  "reveal_transaction node psh sg details payback_amount reveal_fee =
     (let entry_total_amount = payback_amount + reveal_fee;
          redeem_lock_p2sh = pay_to_script_hash_script node (td_script_sig details);
          outputs = [\<lparr>out_value = payback_amount, out_spk = pay_to_address_script node (td_recipient details)\<rparr>];
          unsigned_tx = \<lparr>tx_inputs = [\<lparr>in_signature_script = [], in_previous_tx_id = td_prev_tx_tid details\<rparr>],
            tx_outputs = outputs, tx_hash = sg_tx_id sg (td_prev_tx_tid details) outputs\<rparr>;
          signature = sg_sign sg (td_secret_key details) unsigned_tx entry_total_amount redeem_lock_p2sh
      in map_option (\<lambda>script_sig. unsigned_tx\<lparr>tx_inputs :=
             [\<lparr>in_signature_script = script_sig, in_previous_tx_id = td_prev_tx_tid details\<rparr>]\<rparr>)
           (psh (td_script_sig details) signature))"

section \<open>Scripts that read back\<close>

text \<open>
  What is known of the node's script format: opcodes without data are their byte, data of at least two bytes is a push
  that ends with it, short data is pushed by its length, and the parser takes them apart again; the
  signature script of a redeem script ends with the push of it.
\<close>

definition one_opcode :: "('a, 'p) node \<Rightarrow> bytes \<Rightarrow> opcode \<Rightarrow> bool" where
  "one_opcode node e o1 = (\<forall>r. parse_script node (e @ r) = Inr o1 # parse_script node r)"

definition standard_scripts :: "('a, 'p) node \<Rightarrow> hash_signature_script \<Rightarrow> bool" where
  "standard_scripts node psh \<longleftrightarrow>
     OpFalse node = 0 \<and> OpIf node = 0x63 \<and> parse_script node [] = [] \<and>
     (\<forall>b s s'. builder_add_op node b s = Some s' \<longrightarrow> s' = s @ [b]) \<and>
     (\<forall>s s'. builder_add_i64 node 0 s = Some s' \<longrightarrow> s' = s @ [OpFalse node]) \<and>
     (\<forall>b \<in> {OpFalse node, OpIf node, OpEndIf node, OpCheckSig node}. \<exists>o1. one_opcode node [b] o1 \<and> opcode_value o1 = b) \<and>
     (\<forall>d s s'. 2 \<le> length d \<longrightarrow> builder_add_data node d s = Some s' \<longrightarrow>
        (\<exists>h o1. s' = s @ h @ d \<and> one_opcode node (h @ d) o1 \<and> opcode_is_push o1 \<and> \<not> opcode_is_empty o1 \<and> opcode_data o1 = d \<and>
           (length d \<le> 75 \<longrightarrow> h = [word_of_nat (length d)]))) \<and>
     (\<forall>redeem signature s. psh redeem signature = Some s \<longrightarrow>
        (\<exists>e. builder_add_data node redeem [] = Some e \<and> s = signature @ e))"

lemma standard_op:
  "standard_scripts node psh \<Longrightarrow> b \<in> {OpFalse node, OpIf node, OpEndIf node, OpCheckSig node} \<Longrightarrow>
   \<exists>o1. one_opcode node [b] o1 \<and> opcode_value o1 = b"
  unfolding standard_scripts_def by blast

lemma standard_data:
  assumes "standard_scripts node psh" and "2 \<le> length d" and "builder_add_data node d s = Some s'"
  obtains h o1 where "s' = s @ h @ d" "one_opcode node (h @ d) o1" "opcode_is_push o1" "\<not> opcode_is_empty o1"
    "opcode_data o1 = d" "length d \<le> 75 \<Longrightarrow> h = [word_of_nat (length d)]"
  using assms unfolding standard_scripts_def by blast

lemma one_opcodeD: "one_opcode node e o1 \<Longrightarrow> parse_script node (e @ r) = Inr o1 # parse_script node r"
  by (simp add: one_opcode_def)

text \<open>The envelope that is written, as bytes and as opcodes.\<close>

lemma written_envelope:
  assumes "standard_scripts node psh" and "redeem_pubkey node PROTOCOL_KSPR_NAMESPACE json pubkey = Some script"
    and "length pubkey = 32" and "2 \<le> length json"
  obtains ops hj where "parse_script node script = map Inr ops" "length ops = 8"
    "script = 32 # pubkey @ [OpCheckSig node] @ KSPR_U8_STRICT @ [OpFalse node] @ hj @ json @ [OpEndIf node]"
    "opcode_is_push (ops ! 0)" "opcode_data (ops ! 0) = pubkey" "opcode_value (ops ! 1) = OpCheckSig node"
    "opcode_value (ops ! 2) = OpFalse node" "opcode_value (ops ! 3) = OpIf node"
    "opcode_is_push (ops ! 4)" "opcode_data (ops ! 4) = PROTOCOL_KSPR_NAMESPACE" "opcode_value (ops ! 5) = OpFalse node"
    "opcode_is_push (ops ! 6)" "\<not> opcode_is_empty (ops ! 6)" "opcode_data (ops ! 6) = json" "opcode_value (ops ! 7) = OpEndIf node"
proof -
  note std = assms(1)
  have ops_add: "builder_add_op node b s = Some s' \<Longrightarrow> s' = s @ [b]" for b s s'
    using std unfolding standard_scripts_def by blast
  have zero: "builder_add_i64 node 0 s = Some s' \<Longrightarrow> s' = s @ [OpFalse node]" for s s'
    using std unfolding standard_scripts_def by blast
  have codes: "OpFalse node = 0" "OpIf node = 0x63" "parse_script node [] = []"
    using std by (simp_all add: standard_scripts_def)
  obtain s1 s2 s3 s4 s5 s6 s7 where b:
    "builder_add_data node pubkey [] = Some s1" "builder_add_op node (OpCheckSig node) s1 = Some s2"
    "builder_add_op node (OpFalse node) s2 = Some s3" "builder_add_op node (OpIf node) s3 = Some s4"
    "builder_add_data node PROTOCOL_KSPR_NAMESPACE s4 = Some s5" "builder_add_i64 node 0 s5 = Some s6"
    "builder_add_data node json s6 = Some s7" "builder_add_op node (OpEndIf node) s7 = Some script"
    using assms(2) by (auto simp: redeem_pubkey_def bind_eq_Some_conv)
  obtain h1 o1 where p1: "s1 = [] @ h1 @ pubkey" "one_opcode node (h1 @ pubkey) o1" "opcode_is_push o1" "opcode_data o1 = pubkey"
      "h1 = [word_of_nat (length pubkey)]"
    by (rule standard_data [OF std _ b(1)]) (use assms(3) in simp_all)
  obtain h5 o5 where p5: "s5 = s4 @ h5 @ PROTOCOL_KSPR_NAMESPACE" "one_opcode node (h5 @ PROTOCOL_KSPR_NAMESPACE) o5"
      "opcode_is_push o5" "opcode_data o5 = PROTOCOL_KSPR_NAMESPACE" "h5 = [word_of_nat (length PROTOCOL_KSPR_NAMESPACE)]"
    by (rule standard_data [OF std _ b(5)]) (simp_all add: PROTOCOL_KSPR_NAMESPACE_def)
  obtain h7 o7 where p7: "s7 = s6 @ h7 @ json" "one_opcode node (h7 @ json) o7" "opcode_is_push o7" "\<not> opcode_is_empty o7"
      "opcode_data o7 = json"
    by (rule standard_data [OF std assms(4) b(7)])
  obtain oc where oc: "one_opcode node [OpCheckSig node] oc" "opcode_value oc = OpCheckSig node"
    using standard_op [OF std, of "OpCheckSig node"] by auto
  obtain of' where of': "one_opcode node [OpFalse node] of'" "opcode_value of' = OpFalse node"
    using standard_op [OF std, of "OpFalse node"] by auto
  obtain oi where oi: "one_opcode node [OpIf node] oi" "opcode_value oi = OpIf node"
    using standard_op [OF std, of "OpIf node"] by auto
  obtain oe where oe: "one_opcode node [OpEndIf node] oe" "opcode_value oe = OpEndIf node"
    using standard_op [OF std, of "OpEndIf node"] by auto
  have s: "script = (h1 @ pubkey) @ [OpCheckSig node] @ [OpFalse node] @ [OpIf node] @ (h5 @ PROTOCOL_KSPR_NAMESPACE) @
      [OpFalse node] @ (h7 @ json) @ [OpEndIf node] @ []"
    using p1(1) p5(1) p7(1) ops_add [OF b(2)] ops_add [OF b(3)] ops_add [OF b(4)] zero [OF b(6)] ops_add [OF b(8)] by simp
  let ?ops = "[o1, oc, of', oi, o5, of', o7, oe]"
  have parsed: "parse_script node script = map Inr ?ops"
    unfolding s by (simp only: one_opcodeD [OF p1(2)] one_opcodeD [OF oc(1)] one_opcodeD [OF of'(1)] one_opcodeD [OF oi(1)]
        one_opcodeD [OF p5(2)] one_opcodeD [OF p7(2)] one_opcodeD [OF oe(1)] codes(3) list.map)
  have bytes: "script = 32 # pubkey @ [OpCheckSig node] @ KSPR_U8_STRICT @ [OpFalse node] @ h7 @ json @ [OpEndIf node]"
    using s p1(5) p5(5) codes assms(3) by (simp add: KSPR_U8_STRICT_def PROTOCOL_KSPR_NAMESPACE_def)
  show ?thesis
    by (rule that [OF parsed _ bytes]) (simp_all add: p1 oc of' oi p5 p7 oe)
qed

section \<open>What the analyzer reads\<close>

text \<open>The operation of an inscription by a given author: what \<^verbatim>\<open>detect_krc721\<close> does behind the envelope.\<close>

definition operation_of_inscription ::
  "('a, 'p) node \<Rightarrow> 'p analyzer \<Rightarrow> context_transaction \<Rightarrow> user_operation \<Rightarrow> spk \<Rightarrow> operation option analysis" where
  "operation_of_inscription node an sigtx model sender =
     and_then (resolve_address node an ''to'' (uo_to model)) (\<lambda>resolved_to.
     let to_param = map_option (pay_to_address_script node) resolved_to in
     and_then (resolve_address node an ''royalty_to'' (uo_royalty_to model)) (\<lambda>resolved_royalty_to.
     let royalty_to = (case resolved_royalty_to of Some a \<Rightarrow> pay_to_address_script node a | None \<Rightarrow> sender) in
     and_then (tick_str (uo_tick model)) (\<lambda>name.
     and_then (map_err TickError (tick_from_str (char_to_uppercase node) (char_is_alphanumeric node) name)) (\<lambda>t.
     and_then (case uo_op model of
                 OpDiscount \<Rightarrow> detect_discount sigtx model to_param
               | OpTransfer \<Rightarrow> detect_transfer sigtx model to_param
               | OpMint \<Rightarrow> detect_mint sigtx to_param sender
               | OpDeploy \<Rightarrow> detect_deploy an sigtx model t to_param royalty_to sender
               | OpList \<Rightarrow> detect_list node an sigtx model t
               | OpSend \<Rightarrow> detect_send sigtx model) (\<lambda>info.
     Inr (Some \<lparr>op_common = operation_common_of sigtx t sender, op_info = info\<rparr>))))))"

definition key_script :: "('a, 'p) node \<Rightarrow> bytes \<Rightarrow> spk" where
  "key_script node pubkey = Spk (PubKey_version node) (OpData32 node # pubkey @ [OpCheckSig node])"

lemma written_inscription_read:
  assumes "standard_scripts node psh" and "redeem_pubkey node PROTOCOL_KSPR_NAMESPACE json pubkey = Some redeem"
    and "length pubkey = 32" and "json = pre @ KRC721_HEADER_UC @ post" and "user_operation_from_json node json = Inr model"
    and "one_opcode node signature o1" and "psh redeem signature = Some script" and "signature_script sigtx = Some script"
  shows "detect_krc721 node an sigtx = operation_of_inscription node an sigtx model (key_script node pubkey)"
proof -
  have j: "2 \<le> length json" using assms(4) by (simp add: KRC721_HEADER_UC_def)
  obtain ops hj where ops: "parse_script node redeem = map Inr ops" "length ops = 8"
      "redeem = 32 # pubkey @ [OpCheckSig node] @ KSPR_U8_STRICT @ [OpFalse node] @ hj @ json @ [OpEndIf node]"
      "opcode_is_push (ops ! 0)" "opcode_data (ops ! 0) = pubkey" "opcode_value (ops ! 1) = OpCheckSig node"
      "opcode_value (ops ! 2) = OpFalse node" "opcode_value (ops ! 3) = OpIf node"
      "opcode_is_push (ops ! 4)" "opcode_data (ops ! 4) = PROTOCOL_KSPR_NAMESPACE" "opcode_value (ops ! 5) = OpFalse node"
      "opcode_is_push (ops ! 6)" "\<not> opcode_is_empty (ops ! 6)" "opcode_data (ops ! 6) = json" "opcode_value (ops ! 7) = OpEndIf node"
    using written_envelope [OF assms(1-3) j] by metis
  obtain e where e: "builder_add_data node redeem [] = Some e" "script = signature @ e"
    using assms(1,7) unfolding standard_scripts_def by blast
  obtain h o2 where o2: "e = [] @ h @ redeem" "one_opcode node (h @ redeem) o2" "opcode_is_push o2" "\<not> opcode_is_empty o2"
      "opcode_data o2 = redeem"
    by (rule standard_data [OF assms(1) _ e(1)]) (simp add: ops(3))
  have "parse_script node [] = []" using assms(1) by (simp add: standard_scripts_def)
  then have parsed: "parse_script node script = [Inr o1, Inr o2]"
    using one_opcodeD [OF assms(6), of e] one_opcodeD [OF o2(2), of "[]"] by (simp add: e(2) o2(1))
  have kspr: "detect_kspr_header script"
  proof -
    have "script = (signature @ h @ 32 # pubkey @ [OpCheckSig node]) @ KSPR_U8_STRICT @ [OpFalse node] @ hj @ json @ [OpEndIf node]"
      by (simp add: e(2) o2(1) ops(3))
    then show ?thesis unfolding detect_kspr_header_def
      by (simp only:) (intro disjI1 window_find_append, simp_all add: KSPR_U8_STRICT_def assms(3))
  qed
  have krc: "detect_krc721_header redeem"
  proof -
    have "redeem = (32 # pubkey @ [OpCheckSig node] @ KSPR_U8_STRICT @ [OpFalse node] @ hj @ pre) @ KRC721_HEADER_UC @ post @ [OpEndIf node]"
      using ops(3) assms(4) by simp
    then show ?thesis unfolding detect_krc721_header_def
      by (simp only:) (intro disjI1 window_find_append, simp_all add: KRC721_HEADER_UC_def assms(3))
  qed
  have content: "slice 5 8 ops ! 0 = ops ! 5" "slice 5 8 ops ! 1 = ops ! 6" "slice 5 8 ops ! 2 = ops ! 7"
    using ops(2) by (simp_all add: slice_def)
  have valid: "validate_redeem_envelope node ops = Inr ()"
    unfolding validate_redeem_envelope_def validate_common_opcodes_def validate_mandatory_content_def content require_def
    by (simp add: ops(2) ops(7-13) ops(15))
  have envelope: "detect_envelope node sigtx = Inr (Some ops)"
    by (simp add: detect_envelope_def assms(8) kspr parsed nth_opt_def ok_or_def map_err_def require_def o2 krc
        ops(1) collect_opcodes_Inr valid ops(2) ops(12))
  have sender: "reveal_sender node an sigtx (ops ! 0) (ops ! 1) = Inr (key_script node pubkey)"
    by (simp add: reveal_sender_def ops(5) ops(6) [unfolded One_nat_def] pay_to_pub_key_def assms(3) key_script_def)
  show ?thesis
    unfolding detect_krc721_def envelope operation_of_inscription_def
    using sender by (simp add: ops(2,14) assms(5) map_err_def Let_def)
qed

text \<open>C9: Whatever inscription a wallet writes and reveals, the analyzer reads it as it was written: the operation of the
  written document, by the holder of the key that the redeem script names, with the output of the revealing
  transaction as the payment.\<close>

theorem revealed_inscription_is_read_as_written:
  assumes "standard_scripts node psh"
    and "redeem_pubkey node PROTOCOL_KSPR_NAMESPACE json pubkey = Some (td_script_sig details)" and "length pubkey = 32"
    and "json = pre @ KRC721_HEADER_UC @ post" and "user_operation_from_json node json = Inr model"
    and "\<And>tx amount lock. \<exists>o1. one_opcode node (sg_sign sg (td_secret_key details) tx amount lock) o1"
    and "reveal_transaction node psh sg details payback_amount reveal_fee = Some (ct_tx sigtx)"
  shows "detect_krc721 node an sigtx = operation_of_inscription node an sigtx model (key_script node pubkey) \<and>
    first_output_amt sigtx = Some payback_amount \<and>
    first_beneficiary sigtx = Some (pay_to_address_script node (td_recipient details))"
proof -
  let ?outputs = "[\<lparr>out_value = payback_amount, out_spk = pay_to_address_script node (td_recipient details)\<rparr>]"
  define unsigned where "unsigned = \<lparr>tx_inputs = [\<lparr>in_signature_script = [], in_previous_tx_id = td_prev_tx_tid details\<rparr>],
    tx_outputs = ?outputs, tx_hash = sg_tx_id sg (td_prev_tx_tid details) ?outputs\<rparr>"
  define signature where "signature = sg_sign sg (td_secret_key details) unsigned (payback_amount + reveal_fee)
    (pay_to_script_hash_script node (td_script_sig details))"
  have "map_option (\<lambda>script. unsigned\<lparr>tx_inputs := [\<lparr>in_signature_script = script, in_previous_tx_id = td_prev_tx_tid details\<rparr>]\<rparr>)
      (psh (td_script_sig details) signature) = Some (ct_tx sigtx)"
    using assms(7) by (simp only: reveal_transaction_def Let_def unsigned_def signature_def)
  then obtain script where script: "psh (td_script_sig details) signature = Some script"
      and c: "ct_tx sigtx = unsigned\<lparr>tx_inputs := [\<lparr>in_signature_script = script, in_previous_tx_id = td_prev_tx_tid details\<rparr>]\<rparr>"
    by auto
  have tx: "tx_inputs (ct_tx sigtx) = [\<lparr>in_signature_script = script, in_previous_tx_id = td_prev_tx_tid details\<rparr>]"
      "tx_outputs (ct_tx sigtx) = ?outputs"
    by (simp_all add: c unsigned_def)
  obtain o1 where o1: "one_opcode node signature o1" using assms(6) unfolding signature_def by blast
  have "signature_script sigtx = Some script" by (simp add: signature_script_def nth_opt_def tx)
  from written_inscription_read [OF assms(1-5) o1 script this] show ?thesis
    by (simp add: first_output_amt_def first_beneficiary_def nth_opt_def tx)
qed

section \<open>Listings and their sales\<close>

lemma utf8_bytes_append: "utf8_bytes (a @ b) = utf8_bytes a @ utf8_bytes b"
  by (simp add: utf8_bytes_def)

lemma send_json_names_the_protocol:
  "\<exists>pre post. utf8_bytes (send_json tick_lower token_id) = pre @ KRC721_HEADER_UC @ post"
proof -
  let ?pre = "[123, 34, 112, 34, 58, 34]"
  obtain post where "send_json tick_lower token_id = ?pre @ ascii ''krc-721'' @ post"
    by (simp add: send_json_def member_def quoted_def ascii_def)
  then have "utf8_bytes (send_json tick_lower token_id) = utf8_bytes ?pre @ KRC721_HEADER_UC @ utf8_bytes post"
    by (simp add: utf8_bytes_append) (simp add: ascii_def utf8_bytes_def utf8_char_def KRC721_HEADER_UC_def)
  then show ?thesis by blast
qed

text \<open>
  The document of a listing names the tick in lower case. What is needed of the two case mappings is that they bring
  back the text of the tick: upper-casing leaves it as it is, and undoes the lower-casing. (Unicode has letters for
  which this fails; a tick with one of them is listed with the document of another tick, or of none.)
\<close>

definition case_stable :: "('a, 'p) node \<Rightarrow> ustring \<Rightarrow> bool" where
  "case_stable node name \<longleftrightarrow>
     to_uppercase (char_to_uppercase node) name = name \<and>
     to_uppercase (char_to_uppercase node) (str_to_lowercase node name) = name \<and>
     \<not> char_is_alphanumeric node 0 \<and> (\<forall>c \<in> set name. scalar c) \<and> plain_text (str_to_lowercase node name)"

lemma case_stable_tick:
  assumes "case_stable node name" and "tick_from_str (char_to_uppercase node) (char_is_alphanumeric node) name = Inr t"
  shows "tick_str t = Inr name"
    and "tick_from_str (char_to_uppercase node) (char_is_alphanumeric node) (str_to_lowercase node name) = Inr t"
proof -
  have "tick_as_str t = Some (to_uppercase (char_to_uppercase node) name)"
    using assms by (intro tick_as_str_from_str) (auto simp: case_stable_def)
  then show "tick_str t = Inr name" using assms(1) by (simp add: tick_str_def case_stable_def)
  show "tick_from_str (char_to_uppercase node) (char_is_alphanumeric node) (str_to_lowercase node name) = Inr t"
    using assms by (simp add: tick_from_str_def case_stable_def)
qed

text \<open>What a spent listing is read as: the sale of the tick that the lower-case text gives.\<close>

lemma listing_sale_read:
  assumes "standard_scripts node psh" and "compute_listing_p2sh node pubkey name token_id prfx = Inr (addr, redeem)"
    and "length pubkey = 32" and "reads_plain_objects parse" and "reads_documents node parse"
    and "plain_text (str_to_lowercase node name)"
    and "tick_from_str (char_to_uppercase node) (char_is_alphanumeric node) (str_to_lowercase node name) = Inr t"
    and "tick_str t = Inr read_name"
    and "tick_from_str (char_to_uppercase node) (char_is_alphanumeric node) read_name = Inr t"
    and "one_opcode node signature o1" and "psh redeem signature = Some script"
    and "tx_inputs (ct_tx sigtx) = \<lparr>in_signature_script = script, in_previous_tx_id = listing_tx\<rparr> # ins"
    and "tx_outputs (ct_tx sigtx) = pay # outs"
  shows "detect_krc721 node an sigtx = Inr (Some
    \<lparr>op_common = operation_common_of sigtx t (key_script node pubkey),
     op_info = Send \<lparr>si_token_id = token_id, si_payment_amount = out_value pay,
       si_buyer = (case outs of [] \<Rightarrow> None | buyer # _ \<Rightarrow> Some (out_spk buyer)), si_listing_utxo_txid = listing_tx\<rparr>\<rparr>)"
proof -
  let ?json = "utf8_bytes (send_json (str_to_lowercase node name) token_id)"
  have redeem: "redeem_pubkey node PROTOCOL_KSPR_NAMESPACE ?json pubkey = Some redeem"
    using assms(2) by (auto simp: compute_listing_p2sh_def split: option.splits)
  obtain pre post where json: "?json = pre @ KRC721_HEADER_UC @ post" using send_json_names_the_protocol by blast
  have "signature_script sigtx = Some script" by (simp add: signature_script_def nth_opt_def assms(12))
  note read = written_inscription_read [OF assms(1) redeem assms(3) json send_json_read [OF assms(4-7)] assms(10,11) this, of an]
  have "output_spk 1 sigtx = (case outs of [] \<Rightarrow> None | buyer # _ \<Rightarrow> Some (out_spk buyer))"
    by (cases outs) (simp_all add: output_spk_def nth_opt_def assms(13))
  then show ?thesis unfolding read
    by (simp add: operation_of_inscription_def resolve_address_def assms(8,9) map_err_def Let_def
        detect_send_def ok_or_def output_amt_def input_prev_txid_def nth_opt_def assms(12,13))
qed

text \<open>C10: The redeem script that the analyzer stores with a listing commits to its sale. A transaction that spends the
  output with this script is read as the sale of the listed token, of the same tick and id, in the name of the
  holder of the key, at the value of its first output, to the script of its second. (The key has 32 bytes, the
  tick a text that the case mappings bring back, and the document is read by the schema of the program over a
  parser that reads objects of plain strings.)\<close>

theorem listing_commits_to_its_sale:
  assumes "standard_scripts node psh" and "reads_plain_objects parse" and "reads_documents node parse"
    and "case_stable node name" and "tick_from_str (char_to_uppercase node) (char_is_alphanumeric node) name = Inr t"
    and "detect_list node an listing_tx model t = Inr (Listing info)"
    and "sender_pubkey_bytes node listing_tx = Some pubkey" and "length pubkey = 32"
    and "one_opcode node signature o1" and "psh (li_redeem_script info) signature = Some script"
    and "tx_inputs (ct_tx sigtx) = \<lparr>in_signature_script = script, in_previous_tx_id = tx_hash (ct_tx listing_tx)\<rparr> # ins"
    and "tx_outputs (ct_tx sigtx) = pay # outs"
  shows "detect_krc721 node an' sigtx = Inr (Some
    \<lparr>op_common = operation_common_of sigtx t (key_script node pubkey),
     op_info = Send \<lparr>si_token_id = li_token_id info, si_payment_amount = out_value pay,
       si_buyer = (case outs of [] \<Rightarrow> None | buyer # _ \<Rightarrow> Some (out_spk buyer)),
       si_listing_utxo_txid = tx_hash (ct_tx listing_tx)\<rparr>\<rparr>)"
proof -
  note tick = case_stable_tick [OF assms(4,5)]
  obtain addr where "compute_listing_p2sh node pubkey name (li_token_id info) (address_prefix an) = Inr (addr, li_redeem_script info)"
    using assms(6) by (auto simp: detect_list_def analysis_iff assms(7) tick(1))
  from listing_sale_read [OF assms(1) this assms(8,2,3) _ tick(2,1) assms(5,9-12)] assms(4) show ?thesis
    by (simp add: case_stable_def)
qed

section \<open>A script format with pushes of up to 255 bytes\<close>

definition script_next_opcode :: "bytes \<Rightarrow> ((string + opcode) \<times> bytes) option" where
  "script_next_opcode bs =
     (case bs of
        [] \<Rightarrow> None
      | b # r \<Rightarrow>
         if b = 0x4c then
           (case r of
              [] \<Rightarrow> Some (Inl ''push without a length'', [])
            | n # r' \<Rightarrow>
                if unat n \<le> length r'
                then Some (Inr \<lparr>opcode_value = b, opcode_is_empty = n = 0, opcode_is_push = True, opcode_data = take (unat n) r'\<rparr>,
                  drop (unat n) r')
                else Some (Inl ''push beyond the end'', []))
         else sample_next_opcode bs)"

definition script_add_data :: "bytes \<Rightarrow> bytes \<Rightarrow> bytes option" where
  "script_add_data d s =
     (if length d \<le> 75 then Some (s @ [word_of_nat (length d)] @ d)
      else if length d \<le> 255 then Some (s @ [0x4c, word_of_nat (length d)] @ d)
      else None)"

definition script_hash_signature :: hash_signature_script where
  "script_hash_signature redeem signature = map_option (\<lambda>e. signature @ e) (script_add_data redeem [])"

text \<open>A node that reads its documents with the small parser, over the letters of ASCII.\<close>

definition writer_node :: "(nat, nat) node" where
  "writer_node = sample_node\<lparr>deserialize_next_opcode := script_next_opcode, builder_add_data := script_add_data,
     user_operation_from_json := \<lambda>bs.
       case Option.bind (flat_parse bs) (user_operation_of ascii_upper ascii_alphanumeric) of
         None \<Rightarrow> Inl ''not an operation'' | Some model \<Rightarrow> Inr model,
     char_to_uppercase := ascii_upper, char_is_alphanumeric := ascii_alphanumeric,
     str_to_lowercase := map (\<lambda>c. if 65 \<le> c \<and> c \<le> 90 then c + 32 else c)\<rparr>"

lemma writer_documents: "reads_documents writer_node flat_parse"
  by (simp add: reads_documents_def writer_node_def)

lemma writer_node_fields [simp]:
  "deserialize_next_opcode writer_node = script_next_opcode" "builder_add_data writer_node = script_add_data"
  "OpFalse writer_node = 0" "OpIf writer_node = 0x63" "OpEndIf writer_node = 0x68" "OpCheckSig writer_node = 0xac"
  "builder_add_op writer_node b s = Some (s @ [b])" "builder_add_i64 writer_node i s = Some (s @ [word_of_int i])"
  by (simp_all add: writer_node_def sample_node_def)

lemma writer_parse_Nil: "parse_script writer_node [] = []"
  by (subst parse_script.simps) (simp add: script_next_opcode_def sample_next_opcode_def)

lemma writer_parse:
  "script_next_opcode (e @ r) = Some (Inr o1, r) \<Longrightarrow> e \<noteq> [] \<Longrightarrow> parse_script writer_node (e @ r) = Inr o1 # parse_script writer_node r"
  by (subst parse_script.simps) simp

lemma unat_length_byte: "n \<le> 255 \<Longrightarrow> unat (word_of_nat n :: byte) = n"
  by (rule unat_byte_of_nat) simp

lemma writer_short_push:
  assumes "2 \<le> length d" and "length d \<le> 75"
  shows "one_opcode writer_node ([word_of_nat (length d)] @ d)
    \<lparr>opcode_value = word_of_nat (length d), opcode_is_empty = False, opcode_is_push = True, opcode_data = d\<rparr>"
  unfolding one_opcode_def
proof (intro allI writer_parse)
  fix r
  have u: "unat (word_of_nat (length d) :: byte) = length d" using assms by (intro unat_length_byte) simp
  then have "(word_of_nat (length d) :: byte) \<noteq> 0" "(word_of_nat (length d) :: byte) \<noteq> 0x4c" using assms by auto
  then show "script_next_opcode (([word_of_nat (length d)] @ d) @ r) =
      Some (Inr \<lparr>opcode_value = word_of_nat (length d), opcode_is_empty = False, opcode_is_push = True, opcode_data = d\<rparr>, r)"
    using u assms by (simp add: script_next_opcode_def sample_next_opcode_def Let_def)
qed simp

lemma writer_long_push:
  assumes "75 < length d" and "length d \<le> 255"
  shows "one_opcode writer_node ([0x4c, word_of_nat (length d)] @ d)
    \<lparr>opcode_value = 0x4c, opcode_is_empty = False, opcode_is_push = True, opcode_data = d\<rparr>"
  unfolding one_opcode_def
proof (intro allI writer_parse)
  fix r
  have u: "unat (word_of_nat (length d) :: byte) = length d" using assms by (intro unat_length_byte)
  then have "(word_of_nat (length d) :: byte) \<noteq> 0" using assms by auto
  then show "script_next_opcode (([0x4c, word_of_nat (length d)] @ d) @ r) =
      Some (Inr \<lparr>opcode_value = 0x4c, opcode_is_empty = False, opcode_is_push = True, opcode_data = d\<rparr>, r)"
    using u by (simp add: script_next_opcode_def)
qed simp

lemma writer_plain:
  assumes "b \<in> {0, 0x63, 0x68, 0xac}"
  shows "\<exists>o1. one_opcode writer_node [b] o1 \<and> opcode_value o1 = b"
proof -
  have "script_next_opcode ([b] @ r) = Some (Inr \<lparr>opcode_value = b, opcode_is_empty = True, opcode_is_push = b = 0, opcode_data = []\<rparr>, r)" for r
    using assms by (auto simp: script_next_opcode_def sample_next_opcode_def Let_def)
  then have "one_opcode writer_node [b] \<lparr>opcode_value = b, opcode_is_empty = True, opcode_is_push = b = 0, opcode_data = []\<rparr>"
    unfolding one_opcode_def by (intro allI writer_parse) simp_all
  then show ?thesis by (intro exI conjI) (assumption, simp)
qed

lemma writer_standard: "standard_scripts writer_node script_hash_signature"
proof -
  have "\<exists>h o1. s' = s @ h @ d \<and> one_opcode writer_node (h @ d) o1 \<and> opcode_is_push o1 \<and> \<not> opcode_is_empty o1 \<and> opcode_data o1 = d \<and>
      (length d \<le> 75 \<longrightarrow> h = [word_of_nat (length d)])" if "2 \<le> length d" "script_add_data d s = Some s'" for d s s'
  proof (cases "length d \<le> 75")
    case True
    then show ?thesis using that writer_short_push [OF that(1) True]
      by (intro exI [of _ "[word_of_nat (length d)]"] exI conjI) (auto simp: script_add_data_def)
  next
    case False
    then have "length d \<le> 255" "s' = s @ [0x4c, word_of_nat (length d)] @ d"
      using that(2) by (auto simp: script_add_data_def split: if_splits)
    then show ?thesis using False writer_long_push [of d]
      by (intro exI [of _ "[0x4c, word_of_nat (length d)]"] exI conjI) auto
  qed
  then show ?thesis using writer_plain
    by (auto simp: standard_scripts_def writer_parse_Nil script_hash_signature_def)
qed

lemma writer_signature: "one_opcode writer_node ([2] @ [7, 7])
    \<lparr>opcode_value = 2, opcode_is_empty = False, opcode_is_push = True, opcode_data = [7, 7]\<rparr>"
  using writer_short_push [of "[7, 7]"] by simp

lemma writer_tick:
  "case_stable writer_node [65]"
  "tick_from_str (char_to_uppercase writer_node) (char_is_alphanumeric writer_node) [65] = Inr tick_named_A"
proof -
  have u: "to_uppercase (char_to_uppercase writer_node) [65] = [65]"
    by (simp add: to_uppercase_def writer_node_def ascii_upper_def)
  then show "case_stable writer_node [65]"
    by (simp add: case_stable_def) (simp add: to_uppercase_def writer_node_def ascii_upper_def ascii_alphanumeric_def
        scalar_def plain_text_def)
  have p: "pad10 [65] = [65, 0, 0, 0, 0, 0, 0, 0, 0, 0]" by (simp add: pad10_def eval_nat_numeral)
  have b: "utf8_bytes [65] = [65]" by (simp add: utf8_bytes_def utf8_char_def)
  have n: "tick_new_unchecked [65, 0, 0, 0, 0, 0, 0, 0, 0, 0] = Some tick_named_A"
    by (simp add: tick_new_unchecked_def tick_named_A_def)
  show "tick_from_str (char_to_uppercase writer_node) (char_is_alphanumeric writer_node) [65] = Inr tick_named_A"
    unfolding tick_from_str_def u Let_def b p n by (simp add: writer_node_def ascii_alphanumeric_def)
qed

text \<open>The redeem script of the listing of the token 5 of the tick A by the key A, and the transaction that spends it.\<close>

definition sale_json :: bytes where
  "sale_json = utf8_bytes (send_json [97] 5)"

lemma sale_redeem:
  "\<exists>redeem. redeem_pubkey writer_node PROTOCOL_KSPR_NAMESPACE sale_json key_A = Some redeem \<and>
     script_hash_signature redeem ([2] @ [7, 7]) \<noteq> None"
proof -
  have "dec_digits 5 = [53]" by (subst dec_digits.simps) simp
  then have "length sale_json = 52"
    by (simp add: sale_json_def send_json_def member_def quoted_def ascii_def u64_to_string_def utf8_bytes_def utf8_char_def)
  then show ?thesis
    by (simp add: redeem_pubkey_def script_add_data_def script_hash_signature_def key_A_def PROTOCOL_KSPR_NAMESPACE_def)
qed

lemma sale_document: "user_operation_from_json writer_node sale_json = Inr ((blank_operation OpSend tick_named_A)\<lparr>uo_token_id := Some 5\<rparr>)"
proof -
  have l: "str_to_lowercase writer_node [65] = [97]" by (simp add: writer_node_def)
  have p: "plain_text [97]" using writer_tick(1) by (simp add: case_stable_def l)
  show ?thesis unfolding sale_json_def
    using send_json_read [OF flat_parse_plain writer_documents p case_stable_tick(2) [OF writer_tick, unfolded l]]
    by (simp add: blank_operation_def)
qed

text \<open>A transaction whose signature script ends with a script that begins with the key A.\<close>

definition listing_of_A :: context_transaction where
  "listing_of_A = sample_transaction (([2] @ [7, 7]) @ ([33] @ ([32] @ key_A))) []"

lemma listing_of_A_sender: "sender_pubkey_bytes writer_node listing_of_A = Some key_A"
proof -
  have k: "length key_A = 32" by (simp add: key_A_def)
  have o1: "one_opcode writer_node ([33] @ ([32] @ key_A))
      \<lparr>opcode_value = 33, opcode_is_empty = False, opcode_is_push = True, opcode_data = [32] @ key_A\<rparr>"
    using writer_short_push [of "[32] @ key_A"] by (simp add: k)
  have o2: "one_opcode writer_node ([32] @ key_A)
      \<lparr>opcode_value = 32, opcode_is_empty = False, opcode_is_push = True, opcode_data = key_A\<rparr>"
    using writer_short_push [of key_A] by (simp add: k)
  have p: "parse_script writer_node (([2] @ [7, 7]) @ ([33] @ ([32] @ key_A)) @ []) =
      [Inr \<lparr>opcode_value = 2, opcode_is_empty = False, opcode_is_push = True, opcode_data = [7, 7]\<rparr>,
       Inr \<lparr>opcode_value = 33, opcode_is_empty = False, opcode_is_push = True, opcode_data = [32] @ key_A\<rparr>]"
    using writer_signature o1 writer_parse_Nil unfolding one_opcode_def by metis
  have q: "parse_script writer_node (([32] @ key_A) @ []) =
      [Inr \<lparr>opcode_value = 32, opcode_is_empty = False, opcode_is_push = True, opcode_data = key_A\<rparr>]"
    using o2 writer_parse_Nil unfolding one_opcode_def by metis
  have s: "signature_script listing_of_A = Some (([2] @ [7, 7]) @ ([33] @ ([32] @ key_A)) @ [])"
    by (simp add: listing_of_A_def sample_transaction_def signature_script_def nth_opt_def)
  show ?thesis unfolding sender_pubkey_bytes_def s using p q by (simp add: nth_opt_def k)
qed

theorem listing_commits_to_its_sale_witness:
  "\<exists>info script. detect_list writer_node sample_analyzer listing_of_A ((blank_operation OpList tick_named_A)\<lparr>uo_token_id := Some 5\<rparr>) tick_named_A =
       Inr (Listing info) \<and>
     script_hash_signature (li_redeem_script info) ([2] @ [7, 7]) = Some script \<and>
     (\<forall>sigtx. tx_inputs (ct_tx sigtx) = [\<lparr>in_signature_script = script, in_previous_tx_id = 7\<rparr>] \<and>
        tx_outputs (ct_tx sigtx) = [\<lparr>out_value = 5, out_spk = Spk 0 [1]\<rparr>] \<longrightarrow>
        detect_krc721 writer_node sample_analyzer sigtx = Inr (Some
         \<lparr>op_common = operation_common_of sigtx tick_named_A (key_script writer_node key_A),
          op_info = Send \<lparr>si_token_id = 5, si_payment_amount = 5, si_buyer = None, si_listing_utxo_txid = 7\<rparr>\<rparr>))"
proof -
  obtain redeem script where r: "redeem_pubkey writer_node PROTOCOL_KSPR_NAMESPACE sale_json key_A = Some redeem"
      "script_hash_signature redeem ([2] @ [7, 7]) = Some script"
    using sale_redeem by blast
  let ?model = "(blank_operation OpList tick_named_A)\<lparr>uo_token_id := Some 5\<rparr>"
  define info where "info = \<lparr>li_token_id = 5, li_utxo_address = Spk 0 [1], li_redeem_script = redeem\<rparr>"
  have l: "str_to_lowercase writer_node [65] = [97]" by (simp add: writer_node_def)
  have "\<exists>a. compute_listing_p2sh writer_node key_A [65] 5 (address_prefix sample_analyzer) = Inr (a, redeem)"
    using r(1) by (simp add: compute_listing_p2sh_def l sale_json_def) (simp add: writer_node_def sample_node_def)
  then obtain a where c: "compute_listing_p2sh writer_node key_A [65] 5 (address_prefix sample_analyzer) = Inr (a, redeem)" by blast
  have d: "detect_list writer_node sample_analyzer listing_of_A ?model tick_named_A = Inr (Listing info)"
    by (simp add: detect_list_def blank_operation_def listing_of_A_sender case_stable_tick(1) [OF writer_tick] c ok_or_def info_def)
      (simp add: output_spk_def nth_opt_def listing_of_A_def sample_transaction_def)
  have h: "tx_hash (ct_tx listing_of_A) = 7" by (simp add: listing_of_A_def sample_transaction_def)
  have k: "length key_A = 32" by (simp add: key_A_def)
  have s: "script_hash_signature (li_redeem_script info) ([2] @ [7, 7]) = Some script" using r(2) by (simp add: info_def)
  have "detect_krc721 writer_node sample_analyzer sigtx = Inr (Some
         \<lparr>op_common = operation_common_of sigtx tick_named_A (key_script writer_node key_A),
          op_info = Send \<lparr>si_token_id = 5, si_payment_amount = 5, si_buyer = None, si_listing_utxo_txid = 7\<rparr>\<rparr>)"
    if t: "tx_inputs (ct_tx sigtx) = [\<lparr>in_signature_script = script, in_previous_tx_id = 7\<rparr>]"
      "tx_outputs (ct_tx sigtx) = [\<lparr>out_value = 5, out_spk = Spk 0 [1]\<rparr>]" for sigtx
    using listing_commits_to_its_sale [OF writer_standard flat_parse_plain writer_documents writer_tick d listing_of_A_sender k
        writer_signature s t(1) [folded h] t(2), of sample_analyzer] by (simp add: info_def h)
  with d s show ?thesis by blast
qed

definition sample_signing :: "(nat, unit) signing" where
  "sample_signing = \<lparr>sg_sign = \<lambda>_ _ _ _. [2] @ [7, 7], sg_tx_id = \<lambda>_ _. 7\<rparr>"

theorem revealed_inscription_is_read_as_written_witness:
  "\<exists>redeem tx. redeem_pubkey writer_node PROTOCOL_KSPR_NAMESPACE sale_json key_A = Some redeem \<and>
     reveal_transaction writer_node script_hash_signature sample_signing
       \<lparr>td_script_sig = redeem, td_recipient = 0, td_secret_key = (), td_prev_tx_tid = 3\<rparr> 5 1 = Some tx \<and>
     detect_krc721 writer_node sample_analyzer ((sample_transaction [] [])\<lparr>ct_tx := tx\<rparr>) =
       operation_of_inscription writer_node sample_analyzer ((sample_transaction [] [])\<lparr>ct_tx := tx\<rparr>)
         ((blank_operation OpSend tick_named_A)\<lparr>uo_token_id := Some 5\<rparr>) (key_script writer_node key_A)"
proof -
  obtain redeem script where r: "redeem_pubkey writer_node PROTOCOL_KSPR_NAMESPACE sale_json key_A = Some redeem"
      "script_hash_signature redeem ([2] @ [7, 7]) = Some script"
    using sale_redeem by blast
  let ?details = "\<lparr>td_script_sig = redeem, td_recipient = 0, td_secret_key = (), td_prev_tx_tid = 3\<rparr>"
  obtain tx where tx: "reveal_transaction writer_node script_hash_signature sample_signing ?details 5 1 = Some tx"
    using r(2) by (simp add: reveal_transaction_def sample_signing_def)
  let ?sigtx = "(sample_transaction [] [])\<lparr>ct_tx := tx\<rparr>"
  obtain pre post where j: "sale_json = pre @ KRC721_HEADER_UC @ post"
    unfolding sale_json_def using send_json_names_the_protocol by blast
  have k: "length key_A = 32" by (simp add: key_A_def)
  note m = sale_document
  have s: "\<exists>o1. one_opcode writer_node (sg_sign sample_signing key t amount lock) o1" for key t amount lock
    using writer_signature by (auto simp: sample_signing_def)
  have r': "redeem_pubkey writer_node PROTOCOL_KSPR_NAMESPACE sale_json key_A = Some (td_script_sig ?details)" using r(1) by simp
  have t: "reveal_transaction writer_node script_hash_signature sample_signing ?details 5 1 = Some (ct_tx ?sigtx)" using tx by simp
  from revealed_inscription_is_read_as_written [OF writer_standard r' k j m s t, of sample_analyzer] r(1) tx show ?thesis
    by blast
qed

end
