(* ===== verification/Config.thy ===== *)
theory Config
  imports Inscriptions Messages
begin

text \<open>
  The configuration of an indexer (\<^verbatim>\<open>krc721d/src/config.rs\<close>) and the block it starts from (\<^verbatim>\<open>krc721d.rs\<close>): the section of the
  network in \<^verbatim>\<open>krc721d.toml\<close> with the restricted ticks, the accepted protocols and the score from which ECDSA
  keys count. The TOML reader and the reader of hashes are arguments; tables are listed in the order in
  which the library iterates over them. Numbers of TOML have 64 bits.
\<close>

section \<open>Documents\<close>

datatype toml = TString ustring | TInteger u64 | TArray "toml list" | TTable "(ustring \<times> toml) list" | TOther

fun as_str :: "toml \<Rightarrow> ustring option" where
  "as_str (TString s) = Some s" | "as_str _ = None"

fun as_integer :: "toml \<Rightarrow> u64 option" where
  "as_integer (TInteger i) = Some i" | "as_integer _ = None"

fun as_array :: "toml \<Rightarrow> toml list option" where
  "as_array (TArray xs) = Some xs" | "as_array _ = None"

fun as_table :: "toml \<Rightarrow> (ustring \<times> toml) list option" where
  "as_table (TTable t) = Some t" | "as_table _ = None"

definition network_to_string :: "network \<Rightarrow> ustring" where
  "network_to_string network = (case network of Mainnet \<Rightarrow> ascii ''mainnet'' | Testnet10 \<Rightarrow> ascii ''testnet-10'')"

definition network_from_str :: "ustring \<Rightarrow> network option" where
  "network_from_str s =
     (if s = ascii ''mainnet'' then Some Mainnet else if s = ascii ''testnet-10'' then Some Testnet10 else None)"

lemma network_from_to: "network_from_str (network_to_string n) = Some n"
  by (cases n) (simp_all add: network_from_str_def network_to_string_def ascii_def)

lemma network_from_str_Some: "network_from_str s = Some n \<longleftrightarrow> s = network_to_string n"
  by (cases n) (auto simp: network_from_str_def network_to_string_def ascii_def)

section \<open>Configurations\<close>

record indexer_config =
  ic_genesis :: "hash option"
  ic_restricted_tokens :: "tick \<rightharpoonup> spk"
  ic_restricted_protocols :: "ustring list"
  ic_daa_ecdsa_fix :: u64

datatype config_error = TomlError | InvalidNetworkSection ustring | InvalidHash | InvalidTick tick_error | InvalidAddress string

datatype config_failure = ConfigError config_error | ConfigPanic string

record config_readers =
  cr_toml_from_str :: "ustring \<Rightarrow> toml option"
  cr_hash_from_str :: "ustring \<Rightarrow> hash option"

definition default_address_text :: ustring where
  "default_address_text = ascii ''kaspatest:qqqqqqqqqqqqqqqqqqqqqqqqqqqqqqqqqqqqqqqqqqqqqqqqqqqqqhqrxplya''"

definition genesis_of :: "config_readers \<Rightarrow> (ustring \<times> toml) list \<Rightarrow> hash option \<Rightarrow> config_failure + hash option" where
  "genesis_of cr network_table genesis =
     (case Option.bind (map_of network_table (ascii ''genesis'')) as_str of
        None \<Rightarrow> Inr genesis
      | Some hash_str \<Rightarrow>
         (case cr_hash_from_str cr hash_str of
            None \<Rightarrow> Inl (ConfigError InvalidHash)
          | Some h \<Rightarrow> Inr (if h \<noteq> 0 then Some h else genesis)))"

fun add_protocols :: "toml list \<Rightarrow> ustring list \<Rightarrow> ustring list" where
  "add_protocols [] acc = acc"
| "add_protocols (p # ps) acc =
     (case as_str p of
        Some s \<Rightarrow> add_protocols ps (if s \<in> set acc then acc else acc @ [s])
      | None \<Rightarrow> add_protocols ps acc)"

definition protocols_of :: "(ustring \<times> toml) list \<Rightarrow> ustring list \<Rightarrow> ustring list" where
  "protocols_of network_table acc =
     (case Option.bind (map_of network_table (ascii ''protocols'')) as_array of
        None \<Rightarrow> acc | Some protocols \<Rightarrow> add_protocols protocols acc)"

definition restricted_address :: "('a, 'p) node \<Rightarrow> 'a \<Rightarrow> toml \<Rightarrow> config_failure + 'a" where
  "restricted_address node default_address v =
     (case as_str v of
        Some address_str \<Rightarrow>
          if address_str = [] then Inr default_address
          else (case address_try_from node address_str of Inl e \<Rightarrow> Inl (ConfigError (InvalidAddress e)) | Inr a \<Rightarrow> Inr a)
      | None \<Rightarrow> Inr default_address)"

fun restrict_loop ::
  "('a, 'p) node \<Rightarrow> 'a \<Rightarrow> (ustring \<times> toml) list \<Rightarrow> (tick \<rightharpoonup> spk) \<Rightarrow> config_failure + (tick \<rightharpoonup> spk)" where
  "restrict_loop node default_address [] tokens = Inr tokens"
| "restrict_loop node default_address ((name, v) # entries) tokens =
     (case tick_from_str (char_to_uppercase node) (char_is_alphanumeric node) name of
        Inl e \<Rightarrow> Inl (ConfigError (InvalidTick e))
      | Inr t \<Rightarrow>
          and_then (restricted_address node default_address v) (\<lambda>address.
          restrict_loop node default_address entries (tokens(t \<mapsto> pay_to_address_script node address))))"

definition restrictions_of ::
  "('a, 'p) node \<Rightarrow> (ustring \<times> toml) list \<Rightarrow> (tick \<rightharpoonup> spk) \<Rightarrow> config_failure + (tick \<rightharpoonup> spk)" where
  "restrictions_of node network_table tokens =
     (case Option.bind (map_of network_table (ascii ''restrict'')) as_table of
        None \<Rightarrow> Inr tokens
      | Some restrict_table \<Rightarrow>
         (case address_try_from node default_address_text of
            Inl _ \<Rightarrow> Inl (ConfigPanic ''unwrap'')
          | Inr default_address \<Rightarrow> restrict_loop node default_address restrict_table tokens))"

text \<open>The body of the loop for the section of the network.\<close>

definition read_section ::
  "config_readers \<Rightarrow> ('a, 'p) node \<Rightarrow> (ustring \<times> toml) list \<Rightarrow> indexer_config \<Rightarrow> config_failure + indexer_config" where
  "read_section cr node network_table c =
     and_then (genesis_of cr network_table (ic_genesis c)) (\<lambda>genesis.
     let protocols = protocols_of network_table (ic_restricted_protocols c) in
     and_then (restrictions_of node network_table (ic_restricted_tokens c)) (\<lambda>tokens.
     case Option.bind (map_of network_table (ascii ''daa_ecdsa_fix'')) as_integer of
       None \<Rightarrow> Inl (ConfigPanic ''DAA ECDSA fix must be specified'')
     | Some fix_score \<Rightarrow> Inr \<lparr>ic_genesis = genesis, ic_restricted_tokens = tokens, ic_restricted_protocols = protocols,
                          ic_daa_ecdsa_fix = fix_score\<rparr>))"

fun sections_loop ::
  "config_readers \<Rightarrow> ('a, 'p) node \<Rightarrow> network \<Rightarrow> (ustring \<times> toml) list \<Rightarrow> indexer_config \<Rightarrow> config_failure + indexer_config" where
  "sections_loop cr node network [] c = Inr c"
| "sections_loop cr node network ((network_str, network_value) # sections) c =
     (if network_from_str network_str \<noteq> Some network then sections_loop cr node network sections c
      else (case as_table network_value of
              None \<Rightarrow> Inl (ConfigError (InvalidNetworkSection network_str))
            | Some network_table \<Rightarrow> and_then (read_section cr node network_table c) (sections_loop cr node network sections)))"

definition empty_config :: indexer_config where
  "empty_config = \<lparr>ic_genesis = None, ic_restricted_tokens = Map.empty, ic_restricted_protocols = [], ic_daa_ecdsa_fix = - 1\<rparr>"

definition parse_config ::
  "config_readers \<Rightarrow> ('a, 'p) node \<Rightarrow> ustring \<Rightarrow> network \<Rightarrow> config_failure + indexer_config" where
  "parse_config cr node toml_str network =
     (case cr_toml_from_str cr toml_str of
        None \<Rightarrow> Inl (ConfigError TomlError)
      | Some v \<Rightarrow>
          and_then (sections_loop cr node network (case as_table v of Some t \<Rightarrow> t | None \<Rightarrow> []) empty_config) (\<lambda>c.
          Inr (if ic_restricted_protocols c = [] then c\<lparr>ic_restricted_protocols := [ascii ''ipfs'']\<rparr> else c)))"

text \<open>\<^verbatim>\<open>locate_config\<close>: the file in the nearest folder above the program, the folders being given from it upwards.\<close>

definition locate_config :: "('f \<Rightarrow> bool) \<Rightarrow> 'f list \<Rightarrow> 'f option" where
  "locate_config has_config parents = List.find has_config parents"

section \<open>Start of the indexer\<close>

text \<open>The analyzer of the configuration, after the option of the command line.\<close>

definition apply_daa_ecdsa_fix :: "u64 option \<Rightarrow> indexer_config \<Rightarrow> indexer_config" where
  "apply_daa_ecdsa_fix arg c = (case arg of Some x \<Rightarrow> c\<lparr>ic_daa_ecdsa_fix := x\<rparr> | None \<Rightarrow> c)"

definition analyzer_of :: "indexer_config \<Rightarrow> 'p \<Rightarrow> 'p analyzer" where
  "analyzer_of c prfx =
     \<lparr>restricted_tokens = ic_restricted_tokens c, address_prefix = prfx, restricted_protocols = ic_restricted_protocols c,
      daa_ecdsa_fix = ic_daa_ecdsa_fix c\<rparr>"

definition start_block :: "db \<Rightarrow> hash option \<Rightarrow> blue_hash_key option" where
  "start_block d genesis_block_hash =
     (case last_accepted_block (chain_block_scores d) of
        Some b \<Rightarrow> Some b
      | None \<Rightarrow> map_option (BlueScoredChainBlockHash 0) genesis_block_hash)"

text \<open>\<^verbatim>\<open>--init-genesis=<blue score>:<hash>\<close>.\<close>

definition init_genesis_block :: "config_readers \<Rightarrow> ustring \<Rightarrow> db \<Rightarrow> config_failure + db" where
  "init_genesis_block cr init_genesis d =
     (case split_once 58 init_genesis of
        None \<Rightarrow> Inl (ConfigPanic ''unwrap'')
      | Some (blue_score, block_hash) \<Rightarrow>
         (case cr_hash_from_str cr block_hash of
            None \<Rightarrow> Inl (ConfigError InvalidHash)
          | Some h \<Rightarrow>
             (case u64_from_str blue_score of
                None \<Rightarrow> Inl (ConfigPanic ''unwrap'')
              | Some s \<Rightarrow> Inr (d\<lparr>chain_block_scores := part_insert (BlueScoredChainBlockHash s h) () (chain_block_scores d)\<rparr>))))"

section \<open>What a configuration means\<close>

lemma sections_other:
  "\<forall>(k, v) \<in> set sections. network_from_str k \<noteq> Some network \<Longrightarrow> sections_loop cr node network sections c = Inr c"
  by (induction sections arbitrary: c) auto

lemma sections_one:
  assumes "\<forall>(k, v) \<in> set before. network_from_str k \<noteq> Some network" "\<forall>(k, v) \<in> set later. network_from_str k \<noteq> Some network"
    and "network_from_str k = Some network"
  shows "sections_loop cr node network (before @ (k, TTable t) # later) c = read_section cr node t c"
proof -
  have "sections_loop cr node network (before @ rest) c = sections_loop cr node network rest c" for rest
    using assms(1) by (induction before) auto
  then show ?thesis using assms(3) sections_other [OF assms(2)]
    by (cases "read_section cr node t c") simp_all
qed

lemma restrict_loop_keeps:
  "restrict_loop node da es ts = Inr ts' \<Longrightarrow>
   \<forall>(n, v) \<in> set es. tick_from_str (char_to_uppercase node) (char_is_alphanumeric node) n \<noteq> Inr t \<Longrightarrow> ts' t = ts t"
proof (induction es arbitrary: ts)
  case (Cons e es)
  obtain n v where e: "e = (n, v)" by fastforce
  obtain u a where "tick_from_str (char_to_uppercase node) (char_is_alphanumeric node) n = Inr u"
      and "restrict_loop node da es (ts(u \<mapsto> pay_to_address_script node a)) = Inr ts'"
    using Cons.prems(1) by (auto simp: e and_then_Inr_iff split: sum.splits)
  then show ?case using Cons.IH Cons.prems(2) by (fastforce simp: e)
qed simp

lemma restrict_loop_last:
  assumes "restrict_loop node da (entries @ (name, v) # others) tokens = Inr tokens'"
    and "tick_from_str (char_to_uppercase node) (char_is_alphanumeric node) name = Inr t"
    and "\<forall>(n, w) \<in> set others. tick_from_str (char_to_uppercase node) (char_is_alphanumeric node) n \<noteq> Inr t"
  shows "\<exists>a. restricted_address node da v = Inr a \<and> tokens' t = Some (pay_to_address_script node a)"
  using assms(1)
proof (induction entries arbitrary: tokens)
  case Nil
  then obtain a where "restricted_address node da v = Inr a"
      and "restrict_loop node da others (tokens(t \<mapsto> pay_to_address_script node a)) = Inr tokens'"
    using assms(2) by (auto simp: and_then_Inr_iff)
  then show ?case using restrict_loop_keeps [of node da others _ tokens' t] assms(3) by fastforce
next
  case (Cons e entries)
  obtain n w where e: "e = (n, w)" by fastforce
  obtain ts where "restrict_loop node da (entries @ (name, v) # others) ts = Inr tokens'"
    using Cons.prems by (auto simp: e and_then_Inr_iff split: sum.splits)
  then show ?case by (rule Cons.IH)
qed

lemma parse_configD:
  assumes "parse_config cr node toml_str network = Inr c"
  shows "\<exists>v c0. cr_toml_from_str cr toml_str = Some v \<and>
    sections_loop cr node network (case as_table v of Some t \<Rightarrow> t | None \<Rightarrow> []) empty_config = Inr c0 \<and>
    c = (if ic_restricted_protocols c0 = [] then c0\<lparr>ic_restricted_protocols := [ascii ''ipfs'']\<rparr> else c0)"
proof (cases "cr_toml_from_str cr toml_str")
  case (Some v)
  then show ?thesis
    using assms unfolding parse_config_def by (cases "sections_loop cr node network (case as_table v of Some t \<Rightarrow> t | None \<Rightarrow> []) empty_config") auto
qed (use assms in \<open>simp add: parse_config_def\<close>)

text \<open>C8: A tick that the section of the network restricts to an address is deployed by that address only: whatever a
  transaction inscribes, the analyzer of the configuration accepts no deployment of it from another sender.\<close>

theorem restricted_ticks_are_deployed_by_their_holders:
  assumes "parse_config cr node toml_str network = Inr c"
    and "cr_toml_from_str cr toml_str = Some (TTable (before @ (k, TTable section) # later))"
    and "network_from_str k = Some network"
    and "\<forall>(k, v) \<in> set before. network_from_str k \<noteq> Some network" and "\<forall>(k, v) \<in> set later. network_from_str k \<noteq> Some network"
    and "map_of section (ascii ''restrict'') = Some (TTable (entries @ (name, TString holder) # others))" and "holder \<noteq> []"
    and "tick_from_str (char_to_uppercase node) (char_is_alphanumeric node) name = Inr t"
    and "\<forall>(n, v) \<in> set others. tick_from_str (char_to_uppercase node) (char_is_alphanumeric node) n \<noteq> Inr t"
    and "detect_krc721 node (analyzer_of (apply_daa_ecdsa_fix arg c) prfx) sigtx = Inr (Some x)"
    and "op_info x = Deploy info" and "oc_tick (op_common x) = t"
  shows "\<exists>address. address_try_from node holder = Inr address \<and> oc_sender (op_common x) = pay_to_address_script node address"
proof -
  obtain c0 where c0: "read_section cr node section empty_config = Inr c0" "ic_restricted_tokens c = ic_restricted_tokens c0"
    using parse_configD [OF assms(1)] assms(2) by (auto simp: sections_one [OF assms(4,5,3)])
  then obtain tokens where "restrictions_of node section Map.empty = Inr tokens" and t0: "ic_restricted_tokens c0 = tokens"
    by (auto simp: read_section_def Let_def and_then_Inr_iff empty_config_def split: option.splits)
  then obtain da where l: "restrict_loop node da (entries @ (name, TString holder) # others) Map.empty = Inr tokens"
    using assms(6) by (auto simp: restrictions_of_def split: sum.splits)
  obtain a where a: "restricted_address node da (TString holder) = Inr a" "tokens t = Some (pay_to_address_script node a)"
    using restrict_loop_last [OF l assms(8,9)] by blast
  then have "address_try_from node holder = Inr a" using assms(7) by (auto simp: restricted_address_def split: sum.splits)
  moreover have "restricted_tokens (analyzer_of (apply_daa_ecdsa_fix arg c) prfx) (oc_tick (op_common x)) =
      Some (pay_to_address_script node a)"
    using a(2) c0(2) t0 assms(12) by (simp add: analyzer_of_def apply_daa_ecdsa_fix_def split: option.split)
  ultimately show ?thesis using detected_operation_facts [OF assms(10)] assms(11) by blast
qed

text \<open>A configuration that restricts the tick A to the holder of a key, and a deployment of the tick A by that key.\<close>

definition sample_section :: "(ustring \<times> toml) list" where
  "sample_section = [(ascii ''protocols'', TArray [TString []]), (ascii ''restrict'', TTable [([65], TString [104])]),
     (ascii ''daa_ecdsa_fix'', TInteger 0)]"

definition sample_readers :: config_readers where
  "sample_readers = \<lparr>cr_toml_from_str = \<lambda>_. Some (TTable [(ascii ''mainnet'', TTable sample_section)]), cr_hash_from_str = \<lambda>_. None\<rparr>"

definition key_holder :: spk where "key_holder = Spk 0 (0x20 # key_A @ [0xac])"

definition holder_node :: "(nat, nat) node" where
  "holder_node = sample_node\<lparr>user_operation_from_json := \<lambda>_. Inr (sample_deploy 10 2), address_try_from := \<lambda>_. Inr 0,
     pay_to_address_script := \<lambda>_. key_holder\<rparr>"

definition deploying :: context_transaction where
  "deploying = (sample_transaction (sample_script key_A []) [])\<lparr>ct_fee := 102000000000\<rparr>"

definition sample_config :: indexer_config where
  "sample_config = \<lparr>ic_genesis = None, ic_restricted_tokens = [tick_named_A \<mapsto> key_holder], ic_restricted_protocols = [[]],
     ic_daa_ecdsa_fix = 0\<rparr>"

lemma holder_tick:
  "tick_str tick_named_A = Inr [65]"
  "tick_from_str (char_to_uppercase holder_node) (char_is_alphanumeric holder_node) [65] = Inr tick_named_A"
  using sample_tick by (simp_all add: holder_node_def sample_mint_def tick_named_A_def)

lemma holder_node_fields:
  "address_try_from holder_node t = Inr 0" "pay_to_address_script holder_node a = key_holder"
  by (simp_all add: holder_node_def)

lemma sample_config_parsed: "parse_config sample_readers holder_node [] Mainnet = Inr sample_config"
proof -
  have r: "restrictions_of holder_node sample_section Map.empty = Inr [tick_named_A \<mapsto> key_holder]"
    by (simp add: restrictions_of_def sample_section_def ascii_def restricted_address_def holder_tick holder_node_fields)
  have "read_section sample_readers holder_node sample_section empty_config = Inr sample_config"
    by (simp add: read_section_def empty_config_def r sample_config_def)
      (simp add: genesis_of_def protocols_of_def sample_section_def ascii_def sample_readers_def)
  then show ?thesis
    by (simp add: parse_config_def sample_readers_def network_from_str_def) (simp add: sample_config_def)
qed

lemma holder_parse: "parse_script holder_node = parse_script sample_node"
proof
  fix s show "parse_script holder_node s = parse_script sample_node s"
  proof (induction s rule: length_induct)
    case (1 s)
    have "deserialize_next_opcode holder_node = deserialize_next_opcode sample_node" by (simp add: holder_node_def)
    then show ?case using 1 by (subst (1 2) parse_script.simps) (auto split: option.split)
  qed
qed

lemma deployment_detected:
  "detect_krc721 holder_node (analyzer_of (apply_daa_ecdsa_fix None sample_config) 0) deploying =
    Inr (Some \<lparr>op_common = operation_common_of deploying tick_named_A key_holder, op_info = Deploy (deploy_result key_holder 10 2)\<rparr>)"
proof -
  let ?an = "analyzer_of (apply_daa_ecdsa_fix None sample_config) (0::nat)"
  have o: "OpFalse holder_node = OpFalse sample_node" "OpTrue holder_node = OpTrue sample_node" "OpIf holder_node = OpIf sample_node"
      "OpEndIf holder_node = OpEndIf sample_node" by (simp_all add: holder_node_def)
  have v: "validate_redeem_envelope holder_node = validate_redeem_envelope sample_node"
    by (rule ext) (simp add: validate_redeem_envelope_def validate_common_opcodes_def validate_optional_content_def
        validate_mandatory_content_def o)
  have "detect_envelope holder_node deploying = detect_envelope sample_node (sample_transaction (sample_script key_A []) [])"
    unfolding detect_envelope_def holder_parse v by (simp add: signature_script_def deploying_def)
  also have "\<dots> = Inr (Some (sample_opcodes key_A))"
    by (rule sample_envelope_detected) (simp_all add: key_A_def)
  finally have e: "detect_envelope holder_node deploying = Inr (Some (sample_opcodes key_A))" .
  have s: "reveal_sender holder_node ?an deploying (sample_opcodes key_A ! 0) (sample_opcodes key_A ! 1) = Inr key_holder"
    by (simp add: reveal_sender_def sample_opcodes_def plain_opcode_def push_opcode_def pay_to_pub_key_def sample_node_def key_A_def
        holder_node_def key_holder_def)
  have d: "detect_deploy ?an deploying (sample_deploy 10 2) tick_named_A None b key_holder = Inr (Deploy (deploy_result key_holder 10 2))" for b
    by (simp add: detect_deploy_iff analyzer_of_def apply_daa_ecdsa_fix_def sample_config_def sample_deploy_def deploying_def
        royalty_of_fee_def deploy_result_def KSPR_FEE_DEPLOY_def KSPR_FEE_MINT_def SOMPI_PER_KASPA_def word_le_nat_alt)
  have m: "user_operation_from_json holder_node j = Inr (sample_deploy 10 2)" for j by (simp add: holder_node_def)
  have u: "uo_op (sample_deploy 10 2) = OpDeploy" "uo_tick (sample_deploy 10 2) = tick_named_A"
      "uo_to (sample_deploy 10 2) = None" "uo_royalty_to (sample_deploy 10 2) = None"
    by (simp_all add: sample_deploy_def)
  show ?thesis
    by (simp add: detect_krc721_def e s [unfolded One_nat_def] m u d resolve_address_def holder_tick Let_def map_err_def)
qed

theorem restricted_ticks_are_deployed_by_their_holders_witness:
  "\<exists>c x address. parse_config sample_readers holder_node [] Mainnet = Inr c \<and>
     detect_krc721 holder_node (analyzer_of (apply_daa_ecdsa_fix None c) 0) deploying = Inr (Some x) \<and>
     address_try_from holder_node [104] = Inr address \<and> oc_sender (op_common x) = pay_to_address_script holder_node address"
proof -
  have d: "cr_toml_from_str sample_readers [] = Some (TTable ([] @ (ascii ''mainnet'', TTable sample_section) # []))"
      "network_from_str (ascii ''mainnet'') = Some Mainnet"
      "map_of sample_section (ascii ''restrict'') = Some (TTable ([] @ ([65], TString [104]) # []))"
    by (simp_all add: sample_readers_def network_from_str_def sample_section_def ascii_def)
  have "\<exists>address. address_try_from holder_node [104] = Inr address \<and>
      oc_sender (op_common \<lparr>op_common = operation_common_of deploying tick_named_A key_holder,
        op_info = Deploy (deploy_result key_holder 10 2)\<rparr>) = pay_to_address_script holder_node address"
    by (rule restricted_ticks_are_deployed_by_their_holders [OF sample_config_parsed d(1,2) _ _ d(3) _ holder_tick(2) _ deployment_detected])
      (simp_all add: operation_common_of_def)
  with sample_config_parsed deployment_detected show ?thesis by blast
qed

text \<open>Without a section for the network nothing is restricted: every tick can be deployed by anybody, the protocol is
  the default one, and ECDSA keys never count.\<close>

theorem missing_section_restricts_nothing:
  assumes "cr_toml_from_str cr toml_str = Some (TTable sections)" and "\<forall>(k, v) \<in> set sections. network_from_str k \<noteq> Some network"
  shows "parse_config cr node toml_str network =
    Inr \<lparr>ic_genesis = None, ic_restricted_tokens = Map.empty, ic_restricted_protocols = [ascii ''ipfs''], ic_daa_ecdsa_fix = - 1\<rparr>"
  using assms by (simp add: parse_config_def sections_other empty_config_def)

text \<open>A section that leaves out the score for ECDSA keys does not give an error but a panic.\<close>

theorem section_without_score_panics:
  assumes "genesis_of cr section (ic_genesis c) = Inr genesis" and "restrictions_of node section (ic_restricted_tokens c) = Inr tokens"
    and "map_of section (ascii ''daa_ecdsa_fix'') = None"
  shows "read_section cr node section c = Inl (ConfigPanic ''DAA ECDSA fix must be specified'')"
  using assms by (simp add: read_section_def)

text \<open>The accepted protocols are never empty, and each is named once.\<close>

lemma add_protocols_distinct: "distinct acc \<Longrightarrow> distinct (add_protocols ps acc)"
  by (induction ps arbitrary: acc) (auto split: option.split)

lemma sections_protocols:
  "sections_loop cr node network sections c = Inr c' \<Longrightarrow> distinct (ic_restricted_protocols c) \<Longrightarrow> distinct (ic_restricted_protocols c')"
proof (induction sections arbitrary: c)
  case (Cons e sections)
  obtain k v where e: "e = (k, v)" by fastforce
  show ?case
  proof (cases "network_from_str k = Some network")
    case True
    then obtain t c1 where "read_section cr node t c = Inr c1" "sections_loop cr node network sections c1 = Inr c'"
      using Cons.prems(1) by (auto simp: e and_then_Inr_iff split: option.splits)
    moreover from this(1) have "ic_restricted_protocols c1 = protocols_of t (ic_restricted_protocols c)"
      by (auto simp: read_section_def Let_def and_then_Inr_iff split: option.splits)
    ultimately show ?thesis using Cons.IH Cons.prems(2)
      by (simp add: protocols_of_def add_protocols_distinct split: option.splits)
  qed (use Cons in \<open>simp add: e\<close>)
qed simp

theorem protocols_are_named_once:
  assumes "parse_config cr node toml_str network = Inr c"
  shows "ic_restricted_protocols c \<noteq> [] \<and> distinct (ic_restricted_protocols c)"
proof -
  obtain sections c0 where "sections_loop cr node network sections empty_config = Inr c0"
      and "c = (if ic_restricted_protocols c0 = [] then c0\<lparr>ic_restricted_protocols := [ascii ''ipfs'']\<rparr> else c0)"
    using parse_configD [OF assms] by auto
  moreover from this(1) have "distinct (ic_restricted_protocols c0)" by (rule sections_protocols) (simp add: empty_config_def)
  ultimately show ?thesis by simp
qed

text \<open>An initialised database starts at the block it was given, whatever the configuration says of the genesis.\<close>

theorem initialised_database_starts_at_its_block:
  assumes "split_once 58 init_genesis = Some (score_text, hash_text)" and "u64_from_str score_text = Some score"
    and "cr_hash_from_str cr hash_text = Some block" and "part_keys (chain_block_scores d) = {}"
  shows "\<exists>d'. init_genesis_block cr init_genesis d = Inr d' \<and>
    start_block d' genesis = Some (BlueScoredChainBlockHash score block)"
proof -
  let ?b = "BlueScoredChainBlockHash score block"
  let ?p = "part_insert ?b () (chain_block_scores d)"
  have keys: "part_keys ?p = {?b}" using assms(4) by (auto simp: part_keys_def)
  then obtain k where "part_last_key ?p = Some k" using part_last_key_None_iff [of ?p] by auto
  moreover from this have "k \<in> part_keys ?p" by (rule part_last_key_SomeD)
  ultimately show ?thesis using assms(1-3) keys by (simp add: init_genesis_block_def start_block_def last_accepted_block_def)
qed

end
