(* ===== verification/Services.thy ===== *)
theory Services
  imports Prelude
begin

text \<open>
  The life of the services of the daemon (\<^verbatim>\<open>core/src/runtime/runtime.rs\<close>): they are started in the order in which
  they were bound, told to stop in the same order, and joined in the reverse one. What a service does is
  left out; the runtime keeps a list of the calls it has made.
\<close>

section \<open>The runtime\<close>

datatype 's service_call = Spawn 's | Terminate 's | Join 's

text \<open>The channel of the termination holds one message.\<close>

record 's runtime =
  rt_services :: "'s list"
  rt_is_running :: bool
  rt_termination :: bool
  rt_calls :: "'s service_call list"

definition runtime_default :: "'s runtime" where
  "runtime_default = \<lparr>rt_services = [], rt_is_running = False, rt_termination = False, rt_calls = []\<rparr>"

definition bind_service :: "'s \<Rightarrow> 's runtime \<Rightarrow> 's runtime" where
  "bind_service service r = r\<lparr>rt_services := rt_services r @ [service]\<rparr>"

definition called :: "'s service_call list \<Rightarrow> 's runtime \<Rightarrow> 's runtime" where
  "called cs r = r\<lparr>rt_calls := rt_calls r @ cs\<rparr>"

definition stop_services :: "'s list option \<Rightarrow> 's runtime \<Rightarrow> 's runtime" where
  "stop_services services r =
     called (map Terminate (case services of Some ss \<Rightarrow> ss | None \<Rightarrow> rt_services r)) r"

definition join_services :: "'s list option \<Rightarrow> 's runtime \<Rightarrow> 's runtime" where
  "join_services services r =
     called (map Join (rev (case services of Some ss \<Rightarrow> ss | None \<Rightarrow> rt_services r))) r"

text \<open>Starting a service succeeds or gives an error.\<close>

fun start_loop :: "('s \<Rightarrow> 'e option) \<Rightarrow> 's list \<Rightarrow> 's list \<Rightarrow> 's runtime \<Rightarrow> ('e + unit) \<times> 's runtime" where
  "start_loop spawns active [] r = (Inr (), r)"
| "start_loop spawns active (service # services) r =
     (let r = called [Spawn service] r in
      case spawns service of
        None \<Rightarrow> start_loop spawns (active @ [service]) services r
      | Some err \<Rightarrow> (Inl err, join_services (Some active) (stop_services (Some active) r)))"

definition start_services :: "('s \<Rightarrow> 'e option) \<Rightarrow> 's runtime \<Rightarrow> ('e + unit) \<times> 's runtime" where
  "start_services spawns r = start_loop spawns [] (rt_services r) r"

definition runtime_start :: "('s \<Rightarrow> 'e option) \<Rightarrow> 's runtime \<Rightarrow> ('e + unit) \<times> 's runtime" where
  "runtime_start spawns r = start_services spawns (r\<lparr>rt_is_running := True\<rparr>)"

definition runtime_shutdown :: "'s runtime \<Rightarrow> 's runtime" where
  "runtime_shutdown r =
     (if rt_is_running r then join_services None (stop_services None (r\<lparr>rt_is_running := False\<rparr>)) else r)"

text \<open>\<^verbatim>\<open>try_send(()).unwrap()\<close>: a panic when the channel is full.\<close>

definition runtime_terminate :: "'s runtime \<Rightarrow> 's runtime res" where
  "runtime_terminate r =
     (if rt_termination r then Inl (Panic ''called Result::unwrap on an Err value: Full'') else Inr (r\<lparr>rt_termination := True\<rparr>))"

text \<open>The run up to the wait for the termination, and behind it: the task that waits shuts down.\<close>

definition runtime_terminated :: "'s runtime \<Rightarrow> 's runtime option" where
  "runtime_terminated r = (if rt_termination r then Some (runtime_shutdown (r\<lparr>rt_termination := False\<rparr>)) else None)"

text \<open>The handler of an interrupt, with the number of interrupts before: \<^verbatim>\<open>None\<close> where the process exits.\<close>

definition handle_interrupt :: "u64 \<Rightarrow> 's runtime \<Rightarrow> u64 \<times> 's runtime res option" where
  "handle_interrupt iterations r =
     (iterations + 1, if iterations = 0 then Some (runtime_terminate r) else None)"

section \<open>Who is stopped\<close>

lemma start_loop_all:
  "\<forall>s \<in> set ss. spawns s = None \<Longrightarrow>
   start_loop spawns active ss r = (Inr (), r\<lparr>rt_calls := rt_calls r @ map Spawn ss\<rparr>)"
  by (induction ss arbitrary: active r) (simp_all add: called_def)

lemma start_loop_fails:
  "\<forall>s \<in> set ss. spawns s = None \<Longrightarrow> spawns b = Some err \<Longrightarrow>
   start_loop spawns active (ss @ b # later) r =
     (Inl err, r\<lparr>rt_calls := rt_calls r @ map Spawn (ss @ [b]) @ map Terminate (active @ ss) @ map Join (rev (active @ ss))\<rparr>)"
  by (induction ss arbitrary: active r) (simp_all add: called_def stop_services_def join_services_def)

text \<open>When every service starts, a termination stops all of them, once, and waits for all; when one does not, exactly
  those started before it are stopped and waited for, and the later ones are never started.\<close>

theorem started_services_are_stopped:
  assumes "r = fold bind_service services runtime_default"
  shows "(\<forall>s \<in> set services. spawns s = None) \<Longrightarrow> runtime_start spawns r = (Inr (), r1) \<Longrightarrow> runtime_terminate r1 = Inr r2 \<Longrightarrow>
      map_option rt_calls (runtime_terminated r2) = Some (map Spawn services @ map Terminate services @ map Join (rev services))"
    and "services = before @ b # later \<Longrightarrow> (\<forall>s \<in> set before. spawns s = None) \<Longrightarrow> spawns b = Some err \<Longrightarrow>
      fst (runtime_start spawns r) = Inl err \<and>
      rt_calls (snd (runtime_start spawns r)) = map Spawn (before @ [b]) @ map Terminate before @ map Join (rev before)"
proof -
  have f: "fold bind_service ss q = q\<lparr>rt_services := rt_services q @ ss\<rparr>" for ss and q :: "'a runtime"
    by (induction ss arbitrary: q) (simp_all add: bind_service_def)
  have r: "rt_services r = services" "rt_calls r = []" "\<not> rt_termination r"
    by (simp_all add: assms f runtime_default_def)
  show "map_option rt_calls (runtime_terminated r2) = Some (map Spawn services @ map Terminate services @ map Join (rev services))"
    if "\<forall>s \<in> set services. spawns s = None" "runtime_start spawns r = (Inr (), r1)" "runtime_terminate r1 = Inr r2"
    using that r by (auto simp: runtime_start_def start_services_def start_loop_all runtime_terminate_def runtime_terminated_def
        runtime_shutdown_def stop_services_def join_services_def called_def split: if_splits)
  show "fst (runtime_start spawns r) = Inl err \<and>
      rt_calls (snd (runtime_start spawns r)) = map Spawn (before @ [b]) @ map Terminate before @ map Join (rev before)"
    if "services = before @ b # later" "\<forall>s \<in> set before. spawns s = None" "spawns b = Some err"
    using that r by (simp add: runtime_start_def start_services_def start_loop_fails)
qed

text \<open>A shutdown of a runtime that does not run does nothing: a second one stops no service twice.\<close>

lemma shutdown_once: "runtime_shutdown (runtime_shutdown r) = runtime_shutdown r"
  by (simp add: runtime_shutdown_def stop_services_def join_services_def called_def)

text \<open>The first interrupt asks for the termination, the next one ends the process at once, so the handler itself never
  meets a full channel.\<close>

lemma second_interrupt_halts:
  "\<not> rt_termination r \<Longrightarrow> handle_interrupt 0 r = (1, Some (Inr (r\<lparr>rt_termination := True\<rparr>)))"
  "handle_interrupt 1 r = (2, None)"
  by (simp_all add: handle_interrupt_def runtime_terminate_def)

text \<open>Two signals before the first is taken: the second panics.\<close>

lemma second_signal_panics: "runtime_terminate r = Inr r1 \<Longrightarrow> \<exists>msg. runtime_terminate r1 = Inl (Panic msg)"
  by (auto simp: runtime_terminate_def split: if_splits)

end
