(* ===== verification/Daemon.thy ===== *)
theory Daemon
  imports Config Services "HOL-Library.List_Lexorder"
begin

text \<open>
  The command line of the daemon (\<^verbatim>\<open>krc721d/src/args.rs\<close>), what it selects (\<^verbatim>\<open>krc721d.rs\<close>: the command, the address of the
  node, the services and their order), and the node process it may start (\<^verbatim>\<open>kaspad/src\<close>). The matches of the
  command-line library are an argument: flags, values by name, and values that were declared as numbers.
\<close>

section \<open>Ports of the networks\<close>

definition default_kaspa_wrpc_port :: "network \<Rightarrow> nat" where
  "default_kaspa_wrpc_port n = (case n of Mainnet \<Rightarrow> 17110 | Testnet10 \<Rightarrow> 17210)"

definition default_krc721d_wrpc_port :: "network \<Rightarrow> nat" where
  "default_krc721d_wrpc_port n = (case n of Mainnet \<Rightarrow> 9900 | Testnet10 \<Rightarrow> 9901)"

definition default_krc721d_http_port :: "network \<Rightarrow> nat" where
  "default_krc721d_http_port n = (case n of Mainnet \<Rightarrow> 8800 | Testnet10 \<Rightarrow> 8801)"

definition default_krc721d_http_cluster_port :: "network \<Rightarrow> nat" where
  "default_krc721d_http_cluster_port n = (case n of Mainnet \<Rightarrow> 7700 | Testnet10 \<Rightarrow> 7701)"

section \<open>The command line\<close>

record cli_matches =
  cl_flag :: "string \<Rightarrow> bool"
  cl_one :: "string \<Rightarrow> ustring option"
  cl_contains :: "string \<Rightarrow> bool"
  cl_u64 :: "string \<Rightarrow> u64 option"
  cl_u32 :: "string \<Rightarrow> 32 word option res"

datatype mode =
    IndexerMode | ClusterMode | NotifierMode | ArchiveMode ustring | RestoreMode ustring
  | SyncMode "ustring option" | SyncResetMode "ustring option" | PurgeMode

datatype log_level = LevelTrace | LevelDebug | LevelInfo

record daemon_args =
  da_log_level :: log_level
  da_log_details :: bool
  da_trace_sync :: bool
  da_enable_debug_mode :: bool
  da_enable_http_server :: bool
  da_mode :: mode
  da_http_listen :: "ustring option"
  da_rpc_listen :: "ustring option"
  da_network :: network
  da_node_rpc :: "ustring option"
  da_is_kaspa_daemon :: bool
  da_run_kaspa_daemon :: bool
  da_utxo_index :: bool
  da_remote :: bool
  da_dry_run :: bool
  da_get_genesis :: bool
  da_init_genesis :: "ustring option"
  da_retention_period_days :: "32 word option"
  da_daa_ecdsa_fix :: "u64 option"

datatype stop = ExitCode nat | Stopped fault

definition mode_of :: "cli_matches \<Rightarrow> stop + mode" where
  "mode_of m =
     (case cl_one m ''archive'' of
        Some filename \<Rightarrow> Inr (ArchiveMode filename)
      | None \<Rightarrow>
     (case cl_one m ''restore'' of
        Some filename \<Rightarrow> Inr (RestoreMode filename)
      | None \<Rightarrow>
         if cl_contains m ''sync'' then Inr (SyncMode (cl_one m ''sync''))
         else if cl_contains m ''sync-reset'' then Inr (SyncResetMode (cl_one m ''sync-reset''))
         else if cl_flag m ''purge'' then Inr PurgeMode
         else (case (cl_flag m ''cluster'', cl_flag m ''notifier'') of
                 (True, True) \<Rightarrow> Inl (ExitCode 1)
               | (True, False) \<Rightarrow> Inr ClusterMode
               | (False, True) \<Rightarrow> Inr NotifierMode
               | (False, False) \<Rightarrow> Inr IndexerMode)))"

definition network_of :: "cli_matches \<Rightarrow> stop + network" where
  "network_of m =
     (if cl_flag m ''mainnet'' then Inr Mainnet
      else if cl_flag m ''testnet-10'' then Inr Testnet10
      else Inl (ExitCode 1))"

definition check_node_rpc :: "(ustring \<Rightarrow> network \<Rightarrow> bool) \<Rightarrow> network \<Rightarrow> bool \<Rightarrow> ustring option \<Rightarrow> stop + unit" where
  "check_node_rpc parse_url network remote node_rpc =
     (case node_rpc of
        None \<Rightarrow> Inr ()
      | Some node_url \<Rightarrow>
          if remote then Inl (ExitCode 1)
          else if \<not> parse_url node_url network then Inl (ExitCode 1)
          else Inr ())"

definition args_parse :: "(ustring \<Rightarrow> network \<Rightarrow> bool) \<Rightarrow> cli_matches \<Rightarrow> stop + daemon_args" where
  "args_parse parse_url m =
     (if cl_flag m ''version'' then Inl (ExitCode 0)
      else if \<not> cl_flag m ''local'' \<and> cl_flag m ''utxoindex'' then Inl (ExitCode 1)
      else
        and_then (mode_of m) (\<lambda>mode.
        and_then (network_of m) (\<lambda>network.
        and_then (check_node_rpc parse_url network (cl_flag m ''remote'') (cl_one m ''node-rpc'')) (\<lambda>_.
        case cl_u32 m ''retention-period-days'' of
          Inl f \<Rightarrow> Inl (Stopped f)
        | Inr retention \<Rightarrow>
            Inr \<lparr>da_log_level = (if cl_flag m ''trace'' then LevelTrace else if cl_flag m ''debug'' then LevelDebug else LevelInfo),
                 da_log_details = cl_flag m ''details'', da_trace_sync = cl_flag m ''trace-sync'',
                 da_enable_debug_mode = cl_flag m ''debug'',
                 da_enable_http_server = (if cl_flag m ''cluster'' then True else cl_flag m ''http''),
                 da_mode = mode, da_http_listen = cl_one m ''http-listen'', da_rpc_listen = cl_one m ''rpc-listen'',
                 da_network = network, da_node_rpc = cl_one m ''node-rpc'', da_is_kaspa_daemon = cl_flag m ''daemon'',
                 da_run_kaspa_daemon = cl_flag m ''local'', da_utxo_index = cl_flag m ''utxoindex'',
                 da_remote = cl_flag m ''remote'', da_dry_run = cl_flag m ''dry-run'', da_get_genesis = cl_flag m ''get-genesis'',
                 da_init_genesis = cl_one m ''init-genesis'', da_retention_period_days = retention,
                 da_daa_ecdsa_fix = cl_u64 m ''daa-ecdsa-fix''\<rparr>))))"

section \<open>What the daemon does\<close>

text \<open>The two options for the genesis come before the mode.\<close>

datatype command = GetGenesis | InitGenesis ustring | RunMode mode

definition command_of :: "daemon_args \<Rightarrow> command" where
  "command_of a =
     (if da_get_genesis a then GetGenesis
      else (case da_init_genesis a of Some init_genesis \<Rightarrow> InitGenesis init_genesis | None \<Rightarrow> RunMode (da_mode a)))"

definition node_rpc_of :: "daemon_args \<Rightarrow> ustring option" where
  "node_rpc_of a =
     (if da_run_kaspa_daemon a then Some (ascii ''ws://localhost:'' @ dec_digits (default_kaspa_wrpc_port (da_network a)))
      else if da_remote a then
        Some (ascii ''wss://'' @ network_to_string (da_network a) @ ascii ''.krc721.stream/kaspa/'' @
              network_to_string (da_network a) @ ascii ''/wrpc/borsh'')
      else da_node_rpc a)"

definition rpc_listen_of :: "daemon_args \<Rightarrow> ustring" where
  "rpc_listen_of a =
     (let rpc_listen = (case da_rpc_listen a of Some s \<Rightarrow> s | None \<Rightarrow> ascii ''0.0.0.0'') in
      if 58 \<notin> set rpc_listen then rpc_listen @ ascii '':'' @ dec_digits (default_krc721d_wrpc_port (da_network a))
      else rpc_listen)"

definition http_listen_of :: "daemon_args \<Rightarrow> ustring" where
  "http_listen_of a =
     (case da_http_listen a of
        Some s \<Rightarrow> s
      | None \<Rightarrow> ascii ''localhost:'' @
          dec_digits ((if da_mode a = ClusterMode then default_krc721d_http_cluster_port else default_krc721d_http_port) (da_network a)))"

datatype service = KaspadService | MetricsService | ProcessorService | NexusService | WrpcService | HttpService | ClusterService

definition services_of :: "daemon_args \<Rightarrow> service list" where
  "services_of a =
     (case da_mode a of
        ClusterMode \<Rightarrow> [ClusterService, HttpService]
      | IndexerMode \<Rightarrow>
          (if da_run_kaspa_daemon a then [KaspadService] else []) @
          [MetricsService, ProcessorService, NexusService, WrpcService] @
          (if da_enable_http_server a then [HttpService] else [])
      | _ \<Rightarrow> [])"

definition daemon_runtime :: "daemon_args \<Rightarrow> service runtime" where
  "daemon_runtime a = fold bind_service (services_of a) runtime_default"

section \<open>The node process\<close>

record 'f kaspad_config =
  kc_network :: network
  kc_utxo_index :: bool
  kc_enable_upnp :: bool
  kc_enable_wrpc_borsh :: bool
  kc_storage_folder :: "ustring option"
  kc_memory_scale :: "'f option"
  kc_retention_period_days :: "32 word option"

definition kaspad_config_new :: "network \<Rightarrow> 'f kaspad_config" where
  "kaspad_config_new network =
     \<lparr>kc_network = network, kc_utxo_index = False, kc_enable_upnp = False, kc_enable_wrpc_borsh = True,
      kc_storage_folder = None, kc_memory_scale = None, kc_retention_period_days = None\<rparr>"

text \<open>\<^verbatim>\<open>Arglist\<close> drops repeated arguments and sorts the rest.\<close>

definition arglist :: "ustring list \<Rightarrow> ustring list" where
  "arglist args = sort (remdups args)"

definition kaspad_arguments :: "('f \<Rightarrow> ustring) \<Rightarrow> 'f kaspad_config \<Rightarrow> ustring list" where
  "kaspad_arguments show_scale c =
     arglist
       ((case kc_network c of Mainnet \<Rightarrow> [] | Testnet10 \<Rightarrow> [ascii ''--testnet'', ascii ''--netsuffix=10'']) @
        [ascii ''--perf-metrics'', ascii ''--perf-metrics-interval-sec=1'', ascii ''--yes''] @
        (if kc_utxo_index c then [ascii ''--utxoindex''] else []) @
        (case kc_memory_scale c of Some s \<Rightarrow> [ascii ''--ram-scale='' @ show_scale s] | None \<Rightarrow> []) @
        (if \<not> kc_enable_upnp c then [ascii ''--disable-upnp''] else []) @
        [ascii ''--nogrpc''] @
        [(if kc_enable_wrpc_borsh c then ascii ''--rpclisten-borsh=0.0.0.0:'' else ascii ''--rpclisten-borsh=127.0.0.1:'') @
           dec_digits (default_kaspa_wrpc_port (kc_network c))] @
        (case kc_retention_period_days c of Some d \<Rightarrow> [ascii ''--retention-period-days='' @ dec_digits (unat d)] | None \<Rightarrow> []) @
        (case kc_storage_folder c of Some folder \<Rightarrow> [ascii ''--appdir='' @ folder] | None \<Rightarrow> []))"

text \<open>The configuration with which the daemon starts its node, given its folder for the node.\<close>

definition local_node_config :: "ustring \<Rightarrow> daemon_args \<Rightarrow> 'f kaspad_config" where
  "local_node_config folder a =
     (kaspad_config_new (da_network a))
       \<lparr>kc_storage_folder := Some folder, kc_utxo_index := da_utxo_index a,
        kc_retention_period_days := (case da_retention_period_days a of Some d \<Rightarrow> Some d | None \<Rightarrow> Some 7)\<rparr>"

text \<open>The task beside the process: a request to stop kills it, and only its end ends the task, which then answers.\<close>

datatype node_event = StopRequested | NodeExited | NodeLine ustring

record node_task =
  nt_running :: bool
  nt_kills :: nat
  nt_lines :: "ustring list"
  nt_answered :: bool

definition node_task_new :: node_task where
  "node_task_new = \<lparr>nt_running = True, nt_kills = 0, nt_lines = [], nt_answered = False\<rparr>"

definition node_task_step :: "node_event \<Rightarrow> node_task \<Rightarrow> node_task" where
  "node_task_step e t =
     (if nt_answered t then t
      else (case e of
        StopRequested \<Rightarrow> t\<lparr>nt_kills := nt_kills t + 1\<rparr>
      | NodeExited \<Rightarrow> t\<lparr>nt_running := False, nt_answered := True\<rparr>
      | NodeLine l \<Rightarrow> t\<lparr>nt_lines := nt_lines t @ [l]\<rparr>))"

section \<open>Properties of the command line\<close>

text \<open>A cluster always has a web server, but not every daemon with the flag is a cluster: the modes for snapshots come
  first. Options that contradict each other are refused, and the main network wins over the test network.\<close>

theorem parsed_arguments:
  assumes "args_parse parse_url m = Inr a"
  shows "(da_mode a = ClusterMode \<longrightarrow> da_enable_http_server a) \<and>
    (da_utxo_index a \<longrightarrow> da_run_kaspa_daemon a) \<and>
    (\<forall>url. da_node_rpc a = Some url \<longrightarrow> \<not> da_remote a \<and> parse_url url (da_network a)) \<and>
    (da_network a = Mainnet \<longleftrightarrow> cl_flag m ''mainnet'') \<and>
    \<not> cl_flag m ''version''"
proof -
  have v: "\<not> cl_flag m ''version''" "\<not> (\<not> cl_flag m ''local'' \<and> cl_flag m ''utxoindex'')"
    using assms by (auto simp: args_parse_def split: if_splits)
  obtain mo n where p: "mode_of m = Inr mo" "network_of m = Inr n"
      and c: "check_node_rpc parse_url n (cl_flag m ''remote'') (cl_one m ''node-rpc'') = Inr ()"
      and a: "da_mode a = mo" "da_network a = n" "da_enable_http_server a = (cl_flag m ''cluster'' \<or> cl_flag m ''http'')"
        "da_utxo_index a = cl_flag m ''utxoindex''" "da_run_kaspa_daemon a = cl_flag m ''local''"
        "da_node_rpc a = cl_one m ''node-rpc''" "da_remote a = cl_flag m ''remote''"
    using assms v by (cases "cl_u32 m ''retention-period-days''") (force simp: args_parse_def and_then_Inr_iff)+
  have "mo = ClusterMode \<Longrightarrow> cl_flag m ''cluster''"
    using p(1) by (cases "cl_flag m ''cluster''"; cases "cl_flag m ''notifier''")
      (simp_all add: mode_of_def split: option.splits if_splits)
  moreover have "n = Mainnet \<longleftrightarrow> cl_flag m ''mainnet''"
    using p(2) by (cases "cl_flag m ''mainnet''"; cases "cl_flag m ''testnet-10''") (auto simp: network_of_def)
  moreover have "\<not> cl_flag m ''remote'' \<and> parse_url url n" if "cl_one m ''node-rpc'' = Some url" for url
    using c that by (simp add: check_node_rpc_def split: if_splits)
  ultimately show ?thesis using v by (auto simp: a)
qed

text \<open>Every command line of an indexer without these conflicts is accepted.\<close>

theorem arguments_are_accepted:
  assumes "\<not> cl_flag m ''version''" and "cl_flag m ''utxoindex'' \<longrightarrow> cl_flag m ''local''"
    and "\<not> (cl_flag m ''cluster'' \<and> cl_flag m ''notifier'')" and "cl_flag m ''mainnet'' \<or> cl_flag m ''testnet-10''"
    and "\<forall>url n. cl_one m ''node-rpc'' = Some url \<longrightarrow> \<not> cl_flag m ''remote'' \<and> parse_url url n"
    and "cl_u32 m ''retention-period-days'' = Inr retention"
  shows "\<exists>a. args_parse parse_url m = Inr a"
proof -
  have "\<exists>mo. mode_of m = Inr mo"
    using assms(3) by (cases "cl_flag m ''cluster''"; cases "cl_flag m ''notifier''") (simp_all add: mode_of_def split: option.split)
  then obtain mo where "mode_of m = Inr mo" by blast
  moreover obtain n where "network_of m = Inr n" using assms(4) by (cases "cl_flag m ''mainnet''") (simp_all add: network_of_def)
  moreover have "check_node_rpc parse_url n (cl_flag m ''remote'') (cl_one m ''node-rpc'') = Inr ()"
    using assms(5) by (auto simp: check_node_rpc_def split: option.split)
  ultimately show ?thesis using assms(1,2,6) by (auto simp: args_parse_def)
qed

text \<open>Without an option the RPC server listens on all interfaces, at the port of the network.\<close>

lemma default_rpc_address:
  "da_rpc_listen a = None \<Longrightarrow>
   rpc_listen_of a = ascii ''0.0.0.0:'' @ dec_digits (case da_network a of Mainnet \<Rightarrow> 9900 | Testnet10 \<Rightarrow> 9901)"
  by (simp add: rpc_listen_of_def ascii_def default_krc721d_wrpc_port_def)

section \<open>The local node\<close>

text \<open>The indexer connects to the port on which the node it starts listens, and the node keeps the index of outputs
  only when it was asked to.\<close>

theorem local_node_is_the_one_connected_to:
  assumes "da_run_kaspa_daemon a"
  shows "\<exists>port. node_rpc_of a = Some (ascii ''ws://localhost:'' @ port) \<and>
    ascii ''--rpclisten-borsh=0.0.0.0:'' @ port \<in> set (kaspad_arguments show_scale (local_node_config folder a)) \<and>
    sorted (kaspad_arguments show_scale (local_node_config folder a)) \<and>
    distinct (kaspad_arguments show_scale (local_node_config folder a))"
  using assms by (simp add: node_rpc_of_def kaspad_arguments_def arglist_def local_node_config_def kaspad_config_new_def)

text \<open>The task of the node answers once, and only after the node has ended: what the runtime waits for.\<close>

lemma node_task_answers:
  "nt_answered (fold node_task_step es node_task_new) \<longleftrightarrow> NodeExited \<in> set es"
  "nt_running (fold node_task_step es node_task_new) \<longleftrightarrow> NodeExited \<notin> set es"
proof -
  have stay: "node_task_step e t = t" if "nt_answered t" for e t using that by (simp add: node_task_step_def)
  have f: "fold node_task_step es t = t" if "nt_answered t" for es t
    using that by (induction es) (simp_all add: stay)
  have step: "nt_answered (node_task_step e t) = (e = NodeExited)" "nt_running (node_task_step e t) = (e \<noteq> NodeExited)"
    if "\<not> nt_answered t" "nt_running t" for e t using that by (cases e; simp add: node_task_step_def)+
  have "nt_answered (fold node_task_step es t) = (NodeExited \<in> set es) \<and>
      nt_running (fold node_task_step es t) = (NodeExited \<notin> set es)" if "\<not> nt_answered t" "nt_running t" for t
    using that
  proof (induction es arbitrary: t)
    case (Cons e es)
    then show ?case using step [OF Cons.prems, of e] by (cases "e = NodeExited") (simp_all add: f)
  qed simp
  from this [of node_task_new] show "nt_answered (fold node_task_step es node_task_new) \<longleftrightarrow> NodeExited \<in> set es"
    "nt_running (fold node_task_step es node_task_new) \<longleftrightarrow> NodeExited \<notin> set es" by (simp_all add: node_task_new_def)
qed

text \<open>When the services of an indexer with a local node have all started and an interrupt comes, the node is the first
  to be stopped and the last to be waited for, and every other service is stopped and waited for once.\<close>

theorem local_node_is_joined_last:
  assumes "da_mode a = IndexerMode" and "da_run_kaspa_daemon a" and "\<forall>s \<in> set (services_of a). spawns s = None"
    and "runtime_start spawns (daemon_runtime a) = (Inr (), r1)" and "runtime_terminate r1 = Inr r2"
  shows "\<exists>others. services_of a = KaspadService # others \<and> distinct (services_of a) \<and>
    map_option rt_calls (runtime_terminated r2) =
      Some (map Spawn (services_of a) @ Terminate KaspadService # map Terminate others @ map Join (rev others) @ [Join KaspadService])"
proof -
  obtain others where o: "services_of a = KaspadService # others" "distinct (services_of a)"
    using assms(1,2) by (auto simp: services_of_def)
  from started_services_are_stopped(1) [OF daemon_runtime_def assms(3,4,5)] o show ?thesis by simp
qed

end
