(* ===== verification/RpcClient.thy ===== *)
theory RpcClient
  imports Messages
begin

text \<open>
  The life of an RPC client and the way of a notification to it (\<^verbatim>\<open>rpc/client/src/client.rs\<close>, \<^verbatim>\<open>rpc/server/src/connection.rs\<close>):
  the background service that moves notifications from the connection to the channel of the application is
  started on the first connection and stopped with it. The socket is an argument: whether a connection or a
  shutdown succeeds.
\<close>

section \<open>The client\<close>

text \<open>The relay channel has a receiver of its own and one more for each service that runs.\<close>

record 'n rpc_client =
  rl_background_services_running :: bool
  rl_services :: nat
  rl_connected :: bool
  rl_relay :: "'n list"
  rl_intake :: "'n list"

definition client_new :: "'n rpc_client" where
  "client_new = \<lparr>rl_background_services_running = False, rl_services = 0, rl_connected = False, rl_relay = [], rl_intake = []\<rparr>"

definition start_rpc_service :: "'n rpc_client \<Rightarrow> 'n rpc_client" where
  "start_rpc_service c = c\<lparr>rl_services := rl_services c + 1\<rparr>"

definition stop_rpc_service :: "'n rpc_client \<Rightarrow> 'n rpc_client" where
  "stop_rpc_service c = c\<lparr>rl_services := rl_services c - 1\<rparr>"

definition client_start :: "'n rpc_client \<Rightarrow> 'n rpc_client" where
  "client_start c =
     (if \<not> rl_background_services_running c then start_rpc_service (c\<lparr>rl_background_services_running := True\<rparr>) else c)"

definition client_stop :: "'n rpc_client \<Rightarrow> 'n rpc_client" where
  "client_stop c =
     (if rl_background_services_running c then (stop_rpc_service c)\<lparr>rl_background_services_running := False\<rparr> else c)"

datatype connect_strategy = Retry | Fallback

text \<open>\<^verbatim>\<open>connected\<close> is the outcome of the connection, \<^verbatim>\<open>closed\<close> that of the shutdown of the socket; the default
  strategy is the library's.\<close>

definition client_connect ::
  "connect_strategy \<Rightarrow> 'e + unit \<Rightarrow> 'e + unit \<Rightarrow> connect_strategy option \<Rightarrow> 'n rpc_client \<Rightarrow> ('e + unit) \<times> 'n rpc_client" where
  "client_connect default_strategy connected closed options c =
     (let strategy = (case options of Some s \<Rightarrow> s | None \<Rightarrow> default_strategy);
          c = client_start c
      in case connected of
           Inr v \<Rightarrow> (Inr v, c\<lparr>rl_connected := True\<rparr>)
         | Inl err \<Rightarrow>
             if strategy = Fallback
             then (case closed of
                     Inl err' \<Rightarrow> (Inl err', c)
                   | Inr _ \<Rightarrow> (Inl err, (client_stop c)\<lparr>rl_connected := False\<rparr>))
             else (Inl err, c))"

definition client_disconnect :: "'e + unit \<Rightarrow> 'n rpc_client \<Rightarrow> ('e + unit) \<times> 'n rpc_client" where
  "client_disconnect closed c =
     (case closed of
        Inl err \<Rightarrow> (Inl err, c)
      | Inr _ \<Rightarrow> (Inr (), client_stop (c\<lparr>rl_connected := False\<rparr>)))"

text \<open>\<^verbatim>\<open>connect_as_task\<close> connects without the background services.\<close>

definition client_connect_as_task :: "'e + unit \<Rightarrow> 'n rpc_client \<Rightarrow> 'n rpc_client" where
  "client_connect_as_task connected c = (case connected of Inr _ \<Rightarrow> c\<lparr>rl_connected := True\<rparr> | Inl _ \<Rightarrow> c)"

text \<open>The handler of notifications of the interface, and one step of the background service.\<close>

definition on_notification :: "'n \<Rightarrow> 'n rpc_client \<Rightarrow> 'n rpc_client" where
  "on_notification n c = (if 1 + rl_services c > 1 then c\<lparr>rl_relay := rl_relay c @ [n]\<rparr> else c)"

definition service_step :: "'n rpc_client \<Rightarrow> 'n rpc_client" where
  "service_step c =
     (if rl_services c = 0 then c
      else (case rl_relay c of [] \<Rightarrow> c | n # ns \<Rightarrow> c\<lparr>rl_relay := ns, rl_intake := rl_intake c @ [n]\<rparr>))"

definition negotiate :: "network \<Rightarrow> 'e + status_answer \<Rightarrow> ('e + (network \<times> network)) + status_answer" where
  "negotiate network_id answer =
     (case answer of
        Inl e \<Rightarrow> Inl (Inl e)
      | Inr status \<Rightarrow> if is_network status \<noteq> network_id then Inl (Inr (network_id, is_network status)) else Inr status)"

section \<open>The connection of the server\<close>

text \<open>
  A message is the operation and the bytes of its payload. \<^verbatim>\<open>Serializable\<close> writes and reads the notification with its
  \<^verbatim>\<open>Serializer\<close>; both encodings take the writer of the binary protocol.
\<close>

datatype encoding = EncodingBorsh | EncodingSerdeJson

definition create_serialized_notification_message ::
  "('o \<Rightarrow> 'm \<Rightarrow> 'w) \<Rightarrow> encoding \<Rightarrow> 'o \<Rightarrow> 'm \<Rightarrow> 'w" where
  "create_serialized_notification_message borsh_message encoding rpc_op msg =
     (case encoding of
        EncodingBorsh \<Rightarrow> borsh_message rpc_op msg
      | EncodingSerdeJson \<Rightarrow> borsh_message rpc_op msg)"

definition connection_notify :: "('o \<Rightarrow> bytes \<Rightarrow> 'w) \<Rightarrow> encoding \<Rightarrow> 'o \<Rightarrow> 'n codec \<Rightarrow> 'n \<Rightarrow> 'w" where
  "connection_notify borsh_message encoding op_notify c notification =
     create_serialized_notification_message borsh_message encoding op_notify (st c notification)"

text \<open>What the client does with the payload of a notification that arrives.\<close>

definition client_receive :: "'n codec \<Rightarrow> bytes \<Rightarrow> 'n rpc_client \<Rightarrow> 'n rpc_client" where
  "client_receive c payload cl = (case ld c payload of Some (n, _) \<Rightarrow> on_notification n cl | None \<Rightarrow> cl)"

section \<open>Notifications arrive\<close>

datatype ('e, 'n) client_event =
    Connect connect_strategy "'e + unit" "'e + unit" "connect_strategy option"
  | Disconnect "'e + unit"
  | ConnectAsTask "'e + unit"
  | Arrived bytes
  | ServiceTurn

definition client_step :: "'n codec \<Rightarrow> ('e, 'n) client_event \<Rightarrow> 'n rpc_client \<Rightarrow> 'n rpc_client" where
  "client_step c e cl =
     (case e of
        Connect default_strategy connected closed options \<Rightarrow> snd (client_connect default_strategy connected closed options cl)
      | Disconnect closed \<Rightarrow> snd (client_disconnect closed cl)
      | ConnectAsTask connected \<Rightarrow> client_connect_as_task connected cl
      | Arrived payload \<Rightarrow> client_receive c payload cl
      | ServiceTurn \<Rightarrow> service_step cl)"

definition one_service :: "'n rpc_client \<Rightarrow> bool" where
  "one_service c = (rl_services c = (if rl_background_services_running c then 1 else 0))"

text \<open>There is one background service while the flag is set, however often the client connects and fails to, and none
  otherwise: the flag and the service never part.\<close>

lemma one_service_kept: "one_service cl \<Longrightarrow> one_service (client_step c e cl)"
  by (cases e)
    (auto simp: client_step_def one_service_def client_connect_def client_disconnect_def client_connect_as_task_def client_start_def
      client_stop_def start_rpc_service_def stop_rpc_service_def client_receive_def on_notification_def service_step_def Let_def
      split: sum.split option.split list.split)

lemma one_service_run: "one_service (fold (client_step c) es client_new)"
proof -
  have "one_service cl \<Longrightarrow> one_service (fold (client_step c) es cl)" for cl
    by (induction es arbitrary: cl) (simp_all add: one_service_kept)
  then show ?thesis by (simp add: one_service_def client_new_def)
qed

text \<open>The notifications that a run takes in: those that arrive and can be read while the services run.\<close>

fun taken :: "'n codec \<Rightarrow> 'n rpc_client \<Rightarrow> ('e, 'n) client_event list \<Rightarrow> 'n list" where
  "taken c cl [] = []"
| "taken c cl (e # es) =
     (case e of
        Arrived payload \<Rightarrow>
          (case ld c payload of Some (n, _) \<Rightarrow> if rl_background_services_running cl then [n] else [] | None \<Rightarrow> [])
      | _ \<Rightarrow> []) @ taken c (client_step c e cl) es"

theorem notifications_are_kept_in_order:
  "rl_intake (fold (client_step c) es client_new) @ rl_relay (fold (client_step c) es client_new) = taken c client_new es"
proof -
  have step: "rl_intake (client_step c e cl) @ rl_relay (client_step c e cl) = rl_intake cl @ rl_relay cl @ taken c cl [e]"
    if "one_service cl" for e cl
    using that
    by (cases e)
      (auto simp: client_step_def one_service_def client_connect_def client_disconnect_def client_connect_as_task_def client_start_def
        client_stop_def start_rpc_service_def stop_rpc_service_def client_receive_def on_notification_def service_step_def Let_def
        split: sum.split option.split list.split if_splits)
  have "rl_intake (fold (client_step c) es cl) @ rl_relay (fold (client_step c) es cl) = rl_intake cl @ rl_relay cl @ taken c cl es"
    if "one_service cl" for cl
    using that
  proof (induction es arbitrary: cl)
    case (Cons e es)
    show ?case using Cons.IH [OF one_service_kept [OF Cons.prems, of c e]] step [OF Cons.prems, of e] by simp
  qed simp
  then show ?thesis by (simp add: one_service_def client_new_def)
qed

text \<open>A notification that a connection of the server sends is read as it was sent, and is in the channel of the
  application after as many turns of the service as there were notifications before it; a client that was connected
  as a task takes in nothing.\<close>

lemma service_turns:
  "rl_services cl \<noteq> 0 \<Longrightarrow> rl_intake ((service_step ^^ length (rl_relay cl)) cl) = rl_intake cl @ rl_relay cl"
proof (induction "rl_relay cl" arbitrary: cl)
  case (Cons n ns)
  have r: "rl_relay cl = n # ns" using Cons.hyps(2) by simp
  then have s: "service_step cl = cl\<lparr>rl_relay := ns, rl_intake := rl_intake cl @ [n]\<rparr>" using Cons.prems by (simp add: service_step_def)
  have "rl_intake ((service_step ^^ length ns) (service_step cl)) = rl_intake (service_step cl) @ ns"
    using Cons.hyps(1) [of "service_step cl"] Cons.prems by (simp add: s)
  then show ?case by (simp add: r s funpow_swap1)
qed simp

theorem notification_arrives:
  assumes "faithful c n" and "rl_background_services_running cl" and "one_service cl"
    and "connection_notify (\<lambda>rpc_op payload. payload) encoding op_notify c n = payload"
  shows "\<exists>k. rl_intake ((service_step ^^ k) (client_receive c payload cl)) = rl_intake cl @ rl_relay cl @ [n]"
proof -
  have "payload = st c n"
    using assms(4) by (simp add: connection_notify_def create_serialized_notification_message_def split: encoding.splits)
  then have "client_receive c payload cl = cl\<lparr>rl_relay := rl_relay cl @ [n]\<rparr>"
    using assms(1-3) by (auto simp: client_receive_def faithful_def on_notification_def one_service_def dest: spec [of _ "[]"])
  moreover have "rl_services cl \<noteq> 0" using assms(2,3) by (simp add: one_service_def)
  ultimately show ?thesis
    using service_turns [of "client_receive c payload cl"] by (intro exI [of _ "Suc (length (rl_relay cl))"]) simp
qed

lemma connected_as_task_takes_nothing:
  "client_receive c payload (client_connect_as_task connected client_new) = client_connect_as_task connected client_new"
  by (simp add: client_receive_def client_connect_as_task_def client_new_def on_notification_def split: option.split sum.split)

lemma negotiate_Inr: "negotiate network_id answer = Inr status \<longleftrightarrow> answer = Inr status \<and> is_network status = network_id"
  by (auto simp: negotiate_def split: sum.split if_splits)

end
