(* ===== verification/Notifier.thy ===== *)
theory Notifier
  imports RpcClient
begin

text \<open>
  The registry of subscriptions (\<^verbatim>\<open>nexus/src/notifier.rs\<close>) and the way of a notification to the clients it names. Clients
  are equal when their ids are; the errors of their interfaces are logged only, so a notification is the
  collection of the calls it makes.
\<close>

section \<open>Subscriptions\<close>

type_synonym 'a registry = "'a option \<Rightarrow> nat set option"

datatype notifier_error = NotImplemented

text \<open>The two arms of the match on the entry of the registry.\<close>

definition subscribe_at :: "'a option \<Rightarrow> nat \<Rightarrow> 'a registry \<Rightarrow> 'a registry" where
  "subscribe_at key client reg =
     (case reg key of
        Some clients \<Rightarrow> reg(key \<mapsto> insert client clients)
      | None \<Rightarrow> reg(key \<mapsto> {}))"

definition notifier_subscribe :: "'a subscription \<Rightarrow> nat \<Rightarrow> 'a registry \<Rightarrow> (notifier_error + unit) \<times> 'a registry" where
  "notifier_subscribe subscription client reg =
     (case subscription of
        SubscriptionAddress (Some addresses) \<Rightarrow> (Inr (), fold (\<lambda>a. subscribe_at (Some a) client) addresses reg)
      | SubscriptionAddress None \<Rightarrow> (Inr (), subscribe_at None client reg)
      | _ \<Rightarrow> (Inl NotImplemented, reg))"

text \<open>The clients of the address, then those of all addresses; each set in the order of its hash.\<close>

definition notifier_notify :: "('a, 'k) notification \<Rightarrow> 'a registry \<Rightarrow> nat set list" where
  "notifier_notify n reg =
     (case n of
        NotificationAddress a \<Rightarrow>
          (case reg (Some a) of None \<Rightarrow> [] | Some clients \<Rightarrow> [clients]) @ (case reg None of None \<Rightarrow> [] | Some clients \<Rightarrow> [clients])
      | _ \<Rightarrow> [])"

section \<open>Who is notified\<close>

fun keys_of :: "'a subscription \<Rightarrow> 'a option list" where
  "keys_of (SubscriptionAddress (Some addresses)) = map Some addresses"
| "keys_of (SubscriptionAddress None) = [None]"
| "keys_of _ = []"

definition registrations :: "('a subscription \<times> nat) list \<Rightarrow> ('a option \<times> nat) list" where
  "registrations subs = concat (map (\<lambda>(s, c). map (\<lambda>k. (k, c)) (keys_of s)) subs)"

definition after_subscriptions :: "('a subscription \<times> nat) list \<Rightarrow> 'a registry" where
  "after_subscriptions subs = fold (\<lambda>(s, c) reg. snd (notifier_subscribe s c reg)) subs Map.empty"

text \<open>The clients that have subscribed at a key, in order.\<close>

definition subscribers :: "'a option \<Rightarrow> ('a subscription \<times> nat) list \<Rightarrow> nat list" where
  "subscribers key subs = map snd (filter (\<lambda>(k, c). k = key) (registrations subs))"

lemma subscribe_keys: "snd (notifier_subscribe s c reg) = fold (\<lambda>k. subscribe_at k c) (keys_of s) reg"
  by (cases s rule: keys_of.cases) (simp_all add: notifier_subscribe_def fold_map o_def)

lemma fold_registrations:
  "fold (\<lambda>(s, c) reg. snd (notifier_subscribe s c reg)) subs reg = fold (\<lambda>(k, c). subscribe_at k c) (registrations subs) reg"
  by (induction subs arbitrary: reg) (auto simp: registrations_def subscribe_keys fold_map o_def)

lemma fold_subscribe_at:
  "fold (\<lambda>(k, c). subscribe_at k c) rs reg key =
     (let cs = map snd (filter (\<lambda>(k, c). k = key) rs) in
      case reg key of Some clients \<Rightarrow> Some (clients \<union> set cs) | None \<Rightarrow> if cs = [] then None else Some (set (tl cs)))"
proof (induction rs arbitrary: reg)
  case (Cons r rs)
  obtain k c where r: "r = (k, c)" by fastforce
  have "fold (\<lambda>(k, c). subscribe_at k c) (r # rs) reg key = fold (\<lambda>(k, c). subscribe_at k c) rs (subscribe_at k c reg) key"
    by (simp add: r)
  moreover have "subscribe_at k c reg key =
      (if k = key then Some (case reg key of Some clients \<Rightarrow> insert c clients | None \<Rightarrow> {}) else reg key)"
    by (simp add: subscribe_at_def split: option.split)
  ultimately show ?case using Cons.IH [of "subscribe_at k c reg"] by (simp add: r Let_def split: option.split)
qed (simp split: option.split)

text \<open>The first client that subscribes to an address is forgotten: the entry that its subscription makes is empty. All
  later ones are registered, and a client of an address and of all addresses is notified twice.\<close>

theorem first_subscriber_is_forgotten:
  "notifier_notify (NotificationAddress a) (after_subscriptions subs) =
    (if subscribers (Some a) subs = [] then [] else [set (tl (subscribers (Some a) subs))]) @
    (if subscribers None subs = [] then [] else [set (tl (subscribers None subs))])"
  unfolding notifier_notify_def after_subscriptions_def fold_registrations fold_subscribe_at subscribers_def
  by (simp add: Let_def)

section \<open>To the clients\<close>

text \<open>Each call of a connection sends the notification, which its client receives.\<close>

definition deliver :: "'n codec \<Rightarrow> encoding \<Rightarrow> 'n \<Rightarrow> nat set list \<Rightarrow> (nat \<Rightarrow> 'n rpc_client) \<Rightarrow> nat \<Rightarrow> 'n rpc_client" where
  "deliver c encoding n =
     fold (\<lambda>clients cls i.
       if i \<in> clients then client_receive c (connection_notify (\<lambda>rpc_op payload. payload) encoding () c n) (cls i) else cls i)"

lemma running_client_receives:
  assumes "faithful c n" "rl_background_services_running cl" "one_service cl"
  shows "client_receive c (connection_notify (\<lambda>rpc_op payload. payload) encoding op_notify c n) cl = cl\<lparr>rl_relay := rl_relay cl @ [n]\<rparr>"
  using assms
  by (auto simp: client_receive_def connection_notify_def create_serialized_notification_message_def faithful_def
      on_notification_def one_service_def split: encoding.split dest: spec [of _ "[]"])

text \<open>A running client takes in a notification about an address once for its subscription to the address and once for
  its subscription to all, unless it was the first one there.\<close>

theorem subscribed_clients_are_notified:
  fixes clients :: "nat \<Rightarrow> ('a, 'k) notification rpc_client"
  assumes "faithful c (NotificationAddress a)" and "rl_background_services_running (clients i)" and "one_service (clients i)"
  shows "rl_relay (deliver c encoding (NotificationAddress a)
      (notifier_notify (NotificationAddress a :: ('a, 'k) notification) (after_subscriptions subs)) clients i) =
    rl_relay (clients i) @
      replicate (of_bool (i \<in> set (tl (subscribers (Some a) subs))) + of_bool (i \<in> set (tl (subscribers None subs))))
        (NotificationAddress a)"
proof -
  have r: "client_receive c (connection_notify (\<lambda>rpc_op payload. payload) encoding () c (NotificationAddress a)) (clients i) =
      (clients i)\<lparr>rl_relay := rl_relay (clients i) @ [NotificationAddress a]\<rparr>"
    by (rule running_client_receives [OF assms])
  have r2: "client_receive c (connection_notify (\<lambda>rpc_op payload. payload) encoding () c (NotificationAddress a))
        ((clients i)\<lparr>rl_relay := rl_relay (clients i) @ [NotificationAddress a]\<rparr>) =
      (clients i)\<lparr>rl_relay := rl_relay (clients i) @ [NotificationAddress a, NotificationAddress a]\<rparr>"
    using assms(3) by (subst running_client_receives [OF assms(1)]) (simp_all add: assms(2) one_service_def)
  show ?thesis
    by (cases "subscribers (Some a) subs = []"; cases "subscribers None subs = []")
      (simp_all add: first_subscriber_is_forgotten deliver_def r r2)
qed

end
