(* ===== verification/Krc20.thy ===== *)
theory Krc20
  imports Codec Inscriptions
begin

text \<open>
  Operations of the neighbouring protocol KRC-20 (\<^verbatim>\<open>core/src/model/kasplex/v1\<close>), which notifications carry and which
  \<^verbatim>\<open>core/src/inscriptions/krc20.rs\<close> inscribes: the document with its versioned binary form and its builder. The
  codecs of the fields are derived by borsh and are an argument, as in \<^verbatim>\<open>Messages\<close>.
\<close>

section \<open>Data\<close>

datatype krc20_protocol = Krc20

datatype krc20_op = Krc20Deploy | Krc20Mint | Krc20Transfer

definition krc20_protocol_to_string :: "krc20_protocol \<Rightarrow> ustring" where
  "krc20_protocol_to_string p = (case p of Krc20 \<Rightarrow> ascii ''krc-20'')"

definition krc20_protocol_from_str :: "('a, 'p) node \<Rightarrow> ustring \<Rightarrow> krc20_protocol option" where
  "krc20_protocol_from_str node s =
     (if to_uppercase (char_to_uppercase node) s = ascii ''KRC-20'' then Some Krc20 else None)"

definition krc20_op_to_string :: "krc20_op \<Rightarrow> ustring" where
  "krc20_op_to_string p =
     (case p of Krc20Deploy \<Rightarrow> ascii ''deploy'' | Krc20Mint \<Rightarrow> ascii ''mint'' | Krc20Transfer \<Rightarrow> ascii ''transfer'')"

definition krc20_op_from_str :: "ustring \<Rightarrow> krc20_op option" where
  "krc20_op_from_str s =
     (if s = ascii ''deploy'' then Some Krc20Deploy
      else if s = ascii ''mint'' then Some Krc20Mint
      else if s = ascii ''transfer'' then Some Krc20Transfer
      else None)"

record token_transaction =
  kt_protocol :: krc20_protocol
  kt_op :: krc20_op
  kt_tick :: ustring
  kt_max :: "128 word option"
  kt_limit :: "128 word option"
  kt_decimal :: "u64 option"
  kt_amount :: "128 word option"
  kt_preallocated :: "128 word option"
  kt_from :: "ustring option"
  kt_to :: "ustring option"
  kt_op_score :: "u64 option"
  kt_hash_rev :: "hash option"
  kt_fee_rev :: "ustring option"
  kt_tx_accept :: "ustring option"
  kt_op_accept :: "ustring option"
  kt_op_error :: "ustring option"
  kt_mts_add :: "ustring option"
  kt_mts_mod :: "ustring option"

definition has_tick :: "('a, 'p) node \<Rightarrow> ustring \<Rightarrow> token_transaction \<Rightarrow> bool" where
  "has_tick node t x = (str_to_lowercase node (kt_tick x) = str_to_lowercase node t)"

text \<open>The builder has the fields of the document.\<close>

definition builder_new :: "krc20_protocol \<Rightarrow> krc20_op \<Rightarrow> ustring \<Rightarrow> token_transaction" where
  "builder_new p kind name =
     \<lparr>kt_protocol = p, kt_op = kind, kt_tick = name, kt_max = None, kt_limit = None, kt_decimal = None, kt_amount = None,
      kt_preallocated = None, kt_from = None, kt_to = None, kt_op_score = None, kt_hash_rev = None, kt_fee_rev = None,
      kt_tx_accept = None, kt_op_accept = None, kt_op_error = None, kt_mts_add = None, kt_mts_mod = None\<rparr>"

definition builder_max :: "128 word \<Rightarrow> token_transaction \<Rightarrow> token_transaction" where
  "builder_max x b = b\<lparr>kt_max := Some x\<rparr>"

definition builder_amount :: "128 word \<Rightarrow> token_transaction \<Rightarrow> token_transaction" where
  "builder_amount x b = b\<lparr>kt_amount := Some x\<rparr>"

definition builder_limit :: "128 word \<Rightarrow> token_transaction \<Rightarrow> token_transaction" where
  "builder_limit x b = b\<lparr>kt_limit := Some x\<rparr>"

definition builder_dec :: "u64 \<Rightarrow> token_transaction \<Rightarrow> token_transaction" where
  "builder_dec x b = b\<lparr>kt_decimal := Some x\<rparr>"

section \<open>Binary form\<close>

definition krc20_op_codec :: "byte codec \<Rightarrow> krc20_op codec" where
  "krc20_op_codec cu8 =
     \<lparr>st = \<lambda>p. st cu8 1 @ (case p of Krc20Deploy \<Rightarrow> st cu8 0 | Krc20Mint \<Rightarrow> st cu8 1 | Krc20Transfer \<Rightarrow> st cu8 2),
      ld = load cu8 (\<lambda>version.
        if version \<noteq> 1 then (\<lambda>_. None)
        else load cu8 (\<lambda>p.
          if p = 0 then loaded Krc20Deploy
          else if p = 1 then loaded Krc20Mint
          else if p = 2 then loaded Krc20Transfer
          else (\<lambda>_. None)))\<rparr>"

record krc20_wire =
  kw_u8 :: "byte codec"
  kw_protocol :: "krc20_protocol codec"
  kw_op :: "krc20_op codec"
  kw_string :: "ustring codec"
  kw_u128_option :: "128 word option codec"
  kw_u64_option :: "u64 option codec"
  kw_string_option :: "ustring option codec"
  kw_hash_option :: "hash option codec"

definition token_transaction_codec :: "krc20_wire \<Rightarrow> token_transaction codec" where
  "token_transaction_codec w =
     \<lparr>st = \<lambda>x. st (kw_u8 w) 1 @ st (kw_protocol w) (kt_protocol x) @ st (kw_op w) (kt_op x) @ st (kw_string w) (kt_tick x) @
        st (kw_u128_option w) (kt_max x) @ st (kw_u128_option w) (kt_limit x) @ st (kw_u64_option w) (kt_decimal x) @
        st (kw_u128_option w) (kt_amount x) @ st (kw_u128_option w) (kt_preallocated x) @
        st (kw_string_option w) (kt_from x) @ st (kw_string_option w) (kt_to x) @ st (kw_u64_option w) (kt_op_score x) @
        st (kw_hash_option w) (kt_hash_rev x) @ st (kw_string_option w) (kt_fee_rev x) @
        st (kw_string_option w) (kt_tx_accept x) @ st (kw_string_option w) (kt_op_accept x) @
        st (kw_string_option w) (kt_op_error x) @ st (kw_string_option w) (kt_mts_add x) @ st (kw_string_option w) (kt_mts_mod x),
      ld = load (kw_u8 w) (\<lambda>version.
        if version \<noteq> 1 then (\<lambda>_. None)
        else load (kw_protocol w) (\<lambda>p. load (kw_op w) (\<lambda>kind. load (kw_string w) (\<lambda>name.
          load (kw_u128_option w) (\<lambda>max_supply. load (kw_u128_option w) (\<lambda>limit. load (kw_u64_option w) (\<lambda>dec.
          load (kw_u128_option w) (\<lambda>amount. load (kw_u128_option w) (\<lambda>pre.
          load (kw_string_option w) (\<lambda>sender. load (kw_string_option w) (\<lambda>receiver. load (kw_u64_option w) (\<lambda>op_score.
          load (kw_hash_option w) (\<lambda>hash_rev. load (kw_string_option w) (\<lambda>fee_rev.
          load (kw_string_option w) (\<lambda>tx_accept. load (kw_string_option w) (\<lambda>op_accept.
          load (kw_string_option w) (\<lambda>op_error. load (kw_string_option w) (\<lambda>mts_add. load (kw_string_option w) (\<lambda>mts_mod.
          loaded \<lparr>kt_protocol = p, kt_op = kind, kt_tick = name, kt_max = max_supply, kt_limit = limit, kt_decimal = dec,
            kt_amount = amount, kt_preallocated = pre, kt_from = sender, kt_to = receiver, kt_op_score = op_score,
            kt_hash_rev = hash_rev, kt_fee_rev = fee_rev, kt_tx_accept = tx_accept, kt_op_accept = op_accept,
            kt_op_error = op_error, kt_mts_add = mts_add, kt_mts_mod = mts_mod\<rparr>)))))))))))))))))))\<rparr>"

section \<open>Demonstrations\<close>

definition PROTOCOL_KASPLEX_NAMESPACE :: bytes where
  "PROTOCOL_KASPLEX_NAMESPACE = [107, 97, 115, 112, 108, 101, 120]"

definition krc20_committed ::
  "('a, 'p) node \<Rightarrow> 'p \<Rightarrow> (token_transaction \<Rightarrow> bytes) \<Rightarrow> token_transaction \<Rightarrow> bytes \<Rightarrow> ('a \<times> bytes) analysis" where
  "krc20_committed node prfx to_json x key =
     (case redeem_pubkey node PROTOCOL_KASPLEX_NAMESPACE (to_json x) key of
        None \<Rightarrow> Inl (AnalyzerPanic ''unwrap'')
      | Some script_sig \<Rightarrow>
         (case extract_script_pub_key_address node (pay_to_script_hash_script node script_sig) prfx of
            None \<Rightarrow> Inl (AnalyzerPanic ''unwrap'')
          | Some p2sh \<Rightarrow> Inr (p2sh, script_sig)))"

definition krc20_protocol_unwrapped :: "('a, 'p) node \<Rightarrow> krc20_protocol analysis" where
  "krc20_protocol_unwrapped node =
     (case krc20_protocol_from_str node (ascii ''krc-20'') of None \<Rightarrow> Inl (AnalyzerPanic ''unwrap'') | Some p \<Rightarrow> Inr p)"

definition token_deploy_demo :: "('a, 'p) node \<Rightarrow> 'p \<Rightarrow> (token_transaction \<Rightarrow> bytes) \<Rightarrow> bytes \<Rightarrow> ('a \<times> bytes) analysis" where
  "token_deploy_demo node prfx to_json pubkey =
     and_then (krc20_protocol_unwrapped node) (\<lambda>p.
     krc20_committed node prfx to_json
       ((builder_new p Krc20Deploy (ascii ''KASPARTY''))
          \<lparr>kt_max := Some 100000000000000000, kt_limit := Some 100000000000, kt_preallocated := Some 100000000000,
           kt_decimal := Some 8\<rparr>) (slice 1 33 pubkey))"

definition token_mint_demo :: "('a, 'p) node \<Rightarrow> 'p \<Rightarrow> (token_transaction \<Rightarrow> bytes) \<Rightarrow> bytes \<Rightarrow> ('a \<times> bytes) analysis" where
  "token_mint_demo node prfx to_json pubkey =
     and_then (krc20_protocol_unwrapped node) (\<lambda>p.
     krc20_committed node prfx to_json (builder_new p Krc20Mint (ascii ''KASPA'')) (slice 1 33 pubkey))"

section \<open>Round trips\<close>

lemma krc20_op_from_to: "krc20_op_from_str (krc20_op_to_string p) = Some p"
  by (cases p) (simp_all add: krc20_op_from_str_def krc20_op_to_string_def ascii_def)

lemma krc20_op_from_str_Some: "krc20_op_from_str s = Some p \<longleftrightarrow> s = krc20_op_to_string p"
  by (cases p) (auto simp: krc20_op_from_str_def krc20_op_to_string_def ascii_def)

lemma faithful_krc20_op:
  assumes "\<And>b. faithful cu8 b"
  shows "faithful (krc20_op_codec cu8) p"
  using assms by (intro faithfulI; cases p) (simp_all add: krc20_op_codec_def)

theorem faithful_token_transaction:
  assumes "faithful (kw_u8 w) 1" "faithful (kw_protocol w) (kt_protocol x)" "faithful (kw_op w) (kt_op x)"
    and "faithful (kw_string w) (kt_tick x)"
    and "\<forall>v \<in> {kt_max x, kt_limit x, kt_amount x, kt_preallocated x}. faithful (kw_u128_option w) v"
    and "\<forall>v \<in> {kt_decimal x, kt_op_score x}. faithful (kw_u64_option w) v" and "faithful (kw_hash_option w) (kt_hash_rev x)"
    and "\<forall>v \<in> {kt_from x, kt_to x, kt_fee_rev x, kt_tx_accept x, kt_op_accept x, kt_op_error x, kt_mts_add x, kt_mts_mod x}.
      faithful (kw_string_option w) v"
  shows "faithful (token_transaction_codec w) x"
  using assms by (intro faithfulI) (simp add: token_transaction_codec_def)

text \<open>A value of another version is refused, whatever follows.\<close>

lemma other_version_is_refused:
  assumes "\<And>b. faithful (kw_u8 w) b" "version \<noteq> 1"
  shows "ld (token_transaction_codec w) (st (kw_u8 w) version @ rest) = None"
    and "ld (krc20_op_codec (kw_u8 w)) (st (kw_u8 w) version @ rest) = None"
  using assms by (simp_all add: token_transaction_codec_def krc20_op_codec_def)

end
