(* ===== verification/Spec2Isabelle.thy ===== *)
theory Spec2Isabelle
  imports Synchronisation Nexus GeneratorProperties HttpReads Daemon Notifier Krc20
begin

text \<open>
  A model of the KRC-721 indexer: from the transactions of accepted Kaspa blocks to the database of
  collections, tokens and listings, forward and back again over chain reorganisations.

  \<^bold>\<open>The program.\<close> A node reports accepted chain blocks and reorganisations. The syncer
  (\<^verbatim>\<open>nexus/src/syncer.rs\<close>) asks it for the blocks since the last known one, reconstructs the merge set of
  every chain block and passes each transaction to the analyzer (\<^verbatim>\<open>nexus/src/analyzer.rs\<close>), which reads
  an inscription from the signature script and makes an operation of it. The operations of a chain
  block, its entropy and its blue score form a merge set. The processor (\<^verbatim>\<open>nexus/src/processor.rs\<close>)
  removes what a reorganisation invalidates and adds the new merge sets, in one transaction of the
  database (\<^verbatim>\<open>database/src\<close>), whose partitions map keys to values in the order of the encoded keys. Two
  threads of the processor share the database: one applies what the syncer replays, the other the
  notifications of the node, which are stored in a queue while a replay runs.

  \<^bold>\<open>Theories and sources.\<close>
  \<^item> \<^verbatim>\<open>Prelude\<close>: results with an error on the left, byte strings with their order, big-endian words,
    saturating 64-bit arithmetic.
  \<^item> \<^verbatim>\<open>Partition\<close>: a partition as a sorted association list (\<^verbatim>\<open>Partition\<close> of \<^verbatim>\<open>database/partition.rs\<close>), and the
    interface of keys, the locale \<^verbatim>\<open>db_key\<close>: an encoding with a decoder whose bytes are ordered as the keys.
  \<^item> \<^verbatim>\<open>Tick\<close>, \<^verbatim>\<open>Keys\<close>, \<^verbatim>\<open>Queries\<close>, \<^verbatim>\<open>Stats\<close>: ticks (\<^verbatim>\<open>tick.rs\<close>), every key type with its encoding and its
    interpretation of \<^verbatim>\<open>db_key\<close>, the typed queries of \<^verbatim>\<open>partition.rs\<close>, the statistics record (\<^verbatim>\<open>stats.rs\<close>).
  \<^item> \<^verbatim>\<open>Model\<close>: operations, merge sets, values and the database record (\<^verbatim>\<open>core/src/model/krc721\<close>, \<^verbatim>\<open>database.rs\<close>).
  \<^item> \<^verbatim>\<open>TokenId\<close>, \<^verbatim>\<open>Scores\<close>: the random token ids and their rollback (\<^verbatim>\<open>processor/token_id.rs\<close>), and the
    scores of transactions (\<^verbatim>\<open>nexus/src/lib.rs\<close>).
  \<^item> \<^verbatim>\<open>Processor\<close>, \<^verbatim>\<open>Reorg\<close>: the forward and the backward half of \<^verbatim>\<open>processor.rs\<close>, one definition per handler
    and loop, and a whole chain change.
  \<^item> \<^verbatim>\<open>Ledger\<close>, \<^verbatim>\<open>Batches\<close>, \<^verbatim>\<open>AbstractLedger\<close>, \<^verbatim>\<open>ReorgExact\<close>, \<^verbatim>\<open>ReorgProperties\<close>, \<^verbatim>\<open>ChainBlocks\<close>: what holds of
    these definitions.
  \<^item> \<^verbatim>\<open>NotificationQueue\<close>, \<^verbatim>\<open>Tasks\<close>: the queue of notifications, the two threads with their channels, and
    their hand-over with the syncer's handlers, as a step function on the state of all of them.
  \<^item> \<^verbatim>\<open>Analyzer\<close>, \<^verbatim>\<open>Syncer\<close>, \<^verbatim>\<open>Synchronisation\<close>: \<^verbatim>\<open>analyzer.rs\<close> with the functions of \<^verbatim>\<open>core/src/inscriptions\<close> it
    calls, the reconstruction of \<^verbatim>\<open>syncer.rs\<close>, and one iteration of its loop.
  \<^item> \<^verbatim>\<open>UserJson\<close>: how an operation is read from the members of a JSON object (\<^verbatim>\<open>UserOperation\<close> of \<^verbatim>\<open>model.rs\<close> with its
    tick, variants and metadata); the parser of the text is an argument.
  \<^item> \<^verbatim>\<open>Inscriptions\<close>: the writers of inscriptions and the transaction that reveals one (\<^verbatim>\<open>core/src/inscriptions\<close>).
  \<^item> \<^verbatim>\<open>View\<close>, \<^verbatim>\<open>Accessor\<close>, \<^verbatim>\<open>ApiText\<close>: the read side. The views of \<^verbatim>\<open>nft_view.rs\<close> scan a partition from an
    offset and collect one row more than the page (\<^verbatim>\<open>utils.rs\<close>); the endpoints of \<^verbatim>\<open>accessor.rs\<close> resolve the
    request, make a page of the rows and turn scripts into addresses (wrappers of \<^verbatim>\<open>model.rs\<close>, requests of
    \<^verbatim>\<open>data.rs\<close>); \<^verbatim>\<open>ApiText\<close> has the texts of offsets and of available ranges.
  \<^item> \<^verbatim>\<open>Paging\<close>, \<^verbatim>\<open>ListEndpoints\<close>, \<^verbatim>\<open>HoldingsList\<close>, \<^verbatim>\<open>ReadModel\<close>: what holds of them. The locale \<^verbatim>\<open>paged_rows\<close> is
    the contract of a scan: from the offset of a row it goes on with that row.
  \<^item> \<^verbatim>\<open>Storage\<close>: the operations of \<^verbatim>\<open>partition.rs\<close> on the tree of bytes that is stored, for any key of \<^verbatim>\<open>db_key\<close> and
    any reader and writer of values (locale \<^verbatim>\<open>typed_tree\<close>).
  \<^item> \<^verbatim>\<open>Archive\<close>, \<^verbatim>\<open>ArchiveProperties\<close>, \<^verbatim>\<open>Generator\<close>, \<^verbatim>\<open>GeneratorProperties\<close>: snapshots (\<^verbatim>\<open>snapshot/src\<close>): the archive
    file with its chunks and the pool that compresses them, its restoration, the generator of a running indexer as
    steps of its requests and tasks, the receiver, and the synchronisation of the daemon. Files and databases
    are maps from paths.
  \<^item> \<^verbatim>\<open>Rejections\<close>: the ring of rejected transactions and the opening of the database (\<^verbatim>\<open>database.rs\<close>), and the
    lookup of a reason.
  \<^item> \<^verbatim>\<open>Nexus\<close>: the connection to the node (\<^verbatim>\<open>nexus/src/nexus.rs\<close>): the check of its version, the negotiation
    and the event loop, with the node's answers as part of the events and the calls as a list of effects.
  \<^item> \<^verbatim>\<open>Codec\<close>, \<^verbatim>\<open>Messages\<close>, \<^verbatim>\<open>Rpc\<close>, \<^verbatim>\<open>Cluster\<close>, \<^verbatim>\<open>ClusterProperties\<close>: the way of a query from another process. Readers
    and writers of binary values, the messages of \<^verbatim>\<open>rpc/core/src/message.rs\<close>, the calls of the indexer, the methods
    of its server and the calls of the client (\<^verbatim>\<open>rpc\<close>, \<^verbatim>\<open>macros/src/wrpc\<close>), and the cluster that passes every query
    of the data interface on to one of several indexers (\<^verbatim>\<open>cluster/src\<close>). A query on its own selects, acquires, calls and
    releases a connection (\<^verbatim>\<open>on_selected\<close>); in \<^verbatim>\<open>ClusterProperties\<close> the same steps interleave with those of other
    calls and of the connections: reading each flag, sorting, acquiring, releasing.
  \<^item> \<^verbatim>\<open>Latency\<close>, \<^verbatim>\<open>Http\<close>, \<^verbatim>\<open>HttpProperties\<close>, \<^verbatim>\<open>HttpReads\<close>: the web server (\<^verbatim>\<open>http/server/src\<close>) over an indexer or a
    cluster: the handlers of its routes with the documents and their status, the pages, the filter of
    addresses, the counter and the latencies. The route of a request and what the framework reads of its path and
    query are part of the request.
  \<^item> \<^verbatim>\<open>Config\<close>, \<^verbatim>\<open>Services\<close>, \<^verbatim>\<open>Daemon\<close>: the daemon around the indexer. Its configuration (\<^verbatim>\<open>krc721d/src/config.rs\<close>) and the
    block from which it starts, the life of its services (\<^verbatim>\<open>core/src/runtime\<close>) as a list of calls, its command line
    (\<^verbatim>\<open>args.rs\<close>) with what it selects, and the local node (\<^verbatim>\<open>kaspad/src\<close>).
  \<^item> \<^verbatim>\<open>Notifier\<close>, \<^verbatim>\<open>RpcClient\<close>: the registry of subscriptions (\<^verbatim>\<open>nexus/src/notifier.rs\<close>), which the daemon does not create
    yet, and the way of a notification over a connection of the server to the services of a client (\<^verbatim>\<open>rpc/client\<close>).
  \<^item> \<^verbatim>\<open>Krc20\<close>: the operations of the neighbouring protocol (\<^verbatim>\<open>core/src/model/kasplex\<close>), which notifications carry.

  \<^bold>\<open>State and errors.\<close> The database is a record with one field per partition; an operation returns it
  changed. The left of a result is an abort: a panic, an \<^verbatim>\<open>expect\<close>, or a storage error that ends the
  transaction. A context validation error is a value on the right, as it is in the source. Words keep
  their width and wrap as a release build does.

  \<^bold>\<open>What the lemmas show.\<close>
  \<^item> The abstract ledger (\<^verbatim>\<open>AbstractLedger\<close>): registered supplies, owners and listings as maps. Every
    handler is refused without effect or is one step of it; so owners change by transfers and sales only,
    and whatever is processed from an empty database, no supply is exceeded.
  \<^item> The ledger invariant (\<^verbatim>\<open>Ledger\<close>, \<^verbatim>\<open>Batches\<close>): holdings, histories, listings and the ranges of free ids
    agree. Operations in score order keep it and never abort.
  \<^item> Token ids (\<^verbatim>\<open>TokenId\<close>): a draw takes one free id, all ids are handed out once, a rollback is exact.
  \<^item> Reorganisations (\<^verbatim>\<open>ReorgExact\<close>, \<^verbatim>\<open>ReorgProperties\<close>): removing a batch from its score on restores the
    tokens, the registry and the operation indexes; \<^verbatim>\<open>ChainBlocks\<close> gives the chain blocks after a change.
  \<^item> The threads (\<^verbatim>\<open>NotificationQueue\<close>, \<^verbatim>\<open>Tasks\<close>): applying the queue is processing its notifications in order;
    the schedules of the threads are finite, and a state that is not synced never lacks a sync task. The two
    other promises have their limits in the disconnections that are reported while the state is not synced, which
    send a switch that nobody waits for: with none of them the threads exclude each other, and one breaks that;
    with one they come to rest with their channels drained, and two block them for good. Two more schedules show
    a synchronisation that stalls and a request to resynchronise that is lost.
  \<^item> The way in (\<^verbatim>\<open>Analyzer\<close>, \<^verbatim>\<open>Syncer\<close>): whatever the transactions hold, the operations that come out are
    ones the invariant of the processor allows, in score order; a reconstruction does not depend on the
    order of the node's answer. What a wallet writes and reveals is read as it was written, and the redeem script of
    a listing is read as the sale of the listed token, by the schema of \<^verbatim>\<open>UserJson\<close> (\<^verbatim>\<open>Inscriptions\<close>). \<^verbatim>\<open>Synchronisation\<close> shows where the loop ends and what it rolls back.
  \<^item> The way out: a client that follows the offsets receives every row once and comes to an end (\<^verbatim>\<open>Paging\<close>,
    \<^verbatim>\<open>ListEndpoints\<close>, \<^verbatim>\<open>HoldingsList\<close>), except for active listings and for pages of size zero. On a sound
    database, such as one that the processor has filled without removing a block, no list fails, and tokens, histories and free ids are answered as the
    abstract ledger has them (\<^verbatim>\<open>ReadModel\<close>).
  \<^item> Rejections: the reason of a transaction is answered exactly while its latest rejection is among the last
    million and no earlier one has left them since (\<^verbatim>\<open>Rejections\<close>), also over restarts.
  \<^item> Storage: after any updates the tree of bytes answers as the typed partition that the other theories use.
  \<^item> Snapshots: an archive restores to the database it was made of, an unfinished one is refused, and a client that
    synchronises from an idle server ends with its database (\<^verbatim>\<open>ArchiveProperties\<close>, \<^verbatim>\<open>GeneratorProperties\<close>); requests
    that overlap and archives that fail are told as they are.
  \<^item> The connection (\<^verbatim>\<open>Nexus\<close>): connections begin and end in turn, and the syncer hears of the end of each, before
    the next one, unless its listener could not be unregistered.
  \<^item> The cluster (\<^verbatim>\<open>Cluster\<close>, \<^verbatim>\<open>ClusterProperties\<close>): whatever the query, its answer is that of the accessor of the
    selected indexer, except for five queries that never succeed. The counts of the connections are right however
    calls overlap; a call that no other one disturbs goes to the least loaded indexer that reports itself synced, be
    it of another network, and calls that overlap may take the same one.
  \<^item> The web server (\<^verbatim>\<open>HttpProperties\<close>, \<^verbatim>\<open>HttpReads\<close>): over a cluster it gives the documents that the selected indexer
    gives for fourteen of its routes, with its own text for errors, and an error for the five others; over a database
    that the processor has filled without removing a block a readable request fails only for an address that does not
    convert; the filter, the counter and the latencies (\<^verbatim>\<open>Latency\<close>) do what they are for.
  \<^item> The daemon (\<^verbatim>\<open>Config\<close>, \<^verbatim>\<open>Services\<close>, \<^verbatim>\<open>Daemon\<close>): a tick that the configuration restricts is deployed by its holder
    only; every started service is stopped and waited for once, the local node last; options that contradict
    each other are refused. A client takes in the notifications that arrive while its services run, in order, and the first
    subscriber of an address is never notified (\<^verbatim>\<open>RpcClient\<close>, \<^verbatim>\<open>Notifier\<close>).

  \<^bold>\<open>Bounds.\<close> A page has at most fifty rows. No definition of the program needs fuel: loops run over the lists that the source collects first, and the
  parser of scripts stops because every opcode takes at least one byte. (The small JSON parser of \<^verbatim>\<open>UserJson\<close>, which shows
  that the assumption on parsers can be met, bounds the number of members by the length of the text.) The theorems on scores assume
  fewer merged blocks than the merge set limit and at most a thousand transactions of a block, which
  \<^verbatim>\<open>BLOCK_TX_CAPACITY\<close> fixes, and scores below \<open>2 ^ 64\<close>.

  \<^bold>\<open>Arguments.\<close> The node's script engine, its address codec and script builder, the JSON parser of
  inscriptions, the readers of the configuration and of the command line, the codecs and the transport of the RPC libraries, the compression and the hash of archives, the conversion of RPC transactions, the conversion of scripts to addresses, the
  JSON writers and the text of errors of the web server, and the Unicode tables of the standard library are arguments of the definitions; theorems name what they need of them.

  \<^bold>\<open>Not modelled.\<close> The storage engine below a partition, the performance counters of \<^verbatim>\<open>nexus/src/metrics.rs\<close>, sockets
  and the layers of the web framework, the libraries that read the command line and the configuration, logs and
  folders of the daemon, the wallets, the tools and the bindings: input and output around the indexer.
\<close>

end
